(* ===== verification/Prelude.thy ===== *)
theory Prelude
  imports Main "HOL-Library.Word" "HOL-Library.Multiset" "HOL-Library.Char_ord"
    "HOL-Library.List_Lexorder" "HOL-Library.Signed_Division"
begin

text \<open>
  What every component of the development shares: the types that stand for Go's
  own (64-bit integers, instants, UUIDs, results that are a value or an error),
  the model of the standard library calls the code makes on them, and the lemmas
  about sorting, searching and bounded arithmetic that carry the component proofs.
\<close>

named_theorems go_arith \<open>64-bit arithmetic: when an operation does not wrap\<close>
named_theorems window_simps \<open>half-open effective windows and channel eligibility\<close>

section \<open>Results\<close>

text \<open>
  A Go function returning \<open>(T, error)\<close> is a sum: \<open>Inl\<close> the error, \<open>Inr\<close> the value.
\<close>

definition is_ok :: "'e + 'a \<Rightarrow> bool" where
  "is_ok r = (case r of Inl _ \<Rightarrow> False | Inr _ \<Rightarrow> True)"

lemma is_ok_simps [simp]: "\<not> is_ok (Inl e)" "is_ok (Inr v)"
  by (simp_all add: is_ok_def)

lemma is_ok_iff: "is_ok r \<longleftrightarrow> (\<exists>v. r = Inr v)"
  by (cases r) simp_all

section \<open>int64\<close>

abbreviation MaxInt64 :: int where "MaxInt64 \<equiv> 9223372036854775807"
abbreviation MinInt64 :: int where "MinInt64 \<equiv> - 9223372036854775808"

text \<open>
  An \<open>int64\<close> is an \<open>int\<close> in two's complement range. Go's \<open>+\<close>, \<open>-\<close> and \<open>*\<close> wrap
  modulo \<open>2 ^ 64\<close>; \<open>wrap64\<close> is that reduction, written where the code performs an
  operation it does not check. Division and remainder truncate toward zero
  (\<open>sdiv\<close> and \<open>smod\<close> of the library).
\<close>

definition wrap64 :: "int \<Rightarrow> int" where
  "wrap64 x = (x + 9223372036854775808) mod 18446744073709551616 - 9223372036854775808"

definition int64 :: "int \<Rightarrow> bool" where
  "int64 x \<longleftrightarrow> MinInt64 \<le> x \<and> x \<le> MaxInt64"

definition int32 :: "int \<Rightarrow> bool" where
  "int32 x \<longleftrightarrow> - 2147483648 \<le> x \<and> x \<le> 2147483647"

definition wrap32 :: "int \<Rightarrow> int" where
  "wrap32 x = (x + 2147483648) mod 4294967296 - 2147483648"

lemma wrap32_id [go_arith]: "int32 x \<Longrightarrow> wrap32 x = x"
  by (simp add: int32_def wrap32_def)

lemma wrap64_range: "int64 (wrap64 x)"
proof -
  have "0 \<le> (x + 9223372036854775808) mod 18446744073709551616"
    and "(x + 9223372036854775808) mod 18446744073709551616 < 18446744073709551616"
    by simp_all
  then show ?thesis by (simp add: wrap64_def int64_def)
qed

lemma wrap64_id [go_arith]: "MinInt64 \<le> x \<Longrightarrow> x \<le> MaxInt64 \<Longrightarrow> wrap64 x = x"
  by (simp add: wrap64_def)

lemma wrap64_int64: "int64 x \<Longrightarrow> wrap64 x = x"
  by (simp add: int64_def wrap64_id)

lemma wrap64_above:
  "MaxInt64 < x \<Longrightarrow> x \<le> 2 * MaxInt64 + 1 \<Longrightarrow> wrap64 x = x - 18446744073709551616"
proof -
  assume "MaxInt64 < x" and "x \<le> 2 * MaxInt64 + 1"
  then have "(x + 9223372036854775808 - 18446744073709551616) mod 18446744073709551616 =
      x + 9223372036854775808 - 18446744073709551616"
    by (intro mod_pos_pos_trivial) simp_all
  moreover have "(x + 9223372036854775808 - 18446744073709551616) mod 18446744073709551616 =
      (x + 9223372036854775808) mod 18446744073709551616"
    by (rule minus_mod_self2)
  ultimately show ?thesis by (simp add: wrap64_def)
qed

lemma wrap64_wrap64_add [simp]: "wrap64 (wrap64 x + y) = wrap64 (x + y)"
proof -
  have "(wrap64 x + y + 9223372036854775808) mod 18446744073709551616 =
      ((x + 9223372036854775808) mod 18446744073709551616 + y) mod 18446744073709551616"
    by (simp add: wrap64_def)
  also have "\<dots> = (x + 9223372036854775808 + y) mod 18446744073709551616"
    by (rule mod_add_left_eq)
  also have "\<dots> = (x + y + 9223372036854775808) mod 18446744073709551616"
    by (simp add: algebra_simps)
  finally show ?thesis by (simp add: wrap64_def)
qed

lemma sdiv_nonneg [go_arith]: "0 \<le> a \<Longrightarrow> 0 < b \<Longrightarrow> a sdiv b = a div (b::int)"
  by (cases "a = 0") (simp_all add: signed_divide_int_def)

lemma smod_nonneg [go_arith]: "0 \<le> a \<Longrightarrow> 0 < b \<Longrightarrow> a smod b = a mod (b::int)"
  by (cases "a = 0") (simp_all add: signed_modulo_int_def signed_divide_int_def minus_div_mult_eq_mod)

lemma le_div_iff_mult_le_int: "b \<le> m div a \<longleftrightarrow> b * a \<le> m" if "0 < a" for a b m :: int
proof
  assume "b \<le> m div a"
  then have "b * a \<le> m div a * a" using that by simp
  also have "\<dots> \<le> m" using that by (simp add: minus_mod_eq_div_mult [symmetric])
  finally show "b * a \<le> m" .
next
  assume "b * a \<le> m"
  then have "b * a div a \<le> m div a" using that by (rule zdiv_mono1)
  then show "b \<le> m div a" using that by simp
qed

section \<open>Instants\<close>

text \<open>
  A \<open>time.Time\<close> is the number of nanoseconds since Go's zero time (January 1, year 1,
  UTC), so \<open>IsZero\<close> compares with \<open>0\<close> and \<open>t.Before(u)\<close> is \<open>t < u\<close>.
\<close>

type_synonym time = int

definition IsZero :: "time \<Rightarrow> bool" where "IsZero t = (t = 0)"

definition Before :: "time \<Rightarrow> time \<Rightarrow> bool" where "Before t u = (t < u)"

text \<open>\<open>t.UTC().Truncate(time.Microsecond)\<close>, what a \<open>timestamptz\<close> keeps of an instant.\<close>

definition truncateMicro :: "time \<Rightarrow> time" where
  "truncateMicro t = t - t mod 1000"

section \<open>UUIDs and their printed order\<close>

text \<open>
  A \<open>uuid.UUID\<close> is sixteen bytes. The code orders identifiers by \<open>String()\<close>, the
  lower-case hexadecimal form with dashes, compared byte by byte. That order is
  the numeric order of the 128-bit value.
\<close>

type_synonym uuid = "128 word"

abbreviation uuid_Nil :: uuid where "uuid_Nil \<equiv> 0"

definition hexChar :: "nat \<Rightarrow> char" where
  "hexChar d = (if d < 10 then char_of (48 + d) else char_of (87 + d))"

fun hexDigits :: "nat \<Rightarrow> nat \<Rightarrow> nat list" where
  "hexDigits 0 x = []"
| "hexDigits (Suc n) x = (x div 16 ^ n) mod 16 # hexDigits n (x mod 16 ^ n)"

definition uuidHex :: "uuid \<Rightarrow> string" where
  "uuidHex u = map hexChar (hexDigits 32 (unat u))"

definition uuid_String :: "uuid \<Rightarrow> string" where
  "uuid_String u = (let h = uuidHex u in
     take 8 h @ ''-'' @ take 4 (drop 8 h) @ ''-'' @ take 4 (drop 12 h) @ ''-'' @
     take 4 (drop 16 h) @ ''-'' @ drop 20 h)"

lemma length_hexDigits [simp]: "length (hexDigits n x) = n"
  by (induction n arbitrary: x) simp_all

lemma uuid_String_length [simp]: "length (uuid_String u) = 36"
  by (simp add: uuid_String_def uuidHex_def Let_def)

lemma hexDigits_bound: "\<forall>d \<in> set (hexDigits n x). d < 16"
  by (induction n arbitrary: x) simp_all

lemma div_mod_less_iff:
  fixes x y b :: nat
  assumes "0 < b"
  shows "x < y \<longleftrightarrow> x div b < y div b \<or> x div b = y div b \<and> x mod b < y mod b"
proof -
  have x: "x = b * (x div b) + x mod b" and y: "y = b * (y div b) + y mod b" by simp_all
  have bx: "x mod b < b" and b_y: "y mod b < b" using assms by simp_all
  consider "x div b < y div b" | "x div b = y div b" | "y div b < x div b" by arith
  then show ?thesis
  proof cases
    case 1
    then have "x < y" using div_le_mono [of y x b] by (meson leD leI)
    with 1 show ?thesis by simp
  next
    case 2
    then have "x < y \<longleftrightarrow> x mod b < y mod b"
      using x y by (metis add_less_cancel_left)
    with 2 show ?thesis by simp
  next
    case 3
    then have "\<not> x < y" using div_le_mono [of x y b] by (meson less_imp_le_nat leD)
    with 3 show ?thesis by simp
  qed
qed

lemma hexDigits_less:
  "x < 16 ^ n \<Longrightarrow> y < 16 ^ n \<Longrightarrow> hexDigits n x < hexDigits n y \<longleftrightarrow> x < y"
proof (induction n arbitrary: x y)
  case 0
  then show ?case by simp
next
  case (Suc n)
  have "x div 16 ^ n < 16" and "y div 16 ^ n < 16"
    using Suc.prems by (simp_all add: less_mult_imp_div_less)
  then show ?case
    using Suc.IH [of "x mod 16 ^ n" "y mod 16 ^ n"] div_mod_less_iff [of "16 ^ n" x y]
    by simp
qed

lemma map_less_iff:
  fixes f :: "nat \<Rightarrow> char"
  assumes "\<And>d e. d < 16 \<Longrightarrow> e < 16 \<Longrightarrow> f d < f e \<longleftrightarrow> d < e"
    and "\<And>d e. d < 16 \<Longrightarrow> e < 16 \<Longrightarrow> f d = f e \<longleftrightarrow> d = e"
    and "\<forall>d \<in> set xs. d < 16" and "\<forall>d \<in> set ys. d < 16"
  shows "map f xs < map f ys \<longleftrightarrow> xs < ys"
  using assms(3,4)
proof (induction xs arbitrary: ys)
  case Nil
  then show ?case by (cases ys) simp_all
next
  case (Cons a xs)
  then show ?case using assms(1,2) by (cases ys) simp_all
qed

lemma hexChar_less: "d < 16 \<Longrightarrow> e < 16 \<Longrightarrow> hexChar d < hexChar e \<longleftrightarrow> d < e"
  by (auto simp: hexChar_def less_char_def)

lemma hexChar_eq: "d < 16 \<Longrightarrow> e < 16 \<Longrightarrow> hexChar d = hexChar e \<longleftrightarrow> d = e"
  using hexChar_less [of d e] hexChar_less [of e d] by (metis linorder_neq_iff)

lemma append_less_iff:
  "length xs = length ys \<Longrightarrow>
   xs @ zs < ys @ ws \<longleftrightarrow> xs < ys \<or> xs = ys \<and> zs < (ws :: 'a :: order list)"
  by (induction xs ys rule: list_induct2) auto

lemma uuidHex_less: "uuidHex u < uuidHex v \<longleftrightarrow> u < v"
proof -
  have "unat u < 16 ^ 32" and "unat v < 16 ^ 32"
    using unsigned_less [of u, where 'a = nat] unsigned_less [of v, where 'a = nat] by simp_all
  then have "hexDigits 32 (unat u) < hexDigits 32 (unat v) \<longleftrightarrow> u < v"
    using hexDigits_less by (simp add: word_less_nat_alt)
  moreover have "uuidHex u < uuidHex v \<longleftrightarrow> hexDigits 32 (unat u) < hexDigits 32 (unat v)"
    unfolding uuidHex_def
    by (rule map_less_iff) (simp_all add: hexChar_less hexChar_eq hexDigits_bound)
  ultimately show ?thesis by simp
qed

lemma dash_less_iff:
  "length xs = length ys \<Longrightarrow> length xs = n \<Longrightarrow>
   (xs @ c # zs < ys @ c # ws) \<longleftrightarrow> (xs @ zs < ys @ (ws :: 'a :: linorder list))"
  by (simp add: append_less_iff)

text \<open>Inserting the dashes at fixed places leaves the order alone.\<close>

lemma uuid_String_less [simp]: "uuid_String u < uuid_String v \<longleftrightarrow> u < v"
proof -
  define h g where "h = uuidHex u" and "g = uuidHex v"
  have len: "length h = 32" "length g = 32" by (simp_all add: h_def g_def uuidHex_def)
  have split: "k = take 8 k @ take 4 (drop 8 k) @ take 4 (drop 12 k) @ take 4 (drop 16 k) @ drop 20 k"
    for k :: string
    using append_take_drop_id [of 8 k] append_take_drop_id [of 4 "drop 8 k"]
      append_take_drop_id [of 4 "drop 12 k"] append_take_drop_id [of 4 "drop 16 k"]
    by simp
  have "h < g \<longleftrightarrow>
      take 8 h @ take 4 (drop 8 h) @ take 4 (drop 12 h) @ take 4 (drop 16 h) @ drop 20 h <
      take 8 g @ take 4 (drop 8 g) @ take 4 (drop 12 g) @ take 4 (drop 16 g) @ drop 20 g"
    using split [of h] split [of g] by simp
  then have "uuid_String u < uuid_String v \<longleftrightarrow> h < g"
    unfolding uuid_String_def Let_def h_def [symmetric] g_def [symmetric]
    by (simp add: append_less_iff len)
  then show ?thesis by (simp add: h_def g_def uuidHex_less)
qed

lemma uuid_String_le [simp]: "uuid_String u \<le> uuid_String v \<longleftrightarrow> u \<le> v"
  by (metis leD leI uuid_String_less)

lemma uuid_String_eq [simp]: "uuid_String u = uuid_String v \<longleftrightarrow> u = v"
  by (metis antisym order_refl uuid_String_le)

section \<open>Sorting by identifier\<close>

text \<open>
  \<open>sort.Slice\<close> with the order of \<open>ID.String()\<close>. Go's sort is not stable; where two
  elements share an identifier the library leaves their order open, and the model
  takes the stable one. On distinct identifiers every sort gives this list
  (\<open>sortByID_unique\<close>).
\<close>

definition sortByID :: "('r \<Rightarrow> uuid) \<Rightarrow> 'r list \<Rightarrow> 'r list" where
  "sortByID f rs = sort_key (\<lambda>r. uuid_String (f r)) rs"

lemma insort_key_mono:
  assumes "\<And>x y. g x \<le> g y \<longleftrightarrow> x \<le> y"
  shows "insort_key (\<lambda>r. g (f r)) x xs = insort_key f x xs"
  by (induction xs) (simp_all add: assms)

lemma sort_key_mono:
  assumes "\<And>x y. g x \<le> g y \<longleftrightarrow> x \<le> y"
  shows "sort_key (\<lambda>r. g (f r)) xs = sort_key f xs"
  by (induction xs) (simp_all add: insort_key_mono [OF assms])

lemma sortByID_eq: "sortByID f rs = sort_key f rs"
  unfolding sortByID_def by (rule sort_key_mono) simp

lemma set_sortByID [simp]: "set (sortByID f rs) = set rs"
  and mset_sortByID [simp]: "mset (sortByID f rs) = mset rs"
  and length_sortByID [simp]: "length (sortByID f rs) = length rs"
  and sortByID_Nil [simp]: "sortByID f [] = []"
  and sorted_sortByID [simp]: "sorted (map f (sortByID f rs))"
  by (simp_all add: sortByID_eq)

lemma distinct_map_sortByID [simp]: "distinct (map g (sortByID f rs)) = distinct (map g rs)"
  by (metis mset_map mset_sortByID mset_eq_imp_distinct_iff)

lemma filter_sortByID: "filter P (sortByID f rs) = sortByID f (filter P rs)"
  by (simp add: sortByID_eq filter_sort)

lemma map_sortByID: "map f (sortByID f rs) = sort (map f rs)"
  by (metis mset_map mset_sortByID sorted_sortByID properties_for_sort)

lemma sortByID_unique:
  assumes "mset xs = mset rs" and "distinct (map f rs)" and "sorted (map f xs)"
  shows "sortByID f rs = xs"
  unfolding sortByID_eq
  by (rule sort_key_inj_key_eq) (use assms in \<open>simp_all add: distinct_map\<close>)

lemma sortByID_perm:
  assumes "mset xs = mset ys" and "distinct (map f xs)"
  shows "sortByID f xs = sortByID f ys"
  by (rule sortByID_unique) (use assms in simp_all)

section \<open>Loops over a slice\<close>

text \<open>
  The guard \<open>if _, dup := seen[id]; dup\<close> walked over a slice: the first identifier met
  a second time, if there is one.
\<close>

fun firstDuplicate :: "'k list \<Rightarrow> 'k list \<Rightarrow> 'k option" where
  "firstDuplicate seen [] = None"
| "firstDuplicate seen (x # xs) =
     (if x \<in> set seen then Some x else firstDuplicate (x # seen) xs)"

lemma firstDuplicate_None_iff:
  "firstDuplicate seen xs = None \<longleftrightarrow> distinct xs \<and> set xs \<inter> set seen = {}"
  by (induction xs arbitrary: seen) auto

lemma firstDuplicate_NoneD [dest]: "firstDuplicate [] xs = None \<Longrightarrow> distinct xs"
  by (simp add: firstDuplicate_None_iff)

lemma firstDuplicate_Some_not_distinct: "firstDuplicate [] xs = Some d \<Longrightarrow> \<not> distinct xs"
  by (metis firstDuplicate_None_iff option.distinct(1) empty_set inf_bot_right)

lemma find_filter: "find P xs = (case filter P xs of [] \<Rightarrow> None | x # _ \<Rightarrow> Some x)"
  by (induction xs) simp_all

text \<open>Which identifier a search of a sorted slice reports does not depend on the input order.\<close>

lemma union_parts:
  fixes S :: "'a multiset"
  shows "R + W = E \<Longrightarrow> L + E = S \<Longrightarrow> M = L + R \<Longrightarrow> V = W \<Longrightarrow> M + V = S"
  by (simp add: add.assoc)

lemma distinct_map_perm:
  "mset xs = mset ys \<Longrightarrow> distinct (map f xs) \<longleftrightarrow> distinct (map f ys)"
  by (rule mset_eq_imp_distinct_iff) simp

lemma sort_map_perm: "mset xs = mset ys \<Longrightarrow> sort (map f xs) = sort (map f ys)"
  by (rule properties_for_sort) simp_all

lemma find_sortByID_perm:
  assumes "mset xs = mset ys"
  shows "map_option f (find P (sortByID f xs)) = map_option f (find P (sortByID f ys))"
proof -
  have hd_eq: "map_option f (find P (sortByID f zs)) =
      (case sort (map f (filter P zs)) of [] \<Rightarrow> None | x # _ \<Rightarrow> Some x)" for zs
  proof -
    have "map_option f (find P (sortByID f zs)) =
        (case map f (filter P (sortByID f zs)) of [] \<Rightarrow> None | x # _ \<Rightarrow> Some x)"
      by (simp add: find_filter split: list.splits)
    then show ?thesis by (simp add: filter_sortByID map_sortByID)
  qed
  have "sort (map f (filter P xs)) = sort (map f (filter P ys))"
    by (rule sort_map_perm) (use assms in simp)
  then show ?thesis by (simp add: hd_eq)
qed

lemma find_SomeD: "find P xs = Some x \<Longrightarrow> x \<in> set xs \<and> P x"
  by (induction xs) (auto split: if_splits)

lemma find_None_iff_filter: "find P xs = None \<longleftrightarrow> (\<forall>x \<in> set xs. \<not> P x)"
  by (auto simp: find_None_iff)

text \<open>The duplicate guard followed by a search for an offending element.\<close>

lemma guarded_checks_None:
  "(case firstDuplicate [] ids of
      Some d \<Rightarrow> Some (E d)
    | None \<Rightarrow> (case find P ys of Some r \<Rightarrow> Some (F r) | None \<Rightarrow> None)) = None \<longleftrightarrow>
   distinct ids \<and> (\<forall>y \<in> set ys. \<not> P y)"
proof (cases "firstDuplicate [] ids")
  case None
  then show ?thesis
    by (auto simp: find_None_iff_filter firstDuplicate_None_iff split: option.splits dest: find_SomeD)
next
  case (Some d)
  then show ?thesis by (simp add: firstDuplicate_Some_not_distinct)
qed

lemma guarded_checks_Some:
  assumes "distinct ids"
  shows "(case firstDuplicate [] ids of
      Some d \<Rightarrow> Some (E d)
    | None \<Rightarrow> (case find P ys of Some r \<Rightarrow> Some (F r) | None \<Rightarrow> None)) = map_option F (find P ys)"
proof -
  have "firstDuplicate [] ids = None" using assms by (simp add: firstDuplicate_None_iff)
  then show ?thesis by (simp split: option.split)
qed

lemma find_Some_ex: "(\<exists>r. find P ys = Some r) \<longleftrightarrow> (\<exists>y \<in> set ys. P y)"
  by (metis find_None_iff_filter not_None_eq)

end
