(* ===== verification/Rule_Ranking.thy ===== *)
theory Rule_Ranking
  imports Prelude
begin

text \<open>
  What the three rule resolvers of catalog (price rules, fee rules, split schedules)
  have in common: the scope levels and their rank, the reasons a candidate loses,
  the forced partition and the loop that keeps the best candidate. The resolvers
  repeat their comparators on purpose (ADR-046); the contract those comparators all
  satisfy is the locale \<open>rule_axes\<close>, and what follows from it is proved once here.
\<close>

section \<open>Scope levels (pricing.go)\<close>

text \<open>
  \<open>ScopeLevel\<close> is a string type with five named values; \<open>ScopeOther\<close> is any other
  string. The Go map \<open>scopeRank\<close> answers the zero value for such a key.
\<close>

datatype ScopeLevel =
  ScopeTicketType | ScopeSlot | ScopeSeries | ScopeEvent | ScopeVenue | ScopeOther string

fun scopeRank :: "ScopeLevel \<Rightarrow> int" where
  "scopeRank ScopeTicketType = 0"
| "scopeRank ScopeSlot = 1"
| "scopeRank ScopeSeries = 2"
| "scopeRank ScopeEvent = 3"
| "scopeRank ScopeVenue = 4"
| "scopeRank (ScopeOther _) = 0"

fun knownLevel :: "ScopeLevel \<Rightarrow> bool" where
  "knownLevel (ScopeOther _) = False"
| "knownLevel _ = True"

lemma scopeRank_inj:
  "knownLevel a \<Longrightarrow> knownLevel b \<Longrightarrow> scopeRank a = scopeRank b \<longleftrightarrow> a = b"
  by (cases a; cases b) simp_all

record PricingScopes =
  TicketTypeID :: uuid
  SlotID :: uuid
  SeriesID :: "uuid option"
  EventID :: uuid
  VenueID :: uuid

record Money =
  Amount :: int
  Currency :: string

datatype LossReason =
    ReasonLessSpecific
  | ReasonForcedBroaderScope
  | ReasonExcludedByForcedRule
  | ReasonLowerForcedScope
  | ReasonLowerPriority
  | ReasonStableIDTiebreak
  | ReasonOutsideWindowPast
  | ReasonOutsideWindowFuture
  | ReasonLessChannelSpecific

text \<open>
  The errors of catalog's store package on the resolution path. The two
  resolution errors carry the identifier their message names; \<open>IndexPanic\<close> is Go's
  run-time panic on an index out of range.
\<close>

datatype store_error =
    ErrNotFound
  | ErrDuplicatePriceRuleID uuid
  | ErrPriceRuleCurrencyMismatch uuid
  | ErrDuplicateFeeRuleID uuid
  | ErrFeeRuleCurrencyMismatch uuid
  | IndexPanic

section \<open>The forced partition and the displacement loop\<close>

text \<open>
  \<^verbatim>\<open>
  winner := competition[0]
  for _, r := range competition[1:] { if beats(r, winner, forcedPresent) { winner = r } }
  \<close>
\<close>

fun displaceLoop :: "('r \<Rightarrow> 'r \<Rightarrow> bool) \<Rightarrow> 'r \<Rightarrow> 'r list \<Rightarrow> 'r" where
  "displaceLoop bt w [] = w"
| "displaceLoop bt w (r # rs) = displaceLoop bt (if bt r w then r else w) rs"

text \<open>
  The competition is the eligible rules, or only the forced ones where there is a
  forced one. \<open>None\<close> is the index panic of \<open>competition[0]\<close> on an empty slice.
\<close>

definition selectWinner ::
  "('r \<Rightarrow> bool) \<Rightarrow> ('r \<Rightarrow> 'r \<Rightarrow> bool \<Rightarrow> bool) \<Rightarrow> 'r list \<Rightarrow> 'r option" where
  "selectWinner forced bt eligible =
     (let forcedPresent = list_ex forced eligible;
          competition = (if forcedPresent then filter forced eligible else eligible)
      in case competition of
           [] \<Rightarrow> None
         | w # rest \<Rightarrow> Some (displaceLoop (\<lambda>c b. bt c b forcedPresent) w rest))"

lemma selectWinner_Some: "eligible \<noteq> [] \<Longrightarrow> \<exists>w. selectWinner forced bt eligible = Some w"
  by (auto simp: selectWinner_def Let_def list_ex_iff filter_empty_conv split: list.splits)

lemma displaceLoop_in: "displaceLoop bt w rs \<in> insert w (set rs)"
proof (induction rs arbitrary: w)
  case (Cons r rs)
  from Cons.IH [of "if bt r w then r else w"] show ?case by (auto split: if_splits)
qed simp

lemma selectWinner_mem: "selectWinner forced bt eligible = Some w \<Longrightarrow> w \<in> set eligible"
proof -
  assume a: "selectWinner forced bt eligible = Some w"
  then obtain v vs where
    c: "(if list_ex forced eligible then filter forced eligible else eligible) = v # vs"
    and w: "w = displaceLoop (\<lambda>c b. bt c b (list_ex forced eligible)) v vs"
    by (auto simp: selectWinner_def Let_def split: list.splits)
  have "set (v # vs) \<subseteq> set eligible" by (subst c [symmetric]) simp
  then show ?thesis
    using displaceLoop_in [of "\<lambda>c b. bt c b (list_ex forced eligible)" v vs] w by auto
qed

section \<open>The contract of a comparator\<close>

text \<open>A comparator that orders rules of distinct identity strictly and totally.\<close>

locale beats_order =
  fixes rid :: "'r \<Rightarrow> uuid"
    and bt :: "'r \<Rightarrow> 'r \<Rightarrow> bool"
  assumes bt_irrefl: "\<not> bt r r"
    and bt_trans: "bt r s \<Longrightarrow> bt s t \<Longrightarrow> bt r t"
    and bt_total: "rid r \<noteq> rid s \<Longrightarrow> bt r s \<or> bt s r"
begin

lemma bt_asym: "bt r s \<Longrightarrow> \<not> bt s r"
  using bt_trans bt_irrefl by blast

lemma displaceLoop_ge: "displaceLoop bt w rs = w \<or> bt (displaceLoop bt w rs) w"
proof (induction rs arbitrary: w)
  case (Cons r rs)
  show ?case
  proof (cases "bt r w")
    case True
    with Cons.IH [of r] show ?thesis by (auto intro: bt_trans)
  next
    case False
    with Cons.IH [of w] show ?thesis by simp
  qed
qed simp

lemma displaceLoop_maximal: "r \<in> insert w (set rs) \<Longrightarrow> \<not> bt r (displaceLoop bt w rs)"
proof (induction rs arbitrary: w)
  case Nil
  then show ?case by (simp add: bt_irrefl)
next
  case (Cons s rs)
  let ?w = "if bt s w then s else w"
  show ?case
  proof (cases "r \<in> insert ?w (set rs)")
    case True
    with Cons.IH [of ?w] show ?thesis by simp
  next
    case False
    with Cons.prems have r: "r = (if bt s w then w else s)" by auto
    have "displaceLoop bt ?w rs = ?w \<or> bt (displaceLoop bt ?w rs) ?w"
      by (rule displaceLoop_ge)
    with r show ?thesis
      by (auto split: if_splits dest: bt_asym intro: bt_trans)
  qed
qed

text \<open>The loop returns the one candidate that beats every other.\<close>

lemma displaceLoop_best:
  "r \<in> insert w (set rs) \<Longrightarrow> rid r \<noteq> rid (displaceLoop bt w rs) \<Longrightarrow> bt (displaceLoop bt w rs) r"
  using displaceLoop_maximal bt_total by blast

end

text \<open>
  The axes the three resolvers rank on: forced partition, scope rank and channel
  specificity (both inverted among forced rules), priority, and the printed
  identifier; and the reason they give a loser.
\<close>

definition axisBeats ::
  "('r \<Rightarrow> uuid) \<Rightarrow> ('r \<Rightarrow> int) \<Rightarrow> ('r \<Rightarrow> int) \<Rightarrow> ('r \<Rightarrow> int) \<Rightarrow> bool \<Rightarrow> 'r \<Rightarrow> 'r \<Rightarrow> bool" where
  "axisBeats rid rank spec prio inverted c b \<longleftrightarrow>
     (if inverted then rank c > rank b else rank c < rank b) \<or>
     rank c = rank b \<and>
       ((if inverted then spec c > spec b else spec c < spec b) \<or>
        spec c = spec b \<and> (prio c > prio b \<or> prio c = prio b \<and> rid c < rid b))"

text \<open>What each reason asserts about the loser and the winner it lost to.\<close>

fun reasonHolds ::
  "('r \<Rightarrow> uuid) \<Rightarrow> ('r \<Rightarrow> int) \<Rightarrow> ('r \<Rightarrow> int) \<Rightarrow> ('r \<Rightarrow> int) \<Rightarrow> ('r \<Rightarrow> bool) \<Rightarrow>
   LossReason \<Rightarrow> 'r \<Rightarrow> 'r \<Rightarrow> bool" where
  "reasonHolds rid rank spec prio forced ReasonForcedBroaderScope l w \<longleftrightarrow>
     forced w \<and> \<not> forced l \<and> rank w > rank l"
| "reasonHolds rid rank spec prio forced ReasonExcludedByForcedRule l w \<longleftrightarrow>
     forced w \<and> \<not> forced l \<and> rank w \<le> rank l"
| "reasonHolds rid rank spec prio forced ReasonLowerForcedScope l w \<longleftrightarrow>
     forced w \<and> forced l \<and> rank w > rank l"
| "reasonHolds rid rank spec prio forced ReasonLessSpecific l w \<longleftrightarrow>
     \<not> forced w \<and> \<not> forced l \<and> rank w < rank l"
| "reasonHolds rid rank spec prio forced ReasonLessChannelSpecific l w \<longleftrightarrow>
     forced w = forced l \<and> rank w = rank l \<and>
     (if forced w then spec w > spec l else spec w < spec l)"
| "reasonHolds rid rank spec prio forced ReasonLowerPriority l w \<longleftrightarrow>
     forced w = forced l \<and> rank w = rank l \<and> spec w = spec l \<and> prio w > prio l"
| "reasonHolds rid rank spec prio forced ReasonStableIDTiebreak l w \<longleftrightarrow>
     forced w = forced l \<and> rank w = rank l \<and> spec w = spec l \<and> prio w = prio l \<and> rid w < rid l"
| "reasonHolds rid rank spec prio forced ReasonOutsideWindowPast l w \<longleftrightarrow> False"
| "reasonHolds rid rank spec prio forced ReasonOutsideWindowFuture l w \<longleftrightarrow> False"

locale rule_axes =
  fixes rid :: "'r \<Rightarrow> uuid"
    and rank :: "'r \<Rightarrow> int"
    and spec :: "'r \<Rightarrow> int"
    and prio :: "'r \<Rightarrow> int"
    and forced :: "'r \<Rightarrow> bool"
    and cmp :: "'r \<Rightarrow> 'r \<Rightarrow> bool \<Rightarrow> bool"
    and reason :: "'r \<Rightarrow> 'r \<Rightarrow> LossReason"
  assumes cmp_axes: "cmp c b inverted \<longleftrightarrow> axisBeats rid rank spec prio inverted c b"
    and reason_sound:
      "cmp w l (forced w) \<Longrightarrow> forced w = forced l \<Longrightarrow>
       reasonHolds rid rank spec prio forced (reason l w) l w"
    and reason_excluded:
      "forced w \<Longrightarrow> \<not> forced l \<Longrightarrow> reasonHolds rid rank spec prio forced (reason l w) l w"

sublocale rule_axes \<subseteq> ranked: beats_order rid "\<lambda>c b. cmp c b inverted" for inverted
  by unfold_locales (auto simp: cmp_axes axisBeats_def split: if_splits)

context rule_axes
begin

lemma winner_in_competition:
  assumes "selectWinner forced cmp eligible = Some w"
  obtains v vs where
    "(if list_ex forced eligible then filter forced eligible else eligible) = v # vs"
    and "w = displaceLoop (\<lambda>c b. cmp c b (list_ex forced eligible)) v vs"
  using assms by (auto simp: selectWinner_def Let_def split: list.splits)

lemma winner_forced:
  assumes "selectWinner forced cmp eligible = Some w"
  shows "forced w \<longleftrightarrow> list_ex forced eligible"
proof -
  from assms obtain v vs where
    c: "(if list_ex forced eligible then filter forced eligible else eligible) = v # vs"
    and w: "w = displaceLoop (\<lambda>c b. cmp c b (list_ex forced eligible)) v vs"
    by (rule winner_in_competition)
  from w have "w \<in> set (v # vs)" using displaceLoop_in by fastforce
  then have "w \<in> set (if list_ex forced eligible then filter forced eligible else eligible)"
    by (simp add: c)
  then show ?thesis by (auto simp: list_ex_iff split: if_splits)
qed

text \<open>The winner beats every other rule of its competition.\<close>

lemma winner_beats:
  assumes win: "selectWinner forced cmp eligible = Some w"
    and r: "r \<in> set eligible" "rid r \<noteq> rid w" "forced r = forced w"
  shows "cmp w r (forced w)"
proof -
  from win obtain v vs where
    c: "(if list_ex forced eligible then filter forced eligible else eligible) = v # vs"
    and w: "w = displaceLoop (\<lambda>c b. cmp c b (list_ex forced eligible)) v vs"
    by (rule winner_in_competition)
  have fw: "forced w \<longleftrightarrow> list_ex forced eligible" using win by (rule winner_forced)
  have "r \<in> set (if list_ex forced eligible then filter forced eligible else eligible)"
    using r fw by (auto simp: list_ex_iff)
  then have "r \<in> insert v (set vs)" by (simp add: c)
  then have "cmp w r (list_ex forced eligible)"
    unfolding w by (rule ranked.displaceLoop_best) (use r(2) w in simp)
  then show ?thesis by (simp add: fw)
qed

text \<open>A rule outside the forced partition loses to a forced winner, whatever its rank.\<close>

lemma loser_reason:
  assumes "selectWinner forced cmp eligible = Some w"
    and "r \<in> set eligible" "rid r \<noteq> rid w"
  shows "reasonHolds rid rank spec prio forced (reason r w) r w"
proof (cases "forced r = forced w")
  case True
  with assms have "cmp w r (forced w)" by (intro winner_beats)
  with True show ?thesis by (intro reason_sound) simp_all
next
  case False
  have "forced w \<longleftrightarrow> list_ex forced eligible" using assms(1) by (rule winner_forced)
  with False assms(2) have "forced w" and "\<not> forced r" by (auto simp: list_ex_iff)
  then show ?thesis by (rule reason_excluded)
qed

lemma loser_not_window:
  assumes "selectWinner forced cmp eligible = Some w" "r \<in> set eligible" "rid r \<noteq> rid w"
  shows "reason r w \<noteq> ReasonOutsideWindowPast" "reason r w \<noteq> ReasonOutsideWindowFuture"
  using loser_reason [OF assms] by auto

end

end
