(* ===== verification/Pricing.thy ===== *)
theory Pricing
  imports Rule_Ranking
begin

text \<open>
  Price-rule resolution: \<open>services/catalog/internal/store/pricing.go\<close>. One rule prices
  a ticket type; the document says which, and why each other candidate lost. The
  comparator is pure: the instant and the candidates are arguments.
\<close>

section \<open>Data\<close>

record PriceRule =
  prID :: uuid
  prOrganizerID :: uuid
  prScopeLevel :: ScopeLevel
  prScopeID :: uuid
  prActionKind :: string
  prAmount :: int
  prCurrency :: string
  prPriority :: int
  prForceAncestorOverride :: bool
  prEffectiveFrom :: "time option"
  prEffectiveUntil :: "time option"
  prChannelCode :: "string option"
  prCreatedAt :: time

record PricingCandidates =
  pcBasePrice :: Money
  pcScopes :: PricingScopes
  pcRules :: "PriceRule list"
  pcChannel :: "string option"

record LosingPriceRule =
  lpRule :: PriceRule
  lpReason :: LossReason

record RuleSelection =
  rsResolverVersion :: int
  rsEvaluatedAt :: time
  rsOrganizerID :: uuid
  rsPerformanceID :: uuid
  rsBasePrice :: Money
  rsResolvedPrice :: Money
  rsChannel :: "string option"
  rsWinner :: "PriceRule option"
  rsCandidates :: "LosingPriceRule list"
  rsFallbackReason :: "string option"

definition PricingResolverVersion :: int where "PricingResolverVersion = 3"

definition ActionAbsolute :: string where "ActionAbsolute = ''absolute''"

definition FallbackNoEligibleRule :: string where
  "FallbackNoEligibleRule = ''no_eligible_rule''"

section \<open>The comparator\<close>

definition isPast :: "time \<Rightarrow> PriceRule \<Rightarrow> bool" where
  "isPast at r = (case prEffectiveUntil r of None \<Rightarrow> False | Some u \<Rightarrow> \<not> Before at u)"

definition matchesScope :: "PriceRule \<Rightarrow> PricingScopes \<Rightarrow> bool" where
  "matchesScope r s =
     (case prScopeLevel r of
        ScopeTicketType \<Rightarrow> prScopeID r = TicketTypeID s
      | ScopeSlot \<Rightarrow> prScopeID r = SlotID s
      | ScopeSeries \<Rightarrow> (case SeriesID s of None \<Rightarrow> False | Some i \<Rightarrow> prScopeID r = i)
      | ScopeEvent \<Rightarrow> prScopeID r = EventID s
      | ScopeVenue \<Rightarrow> prScopeID r = VenueID s
      | ScopeOther _ \<Rightarrow> False)"

definition priceChannelEligible :: "PriceRule \<Rightarrow> string option \<Rightarrow> bool" where
  "priceChannelEligible r requested =
     (case prChannelCode r of
        None \<Rightarrow> True
      | Some c \<Rightarrow> (case requested of None \<Rightarrow> False | Some q \<Rightarrow> c = q))"

definition priceChannelSpecificity :: "PriceRule \<Rightarrow> int" where
  "priceChannelSpecificity r = (if prChannelCode r \<noteq> None then 0 else 1)"

definition beats :: "PriceRule \<Rightarrow> PriceRule \<Rightarrow> bool \<Rightarrow> bool" where
  "beats challenger best inverted =
     (let cr = scopeRank (prScopeLevel challenger); br = scopeRank (prScopeLevel best) in
      if cr \<noteq> br then (if inverted then cr > br else cr < br)
      else
        (let cc = priceChannelSpecificity challenger; bc = priceChannelSpecificity best in
         if cc \<noteq> bc then (if inverted then cc > bc else cc < bc)
         else if prPriority challenger \<noteq> prPriority best
           then prPriority challenger > prPriority best
         else uuid_String (prID challenger) < uuid_String (prID best)))"

definition lossReason :: "PriceRule \<Rightarrow> PriceRule \<Rightarrow> LossReason" where
  "lossReason loser winner =
     (if prForceAncestorOverride winner \<and> \<not> prForceAncestorOverride loser then
        (if scopeRank (prScopeLevel winner) > scopeRank (prScopeLevel loser)
         then ReasonForcedBroaderScope else ReasonExcludedByForcedRule)
      else if scopeRank (prScopeLevel loser) \<noteq> scopeRank (prScopeLevel winner) then
        (if prForceAncestorOverride winner then ReasonLowerForcedScope else ReasonLessSpecific)
      else if priceChannelSpecificity loser \<noteq> priceChannelSpecificity winner
        then ReasonLessChannelSpecific
      else if prPriority loser \<noteq> prPriority winner then ReasonLowerPriority
      else ReasonStableIDTiebreak)"

definition sortedCandidates :: "LosingPriceRule list \<Rightarrow> LosingPriceRule list" where
  "sortedCandidates losers = sortByID (\<lambda>l. prID (lpRule l)) losers"

section \<open>SelectPricingRule, step by step\<close>

text \<open>Step 0, the sort by identifier and the channel filter.\<close>

definition scopedPriceRules :: "PricingCandidates \<Rightarrow> PriceRule list" where
  "scopedPriceRules inp =
     filter (\<lambda>r. priceChannelEligible r (pcChannel inp))
       (sortByID prID (filter (\<lambda>r. matchesScope r (pcScopes inp)) (pcRules inp)))"

text \<open>The duplicate guard and the currency check over the scoped rules.\<close>

definition checkPriceRules :: "time \<Rightarrow> string \<Rightarrow> PriceRule list \<Rightarrow> store_error option" where
  "checkPriceRules at currency scoped =
     (case firstDuplicate [] (map prID scoped) of
        Some d \<Rightarrow> Some (ErrDuplicatePriceRuleID d)
      | None \<Rightarrow>
          (case find (\<lambda>r. \<not> isPast at r \<and> prCurrency r \<noteq> currency) scoped of
             Some r \<Rightarrow> Some (ErrPriceRuleCurrencyMismatch (prID r))
           | None \<Rightarrow> None))"

text \<open>Step 2: the branch of the window switch a rule takes, if it is a loser there.\<close>

definition priceWindowReason :: "time \<Rightarrow> PriceRule \<Rightarrow> LossReason option" where
  "priceWindowReason at r =
     (if isPast at r then Some ReasonOutsideWindowPast
      else case prEffectiveFrom r of
             None \<Rightarrow> None
           | Some f \<Rightarrow> if Before at f then Some ReasonOutsideWindowFuture else None)"

definition eligiblePriceRules :: "time \<Rightarrow> PriceRule list \<Rightarrow> PriceRule list" where
  "eligiblePriceRules at scoped = filter (\<lambda>r. priceWindowReason at r = None) scoped"

definition priceWindowLosers :: "time \<Rightarrow> PriceRule list \<Rightarrow> LosingPriceRule list" where
  "priceWindowLosers at scoped =
     concat (map (\<lambda>r. case priceWindowReason at r of
         None \<Rightarrow> [] | Some why \<Rightarrow> [\<lparr>lpRule = r, lpReason = why\<rparr>]) scoped)"

definition priceRankLosers :: "PriceRule list \<Rightarrow> PriceRule \<Rightarrow> LosingPriceRule list" where
  "priceRankLosers eligible winner =
     map (\<lambda>r. \<lparr>lpRule = r, lpReason = lossReason r winner\<rparr>)
       (filter (\<lambda>r. prID r \<noteq> prID winner) eligible)"

definition SelectPricingRule ::
  "time \<Rightarrow> PricingCandidates \<Rightarrow> store_error + RuleSelection" where
  "SelectPricingRule at inp =
     (let out = \<lparr>rsResolverVersion = PricingResolverVersion, rsEvaluatedAt = at,
                 rsOrganizerID = uuid_Nil, rsPerformanceID = SlotID (pcScopes inp),
                 rsBasePrice = pcBasePrice inp, rsResolvedPrice = pcBasePrice inp,
                 rsChannel = pcChannel inp, rsWinner = None, rsCandidates = [],
                 rsFallbackReason = None\<rparr>;
          scoped = scopedPriceRules inp
      in case checkPriceRules at (Currency (pcBasePrice inp)) scoped of
           Some e \<Rightarrow> Inl e
         | None \<Rightarrow>
             (let eligible = eligiblePriceRules at scoped;
                  windowLosers = priceWindowLosers at scoped
              in if eligible = [] then
                   Inr (out\<lparr>rsFallbackReason := Some FallbackNoEligibleRule,
                            rsCandidates := sortedCandidates windowLosers\<rparr>)
                 else case selectWinner prForceAncestorOverride beats eligible of
                   None \<Rightarrow> Inl IndexPanic
                 | Some winner \<Rightarrow>
                     Inr (out\<lparr>rsWinner := Some winner,
                              rsResolvedPrice := \<lparr>Amount = prAmount winner,
                                                  Currency = prCurrency winner\<rparr>,
                              rsCandidates := sortedCandidates
                                (windowLosers @ priceRankLosers eligible winner)\<rparr>)))"

section \<open>The comparator satisfies the shared contract\<close>

interpretation price: rule_axes prID "\<lambda>r. scopeRank (prScopeLevel r)" priceChannelSpecificity
  prPriority prForceAncestorOverride beats lossReason
proof unfold_locales
  fix c b :: PriceRule and inverted
  show "beats c b inverted \<longleftrightarrow>
      axisBeats prID (\<lambda>r. scopeRank (prScopeLevel r)) priceChannelSpecificity prPriority inverted c b"
    by (auto simp: beats_def axisBeats_def Let_def)
next
  fix w l :: PriceRule
  assume "beats w l (prForceAncestorOverride w)"
    and "prForceAncestorOverride w = prForceAncestorOverride l"
  then show "reasonHolds prID (\<lambda>r. scopeRank (prScopeLevel r)) priceChannelSpecificity prPriority
      prForceAncestorOverride (lossReason l w) l w"
    by (auto simp: beats_def lossReason_def Let_def split: if_splits)
next
  fix w l :: PriceRule
  assume "prForceAncestorOverride w" and "\<not> prForceAncestorOverride l"
  then show "reasonHolds prID (\<lambda>r. scopeRank (prScopeLevel r)) priceChannelSpecificity prPriority
      prForceAncestorOverride (lossReason l w) l w"
    by (simp add: lossReason_def)
qed

section \<open>What a resolution considers\<close>

text \<open>The rules a request is about: on its scopes, and eligible in its channel.\<close>

definition priceConsidered :: "PricingCandidates \<Rightarrow> PriceRule \<Rightarrow> bool" where
  "priceConsidered inp r \<longleftrightarrow> r \<in> set (pcRules inp) \<and> matchesScope r (pcScopes inp) \<and>
     priceChannelEligible r (pcChannel inp)"

definition priceEligible :: "time \<Rightarrow> PricingCandidates \<Rightarrow> PriceRule \<Rightarrow> bool" where
  "priceEligible at inp r \<longleftrightarrow> priceConsidered inp r \<and> priceWindowReason at r = None"

text \<open>The order of ADR-036: a forced rule above an unforced one, then the ranking axes.\<close>

definition priceOutranks :: "PriceRule \<Rightarrow> PriceRule \<Rightarrow> bool" where
  "priceOutranks w r \<longleftrightarrow>
     prForceAncestorOverride w \<and> \<not> prForceAncestorOverride r \<or>
     prForceAncestorOverride w = prForceAncestorOverride r \<and>
       axisBeats prID (\<lambda>r. scopeRank (prScopeLevel r)) priceChannelSpecificity prPriority
         (prForceAncestorOverride w) w r"

lemma set_scopedPriceRules: "r \<in> set (scopedPriceRules inp) \<longleftrightarrow> priceConsidered inp r"
  by (auto simp: scopedPriceRules_def priceConsidered_def)

lemma scopedPriceRules_filter:
  "scopedPriceRules inp = sortByID prID (filter (\<lambda>r. priceChannelEligible r (pcChannel inp))
     (filter (\<lambda>r. matchesScope r (pcScopes inp)) (pcRules inp)))"
  by (simp add: scopedPriceRules_def filter_sortByID)

lemma set_eligiblePriceRules:
  "r \<in> set (eligiblePriceRules at (scopedPriceRules inp)) \<longleftrightarrow> priceEligible at inp r"
  by (auto simp: eligiblePriceRules_def priceEligible_def set_scopedPriceRules)

lemma eligiblePriceRules_Nil:
  "eligiblePriceRules at (scopedPriceRules inp) = [] \<longleftrightarrow> (\<forall>r. \<not> priceEligible at inp r)"
  by (metis set_eligiblePriceRules set_empty equals0D equals0I)

lemma checkPriceRules_None:
  "checkPriceRules at cur scoped = None \<longleftrightarrow>
     distinct (map prID scoped) \<and> (\<forall>r \<in> set scoped. isPast at r \<or> prCurrency r = cur)"
  unfolding checkPriceRules_def guarded_checks_None by auto

lemma priceWindowReason_past: "priceWindowReason at r = None \<Longrightarrow> \<not> isPast at r"
  by (auto simp: priceWindowReason_def)

text \<open>
  A successful resolution took one of two branches: no eligible rule and the base
  price, or the winner of the eligible ones.
\<close>

lemma SelectPricingRule_cases:
  assumes "SelectPricingRule at inp = Inr sel"
  obtains
    (fallback) "\<forall>r. \<not> priceEligible at inp r" "rsWinner sel = None"
      "rsResolvedPrice sel = pcBasePrice inp" "rsFallbackReason sel = Some FallbackNoEligibleRule"
      "rsCandidates sel = sortedCandidates (priceWindowLosers at (scopedPriceRules inp))"
  | (winner) w where "rsWinner sel = Some w" "rsFallbackReason sel = None"
      "selectWinner prForceAncestorOverride beats
         (eligiblePriceRules at (scopedPriceRules inp)) = Some w"
      "rsResolvedPrice sel = \<lparr>Amount = prAmount w, Currency = prCurrency w\<rparr>"
      "rsCandidates sel = sortedCandidates (priceWindowLosers at (scopedPriceRules inp) @
         priceRankLosers (eligiblePriceRules at (scopedPriceRules inp)) w)"
  using assms
  by (auto simp: SelectPricingRule_def Let_def eligiblePriceRules_Nil
      split: option.splits if_splits)

lemma SelectPricingRule_checked:
  assumes "SelectPricingRule at inp = Inr sel"
  shows "distinct (map prID (scopedPriceRules inp))"
    and "priceConsidered inp r \<Longrightarrow> isPast at r \<or> prCurrency r = Currency (pcBasePrice inp)"
proof -
  have "checkPriceRules at (Currency (pcBasePrice inp)) (scopedPriceRules inp) = None"
    using assms by (auto simp: SelectPricingRule_def Let_def split: option.splits)
  then show "distinct (map prID (scopedPriceRules inp))"
    and "priceConsidered inp r \<Longrightarrow> isPast at r \<or> prCurrency r = Currency (pcBasePrice inp)"
    by (auto simp: checkPriceRules_None set_scopedPriceRules)
qed

lemma SelectPricingRule_Inl:
  "SelectPricingRule at inp = Inl e \<longleftrightarrow>
     checkPriceRules at (Currency (pcBasePrice inp)) (scopedPriceRules inp) = Some e"
  using selectWinner_Some
    [of "eligiblePriceRules at (scopedPriceRules inp)" prForceAncestorOverride beats]
  by (auto simp: SelectPricingRule_def Let_def split: option.splits)

lemma SelectPricingRule_currency_iff:
  assumes "distinct (map prID (pcRules inp))"
  shows "(\<exists>i. SelectPricingRule at inp = Inl (ErrPriceRuleCurrencyMismatch i)) \<longleftrightarrow>
    (\<exists>r. priceConsidered inp r \<and> \<not> isPast at r \<and> prCurrency r \<noteq> Currency (pcBasePrice inp))"
proof -
  have d: "distinct (map prID (scopedPriceRules inp))"
    using assms by (simp add: scopedPriceRules_filter distinct_map_filter)
  let ?P = "\<lambda>r. \<not> isPast at r \<and> prCurrency r \<noteq> Currency (pcBasePrice inp)"
  have "(\<exists>i. SelectPricingRule at inp = Inl (ErrPriceRuleCurrencyMismatch i)) \<longleftrightarrow>
      (\<exists>r. find ?P (scopedPriceRules inp) = Some r)"
    unfolding SelectPricingRule_Inl checkPriceRules_def guarded_checks_Some [OF d] by auto
  then show ?thesis unfolding find_Some_ex by (auto simp: set_scopedPriceRules)
qed

lemma priceConsidered_unique:
  assumes "SelectPricingRule at inp = Inr sel"
    and "priceConsidered inp r" "priceConsidered inp r'" "prID r = prID r'"
  shows "r = r'"
  using SelectPricingRule_checked(1) [OF assms(1)] assms(2-4)
  by (auto simp: distinct_map inj_on_def simp flip: set_scopedPriceRules)

lemma price_winner:
  assumes sel: "SelectPricingRule at inp = Inr sel" and w: "rsWinner sel = Some w"
  shows "selectWinner prForceAncestorOverride beats
      (eligiblePriceRules at (scopedPriceRules inp)) = Some w"
    and "priceEligible at inp w"
    and "prCurrency w = Currency (pcBasePrice inp)"
proof -
  let ?el = "eligiblePriceRules at (scopedPriceRules inp)"
  show win: "selectWinner prForceAncestorOverride beats ?el = Some w"
    using sel w by (auto elim: SelectPricingRule_cases)
  then have "w \<in> set ?el" by (rule selectWinner_mem)
  then show "priceEligible at inp w" by (simp add: set_eligiblePriceRules)
  then show "prCurrency w = Currency (pcBasePrice inp)"
    using SelectPricingRule_checked(2) [OF sel, of w]
    by (auto simp: priceEligible_def dest: priceWindowReason_past)
qed

lemma price_winner_outranks:
  assumes sel: "SelectPricingRule at inp = Inr sel" and w: "rsWinner sel = Some w"
    and r: "priceEligible at inp r" "r \<noteq> w"
  shows "priceOutranks w r"
proof -
  note win = price_winner(1) [OF sel w]
  have "prID r \<noteq> prID w"
    using priceConsidered_unique [OF sel] price_winner(2) [OF sel w] r
    by (auto simp: priceEligible_def)
  moreover have "r \<in> set (eligiblePriceRules at (scopedPriceRules inp))"
    using r by (simp add: set_eligiblePriceRules)
  ultimately show ?thesis
    using price.winner_beats [OF win, of r] price.winner_forced [OF win]
    by (auto simp: priceOutranks_def price.cmp_axes list_ex_iff)
qed

lemma map_priceWindowLosers:
  "map lpRule (priceWindowLosers at rs) = filter (\<lambda>r. priceWindowReason at r \<noteq> None) rs"
  by (induction rs) (auto simp: priceWindowLosers_def split: option.splits)

lemma priceWindowLosers_reason:
  "l \<in> set (priceWindowLosers at rs) \<Longrightarrow> priceWindowReason at (lpRule l) = Some (lpReason l)"
  by (auto simp: priceWindowLosers_def split: option.splits)

lemma map_priceRankLosers:
  "map lpRule (priceRankLosers rs w) = filter (\<lambda>r. prID r \<noteq> prID w) rs"
  by (simp add: priceRankLosers_def comp_def)

lemma set_sortedCandidates [simp]: "set (sortedCandidates ls) = set ls"
  by (simp add: sortedCandidates_def)

lemma sortedCandidates_sorted: "sorted (map (\<lambda>l. prID (lpRule l)) (sortedCandidates ls))"
  by (simp add: sortedCandidates_def)

lemma mset_sortedCandidates: "mset (map lpRule (sortedCandidates ls)) = mset (map lpRule ls)"
  by (simp add: sortedCandidates_def)

lemma filter_unique_id:
  assumes "distinct (map f xs)" and "w \<in> set xs"
  shows "mset (filter (\<lambda>r. f r \<noteq> f w) xs) + {#w#} = mset xs"
  using assms
proof (induction xs)
  case (Cons x xs)
  show ?case
  proof (cases "w = x")
    case True
    with Cons.prems have "filter (\<lambda>r. f r \<noteq> f w) xs = xs"
      by (auto simp: filter_id_conv rev_image_eqI)
    with True show ?thesis by simp
  next
    case False
    with Cons show ?thesis by (auto simp: image_iff)
  qed
qed simp

lemma price_provenance:
  assumes sel: "SelectPricingRule at inp = Inr sel"
  shows "mset (map lpRule (rsCandidates sel)) + mset (case rsWinner sel of None \<Rightarrow> [] | Some w \<Rightarrow> [w]) =
    mset (scopedPriceRules inp)"
  using sel
proof (cases rule: SelectPricingRule_cases)
  case fallback
  then have "eligiblePriceRules at (scopedPriceRules inp) = []"
    by (simp add: eligiblePriceRules_Nil)
  then have "filter (\<lambda>r. priceWindowReason at r \<noteq> None) (scopedPriceRules inp) = scopedPriceRules inp"
    by (auto simp: eligiblePriceRules_def filter_empty_conv filter_id_conv)
  with fallback show ?thesis by (simp add: mset_sortedCandidates map_priceWindowLosers del: mset_map)
next
  case (winner w)
  let ?sc = "scopedPriceRules inp"
  have "mset (filter (\<lambda>r. prID r \<noteq> prID w) (eligiblePriceRules at ?sc)) + {#w#} =
      mset (eligiblePriceRules at ?sc)"
    using SelectPricingRule_checked(1) [OF sel] selectWinner_mem [OF winner(3)]
    by (intro filter_unique_id) (simp_all add: eligiblePriceRules_def distinct_map_filter)
  moreover have "mset (filter (\<lambda>r. priceWindowReason at r \<noteq> None) ?sc) + mset (eligiblePriceRules at ?sc) =
      mset ?sc"
    using multiset_partition [of "mset ?sc" "\<lambda>r. priceWindowReason at r \<noteq> None"]
    by (simp add: eligiblePriceRules_def)
  moreover have "mset (map lpRule (rsCandidates sel)) =
      mset (filter (\<lambda>r. priceWindowReason at r \<noteq> None) ?sc) +
      mset (filter (\<lambda>r. prID r \<noteq> prID w) (eligiblePriceRules at ?sc))"
    unfolding winner(5) mset_sortedCandidates
    by (simp only: map_append mset_append map_priceWindowLosers map_priceRankLosers)
  moreover have "mset (case rsWinner sel of None \<Rightarrow> [] | Some w \<Rightarrow> [w]) = {#w#}"
    by (simp add: winner(1))
  ultimately show ?thesis by (rule union_parts)
qed

text \<open>What a reported reason says: the rule's window, or how it lost to the winner.\<close>

definition priceReasonHolds ::
  "time \<Rightarrow> RuleSelection \<Rightarrow> LosingPriceRule \<Rightarrow> bool" where
  "priceReasonHolds at sel l =
     (case lpReason l of
        ReasonOutsideWindowPast \<Rightarrow> isPast at (lpRule l)
      | ReasonOutsideWindowFuture \<Rightarrow> \<not> isPast at (lpRule l) \<and>
          (case prEffectiveFrom (lpRule l) of None \<Rightarrow> False | Some f \<Rightarrow> Before at f)
      | why \<Rightarrow> (case rsWinner sel of None \<Rightarrow> False | Some w \<Rightarrow>
          reasonHolds prID (\<lambda>r. scopeRank (prScopeLevel r)) priceChannelSpecificity prPriority
            prForceAncestorOverride why (lpRule l) w))"

lemma price_reasons:
  assumes sel: "SelectPricingRule at inp = Inr sel" and l: "l \<in> set (rsCandidates sel)"
  shows "priceReasonHolds at sel l"
proof -
  have past: "priceReasonHolds at sel l"
    if "l \<in> set (priceWindowLosers at (scopedPriceRules inp))"
    using priceWindowLosers_reason [OF that]
    by (auto simp: priceReasonHolds_def priceWindowReason_def split: if_splits option.splits)
  show ?thesis using sel
  proof (cases rule: SelectPricingRule_cases)
    case fallback
    with l past show ?thesis by simp
  next
    case (winner w)
    show ?thesis
    proof (cases "l \<in> set (priceWindowLosers at (scopedPriceRules inp))")
      case False
      with l winner(5) obtain r where r: "r \<in> set (eligiblePriceRules at (scopedPriceRules inp))"
        "prID r \<noteq> prID w" and l_eq: "l = \<lparr>lpRule = r, lpReason = lossReason r w\<rparr>"
        by (auto simp: priceRankLosers_def)
      have "reasonHolds prID (\<lambda>r. scopeRank (prScopeLevel r)) priceChannelSpecificity prPriority
          prForceAncestorOverride (lossReason r w) r w"
        using price.loser_reason [OF winner(3) r] .
      then show ?thesis using winner(1) price.loser_not_window [OF winner(3) r]
        by (auto simp: priceReasonHolds_def l_eq split: LossReason.splits)
    qed (rule past)
  qed
qed

section \<open>A worked request\<close>

text \<open>
  A ticket type at 60.00 EUR with a house floor on its venue, an early-bird rule on
  its slot that closed at instant 40, and a box-office rule.
\<close>

definition demoScopes :: PricingScopes where
  "demoScopes = \<lparr>TicketTypeID = 1, SlotID = 2, SeriesID = None, EventID = 3, VenueID = 4\<rparr>"

definition demoRule :: "uuid \<Rightarrow> ScopeLevel \<Rightarrow> uuid \<Rightarrow> int \<Rightarrow> string option \<Rightarrow> PriceRule" where
  "demoRule i lvl sid amount ch =
     \<lparr>prID = i, prOrganizerID = 9, prScopeLevel = lvl, prScopeID = sid,
      prActionKind = ActionAbsolute, prAmount = amount, prCurrency = ''EUR'', prPriority = 0,
      prForceAncestorOverride = False, prEffectiveFrom = None, prEffectiveUntil = None,
      prChannelCode = ch, prCreatedAt = 1\<rparr>"

definition demoVenueRule :: PriceRule where
  "demoVenueRule = (demoRule 12 ScopeVenue 4 5500 None)\<lparr>prForceAncestorOverride := True\<rparr>"

definition demoEarlyBird :: PriceRule where
  "demoEarlyBird = (demoRule 11 ScopeSlot 2 4500 None)\<lparr>prEffectiveUntil := Some 40\<rparr>"

definition demoPosRule :: PriceRule where
  "demoPosRule = demoRule 10 ScopeTicketType 1 5000 (Some ''pos'')"

definition demoRequest :: PricingCandidates where
  "demoRequest = \<lparr>pcBasePrice = \<lparr>Amount = 6000, Currency = ''EUR''\<rparr>, pcScopes = demoScopes,
     pcRules = [demoVenueRule, demoEarlyBird, demoPosRule], pcChannel = Some ''pos''\<rparr>"

lemmas demo_price_defs = demoRequest_def demoVenueRule_def demoEarlyBird_def demoPosRule_def
  demoRule_def demoScopes_def

lemmas price_eval = SelectPricingRule_def Let_def scopedPriceRules_def checkPriceRules_def
  eligiblePriceRules_def priceWindowLosers_def priceRankLosers_def priceWindowReason_def isPast_def
  matchesScope_def priceChannelEligible_def priceChannelSpecificity_def beats_def lossReason_def
  selectWinner_def sortByID_eq sortedCandidates_def Before_def IsZero_def

lemma demo_price_winner:
  "\<exists>sel. SelectPricingRule 50 demoRequest = Inr sel \<and> rsWinner sel = Some demoVenueRule"
  by (simp add: price_eval demo_price_defs)

lemma demo_price_fallback:
  "\<exists>sel. SelectPricingRule 50 (demoRequest\<lparr>pcRules := [demoEarlyBird], pcChannel := None\<rparr>) = Inr sel \<and>
     rsWinner sel = None"
  by (simp add: price_eval demo_price_defs)

section \<open>Properties\<close>

text \<open>
  C26: a resolution that has a winner names a rule of the request (on a derived
  scope, eligible in the requested channel, inside its effective window), charges
  exactly that rule's amount in the ticket type's currency, and every other
  eligible rule is outranked by it in the order of ADR-036.
\<close>

theorem price_winner_correct:
  assumes "SelectPricingRule at inp = Inr sel" and "rsWinner sel = Some w"
  shows "priceEligible at inp w \<and>
    rsResolvedPrice sel = \<lparr>Amount = prAmount w, Currency = Currency (pcBasePrice inp)\<rparr> \<and>
    (\<forall>r. priceEligible at inp r \<and> r \<noteq> w \<longrightarrow> priceOutranks w r)"
proof -
  have "rsResolvedPrice sel = \<lparr>Amount = prAmount w, Currency = prCurrency w\<rparr>"
    using assms by (auto elim: SelectPricingRule_cases)
  then show ?thesis
    using price_winner [OF assms] price_winner_outranks [OF assms] by simp
qed

theorem price_winner_correct_witness:
  "\<exists>sel. SelectPricingRule 50 demoRequest = Inr sel \<and> priceEligible 50 demoRequest demoVenueRule \<and>
     rsResolvedPrice sel = \<lparr>Amount = 5500, Currency = ''EUR''\<rparr>"
proof -
  obtain sel where sel: "SelectPricingRule 50 demoRequest = Inr sel" "rsWinner sel = Some demoVenueRule"
    using demo_price_winner by blast
  show ?thesis using price_winner_correct [OF sel] sel(1)
    by (simp add: demo_price_defs)
qed

text \<open>
  A resolution falls back to the ticket type's own price exactly when no rule
  of the request is eligible at that instant, and says so: the winner and the
  fallback reason are never both present nor both absent.
\<close>

theorem price_fallback_iff_no_eligible:
  assumes "SelectPricingRule at inp = Inr sel"
  shows "((rsWinner sel = None) = (\<forall>r. \<not> priceEligible at inp r)) \<and>
    rsFallbackReason sel =
      (if rsWinner sel = None then Some FallbackNoEligibleRule else None) \<and>
    (rsWinner sel = None \<longrightarrow> rsResolvedPrice sel = pcBasePrice inp)"
  using assms price_winner(2) [OF assms] by (auto elim!: SelectPricingRule_cases)

theorem price_fallback_iff_no_eligible_witness:
  "\<exists>sel. SelectPricingRule 50 (demoRequest\<lparr>pcRules := [demoEarlyBird], pcChannel := None\<rparr>) = Inr sel \<and>
     rsResolvedPrice sel = \<lparr>Amount = 6000, Currency = ''EUR''\<rparr>"
proof -
  obtain sel where sel: "SelectPricingRule 50
      (demoRequest\<lparr>pcRules := [demoEarlyBird], pcChannel := None\<rparr>) = Inr sel" "rsWinner sel = None"
    using demo_price_fallback by blast
  show ?thesis using price_fallback_iff_no_eligible [OF sel(1)] sel
    by (simp add: demo_price_defs)
qed

text \<open>
  The whole outcome of a price resolution, errors and provenance included, is a
  function of the set of candidate rules: the order in which the rows arrive decides
  nothing.
\<close>

theorem price_order_independent:
  assumes "mset (pcRules inp) = mset rules"
  shows "SelectPricingRule at (inp\<lparr>pcRules := rules\<rparr>) = SelectPricingRule at inp"
proof -
  let ?f = "\<lambda>rs. filter (\<lambda>r. priceChannelEligible r (pcChannel inp))
      (filter (\<lambda>r. matchesScope r (pcScopes inp)) rs)"
  have m: "mset (?f rules) = mset (?f (pcRules inp))" using assms by simp
  show ?thesis
  proof (cases "distinct (map prID (?f rules))")
    case True
    then have "sortByID prID (?f rules) = sortByID prID (?f (pcRules inp))"
      using m by (intro sortByID_perm)
    then have "scopedPriceRules (inp\<lparr>pcRules := rules\<rparr>) = scopedPriceRules inp"
      by (simp add: scopedPriceRules_filter)
    then show ?thesis by (simp add: SelectPricingRule_def)
  next
    case False
    have "sort (map prID (?f rules)) = sort (map prID (?f (pcRules inp)))"
      using m by (rule sort_map_perm)
    then have ids: "map prID (scopedPriceRules (inp\<lparr>pcRules := rules\<rparr>)) =
        map prID (scopedPriceRules inp)"
      by (simp add: scopedPriceRules_filter map_sortByID)
    from False have "\<not> distinct (map prID (scopedPriceRules (inp\<lparr>pcRules := rules\<rparr>)))"
      by (simp add: scopedPriceRules_filter)
    then obtain d where "firstDuplicate [] (map prID (scopedPriceRules (inp\<lparr>pcRules := rules\<rparr>))) = Some d"
      by (meson firstDuplicate_NoneD not_None_eq)
    then show ?thesis using ids by (simp add: SelectPricingRule_def checkPriceRules_def)
  qed
qed

theorem price_order_independent_witness:
  "SelectPricingRule 50 (demoRequest\<lparr>pcRules := [demoPosRule, demoVenueRule, demoEarlyBird]\<rparr>) =
     SelectPricingRule 50 demoRequest"
  by (rule price_order_independent) (simp add: demoRequest_def)

text \<open>
  The rules of other channels have no influence at all. Removing every rule that
  is not eligible in the requested channel leaves the outcome unchanged, whether it
  is a price, its provenance or an error: a misconfigured rule of one channel cannot
  fail another channel's resolution and is never reported to it.
\<close>

theorem price_channel_isolation:
  "SelectPricingRule at (inp\<lparr>pcRules := filter (\<lambda>r. priceChannelEligible r (pcChannel inp))
     (pcRules inp)\<rparr>) = SelectPricingRule at inp"
proof -
  have "scopedPriceRules (inp\<lparr>pcRules := filter (\<lambda>r. priceChannelEligible r (pcChannel inp))
      (pcRules inp)\<rparr>) = scopedPriceRules inp"
    by (simp add: scopedPriceRules_filter conj_ac)
  then show ?thesis by (simp add: SelectPricingRule_def)
qed

text \<open>
  The provenance document is complete and honest. The winner together with the
  losing candidates is exactly the considered rules, each once, the candidates come
  in identifier order, and every reason given is true of the rule it is given for.
\<close>

theorem price_provenance_complete:
  assumes "SelectPricingRule at inp = Inr sel"
  shows "mset (map lpRule (rsCandidates sel)) +
      mset (case rsWinner sel of None \<Rightarrow> [] | Some w \<Rightarrow> [w]) =
    mset (filter (\<lambda>r. matchesScope r (pcScopes inp) \<and> priceChannelEligible r (pcChannel inp))
      (pcRules inp)) \<and>
    sorted (map (\<lambda>l. prID (lpRule l)) (rsCandidates sel)) \<and>
    (\<forall>l \<in> set (rsCandidates sel). priceReasonHolds at sel l)"
proof -
  have "mset (scopedPriceRules inp) =
      mset (filter (\<lambda>r. matchesScope r (pcScopes inp) \<and> priceChannelEligible r (pcChannel inp))
        (pcRules inp))"
    by (simp add: scopedPriceRules_filter)
  moreover have "sorted (map (\<lambda>l. prID (lpRule l)) (rsCandidates sel))"
    using assms by (cases rule: SelectPricingRule_cases) (simp_all add: sortedCandidates_sorted)
  ultimately show ?thesis
    using price_provenance [OF assms] price_reasons [OF assms] by simp
qed

theorem price_provenance_complete_witness:
  "\<exists>sel. SelectPricingRule 50 demoRequest = Inr sel \<and>
     (\<forall>l \<in> set (rsCandidates sel). priceReasonHolds 50 sel l) \<and> length (rsCandidates sel) = 2"
proof -
  obtain sel where sel: "SelectPricingRule 50 demoRequest = Inr sel" "rsWinner sel = Some demoVenueRule"
    using demo_price_winner by blast
  note p = price_provenance_complete [OF sel(1)]
  have "size (mset (map lpRule (rsCandidates sel)) + {#demoVenueRule#}) = 3"
    using p sel(2) by (simp add: price_eval demo_price_defs)
  then show ?thesis using p sel(1) by simp
qed

text \<open>
  Resolution fails exactly when two rules of the request share an identifier or
  one whose window has not closed is in another currency than the ticket type; the
  error names such a rule. A rule that is already past never fails a resolution,
  and the index of an empty competition is never taken.
\<close>

theorem price_resolution_fails_iff:
  "(\<exists>e. SelectPricingRule at inp = Inl e) =
     (\<not> distinct (map prID (filter (\<lambda>r. matchesScope r (pcScopes inp) \<and>
          priceChannelEligible r (pcChannel inp)) (pcRules inp))) \<or>
      (\<exists>r. priceConsidered inp r \<and> \<not> isPast at r \<and>
         prCurrency r \<noteq> Currency (pcBasePrice inp))) \<and>
   SelectPricingRule at inp \<noteq> Inl IndexPanic"
proof -
  let ?cur = "Currency (pcBasePrice inp)"
  have d: "distinct (map prID (scopedPriceRules inp)) =
      distinct (map prID (filter (\<lambda>r. matchesScope r (pcScopes inp) \<and>
          priceChannelEligible r (pcChannel inp)) (pcRules inp)))"
    by (simp add: scopedPriceRules_filter)
  have "(\<exists>e. SelectPricingRule at inp = Inl e) =
      (checkPriceRules at ?cur (scopedPriceRules inp) \<noteq> None)"
    by (auto simp: SelectPricingRule_Inl)
  moreover have "SelectPricingRule at inp \<noteq> Inl IndexPanic"
    by (auto simp: SelectPricingRule_Inl checkPriceRules_def split: option.splits)
  ultimately show ?thesis by (auto simp: checkPriceRules_None d set_scopedPriceRules)
qed

theorem price_resolution_fails_iff_witness:
  "\<exists>e. SelectPricingRule 50 (demoRequest\<lparr>pcRules := [demoPosRule, demoPosRule]\<rparr>) = Inl e"
  using price_resolution_fails_iff [of 50 "demoRequest\<lparr>pcRules := [demoPosRule, demoPosRule]\<rparr>"]
  by (simp add: demo_price_defs matchesScope_def priceChannelEligible_def)

end
