(* ===== verification/Splits.thy ===== *)
theory Splits
  imports Rule_Ranking
begin

text \<open>
  Split-schedule resolution: \<open>services/catalog/internal/store/splits.go\<close>. Which payees
  a fee code is owed to, ranked on the axes of the fee itself; the winner is a set
  of parts in basis points.
\<close>

section \<open>Data\<close>

definition SplitModeSplit :: string where "SplitModeSplit = ''split''"
definition SplitModeUnsplit :: string where "SplitModeUnsplit = ''unsplit''"
definition SplitReasonNoSchedule :: string where "SplitReasonNoSchedule = ''no_schedule''"
definition SplitReasonOutsideWindow :: string where "SplitReasonOutsideWindow = ''outside_window''"
definition SplitResolverVersion :: int where "SplitResolverVersion = 1"

record Payee =
  pyID :: uuid
  pyOrganizerID :: uuid
  pyKind :: string
  pyDisplayName :: string
  pyExternalReference :: "string option"

record SplitPart =
  spPayee :: Payee
  spShareBps :: int

record SplitSchedule =
  ssID :: uuid
  ssOrganizerID :: uuid
  ssScopeLevel :: ScopeLevel
  ssScopeID :: uuid
  ssFeeCode :: string
  ssChannelCode :: "string option"
  ssPriority :: int
  ssForceAncestorOverride :: bool
  ssEffectiveFrom :: "time option"
  ssEffectiveUntil :: "time option"
  ssParts :: "SplitPart list"

record LosingSplitSchedule =
  lsSchedule :: SplitSchedule
  lsReason :: LossReason

record SplitSelection =
  slResolverVersion :: int
  slMode :: string
  slReason :: string
  slWinner :: "SplitSchedule option"
  slCandidates :: "LosingSplitSchedule list"

text \<open>The zero value of the struct, which a fee carries until its split is resolved.\<close>

definition zeroSplitSelection :: SplitSelection where
  "zeroSplitSelection =
     \<lparr>slResolverVersion = 0, slMode = [], slReason = [], slWinner = None, slCandidates = []\<rparr>"

section \<open>The comparator\<close>

definition splitIsPast :: "time \<Rightarrow> SplitSchedule \<Rightarrow> bool" where
  "splitIsPast at s = (case ssEffectiveUntil s of None \<Rightarrow> False | Some u \<Rightarrow> \<not> Before at u)"

definition splitChannelEligible :: "SplitSchedule \<Rightarrow> string option \<Rightarrow> bool" where
  "splitChannelEligible s requested =
     (case ssChannelCode s of
        None \<Rightarrow> True
      | Some c \<Rightarrow> (case requested of None \<Rightarrow> False | Some q \<Rightarrow> c = q))"

definition splitChannelSpecificity :: "SplitSchedule \<Rightarrow> int" where
  "splitChannelSpecificity s = (if ssChannelCode s \<noteq> None then 0 else 1)"

definition splitMatchesScope :: "SplitSchedule \<Rightarrow> PricingScopes \<Rightarrow> bool" where
  "splitMatchesScope s sc =
     (case ssScopeLevel s of
        ScopeTicketType \<Rightarrow> ssScopeID s = TicketTypeID sc
      | ScopeSlot \<Rightarrow> ssScopeID s = SlotID sc
      | ScopeSeries \<Rightarrow> (case SeriesID sc of None \<Rightarrow> False | Some i \<Rightarrow> ssScopeID s = i)
      | ScopeEvent \<Rightarrow> ssScopeID s = EventID sc
      | ScopeVenue \<Rightarrow> ssScopeID s = VenueID sc
      | ScopeOther _ \<Rightarrow> False)"

definition splitBeats :: "SplitSchedule \<Rightarrow> SplitSchedule \<Rightarrow> bool \<Rightarrow> bool" where
  "splitBeats challenger best inverted =
     (let cr = scopeRank (ssScopeLevel challenger); br = scopeRank (ssScopeLevel best) in
      if cr \<noteq> br then (if inverted then cr > br else cr < br)
      else
        (let cc = splitChannelSpecificity challenger; bc = splitChannelSpecificity best in
         if cc \<noteq> bc then (if inverted then cc > bc else cc < bc)
         else if ssPriority challenger \<noteq> ssPriority best
           then ssPriority challenger > ssPriority best
         else uuid_String (ssID challenger) < uuid_String (ssID best)))"

definition splitLossReason :: "SplitSchedule \<Rightarrow> SplitSchedule \<Rightarrow> LossReason" where
  "splitLossReason loser winner =
     (if ssForceAncestorOverride winner \<and> \<not> ssForceAncestorOverride loser then
        (if scopeRank (ssScopeLevel winner) > scopeRank (ssScopeLevel loser)
         then ReasonForcedBroaderScope else ReasonExcludedByForcedRule)
      else if scopeRank (ssScopeLevel loser) \<noteq> scopeRank (ssScopeLevel winner) then
        (if ssForceAncestorOverride winner then ReasonLowerForcedScope else ReasonLessSpecific)
      else if splitChannelSpecificity loser \<noteq> splitChannelSpecificity winner
        then ReasonLessChannelSpecific
      else if ssPriority loser \<noteq> ssPriority winner then ReasonLowerPriority
      else ReasonStableIDTiebreak)"

definition sortedSplitLosers :: "LosingSplitSchedule list \<Rightarrow> LosingSplitSchedule list" where
  "sortedSplitLosers losers = sortByID (\<lambda>l. ssID (lsSchedule l)) losers"

section \<open>SelectSplitSchedule\<close>

text \<open>The first loop: code, scope and channel, in that order, then the sort.\<close>

definition scopedSplits ::
  "string \<Rightarrow> string option \<Rightarrow> PricingScopes \<Rightarrow> SplitSchedule list \<Rightarrow> SplitSchedule list" where
  "scopedSplits code channel scopes schedules =
     sortByID ssID (filter (\<lambda>s. ssFeeCode s = code \<and> splitMatchesScope s scopes \<and>
       splitChannelEligible s channel) schedules)"

definition splitWindowReason :: "time \<Rightarrow> SplitSchedule \<Rightarrow> LossReason option" where
  "splitWindowReason at s =
     (if splitIsPast at s then Some ReasonOutsideWindowPast
      else case ssEffectiveFrom s of
             None \<Rightarrow> None
           | Some f \<Rightarrow> if Before at f then Some ReasonOutsideWindowFuture else None)"

definition eligibleSplits :: "time \<Rightarrow> SplitSchedule list \<Rightarrow> SplitSchedule list" where
  "eligibleSplits at scoped = filter (\<lambda>s. splitWindowReason at s = None) scoped"

definition splitWindowLosers :: "time \<Rightarrow> SplitSchedule list \<Rightarrow> LosingSplitSchedule list" where
  "splitWindowLosers at scoped =
     concat (map (\<lambda>s. case splitWindowReason at s of
         None \<Rightarrow> [] | Some why \<Rightarrow> [\<lparr>lsSchedule = s, lsReason = why\<rparr>]) scoped)"

definition splitRankLosers :: "SplitSchedule list \<Rightarrow> SplitSchedule \<Rightarrow> LosingSplitSchedule list" where
  "splitRankLosers eligible winner =
     map (\<lambda>s. \<lparr>lsSchedule = s, lsReason = splitLossReason s winner\<rparr>)
       (filter (\<lambda>s. ssID s \<noteq> ssID winner) eligible)"

text \<open>
  The code returns a bare \<open>SplitSelection\<close>; the left of the sum is only the panic of
  \<open>competition[0]\<close> on an empty slice.
\<close>

definition SelectSplitSchedule ::
  "time \<Rightarrow> string \<Rightarrow> string option \<Rightarrow> PricingScopes \<Rightarrow> SplitSchedule list \<Rightarrow>
   store_error + SplitSelection" where
  "SelectSplitSchedule at code channel scopes schedules =
     (let out = \<lparr>slResolverVersion = SplitResolverVersion, slMode = SplitModeUnsplit,
                 slReason = SplitReasonNoSchedule, slWinner = None, slCandidates = []\<rparr>;
          scoped = scopedSplits code channel scopes schedules
      in if scoped = [] then Inr out
         else
           (let eligible = eligibleSplits at scoped;
                windowLosers = splitWindowLosers at scoped
            in if eligible = [] then
                 Inr (out\<lparr>slReason := SplitReasonOutsideWindow,
                          slCandidates := sortedSplitLosers windowLosers\<rparr>)
               else case selectWinner ssForceAncestorOverride splitBeats eligible of
                 None \<Rightarrow> Inl IndexPanic
               | Some winner \<Rightarrow>
                   Inr (out\<lparr>slMode := SplitModeSplit, slReason := [], slWinner := Some winner,
                            slCandidates := sortedSplitLosers
                              (windowLosers @ splitRankLosers eligible winner)\<rparr>)))"

section \<open>The comparator satisfies the shared contract\<close>

interpretation split: rule_axes ssID "\<lambda>s. scopeRank (ssScopeLevel s)" splitChannelSpecificity
  ssPriority ssForceAncestorOverride splitBeats splitLossReason
proof unfold_locales
  fix c b :: SplitSchedule and inverted
  show "splitBeats c b inverted \<longleftrightarrow>
      axisBeats ssID (\<lambda>s. scopeRank (ssScopeLevel s)) splitChannelSpecificity ssPriority inverted c b"
    by (auto simp: splitBeats_def axisBeats_def Let_def)
next
  fix w l :: SplitSchedule
  assume "splitBeats w l (ssForceAncestorOverride w)"
    and "ssForceAncestorOverride w = ssForceAncestorOverride l"
  then show "reasonHolds ssID (\<lambda>s. scopeRank (ssScopeLevel s)) splitChannelSpecificity ssPriority
      ssForceAncestorOverride (splitLossReason l w) l w"
    by (auto simp: splitBeats_def splitLossReason_def Let_def split: if_splits)
next
  fix w l :: SplitSchedule
  assume "ssForceAncestorOverride w" and "\<not> ssForceAncestorOverride l"
  then show "reasonHolds ssID (\<lambda>s. scopeRank (ssScopeLevel s)) splitChannelSpecificity ssPriority
      ssForceAncestorOverride (splitLossReason l w) l w"
    by (simp add: splitLossReason_def)
qed

section \<open>What a resolution considers\<close>

definition splitConsidered ::
  "string \<Rightarrow> string option \<Rightarrow> PricingScopes \<Rightarrow> SplitSchedule list \<Rightarrow> SplitSchedule \<Rightarrow> bool" where
  "splitConsidered code channel scopes schedules s \<longleftrightarrow> s \<in> set schedules \<and> ssFeeCode s = code \<and>
     splitMatchesScope s scopes \<and> splitChannelEligible s channel"

definition splitOutranks :: "SplitSchedule \<Rightarrow> SplitSchedule \<Rightarrow> bool" where
  "splitOutranks w s \<longleftrightarrow>
     ssForceAncestorOverride w \<and> \<not> ssForceAncestorOverride s \<or>
     ssForceAncestorOverride w = ssForceAncestorOverride s \<and>
       axisBeats ssID (\<lambda>s. scopeRank (ssScopeLevel s)) splitChannelSpecificity ssPriority
         (ssForceAncestorOverride w) w s"

lemma set_scopedSplits:
  "s \<in> set (scopedSplits code channel scopes schedules) \<longleftrightarrow>
     splitConsidered code channel scopes schedules s"
  by (auto simp: scopedSplits_def splitConsidered_def)

lemma set_eligibleSplits:
  "s \<in> set (eligibleSplits at (scopedSplits code channel scopes schedules)) \<longleftrightarrow>
     splitConsidered code channel scopes schedules s \<and> splitWindowReason at s = None"
  by (auto simp: eligibleSplits_def set_scopedSplits)

lemma SelectSplitSchedule_total:
  obtains sel where "SelectSplitSchedule at code channel scopes schedules = Inr sel"
proof -
  let ?sc = "scopedSplits code channel scopes schedules"
  have "\<exists>sel. SelectSplitSchedule at code channel scopes schedules = Inr sel"
    using selectWinner_Some [of "eligibleSplits at ?sc" ssForceAncestorOverride splitBeats]
    by (auto simp: SelectSplitSchedule_def Let_def)
  then show thesis using that by blast
qed

lemma SelectSplitSchedule_winner:
  assumes "SelectSplitSchedule at code channel scopes schedules = Inr sel" "slWinner sel = Some w"
  shows "selectWinner ssForceAncestorOverride splitBeats
    (eligibleSplits at (scopedSplits code channel scopes schedules)) = Some w"
  using assms by (auto simp: SelectSplitSchedule_def Let_def split: if_splits option.splits)

lemma SelectSplitSchedule_no_winner:
  assumes "SelectSplitSchedule at code channel scopes schedules = Inr sel"
  shows "slWinner sel = None \<longleftrightarrow> eligibleSplits at (scopedSplits code channel scopes schedules) = []"
  using assms
  by (auto simp: SelectSplitSchedule_def Let_def eligibleSplits_def split: if_splits option.splits)

lemma SelectSplitSchedule_mode:
  assumes "SelectSplitSchedule at code channel scopes schedules = Inr sel"
  shows "slMode sel = (if slWinner sel = None then SplitModeUnsplit else SplitModeSplit)"
  using assms by (auto simp: SelectSplitSchedule_def Let_def split: if_splits option.splits)

lemma splitWindowLosers_mem:
  "l \<in> set (splitWindowLosers at rs) \<Longrightarrow> lsSchedule l \<in> set rs"
  by (auto simp: splitWindowLosers_def split: option.splits)

lemma SelectSplitSchedule_candidates:
  assumes "SelectSplitSchedule at code channel scopes schedules = Inr sel"
    and "l \<in> set (slCandidates sel)"
  shows "splitConsidered code channel scopes schedules (lsSchedule l)"
  using assms
  by (auto simp: SelectSplitSchedule_def Let_def sortedSplitLosers_def splitRankLosers_def
      set_eligibleSplits simp flip: set_scopedSplits
      dest!: splitWindowLosers_mem split: if_splits option.splits)

lemma split_winner_best:
  assumes sel: "SelectSplitSchedule at code channel scopes schedules = Inr sel"
    and w: "slWinner sel = Some w" and d: "distinct (map ssID schedules)"
  shows "splitConsidered code channel scopes schedules w \<and> splitWindowReason at w = None \<and>
    (\<forall>s. splitConsidered code channel scopes schedules s \<and> splitWindowReason at s = None \<and>
       s \<noteq> w \<longrightarrow> splitOutranks w s)"
proof -
  let ?el = "eligibleSplits at (scopedSplits code channel scopes schedules)"
  note win = SelectSplitSchedule_winner [OF sel w]
  have w_el: "w \<in> set ?el" using win by (rule selectWinner_mem)
  have "splitOutranks w s" if s: "s \<in> set ?el" "s \<noteq> w" for s
  proof -
    have "s \<in> set schedules" "w \<in> set schedules"
      using s(1) w_el by (auto simp: set_eligibleSplits splitConsidered_def)
    with d s(2) have "ssID s \<noteq> ssID w" by (auto simp: distinct_map inj_on_def)
    then show ?thesis
      using split.winner_beats [OF win s(1)] split.winner_forced [OF win] s(1)
      by (auto simp: splitOutranks_def split.cmp_axes list_ex_iff)
  qed
  with w_el show ?thesis by (simp add: set_eligibleSplits)
qed

section \<open>A worked schedule\<close>

definition demoPayee :: "uuid \<Rightarrow> Payee" where
  "demoPayee i = \<lparr>pyID = i, pyOrganizerID = 9, pyKind = ''venue'', pyDisplayName = ''House'',
     pyExternalReference = None\<rparr>"

definition demoSchedule :: "uuid \<Rightarrow> uuid \<Rightarrow> string option \<Rightarrow> SplitSchedule" where
  "demoSchedule i payee ch =
     \<lparr>ssID = i, ssOrganizerID = 9, ssScopeLevel = ScopeVenue, ssScopeID = 4,
      ssFeeCode = ''svc'', ssChannelCode = ch, ssPriority = 0, ssForceAncestorOverride = False,
      ssEffectiveFrom = None, ssEffectiveUntil = None,
      ssParts = [\<lparr>spPayee = demoPayee payee, spShareBps = 10000\<rparr>]\<rparr>"

definition demoSplitScopes :: PricingScopes where
  "demoSplitScopes = \<lparr>TicketTypeID = 1, SlotID = 2, SeriesID = None, EventID = 3, VenueID = 4\<rparr>"

lemmas split_eval = SelectSplitSchedule_def Let_def scopedSplits_def eligibleSplits_def
  splitWindowLosers_def splitRankLosers_def splitWindowReason_def splitIsPast_def
  splitMatchesScope_def splitChannelEligible_def splitChannelSpecificity_def splitBeats_def
  splitLossReason_def selectWinner_def sortByID_eq sortedSplitLosers_def Before_def
  demoSchedule_def demoSplitScopes_def demoPayee_def

lemma demo_split_winner:
  "\<exists>sel. SelectSplitSchedule 50 ''svc'' (Some ''pos'') demoSplitScopes
     [demoSchedule 21 7 None, demoSchedule 22 8 (Some ''pos'')] = Inr sel \<and>
     slWinner sel = Some (demoSchedule 22 8 (Some ''pos''))"
  by (simp add: split_eval)

section \<open>Properties\<close>

text \<open>
  Split resolution always answers. It is \<open>split\<close> exactly when some schedule of the
  code, on the request's scopes, eligible in its channel, is inside its window; with
  distinct identifiers the winner is such a schedule and outranks every other one.
  A schedule of another code, scope or channel is never reported as a candidate.
\<close>

theorem split_resolution_correct:
  assumes "distinct (map ssID schedules)"
  shows "\<exists>sel. SelectSplitSchedule at code channel scopes schedules = Inr sel \<and>
    (slMode sel = SplitModeSplit) = (slWinner sel \<noteq> None) \<and>
    (slWinner sel \<noteq> None) = (\<exists>s. splitConsidered code channel scopes schedules s \<and>
        splitWindowReason at s = None) \<and>
    (\<forall>w. slWinner sel = Some w \<longrightarrow> splitConsidered code channel scopes schedules w \<and>
       splitWindowReason at w = None \<and>
       (\<forall>s. splitConsidered code channel scopes schedules s \<and> splitWindowReason at s = None \<and>
          s \<noteq> w \<longrightarrow> splitOutranks w s)) \<and>
    (\<forall>l \<in> set (slCandidates sel). splitConsidered code channel scopes schedules (lsSchedule l))"
proof -
  let ?el = "eligibleSplits at (scopedSplits code channel scopes schedules)"
  obtain sel where sel: "SelectSplitSchedule at code channel scopes schedules = Inr sel"
    by (rule SelectSplitSchedule_total)
  have "?el = [] \<longleftrightarrow> \<not> (\<exists>s. splitConsidered code channel scopes schedules s \<and>
      splitWindowReason at s = None)"
    by (metis set_eligibleSplits set_empty equals0D equals0I)
  then have none: "(slWinner sel \<noteq> None) = (\<exists>s. splitConsidered code channel scopes schedules s \<and>
      splitWindowReason at s = None)"
    using SelectSplitSchedule_no_winner [OF sel] by metis
  have mode: "(slMode sel = SplitModeSplit) = (slWinner sel \<noteq> None)"
    using SelectSplitSchedule_mode [OF sel] by (simp add: SplitModeSplit_def SplitModeUnsplit_def)
  show ?thesis
    using sel none mode split_winner_best [OF sel _ assms] SelectSplitSchedule_candidates [OF sel]
    by blast
qed

theorem split_resolution_correct_witness:
  "distinct (map ssID [demoSchedule 21 7 None, demoSchedule 22 8 (Some ''pos'')]) \<and>
   (\<exists>sel. SelectSplitSchedule 50 ''svc'' (Some ''pos'') demoSplitScopes
      [demoSchedule 21 7 None, demoSchedule 22 8 (Some ''pos'')] = Inr sel \<and>
      slMode sel = SplitModeSplit)"
proof -
  have d: "distinct (map ssID [demoSchedule 21 7 None, demoSchedule 22 8 (Some ''pos'')])"
    by (simp add: demoSchedule_def)
  show ?thesis
    using d demo_split_winner
      split_resolution_correct [OF d, of 50 "''svc''" "Some ''pos''" demoSplitScopes]
    by auto
qed

text \<open>
  With distinct identifiers, the outcome of split resolution is a function of the
  set of schedules, not of the order the rows arrive in.
\<close>

theorem split_order_independent:
  assumes "mset schedules = mset schedules'" and "distinct (map ssID schedules)"
  shows "SelectSplitSchedule at code channel scopes schedules' =
    SelectSplitSchedule at code channel scopes schedules"
proof -
  have "scopedSplits code channel scopes schedules = scopedSplits code channel scopes schedules'"
    unfolding scopedSplits_def
    by (rule sortByID_perm) (use assms in \<open>simp_all add: distinct_map_filter\<close>)
  then show ?thesis by (simp add: SelectSplitSchedule_def)
qed

theorem split_order_independent_witness:
  "SelectSplitSchedule 50 ''svc'' (Some ''pos'') demoSplitScopes
     [demoSchedule 22 8 (Some ''pos''), demoSchedule 21 7 None] =
   SelectSplitSchedule 50 ''svc'' (Some ''pos'') demoSplitScopes
     [demoSchedule 21 7 None, demoSchedule 22 8 (Some ''pos'')]"
  by (rule split_order_independent) (simp_all add: demoSchedule_def)

end
