(* ===== verification/Fees.thy ===== *)
theory Fees
  imports Splits
begin

text \<open>
  Fee-rule resolution: \<open>services/catalog/internal/store/fees.go\<close>. One winner per fee
  code; the codes do not compete with each other.
\<close>

section \<open>Data\<close>

definition BasisPerTicketFixed :: string where "BasisPerTicketFixed = ''per_ticket_fixed''"
definition BasisPerOrderFixed :: string where "BasisPerOrderFixed = ''per_order_fixed''"
definition BasisPercentageBps :: string where "BasisPercentageBps = ''percentage_bps''"
definition IncidencePassedOn :: string where "IncidencePassedOn = ''passed_on''"
definition IncidenceAbsorbed :: string where "IncidenceAbsorbed = ''absorbed''"
definition FeeResolverVersion :: int where "FeeResolverVersion = 1"

record FeeRule =
  frID :: uuid
  frOrganizerID :: uuid
  frScopeLevel :: ScopeLevel
  frScopeID :: uuid
  frFeeCode :: string
  frBasis :: string
  frAmount :: "int option"
  frRateBps :: "int option"
  frCurrency :: string
  frIncidence :: string
  frChannelCode :: "string option"
  frPriority :: int
  frForceAncestorOverride :: bool
  frEffectiveFrom :: "time option"
  frEffectiveUntil :: "time option"
  frCreatedAt :: time

record LosingFeeRule =
  lfRule :: FeeRule
  lfReason :: LossReason

record FeeCodeSelection =
  fcFeeCode :: string
  fcWinner :: "FeeRule option"
  fcCandidates :: "LosingFeeRule list"
  fcSplit :: SplitSelection

record FeeSelection =
  fsResolverVersion :: int
  fsEvaluatedAt :: time
  fsOrganizerID :: uuid
  fsPerformanceID :: uuid
  fsCurrency :: string
  fsChannel :: "string option"
  fsFees :: "FeeCodeSelection list"

record FeeCandidates =
  fdCurrency :: string
  fdScopes :: PricingScopes
  fdChannel :: "string option"
  fdRules :: "FeeRule list"

section \<open>The comparator\<close>

definition feeIsPast :: "time \<Rightarrow> FeeRule \<Rightarrow> bool" where
  "feeIsPast at r = (case frEffectiveUntil r of None \<Rightarrow> False | Some u \<Rightarrow> \<not> Before at u)"

definition feeChannelEligible :: "FeeRule \<Rightarrow> string option \<Rightarrow> bool" where
  "feeChannelEligible r requested =
     (case frChannelCode r of
        None \<Rightarrow> True
      | Some c \<Rightarrow> (case requested of None \<Rightarrow> False | Some q \<Rightarrow> c = q))"

definition channelSpecificity :: "FeeRule \<Rightarrow> int" where
  "channelSpecificity r = (if frChannelCode r \<noteq> None then 0 else 1)"

definition feeMatchesScope :: "FeeRule \<Rightarrow> PricingScopes \<Rightarrow> bool" where
  "feeMatchesScope r s =
     (case frScopeLevel r of
        ScopeTicketType \<Rightarrow> frScopeID r = TicketTypeID s
      | ScopeSlot \<Rightarrow> frScopeID r = SlotID s
      | ScopeSeries \<Rightarrow> (case SeriesID s of None \<Rightarrow> False | Some i \<Rightarrow> frScopeID r = i)
      | ScopeEvent \<Rightarrow> frScopeID r = EventID s
      | ScopeVenue \<Rightarrow> frScopeID r = VenueID s
      | ScopeOther _ \<Rightarrow> False)"

definition feeBeats :: "FeeRule \<Rightarrow> FeeRule \<Rightarrow> bool \<Rightarrow> bool" where
  "feeBeats challenger best inverted =
     (let cr = scopeRank (frScopeLevel challenger); br = scopeRank (frScopeLevel best) in
      if cr \<noteq> br then (if inverted then cr > br else cr < br)
      else
        (let cc = channelSpecificity challenger; bc = channelSpecificity best in
         if cc \<noteq> bc then (if inverted then cc > bc else cc < bc)
         else if frPriority challenger \<noteq> frPriority best
           then frPriority challenger > frPriority best
         else uuid_String (frID challenger) < uuid_String (frID best)))"

definition feeLossReason :: "FeeRule \<Rightarrow> FeeRule \<Rightarrow> LossReason" where
  "feeLossReason loser winner =
     (if frForceAncestorOverride winner \<and> \<not> frForceAncestorOverride loser then
        (if scopeRank (frScopeLevel winner) > scopeRank (frScopeLevel loser)
         then ReasonForcedBroaderScope else ReasonExcludedByForcedRule)
      else if scopeRank (frScopeLevel loser) \<noteq> scopeRank (frScopeLevel winner) then
        (if frForceAncestorOverride winner then ReasonLowerForcedScope else ReasonLessSpecific)
      else if channelSpecificity loser \<noteq> channelSpecificity winner
        then ReasonLessChannelSpecific
      else if frPriority loser \<noteq> frPriority winner then ReasonLowerPriority
      else ReasonStableIDTiebreak)"

definition sortedFeeLosers :: "LosingFeeRule list \<Rightarrow> LosingFeeRule list" where
  "sortedFeeLosers losers = sortByID (\<lambda>l. frID (lfRule l)) losers"

section \<open>Steps 4 to 8, inside one code\<close>

definition feeRankLosers :: "FeeRule list \<Rightarrow> FeeRule \<Rightarrow> LosingFeeRule list" where
  "feeRankLosers competitors winner =
     map (\<lambda>r. \<lparr>lfRule = r, lfReason = feeLossReason r winner\<rparr>)
       (filter (\<lambda>r. frID r \<noteq> frID winner) competitors)"

definition selectOneFeeCode ::
  "string \<Rightarrow> FeeRule list \<Rightarrow> LosingFeeRule list \<Rightarrow> store_error + FeeCodeSelection" where
  "selectOneFeeCode code competitors windowLosers =
     (if competitors = [] then
        Inr \<lparr>fcFeeCode = code, fcWinner = None, fcCandidates = sortedFeeLosers windowLosers,
             fcSplit = zeroSplitSelection\<rparr>
      else case selectWinner frForceAncestorOverride feeBeats competitors of
        None \<Rightarrow> Inl IndexPanic
      | Some winner \<Rightarrow>
          Inr \<lparr>fcFeeCode = code, fcWinner = Some winner,
               fcCandidates = sortedFeeLosers (windowLosers @ feeRankLosers competitors winner),
               fcSplit = zeroSplitSelection\<rparr>)"

section \<open>SelectFeeRules\<close>

text \<open>Step 0 and the sort by identifier.\<close>

definition scopedFeeRules :: "FeeCandidates \<Rightarrow> FeeRule list" where
  "scopedFeeRules inp =
     sortByID frID (filter (\<lambda>r. feeMatchesScope r (fdScopes inp)) (fdRules inp))"

text \<open>
  The duplicate guard looks at the channel-eligible rules only; the currency check
  looks at every scoped rule that is not past, whatever its channel.
\<close>

definition checkFeeRules :: "time \<Rightarrow> FeeCandidates \<Rightarrow> FeeRule list \<Rightarrow> store_error option" where
  "checkFeeRules at inp scoped =
     (case firstDuplicate [] (map frID (filter (\<lambda>r. feeChannelEligible r (fdChannel inp)) scoped)) of
        Some d \<Rightarrow> Some (ErrDuplicateFeeRuleID d)
      | None \<Rightarrow>
          (case find (\<lambda>r. \<not> feeIsPast at r \<and> frCurrency r \<noteq> fdCurrency inp) scoped of
             Some r \<Rightarrow> Some (ErrFeeRuleCurrencyMismatch (frID r))
           | None \<Rightarrow> None))"

definition feeWindowReason :: "time \<Rightarrow> FeeRule \<Rightarrow> LossReason option" where
  "feeWindowReason at r =
     (if feeIsPast at r then Some ReasonOutsideWindowPast
      else case frEffectiveFrom r of
             None \<Rightarrow> None
           | Some f \<Rightarrow> if Before at f then Some ReasonOutsideWindowFuture else None)"

text \<open>Steps 2 and 3: the channel first, then the window switch.\<close>

definition eligibleFeeRules :: "time \<Rightarrow> string option \<Rightarrow> FeeRule list \<Rightarrow> FeeRule list" where
  "eligibleFeeRules at channel scoped =
     filter (\<lambda>r. feeWindowReason at r = None) (filter (\<lambda>r. feeChannelEligible r channel) scoped)"

definition feeWindowLosers :: "time \<Rightarrow> string option \<Rightarrow> FeeRule list \<Rightarrow> LosingFeeRule list" where
  "feeWindowLosers at channel scoped =
     concat (map (\<lambda>r. case feeWindowReason at r of
         None \<Rightarrow> [] | Some why \<Rightarrow> [\<lparr>lfRule = r, lfReason = why\<rparr>])
       (filter (\<lambda>r. feeChannelEligible r channel) scoped))"

text \<open>
  The partition by code. \<open>byCode\<close> and \<open>windowLosers\<close> are maps keyed by code, here the
  sublists of a code; \<open>codes\<close> is sorted afterwards, so the order in which Go walks
  the map does not show.
\<close>

definition feeCodes :: "FeeRule list \<Rightarrow> LosingFeeRule list \<Rightarrow> string list" where
  "feeCodes eligible windowLosers =
     sort (remdups (map frFeeCode eligible @ map (\<lambda>l. frFeeCode (lfRule l)) windowLosers))"

fun selectFeeCodes ::
  "FeeRule list \<Rightarrow> LosingFeeRule list \<Rightarrow> string list \<Rightarrow> store_error + FeeCodeSelection list" where
  "selectFeeCodes eligible windowLosers [] = Inr []"
| "selectFeeCodes eligible windowLosers (code # codes) =
     (case selectOneFeeCode code (filter (\<lambda>r. frFeeCode r = code) eligible)
             (filter (\<lambda>l. frFeeCode (lfRule l) = code) windowLosers) of
        Inl e \<Rightarrow> Inl e
      | Inr f \<Rightarrow> (case selectFeeCodes eligible windowLosers codes of
                    Inl e \<Rightarrow> Inl e
                  | Inr fs \<Rightarrow> Inr (f # fs)))"

definition SelectFeeRules :: "time \<Rightarrow> FeeCandidates \<Rightarrow> store_error + FeeSelection" where
  "SelectFeeRules at inp =
     (let scoped = scopedFeeRules inp in
      case checkFeeRules at inp scoped of
        Some e \<Rightarrow> Inl e
      | None \<Rightarrow>
          (let eligible = eligibleFeeRules at (fdChannel inp) scoped;
               windowLosers = feeWindowLosers at (fdChannel inp) scoped
           in case selectFeeCodes eligible windowLosers (feeCodes eligible windowLosers) of
                Inl e \<Rightarrow> Inl e
              | Inr fees \<Rightarrow>
                  Inr \<lparr>fsResolverVersion = FeeResolverVersion, fsEvaluatedAt = at,
                       fsOrganizerID = uuid_Nil, fsPerformanceID = SlotID (fdScopes inp),
                       fsCurrency = fdCurrency inp, fsChannel = fdChannel inp, fsFees = fees\<rparr>))"

section \<open>The comparator satisfies the shared contract\<close>

interpretation fee: rule_axes frID "\<lambda>r. scopeRank (frScopeLevel r)" channelSpecificity
  frPriority frForceAncestorOverride feeBeats feeLossReason
proof unfold_locales
  fix c b :: FeeRule and inverted
  show "feeBeats c b inverted \<longleftrightarrow>
      axisBeats frID (\<lambda>r. scopeRank (frScopeLevel r)) channelSpecificity frPriority inverted c b"
    by (auto simp: feeBeats_def axisBeats_def Let_def)
next
  fix w l :: FeeRule
  assume "feeBeats w l (frForceAncestorOverride w)"
    and "frForceAncestorOverride w = frForceAncestorOverride l"
  then show "reasonHolds frID (\<lambda>r. scopeRank (frScopeLevel r)) channelSpecificity frPriority
      frForceAncestorOverride (feeLossReason l w) l w"
    by (auto simp: feeBeats_def feeLossReason_def Let_def split: if_splits)
next
  fix w l :: FeeRule
  assume "frForceAncestorOverride w" and "\<not> frForceAncestorOverride l"
  then show "reasonHolds frID (\<lambda>r. scopeRank (frScopeLevel r)) channelSpecificity frPriority
      frForceAncestorOverride (feeLossReason l w) l w"
    by (simp add: feeLossReason_def)
qed

section \<open>What a resolution considers\<close>

definition feeConsidered :: "FeeCandidates \<Rightarrow> FeeRule \<Rightarrow> bool" where
  "feeConsidered inp r \<longleftrightarrow> r \<in> set (fdRules inp) \<and> feeMatchesScope r (fdScopes inp) \<and>
     feeChannelEligible r (fdChannel inp)"

definition feeEligible :: "time \<Rightarrow> FeeCandidates \<Rightarrow> FeeRule \<Rightarrow> bool" where
  "feeEligible at inp r \<longleftrightarrow> feeConsidered inp r \<and> feeWindowReason at r = None"

definition feeOutranks :: "FeeRule \<Rightarrow> FeeRule \<Rightarrow> bool" where
  "feeOutranks w r \<longleftrightarrow>
     frForceAncestorOverride w \<and> \<not> frForceAncestorOverride r \<or>
     frForceAncestorOverride w = frForceAncestorOverride r \<and>
       axisBeats frID (\<lambda>r. scopeRank (frScopeLevel r)) channelSpecificity frPriority
         (frForceAncestorOverride w) w r"

lemma set_eligibleFeeRules:
  "r \<in> set (eligibleFeeRules at (fdChannel inp) (scopedFeeRules inp)) \<longleftrightarrow> feeEligible at inp r"
  by (auto simp: eligibleFeeRules_def scopedFeeRules_def feeEligible_def feeConsidered_def)

lemma map_feeWindowLosers:
  "map lfRule (feeWindowLosers at ch rs) =
     filter (\<lambda>r. feeWindowReason at r \<noteq> None) (filter (\<lambda>r. feeChannelEligible r ch) rs)"
  by (induction rs) (auto simp: feeWindowLosers_def split: option.splits)

lemma set_feeCodes:
  "c \<in> set (feeCodes (eligibleFeeRules at (fdChannel inp) (scopedFeeRules inp))
      (feeWindowLosers at (fdChannel inp) (scopedFeeRules inp))) \<longleftrightarrow>
   (\<exists>r. feeConsidered inp r \<and> frFeeCode r = c)"
proof -
  let ?el = "eligibleFeeRules at (fdChannel inp) (scopedFeeRules inp)"
  let ?wl = "feeWindowLosers at (fdChannel inp) (scopedFeeRules inp)"
  have "set ?el \<union> set (map lfRule ?wl) = {r. feeConsidered inp r}"
    unfolding map_feeWindowLosers
    by (auto simp: eligibleFeeRules_def scopedFeeRules_def feeConsidered_def)
  moreover have "set (feeCodes ?el ?wl) = frFeeCode ` (set ?el \<union> set (map lfRule ?wl))"
    by (simp add: feeCodes_def image_Un image_image)
  ultimately show ?thesis by auto
qed

lemma feeCodes_sorted_distinct: "sorted (feeCodes el wl) \<and> distinct (feeCodes el wl)"
  by (simp add: feeCodes_def)

lemma selectOneFeeCode_total:
  obtains f where "selectOneFeeCode code cs wl = Inr f" "fcFeeCode f = code"
    "fcWinner f = (if cs = [] then None else selectWinner frForceAncestorOverride feeBeats cs)"
proof -
  have "\<exists>f. selectOneFeeCode code cs wl = Inr f \<and> fcFeeCode f = code \<and>
      fcWinner f = (if cs = [] then None else selectWinner frForceAncestorOverride feeBeats cs)"
    using selectWinner_Some [of cs frForceAncestorOverride feeBeats]
    by (auto simp: selectOneFeeCode_def)
  then show thesis using that by blast
qed

lemma selectFeeCodes_total:
  "\<exists>fs. selectFeeCodes el wl codes = Inr fs \<and> map fcFeeCode fs = codes \<and>
     (\<forall>f \<in> set fs. fcWinner f =
        (let cs = filter (\<lambda>r. frFeeCode r = fcFeeCode f) el in
         if cs = [] then None else selectWinner frForceAncestorOverride feeBeats cs))"
proof (induction codes)
  case (Cons code codes)
  let ?cs = "filter (\<lambda>r. frFeeCode r = code) el"
  let ?wl = "filter (\<lambda>l. frFeeCode (lfRule l) = code) wl"
  obtain f where "selectOneFeeCode code ?cs ?wl = Inr f" "fcFeeCode f = code"
    "fcWinner f = (if ?cs = [] then None else selectWinner frForceAncestorOverride feeBeats ?cs)"
    by (rule selectOneFeeCode_total)
  with Cons.IH show ?case by (auto simp: Let_def)
qed simp

lemma checkFeeRules_None:
  "checkFeeRules at inp (scopedFeeRules inp) = None \<longleftrightarrow>
     distinct (map frID (filter (\<lambda>r. feeMatchesScope r (fdScopes inp) \<and>
        feeChannelEligible r (fdChannel inp)) (fdRules inp))) \<and>
     (\<forall>r \<in> set (fdRules inp). feeMatchesScope r (fdScopes inp) \<longrightarrow> feeIsPast at r \<or>
        frCurrency r = fdCurrency inp)"
proof -
  have d: "distinct (map frID (filter (\<lambda>r. feeChannelEligible r (fdChannel inp)) (scopedFeeRules inp))) =
      distinct (map frID (filter (\<lambda>r. feeMatchesScope r (fdScopes inp) \<and>
        feeChannelEligible r (fdChannel inp)) (fdRules inp)))"
    by (simp add: scopedFeeRules_def filter_sortByID)
  show ?thesis
    unfolding checkFeeRules_def guarded_checks_None d by (auto simp: scopedFeeRules_def)
qed

lemma SelectFeeRules_Inl:
  "SelectFeeRules at inp = Inl e \<longleftrightarrow> checkFeeRules at inp (scopedFeeRules inp) = Some e"
proof -
  let ?el = "eligibleFeeRules at (fdChannel inp) (scopedFeeRules inp)"
  let ?wl = "feeWindowLosers at (fdChannel inp) (scopedFeeRules inp)"
  obtain fs where "selectFeeCodes ?el ?wl (feeCodes ?el ?wl) = Inr fs"
    using selectFeeCodes_total by blast
  then show ?thesis by (simp add: SelectFeeRules_def Let_def split: option.split)
qed

lemma SelectFeeRules_currency_iff:
  assumes "distinct (map frID (fdRules inp))"
  shows "(\<exists>i. SelectFeeRules at inp = Inl (ErrFeeRuleCurrencyMismatch i)) \<longleftrightarrow>
    (\<exists>r \<in> set (fdRules inp). feeMatchesScope r (fdScopes inp) \<and> \<not> feeIsPast at r \<and>
       frCurrency r \<noteq> fdCurrency inp)"
proof -
  have d: "distinct (map frID (filter (\<lambda>r. feeChannelEligible r (fdChannel inp)) (scopedFeeRules inp)))"
    using assms by (simp add: scopedFeeRules_def filter_sortByID distinct_map_filter)
  let ?P = "\<lambda>r. \<not> feeIsPast at r \<and> frCurrency r \<noteq> fdCurrency inp"
  have "(\<exists>i. SelectFeeRules at inp = Inl (ErrFeeRuleCurrencyMismatch i)) \<longleftrightarrow>
      (\<exists>r. find ?P (scopedFeeRules inp) = Some r)"
    unfolding SelectFeeRules_Inl checkFeeRules_def guarded_checks_Some [OF d] by auto
  then show ?thesis unfolding find_Some_ex by (auto simp: scopedFeeRules_def)
qed

lemma SelectFeeRules_Inr:
  assumes "SelectFeeRules at inp = Inr sel"
  shows "checkFeeRules at inp (scopedFeeRules inp) = None"
    and "selectFeeCodes (eligibleFeeRules at (fdChannel inp) (scopedFeeRules inp))
        (feeWindowLosers at (fdChannel inp) (scopedFeeRules inp))
        (feeCodes (eligibleFeeRules at (fdChannel inp) (scopedFeeRules inp))
          (feeWindowLosers at (fdChannel inp) (scopedFeeRules inp))) = Inr (fsFees sel)"
    and "fsPerformanceID sel = SlotID (fdScopes inp)" "fsCurrency sel = fdCurrency inp"
      "fsChannel sel = fdChannel inp" "fsEvaluatedAt sel = at" "fsResolverVersion sel = FeeResolverVersion"
  using assms by (auto simp: SelectFeeRules_def Let_def split: option.splits sum.splits)

lemma SelectFeeRules_codes:
  assumes "SelectFeeRules at inp = Inr sel"
  shows "map fcFeeCode (fsFees sel) =
      feeCodes (eligibleFeeRules at (fdChannel inp) (scopedFeeRules inp))
        (feeWindowLosers at (fdChannel inp) (scopedFeeRules inp))"
    and "f \<in> set (fsFees sel) \<Longrightarrow> fcWinner f =
      (let cs = filter (\<lambda>r. frFeeCode r = fcFeeCode f)
                  (eligibleFeeRules at (fdChannel inp) (scopedFeeRules inp))
       in if cs = [] then None else selectWinner frForceAncestorOverride feeBeats cs)"
  using SelectFeeRules_Inr(2) [OF assms]
    selectFeeCodes_total [of "eligibleFeeRules at (fdChannel inp) (scopedFeeRules inp)"
      "feeWindowLosers at (fdChannel inp) (scopedFeeRules inp)"
      "feeCodes (eligibleFeeRules at (fdChannel inp) (scopedFeeRules inp))
        (feeWindowLosers at (fdChannel inp) (scopedFeeRules inp))"]
  by auto

lemma SelectFeeRules_checked:
  assumes "SelectFeeRules at inp = Inr sel"
  shows "feeConsidered inp r \<Longrightarrow> feeConsidered inp r' \<Longrightarrow> frID r = frID r' \<Longrightarrow> r = r'"
    and "feeEligible at inp r \<Longrightarrow> frCurrency r = fdCurrency inp"
  using SelectFeeRules_Inr(1) [OF assms]
  by (auto simp: checkFeeRules_None distinct_map inj_on_def feeConsidered_def feeEligible_def
      feeWindowReason_def split: if_splits)

text \<open>The outcome of one code.\<close>

definition feeCodeCorrect :: "time \<Rightarrow> FeeCandidates \<Rightarrow> FeeCodeSelection \<Rightarrow> bool" where
  "feeCodeCorrect at inp f \<longleftrightarrow>
     (case fcWinner f of
        None \<Rightarrow> \<forall>r. feeEligible at inp r \<longrightarrow> frFeeCode r \<noteq> fcFeeCode f
      | Some w \<Rightarrow> feeEligible at inp w \<and> frFeeCode w = fcFeeCode f \<and>
          frCurrency w = fdCurrency inp \<and>
          (\<forall>r. feeEligible at inp r \<and> frFeeCode r = fcFeeCode f \<and> r \<noteq> w \<longrightarrow> feeOutranks w r))"

lemma SelectFeeRules_code_correct:
  assumes sel: "SelectFeeRules at inp = Inr sel" and f: "f \<in> set (fsFees sel)"
  shows "feeCodeCorrect at inp f"
proof -
  let ?cs = "filter (\<lambda>r. frFeeCode r = fcFeeCode f)
      (eligibleFeeRules at (fdChannel inp) (scopedFeeRules inp))"
  have cs: "r \<in> set ?cs \<longleftrightarrow> feeEligible at inp r \<and> frFeeCode r = fcFeeCode f" for r
    by (simp add: set_eligibleFeeRules)
  have fw: "fcWinner f = (if ?cs = [] then None else selectWinner frForceAncestorOverride feeBeats ?cs)"
    using SelectFeeRules_codes(2) [OF sel f] by (simp add: Let_def)
  show ?thesis
  proof (cases "fcWinner f")
    case None
    then have "?cs = []"
      using fw selectWinner_Some [of ?cs frForceAncestorOverride feeBeats] by (cases "?cs = []") auto
    with None cs show ?thesis unfolding feeCodeCorrect_def by fastforce
  next
    case (Some w)
    then have win: "selectWinner frForceAncestorOverride feeBeats ?cs = Some w"
      using fw by (auto split: if_splits)
    have w: "w \<in> set ?cs" using win by (rule selectWinner_mem)
    have "feeOutranks w r" if r: "r \<in> set ?cs" "r \<noteq> w" for r
    proof -
      have "frID r \<noteq> frID w"
        using r w SelectFeeRules_checked(1) [OF sel, of r w] unfolding cs feeEligible_def by blast
      then show ?thesis
        using fee.winner_beats [OF win r(1)] fee.winner_forced [OF win] r(1)
        by (auto simp: feeOutranks_def fee.cmp_axes list_ex_iff)
    qed
    with w Some show ?thesis
      using SelectFeeRules_checked(2) [OF sel, of w]
      unfolding cs feeCodeCorrect_def by auto
  qed
qed

section \<open>A worked request\<close>

definition demoFee :: "uuid \<Rightarrow> string \<Rightarrow> string \<Rightarrow> int \<Rightarrow> string option \<Rightarrow> FeeRule" where
  "demoFee i code incidence amount ch =
     \<lparr>frID = i, frOrganizerID = 9, frScopeLevel = ScopeVenue, frScopeID = 4, frFeeCode = code,
      frBasis = BasisPerTicketFixed, frAmount = Some amount, frRateBps = None,
      frCurrency = ''EUR'', frIncidence = incidence, frChannelCode = ch, frPriority = 0,
      frForceAncestorOverride = False, frEffectiveFrom = None, frEffectiveUntil = None,
      frCreatedAt = 1\<rparr>"

definition demoFeeRequest :: FeeCandidates where
  "demoFeeRequest = \<lparr>fdCurrency = ''EUR'', fdScopes = demoSplitScopes, fdChannel = None,
     fdRules = [demoFee 32 ''svc'' IncidencePassedOn 150 None,
                demoFee 31 ''card'' IncidenceAbsorbed 20 None,
                demoFee 33 ''svc'' IncidencePassedOn 90 (Some ''pos'')]\<rparr>"

lemmas fee_eval = SelectFeeRules_def Let_def scopedFeeRules_def checkFeeRules_def
  eligibleFeeRules_def feeWindowLosers_def feeRankLosers_def feeWindowReason_def feeIsPast_def
  feeMatchesScope_def feeChannelEligible_def channelSpecificity_def feeBeats_def feeLossReason_def
  selectOneFeeCode_def selectWinner_def sortByID_eq sortedFeeLosers_def feeCodes_def Before_def
  less_char_def less_eq_char_def

lemmas demo_fee_defs = demoFeeRequest_def demoFee_def demoSplitScopes_def

lemma demo_fee_result:
  "\<exists>sel. SelectFeeRules 50 demoFeeRequest = Inr sel \<and> map fcFeeCode (fsFees sel) = [''card'', ''svc''] \<and>
     map fcWinner (fsFees sel) = [Some (demoFee 31 ''card'' IncidenceAbsorbed 20 None),
       Some (demoFee 32 ''svc'' IncidencePassedOn 150 None)]"
  by (simp add: fee_eval demo_fee_defs)

section \<open>Properties\<close>

text \<open>
  Fee resolution answers one selection per fee code, in strictly ascending order of
  code. The codes are exactly those of the rules considered (on the request's scopes
  and eligible in its channel), a code has no winner exactly when none of its rules is
  inside its window, and a winner outranks every other eligible rule of its code and is
  in the ticket type's currency.
\<close>

theorem fee_one_winner_per_code:
  assumes "SelectFeeRules at inp = Inr sel"
  shows "sorted (map fcFeeCode (fsFees sel)) \<and> distinct (map fcFeeCode (fsFees sel)) \<and>
    fcFeeCode ` set (fsFees sel) = frFeeCode ` {r. feeConsidered inp r} \<and>
    (\<forall>f \<in> set (fsFees sel). feeCodeCorrect at inp f)"
proof -
  note codes = SelectFeeRules_codes(1) [OF assms]
  have "fcFeeCode ` set (fsFees sel) = set (map fcFeeCode (fsFees sel))" by simp
  then have "fcFeeCode ` set (fsFees sel) = frFeeCode ` {r. feeConsidered inp r}"
    unfolding codes by (auto simp: set_feeCodes image_iff)
  then show ?thesis
    using codes feeCodes_sorted_distinct SelectFeeRules_code_correct [OF assms] by simp
qed

theorem fee_one_winner_per_code_witness:
  "\<exists>sel. SelectFeeRules 50 demoFeeRequest = Inr sel \<and> length (fsFees sel) = 2 \<and>
     (\<forall>f \<in> set (fsFees sel). feeCodeCorrect 50 demoFeeRequest f)"
proof -
  obtain sel where sel: "SelectFeeRules 50 demoFeeRequest = Inr sel"
    "map fcFeeCode (fsFees sel) = [''card'', ''svc'']"
    using demo_fee_result by (elim exE conjE)
  have "length (fsFees sel) = 2" using arg_cong [OF sel(2), of length] by simp
  then show ?thesis using sel(1) fee_one_winner_per_code [OF sel(1)] by blast
qed

text \<open>
  Fee resolution fails exactly when two channel-eligible rules share an identifier
  or a rule on the request's scopes that is not past, of whatever channel, is in
  another currency; unlike a price rule, a misconfigured fee rule of another channel
  does fail the resolution.
\<close>

theorem fee_resolution_fails_iff:
  "(\<exists>e. SelectFeeRules at inp = Inl e) =
     (\<not> distinct (map frID (filter (\<lambda>r. feeMatchesScope r (fdScopes inp) \<and>
          feeChannelEligible r (fdChannel inp)) (fdRules inp))) \<or>
      (\<exists>r \<in> set (fdRules inp). feeMatchesScope r (fdScopes inp) \<and> \<not> feeIsPast at r \<and>
         frCurrency r \<noteq> fdCurrency inp)) \<and>
   SelectFeeRules at inp \<noteq> Inl IndexPanic"
proof -
  have "(\<exists>e. SelectFeeRules at inp = Inl e) = (checkFeeRules at inp (scopedFeeRules inp) \<noteq> None)"
    by (auto simp: SelectFeeRules_Inl)
  moreover have "SelectFeeRules at inp \<noteq> Inl IndexPanic"
    by (auto simp: SelectFeeRules_Inl checkFeeRules_def split: option.splits)
  ultimately show ?thesis unfolding checkFeeRules_None by auto
qed

text \<open>
  The outcome of fee resolution, the error it names included, is a function of the
  set of candidate rules and not of the order the rows arrive in.
\<close>

theorem fee_order_independent:
  assumes "mset (fdRules inp) = mset rules"
  shows "SelectFeeRules at (inp\<lparr>fdRules := rules\<rparr>) = SelectFeeRules at inp"
proof -
  let ?s = "\<lambda>rs. filter (\<lambda>r. feeMatchesScope r (fdScopes inp)) rs"
  let ?e = "\<lambda>rs. filter (\<lambda>r. feeChannelEligible r (fdChannel inp)) rs"
  let ?inp = "inp\<lparr>fdRules := rules\<rparr>"
  have m: "mset (?s rules) = mset (?s (fdRules inp))" using assms by simp
  have me: "mset (?e (?s rules)) = mset (?e (?s (fdRules inp)))" using assms by simp
  have ids: "map frID (?e (scopedFeeRules ?inp)) = map frID (?e (scopedFeeRules inp))"
    using sort_map_perm [OF me, of frID]
    by (simp add: scopedFeeRules_def filter_sortByID map_sortByID)
  have bad: "map_option frID (find P (scopedFeeRules ?inp)) =
      map_option frID (find P (scopedFeeRules inp))" for P
    using find_sortByID_perm [OF m, of frID P] by (simp add: scopedFeeRules_def)
  have "checkFeeRules at ?inp (scopedFeeRules ?inp) = checkFeeRules at inp (scopedFeeRules inp)"
    using ids bad [of "\<lambda>r. \<not> feeIsPast at r \<and> frCurrency r \<noteq> fdCurrency inp"]
    by (auto simp: checkFeeRules_def split: option.splits)
  moreover have "?e (scopedFeeRules ?inp) = ?e (scopedFeeRules inp)"
    if "checkFeeRules at inp (scopedFeeRules inp) = None"
  proof -
    have "distinct (map frID (?e (?s (fdRules inp))))"
      using that by (simp add: checkFeeRules_None)
    then have "distinct (map frID (?e (?s rules)))" by (simp only: distinct_map_perm [OF me])
    then show ?thesis
      using me by (simp add: scopedFeeRules_def filter_sortByID sortByID_perm)
  qed
  ultimately show ?thesis
    by (cases "checkFeeRules at inp (scopedFeeRules inp)")
      (simp_all add: SelectFeeRules_def Let_def eligibleFeeRules_def feeWindowLosers_def
        cong: sum.case_cong del: filter_filter)
qed

theorem fee_order_independent_witness:
  "SelectFeeRules 50 (demoFeeRequest\<lparr>fdRules := rev (fdRules demoFeeRequest)\<rparr>) =
     SelectFeeRules 50 demoFeeRequest"
  by (rule fee_order_independent) simp

theorem fee_resolution_fails_iff_witness:
  "\<exists>e. SelectFeeRules 50 (demoFeeRequest\<lparr>fdRules := [demoFee 32 ''svc'' IncidencePassedOn 150 None,
     demoFee 32 ''card'' IncidenceAbsorbed 20 None]\<rparr>) = Inl e"
  using fee_resolution_fails_iff [of 50 "demoFeeRequest\<lparr>fdRules := [demoFee 32 ''svc'' IncidencePassedOn 150 None,
     demoFee 32 ''card'' IncidenceAbsorbed 20 None]\<rparr>"]
  by (simp add: demo_fee_defs feeMatchesScope_def feeChannelEligible_def)

end
