(* ===== verification/Catalog_Store.thy ===== *)
theory Catalog_Store
  imports Pricing Fees "HOL-Library.Product_Lexorder"
begin

text \<open>
  The half of the resolvers that needs a database: \<open>pricing_postgres.go\<close>,
  \<open>fees_postgres.go\<close>, \<open>splits_postgres.go\<close> and the currency sweep of
  \<open>rules_validation.go\<close>, over the tables the catalog migrations declare. A table is a
  list of rows; a statement is what its SQL text says of those rows. Identifiers and
  \<open>now()\<close> that the database generates are arguments.
\<close>

section \<open>Tables\<close>

record TicketTypeRow =
  ttID :: uuid
  ttOrganizerID :: uuid
  ttPerformanceID :: uuid
  ttPriceAmount :: int
  ttCurrency :: string

record PerformanceRow =
  pfID :: uuid
  pfOrganizerID :: uuid
  pfEventID :: uuid
  pfVenueID :: uuid

record SplitPartRow =
  ptScheduleID :: uuid
  ptPayeeID :: uuid
  ptOrganizerID :: uuid
  ptShareBps :: int

text \<open>\<open>dbSeriesPerformances\<close> holds (performance, series) pairs; a split header has no parts.\<close>

record CatalogDB =
  dbTicketTypes :: "TicketTypeRow list"
  dbPerformances :: "PerformanceRow list"
  dbSeries :: "(uuid \<times> uuid) list"
  dbEvents :: "(uuid \<times> uuid) list"
  dbVenues :: "(uuid \<times> uuid) list"
  dbSeriesPerformances :: "(uuid \<times> uuid) list"
  dbPriceRules :: "PriceRule list"
  dbFeeRules :: "FeeRule list"
  dbPayees :: "Payee list"
  dbSplitSchedules :: "SplitSchedule list"
  dbSplitParts :: "SplitPartRow list"

datatype db_error =
    StoreError store_error
  | CheckViolation
  | UniqueViolation
  | ForeignKeyViolation
  | TriggerException

text \<open>SQL \<open>length\<close> counts characters: the bytes of UTF-8 that do not continue one.\<close>

definition sqlLength :: "string \<Rightarrow> nat" where
  "sqlLength s = length (filter (\<lambda>c. \<not> (128 \<le> (of_char c :: nat) \<and> (of_char c :: nat) < 192)) s)"

definition currencyCheck :: "string \<Rightarrow> bool" where
  "currencyCheck c \<longleftrightarrow> length c = 3 \<and> list_all (\<lambda>ch. CHR ''A'' \<le> ch \<and> ch \<le> CHR ''Z'') c"

definition amountCheck :: "int \<Rightarrow> bool" where
  "amountCheck a \<longleftrightarrow> 0 \<le> a \<and> a \<le> 9007199254740991"

definition channelCheck :: "string option \<Rightarrow> bool" where
  "channelCheck ch = (case ch of None \<Rightarrow> True | Some c \<Rightarrow> 1 \<le> sqlLength c \<and> sqlLength c \<le> 100)"

definition windowCheck :: "time option \<Rightarrow> time option \<Rightarrow> bool" where
  "windowCheck f u = (case (f, u) of (Some a, Some b) \<Rightarrow> a < b | _ \<Rightarrow> True)"

text \<open>The CHECK constraints of \<open>price_rules\<close> (migrations 0012, 0013 and 0019).\<close>

definition priceRowCheck :: "PriceRule \<Rightarrow> bool" where
  "priceRowCheck r \<longleftrightarrow> knownLevel (prScopeLevel r) \<and> prActionKind r = ActionAbsolute \<and>
     amountCheck (prAmount r) \<and> currencyCheck (prCurrency r) \<and>
     windowCheck (prEffectiveFrom r) (prEffectiveUntil r) \<and> channelCheck (prChannelCode r)"

text \<open>The CHECK constraints of \<open>fee_rules\<close> (migration 0016).\<close>

definition feeRowCheck :: "FeeRule \<Rightarrow> bool" where
  "feeRowCheck r \<longleftrightarrow> knownLevel (frScopeLevel r) \<and>
     1 \<le> sqlLength (frFeeCode r) \<and> sqlLength (frFeeCode r) \<le> 64 \<and>
     (frBasis r = BasisPerTicketFixed \<or> frBasis r = BasisPerOrderFixed \<or>
      frBasis r = BasisPercentageBps) \<and>
     (case frAmount r of None \<Rightarrow> True | Some a \<Rightarrow> amountCheck a) \<and>
     (case frRateBps r of None \<Rightarrow> True | Some b \<Rightarrow> 0 \<le> b \<and> b \<le> 10000) \<and>
     currencyCheck (frCurrency r) \<and>
     (frIncidence r = IncidencePassedOn \<or> frIncidence r = IncidenceAbsorbed) \<and>
     channelCheck (frChannelCode r) \<and>
     ((frBasis r = BasisPerTicketFixed \<or> frBasis r = BasisPerOrderFixed) \<and>
        frAmount r \<noteq> None \<and> frRateBps r = None \<or>
      frBasis r = BasisPercentageBps \<and> frRateBps r \<noteq> None \<and> frAmount r = None) \<and>
     windowCheck (frEffectiveFrom r) (frEffectiveUntil r)"

text \<open>The CHECK constraints of \<open>split_schedules\<close> (migration 0017).\<close>

definition splitRowCheck :: "SplitSchedule \<Rightarrow> bool" where
  "splitRowCheck s \<longleftrightarrow> knownLevel (ssScopeLevel s) \<and>
     1 \<le> sqlLength (ssFeeCode s) \<and> sqlLength (ssFeeCode s) \<le> 64 \<and>
     channelCheck (ssChannelCode s) \<and> windowCheck (ssEffectiveFrom s) (ssEffectiveUntil s)"

section \<open>The write gate\<close>

text \<open>
  The \<open>UNION ALL\<close> under the three \<open>INSERT ... SELECT\<close> statements: the scope target
  exists in the table its level names and belongs to the organizer.
\<close>

definition writeGate :: "CatalogDB \<Rightarrow> ScopeLevel \<Rightarrow> uuid \<Rightarrow> uuid \<Rightarrow> bool" where
  "writeGate db lvl sid org =
     (case lvl of
        ScopeTicketType \<Rightarrow> list_ex (\<lambda>t. ttID t = sid \<and> ttOrganizerID t = org) (dbTicketTypes db)
      | ScopeSlot \<Rightarrow> list_ex (\<lambda>p. pfID p = sid \<and> pfOrganizerID p = org) (dbPerformances db)
      | ScopeSeries \<Rightarrow> list_ex (\<lambda>(i, o'). i = sid \<and> o' = org) (dbSeries db)
      | ScopeEvent \<Rightarrow> list_ex (\<lambda>(i, o'). i = sid \<and> o' = org) (dbEvents db)
      | ScopeVenue \<Rightarrow> list_ex (\<lambda>(i, o'). i = sid \<and> o' = org) (dbVenues db)
      | ScopeOther _ \<Rightarrow> False)"

record PriceRuleInput =
  piOrganizerID :: uuid
  piScopeLevel :: ScopeLevel
  piScopeID :: uuid
  piAmount :: int
  piCurrency :: string
  piPriority :: int
  piForceAncestorOverride :: bool
  piEffectiveFrom :: "time option"
  piEffectiveUntil :: "time option"
  piChannelCode :: "string option"

definition CreatePriceRule ::
  "CatalogDB \<Rightarrow> uuid \<Rightarrow> time \<Rightarrow> PriceRuleInput \<Rightarrow> db_error + (PriceRule \<times> CatalogDB)" where
  "CreatePriceRule db newID now inp =
     (if \<not> writeGate db (piScopeLevel inp) (piScopeID inp) (piOrganizerID inp)
      then Inl (StoreError ErrNotFound)
      else
        (let r = \<lparr>prID = newID, prOrganizerID = piOrganizerID inp,
                  prScopeLevel = piScopeLevel inp, prScopeID = piScopeID inp,
                  prActionKind = ActionAbsolute, prAmount = piAmount inp,
                  prCurrency = piCurrency inp, prPriority = piPriority inp,
                  prForceAncestorOverride = piForceAncestorOverride inp,
                  prEffectiveFrom = piEffectiveFrom inp, prEffectiveUntil = piEffectiveUntil inp,
                  prChannelCode = piChannelCode inp, prCreatedAt = now\<rparr>
         in if \<not> priceRowCheck r then Inl CheckViolation
            else if newID \<in> set (map prID (dbPriceRules db)) then Inl UniqueViolation
            else Inr (r, db\<lparr>dbPriceRules := dbPriceRules db @ [r]\<rparr>)))"

record FeeRuleInput =
  fiOrganizerID :: uuid
  fiScopeLevel :: ScopeLevel
  fiScopeID :: uuid
  fiFeeCode :: string
  fiBasis :: string
  fiAmount :: "int option"
  fiRateBps :: "int option"
  fiCurrency :: string
  fiIncidence :: string
  fiChannelCode :: "string option"
  fiPriority :: int
  fiForceAncestorOverride :: bool
  fiEffectiveFrom :: "time option"
  fiEffectiveUntil :: "time option"

definition CreateFeeRule ::
  "CatalogDB \<Rightarrow> uuid \<Rightarrow> time \<Rightarrow> FeeRuleInput \<Rightarrow> db_error + (FeeRule \<times> CatalogDB)" where
  "CreateFeeRule db newID now inp =
     (if \<not> writeGate db (fiScopeLevel inp) (fiScopeID inp) (fiOrganizerID inp)
      then Inl (StoreError ErrNotFound)
      else
        (let r = \<lparr>frID = newID, frOrganizerID = fiOrganizerID inp,
                  frScopeLevel = fiScopeLevel inp, frScopeID = fiScopeID inp,
                  frFeeCode = fiFeeCode inp, frBasis = fiBasis inp, frAmount = fiAmount inp,
                  frRateBps = fiRateBps inp, frCurrency = fiCurrency inp,
                  frIncidence = fiIncidence inp, frChannelCode = fiChannelCode inp,
                  frPriority = fiPriority inp,
                  frForceAncestorOverride = fiForceAncestorOverride inp,
                  frEffectiveFrom = fiEffectiveFrom inp, frEffectiveUntil = fiEffectiveUntil inp,
                  frCreatedAt = now\<rparr>
         in if \<not> feeRowCheck r then Inl CheckViolation
            else if newID \<in> set (map frID (dbFeeRules db)) then Inl UniqueViolation
            else Inr (r, db\<lparr>dbFeeRules := dbFeeRules db @ [r]\<rparr>)))"

section \<open>Payees and split schedules\<close>

definition CreatePayee :: "CatalogDB \<Rightarrow> string list \<Rightarrow> uuid \<Rightarrow> Payee \<Rightarrow> db_error + (Payee \<times> CatalogDB)" where
  "CreatePayee db kinds newID inp =
     (let p = inp\<lparr>pyID := newID\<rparr> in
      if \<not> (1 \<le> sqlLength (pyDisplayName p) \<and> sqlLength (pyDisplayName p) \<le> 200 \<and>
            (case pyExternalReference p of None \<Rightarrow> True
             | Some x \<Rightarrow> 1 \<le> sqlLength x \<and> sqlLength x \<le> 200)) then Inl CheckViolation
      else if newID \<in> set (map pyID (dbPayees db)) then Inl UniqueViolation
      else if pyKind p \<notin> set kinds then Inl ForeignKeyViolation
      else Inr (p, db\<lparr>dbPayees := dbPayees db @ [p]\<rparr>))"

text \<open>The deferred constraint triggers, as they judge one schedule at commit.\<close>

definition splitBalanced :: "CatalogDB \<Rightarrow> uuid \<Rightarrow> bool" where
  "splitBalanced db sid =
     (let parts = filter (\<lambda>p. ptScheduleID p = sid) (dbSplitParts db)
      in parts \<noteq> [] \<and> sum_list (map ptShareBps parts) = 10000)"

text \<open>The loop over \<open>in.Parts\<close>: one INSERT per part, stopping at the first that fails.\<close>

fun insertParts :: "CatalogDB \<Rightarrow> uuid \<Rightarrow> uuid \<Rightarrow> SplitPart list \<Rightarrow> db_error + CatalogDB" where
  "insertParts db sid org [] = Inr db"
| "insertParts db sid org (part # parts) =
     (let pid = pyID (spPayee part); share = spShareBps part in
      if \<not> (0 \<le> share \<and> share \<le> 10000) then Inl CheckViolation
      else if list_ex (\<lambda>p. ptScheduleID p = sid \<and> ptPayeeID p = pid) (dbSplitParts db)
        then Inl UniqueViolation
      else if \<not> list_ex (\<lambda>p. pyID p = pid \<and> pyOrganizerID p = org) (dbPayees db)
        then Inl ForeignKeyViolation
      else insertParts (db\<lparr>dbSplitParts := dbSplitParts db @
             [\<lparr>ptScheduleID = sid, ptPayeeID = pid, ptOrganizerID = org, ptShareBps = share\<rparr>]\<rparr>)
             sid org parts)"

text \<open>
  One transaction: header, parts, and the balance trigger at commit. A failure rolls
  the whole of it back, so the caller keeps the database it had.
\<close>

definition CreateSplitSchedule ::
  "CatalogDB \<Rightarrow> uuid \<Rightarrow> SplitSchedule \<Rightarrow> db_error + (uuid \<times> CatalogDB)" where
  "CreateSplitSchedule db newID inp =
     (if \<not> writeGate db (ssScopeLevel inp) (ssScopeID inp) (ssOrganizerID inp)
      then Inl (StoreError ErrNotFound)
      else
        (let header = inp\<lparr>ssID := newID, ssParts := []\<rparr> in
         if \<not> splitRowCheck header then Inl CheckViolation
         else if newID \<in> set (map ssID (dbSplitSchedules db)) then Inl UniqueViolation
         else case insertParts (db\<lparr>dbSplitSchedules := dbSplitSchedules db @ [header]\<rparr>)
                     newID (ssOrganizerID inp) (ssParts inp) of
                Inl e \<Rightarrow> Inl e
              | Inr db' \<Rightarrow> if splitBalanced db' newID then Inr (newID, db')
                          else Inl TriggerException))"

end
