(* ===== verification/Catalog_Resolve.thy ===== *)
theory Catalog_Resolve
  imports Catalog_Store
begin

text \<open>
  The reads over the catalog tables: the scope derivation, the three candidate
  queries, the two resolutions that run in one snapshot, and the operator's currency
  sweep. A read-only repeatable-read transaction is a function of one \<open>CatalogDB\<close>.
\<close>

section \<open>Scopes and candidates\<close>

definition seriesOf :: "CatalogDB \<Rightarrow> uuid \<Rightarrow> uuid option" where
  "seriesOf db perf = map_of (dbSeriesPerformances db) perf"

definition performanceOf :: "CatalogDB \<Rightarrow> TicketTypeRow \<Rightarrow> PerformanceRow option" where
  "performanceOf db t =
     find (\<lambda>p. pfID p = ttPerformanceID t \<and> pfOrganizerID p = ttOrganizerID t) (dbPerformances db)"

definition scopesOf :: "CatalogDB \<Rightarrow> TicketTypeRow \<Rightarrow> PerformanceRow \<Rightarrow> PricingScopes" where
  "scopesOf db t p = \<lparr>TicketTypeID = ttID t, SlotID = pfID p, SeriesID = seriesOf db (pfID p),
                     EventID = pfEventID p, VenueID = pfVenueID p\<rparr>"

text \<open>\<open>pricingScopesQuery\<close>: organizer, base price and the five scope identities.\<close>

definition pricingScopesQuery ::
  "CatalogDB \<Rightarrow> uuid \<Rightarrow> (uuid \<times> Money \<times> PricingScopes) option" where
  "pricingScopesQuery db ticketTypeID =
     (case find (\<lambda>t. ttID t = ticketTypeID) (dbTicketTypes db) of
        None \<Rightarrow> None
      | Some t \<Rightarrow> (case performanceOf db t of
          None \<Rightarrow> None
        | Some p \<Rightarrow> Some (ttOrganizerID t,
            \<lparr>Amount = ttPriceAmount t, Currency = ttCurrency t\<rparr>, scopesOf db t p)))"

text \<open>
  The predicate \<open>(scope_level, scope_id) IN (...)\<close>: the pair, never the id alone. The
  pair with a NULL series is unknown and matches nothing.
\<close>

definition scopePair :: "ScopeLevel \<Rightarrow> uuid \<Rightarrow> PricingScopes \<Rightarrow> bool" where
  "scopePair lvl sid s \<longleftrightarrow>
     (lvl, Some sid) \<in> set [(ScopeTicketType, Some (TicketTypeID s)), (ScopeSlot, Some (SlotID s)),
       (ScopeSeries, SeriesID s), (ScopeEvent, Some (EventID s)), (ScopeVenue, Some (VenueID s))]"

definition priceRuleCandidatesQuery ::
  "CatalogDB \<Rightarrow> uuid \<Rightarrow> PricingScopes \<Rightarrow> PriceRule list" where
  "priceRuleCandidatesQuery db org s =
     sort_key prID (filter (\<lambda>r. prOrganizerID r = org \<and> scopePair (prScopeLevel r) (prScopeID r) s)
       (dbPriceRules db))"

definition feeRuleCandidatesQuery :: "CatalogDB \<Rightarrow> uuid \<Rightarrow> PricingScopes \<Rightarrow> FeeRule list" where
  "feeRuleCandidatesQuery db org s =
     sort_key frID (filter (\<lambda>r. frOrganizerID r = org \<and> scopePair (frScopeLevel r) (frScopeID r) s)
       (dbFeeRules db))"

text \<open>The joined rows of the split query, ordered by schedule and then payee.\<close>

definition splitScheduleCandidatesQuery ::
  "CatalogDB \<Rightarrow> uuid \<Rightarrow> PricingScopes \<Rightarrow> (SplitSchedule \<times> SplitPart) list" where
  "splitScheduleCandidatesQuery db org sc =
     concat (map (\<lambda>s. concat (map (\<lambda>p.
         map (\<lambda>y. (s, \<lparr>spPayee = y, spShareBps = ptShareBps p\<rparr>))
           (filter (\<lambda>y. pyID y = ptPayeeID p \<and> pyOrganizerID y = ssOrganizerID s) (dbPayees db)))
         (sort_key ptPayeeID (filter (\<lambda>p. ptScheduleID p = ssID s) (dbSplitParts db)))))
       (sort_key ssID (filter (\<lambda>s. ssOrganizerID s = org \<and>
          scopePair (ssScopeLevel s) (ssScopeID s) sc) (dbSplitSchedules db))))"

text \<open>
  The loop of \<open>loadSplitSchedules\<close>: a row of a schedule already seen appends its part,
  a row of a new one opens it at the end of \<open>order\<close>.
\<close>

definition addSplitRow :: "uuid \<Rightarrow> SplitSchedule list \<Rightarrow> SplitSchedule \<times> SplitPart \<Rightarrow> SplitSchedule list" where
  "addSplitRow org acc row =
     (let s = fst row;
          part = (snd row)\<lparr>spPayee := (spPayee (snd row))\<lparr>pyOrganizerID := org\<rparr>\<rparr>
      in if list_ex (\<lambda>x. ssID x = ssID s) acc
         then map (\<lambda>x. if ssID x = ssID s then x\<lparr>ssParts := ssParts x @ [part]\<rparr> else x) acc
         else acc @ [s\<lparr>ssParts := [part]\<rparr>])"

definition loadSplitSchedules :: "CatalogDB \<Rightarrow> uuid \<Rightarrow> PricingScopes \<Rightarrow> SplitSchedule list" where
  "loadSplitSchedules db org sc =
     foldl (addSplitRow org) [] (splitScheduleCandidatesQuery db org sc)"

section \<open>The two resolutions\<close>

definition ResolveTicketTypePrice ::
  "CatalogDB \<Rightarrow> uuid \<Rightarrow> string option \<Rightarrow> time \<Rightarrow> store_error + RuleSelection" where
  "ResolveTicketTypePrice db ticketTypeID channel at =
     (case pricingScopesQuery db ticketTypeID of
        None \<Rightarrow> Inl ErrNotFound
      | Some (org, base, scopes) \<Rightarrow>
          (case SelectPricingRule at \<lparr>pcBasePrice = base, pcScopes = scopes,
                  pcRules = priceRuleCandidatesQuery db org scopes, pcChannel = channel\<rparr> of
             Inl e \<Rightarrow> Inl e
           | Inr sel \<Rightarrow> Inr (sel\<lparr>rsOrganizerID := org\<rparr>)))"

fun resolveSplits ::
  "time \<Rightarrow> string option \<Rightarrow> PricingScopes \<Rightarrow> SplitSchedule list \<Rightarrow> FeeCodeSelection list \<Rightarrow>
   store_error + FeeCodeSelection list" where
  "resolveSplits at channel scopes schedules [] = Inr []"
| "resolveSplits at channel scopes schedules (f # fs) =
     (case SelectSplitSchedule at (fcFeeCode f) channel scopes schedules of
        Inl e \<Rightarrow> Inl e
      | Inr sp \<Rightarrow> (case resolveSplits at channel scopes schedules fs of
          Inl e \<Rightarrow> Inl e
        | Inr fs' \<Rightarrow> Inr (f\<lparr>fcSplit := sp\<rparr> # fs')))"

definition ResolveTicketTypeFees ::
  "CatalogDB \<Rightarrow> uuid \<Rightarrow> string option \<Rightarrow> time \<Rightarrow> store_error + FeeSelection" where
  "ResolveTicketTypeFees db ticketTypeID channel at =
     (case pricingScopesQuery db ticketTypeID of
        None \<Rightarrow> Inl ErrNotFound
      | Some (org, base, scopes) \<Rightarrow>
          (case SelectFeeRules at \<lparr>fdCurrency = Currency base, fdScopes = scopes,
                  fdChannel = channel, fdRules = feeRuleCandidatesQuery db org scopes\<rparr> of
             Inl e \<Rightarrow> Inl e
           | Inr sel \<Rightarrow>
               (case resolveSplits at channel scopes (loadSplitSchedules db org scopes) (fsFees sel) of
                  Inl e \<Rightarrow> Inl e
                | Inr fees \<Rightarrow> Inr (sel\<lparr>fsFees := fees, fsOrganizerID := org\<rparr>))))"

section \<open>The currency sweep (rules_validation.go)\<close>

datatype RuleKind = RuleKindPrice | RuleKindFee

record RuleCurrencyMismatch =
  cmKind :: RuleKind
  cmRuleID :: uuid
  cmOrganizerID :: uuid
  cmTicketTypeID :: uuid
  cmScopeLevel :: ScopeLevel
  cmScopeID :: uuid
  cmFeeCode :: string
  cmRuleCurrency :: string
  cmTicketTypeCurrency :: string
  cmChannelCode :: "string option"
  cmEffectiveFrom :: "time option"
  cmEffectiveUntil :: "time option"

text \<open>\<open>effective_until IS NULL OR effective_until > now()\<close>.\<close>

definition sweepLive :: "time \<Rightarrow> time option \<Rightarrow> bool" where
  "sweepLive now u = (case u of None \<Rightarrow> True | Some t \<Rightarrow> t > now)"

definition sweepPriceRules :: "CatalogDB \<Rightarrow> time \<Rightarrow> RuleCurrencyMismatch list" where
  "sweepPriceRules db now =
     sort_key (\<lambda>m. (cmOrganizerID m, cmTicketTypeID m, cmRuleID m))
       (concat (map (\<lambda>t. case performanceOf db t of
           None \<Rightarrow> []
         | Some p \<Rightarrow>
             map (\<lambda>r. \<lparr>cmKind = RuleKindPrice, cmRuleID = prID r, cmOrganizerID = prOrganizerID r,
                       cmTicketTypeID = ttID t, cmScopeLevel = prScopeLevel r,
                       cmScopeID = prScopeID r, cmFeeCode = [], cmRuleCurrency = prCurrency r,
                       cmTicketTypeCurrency = ttCurrency t, cmChannelCode = prChannelCode r,
                       cmEffectiveFrom = prEffectiveFrom r, cmEffectiveUntil = prEffectiveUntil r\<rparr>)
               (filter (\<lambda>r. prOrganizerID r = ttOrganizerID t \<and>
                    scopePair (prScopeLevel r) (prScopeID r) (scopesOf db t p) \<and>
                    prCurrency r \<noteq> ttCurrency t \<and> sweepLive now (prEffectiveUntil r))
                  (dbPriceRules db)))
         (dbTicketTypes db)))"

definition sweepFeeRules :: "CatalogDB \<Rightarrow> time \<Rightarrow> RuleCurrencyMismatch list" where
  "sweepFeeRules db now =
     sort_key (\<lambda>m. (cmOrganizerID m, cmTicketTypeID m, cmRuleID m))
       (concat (map (\<lambda>t. case performanceOf db t of
           None \<Rightarrow> []
         | Some p \<Rightarrow>
             map (\<lambda>r. \<lparr>cmKind = RuleKindFee, cmRuleID = frID r, cmOrganizerID = frOrganizerID r,
                       cmTicketTypeID = ttID t, cmScopeLevel = frScopeLevel r,
                       cmScopeID = frScopeID r, cmFeeCode = frFeeCode r,
                       cmRuleCurrency = frCurrency r,
                       cmTicketTypeCurrency = ttCurrency t, cmChannelCode = frChannelCode r,
                       cmEffectiveFrom = frEffectiveFrom r, cmEffectiveUntil = frEffectiveUntil r\<rparr>)
               (filter (\<lambda>r. frOrganizerID r = ttOrganizerID t \<and>
                    scopePair (frScopeLevel r) (frScopeID r) (scopesOf db t p) \<and>
                    frCurrency r \<noteq> ttCurrency t \<and> sweepLive now (frEffectiveUntil r))
                  (dbFeeRules db)))
         (dbTicketTypes db)))"

definition ListRuleCurrencyMismatches :: "CatalogDB \<Rightarrow> time \<Rightarrow> RuleCurrencyMismatch list" where
  "ListRuleCurrencyMismatches db now = sweepPriceRules db now @ sweepFeeRules db now"

section \<open>The tables' keys and the rows the writes leave behind\<close>

text \<open>Primary keys are distinct, and every rule row passed its CHECKs and its gate.\<close>

definition catalogKeys :: "CatalogDB \<Rightarrow> bool" where
  "catalogKeys db \<longleftrightarrow> distinct (map ttID (dbTicketTypes db)) \<and> distinct (map prID (dbPriceRules db)) \<and>
     distinct (map frID (dbFeeRules db)) \<and> distinct (map ssID (dbSplitSchedules db)) \<and>
     distinct (map pyID (dbPayees db)) \<and>
     distinct (map (\<lambda>p. (ptScheduleID p, ptPayeeID p)) (dbSplitParts db))"

text \<open>A part names a schedule and a payee of its own organizer (the composite keys).\<close>

definition partRowOk :: "CatalogDB \<Rightarrow> SplitPartRow \<Rightarrow> bool" where
  "partRowOk db p \<longleftrightarrow> 0 \<le> ptShareBps p \<and> ptShareBps p \<le> 10000 \<and>
     (\<exists>s \<in> set (dbSplitSchedules db). ssID s = ptScheduleID p \<and> ssOrganizerID s = ptOrganizerID p) \<and>
     (\<exists>y \<in> set (dbPayees db). pyID y = ptPayeeID p \<and> pyOrganizerID y = ptOrganizerID p)"

definition priceRulesInv :: "CatalogDB \<Rightarrow> bool" where
  "priceRulesInv db \<longleftrightarrow> (\<forall>r \<in> set (dbPriceRules db). priceRowCheck r \<and>
     writeGate db (prScopeLevel r) (prScopeID r) (prOrganizerID r))"

definition feeRulesInv :: "CatalogDB \<Rightarrow> bool" where
  "feeRulesInv db \<longleftrightarrow> (\<forall>r \<in> set (dbFeeRules db). feeRowCheck r \<and>
     writeGate db (frScopeLevel r) (frScopeID r) (frOrganizerID r))"

definition splitSchedulesInv :: "CatalogDB \<Rightarrow> bool" where
  "splitSchedulesInv db \<longleftrightarrow>
     (\<forall>s \<in> set (dbSplitSchedules db). splitRowCheck s \<and> splitBalanced db (ssID s) \<and>
        writeGate db (ssScopeLevel s) (ssScopeID s) (ssOrganizerID s)) \<and>
     (\<forall>p \<in> set (dbSplitParts db). partRowOk db p)"

definition catalogInv :: "CatalogDB \<Rightarrow> bool" where
  "catalogInv db \<longleftrightarrow>
     catalogKeys db \<and> priceRulesInv db \<and> feeRulesInv db \<and> splitSchedulesInv db"

lemmas catalogInv_defs = catalogInv_def catalogKeys_def priceRulesInv_def feeRulesInv_def
  splitSchedulesInv_def

section \<open>Frame lemmas\<close>

lemma writeGate_frame [simp]:
  "writeGate (db\<lparr>dbPriceRules := x\<rparr>) = writeGate db"
  "writeGate (db\<lparr>dbFeeRules := y\<rparr>) = writeGate db"
  "writeGate (db\<lparr>dbPayees := z\<rparr>) = writeGate db"
  "writeGate (db\<lparr>dbSplitSchedules := u\<rparr>) = writeGate db"
  "writeGate (db\<lparr>dbSplitParts := v\<rparr>) = writeGate db"
  by (auto simp: writeGate_def fun_eq_iff split: ScopeLevel.split)

lemma splitBalanced_frame [simp]:
  "splitBalanced (db\<lparr>dbPriceRules := x\<rparr>) = splitBalanced db"
  "splitBalanced (db\<lparr>dbFeeRules := y\<rparr>) = splitBalanced db"
  "splitBalanced (db\<lparr>dbPayees := z\<rparr>) = splitBalanced db"
  "splitBalanced (db\<lparr>dbSplitSchedules := u\<rparr>) = splitBalanced db"
  by (simp_all add: splitBalanced_def fun_eq_iff)

lemma partRowOk_frame [simp]:
  "partRowOk (db\<lparr>dbPriceRules := x\<rparr>) = partRowOk db"
  "partRowOk (db\<lparr>dbFeeRules := y\<rparr>) = partRowOk db"
  "partRowOk (db\<lparr>dbSplitParts := z\<rparr>) = partRowOk db"
  by (simp_all add: partRowOk_def fun_eq_iff)

lemma partRowOk_mono:
  "partRowOk db p \<Longrightarrow> partRowOk (db\<lparr>dbPayees := dbPayees db @ ys\<rparr>) p"
  "partRowOk db p \<Longrightarrow> partRowOk (db\<lparr>dbSplitSchedules := dbSplitSchedules db @ ss\<rparr>) p"
  by (auto simp: partRowOk_def)

text \<open>Parts of another schedule do not change a balance.\<close>

lemma splitBalanced_other:
  assumes "\<forall>p \<in> set ps. ptScheduleID p \<noteq> sid"
  shows "splitBalanced (db\<lparr>dbSplitParts := dbSplitParts db @ ps\<rparr>) sid = splitBalanced db sid"
proof -
  have "filter (\<lambda>p. ptScheduleID p = sid) ps = []" using assms by (simp add: filter_empty_conv)
  then show ?thesis by (simp add: splitBalanced_def)
qed

section \<open>The writes keep the invariant\<close>

lemma CreatePriceRule_inv:
  assumes "catalogInv db" and "CreatePriceRule db newID now inp = Inr (r, db')"
  shows "catalogInv db'"
  using assms by (auto simp: CreatePriceRule_def Let_def catalogInv_defs split: if_splits)

lemma CreateFeeRule_inv:
  assumes "catalogInv db" and "CreateFeeRule db newID now inp = Inr (r, db')"
  shows "catalogInv db'"
  using assms by (auto simp: CreateFeeRule_def Let_def catalogInv_defs split: if_splits)

lemma CreatePayee_inv:
  assumes "catalogInv db" and "CreatePayee db kinds newID inp = Inr (y, db')"
  shows "catalogInv db'"
  using assms
  by (auto simp: CreatePayee_def Let_def catalogInv_defs intro: partRowOk_mono split: if_splits)

lemma insertParts_Inr:
  assumes "insertParts db sid org parts = Inr db'"
    and "distinct (map (\<lambda>p. (ptScheduleID p, ptPayeeID p)) (dbSplitParts db))"
  shows "\<exists>new. db' = db\<lparr>dbSplitParts := dbSplitParts db @ new\<rparr> \<and>
    distinct (map (\<lambda>p. (ptScheduleID p, ptPayeeID p)) (dbSplitParts db @ new)) \<and>
    (\<forall>p \<in> set new. ptScheduleID p = sid \<and> ptOrganizerID p = org \<and>
       0 \<le> ptShareBps p \<and> ptShareBps p \<le> 10000 \<and>
       (\<exists>y \<in> set (dbPayees db). pyID y = ptPayeeID p \<and> pyOrganizerID y = org))"
  using assms
proof (induction parts arbitrary: db)
  case Nil
  then show ?case by (auto intro!: exI [of _ "[]"])
next
  case (Cons part parts)
  let ?row = "\<lparr>ptScheduleID = sid, ptPayeeID = pyID (spPayee part), ptOrganizerID = org,
      ptShareBps = spShareBps part\<rparr>"
  let ?db = "db\<lparr>dbSplitParts := dbSplitParts db @ [?row]\<rparr>"
  from Cons.prems have step: "insertParts ?db sid org parts = Inr db'"
    and row: "0 \<le> spShareBps part" "spShareBps part \<le> 10000"
      "\<exists>y \<in> set (dbPayees db). pyID y = pyID (spPayee part) \<and> pyOrganizerID y = org"
      "\<forall>p \<in> set (dbSplitParts db). \<not> (ptScheduleID p = sid \<and> ptPayeeID p = pyID (spPayee part))"
    by (auto simp: Let_def list_ex_iff split: if_splits)
  then have "distinct (map (\<lambda>p. (ptScheduleID p, ptPayeeID p)) (dbSplitParts ?db))"
    using Cons.prems(2) by auto
  from Cons.IH [OF step this] obtain new where
    "db' = ?db\<lparr>dbSplitParts := dbSplitParts ?db @ new\<rparr>"
    "distinct (map (\<lambda>p. (ptScheduleID p, ptPayeeID p)) (dbSplitParts ?db @ new))"
    "\<forall>p \<in> set new. ptScheduleID p = sid \<and> ptOrganizerID p = org \<and>
       0 \<le> ptShareBps p \<and> ptShareBps p \<le> 10000 \<and>
       (\<exists>y \<in> set (dbPayees db). pyID y = ptPayeeID p \<and> pyOrganizerID y = org)"
    by auto
  with row show ?case by (intro exI [of _ "?row # new"]) auto
qed

lemma CreateSplitSchedule_inv:
  assumes inv: "catalogInv db" and create: "CreateSplitSchedule db newID inp = Inr (i, db')"
  shows "catalogInv db'"
proof -
  let ?h = "inp\<lparr>ssID := newID, ssParts := []\<rparr>"
  let ?db = "db\<lparr>dbSplitSchedules := dbSplitSchedules db @ [?h]\<rparr>"
  from create have gate: "writeGate db (ssScopeLevel inp) (ssScopeID inp) (ssOrganizerID inp)"
    and check: "splitRowCheck ?h" and fresh: "newID \<notin> set (map ssID (dbSplitSchedules db))"
    and ins: "insertParts ?db newID (ssOrganizerID inp) (ssParts inp) = Inr db'"
    and bal: "splitBalanced db' newID"
    by (auto simp: CreateSplitSchedule_def Let_def split: if_splits sum.splits)
  have "distinct (map (\<lambda>p. (ptScheduleID p, ptPayeeID p)) (dbSplitParts ?db))"
    using inv by (simp add: catalogInv_defs)
  from insertParts_Inr [OF ins this] obtain new where
    db': "db' = ?db\<lparr>dbSplitParts := dbSplitParts ?db @ new\<rparr>"
    and dist: "distinct (map (\<lambda>p. (ptScheduleID p, ptPayeeID p)) (dbSplitParts db @ new))"
    and new: "\<forall>p \<in> set new. ptScheduleID p = newID \<and> ptOrganizerID p = ssOrganizerID inp \<and>
       0 \<le> ptShareBps p \<and> ptShareBps p \<le> 10000 \<and>
       (\<exists>y \<in> set (dbPayees db). pyID y = ptPayeeID p \<and> pyOrganizerID y = ssOrganizerID inp)"
    by auto
  have old: "splitBalanced db' (ssID s)" if "s \<in> set (dbSplitSchedules db)" for s
  proof -
    have "newID \<noteq> ssID s" using fresh that by auto
    then have "splitBalanced db' (ssID s) = splitBalanced ?db (ssID s)"
      unfolding db' using new by (intro splitBalanced_other) auto
    then show ?thesis using inv that by (simp add: catalogInv_defs)
  qed
  have parts: "partRowOk db' p" if "p \<in> set (dbSplitParts db @ new)" for p
    using that inv new unfolding db'
    by (auto simp: catalogInv_defs partRowOk_def)
  have "splitSchedulesInv db'"
    using inv old bal gate check parts unfolding splitSchedulesInv_def
    by (auto simp: db' catalogInv_defs splitRowCheck_def)
  then show ?thesis
    using inv dist fresh unfolding catalogInv_defs by (auto simp: db')
qed

section \<open>What loadSplitSchedules returns\<close>

definition loadedParts :: "CatalogDB \<Rightarrow> uuid \<Rightarrow> SplitSchedule \<Rightarrow> SplitPart list" where
  "loadedParts db org s =
     map (\<lambda>part. part\<lparr>spPayee := (spPayee part)\<lparr>pyOrganizerID := org\<rparr>\<rparr>)
       (concat (map (\<lambda>p. map (\<lambda>y. \<lparr>spPayee = y, spShareBps = ptShareBps p\<rparr>)
           (filter (\<lambda>y. pyID y = ptPayeeID p \<and> pyOrganizerID y = ssOrganizerID s) (dbPayees db)))
         (sort_key ptPayeeID (filter (\<lambda>p. ptScheduleID p = ssID s) (dbSplitParts db)))))"

lemma foldl_addSplitRow_same:
  assumes "\<forall>x \<in> set acc. ssID x \<noteq> ssID s" and "ssID h = ssID s"
  shows "foldl (addSplitRow org) (acc @ [h]) (map (Pair s) ps) =
    acc @ [h\<lparr>ssParts := ssParts h @
      map (\<lambda>part. part\<lparr>spPayee := (spPayee part)\<lparr>pyOrganizerID := org\<rparr>\<rparr>) ps\<rparr>]"
  using assms(2)
proof (induction ps arbitrary: h)
  case (Cons p ps)
  have same: "map (\<lambda>x. if ssID x = ssID s then f x else x) acc = acc" for f
    using assms(1) by (induction acc) auto
  from Cons show ?case by (simp add: addSplitRow_def Let_def list_ex_iff same)
qed simp

lemma foldl_addSplitRow_group:
  assumes "\<forall>x \<in> set acc. ssID x \<noteq> ssID s"
  shows "foldl (addSplitRow org) acc (map (Pair s) ps) =
    acc @ (if ps = [] then [] else [s\<lparr>ssParts :=
      map (\<lambda>part. part\<lparr>spPayee := (spPayee part)\<lparr>pyOrganizerID := org\<rparr>\<rparr>) ps\<rparr>])"
proof (cases ps)
  case (Cons p ps')
  have "\<not> list_ex (\<lambda>x. ssID x = ssID s) acc" using assms by (simp add: list_ex_iff)
  with Cons show ?thesis
    using foldl_addSplitRow_same [OF assms, of "s\<lparr>ssParts := [(p\<lparr>spPayee := (spPayee p)\<lparr>pyOrganizerID := org\<rparr>\<rparr>)]\<rparr>"]
    by (simp add: addSplitRow_def Let_def)
qed simp

lemma foldl_addSplitRow_all:
  assumes "distinct (map ssID acc @ map ssID ss)"
  shows "foldl (addSplitRow org) acc (concat (map (\<lambda>s. map (Pair s) (ps s)) ss)) =
    acc @ map (\<lambda>s. s\<lparr>ssParts :=
        map (\<lambda>part. part\<lparr>spPayee := (spPayee part)\<lparr>pyOrganizerID := org\<rparr>\<rparr>) (ps s)\<rparr>)
      (filter (\<lambda>s. ps s \<noteq> []) ss)"
  using assms
proof (induction ss arbitrary: acc)
  case (Cons s ss)
  have "\<forall>x \<in> set acc. ssID x \<noteq> ssID s" using Cons.prems by (simp add: image_iff) metis
  then show ?case
    using Cons.IH [of "foldl (addSplitRow org) acc (map (Pair s) (ps s))"] Cons.prems
    by (auto simp: foldl_addSplitRow_group)
qed simp

text \<open>
  The reassembled schedules: every candidate header with its joined parts, in
  identifier order; one header without a joined part is absent.
\<close>

lemma loadSplitSchedules_eq:
  assumes "distinct (map ssID (dbSplitSchedules db))"
  shows "loadSplitSchedules db org sc =
    map (\<lambda>s. s\<lparr>ssParts := loadedParts db org s\<rparr>)
      (filter (\<lambda>s. loadedParts db org s \<noteq> [])
        (sort_key ssID (filter (\<lambda>s. ssOrganizerID s = org \<and>
          scopePair (ssScopeLevel s) (ssScopeID s) sc) (dbSplitSchedules db))))"
proof -
  let ?ss = "sort_key ssID (filter (\<lambda>s. ssOrganizerID s = org \<and>
      scopePair (ssScopeLevel s) (ssScopeID s) sc) (dbSplitSchedules db))"
  let ?raw = "\<lambda>s. concat (map (\<lambda>p. map (\<lambda>y. \<lparr>spPayee = y, spShareBps = ptShareBps p\<rparr>)
      (filter (\<lambda>y. pyID y = ptPayeeID p \<and> pyOrganizerID y = ssOrganizerID s) (dbPayees db)))
    (sort_key ptPayeeID (filter (\<lambda>p. ptScheduleID p = ssID s) (dbSplitParts db))))"
  have rows: "splitScheduleCandidatesQuery db org sc = concat (map (\<lambda>s. map (Pair s) (?raw s)) ?ss)"
    by (simp add: splitScheduleCandidatesQuery_def map_concat comp_def)
  have "distinct (map ssID [] @ map ssID ?ss)"
    using distinct_map_sortByID [of ssID ssID] assms
    by (simp add: sortByID_eq [symmetric] distinct_map_filter)
  from foldl_addSplitRow_all [OF this, of org ?raw]
  show ?thesis unfolding loadSplitSchedules_def rows loadedParts_def by (simp only: append_Nil map_is_Nil_conv)
qed

lemma filter_unique_payee:
  assumes "distinct (map pyID ys)" and "y \<in> set ys" and "pyID y = i" and "pyOrganizerID y = org"
  shows "filter (\<lambda>y. pyID y = i \<and> pyOrganizerID y = org) ys = [y]"
  using assms
proof (induction ys)
  case (Cons z ys)
  show ?case
  proof (cases "y = z")
    case True
    with Cons.prems have "filter (\<lambda>y. pyID y = i \<and> pyOrganizerID y = org) ys = []"
      by (auto simp: filter_empty_conv rev_image_eqI)
    with True Cons.prems show ?thesis by simp
  next
    case False
    with Cons.prems have "pyID z \<noteq> i" by (auto simp: rev_image_eqI)
    with False Cons show ?thesis by auto
  qed
qed simp

text \<open>Under the keys of the tables the join keeps each part once, with its share.\<close>

lemma loadedParts_shares:
  assumes inv: "catalogInv db" and s: "s \<in> set (dbSplitSchedules db)"
  shows "map (\<lambda>part. (pyID (spPayee part), spShareBps part)) (loadedParts db org s) =
    map (\<lambda>p. (ptPayeeID p, ptShareBps p))
      (sort_key ptPayeeID (filter (\<lambda>p. ptScheduleID p = ssID s) (dbSplitParts db)))"
proof -
  let ?join = "\<lambda>p. filter (\<lambda>y. pyID y = ptPayeeID p \<and> pyOrganizerID y = ssOrganizerID s) (dbPayees db)"
  have one: "\<exists>y. ?join p = [y] \<and> pyID y = ptPayeeID p"
    if "p \<in> set (dbSplitParts db)" "ptScheduleID p = ssID s" for p
  proof -
    from that(1) inv obtain s' y where "s' \<in> set (dbSplitSchedules db)" "ssID s' = ptScheduleID p"
      "ssOrganizerID s' = ptOrganizerID p" and y: "y \<in> set (dbPayees db)" "pyID y = ptPayeeID p"
      "pyOrganizerID y = ptOrganizerID p"
      by (auto simp: catalogInv_defs partRowOk_def)
    moreover from this that(2) have "s' = s"
      using inv s by (auto simp: catalogInv_defs distinct_map inj_on_def)
    ultimately have "?join p = [y]"
      using inv by (intro filter_unique_payee) (simp_all add: catalogInv_defs)
    with y show ?thesis by blast
  qed
  have "map (\<lambda>part. (pyID (spPayee part), spShareBps part))
      (concat (map (\<lambda>p. map (\<lambda>y. \<lparr>spPayee = y, spShareBps = ptShareBps p\<rparr>) (?join p)) ps)) =
    map (\<lambda>p. (ptPayeeID p, ptShareBps p)) ps"
    if "\<forall>p \<in> set ps. p \<in> set (dbSplitParts db) \<and> ptScheduleID p = ssID s" for ps
    using that
  proof (induction ps)
    case (Cons p ps)
    then obtain y where "?join p = [y]" "pyID y = ptPayeeID p" using one [of p] by auto
    with Cons show ?case by simp
  qed simp
  from this [of "sort_key ptPayeeID (filter (\<lambda>p. ptScheduleID p = ssID s) (dbSplitParts db))"]
  show ?thesis by (simp add: loadedParts_def comp_def)
qed

text \<open>What settlement needs of the parts of a schedule.\<close>

definition balancedParts :: "SplitPart list \<Rightarrow> bool" where
  "balancedParts parts \<longleftrightarrow> parts \<noteq> [] \<and> distinct (map (\<lambda>p. pyID (spPayee p)) parts) \<and>
     (\<forall>p \<in> set parts. 0 \<le> spShareBps p \<and> spShareBps p \<le> 10000) \<and>
     sum_list (map spShareBps parts) = 10000"

lemma loadSplitSchedules_balanced:
  assumes inv: "catalogInv db" and l: "l \<in> set (loadSplitSchedules db org sc)"
  shows "balancedParts (ssParts l)"
proof -
  have "distinct (map ssID (dbSplitSchedules db))" using inv by (simp add: catalogInv_defs)
  with l obtain s where s: "s \<in> set (dbSplitSchedules db)" and parts: "ssParts l = loadedParts db org s"
    by (auto simp: loadSplitSchedules_eq)
  let ?rows = "filter (\<lambda>p. ptScheduleID p = ssID s) (dbSplitParts db)"
  let ?sorted = "sort_key ptPayeeID ?rows"
  note eq = loadedParts_shares [OF inv s, of org]
  have ids: "map (\<lambda>p. pyID (spPayee p)) (ssParts l) = map ptPayeeID ?sorted"
    and shares: "map spShareBps (ssParts l) = map ptShareBps ?sorted"
    using arg_cong [OF eq, of "map fst"] arg_cong [OF eq, of "map snd"]
    by (simp_all add: parts comp_def)
  have bal: "?rows \<noteq> []" "sum_list (map ptShareBps ?rows) = 10000"
    using inv s by (auto simp: catalogInv_defs splitBalanced_def Let_def)
  have "distinct (map (\<lambda>p. (ptScheduleID p, ptPayeeID p)) ?rows)"
    using inv by (simp add: catalogInv_defs distinct_map_filter)
  then have "distinct (map ptPayeeID ?rows)"
    by (auto simp: distinct_map inj_on_def)
  then have "distinct (map ptPayeeID ?sorted)"
    using distinct_map_perm [of ?sorted ?rows ptPayeeID] by simp
  moreover have "mset (map ptShareBps ?sorted) = mset (map ptShareBps ?rows)" by simp
  then have "sum_list (map ptShareBps ?sorted) = 10000"
    using bal(2) by (metis sum_mset_sum_list)
  moreover have "\<forall>x \<in> set (map spShareBps (ssParts l)). 0 \<le> x \<and> x \<le> 10000"
    unfolding shares using inv by (auto simp: catalogInv_defs partRowOk_def)
  then have "\<forall>p \<in> set (ssParts l). 0 \<le> spShareBps p \<and> spShareBps p \<le> 10000" by simp
  moreover have "ssParts l \<noteq> []"
    using arg_cong [OF ids, of length] bal(1) by auto
  ultimately show ?thesis unfolding balancedParts_def ids shares by auto
qed

section \<open>Resolutions over the tables\<close>

lemma scopePair_iff [simp]:
  "scopePair (prScopeLevel r) (prScopeID r) s = matchesScope r s"
  "scopePair (frScopeLevel f) (frScopeID f) s = feeMatchesScope f s"
  "scopePair (ssScopeLevel h) (ssScopeID h) s = splitMatchesScope h s"
  by (auto simp: scopePair_def matchesScope_def feeMatchesScope_def splitMatchesScope_def
      split: ScopeLevel.splits option.splits)

lemma pricingScopesQuery_iff:
  assumes "distinct (map ttID (dbTicketTypes db))"
  shows "pricingScopesQuery db tt = Some (org, base, sc) \<longleftrightarrow>
    (\<exists>t p. t \<in> set (dbTicketTypes db) \<and> ttID t = tt \<and> performanceOf db t = Some p \<and>
       org = ttOrganizerID t \<and> base = \<lparr>Amount = ttPriceAmount t, Currency = ttCurrency t\<rparr> \<and>
       sc = scopesOf db t p)" (is "?L \<longleftrightarrow> ?R")
proof
  assume ?L
  then show ?R by (auto simp: pricingScopesQuery_def dest: find_SomeD split: option.splits)
next
  assume ?R
  then obtain t p where t: "t \<in> set (dbTicketTypes db)" "ttID t = tt" and rest:
    "performanceOf db t = Some p" "org = ttOrganizerID t"
    "base = \<lparr>Amount = ttPriceAmount t, Currency = ttCurrency t\<rparr>" "sc = scopesOf db t p"
    by blast
  have "find (\<lambda>t. ttID t = tt) (dbTicketTypes db) = Some t"
  proof (cases "find (\<lambda>t. ttID t = tt) (dbTicketTypes db)")
    case None
    with t show ?thesis by (auto simp: find_None_iff_filter)
  next
    case (Some t')
    then have "t' \<in> set (dbTicketTypes db)" "ttID t' = tt" by (auto dest: find_SomeD)
    with t assms Some show ?thesis by (auto simp: distinct_map inj_on_def)
  qed
  with rest show ?L by (simp add: pricingScopesQuery_def)
qed

lemma resolveSplits_total:
  "\<exists>fs'. resolveSplits at ch sc schedules fs = Inr fs' \<and>
     list_all2 (\<lambda>f f'. \<exists>sp. SelectSplitSchedule at (fcFeeCode f) ch sc schedules = Inr sp \<and>
       f' = f\<lparr>fcSplit := sp\<rparr>) fs fs'"
proof (induction fs)
  case (Cons f fs)
  obtain sp where "SelectSplitSchedule at (fcFeeCode f) ch sc schedules = Inr sp"
    by (rule SelectSplitSchedule_total)
  with Cons show ?case by auto
qed simp

text \<open>A rule row that is live at an instant and in another currency than a ticket type.\<close>

definition priceMismatch :: "CatalogDB \<Rightarrow> uuid \<Rightarrow> time \<Rightarrow> bool" where
  "priceMismatch db tt at \<longleftrightarrow> (\<exists>t p r. t \<in> set (dbTicketTypes db) \<and> ttID t = tt \<and>
     performanceOf db t = Some p \<and> r \<in> set (dbPriceRules db) \<and>
     prOrganizerID r = ttOrganizerID t \<and> matchesScope r (scopesOf db t p) \<and>
     \<not> isPast at r \<and> prCurrency r \<noteq> ttCurrency t)"

definition feeMismatch :: "CatalogDB \<Rightarrow> uuid \<Rightarrow> time \<Rightarrow> bool" where
  "feeMismatch db tt at \<longleftrightarrow> (\<exists>t p r. t \<in> set (dbTicketTypes db) \<and> ttID t = tt \<and>
     performanceOf db t = Some p \<and> r \<in> set (dbFeeRules db) \<and>
     frOrganizerID r = ttOrganizerID t \<and> feeMatchesScope r (scopesOf db t p) \<and>
     \<not> feeIsPast at r \<and> frCurrency r \<noteq> ttCurrency t)"

lemma price_fails_iff:
  assumes "catalogKeys db"
  shows "(\<exists>channel i. ResolveTicketTypePrice db tt channel at = Inl (ErrPriceRuleCurrencyMismatch i)) \<longleftrightarrow>
    priceMismatch db tt at"
proof -
  have tts: "distinct (map ttID (dbTicketTypes db))" and prs: "distinct (map prID (dbPriceRules db))"
    using assms by (simp_all add: catalogKeys_def)
  have "distinct (map prID (priceRuleCandidatesQuery db org sc))" for org sc
    using prs by (simp add: priceRuleCandidatesQuery_def sortByID_eq [symmetric] distinct_map_filter)
  then have fails: "(\<exists>i. SelectPricingRule at \<lparr>pcBasePrice = base, pcScopes = sc,
        pcRules = priceRuleCandidatesQuery db org sc, pcChannel = channel\<rparr> =
        Inl (ErrPriceRuleCurrencyMismatch i)) \<longleftrightarrow>
      (\<exists>r \<in> set (dbPriceRules db). prOrganizerID r = org \<and> matchesScope r sc \<and>
         priceChannelEligible r channel \<and> \<not> isPast at r \<and> prCurrency r \<noteq> Currency base)"
    for org base sc channel
    by (subst SelectPricingRule_currency_iff)
      (auto simp: priceConsidered_def priceRuleCandidatesQuery_def)
  have own: "\<exists>channel. priceChannelEligible r channel" for r
    by (rule exI [of _ "prChannelCode r"]) (simp add: priceChannelEligible_def split: option.split)
  have "(\<exists>i. ResolveTicketTypePrice db tt channel at = Inl (ErrPriceRuleCurrencyMismatch i)) \<longleftrightarrow>
      (\<exists>org base sc. pricingScopesQuery db tt = Some (org, base, sc) \<and>
         (\<exists>i. SelectPricingRule at \<lparr>pcBasePrice = base, pcScopes = sc,
            pcRules = priceRuleCandidatesQuery db org sc, pcChannel = channel\<rparr> =
            Inl (ErrPriceRuleCurrencyMismatch i)))"
    for channel
    by (auto simp: ResolveTicketTypePrice_def split: option.splits sum.splits)
  then show ?thesis
    unfolding fails pricingScopesQuery_iff [OF tts] priceMismatch_def
    using own by fastforce
qed

lemma fee_fails_iff:
  assumes "catalogKeys db"
  shows "(\<exists>i. ResolveTicketTypeFees db tt channel at = Inl (ErrFeeRuleCurrencyMismatch i)) \<longleftrightarrow>
    feeMismatch db tt at"
proof -
  have tts: "distinct (map ttID (dbTicketTypes db))" and frs: "distinct (map frID (dbFeeRules db))"
    using assms by (simp_all add: catalogKeys_def)
  have "distinct (map frID (feeRuleCandidatesQuery db org sc))" for org sc
    using frs by (simp add: feeRuleCandidatesQuery_def sortByID_eq [symmetric] distinct_map_filter)
  then have fails: "(\<exists>i. SelectFeeRules at \<lparr>fdCurrency = Currency base, fdScopes = sc,
        fdChannel = channel, fdRules = feeRuleCandidatesQuery db org sc\<rparr> =
        Inl (ErrFeeRuleCurrencyMismatch i)) \<longleftrightarrow>
      (\<exists>r \<in> set (dbFeeRules db). frOrganizerID r = org \<and> feeMatchesScope r sc \<and>
         \<not> feeIsPast at r \<and> frCurrency r \<noteq> Currency base)" for org base sc
    by (subst SelectFeeRules_currency_iff) (auto simp: feeRuleCandidatesQuery_def)
  have "\<not> (resolveSplits at channel sc schedules fs = Inl e)" for sc schedules fs e
    using resolveSplits_total [of at channel sc schedules fs] by auto
  then have "(\<exists>i. ResolveTicketTypeFees db tt channel at = Inl (ErrFeeRuleCurrencyMismatch i)) \<longleftrightarrow>
      (\<exists>org base sc. pricingScopesQuery db tt = Some (org, base, sc) \<and>
         (\<exists>i. SelectFeeRules at \<lparr>fdCurrency = Currency base, fdScopes = sc,
            fdChannel = channel, fdRules = feeRuleCandidatesQuery db org sc\<rparr> =
            Inl (ErrFeeRuleCurrencyMismatch i)))"
    by (auto simp: ResolveTicketTypeFees_def split: option.splits sum.splits)
  then show ?thesis
    unfolding fails pricingScopesQuery_iff [OF tts] feeMismatch_def by fastforce
qed

lemma sweepLive_iff:
  "sweepLive now (prEffectiveUntil r) \<longleftrightarrow> \<not> isPast now r"
  "sweepLive now (frEffectiveUntil f) \<longleftrightarrow> \<not> feeIsPast now f"
  by (auto simp: sweepLive_def isPast_def feeIsPast_def Before_def split: option.splits)

lemma bex_case_option:
  "(\<exists>m \<in> set (case x of None \<Rightarrow> [] | Some p \<Rightarrow> f p). Q m) \<longleftrightarrow> (\<exists>p. x = Some p \<and> (\<exists>m \<in> set (f p). Q m))"
  by (cases x) simp_all

lemma bex_concat_map:
  "(\<exists>m \<in> set (concat (map f ts)). Q m) \<longleftrightarrow> (\<exists>t \<in> set ts. \<exists>m \<in> set (f t). Q m)"
  by simp

lemma bex_map_filter:
  "(\<exists>m \<in> set (map f (filter P rs)). Q m) \<longleftrightarrow> (\<exists>r \<in> set rs. P r \<and> Q (f r))"
  by auto

lemmas sweep_rows = bex_concat_map bex_case_option bex_map_filter set_sort

lemma sweep_reports_price:
  "(\<exists>m \<in> set (ListRuleCurrencyMismatches db now). cmKind m = RuleKindPrice \<and> cmTicketTypeID m = tt)
    \<longleftrightarrow> priceMismatch db tt now"
proof -
  have "\<not> (\<exists>m \<in> set (sweepFeeRules db now). cmKind m = RuleKindPrice \<and> cmTicketTypeID m = tt)"
    unfolding sweepFeeRules_def sweep_rows by simp
  moreover have "(\<exists>m \<in> set (sweepPriceRules db now). cmKind m = RuleKindPrice \<and> cmTicketTypeID m = tt)
      \<longleftrightarrow> priceMismatch db tt now"
    unfolding sweepPriceRules_def sweep_rows priceMismatch_def sweepLive_iff scopePair_iff
    by simp blast
  ultimately show ?thesis unfolding ListRuleCurrencyMismatches_def set_append by blast
qed

lemma sweep_reports_fee:
  "(\<exists>m \<in> set (ListRuleCurrencyMismatches db now). cmKind m = RuleKindFee \<and> cmTicketTypeID m = tt)
    \<longleftrightarrow> feeMismatch db tt now"
proof -
  have "\<not> (\<exists>m \<in> set (sweepPriceRules db now). cmKind m = RuleKindFee \<and> cmTicketTypeID m = tt)"
    unfolding sweepPriceRules_def sweep_rows by simp
  moreover have "(\<exists>m \<in> set (sweepFeeRules db now). cmKind m = RuleKindFee \<and> cmTicketTypeID m = tt)
      \<longleftrightarrow> feeMismatch db tt now"
    unfolding sweepFeeRules_def sweep_rows feeMismatch_def sweepLive_iff scopePair_iff
    by simp blast
  ultimately show ?thesis unfolding ListRuleCurrencyMismatches_def set_append by blast
qed

lemma mismatch_antimono:
  assumes "now \<le> at"
  shows "priceMismatch db tt at \<Longrightarrow> priceMismatch db tt now"
    and "feeMismatch db tt at \<Longrightarrow> feeMismatch db tt now"
proof -
  have "isPast now r \<Longrightarrow> isPast at r" "feeIsPast now f \<Longrightarrow> feeIsPast at f" for r f
    using assms by (auto simp: isPast_def feeIsPast_def Before_def split: option.splits)
  then show "priceMismatch db tt at \<Longrightarrow> priceMismatch db tt now"
    and "feeMismatch db tt at \<Longrightarrow> feeMismatch db tt now"
    unfolding priceMismatch_def feeMismatch_def by blast+
qed

lemma ResolveTicketTypeFees_split:
  assumes "ResolveTicketTypeFees db tt channel at = Inr sel" and "f \<in> set (fsFees sel)"
  shows "\<exists>org sc. SelectSplitSchedule at (fcFeeCode f) channel sc (loadSplitSchedules db org sc) =
    Inr (fcSplit f)"
proof -
  from assms(1) obtain org sc and sel0 :: FeeSelection where
    "resolveSplits at channel sc (loadSplitSchedules db org sc) (fsFees sel0) = Inr (fsFees sel)"
    by (auto simp: ResolveTicketTypeFees_def split: option.splits sum.splits)
  then have "list_all2 (\<lambda>f f'. \<exists>sp. SelectSplitSchedule at (fcFeeCode f) channel sc
      (loadSplitSchedules db org sc) = Inr sp \<and> f' = f\<lparr>fcSplit := sp\<rparr>) (fsFees sel0) (fsFees sel)"
    using resolveSplits_total [of at channel sc "loadSplitSchedules db org sc" "fsFees sel0"] by auto
  with assms(2) obtain f0 sp where
    "SelectSplitSchedule at (fcFeeCode f0) channel sc (loadSplitSchedules db org sc) = Inr sp"
    "f = f0\<lparr>fcSplit := sp\<rparr>"
    by (auto simp: list_all2_conv_all_nth in_set_conv_nth)
  then show ?thesis by auto
qed

lemma fee_split_balanced:
  assumes "catalogInv db" and "ResolveTicketTypeFees db tt channel at = Inr sel"
    and "f \<in> set (fsFees sel)" and w: "slWinner (fcSplit f) = Some s"
  shows "balancedParts (ssParts s)"
proof -
  obtain org sc where sp: "SelectSplitSchedule at (fcFeeCode f) channel sc (loadSplitSchedules db org sc) =
      Inr (fcSplit f)"
    using ResolveTicketTypeFees_split [OF assms(2,3)] by blast
  have "s \<in> set (loadSplitSchedules db org sc)"
    using selectWinner_mem [OF SelectSplitSchedule_winner [OF sp w]]
    by (simp add: set_eligibleSplits splitConsidered_def)
  then show ?thesis by (rule loadSplitSchedules_balanced [OF assms(1)])
qed

section \<open>A worked catalog\<close>

definition demoCatalog :: CatalogDB where
  "demoCatalog = \<lparr>
     dbTicketTypes = [\<lparr>ttID = 1, ttOrganizerID = 9, ttPerformanceID = 2, ttPriceAmount = 6000,
                       ttCurrency = ''EUR''\<rparr>],
     dbPerformances = [\<lparr>pfID = 2, pfOrganizerID = 9, pfEventID = 3, pfVenueID = 4\<rparr>],
     dbSeries = [], dbEvents = [(3, 9)], dbVenues = [(4, 9)], dbSeriesPerformances = [],
     dbPriceRules = [], dbFeeRules = [demoFee 32 ''svc'' IncidencePassedOn 150 None],
     dbPayees = [demoPayee 7],
     dbSplitSchedules = [(demoSchedule 21 7 None)\<lparr>ssParts := []\<rparr>],
     dbSplitParts = [\<lparr>ptScheduleID = 21, ptPayeeID = 7, ptOrganizerID = 9, ptShareBps = 10000\<rparr>]\<rparr>"

lemmas demo_catalog_defs = demoCatalog_def demoFee_def demoSchedule_def demoPayee_def

lemmas row_checks = currencyCheck_def amountCheck_def channelCheck_def windowCheck_def sqlLength_def
  less_eq_char_def BasisPerTicketFixed_def BasisPerOrderFixed_def BasisPercentageBps_def
  IncidencePassedOn_def IncidenceAbsorbed_def

lemma demoCatalog_inv: "catalogInv demoCatalog"
  by (simp add: catalogInv_defs partRowOk_def splitBalanced_def writeGate_def priceRowCheck_def
      feeRowCheck_def splitRowCheck_def row_checks demo_catalog_defs)

definition demoMisconfigured :: CatalogDB where
  "demoMisconfigured = demoCatalog\<lparr>dbFeeRules :=
     [(demoFee 32 ''svc'' IncidencePassedOn 150 None)\<lparr>frCurrency := ''USD''\<rparr>]\<rparr>"

lemmas demo_sweep_defs = ListRuleCurrencyMismatches_def sweepPriceRules_def sweepFeeRules_def
  performanceOf_def scopesOf_def seriesOf_def scopePair_def sweepLive_def demo_catalog_defs
  demoMisconfigured_def

lemma demoCatalog_resolves:
  "\<exists>sel f s. ResolveTicketTypeFees demoCatalog 1 None 50 = Inr sel \<and> f \<in> set (fsFees sel) \<and>
     slWinner (fcSplit f) = Some s"
  by (simp add: ResolveTicketTypeFees_def pricingScopesQuery_def performanceOf_def scopesOf_def seriesOf_def
      feeRuleCandidatesQuery_def scopePair_def loadSplitSchedules_def splitScheduleCandidatesQuery_def
      addSplitRow_def SelectSplitSchedule_def scopedSplits_def splitMatchesScope_def
      splitChannelEligible_def eligibleSplits_def splitWindowLosers_def splitWindowReason_def
      splitIsPast_def splitRankLosers_def fee_eval demo_catalog_defs)

section \<open>Properties\<close>

text \<open>
  C27: every write of the pricing tables keeps the catalog's invariant: keys stay
  distinct, every price and fee rule names a scope target of its own organizer and
  satisfies the CHECKs of its migration, every split schedule has parts that sum to
  exactly 10000 basis points, and every part names a payee of its organizer.
\<close>

theorem catalog_writes_keep_invariant:
  assumes "catalogInv db"
  shows "(CreatePriceRule db i now pin = Inr (r, db1) \<longrightarrow> catalogInv db1) \<and>
    (CreateFeeRule db i now fin = Inr (f, db2) \<longrightarrow> catalogInv db2) \<and>
    (CreatePayee db kinds i yin = Inr (y, db3) \<longrightarrow> catalogInv db3) \<and>
    (CreateSplitSchedule db i sin = Inr (j, db4) \<longrightarrow> catalogInv db4)"
  using CreatePriceRule_inv [OF assms] CreateFeeRule_inv [OF assms] CreatePayee_inv [OF assms]
    CreateSplitSchedule_inv [OF assms] by blast

theorem catalog_writes_keep_invariant_witness:
  "catalogInv demoCatalog \<and>
   (\<exists>j db'. CreateSplitSchedule demoCatalog 22 (demoSchedule 0 7 None) = Inr (j, db') \<and> catalogInv db')"
proof -
  have "\<exists>db'. CreateSplitSchedule demoCatalog 22 (demoSchedule 0 7 None) = Inr (22, db')"
    by (simp add: CreateSplitSchedule_def Let_def writeGate_def splitRowCheck_def row_checks
        splitBalanced_def demo_catalog_defs)
  then show ?thesis
    using demoCatalog_inv catalog_writes_keep_invariant [OF demoCatalog_inv] by blast
qed

text \<open>
  C28: a fee resolution never hands on a split that cannot be settled: under the
  catalog's invariant the winning schedule of every fee code has at least one part,
  distinct payees, shares between 0 and 10000 and shares that sum to exactly 10000.
\<close>

theorem resolved_splits_balanced:
  assumes "catalogInv db" and "ResolveTicketTypeFees db tt channel at = Inr sel"
    and "f \<in> set (fsFees sel)" and "slWinner (fcSplit f) = Some s"
  shows "balancedParts (ssParts s)"
  using assms by (rule fee_split_balanced)

theorem resolved_splits_balanced_witness:
  "\<exists>sel f s. ResolveTicketTypeFees demoCatalog 1 None 50 = Inr sel \<and> f \<in> set (fsFees sel) \<and>
     slWinner (fcSplit f) = Some s \<and> balancedParts (ssParts s)"
proof -
  obtain sel f s where r: "ResolveTicketTypeFees demoCatalog 1 None 50 = Inr sel" "f \<in> set (fsFees sel)"
    "slWinner (fcSplit f) = Some s"
    using demoCatalog_resolves by blast
  show ?thesis using resolved_splits_balanced [OF demoCatalog_inv r] r by blast
qed

text \<open>
  C29: the operator's currency sweep finds exactly the failures it is there to find. A
  price mismatch is reported for a ticket type exactly when its price resolution fails
  on a currency in some channel at that instant, and a fee mismatch exactly when its
  fee resolution fails on a currency in every channel.
\<close>

theorem sweep_finds_exactly_the_failures:
  assumes "catalogKeys db"
  shows "(\<exists>m \<in> set (ListRuleCurrencyMismatches db now).
        cmKind m = RuleKindPrice \<and> cmTicketTypeID m = tt) =
      (\<exists>channel i. ResolveTicketTypePrice db tt channel now = Inl (ErrPriceRuleCurrencyMismatch i)) \<and>
    (\<exists>m \<in> set (ListRuleCurrencyMismatches db now).
        cmKind m = RuleKindFee \<and> cmTicketTypeID m = tt) =
      (\<exists>i. ResolveTicketTypeFees db tt channel now = Inl (ErrFeeRuleCurrencyMismatch i))"
  unfolding sweep_reports_price sweep_reports_fee price_fails_iff [OF assms] fee_fails_iff [OF assms]
  by simp

theorem sweep_finds_exactly_the_failures_witness:
  "\<exists>i. ResolveTicketTypeFees demoMisconfigured 1 None 50 = Inl (ErrFeeRuleCurrencyMismatch i)"
proof -
  have keys: "catalogKeys demoMisconfigured" by (simp add: catalogKeys_def demo_catalog_defs demoMisconfigured_def)
  have "\<exists>m \<in> set (ListRuleCurrencyMismatches demoMisconfigured 50).
      cmKind m = RuleKindFee \<and> cmTicketTypeID m = 1"
    by (simp add: demo_sweep_defs)
  then show ?thesis using sweep_finds_exactly_the_failures [OF keys, of 50 1 None] by blast
qed

text \<open>
  A clean sweep lasts. If the sweep reports nothing for a ticket type, then on the
  same tables neither of its resolutions fails on a currency at that instant or at any
  later one, in any channel.
\<close>

theorem clean_sweep_lasts:
  assumes "catalogKeys db" and "now \<le> at"
    and "\<forall>m \<in> set (ListRuleCurrencyMismatches db now). cmTicketTypeID m \<noteq> tt"
  shows "ResolveTicketTypePrice db tt channel at \<noteq> Inl (ErrPriceRuleCurrencyMismatch i) \<and>
    ResolveTicketTypeFees db tt channel at \<noteq> Inl (ErrFeeRuleCurrencyMismatch i)"
proof -
  have "\<not> priceMismatch db tt now" "\<not> feeMismatch db tt now"
    using assms(3) unfolding sweep_reports_price [symmetric] sweep_reports_fee [symmetric] by blast+
  then have "\<not> priceMismatch db tt at" "\<not> feeMismatch db tt at"
    using mismatch_antimono [OF assms(2)] by blast+
  then show ?thesis
    using price_fails_iff [OF assms(1)] fee_fails_iff [OF assms(1)] by metis
qed

theorem clean_sweep_lasts_witness:
  "ResolveTicketTypeFees demoCatalog 1 (Some ''pos'') 90 \<noteq> Inl (ErrFeeRuleCurrencyMismatch 32)"
proof -
  have "catalogKeys demoCatalog" using demoCatalog_inv by (simp add: catalogInv_def)
  moreover have "\<forall>m \<in> set (ListRuleCurrencyMismatches demoCatalog 50). cmTicketTypeID m \<noteq> 1"
    by (simp add: demo_sweep_defs)
  ultimately show ?thesis using clean_sweep_lasts [of demoCatalog 50 90 1 "Some ''pos''" 32] by simp
qed

end
