(* ===== verification/Checked.thy ===== *)
theory Checked
  imports Prelude
begin

text \<open>
  Results chained the way Go chains them (\<open>if err != nil { return }\<close>), and the
  interface of an addition on money that refuses an overflow instead of wrapping.
  Commerce (\<open>checkedAdd\<close>), payments (\<open>checkedAddMoney\<close>) and the split package (the
  step of \<open>Sum\<close>) each carry one; the locale states what they promise and proves once
  what a loop of such additions computes.
\<close>

section \<open>Chained results\<close>

definition bindE :: "'e + 'a \<Rightarrow> ('a \<Rightarrow> 'e + 'b) \<Rightarrow> 'e + 'b" where
  "bindE r k = (case r of Inl e \<Rightarrow> Inl e | Inr v \<Rightarrow> k v)"

lemma bindE_simps [simp]: "bindE (Inl e) k = Inl e" "bindE (Inr v) k = k v"
  by (simp_all add: bindE_def)

lemma bindE_Inr_iff: "bindE r k = Inr y \<longleftrightarrow> (\<exists>v. r = Inr v \<and> k v = Inr y)"
  by (cases r) simp_all

lemma bindE_Inl_iff: "bindE r k = Inl e \<longleftrightarrow> r = Inl e \<or> (\<exists>v. r = Inr v \<and> k v = Inl e)"
  by (cases r) simp_all

lemma bindE_cong [fundef_cong]:
  "r = r' \<Longrightarrow> (\<And>v. r' = Inr v \<Longrightarrow> k v = k' v) \<Longrightarrow> bindE r k = bindE r' k'"
  by (cases r') simp_all

text \<open>A loop that folds its items into an accumulator and stops at the first error.\<close>

primrec foldE :: "('a \<Rightarrow> 'b \<Rightarrow> 'e + 'b) \<Rightarrow> 'a list \<Rightarrow> 'b \<Rightarrow> 'e + 'b" where
  "foldE step [] acc = Inr acc"
| "foldE step (x # xs) acc = bindE (step x acc) (foldE step xs)"

lemma foldE_Inl: "foldE step xs acc = Inl e \<Longrightarrow> \<exists>x \<in> set xs. \<exists>a. step x a = Inl e"
  by (induction xs arbitrary: acc) (auto simp: bindE_Inl_iff)

lemma foldE_append: "foldE step (xs @ ys) acc = bindE (foldE step xs acc) (foldE step ys)"
proof (induction xs arbitrary: acc)
  case (Cons x xs)
  then show ?case by (cases "step x acc") simp_all
qed simp

lemma le_sum_list_nonneg:
  fixes f :: "'a \<Rightarrow> int"
  assumes "x \<in> set xs" and "\<And>y. y \<in> set xs \<Longrightarrow> 0 \<le> f y"
  shows "f x \<le> sum_list (map f xs)"
  using assms
proof (induction xs)
  case (Cons y ys)
  have "0 \<le> sum_list (map f ys)" using Cons.prems(2) by (auto intro!: sum_list_nonneg)
  moreover have "0 \<le> f y" using Cons.prems(2) by simp
  ultimately show ?case using Cons by (auto intro: order_trans)
qed simp

section \<open>Basis points\<close>

lemma rate_decomposition:
  fixes u r :: int
  shows "u * r div 10000 = (u div 10000) * r + (u mod 10000) * r div 10000"
proof -
  have split: "(a * 10000 + b) * r = b * r + 10000 * (a * r)" for a b by algebra
  have "u * r = (u div 10000 * 10000 + u mod 10000) * r" by (simp only: div_mult_mod_eq)
  also have "\<dots> div 10000 = (u div 10000) * r + (u mod 10000) * r div 10000"
    unfolding split by simp
  finally show ?thesis .
qed

lemma rate_le: "0 \<le> face \<Longrightarrow> 0 \<le> b \<Longrightarrow> b \<le> 10000 \<Longrightarrow> face * b div 10000 \<le> (face::int)"
  using zdiv_mono1 [of "face * b" "face * 10000" 10000] by (simp add: mult_left_mono)

section \<open>Checked addition\<close>

locale checked_add =
  fixes add :: "int \<Rightarrow> int \<Rightarrow> 'e + int"
  assumes add_exact: "0 \<le> a \<Longrightarrow> 0 \<le> b \<Longrightarrow> a + b \<le> MaxInt64 \<Longrightarrow> add a b = Inr (a + b)"
    and add_overflow: "0 \<le> a \<Longrightarrow> 0 \<le> b \<Longrightarrow> b \<le> MaxInt64 \<Longrightarrow> MaxInt64 < a + b \<Longrightarrow>
      \<exists>e. add a b = Inl e"
begin

lemma add_Inr_iff:
  assumes "0 \<le> a" "0 \<le> b" "b \<le> MaxInt64"
  shows "add a b = Inr s \<longleftrightarrow> s = a + b \<and> a + b \<le> MaxInt64"
  using add_exact [OF assms(1,2)] add_overflow [OF assms] by (cases "a + b \<le> MaxInt64") auto

lemma sum_Inr_iff:
  assumes "0 \<le> acc" "acc \<le> MaxInt64" "\<And>x. x \<in> set xs \<Longrightarrow> 0 \<le> x \<and> x \<le> MaxInt64"
  shows "foldE (\<lambda>x t. add t x) xs acc = Inr s \<longleftrightarrow>
    s = acc + sum_list xs \<and> acc + sum_list xs \<le> MaxInt64"
  using assms
proof (induction xs arbitrary: acc)
  case Nil
  then show ?case by auto
next
  case (Cons x xs)
  have x: "0 \<le> x" "x \<le> MaxInt64" and xs: "0 \<le> sum_list xs"
    using Cons.prems(3) by (auto intro!: sum_list_nonneg)
  show ?case
  proof (cases "acc + x \<le> MaxInt64")
    case True
    then have "add acc x = Inr (acc + x)" using Cons.prems(1) x by (simp add: add_exact)
    then show ?thesis using Cons.IH [of "acc + x"] Cons.prems x True by (simp add: add.assoc)
  next
    case False
    then obtain e where "add acc x = Inl e" using add_overflow [OF Cons.prems(1) x] by auto
    then show ?thesis using False xs by simp
  qed
qed

lemma sum_fails_iff:
  assumes "\<And>x. x \<in> set xs \<Longrightarrow> 0 \<le> x \<and> x \<le> MaxInt64"
  shows "(\<exists>e. foldE (\<lambda>x t. add t x) xs 0 = Inl e) \<longleftrightarrow> MaxInt64 < sum_list xs"
  using sum_Inr_iff [of 0 xs] assms
  by (cases "foldE (\<lambda>x t. add t x) xs 0") (auto simp: not_le [symmetric])

end

end
