(* ===== verification/Commerce_Fees.thy ===== *)
theory Commerce_Fees
  imports Checked
begin

text \<open>
  Commerce's half of fees, \<open>src/services/commerce/internal/api/catalog_fees.go\<close>: the
  document it accepts from catalog, the checked arithmetic that turns rules into
  money, and the composition of an order total. Catalog decides which rules apply;
  this is the only place a fee becomes an amount.

  A decoded document is a record with the fields of its Go struct; a pointer is an
  \<open>option\<close>; an \<open>int64\<close> or \<open>int32\<close> is an \<open>int\<close>, and an operation the code does not
  check is written under \<open>wrap64\<close>. An error keeps its class and, for an unusable
  document, the text that follows the sentinel.
\<close>

section \<open>Data\<close>

datatype resolve_error =
    ErrResolveUnavailable
  | ErrResolveUnusable string
  | ErrFeeTotalOverflow

definition maxContractAmount :: int where
  "maxContractAmount = 9007199254740991"

definition basisPerTicketFixed :: string where "basisPerTicketFixed = ''per_ticket_fixed''"
definition basisPerOrderFixed :: string where "basisPerOrderFixed = ''per_order_fixed''"
definition basisPercentageBps :: string where "basisPercentageBps = ''percentage_bps''"
definition incidencePassedOn :: string where "incidencePassedOn = ''passed_on''"
definition incidenceAbsorbed :: string where "incidenceAbsorbed = ''absorbed''"

lemmas basis_defs = basisPerTicketFixed_def basisPerOrderFixed_def basisPercentageBps_def
lemmas incidence_defs = incidencePassedOn_def incidenceAbsorbed_def

lemma incidences_differ [simp]: "incidencePassedOn \<noteq> incidenceAbsorbed"
    "incidenceAbsorbed \<noteq> incidencePassedOn"
  by (simp_all add: incidence_defs)

lemma bases_differ [simp]: "basisPerTicketFixed \<noteq> basisPerOrderFixed"
    "basisPerOrderFixed \<noteq> basisPerTicketFixed" "basisPerTicketFixed \<noteq> basisPercentageBps"
    "basisPercentageBps \<noteq> basisPerTicketFixed" "basisPerOrderFixed \<noteq> basisPercentageBps"
    "basisPercentageBps \<noteq> basisPerOrderFixed"
  by (simp_all add: basis_defs)

record resolvedFeeRule =
  rwRuleID :: uuid
  rwFeeCode :: string
  rwBasis :: string
  rwAmount :: "int option"
  rwRateBps :: "int option"
  rwCurrency :: string
  rwIncidence :: string

record resolvedFeeCode =
  rcFeeCode :: string
  rcWinner :: "resolvedFeeRule option"

record feeBreakdownItem =
  biFeeCode :: string
  biBasis :: string
  biIncidence :: string
  biAmount :: int
  biCurrency :: string

record feeComposition =
  coItems :: "feeBreakdownItem list"
  coPassedOnTotal :: int
  coAbsorbedTotal :: int

section \<open>Checked arithmetic\<close>

definition checkedMul :: "int \<Rightarrow> int \<Rightarrow> resolve_error + int" where
  "checkedMul a b =
     (if a < 0 \<or> b < 0 then Inl ErrFeeTotalOverflow
      else if a \<noteq> 0 \<and> b > MaxInt64 sdiv a then Inl ErrFeeTotalOverflow
      else Inr (wrap64 (a * b)))"

definition checkedAdd :: "int \<Rightarrow> int \<Rightarrow> resolve_error + int" where
  "checkedAdd a b =
     (if a < 0 \<or> b < 0 then Inl ErrFeeTotalOverflow
      else if a > wrap64 (MaxInt64 - b) then Inl ErrFeeTotalOverflow
      else Inr (wrap64 (a + b)))"

definition checkedSub :: "int \<Rightarrow> int \<Rightarrow> resolve_error + int" where
  "checkedSub a b =
     (if a < 0 \<or> b < 0 \<or> a < b then Inl ErrFeeTotalOverflow else Inr (wrap64 (a - b)))"

definition feeFromRate :: "int \<Rightarrow> int \<Rightarrow> resolve_error + int" where
  "feeFromRate unitFace rateBps =
     (if unitFace < 0 \<or> rateBps < 0 then Inl ErrFeeTotalOverflow
      else bindE (checkedMul (unitFace sdiv 10000) rateBps) (\<lambda>hi.
        checkedAdd hi (wrap64 ((unitFace smod 10000) * rateBps) sdiv 10000)))"

lemma checkedMul_cases:
  assumes "0 \<le> a" "0 \<le> b"
  shows "checkedMul a b = (if a * b \<le> MaxInt64 then Inr (a * b) else Inl ErrFeeTotalOverflow)"
proof (cases "a = 0")
  case True
  then show ?thesis using assms by (simp add: checkedMul_def wrap64_id)
next
  case False
  then have a: "0 < a" using assms by simp
  have "b > MaxInt64 sdiv a \<longleftrightarrow> MaxInt64 < a * b"
    using le_div_iff_mult_le_int [OF a, of b MaxInt64] a
    by (simp add: sdiv_nonneg not_le [symmetric] mult.commute)
  moreover have "wrap64 (a * b) = a * b" if "a * b \<le> MaxInt64"
    using that mult_nonneg_nonneg [OF assms] by (intro wrap64_id) simp_all
  ultimately show ?thesis using assms a by (auto simp: checkedMul_def)
qed

lemma checkedAdd_cases:
  assumes "0 \<le> a" "0 \<le> b" "b \<le> MaxInt64"
  shows "checkedAdd a b = (if a + b \<le> MaxInt64 then Inr (a + b) else Inl ErrFeeTotalOverflow)"
  using assms by (auto simp: checkedAdd_def wrap64_id)


lemma feeFromRate_cases:
  assumes "0 \<le> u" "0 \<le> r" "int32 r"
  shows "feeFromRate u r =
    (if u * r div 10000 \<le> MaxInt64 then Inr (u * r div 10000) else Inl ErrFeeTotalOverflow)"
proof -
  define hi where "hi = (u div 10000) * r"
  define lo where "lo = (u mod 10000) * r div 10000"
  have r: "r \<le> 2147483647" using assms(3) by (simp add: int32_def)
  have "(u mod 10000) * r \<le> 9999 * 2147483647"
    using assms(1,2) r by (intro mult_mono) simp_all
  then have prod: "0 \<le> (u mod 10000) * r" "(u mod 10000) * r \<le> MaxInt64"
    using assms(2) by simp_all
  then have lo: "0 \<le> lo" "lo \<le> MaxInt64"
    unfolding lo_def by (auto intro: order_trans [OF zdiv_mono1 [of _ MaxInt64 10000]]
        simp: pos_imp_zdiv_nonneg_iff)
  have hi: "0 \<le> hi" unfolding hi_def using assms by (simp add: pos_imp_zdiv_nonneg_iff)
  have "wrap64 ((u mod 10000) * r) = (u mod 10000) * r"
    using prod by (intro wrap64_id) simp_all
  then have "feeFromRate u r = bindE (checkedMul (u div 10000) r) (\<lambda>h. checkedAdd h lo)"
    using assms(1,2) prod(1)
    by (simp add: feeFromRate_def lo_def sdiv_nonneg smod_nonneg del: mult_less_0_iff)
  also have "\<dots> = (if hi + lo \<le> MaxInt64 then Inr (hi + lo) else Inl ErrFeeTotalOverflow)"
  proof -
    have m: "checkedMul (u div 10000) r = (if hi \<le> MaxInt64 then Inr hi else Inl ErrFeeTotalOverflow)"
      unfolding hi_def using assms(1,2) by (intro checkedMul_cases) (simp_all add: pos_imp_zdiv_nonneg_iff)
    show ?thesis
    proof (cases "hi \<le> MaxInt64")
      case True
      then show ?thesis by (simp only: m bindE_simps if_True checkedAdd_cases [OF hi lo])
    next
      case False
      with lo(1) have "\<not> hi + lo \<le> MaxInt64" by linarith
      with False show ?thesis by (simp only: m bindE_simps if_False)
    qed
  qed
  finally show ?thesis unfolding hi_def lo_def rate_decomposition [of u r, symmetric] .
qed

interpretation fee_add: checked_add checkedAdd
  by unfold_locales (simp_all add: checkedAdd_cases)

section \<open>The composition loop\<close>

text \<open>
  The body of the loop up to the checked \<open>amount\<close>: the currency check, the switch on
  the basis, and the refusal of a negative amount.
\<close>

definition lineAmount :: "resolvedFeeRule \<Rightarrow> int \<Rightarrow> int \<Rightarrow> string \<Rightarrow> resolve_error + int" where
  "lineAmount w unitFace q currency =
     (if rwCurrency w \<noteq> currency
      then Inl (ErrResolveUnusable (''fee '' @ rwFeeCode w @ '' is '' @ rwCurrency w @
                  '', the sale is '' @ currency))
      else bindE
        (if rwBasis w = basisPerTicketFixed then
           (case rwAmount w of
              None \<Rightarrow> Inl (ErrResolveUnusable (rwBasis w @ '' carries no amount''))
            | Some a \<Rightarrow> checkedMul a q)
         else if rwBasis w = basisPerOrderFixed then
           (case rwAmount w of
              None \<Rightarrow> Inl (ErrResolveUnusable (rwBasis w @ '' carries no amount''))
            | Some a \<Rightarrow> Inr a)
         else if rwBasis w = basisPercentageBps then
           (case rwRateBps w of
              None \<Rightarrow> Inl (ErrResolveUnusable (rwBasis w @ '' carries no rate''))
            | Some b \<Rightarrow> bindE (feeFromRate unitFace b) (\<lambda>perTicket. checkedMul perTicket q))
         else Inl (ErrResolveUnusable (''unsupported fee basis '' @ rwBasis w)))
        (\<lambda>amount.
          if amount < 0 then Inl (ErrResolveUnusable (''negative fee '' @ rwFeeCode w))
          else Inr amount))"

definition itemOf :: "resolvedFeeRule \<Rightarrow> int \<Rightarrow> feeBreakdownItem" where
  "itemOf w amount =
     \<lparr>biFeeCode = rwFeeCode w, biBasis = rwBasis w, biIncidence = rwIncidence w,
      biAmount = amount, biCurrency = rwCurrency w\<rparr>"

definition addItem :: "resolvedFeeRule \<Rightarrow> int \<Rightarrow> feeComposition \<Rightarrow> resolve_error + feeComposition" where
  "addItem w amount c =
     (let out = c\<lparr>coItems := coItems c @ [itemOf w amount]\<rparr> in
      if rwIncidence w = incidencePassedOn then
        bindE (checkedAdd (coPassedOnTotal out) amount) (\<lambda>t. Inr (out\<lparr>coPassedOnTotal := t\<rparr>))
      else if rwIncidence w = incidenceAbsorbed then
        bindE (checkedAdd (coAbsorbedTotal out) amount) (\<lambda>t. Inr (out\<lparr>coAbsorbedTotal := t\<rparr>))
      else Inl (ErrResolveUnusable (''unknown incidence '' @ rwIncidence w)))"

definition composeStep ::
  "int \<Rightarrow> int \<Rightarrow> string \<Rightarrow> resolvedFeeCode \<Rightarrow> feeComposition \<Rightarrow> resolve_error + feeComposition" where
  "composeStep unitFace q currency f out =
     (case rcWinner f of
        None \<Rightarrow> Inr out
      | Some w \<Rightarrow> bindE (lineAmount w unitFace q currency) (\<lambda>amount. addItem w amount out))"

definition computeFeeBreakdown ::
  "resolvedFeeCode list \<Rightarrow> int \<Rightarrow> int \<Rightarrow> string \<Rightarrow> resolve_error + feeComposition" where
  "computeFeeBreakdown fees unitFace quantity currency =
     (if quantity < 1 then Inl ErrFeeTotalOverflow
      else foldE (composeStep unitFace quantity currency) fees
             \<lparr>coItems = [], coPassedOnTotal = 0, coAbsorbedTotal = 0\<rparr>)"

definition composedTotal :: "int \<Rightarrow> int \<Rightarrow> resolve_error + int" where
  "composedTotal faceValue passedOn = checkedAdd faceValue passedOn"

section \<open>What a composition must be\<close>

text \<open>
  The reference: unbounded integers, no loop, no order. \<open>exactAmount\<close> is the amount a
  rule charges for \<open>q\<close> tickets, \<open>floor(face * rate / 10000)\<close> per ticket for a
  percentage.
\<close>

definition exactAmount :: "resolvedFeeRule \<Rightarrow> int \<Rightarrow> int \<Rightarrow> int option" where
  "exactAmount w face q =
     (if rwBasis w = basisPerTicketFixed then map_option (\<lambda>a. a * q) (rwAmount w)
      else if rwBasis w = basisPerOrderFixed then rwAmount w
      else if rwBasis w = basisPercentageBps then map_option (\<lambda>b. face * b div 10000 * q) (rwRateBps w)
      else None)"

definition charge :: "int \<Rightarrow> int \<Rightarrow> resolvedFeeRule \<Rightarrow> int" where
  "charge face q w = (case exactAmount w face q of None \<Rightarrow> 0 | Some a \<Rightarrow> a)"

definition winners :: "resolvedFeeCode list \<Rightarrow> resolvedFeeRule list" where
  "winners fees = List.map_filter rcWinner fees"

definition feesOf :: "string \<Rightarrow> resolvedFeeCode list \<Rightarrow> resolvedFeeRule list" where
  "feesOf inc fees = filter (\<lambda>w. rwIncidence w = inc) (winners fees)"

definition incidenceSum :: "string \<Rightarrow> resolvedFeeCode list \<Rightarrow> int \<Rightarrow> int \<Rightarrow> int" where
  "incidenceSum inc fees face q = sum_list (map (charge face q) (feesOf inc fees))"

definition composition :: "resolvedFeeCode list \<Rightarrow> int \<Rightarrow> int \<Rightarrow> feeComposition" where
  "composition fees face q =
     \<lparr>coItems = map (\<lambda>w. itemOf w (charge face q w)) (winners fees),
      coPassedOnTotal = incidenceSum incidencePassedOn fees face q,
      coAbsorbedTotal = incidenceSum incidenceAbsorbed fees face q\<rparr>"

text \<open>The ranges the Go types give the decoded pointers.\<close>

definition machineRule :: "resolvedFeeRule \<Rightarrow> bool" where
  "machineRule w \<longleftrightarrow> (\<forall>a \<in> set_option (rwAmount w). int64 a) \<and> (\<forall>b \<in> set_option (rwRateBps w). int32 b)"

lemma winners_simps [simp]:
  "winners [] = []"
  "winners (f # fs) = (case rcWinner f of None \<Rightarrow> winners fs | Some w \<Rightarrow> w # winners fs)"
  by (simp_all add: winners_def map_filter_simps split: option.splits)

lemma set_winners: "w \<in> set (winners fees) \<longleftrightarrow> (\<exists>f \<in> set fees. rcWinner f = Some w)"
  by (induction fees) (auto split: option.splits)

lemma incidenceSum_simps [simp]:
  "incidenceSum inc [] face q = 0"
  "incidenceSum inc (f # fs) face q =
     (case rcWinner f of
        Some w \<Rightarrow> (if rwIncidence w = inc then charge face q w else 0) + incidenceSum inc fs face q
      | None \<Rightarrow> incidenceSum inc fs face q)"
  by (simp_all add: incidenceSum_def feesOf_def split: option.splits)

lemma incidenceSum_nonneg:
  assumes "\<And>w. w \<in> set (winners fees) \<Longrightarrow> 0 \<le> charge face q w"
  shows "0 \<le> incidenceSum inc fees face q"
  using assms by (auto simp: incidenceSum_def feesOf_def intro!: sum_list_nonneg)

lemma lineAmount_Inr:
  assumes "lineAmount w face q currency = Inr a" and "machineRule w" and "1 \<le> q"
  shows "rwCurrency w = currency" and "exactAmount w face q = Some a" and "0 \<le> a" and "a \<le> MaxInt64"
proof -
  have mul: "r = x * q \<and> x * q \<le> MaxInt64" if "checkedMul x q = Inr r" for x r
  proof -
    have "0 \<le> x" using that by (cases "x < 0") (simp_all add: checkedMul_def)
    then show ?thesis using that checkedMul_cases [of x q] assms(3) by (simp split: if_splits)
  qed
  have rate: "r = face * b div 10000" if "feeFromRate face b = Inr r" "int32 b" for b r
  proof -
    have "0 \<le> face" "0 \<le> b" using that(1) by (auto simp: feeFromRate_def split: if_splits)
    then show ?thesis using that feeFromRate_cases [of face b] by (simp split: if_splits)
  qed
  show "rwCurrency w = currency" using assms(1) by (simp add: lineAmount_def split: if_splits)
  show "0 \<le> a" using assms(1) by (auto simp: lineAmount_def bindE_Inr_iff split: if_splits)
  show "exactAmount w face q = Some a"
    using assms(1,2) mul rate
    by (auto simp: lineAmount_def exactAmount_def machineRule_def bindE_Inr_iff
        split: if_splits option.splits)
  show "a \<le> MaxInt64"
    using assms(1,2) mul
    by (auto simp: lineAmount_def machineRule_def int64_def bindE_Inr_iff
        split: if_splits option.splits)
qed

definition extended :: "feeComposition \<Rightarrow> resolvedFeeCode list \<Rightarrow> int \<Rightarrow> int \<Rightarrow> feeComposition" where
  "extended out fees face q =
     \<lparr>coItems = coItems out @ map (\<lambda>w. itemOf w (charge face q w)) (winners fees),
      coPassedOnTotal = coPassedOnTotal out + incidenceSum incidencePassedOn fees face q,
      coAbsorbedTotal = coAbsorbedTotal out + incidenceSum incidenceAbsorbed fees face q\<rparr>"

definition fitsFrom :: "feeComposition \<Rightarrow> resolvedFeeCode list \<Rightarrow> int \<Rightarrow> int \<Rightarrow> bool" where
  "fitsFrom out fees face q \<longleftrightarrow>
     coPassedOnTotal out + incidenceSum incidencePassedOn fees face q \<le> MaxInt64 \<and>
     coAbsorbedTotal out + incidenceSum incidenceAbsorbed fees face q \<le> MaxInt64"

text \<open>What one live rule must satisfy for the loop to charge it.\<close>

definition chargeable :: "int \<Rightarrow> int \<Rightarrow> string \<Rightarrow> resolvedFeeRule \<Rightarrow> bool" where
  "chargeable face q currency w \<longleftrightarrow>
     lineAmount w face q currency = Inr (charge face q w) \<and>
     rwIncidence w \<in> {incidencePassedOn, incidenceAbsorbed}"

definition fitsItem :: "resolvedFeeRule \<Rightarrow> int \<Rightarrow> feeComposition \<Rightarrow> bool" where
  "fitsItem w a out \<longleftrightarrow>
     rwIncidence w \<in> {incidencePassedOn, incidenceAbsorbed} \<and>
     (rwIncidence w = incidencePassedOn \<longrightarrow> coPassedOnTotal out + a \<le> MaxInt64) \<and>
     (rwIncidence w = incidenceAbsorbed \<longrightarrow> coAbsorbedTotal out + a \<le> MaxInt64)"

definition addedItem :: "resolvedFeeRule \<Rightarrow> int \<Rightarrow> feeComposition \<Rightarrow> feeComposition" where
  "addedItem w a out =
     \<lparr>coItems = coItems out @ [itemOf w a],
      coPassedOnTotal = coPassedOnTotal out + (if rwIncidence w = incidencePassedOn then a else 0),
      coAbsorbedTotal = coAbsorbedTotal out + (if rwIncidence w = incidenceAbsorbed then a else 0)\<rparr>"

lemma addItem_Inr_iff:
  assumes "0 \<le> coPassedOnTotal out" "0 \<le> coAbsorbedTotal out" "0 \<le> a" "a \<le> MaxInt64"
  shows "addItem w a out = Inr c \<longleftrightarrow> fitsItem w a out \<and> c = addedItem w a out"
  using assms
  by (cases out; cases "rwIncidence w = incidencePassedOn"; cases "rwIncidence w = incidenceAbsorbed")
     (auto simp: addItem_def fitsItem_def addedItem_def Let_def bindE_Inr_iff checkedAdd_cases)

lemma compose_Inr_iff:
  assumes "0 \<le> coPassedOnTotal out" "0 \<le> coAbsorbedTotal out" "1 \<le> q"
    and "coPassedOnTotal out \<le> MaxInt64" "coAbsorbedTotal out \<le> MaxInt64"
    and "\<And>w. w \<in> set (winners fees) \<Longrightarrow> machineRule w"
  shows "foldE (composeStep face q currency) fees out = Inr c \<longleftrightarrow>
    (\<forall>w \<in> set (winners fees). chargeable face q currency w) \<and> fitsFrom out fees face q \<and>
    c = extended out fees face q"
  using assms
proof (induction fees arbitrary: out)
  case Nil
  then show ?case by (cases out) (auto simp: fitsFrom_def extended_def)
next
  case (Cons f fs)
  show ?case
  proof (cases "rcWinner f")
    case None
    then show ?thesis using Cons by (simp add: composeStep_def fitsFrom_def extended_def)
  next
    case (Some w)
    have mw: "machineRule w" and mfs: "\<And>w. w \<in> set (winners fs) \<Longrightarrow> machineRule w"
      using Cons.prems(6) Some by simp_all
    have ch: "lineAmount w face q currency = Inr a \<Longrightarrow>
        0 \<le> a \<and> a \<le> MaxInt64 \<and> charge face q w = a" for a
      using lineAmount_Inr [OF _ mw Cons.prems(3)] by (simp add: charge_def)
    show ?thesis
    proof (cases "lineAmount w face q currency")
      case (Inl e)
      then show ?thesis using Some by (simp add: composeStep_def chargeable_def)
    next
      case (Inr a)
      note a = ch [OF Inr]
      show ?thesis
      proof (cases "addItem w a out")
        case (Inl e)
        then have fails: "\<not> fitsItem w a out"
          using addItem_Inr_iff [OF Cons.prems(1,2), of a w "addedItem w a out"] a by simp
        have nn: "chargeable face q currency v \<Longrightarrow> v \<in> set (winners fs) \<Longrightarrow> 0 \<le> charge face q v" for v
          using lineAmount_Inr(3) [OF _ mfs Cons.prems(3)] by (auto simp: chargeable_def)
        have "\<not> ((\<forall>v \<in> set (w # winners fs). chargeable face q currency v) \<and> fitsFrom out (f # fs) face q)"
        proof
          assume all: "(\<forall>v \<in> set (w # winners fs). chargeable face q currency v) \<and> fitsFrom out (f # fs) face q"
          then have "0 \<le> incidenceSum inc fs face q" for inc
            by (intro incidenceSum_nonneg nn) auto
          from this [of incidencePassedOn] this [of incidenceAbsorbed] all
          show False using fails a Some
            by (auto simp: chargeable_def fitsFrom_def fitsItem_def)
        qed
        then show ?thesis using Some Inr Inl by (auto simp: composeStep_def simp del: incidenceSum_simps)
      next
        case (Inr out')
        then have o: "fitsItem w a out" "out' = addedItem w a out"
          using addItem_Inr_iff [OF Cons.prems(1,2), of a w] a by simp_all
        have "foldE (composeStep face q currency) (f # fs) out = foldE (composeStep face q currency) fs out'"
          using Some Inr \<open>lineAmount w face q currency = Inr a\<close> by (simp add: composeStep_def)
        moreover have "foldE (composeStep face q currency) fs out' = Inr c \<longleftrightarrow>
            (\<forall>w \<in> set (winners fs). chargeable face q currency w) \<and> fitsFrom out' fs face q \<and>
            c = extended out' fs face q"
          by (rule Cons.IH) (use o Cons.prems mfs a in \<open>auto simp: fitsItem_def addedItem_def\<close>)
        moreover have "chargeable face q currency w"
          using a o(1) \<open>lineAmount w face q currency = Inr a\<close> by (simp add: chargeable_def fitsItem_def)
        moreover have "fitsFrom out' fs face q = fitsFrom out (f # fs) face q"
          using Some o(2) a by (simp add: fitsFrom_def addedItem_def add.assoc)
        moreover have "extended out' fs face q = extended out (f # fs) face q"
          using Some o(2) a by (simp add: extended_def addedItem_def add.assoc)
        ultimately show ?thesis using Some by simp
      qed
    qed
  qed
qed

section \<open>The accepted document\<close>

text \<open>
  The parts of catalog's document that the persisted snapshot keeps and later readers
  decode (\<open>settlementPlanFromSnapshot\<close>, \<open>validatePartnerCommission\<close>): for every fee code,
  how its split resolved and which payees the winning schedule names. Payee ids are
  text on the wire.
\<close>

record payeeDoc =
  pdPayeeID :: string
  pdKind :: string
  pdDisplayName :: string
  pdExternalReference :: "string option"

record partDoc =
  pdPayee :: payeeDoc
  pdShareBps :: int

record winnerDoc =
  wdChannelCode :: "string option"
  wdParts :: "partDoc list"

record feeDoc =
  fdocFeeCode :: string
  fdocMode :: string
  fdocWinner :: "winnerDoc option"

text \<open>\<open>feeResolution\<close>; \<open>fnRaw\<close> is what the verbatim \<open>raw\<close> bytes say.\<close>

record feeResolution =
  fnResolverVersion :: int
  fnEvaluatedAt :: time
  fnOrganizerID :: uuid
  fnPerformanceID :: uuid
  fnCurrency :: string
  fnChannelCode :: "string option"
  fnFees :: "resolvedFeeCode list"
  fnRaw :: "feeDoc list"

definition isISO4217 :: "string \<Rightarrow> bool" where
  "isISO4217 c \<longleftrightarrow> length c = 3 \<and> (\<forall>x \<in> set c. CHR ''A'' \<le> x \<and> x \<le> CHR ''Z'')"

definition checkFeeValue :: "resolvedFeeRule \<Rightarrow> resolve_error option" where
  "checkFeeValue w =
     (if rwBasis w = basisPerTicketFixed \<or> rwBasis w = basisPerOrderFixed then
        (case rwAmount w of
           None \<Rightarrow> Some (ErrResolveUnusable (rwBasis w @ '' carries no amount''))
         | Some a \<Rightarrow>
             if rwRateBps w \<noteq> None
             then Some (ErrResolveUnusable (rwBasis w @ '' carries a rate as well as an amount''))
             else if a < 0 \<or> a > maxContractAmount
             then Some (ErrResolveUnusable ''fee amount is outside the contract's Money range'')
             else None)
      else if rwBasis w = basisPercentageBps then
        (case rwRateBps w of
           None \<Rightarrow> Some (ErrResolveUnusable ''percentage_bps carries no rate'')
         | Some b \<Rightarrow>
             if rwAmount w \<noteq> None
             then Some (ErrResolveUnusable ''percentage_bps carries an amount as well as a rate'')
             else if b < 0 \<or> b > 10000
             then Some (ErrResolveUnusable ''rate_bps outside 0..10000'')
             else None)
      else Some (ErrResolveUnusable (''unsupported fee basis '' @ rwBasis w)))"

text \<open>The loop of \<open>validate\<close> over the fee codes; \<open>seen\<close> is the set of codes met so far.\<close>

fun checkFees :: "string list \<Rightarrow> resolvedFeeCode list \<Rightarrow> resolve_error option" where
  "checkFees seen [] = None"
| "checkFees seen (c # cs) =
     (if rcFeeCode c = '''' then Some (ErrResolveUnusable ''a fee code is empty'')
      else if rcFeeCode c \<in> set seen
      then Some (ErrResolveUnusable (''duplicate fee code '' @ rcFeeCode c))
      else (case rcWinner c of
              None \<Rightarrow> checkFees (rcFeeCode c # seen) cs
            | Some w \<Rightarrow>
                if rwFeeCode w \<noteq> rcFeeCode c
                then Some (ErrResolveUnusable ''winner's fee code disagrees with its resolution entry'')
                else if rwRuleID w = uuid_Nil
                then Some (ErrResolveUnusable ''winner is missing its identity'')
                else (case checkFeeValue w of
                        Some e \<Rightarrow> Some e
                      | None \<Rightarrow>
                          if rwIncidence w \<noteq> incidencePassedOn \<and> rwIncidence w \<noteq> incidenceAbsorbed
                          then Some (ErrResolveUnusable (''unknown incidence '' @ rwIncidence w))
                          else if \<not> isISO4217 (rwCurrency w)
                          then Some (ErrResolveUnusable ''fee rule carries a malformed currency'')
                          else checkFees (rcFeeCode c # seen) cs)))"

definition validateFees ::
  "feeResolution \<Rightarrow> uuid \<Rightarrow> uuid \<Rightarrow> string option \<Rightarrow> resolve_error option" where
  "validateFees f organizerID performanceID channel =
     (if fnResolverVersion f < 1 then Some (ErrResolveUnusable ''fee resolver_version below 1'')
      else if IsZero (fnEvaluatedAt f) then Some (ErrResolveUnusable ''missing evaluated_at'')
      else if fnOrganizerID f \<noteq> organizerID
      then Some (ErrResolveUnusable ''fee resolution is for a different organizer'')
      else if fnPerformanceID f = uuid_Nil
      then Some (ErrResolveUnusable ''fee resolution names no performance'')
      else if fnPerformanceID f \<noteq> performanceID
      then Some (ErrResolveUnusable ''fee resolution is for a different performance'')
      else if \<not> isISO4217 (fnCurrency f)
      then Some (ErrResolveUnusable ''fee resolution carries a malformed currency'')
      else if channel = None \<and> fnChannelCode f \<noteq> None
      then Some (ErrResolveUnusable ''resolution echoes a channel the sale did not request'')
      else if channel \<noteq> None \<and> (fnChannelCode f = None \<or> the (fnChannelCode f) \<noteq> the channel)
      then Some (ErrResolveUnusable ''resolution echoes a different channel'')
      else checkFees [] (fnFees f))"

text \<open>What \<open>validate\<close> leaves of a winner.\<close>

definition validRule :: "resolvedFeeRule \<Rightarrow> bool" where
  "validRule w \<longleftrightarrow> rwRuleID w \<noteq> uuid_Nil \<and> checkFeeValue w = None \<and>
     rwIncidence w \<in> {incidencePassedOn, incidenceAbsorbed} \<and> isISO4217 (rwCurrency w)"

lemma checkFees_None_iff:
  "checkFees seen cs = None \<longleftrightarrow>
     distinct (map rcFeeCode cs) \<and> set (map rcFeeCode cs) \<inter> set seen = {} \<and>
     (\<forall>c \<in> set cs. rcFeeCode c \<noteq> '''' \<and>
        (\<forall>w. rcWinner c = Some w \<longrightarrow> rwFeeCode w = rcFeeCode c \<and> validRule w))"
proof (induction seen cs rule: checkFees.induct)
  case (2 seen c cs)
  show ?case
    using 2 by (cases "rcWinner c") (auto simp: validRule_def split: option.splits)
qed simp

lemma validRule_machine: "validRule w \<Longrightarrow> machineRule w"
  by (auto simp: validRule_def checkFeeValue_def machineRule_def maxContractAmount_def int64_def
      int32_def split: if_splits option.splits)

lemma validRule_exact:
  assumes "validRule w" and "0 \<le> face" and "0 \<le> q"
  shows "\<exists>a. exactAmount w face q = Some a \<and> 0 \<le> a"
  using assms
  by (auto simp: validRule_def checkFeeValue_def exactAmount_def pos_imp_zdiv_nonneg_iff
      split: if_splits option.splits)

lemma validateFees_winners:
  assumes "validateFees f org perf ch = None" and "w \<in> set (winners (fnFees f))"
  shows "validRule w"
proof -
  have "checkFees [] (fnFees f) = None"
    using assms(1) by (simp add: validateFees_def split: if_splits)
  then show ?thesis using assms(2) by (auto simp: checkFees_None_iff set_winners)
qed

lemma validateFees_distinct:
  "validateFees f org perf ch = None \<Longrightarrow> distinct (map rcFeeCode (fnFees f))"
  by (auto simp: validateFees_def checkFees_None_iff split: if_splits)

lemma lineAmount_valid:
  assumes "validRule w" "rwCurrency w = currency" "0 \<le> face" "face \<le> MaxInt64" "1 \<le> q"
  shows "lineAmount w face q currency =
    (if charge face q w \<le> MaxInt64 then Inr (charge face q w) else Inl ErrFeeTotalOverflow)"
proof -
  have c: "checkFeeValue w = None" using assms(1) by (simp add: validRule_def)
  have mul: "bindE (checkedMul x q) (\<lambda>amount. if amount < 0 then Inl e else Inr amount) =
      (if x * q \<le> MaxInt64 then Inr (x * q) else Inl ErrFeeTotalOverflow)" if "0 \<le> x" for x e
  proof -
    have "0 \<le> x * q" using that assms(5) by simp
    then have "\<not> x * q < 0" by linarith
    then show ?thesis using checkedMul_cases [of x q] that assms(5) by simp
  qed
  consider (ticket) a where "rwBasis w = basisPerTicketFixed" "rwAmount w = Some a" "0 \<le> a"
    | (order) a where "rwBasis w = basisPerOrderFixed" "rwAmount w = Some a" "0 \<le> a" "a \<le> MaxInt64"
    | (rate) b where "rwBasis w = basisPercentageBps" "rwRateBps w = Some b" "0 \<le> b" "b \<le> 10000"
    using c by (auto simp: checkFeeValue_def maxContractAmount_def split: if_splits option.splits)
  then show ?thesis
  proof cases
    case ticket
    then show ?thesis using assms(2) mul [of a] by (simp add: lineAmount_def charge_def exactAmount_def)
  next
    case order
    then show ?thesis using assms(2) by (simp add: lineAmount_def charge_def exactAmount_def)
  next
    case rate
    have t: "face * b div 10000 \<le> MaxInt64" "0 \<le> face * b div 10000"
      using rate_le [OF assms(3) rate(3,4)] assms(3,4) rate(3)
      by (simp_all add: pos_imp_zdiv_nonneg_iff)
    moreover have "int32 b" using rate by (simp add: int32_def)
    ultimately have "feeFromRate face b = Inr (face * b div 10000)"
      using feeFromRate_cases [OF assms(3) rate(3)] by simp
    then show ?thesis
      using assms(2) rate mul [OF t(2)] by (simp add: lineAmount_def charge_def exactAmount_def)
  qed
qed

lemma composeStep_valid_Inl:
  assumes "composeStep face q currency f out = Inl e"
    and "\<And>w. rcWinner f = Some w \<Longrightarrow> validRule w \<and> rwCurrency w = currency"
    and "0 \<le> face" "face \<le> MaxInt64" "1 \<le> q"
  shows "e = ErrFeeTotalOverflow"
proof -
  obtain w where w: "rcWinner f = Some w" "validRule w" "rwCurrency w = currency"
    using assms(1,2) by (auto simp: composeStep_def split: option.splits)
  have add: "checkedAdd a b = Inl e' \<Longrightarrow> e' = ErrFeeTotalOverflow" for a b e'
    by (auto simp: checkedAdd_def split: if_splits)
  show ?thesis
    using assms(1) w lineAmount_valid [OF w(2,3) assms(3-5)]
    by (auto simp: composeStep_def addItem_def validRule_def bindE_Inl_iff Let_def
        split: if_splits dest: add)
qed

text \<open>The empty composition the loop starts from.\<close>

abbreviation emptyComposition :: feeComposition where
  "emptyComposition \<equiv> \<lparr>coItems = [], coPassedOnTotal = 0, coAbsorbedTotal = 0\<rparr>"

definition fits :: "resolvedFeeCode list \<Rightarrow> int \<Rightarrow> int \<Rightarrow> bool" where
  "fits fees face q \<longleftrightarrow>
     incidenceSum incidencePassedOn fees face q \<le> MaxInt64 \<and>
     incidenceSum incidenceAbsorbed fees face q \<le> MaxInt64"

lemma extended_empty [simp]: "extended emptyComposition fees face q = composition fees face q"
  by (simp add: extended_def composition_def)

lemma fitsFrom_empty [simp]: "fitsFrom emptyComposition fees face q = fits fees face q"
  by (simp add: fitsFrom_def fits_def)

lemma breakdown_Inr_iff:
  assumes "\<And>w. w \<in> set (winners fees) \<Longrightarrow> machineRule w"
  shows "computeFeeBreakdown fees face q currency = Inr c \<longleftrightarrow>
    1 \<le> q \<and> (\<forall>w \<in> set (winners fees). chargeable face q currency w) \<and> fits fees face q \<and>
    c = composition fees face q"
  using compose_Inr_iff [of emptyComposition q fees face currency c] assms
  by (auto simp: computeFeeBreakdown_def)

lemma charge_nonneg: "validRule w \<Longrightarrow> 0 \<le> face \<Longrightarrow> 0 \<le> q \<Longrightarrow> 0 \<le> charge face q w"
  using validRule_exact [of w face q] by (auto simp: charge_def)

lemma charge_le_sum:
  assumes "\<And>w. w \<in> set (winners fees) \<Longrightarrow> validRule w" "0 \<le> face" "0 \<le> q"
    and "w \<in> set (winners fees)"
  shows "charge face q w \<le> incidenceSum (rwIncidence w) fees face q"
  unfolding incidenceSum_def
  using assms by (intro le_sum_list_nonneg) (auto simp: feesOf_def intro: charge_nonneg)

lemma breakdown_valid:
  assumes v: "\<And>w. w \<in> set (winners fees) \<Longrightarrow> validRule w \<and> rwCurrency w = currency"
    and face: "0 \<le> face" "face \<le> MaxInt64" and q: "1 \<le> q"
  shows "computeFeeBreakdown fees face q currency =
    (if fits fees face q then Inr (composition fees face q) else Inl ErrFeeTotalOverflow)"
proof (cases "fits fees face q")
  case True
  have "chargeable face q currency w" if w: "w \<in> set (winners fees)" for w
  proof -
    have inc: "rwIncidence w \<in> {incidencePassedOn, incidenceAbsorbed}"
      using v [OF w] by (auto simp: validRule_def)
    then have "charge face q w \<le> MaxInt64"
      using charge_le_sum [of fees face q w] True v w face q by (force simp: fits_def)
    then show ?thesis using lineAmount_valid [of w currency face q] v [OF w] face q inc
      by (simp add: chargeable_def)
  qed
  then show ?thesis
    using breakdown_Inr_iff [of fees face q currency] True v q validRule_machine by simp
next
  case False
  obtain e where e: "computeFeeBreakdown fees face q currency = Inl e"
    using breakdown_Inr_iff [of fees face q currency] False v validRule_machine
    by (cases "computeFeeBreakdown fees face q currency") auto
  then obtain f out where "f \<in> set fees" "composeStep face q currency f out = Inl e"
    using q foldE_Inl by (fastforce simp: computeFeeBreakdown_def)
  then have "e = ErrFeeTotalOverflow"
    using composeStep_valid_Inl [of face q currency f out e] v face q by (auto simp: set_winners)
  then show ?thesis using e False by simp
qed

lemma charge_mono:
  assumes "validRule w" "0 \<le> face" "0 \<le> q'" "q' \<le> q"
  shows "charge face q' w \<le> charge face q w"
  using assms
  by (auto simp: validRule_def checkFeeValue_def charge_def exactAmount_def mult_left_mono
      pos_imp_zdiv_nonneg_iff split: if_splits option.splits)

lemma incidenceSum_mono:
  assumes "\<And>w. w \<in> set (winners fees) \<Longrightarrow> validRule w" "0 \<le> face" "0 \<le> q'" "q' \<le> q"
  shows "incidenceSum inc fees face q' \<le> incidenceSum inc fees face q"
  unfolding incidenceSum_def
  using assms by (intro sum_list_mono charge_mono) (auto simp: feesOf_def)

lemma fits_mono:
  assumes "\<And>w. w \<in> set (winners fees) \<Longrightarrow> validRule w" "0 \<le> face" "0 \<le> q'" "q' \<le> q"
    and "fits fees face q"
  shows "fits fees face q'"
  using assms(5) incidenceSum_mono [OF assms(1-4)] by (fastforce simp: fits_def intro: order_trans)

lemma charge_add:
  assumes "validRule w" "rwBasis w \<noteq> basisPerOrderFixed"
  shows "charge face (q1 + q2) w = charge face q1 w + charge face q2 w"
  using assms
  by (auto simp: validRule_def checkFeeValue_def charge_def exactAmount_def distrib_left
      split: if_splits option.splits)

lemma incidenceSum_add:
  assumes "\<And>w. w \<in> set (winners fees) \<Longrightarrow> validRule w \<and> rwBasis w \<noteq> basisPerOrderFixed"
  shows "incidenceSum inc fees face (q1 + q2) = incidenceSum inc fees face q1 + incidenceSum inc fees face q2"
proof -
  have "map (charge face (q1 + q2)) (feesOf inc fees) =
      map (\<lambda>w. charge face q1 w + charge face q2 w) (feesOf inc fees)"
    using assms charge_add by (auto simp: feesOf_def)
  then show ?thesis by (simp only: incidenceSum_def sum_list_addf)
qed

lemma breakdown_Inr_currency:
  assumes "computeFeeBreakdown fees face q currency = Inr c"
    and "\<And>w. w \<in> set (winners fees) \<Longrightarrow> machineRule w" and "w \<in> set (winners fees)"
  shows "rwCurrency w = currency"
proof -
  have "chargeable face q currency w" "1 \<le> q"
    using assms breakdown_Inr_iff [of fees face q currency c] by blast+
  then show ?thesis using lineAmount_Inr(1) [of w face q currency] assms(2,3)
    by (auto simp: chargeable_def)
qed

section \<open>Properties\<close>

text \<open>
  A percentage fee is \<open>floor(unitFace * rateBps / 10000)\<close> exactly, for every
  non-negative \<open>int64\<close> face and every non-negative \<open>int32\<close> rate: the decomposition
  refuses only a fee that no \<open>int64\<close> can hold, never one whose product overflows on
  the way.
\<close>

theorem fee_rate_exact:
  assumes "int64 u" and "0 \<le> u" and "int32 r" and "0 \<le> r"
  shows "feeFromRate u r =
    (if u * r div 10000 \<le> MaxInt64 then Inr (u * r div 10000) else Inl ErrFeeTotalOverflow)"
  using feeFromRate_cases [OF assms(2,4,3)] .

theorem fee_rate_exact_witness:
  "feeFromRate 9223372036854775807 10000 = Inr 9223372036854775807"
  using fee_rate_exact [of 9223372036854775807 10000] by (simp add: int64_def int32_def)

definition demoResolvedRule :: "string \<Rightarrow> string \<Rightarrow> int option \<Rightarrow> int option \<Rightarrow> string \<Rightarrow> resolvedFeeRule" where
  "demoResolvedRule code basis amount rate inc =
     \<lparr>rwRuleID = 5, rwFeeCode = code, rwBasis = basis, rwAmount = amount, rwRateBps = rate,
      rwCurrency = ''EUR'', rwIncidence = inc\<rparr>"

definition demoFees :: "resolvedFeeCode list" where
  "demoFees =
     [\<lparr>rcFeeCode = ''svc'', rcWinner = Some (demoResolvedRule ''svc'' basisPercentageBps None (Some 333) incidencePassedOn)\<rparr>,
      \<lparr>rcFeeCode = ''tax'', rcWinner = None\<rparr>,
      \<lparr>rcFeeCode = ''psp'', rcWinner = Some (demoResolvedRule ''psp'' basisPerTicketFixed (Some 30) None incidenceAbsorbed)\<rparr>]"

definition demoFeeResolution :: feeResolution where
  "demoFeeResolution =
     \<lparr>fnResolverVersion = 2, fnEvaluatedAt = 100, fnOrganizerID = 9, fnPerformanceID = 2,
      fnCurrency = ''EUR'', fnChannelCode = None, fnFees = demoFees,
      fnRaw = [\<lparr>fdocFeeCode = ''svc'', fdocMode = ''split'',
        fdocWinner = Some \<lparr>wdChannelCode = None,
          wdParts = [\<lparr>pdPayee = \<lparr>pdPayeeID = uuid_String 7, pdKind = ''venue'', pdDisplayName = ''Hall'',
                               pdExternalReference = None\<rparr>, pdShareBps = 10000\<rparr>]\<rparr>\<rparr>]\<rparr>"

lemmas demo_charge_defs = demoFeeResolution_def demoFees_def demoResolvedRule_def

lemma demo_isISO4217: "isISO4217 ''EUR''"
  by (simp add: isISO4217_def less_eq_char_def)

lemma demo_validates: "validateFees demoFeeResolution 9 2 None = None"
  by (simp add: validateFees_def demo_charge_defs IsZero_def checkFeeValue_def
      maxContractAmount_def demo_isISO4217)

lemma demo_winners: "w \<in> set (winners demoFees) \<Longrightarrow> validRule w \<and> rwCurrency w = ''EUR''"
  using validateFees_winners [OF demo_validates, of w]
  by (auto simp: demo_charge_defs)

text \<open>
  C30: a document \<open>validate\<close> accepted, in the sale's currency, is composed exactly. The
  items are one per live rule in the document's order, each with the exact unbounded
  amount of its basis; the totals are the sums of the passed-on and of the absorbed
  items; and the only failure left is a total that no \<open>int64\<close> can hold.
\<close>

theorem validated_fees_compose_exactly:
  assumes "validateFees f org perf ch = None"
    and "\<forall>w \<in> set (winners (fnFees f)). rwCurrency w = currency"
    and "0 \<le> face" "face \<le> MaxInt64" "1 \<le> q"
  shows "computeFeeBreakdown (fnFees f) face q currency =
    (if incidenceSum incidencePassedOn (fnFees f) face q \<le> MaxInt64 \<and>
        incidenceSum incidenceAbsorbed (fnFees f) face q \<le> MaxInt64
     then Inr \<lparr>coItems = map (\<lambda>w. itemOf w (charge face q w)) (winners (fnFees f)),
               coPassedOnTotal = incidenceSum incidencePassedOn (fnFees f) face q,
               coAbsorbedTotal = incidenceSum incidenceAbsorbed (fnFees f) face q\<rparr>
     else Inl ErrFeeTotalOverflow)"
  using breakdown_valid [of "fnFees f" currency face q] validateFees_winners [OF assms(1)] assms(2-5)
  by (simp add: fits_def composition_def)

theorem validated_fees_compose_exactly_witness:
  "computeFeeBreakdown demoFees 6000 3 ''EUR'' =
     Inr \<lparr>coItems = [itemOf (demoResolvedRule ''svc'' basisPercentageBps None (Some 333) incidencePassedOn) 597,
                     itemOf (demoResolvedRule ''psp'' basisPerTicketFixed (Some 30) None incidenceAbsorbed) 90],
          coPassedOnTotal = 597, coAbsorbedTotal = 90\<rparr>"
  using validated_fees_compose_exactly [OF demo_validates, of "''EUR''" 6000 3] demo_winners
  by (simp add: demo_charge_defs charge_def exactAmount_def)

text \<open>
  No composition ever carries a wrapped number. Whatever document it is given,
  validated or not, a breakdown that succeeds lists the exact amount of each live rule,
  every one of them in the sale's currency and between 0 and the largest \<open>int64\<close>, and its
  totals are the true sums over its own items.
\<close>

theorem composition_never_wraps:
  assumes "computeFeeBreakdown fees face q currency = Inr c"
    and "\<forall>w \<in> set (winners fees). machineRule w"
  shows "list_all2 (\<lambda>w i. rwCurrency w = currency \<and> exactAmount w face q = Some (biAmount i) \<and>
            biFeeCode i = rwFeeCode w \<and> biIncidence i = rwIncidence w \<and>
            0 \<le> biAmount i \<and> biAmount i \<le> MaxInt64) (winners fees) (coItems c) \<and>
    coPassedOnTotal c = sum_list (map biAmount (filter (\<lambda>i. biIncidence i = incidencePassedOn) (coItems c))) \<and>
    coAbsorbedTotal c = sum_list (map biAmount (filter (\<lambda>i. biIncidence i = incidenceAbsorbed) (coItems c))) \<and>
    coPassedOnTotal c \<le> MaxInt64 \<and> coAbsorbedTotal c \<le> MaxInt64"
proof -
  have q: "1 \<le> q" and ch: "\<And>w. w \<in> set (winners fees) \<Longrightarrow> chargeable face q currency w"
    and ft: "fits fees face q" and c: "c = composition fees face q"
    using breakdown_Inr_iff [of fees face q currency c] assms by auto
  have "rwCurrency w = currency \<and> exactAmount w face q = Some (charge face q w) \<and>
      0 \<le> charge face q w \<and> charge face q w \<le> MaxInt64" if w: "w \<in> set (winners fees)" for w
    using lineAmount_Inr [OF _ _ q, of w face currency "charge face q w"] ch [OF w] assms(2) w
    by (simp add: chargeable_def)
  then have "list_all2 (\<lambda>w i. rwCurrency w = currency \<and> exactAmount w face q = Some (biAmount i) \<and>
      biFeeCode i = rwFeeCode w \<and> biIncidence i = rwIncidence w \<and>
      0 \<le> biAmount i \<and> biAmount i \<le> MaxInt64) (winners fees) (coItems c)"
    by (auto simp: c composition_def itemOf_def list_all2_conv_all_nth)
  then show ?thesis using ft
    by (simp add: c composition_def fits_def incidenceSum_def feesOf_def filter_map o_def itemOf_def)
qed

theorem composition_never_wraps_witness:
  "\<exists>c. computeFeeBreakdown demoFees 6000 3 ''EUR'' = Inr c \<and> length (coItems c) = 2 \<and>
     coPassedOnTotal c \<le> MaxInt64"
proof (intro exI conjI)
  show ok: "computeFeeBreakdown demoFees 6000 3 ''EUR'' = Inr (composition demoFees 6000 3)"
    using breakdown_valid [of demoFees "''EUR''" 6000 3] demo_winners
    by (simp add: fits_def demo_charge_defs charge_def exactAmount_def)
  show "length (coItems (composition demoFees 6000 3)) = 2"
    by (simp add: composition_def demo_charge_defs)
  have "\<forall>w \<in> set (winners demoFees). machineRule w"
    using demo_winners validRule_machine by blast
  then show "coPassedOnTotal (composition demoFees 6000 3) \<le> MaxInt64"
    using composition_never_wraps [OF ok] by blast
qed

text \<open>
  A composition that fits at one quantity fits at every smaller one, and costs the
  buyer no more. This is the argument by which the check made before the hold, at the
  requested quantity, covers the composition made after it, at the claimed one.
\<close>

theorem composition_monotone_in_quantity:
  assumes "validateFees f org perf ch = None" and "0 \<le> face" "face \<le> MaxInt64"
    and "1 \<le> q'" "q' \<le> q"
    and "computeFeeBreakdown (fnFees f) face q currency = Inr c"
  shows "\<exists>c'. computeFeeBreakdown (fnFees f) face q' currency = Inr c' \<and>
    coPassedOnTotal c' \<le> coPassedOnTotal c \<and> coAbsorbedTotal c' \<le> coAbsorbedTotal c \<and>
    list_all2 (\<lambda>i' i. biFeeCode i' = biFeeCode i \<and> biAmount i' \<le> biAmount i) (coItems c') (coItems c)"
proof -
  have v: "\<And>w. w \<in> set (winners (fnFees f)) \<Longrightarrow> validRule w"
    by (rule validateFees_winners [OF assms(1)])
  have cur: "\<And>w. w \<in> set (winners (fnFees f)) \<Longrightarrow> rwCurrency w = currency"
    using breakdown_Inr_currency [OF assms(6)] v validRule_machine by blast
  have ft: "fits (fnFees f) face q" and c: "c = composition (fnFees f) face q"
    using breakdown_Inr_iff [of "fnFees f" face q currency c] assms(6) v validRule_machine by auto
  have q: "0 \<le> q'" using assms(4) by simp
  have "computeFeeBreakdown (fnFees f) face q' currency = Inr (composition (fnFees f) face q')"
    using breakdown_valid [of "fnFees f" currency face q'] v cur assms(2-4)
      fits_mono [OF v assms(2) q assms(5) ft] by simp
  moreover have "incidenceSum inc (fnFees f) face q' \<le> incidenceSum inc (fnFees f) face q" for inc
    by (rule incidenceSum_mono [OF v assms(2) q assms(5)])
  moreover have "list_all2 (\<lambda>i' i. biFeeCode i' = biFeeCode i \<and> biAmount i' \<le> biAmount i)
      (coItems (composition (fnFees f) face q')) (coItems c)"
    using charge_mono [OF v assms(2) q assms(5)]
    by (auto simp: c composition_def itemOf_def list_all2_conv_all_nth)
  ultimately show ?thesis by (auto simp: c composition_def)
qed

theorem composition_monotone_in_quantity_witness:
  "\<exists>c'. computeFeeBreakdown demoFees 6000 1 ''EUR'' = Inr c' \<and> coPassedOnTotal c' \<le> 597"
proof -
  have "computeFeeBreakdown demoFees 6000 3 ''EUR'' = Inr (composition demoFees 6000 3)"
    and p: "coPassedOnTotal (composition demoFees 6000 3) = 597"
    using breakdown_valid [of demoFees "''EUR''" 6000 3] demo_winners
    by (simp_all add: composition_def fits_def demo_charge_defs charge_def exactAmount_def)
  then have "computeFeeBreakdown (fnFees demoFeeResolution) 6000 3 ''EUR'' =
      Inr (composition demoFees 6000 3)" by (simp add: demoFeeResolution_def)
  from composition_monotone_in_quantity [OF demo_validates _ _ _ _ this, of 1]
  have "\<exists>c'. computeFeeBreakdown (fnFees demoFeeResolution) 6000 1 ''EUR'' = Inr c' \<and>
      coPassedOnTotal c' \<le> coPassedOnTotal (composition demoFees 6000 3)" by auto
  then show ?thesis by (simp add: p demoFeeResolution_def)
qed

text \<open>
  Rounding is per ticket, so what the buyer pays does not depend on how a cart
  groups its tickets. For rules charged per ticket, composing \<open>q1 + q2\<close> tickets in one
  line charges exactly what two lines of \<open>q1\<close> and \<open>q2\<close> tickets do.
\<close>

theorem fees_independent_of_grouping:
  assumes "validateFees f org perf ch = None" and "0 \<le> face" "face \<le> MaxInt64"
    and "\<forall>w \<in> set (winners (fnFees f)). rwBasis w \<noteq> basisPerOrderFixed"
    and "1 \<le> q1" "1 \<le> q2"
    and "computeFeeBreakdown (fnFees f) face (q1 + q2) currency = Inr c"
  shows "\<exists>c1 c2. computeFeeBreakdown (fnFees f) face q1 currency = Inr c1 \<and>
    computeFeeBreakdown (fnFees f) face q2 currency = Inr c2 \<and>
    coPassedOnTotal c = coPassedOnTotal c1 + coPassedOnTotal c2 \<and>
    coAbsorbedTotal c = coAbsorbedTotal c1 + coAbsorbedTotal c2"
proof -
  have v: "\<And>w. w \<in> set (winners (fnFees f)) \<Longrightarrow> validRule w"
    by (rule validateFees_winners [OF assms(1)])
  have cur: "\<And>w. w \<in> set (winners (fnFees f)) \<Longrightarrow> rwCurrency w = currency"
    using breakdown_Inr_currency [OF assms(7)] v validRule_machine by blast
  have ft: "fits (fnFees f) face (q1 + q2)" and c: "c = composition (fnFees f) face (q1 + q2)"
    using breakdown_Inr_iff [of "fnFees f" face "q1 + q2" currency c] assms(7) v validRule_machine
    by auto
  have "computeFeeBreakdown (fnFees f) face q currency = Inr (composition (fnFees f) face q)"
    if "1 \<le> q" "q \<le> q1 + q2" for q
    using breakdown_valid [of "fnFees f" currency face q] v cur assms(2,3) that
      fits_mono [OF v assms(2) _ that(2) ft] by simp
  from this [of q1] this [of q2]
  have "computeFeeBreakdown (fnFees f) face q1 currency = Inr (composition (fnFees f) face q1)"
    "computeFeeBreakdown (fnFees f) face q2 currency = Inr (composition (fnFees f) face q2)"
    using assms(5,6) by simp_all
  moreover have "incidenceSum inc (fnFees f) face (q1 + q2) =
      incidenceSum inc (fnFees f) face q1 + incidenceSum inc (fnFees f) face q2" for inc
    using v assms(4) by (intro incidenceSum_add) auto
  ultimately show ?thesis by (auto simp: c composition_def)
qed

theorem fees_independent_of_grouping_witness:
  "\<exists>c1 c2. computeFeeBreakdown demoFees 6000 1 ''EUR'' = Inr c1 \<and>
     computeFeeBreakdown demoFees 6000 2 ''EUR'' = Inr c2 \<and> coPassedOnTotal c1 + coPassedOnTotal c2 = 597"
proof -
  have "computeFeeBreakdown demoFees 6000 3 ''EUR'' = Inr (composition demoFees 6000 3)"
    and p: "coPassedOnTotal (composition demoFees 6000 3) = 597"
    using breakdown_valid [of demoFees "''EUR''" 6000 3] demo_winners
    by (simp_all add: composition_def fits_def demo_charge_defs charge_def exactAmount_def)
  then have ok: "computeFeeBreakdown (fnFees demoFeeResolution) 6000 (1 + 2) ''EUR'' =
      Inr (composition demoFees 6000 3)" by (simp add: demoFeeResolution_def)
  have basis: "\<forall>w \<in> set (winners (fnFees demoFeeResolution)). rwBasis w \<noteq> basisPerOrderFixed"
    by (simp add: demo_charge_defs)
  show ?thesis
    using fees_independent_of_grouping [OF demo_validates _ _ basis _ _ ok] p
    by (auto simp: demoFeeResolution_def)
qed

end
