(* ===== verification/Text.thy ===== *)
theory Text
  imports Prelude
begin

text \<open>
  Numbers and lines as text: what \<open>strconv.Atoi\<close>, \<open>%d\<close> and \<open>strings.Join\<close> do, with the
  facts that make a text built from them say one thing only.
\<close>

section \<open>Decimal numbers\<close>

definition decimalDigit :: "char \<Rightarrow> bool" where
  "decimalDigit c \<longleftrightarrow> CHR ''0'' \<le> c \<and> c \<le> CHR ''9''"

definition digitValue :: "char \<Rightarrow> int" where
  "digitValue c = int (of_char c) - 48"

definition decimalValue :: "string \<Rightarrow> int" where
  "decimalValue ds = foldl (\<lambda>v c. v * 10 + digitValue c) 0 ds"

text \<open>
  \<open>strconv.Atoi\<close> on a 64-bit platform: an optional sign, at least one decimal digit,
  and a value an \<open>int\<close> can hold.
\<close>

definition Atoi :: "string \<Rightarrow> int option" where
  "Atoi s =
     (let neg = (s \<noteq> [] \<and> hd s = CHR ''-'');
          ds = (if s \<noteq> [] \<and> (hd s = CHR ''-'' \<or> hd s = CHR ''+'') then tl s else s);
          v = (if neg then - decimalValue ds else decimalValue ds)
      in if ds = [] \<or> \<not> list_all decimalDigit ds \<or> v < MinInt64 \<or> v > MaxInt64 then None else Some v)"

text \<open>\<open>%d\<close> of an integer.\<close>

fun natDigits :: "nat \<Rightarrow> string" where
  "natDigits n = (if n < 10 then [char_of (48 + n)] else natDigits (n div 10) @ [char_of (48 + n mod 10)])"

declare natDigits.simps [simp del]

definition formatInt :: "int \<Rightarrow> string" where
  "formatInt i = (if i < 0 then CHR ''-'' # natDigits (nat (- i)) else natDigits (nat i))"

lemma digit_char:
  assumes "d < 10"
  shows "digitValue (char_of (48 + d)) = int d" and "decimalDigit (char_of (48 + d))"
proof -
  have "of_char (char_of (48 + d) :: char) = (48 + d :: nat)" using assms by (simp add: of_char_of)
  then show "digitValue (char_of (48 + d)) = int d" "decimalDigit (char_of (48 + d))"
    using assms by (simp_all add: digitValue_def decimalDigit_def less_eq_char_def)
qed

lemma decimalValue_append: "decimalValue (ds @ [c]) = decimalValue ds * 10 + digitValue c"
  by (simp add: decimalValue_def)

lemma natDigits_value: "decimalValue (natDigits n) = int n"
proof (induction n rule: natDigits.induct)
  case (1 n)
  show ?case
  proof (cases "n < 10")
    case True
    then show ?thesis by (simp add: natDigits.simps [of n] decimalValue_def digit_char)
  next
    case False
    have "int n = int (n div 10) * 10 + int (n mod 10)" by (metis div_mult_mod_eq of_nat_add of_nat_mult of_nat_numeral)
    then show ?thesis using 1 False
      by (simp add: natDigits.simps [of n] decimalValue_append digit_char)
  qed
qed

lemma natDigits_digits: "\<forall>c \<in> set (natDigits n). decimalDigit c"
proof (induction n rule: natDigits.induct)
  case (1 n)
  then show ?case by (cases "n < 10") (auto simp: natDigits.simps [of n] digit_char)
qed

lemma natDigits_inj: "natDigits m = natDigits n \<Longrightarrow> m = n"
  by (metis natDigits_value of_nat_eq_iff)

lemma formatInt_inj: "formatInt i = formatInt j \<Longrightarrow> i = j"
proof -
  have m: "CHR ''-'' \<notin> set (natDigits n)" for n
    using natDigits_digits [of n] by (auto simp: decimalDigit_def less_eq_char_def)
  have no: "natDigits n \<noteq> CHR ''-'' # ds" for n ds
    using m [of n] by (metis list.set_intros(1))
  assume eq: "formatInt i = formatInt j"
  show "i = j"
  proof (cases "i < 0")
    case True
    then have j: "j < 0" using eq no [of "nat j" "natDigits (nat (- i))"]
      by (cases "j < 0") (simp_all add: formatInt_def)
    then have "natDigits (nat (- i)) = natDigits (nat (- j))"
      using eq True by (simp add: formatInt_def)
    then show ?thesis using j natDigits_inj [of "nat (- i)" "nat (- j)"] True by simp
  next
    case False
    then have j: "\<not> j < 0" using eq no [of "nat i" "natDigits (nat (- j))"]
      by (cases "j < 0") (simp_all add: formatInt_def)
    then have "natDigits (nat i) = natDigits (nat j)"
      using eq False by (simp add: formatInt_def)
    then show ?thesis using j natDigits_inj [of "nat i" "nat j"] False by simp
  qed
qed

lemma formatInt_chars: "c \<in> set (formatInt i) \<Longrightarrow> decimalDigit c \<or> c = CHR ''-''"
  using natDigits_digits by (auto simp: formatInt_def split: if_splits)

section \<open>strings.Join\<close>

fun joinWith :: "char \<Rightarrow> string list \<Rightarrow> string" where
  "joinWith sep [] = []"
| "joinWith sep [x] = x"
| "joinWith sep (x # y # xs) = x @ sep # joinWith sep (y # xs)"

lemma joinWith_Cons: "xs \<noteq> [] \<Longrightarrow> joinWith sep (x # xs) = x @ sep # joinWith sep xs"
  by (cases xs) simp_all

lemma split_unique:
  "s \<notin> set a \<Longrightarrow> s \<notin> set b \<Longrightarrow> a @ s # xs = b @ s # ys \<longleftrightarrow> a = b \<and> xs = ys"
proof (induction a arbitrary: b)
  case Nil
  then show ?case by (cases b) auto
next
  case (Cons x a)
  then show ?case by (cases b) auto
qed

lemma joinWith_inj:
  assumes "joinWith sep xs = joinWith sep ys" and "xs \<noteq> []" "ys \<noteq> []"
    and "\<forall>x \<in> set xs. sep \<notin> set x" and "\<forall>y \<in> set ys. sep \<notin> set y"
  shows "xs = ys"
  using assms
proof (induction xs arbitrary: ys)
  case (Cons x xs)
  obtain y ys' where ys: "ys = y # ys'" using Cons.prems(3) by (cases ys) auto
  show ?case
  proof (cases "xs = []")
    case True
    then have "ys' = []" using Cons.prems ys by (cases "ys' = []") (auto simp: joinWith_Cons)
    then show ?thesis using Cons.prems(1) True ys by simp
  next
    case False
    then have ne: "ys' \<noteq> []" using Cons.prems ys by (auto simp: joinWith_Cons)
    then have "x = y \<and> joinWith sep xs = joinWith sep ys'"
      using Cons.prems False ys split_unique [of sep x y] by (simp add: joinWith_Cons)
    then show ?thesis using Cons.IH [of ys'] Cons.prems False ne ys by simp
  qed
qed simp

section \<open>Lines\<close>

lemma split_last:
  assumes "s \<notin> set b" and "s \<notin> set d" and "a @ s # b = c @ s # d"
  shows "a = c \<and> b = d"
proof -
  have "rev b @ s # rev a = rev d @ s # rev c" using arg_cong [OF assms(3), of rev] by simp
  then show ?thesis using assms(1,2) split_unique [of s "rev b" "rev d"] by simp
qed

lemma formatInt_lines: "CHR 0x0A \<notin> set (formatInt i)"
  using formatInt_chars [of "CHR 0x0A" i] by (auto simp: decimalDigit_def)

lemma hexChar_line: "n < 16 \<Longrightarrow> hexChar n \<noteq> CHR 0x0A"
proof -
  assume "n < 16"
  then have "(of_char (hexChar n) :: nat) = (if n < 10 then 48 + n else 87 + n)" by (simp add: hexChar_def of_char_of)
  then have "(of_char (hexChar n) :: nat) \<noteq> of_char (CHR 0x0A)" using \<open>n < 16\<close> by simp
  then show ?thesis by metis
qed

lemma uuid_lines: "CHR 0x0A \<notin> set (uuid_String u)"
proof -
  have "d \<noteq> CHR 0x0A" if d: "d \<in> set (uuidHex u)" for d
  proof -
    obtain n where "n < 16" "d = hexChar n" using d hexDigits_bound by (auto simp: uuidHex_def)
    then show ?thesis using hexChar_line by simp
  qed
  then show ?thesis by (auto simp: uuid_String_def Let_def dest: in_set_takeD in_set_dropD)
qed

section \<open>strings.TrimSpace\<close>

text \<open>
  The UTF-8 encodings of the runes \<open>unicode.IsSpace\<close> accepts. A string is its bytes, and
  UTF-8 synchronises itself, so trimming encodings from both ends of valid text is
  trimming runes; every step removes at least a byte, so \<open>length s\<close> steps are enough.
\<close>

definition spaceRunes :: "string list" where
  "spaceRunes =
     [[CHR 0x09], [CHR 0x0A], [CHR 0x0B], [CHR 0x0C], [CHR 0x0D], [CHR 0x20],
      [CHR 0xC2, CHR 0x85], [CHR 0xC2, CHR 0xA0], [CHR 0xE1, CHR 0x9A, CHR 0x80]] @
     map (\<lambda>b. [CHR 0xE2, CHR 0x80, char_of (b::nat)]) ([128..<139] @ [168, 169, 175]) @
     [[CHR 0xE2, CHR 0x81, CHR 0x9F], [CHR 0xE3, CHR 0x80, CHR 0x80]]"

definition dropSpace :: "string list \<Rightarrow> string \<Rightarrow> string" where
  "dropSpace runes s =
     (case find (\<lambda>r. take (length r) s = r) runes of None \<Rightarrow> s | Some r \<Rightarrow> drop (length r) s)"

definition TrimSpace :: "string \<Rightarrow> string" where
  "TrimSpace s =
     (let l = (dropSpace spaceRunes ^^ length s) s
      in rev ((dropSpace (map rev spaceRunes) ^^ length l) (rev l)))"

end
