(* ===== verification/Commerce_Pricing.thy ===== *)
theory Commerce_Pricing
  imports Commerce_Fees Text
begin

text \<open>
  Commerce's consumer of catalog's price, \<open>src/services/commerce/internal/api/catalog_pricing.go\<close>:
  what a price resolution must satisfy before a sale is built on it, and the proof
  that a document can be stored as \<open>jsonb\<close> before anything is held.
\<close>

section \<open>The document\<close>

record resolvedMoney =
  rmAmount :: int
  rmCurrency :: string

record resolvedRule =
  rrRuleID :: uuid
  rrScopeLevel :: string
  rrScopeID :: uuid
  rrActionKind :: string
  rrAmount :: int
  rrCurrency :: string

record priceResolution =
  pnResolverVersion :: int
  pnEvaluatedAt :: time
  pnOrganizerID :: uuid
  pnPerformanceID :: uuid
  pnBasePrice :: resolvedMoney
  pnResolvedPrice :: resolvedMoney
  pnWinner :: "resolvedRule option"
  pnFallbackReason :: "string option"
  pnChannelCode :: "string option"

definition checkMoney :: "string \<Rightarrow> resolvedMoney \<Rightarrow> resolve_error option" where
  "checkMoney field m =
     (if rmAmount m < 0 then Some (ErrResolveUnusable (''negative '' @ field))
      else if rmAmount m > maxContractAmount
      then Some (ErrResolveUnusable (field @ '' exceeds the contract's Money range''))
      else if \<not> isISO4217 (rmCurrency m)
      then Some (ErrResolveUnusable (field @ '' carries a malformed currency''))
      else None)"

text \<open>
  The checks of \<open>validate\<close> from the mutual exclusion of winner and fallback to the
  identity of the winner.
\<close>

definition checkOutcome :: "priceResolution \<Rightarrow> resolve_error option" where
  "checkOutcome p =
     (if (pnWinner p \<noteq> None) = (pnFallbackReason p \<noteq> None)
      then Some (ErrResolveUnusable ''winner and fallback_reason are not mutually exclusive'')
      else (case pnFallbackReason p of
              Some reason \<Rightarrow>
                if reason \<noteq> ''no_eligible_rule''
                then Some (ErrResolveUnusable (''unknown fallback_reason '' @ reason))
                else if pnResolvedPrice p \<noteq> pnBasePrice p
                then Some (ErrResolveUnusable ''fallback did not resolve to the base price'')
                else None
            | None \<Rightarrow>
                (case pnWinner p of
                   None \<Rightarrow> None
                 | Some w \<Rightarrow>
                     if rrActionKind w \<noteq> ''absolute''
                     then Some (ErrResolveUnusable (''unsupported action_kind '' @ rrActionKind w))
                     else if rrAmount w \<noteq> rmAmount (pnResolvedPrice p) \<or>
                             rrCurrency w \<noteq> rmCurrency (pnResolvedPrice p)
                     then Some (ErrResolveUnusable ''resolved_price disagrees with the winning rule'')
                     else if rrRuleID w = uuid_Nil \<or> rrScopeLevel w = '''' \<or> rrScopeID w = uuid_Nil
                     then Some (ErrResolveUnusable ''winner is missing its identity'')
                     else None)))"

definition validatePrice ::
  "priceResolution \<Rightarrow> uuid \<Rightarrow> int \<Rightarrow> string option \<Rightarrow> resolve_error option" where
  "validatePrice p organizerID quantity channel =
     (if pnChannelCode p \<noteq> None \<and> channel = None
      then Some (ErrResolveUnusable ''price resolution echoes a channel the sale did not request'')
      else if pnChannelCode p \<noteq> None \<and> the (pnChannelCode p) \<noteq> the channel
      then Some (ErrResolveUnusable ''price resolution echoes a different channel'')
      else if pnChannelCode p = None \<and> channel \<noteq> None
      then Some (ErrResolveUnusable ''price resolution omits the channel the sale requested'')
      else if pnResolverVersion p < 1 then Some (ErrResolveUnusable ''resolver_version below 1'')
      else (case checkMoney ''base_price'' (pnBasePrice p) of
              Some e \<Rightarrow> Some e
            | None \<Rightarrow>
                if rmCurrency (pnBasePrice p) \<noteq> rmCurrency (pnResolvedPrice p)
                then Some (ErrResolveUnusable ''base_price and resolved_price are in different currencies'')
                else if IsZero (pnEvaluatedAt p) then Some (ErrResolveUnusable ''missing evaluated_at'')
                else if pnOrganizerID p \<noteq> organizerID
                then Some (ErrResolveUnusable ''resolution is for a different organizer'')
                else if pnPerformanceID p = uuid_Nil
                then Some (ErrResolveUnusable ''no performance id'')
                else (case checkOutcome p of
                        Some e \<Rightarrow> Some e
                      | None \<Rightarrow>
                          if rmAmount (pnResolvedPrice p) < 0
                          then Some (ErrResolveUnusable ''negative resolved price'')
                          else if rmCurrency (pnResolvedPrice p) \<noteq> ''EUR''
                          then Some (ErrResolveUnusable ''commerce sells in EUR only'')
                          else if quantity < 1 \<or> rmAmount (pnResolvedPrice p) > MaxInt64 sdiv quantity
                          then Some (ErrResolveUnusable ''resolved price overflows the order total'')
                          else None)))"

definition priceTotal :: "priceResolution \<Rightarrow> int \<Rightarrow> int" where
  "priceTotal p quantity = wrap64 (rmAmount (pnResolvedPrice p) * quantity)"

text \<open>What a sale may rely on once \<open>validate\<close> has passed.\<close>

lemma validatePrice_None:
  assumes "validatePrice p org q ch = None"
  shows "pnChannelCode p = ch" and "pnOrganizerID p = org" and "pnPerformanceID p \<noteq> uuid_Nil"
    and "0 \<le> rmAmount (pnResolvedPrice p)" and "rmCurrency (pnResolvedPrice p) = ''EUR''"
    and "1 \<le> q" and "rmAmount (pnResolvedPrice p) * q \<le> MaxInt64" and "checkOutcome p = None"
proof -
  have main: "pnChannelCode p = ch \<and> pnOrganizerID p = org \<and> pnPerformanceID p \<noteq> uuid_Nil \<and>
      0 \<le> rmAmount (pnResolvedPrice p) \<and> rmCurrency (pnResolvedPrice p) = ''EUR'' \<and>
      1 \<le> q \<and> rmAmount (pnResolvedPrice p) \<le> MaxInt64 sdiv q \<and> checkOutcome p = None"
    using assms by (auto simp: validatePrice_def split: if_splits option.splits)
  then show "pnChannelCode p = ch" "pnOrganizerID p = org" "pnPerformanceID p \<noteq> uuid_Nil"
    "0 \<le> rmAmount (pnResolvedPrice p)" "rmCurrency (pnResolvedPrice p) = ''EUR''"
    "1 \<le> q" "checkOutcome p = None" by auto
  show "rmAmount (pnResolvedPrice p) * q \<le> MaxInt64"
    using main le_div_iff_mult_le_int [of q "rmAmount (pnResolvedPrice p)" MaxInt64]
      sdiv_nonneg [of MaxInt64 q] by simp
qed

lemma total_exact:
  assumes "validatePrice p org q ch = None" and "0 \<le> q'" "q' \<le> q"
  shows "priceTotal p q' = rmAmount (pnResolvedPrice p) * q'" and "0 \<le> priceTotal p q'"
    and "priceTotal p q' \<le> MaxInt64"
proof -
  let ?a = "rmAmount (pnResolvedPrice p)"
  have a: "0 \<le> ?a" "?a * q \<le> MaxInt64" using validatePrice_None [OF assms(1)] by simp_all
  then have "?a * q' \<le> ?a * q" using assms(3) by (simp add: mult_left_mono)
  then have le: "0 \<le> ?a * q'" "?a * q' \<le> MaxInt64" using a assms(2) by auto
  then have "wrap64 (?a * q') = ?a * q'" by (intro wrap64_id) simp_all
  then show "priceTotal p q' = ?a * q'" "0 \<le> priceTotal p q'" "priceTotal p q' \<le> MaxInt64"
    using le by (simp_all add: priceTotal_def)
qed

section \<open>Storability\<close>

text \<open>
  A decoded body, the way \<open>storableSnapshot\<close> decodes it: numbers keep their text
  (\<open>UseNumber\<close>). Members are listed in document order; Go visits a map in no fixed
  order, which can change which of several defects is named, not whether one is.
\<close>

datatype json =
    JNull
  | JBool bool
  | JNumber string
  | JString string
  | JObject "(string \<times> json) list"
  | JArray "json list"

definition pgNumericMaxDigits :: int where "pgNumericMaxDigits = 131072"

definition isExponentMark :: "char \<Rightarrow> bool" where
  "isExponentMark c \<longleftrightarrow> c = CHR ''e'' \<or> c = CHR ''E''"

text \<open>The digits before the decimal point, leading signs and zeros trimmed.\<close>

definition integerDigits :: "string \<Rightarrow> int" where
  "integerDigits mantissa =
     int (length (takeWhile (\<lambda>c. c \<noteq> CHR ''.'')
       (dropWhile (\<lambda>c. c = CHR ''0'') (dropWhile (\<lambda>c. c = CHR ''+'' \<or> c = CHR ''-'') mantissa))))"

definition numericFits :: "string \<Rightarrow> bool" where
  "numericFits n =
     (let mantissa = takeWhile (\<lambda>c. \<not> isExponentMark c) n;
          rest = dropWhile (\<lambda>c. \<not> isExponentMark c) n
      in case (if rest = [] then Some 0 else Atoi (tl rest)) of
           None \<Rightarrow> False
         | Some exp \<Rightarrow>
             wrap64 (integerDigits mantissa + exp) \<le> pgNumericMaxDigits \<and> exp \<ge> - pgNumericMaxDigits)"

fun checkStorable :: "json \<Rightarrow> resolve_error option"
  and checkMembers :: "(string \<times> json) list \<Rightarrow> resolve_error option"
  and checkElements :: "json list \<Rightarrow> resolve_error option" where
  "checkStorable (JString t) =
     (if CHR 0x00 \<in> set t then Some (ErrResolveUnusable ''body carries a NUL, which jsonb refuses'') else None)"
| "checkStorable (JNumber t) =
     (if \<not> numericFits t then Some (ErrResolveUnusable ''body carries a number jsonb cannot store'') else None)"
| "checkStorable (JObject kvs) = checkMembers kvs"
| "checkStorable (JArray vs) = checkElements vs"
| "checkStorable JNull = None"
| "checkStorable (JBool b) = None"
| "checkMembers [] = None"
| "checkMembers ((k, v) # kvs) =
     (if CHR 0x00 \<in> set k then Some (ErrResolveUnusable ''body carries a NUL in a key'')
      else (case checkStorable v of Some e \<Rightarrow> Some e | None \<Rightarrow> checkMembers kvs))"
| "checkElements [] = None"
| "checkElements (v # vs) = (case checkStorable v of Some e \<Rightarrow> Some e | None \<Rightarrow> checkElements vs)"

text \<open>
  \<open>decode\<close> and \<open>marshal\<close> stand for the JSON decoder and encoder; the canonical bytes are
  what \<open>marshal\<close> answers for the decoded document.
\<close>

definition storableSnapshot ::
  "('b \<Rightarrow> json option) \<Rightarrow> (json \<Rightarrow> 'b option) \<Rightarrow> 'b \<Rightarrow> resolve_error + 'b" where
  "storableSnapshot decode marshal body =
     (case decode body of
        None \<Rightarrow> Inl (ErrResolveUnusable ''body is not storable as jsonb'')
      | Some doc \<Rightarrow>
          (case checkStorable doc of
             Some e \<Rightarrow> Inl e
           | None \<Rightarrow>
               (case marshal doc of
                  None \<Rightarrow> Inl (ErrResolveUnusable ''body cannot be re-encoded'')
                | Some canonical \<Rightarrow> Inr canonical)))"

text \<open>Every key, string and number text of a document.\<close>

fun textsOf :: "json \<Rightarrow> string list" and numbersOf :: "json \<Rightarrow> string list" where
  "textsOf (JString t) = [t]"
| "textsOf (JObject kvs) = concat (map (\<lambda>(k, v). k # textsOf v) kvs)"
| "textsOf (JArray vs) = concat (map textsOf vs)"
| "textsOf (JNumber t) = []"
| "textsOf JNull = []"
| "textsOf (JBool b) = []"
| "numbersOf (JNumber t) = [t]"
| "numbersOf (JObject kvs) = concat (map (\<lambda>(k, v). numbersOf v) kvs)"
| "numbersOf (JArray vs) = concat (map numbersOf vs)"
| "numbersOf (JString t) = []"
| "numbersOf JNull = []"
| "numbersOf (JBool b) = []"

lemma checkStorable_None_iff:
  "checkStorable d = None \<longleftrightarrow> (\<forall>t \<in> set (textsOf d). CHR 0x00 \<notin> set t) \<and> (\<forall>n \<in> set (numbersOf d). numericFits n)"
  "checkMembers kvs = None \<longleftrightarrow> (\<forall>(k, v) \<in> set kvs. CHR 0x00 \<notin> set k \<and>
     (\<forall>t \<in> set (textsOf v). CHR 0x00 \<notin> set t) \<and> (\<forall>n \<in> set (numbersOf v). numericFits n))"
  "checkElements vs = None \<longleftrightarrow> (\<forall>v \<in> set vs.
     (\<forall>t \<in> set (textsOf v). CHR 0x00 \<notin> set t) \<and> (\<forall>n \<in> set (numbersOf v). numericFits n))"
proof (induction d and kvs and vs rule: checkStorable_checkMembers_checkElements.induct)
  case (8 k v kvs)
  then show ?case by (cases "checkStorable v") auto
next
  case (10 v vs)
  then show ?case by (cases "checkStorable v") auto
qed auto

section \<open>Properties\<close>

definition demoPriceResolution :: priceResolution where
  "demoPriceResolution =
     \<lparr>pnResolverVersion = 3, pnEvaluatedAt = 100, pnOrganizerID = 9, pnPerformanceID = 2,
      pnBasePrice = \<lparr>rmAmount = 7000, rmCurrency = ''EUR''\<rparr>,
      pnResolvedPrice = \<lparr>rmAmount = 6000, rmCurrency = ''EUR''\<rparr>,
      pnWinner = Some \<lparr>rrRuleID = 4, rrScopeLevel = ''event'', rrScopeID = 3, rrActionKind = ''absolute'',
                       rrAmount = 6000, rrCurrency = ''EUR''\<rparr>,
      pnFallbackReason = None, pnChannelCode = None\<rparr>"

lemma demo_price_validates: "validatePrice demoPriceResolution 9 3 None = None"
  by (simp add: validatePrice_def demoPriceResolution_def checkMoney_def checkOutcome_def
      maxContractAmount_def demo_isISO4217 IsZero_def sdiv_nonneg)

text \<open>
  A price \<open>validate\<close> accepted can be charged at any quantity up to the one it was
  validated for. It answers the question asked (organizer and channel), it is in EUR and
  not negative, it is the winning rule's amount or the base price when no rule won, and
  the line total is the exact product: the multiplication in \<open>total\<close> cannot wrap.
\<close>

theorem accepted_price_is_chargeable:
  assumes "validatePrice p org q ch = None" and "1 \<le> q'" "q' \<le> q"
  shows "pnOrganizerID p = org \<and> pnChannelCode p = ch \<and> pnPerformanceID p \<noteq> uuid_Nil \<and>
    rmCurrency (pnResolvedPrice p) = ''EUR'' \<and> 0 \<le> rmAmount (pnResolvedPrice p) \<and>
    (case pnWinner p of
       Some w \<Rightarrow> pnFallbackReason p = None \<and> rrActionKind w = ''absolute'' \<and>
         pnResolvedPrice p = \<lparr>rmAmount = rrAmount w, rmCurrency = rrCurrency w\<rparr>
     | None \<Rightarrow> pnFallbackReason p = Some ''no_eligible_rule'' \<and> pnResolvedPrice p = pnBasePrice p) \<and>
    priceTotal p q' = rmAmount (pnResolvedPrice p) * q' \<and> priceTotal p q' \<le> MaxInt64"
  using validatePrice_None [OF assms(1)] total_exact [OF assms(1) _ assms(3)] assms(2)
  by (auto simp: checkOutcome_def split: option.splits if_splits)

theorem accepted_price_is_chargeable_witness:
  "priceTotal demoPriceResolution 2 = 12000"
  using accepted_price_is_chargeable [OF demo_price_validates, of 2]
  by (simp add: demoPriceResolution_def)

text \<open>
  What \<open>storableSnapshot\<close> lets through carries no NUL in any key or string and only
  numbers \<open>numericFits\<close> admits, at any depth, and the bytes it returns are the encoding
  of the decoded document; a document with either defect is refused.
\<close>

theorem storable_snapshot_refuses_exactly:
  "(\<exists>c. storableSnapshot decode marshal body = Inr c) =
     (\<exists>doc c. decode body = Some doc \<and> marshal doc = Some c \<and>
        (\<forall>t \<in> set (textsOf doc). CHR 0x00 \<notin> set t) \<and> (\<forall>n \<in> set (numbersOf doc). numericFits n))"
proof (cases "decode body")
  case (Some doc)
  then show ?thesis using checkStorable_None_iff(1) [of doc]
    by (cases "checkStorable doc"; cases "marshal doc") (auto simp: storableSnapshot_def)
qed (simp add: storableSnapshot_def)

theorem storable_snapshot_refuses_exactly_witness:
  "\<exists>c. storableSnapshot (\<lambda>b. Some (JObject [(''n'', JNumber ''12e3'')])) (\<lambda>d. Some ()) () = Inr c"
proof -
  have "numericFits ''12e3''"
    by (simp add: numericFits_def Atoi_def integerDigits_def isExponentMark_def decimalDigit_def
        decimalValue_def digitValue_def pgNumericMaxDigits_def wrap64_def less_eq_char_def)
  then show ?thesis
    using storable_snapshot_refuses_exactly
      [of "\<lambda>b. Some (JObject [(''n'', JNumber ''12e3'')])" "\<lambda>d. Some ()" "()"] by simp
qed



end
