(* ===== verification/Commerce_Request.thy ===== *)
theory Commerce_Request
  imports Commerce_Pricing
begin

text \<open>
  The reservation request and the questions commerce asks of it, from
  \<open>src/services/commerce/internal/api/server.go\<close> and \<open>catalog_fees.go\<close>: which branch it
  takes, how many tickets it is for, whether two requests under one idempotency key
  are the same request, and which seats of inventory's answers may be believed.
\<close>

section \<open>The request\<close>

record reserveRequest =
  rqOrganizerID :: uuid
  rqTicketTypeID :: uuid
  rqQuantity :: int
  rqSeatIdentities :: "string list"
  rqChannelCode :: "string option"

record partnerScope =
  psCredentialID :: uuid
  psResellerID :: uuid
  psOrganizerID :: uuid
  psChannelCode :: string

definition seated :: "reserveRequest \<Rightarrow> bool" where
  "seated in' \<longleftrightarrow> length (rqSeatIdentities in') > 0"

definition keepFirst :: "string list \<Rightarrow> string \<Rightarrow> string list" where
  "keepFirst out seat = (if seat \<in> set out then out else out @ [seat])"

definition canonicalSeatSet :: "reserveRequest \<Rightarrow> string list" where
  "canonicalSeatSet in' = sort (foldl keepFirst [] (map TrimSpace (rqSeatIdentities in')))"

definition units :: "reserveRequest \<Rightarrow> int" where
  "units in' =
     (if \<not> seated in' then rqQuantity in' else wrap32 (int (length (canonicalSeatSet in'))))"

definition uniqueSeats :: "string list \<Rightarrow> bool" where
  "uniqueSeats seats \<longleftrightarrow>
     (\<forall>s \<in> set seats. TrimSpace s \<noteq> [] \<and> length s \<le> 200) \<and> distinct seats"

definition disjointFrom :: "string list \<Rightarrow> string list \<Rightarrow> bool" where
  "disjointFrom got want \<longleftrightarrow> (\<forall>s \<in> set got. s \<notin> set want)"

text \<open>Every match deletes the identity from the allowed set, so a repeat is refused.\<close>

fun subsetLoop :: "string set \<Rightarrow> string list \<Rightarrow> bool" where
  "subsetLoop allowed [] = True"
| "subsetLoop allowed (seat # got) = (seat \<in> allowed \<and> subsetLoop (allowed - {seat}) got)"

definition subsetOf :: "string list \<Rightarrow> string list \<Rightarrow> bool" where
  "subsetOf got want = subsetLoop (set want) got"

definition sameSeats :: "string list \<Rightarrow> string list \<Rightarrow> bool" where
  "sameSeats persisted requested \<longleftrightarrow>
     length persisted = length requested \<and> (\<forall>i < length persisted. persisted ! i = requested ! i)"

definition validReservationShape :: "reserveRequest \<Rightarrow> bool" where
  "validReservationShape in' =
     (if rqOrganizerID in' = uuid_Nil \<or> rqTicketTypeID in' = uuid_Nil then False
      else let hasQty = (rqQuantity in' \<noteq> 0); hasSeats = (length (rqSeatIdentities in') > 0) in
        if hasQty = hasSeats then False
        else if hasSeats then
          length (rqSeatIdentities in') \<le> 50 \<and>
          (\<forall>seat \<in> set (rqSeatIdentities in'). TrimSpace seat \<noteq> [] \<and> length seat \<le> 200)
        else rqQuantity in' \<ge> 1 \<and> rqQuantity in' \<le> 50)"

definition sameChannel :: "string option \<Rightarrow> string option \<Rightarrow> bool" where
  "sameChannel a b =
     (if a = None \<and> b = None then True
      else if a = None \<or> b = None then False
      else the a = the b)"

definition sameTerms ::
  "reserveRequest \<Rightarrow> int \<Rightarrow> uuid \<Rightarrow> string option \<Rightarrow> string list \<Rightarrow> bool" where
  "sameTerms in' qty ticketType channel seats =
     (if qty \<noteq> units in' \<or> ticketType \<noteq> rqTicketTypeID in' then False
      else if \<not> sameChannel channel (rqChannelCode in') then False
      else if (length seats > 0) \<noteq> seated in' then False
      else if seated in' \<and> \<not> sameSeats seats (canonicalSeatSet in') then False
      else True)"

text \<open>\<open>sha\<close> is \<open>uuid.NewSHA1(uuid.NameSpaceOID, _)\<close>.\<close>

definition reservationBasis :: "uuid \<Rightarrow> string \<Rightarrow> partnerScope option \<Rightarrow> string" where
  "reservationBasis org key scope =
     (case scope of
        None \<Rightarrow> ''reservation:'' @ uuid_String org @ '':'' @ key
      | Some sc \<Rightarrow> ''reservation:'' @ uuid_String org @ '':'' @ uuid_String (psResellerID sc) @ '':'' @ key)"

definition reservationID :: "(string \<Rightarrow> uuid) \<Rightarrow> uuid \<Rightarrow> string \<Rightarrow> partnerScope option \<Rightarrow> uuid" where
  "reservationID sha org key scope = sha (reservationBasis org key scope)"

section \<open>What the canonical set is\<close>

lemma keepFirst_fold:
  "distinct out \<Longrightarrow> distinct (foldl keepFirst out xs) \<and> set (foldl keepFirst out xs) = set out \<union> set xs"
  by (induction xs arbitrary: out) (auto simp: keepFirst_def)

lemma canonicalSeatSet_eq:
  "canonicalSeatSet in' = sorted_list_of_set (TrimSpace ` set (rqSeatIdentities in'))"
  using keepFirst_fold [of "[]" "map TrimSpace (rqSeatIdentities in')"]
  by (auto simp: canonicalSeatSet_def sorted_list_of_set_sort_remdups distinct_remdups_id
      intro: sorted_distinct_set_unique)

lemma canonicalSeatSet_props:
  "sorted (canonicalSeatSet in')" "distinct (canonicalSeatSet in')"
  "set (canonicalSeatSet in') = TrimSpace ` set (rqSeatIdentities in')"
  by (simp_all add: canonicalSeatSet_eq)

lemma canonicalSeatSet_empty_iff: "canonicalSeatSet in' = [] \<longleftrightarrow> \<not> seated in'"
  using canonicalSeatSet_props(3) [of in'] by (auto simp: seated_def)

lemma canonicalSeatSet_length: "length (canonicalSeatSet in') \<le> length (rqSeatIdentities in')"
  by (metis canonicalSeatSet_props(2,3) card_image_le card_length distinct_card finite_set order_trans)

lemma sameSeats_iff [simp]: "sameSeats a b \<longleftrightarrow> a = b"
  by (auto simp: sameSeats_def list_eq_iff_nth_eq)

lemma sameChannel_iff [simp]: "sameChannel a b \<longleftrightarrow> a = b"
  by (cases a; cases b) (auto simp: sameChannel_def)

lemma subsetLoop_iff: "subsetLoop A got \<longleftrightarrow> set got \<subseteq> A \<and> distinct got"
  by (induction A got rule: subsetLoop.induct) auto

lemma units_bounds:
  assumes "validReservationShape in'"
  shows "1 \<le> units in'" and "units in' \<le> 50"
    and "seated in' \<Longrightarrow> units in' = int (length (canonicalSeatSet in'))"
proof -
  have small: "length (canonicalSeatSet in') \<le> 50 \<and> canonicalSeatSet in' \<noteq> []" if "seated in'"
    using that assms canonicalSeatSet_length [of in'] canonicalSeatSet_empty_iff [of in']
    by (auto simp: validReservationShape_def seated_def Let_def split: if_splits)
  then show len: "seated in' \<Longrightarrow> units in' = int (length (canonicalSeatSet in'))"
    by (simp add: units_def wrap32_def)
  show "1 \<le> units in'" "units in' \<le> 50"
    using len small assms
    by (cases "seated in'"; auto simp: units_def validReservationShape_def seated_def Let_def
        Suc_le_eq split: if_splits)+
qed

section \<open>Inventory's refusals\<close>

text \<open>
  What the readers of an inventory answer can see in its body: the refusal's members
  (\<open>None\<close> when absent or of another type), whether the whole body decodes as a refusal,
  and whether the bytes contain the pool-kind message.
\<close>

record refusalBody =
  rbDecodes :: bool
  rbError :: "string option"
  rbCode :: "string option"
  rbSeats :: "string list"
  rbPoolKind :: bool

datatype refusal_answer =
    InvalidInventoryResponse
  | OrphanedSeats "string list"
  | SeatTaken "string list"
  | InventoryUnavailable
  | SoldOut
  | SeatedPoolUnsupported

definition seatedInventoryRefusal :: "int \<Rightarrow> refusalBody \<Rightarrow> string list \<Rightarrow> refusal_answer" where
  "seatedInventoryRefusal code body requested =
     (if code = 409 \<and> rbDecodes body \<and> rbCode body = Some ''orphaned_seats'' then
        (if length (rbSeats body) = 0 \<or> length (rbSeats body) > 200 \<or> \<not> uniqueSeats (rbSeats body) \<or>
            \<not> disjointFrom (rbSeats body) requested
         then InvalidInventoryResponse
         else OrphanedSeats (rbSeats body))
      else if code = 409 \<and> rbDecodes body \<and> rbCode body = Some ''seat_taken'' then
        (if length (rbSeats body) = 0 \<or> \<not> subsetOf (rbSeats body) requested
         then InvalidInventoryResponse
         else SeatTaken (rbSeats body))
      else InventoryUnavailable)"

definition publicGASoldOut :: "partnerScope option \<Rightarrow> bool \<Rightarrow> int \<Rightarrow> refusalBody \<Rightarrow> bool" where
  "publicGASoldOut scope err status body =
     (if scope \<noteq> None \<or> err \<or> status \<noteq> 409 then False
      else if \<not> rbDecodes body \<or> rbError body = None \<or> rbCode body = None then False
      else the (rbCode body) = ''sold_out'')"

section \<open>Properties\<close>

definition demoSeated :: "string list \<Rightarrow> reserveRequest" where
  "demoSeated seats =
     \<lparr>rqOrganizerID = 9, rqTicketTypeID = 1, rqQuantity = 0, rqSeatIdentities = seats, rqChannelCode = None\<rparr>"

text \<open>
  Two requests under one key are the same request exactly when they name the same
  number of tickets, ticket type, channel and set of seats: what the replay and the lost
  race compare is the canonical form, so order, repeats and surrounding white space do
  not matter, and a different seat, channel or kind of claim always does.
\<close>

theorem same_terms_compares_canonical_requests:
  "sameTerms in' qty ticketType channel seats =
     (qty = units in' \<and> ticketType = rqTicketTypeID in' \<and> channel = rqChannelCode in' \<and>
      sorted seats \<and> distinct seats \<and> set seats = TrimSpace ` set (rqSeatIdentities in'))"
proof -
  have "(length seats > 0) = seated in' \<and> (seated in' \<longrightarrow> seats = canonicalSeatSet in') \<longleftrightarrow>
      seats = canonicalSeatSet in'"
    using canonicalSeatSet_empty_iff [of in'] by auto
  moreover have "seats = canonicalSeatSet in' \<longleftrightarrow>
      sorted seats \<and> distinct seats \<and> set seats = TrimSpace ` set (rqSeatIdentities in')"
    using canonicalSeatSet_props [of in'] by (auto intro: sorted_distinct_set_unique)
  ultimately show ?thesis by (auto simp: sameTerms_def)
qed

text \<open>
  C33: which idempotency keys name the same reservation. Two partner requests share an id
  basis exactly when organizer, reseller and key agree, and two public ones exactly when
  organizer and key do; but a public key that spells a reseller's id and a colon names
  that reseller's reservation.
\<close>

theorem reservation_basis_collisions:
  "(reservationBasis o1 k1 (Some a) = reservationBasis o2 k2 (Some b)) =
      (o1 = o2 \<and> psResellerID a = psResellerID b \<and> k1 = k2) \<and>
   (reservationBasis o1 k1 None = reservationBasis o2 k2 None) = (o1 = o2 \<and> k1 = k2) \<and>
   (reservationBasis o1 k1 None = reservationBasis o2 k2 (Some b)) =
      (o1 = o2 \<and> k1 = uuid_String (psResellerID b) @ '':'' @ k2)"
  by (auto simp: reservationBasis_def)

text \<open>
  A refused seat claim never shows the buyer seats commerce made up. Identities
  forwarded as taken are distinct seats of the request, and identities forwarded as
  orphaned are distinct, not blank, and none of them requested; both lists are non-empty
  and are inventory's own.
\<close>

theorem refused_seats_are_never_invented:
  "case seatedInventoryRefusal code body requested of
     SeatTaken seats \<Rightarrow> seats = rbSeats body \<and> seats \<noteq> [] \<and> distinct seats \<and> set seats \<subseteq> set requested
   | OrphanedSeats seats \<Rightarrow> seats = rbSeats body \<and> seats \<noteq> [] \<and> distinct seats \<and>
       set seats \<inter> set requested = {} \<and> length seats \<le> 200 \<and> [] \<notin> TrimSpace ` set seats
   | _ \<Rightarrow> True"
  by (auto simp: seatedInventoryRefusal_def subsetOf_def subsetLoop_iff uniqueSeats_def disjointFrom_def)

text \<open>
  A request that passes the shape check is for between 1 and 50 tickets, and for a
  seated request that number is the size of the set of trimmed identities, not the
  length of the list that was sent.
\<close>

theorem accepted_request_units:
  assumes "validReservationShape in'"
  shows "1 \<le> units in' \<and> units in' \<le> 50 \<and>
    units in' = (if seated in' then int (card (TrimSpace ` set (rqSeatIdentities in'))) else rqQuantity in')"
  using units_bounds [OF assms] distinct_card [OF canonicalSeatSet_props(2), of in']
    canonicalSeatSet_props(3) [of in']
  by (auto simp: units_def)

theorem accepted_request_units_witness:
  "units (demoSeated [''A1'', '' A1'', ''A2'']) = 2"
proof -
  have t: "TrimSpace ''A1'' = ''A1''" "TrimSpace '' A1'' = ''A1''" "TrimSpace ''A2'' = ''A2''"
    by (simp_all add: TrimSpace_def dropSpace_def spaceRunes_def numeral_2_eq_2 numeral_3_eq_3 upt_rec)
  have "validReservationShape (demoSeated [''A1'', '' A1'', ''A2''])"
    by (simp add: validReservationShape_def demoSeated_def t)
  from accepted_request_units [OF this] show ?thesis by (simp add: demoSeated_def seated_def t)
qed

end
