(* ===== verification/Commerce_Reserve.thy ===== *)
theory Commerce_Reserve
  imports Commerce_Request
begin

text \<open>
  The reserve handler of commerce (\<open>reserveWithScope\<close> in
  \<open>src/services/commerce/internal/api/server.go\<close>) with the document it persists and the
  settlement plan later derived from it (\<open>catalog_fees.go\<close>): the replay from the
  persisted row, the two catalog reads, the composition checked before the hold, the
  composition made after it, and the insert that can lose a race.
\<close>

section \<open>The persisted snapshot\<close>

text \<open>
  What the stored bytes say to their readers. \<open>Unreadable\<close> is a document
  \<open>json.Unmarshal\<close> refuses.
\<close>

record envelope =
  evResolution :: "feeDoc list"
  evBreakdown :: "feeBreakdownItem list"
  evFaceValue :: int
  evPassedOnFees :: int
  evAbsorbedFees :: int
  evTotalAmount :: int

datatype snapshot = NoSnapshot | Unreadable | Envelope envelope

definition feeSnapshotEnvelope :: "feeResolution \<Rightarrow> feeComposition \<Rightarrow> int \<Rightarrow> int \<Rightarrow> snapshot" where
  "feeSnapshotEnvelope f c faceValue gross =
     Envelope \<lparr>evResolution = fnRaw f, evBreakdown = coItems c, evFaceValue = faceValue,
               evPassedOnFees = coPassedOnTotal c, evAbsorbedFees = coAbsorbedTotal c,
               evTotalAmount = gross\<rparr>"

text \<open>The fee members of a reservation response: face value, passed-on total, breakdown.\<close>

type_synonym feeFields = "int \<times> int \<times> feeBreakdownItem list"

definition addFeeFields :: "int \<Rightarrow> feeComposition \<Rightarrow> feeFields option" where
  "addFeeFields faceValue c = Some (faceValue, coPassedOnTotal c, coItems c)"

definition addStoredFeeFields :: "int \<Rightarrow> snapshot \<Rightarrow> resolve_error + feeFields option" where
  "addStoredFeeFields faceValue snap =
     (case snap of
        NoSnapshot \<Rightarrow> Inr None
      | Unreadable \<Rightarrow> Inl (ErrResolveUnusable ''fee snapshot is unreadable'')
      | Envelope env \<Rightarrow> Inr (Some (faceValue, evPassedOnFees env, evBreakdown env)))"

record price =
  poAmount :: int
  poCurrency :: string

definition checkCompositionFits ::
  "resolvedFeeCode list \<Rightarrow> price \<Rightarrow> int \<Rightarrow> int \<Rightarrow> resolve_error option" where
  "checkCompositionFits fees p faceValue quantity =
     (case computeFeeBreakdown fees (poAmount p) quantity (poCurrency p) of
        Inl e \<Rightarrow> Some e
      | Inr cm \<Rightarrow>
          (case composedTotal faceValue (coPassedOnTotal cm) of
             Inl e \<Rightarrow> Some e
           | Inr t \<Rightarrow> None))"

section \<open>Reservations, catalog and inventory\<close>

text \<open>A row of \<open>reservations\<close>; \<open>rvAmount\<close> is \<open>total_amount\<close>, the gross charge.\<close>

record reservation =
  rvID :: uuid
  rvOrganizerID :: uuid
  rvHoldID :: uuid
  rvSlotID :: uuid
  rvTicketTypeID :: uuid
  rvBuyerID :: uuid
  rvQuantity :: int
  rvUnitAmount :: int
  rvAmount :: int
  rvFaceValue :: int
  rvCurrency :: string
  rvStatus :: string
  rvSeats :: "string list option"
  rvFeeSnapshot :: snapshot
  rvChannelCode :: "string option"
  rvResellerID :: "uuid option"

type_synonym commerceDB = "uuid \<Rightarrow> reservation option"

text \<open>A call to inventory: which route, the idempotency key, and the members of the body.\<close>

record holdCall =
  hcSeatedRoute :: bool
  hcInternal :: bool
  hcKey :: string
  hcOrganizerID :: uuid
  hcSlotID :: uuid
  hcTicketTypeID :: uuid
  hcQuantity :: "int option"
  hcSeatIdentities :: "string list option"
  hcUnitAmount :: int
  hcCurrency :: string
  hcSeller :: "(string \<times> uuid) option"

record holdBody =
  hbID :: uuid
  hbExpiresAt :: time
  hbServerTime :: time
  hbSeats :: "string list"
  hbQuantity :: int

record holdAnswer =
  haCode :: int
  haHold :: "holdBody option"
  haRefusal :: refusalBody

text \<open>
  The services a request meets. A catalog read answers what \<open>resolveTicketTypePrice\<close> and
  \<open>resolveTicketTypeFees\<close> return before \<open>validate\<close>: \<open>Inl\<close> when the call fails, is not a 200
  or cannot be decoded or stored. \<open>None\<close> from inventory is a failed call. \<open>wSha\<close> is
  \<open>uuid.NewSHA1\<close> in the OID namespace.
\<close>

record world =
  wPrice :: "uuid \<Rightarrow> string option \<Rightarrow> resolve_error + priceResolution"
  wFees :: "uuid \<Rightarrow> string option \<Rightarrow> resolve_error + feeResolution"
  wHold :: "holdCall \<Rightarrow> holdAnswer option"
  wSha :: "string \<Rightarrow> uuid"

definition resolveTicketTypePrice ::
  "world \<Rightarrow> uuid \<Rightarrow> uuid \<Rightarrow> int \<Rightarrow> string option \<Rightarrow> resolve_error + priceResolution" where
  "resolveTicketTypePrice w ticketTypeID organizerID quantity channel =
     bindE (wPrice w ticketTypeID channel) (\<lambda>p.
       case validatePrice p organizerID quantity channel of Some e \<Rightarrow> Inl e | None \<Rightarrow> Inr p)"

definition resolveTicketTypeFees ::
  "world \<Rightarrow> uuid \<Rightarrow> uuid \<Rightarrow> uuid \<Rightarrow> string option \<Rightarrow> resolve_error + feeResolution" where
  "resolveTicketTypeFees w ticketTypeID organizerID performanceID channel =
     bindE (wFees w ticketTypeID channel) (\<lambda>f.
       case validateFees f organizerID performanceID channel of Some e \<Rightarrow> Inl e | None \<Rightarrow> Inr f)"

section \<open>The handler\<close>

record reservedAnswer =
  raReservationID :: uuid
  raHoldID :: uuid
  raBuyerID :: uuid
  raAmount :: int
  raCurrency :: string
  raExpiresAt :: time
  raServerTime :: time
  raSeats :: "string list option"
  raFees :: "feeFields option"

datatype response =
    Refused int string
  | HoldRefused refusal_answer
  | Reserved reservedAnswer

definition sellerOf :: "partnerScope option \<Rightarrow> (string \<times> uuid) option" where
  "sellerOf scope = map_option (\<lambda>sc. (psChannelCode sc, psResellerID sc)) scope"

text \<open>
  The request the handler works on once the credential has spoken: a partner's channel
  is its credential's, and a public caller may not name one.
\<close>

definition scopedRequest :: "partnerScope option \<Rightarrow> reserveRequest \<Rightarrow> response + reserveRequest" where
  "scopedRequest scope in' =
     (case scope of
        Some sc \<Rightarrow>
          if rqOrganizerID in' \<noteq> psOrganizerID sc
          then Inl (Refused 403 ''credential is not scoped to this organizer'')
          else Inr (in'\<lparr>rqChannelCode := Some (psChannelCode sc)\<rparr>)
      | None \<Rightarrow>
          if rqChannelCode in' \<noteq> None
          then Inl (Refused 400 ''channel_code is not accepted on a public reservation'')
          else Inr in')"

text \<open>The hold request, first attempt and replay; a seated body replaces the scoped one.\<close>

definition gaHold ::
  "string \<Rightarrow> partnerScope option \<Rightarrow> uuid \<Rightarrow> uuid \<Rightarrow> uuid \<Rightarrow> int \<Rightarrow> int \<Rightarrow> string \<Rightarrow> holdCall" where
  "gaHold key scope org slot ticket quantity unit currency =
     \<lparr>hcSeatedRoute = False, hcInternal = (scope \<noteq> None), hcKey = key, hcOrganizerID = org, hcSlotID = slot,
      hcTicketTypeID = ticket, hcQuantity = Some quantity, hcSeatIdentities = None, hcUnitAmount = unit,
      hcCurrency = currency, hcSeller = sellerOf scope\<rparr>"

definition seatedHold ::
  "string \<Rightarrow> uuid \<Rightarrow> uuid \<Rightarrow> uuid \<Rightarrow> string list \<Rightarrow> int \<Rightarrow> string \<Rightarrow> holdCall" where
  "seatedHold key org slot ticket seats unit currency =
     \<lparr>hcSeatedRoute = True, hcInternal = False, hcKey = key, hcOrganizerID = org, hcSlotID = slot,
      hcTicketTypeID = ticket, hcQuantity = None, hcSeatIdentities = Some seats, hcUnitAmount = unit,
      hcCurrency = currency, hcSeller = None\<rparr>"

definition callFailed :: "holdAnswer option \<Rightarrow> bool" where
  "callFailed a = (case a of None \<Rightarrow> True | Some x \<Rightarrow> haCode x \<noteq> 200 \<and> haCode x \<noteq> 201)"

definition answerCode :: "holdAnswer option \<Rightarrow> int" where
  "answerCode a = (case a of None \<Rightarrow> 0 | Some x \<Rightarrow> haCode x)"

definition noBody :: refusalBody where
  "noBody = \<lparr>rbDecodes = False, rbError = None, rbCode = None, rbSeats = [], rbPoolKind = False\<rparr>"

definition answerRefusal :: "holdAnswer option \<Rightarrow> refusalBody" where
  "answerRefusal a = (case a of None \<Rightarrow> noBody | Some x \<Rightarrow> haRefusal x)"

definition storedSeats :: "reservation \<Rightarrow> string list" where
  "storedSeats row = (case rvSeats row of None \<Rightarrow> [] | Some s \<Rightarrow> s)"

text \<open>A replay: the row exists, and nothing is priced again.\<close>

definition replayReserve ::
  "world \<Rightarrow> partnerScope option \<Rightarrow> string \<Rightarrow> reserveRequest \<Rightarrow> reservation \<Rightarrow> response" where
  "replayReserve w scope key in' pin =
     (let pinnedSeats = storedSeats pin in
      if \<not> sameTerms in' (rvQuantity pin) (rvTicketTypeID pin) (rvChannelCode pin) pinnedSeats
      then Refused 409 ''idempotency key reused with different terms''
      else
        let call = (if length pinnedSeats > 0
              then seatedHold key (rqOrganizerID in') (rvSlotID pin) (rvTicketTypeID pin) pinnedSeats
                     (rvUnitAmount pin) (rvCurrency pin)
              else gaHold key scope (rqOrganizerID in') (rvSlotID pin) (rvTicketTypeID pin)
                     (rvQuantity pin) (rvUnitAmount pin) (rvCurrency pin));
            answer = wHold w call in
        if callFailed answer then
          (if length pinnedSeats > 0
           then HoldRefused (seatedInventoryRefusal (answerCode answer) (answerRefusal answer) pinnedSeats)
           else if publicGASoldOut scope (answer = None) (answerCode answer) (answerRefusal answer)
           then HoldRefused SoldOut
           else HoldRefused InventoryUnavailable)
        else (case haHold (the answer) of
                None \<Rightarrow> HoldRefused InvalidInventoryResponse
              | Some replayed \<Rightarrow>
                  if hbID replayed \<noteq> rvHoldID pin
                  then Refused 409 ''hold no longer matches the reservation''
                  else (case addStoredFeeFields (rvFaceValue pin) (rvFeeSnapshot pin) of
                          Inl e \<Rightarrow> Refused 500 ''persist reservation''
                        | Inr fees \<Rightarrow> Reserved
                            \<lparr>raReservationID = rvID pin, raHoldID = rvHoldID pin, raBuyerID = rvBuyerID pin,
                             raAmount = rvAmount pin, raCurrency = rvCurrency pin,
                             raExpiresAt = hbExpiresAt replayed, raServerTime = hbServerTime replayed,
                             raSeats = (if length pinnedSeats > 0 then Some pinnedSeats else None),
                             raFees = fees\<rparr>)))"

text \<open>Everything that is asked and checked before inventory is.\<close>

definition quoteReserve ::
  "world \<Rightarrow> reserveRequest \<Rightarrow> response + (priceResolution \<times> feeResolution \<times> price)" where
  "quoteReserve w in' =
     (case resolveTicketTypePrice w (rqTicketTypeID in') (rqOrganizerID in') (units in') (rqChannelCode in') of
        Inl e \<Rightarrow> Inl (if e = ErrResolveUnavailable then Refused 502 ''catalog unavailable''
                      else Refused 500 ''price resolution unusable'')
      | Inr resolution \<Rightarrow>
          (case resolveTicketTypeFees w (rqTicketTypeID in') (rqOrganizerID in')
                  (pnPerformanceID resolution) (rqChannelCode in') of
             Inl e \<Rightarrow> Inl (if e = ErrResolveUnavailable then Refused 502 ''catalog unavailable''
                           else Refused 500 ''fee resolution unusable'')
           | Inr fees \<Rightarrow>
               if fnCurrency fees \<noteq> rmCurrency (pnResolvedPrice resolution)
               then Inl (Refused 500 ''fee resolution unusable'')
               else let o' = \<lparr>poAmount = rmAmount (pnResolvedPrice resolution),
                             poCurrency = rmCurrency (pnResolvedPrice resolution)\<rparr> in
                 (case checkCompositionFits (fnFees fees) o' (priceTotal resolution (units in')) (units in') of
                    Some e \<Rightarrow> Inl (Refused 400 ''order total out of range'')
                  | None \<Rightarrow> Inr (resolution, fees, o'))))"

text \<open>The claim, and how many tickets it is for.\<close>

definition claimReserve ::
  "world \<Rightarrow> partnerScope option \<Rightarrow> string \<Rightarrow> reserveRequest \<Rightarrow> priceResolution \<Rightarrow> price \<Rightarrow>
   response + (holdBody \<times> int)" where
  "claimReserve w scope key in' resolution o' =
     (let call = (if seated in'
              then seatedHold key (rqOrganizerID in') (pnPerformanceID resolution) (rqTicketTypeID in')
                     (rqSeatIdentities in') (poAmount o') (poCurrency o')
              else gaHold key scope (rqOrganizerID in') (pnPerformanceID resolution) (rqTicketTypeID in')
                     (rqQuantity in') (poAmount o') (poCurrency o'));
          answer = wHold w call in
      if callFailed answer then
        Inl (if seated in'
             then HoldRefused (seatedInventoryRefusal (answerCode answer) (answerRefusal answer)
                    (canonicalSeatSet in'))
             else if publicGASoldOut scope (answer = None) (answerCode answer) (answerRefusal answer)
             then HoldRefused SoldOut
             else if rbPoolKind (answerRefusal answer) then HoldRefused SeatedPoolUnsupported
             else HoldRefused InventoryUnavailable)
      else (case haHold (the answer) of
              None \<Rightarrow> Inl (HoldRefused InvalidInventoryResponse)
            | Some hold \<Rightarrow>
                if seated in' then
                  (if length (hbSeats hold) = 0 \<or>
                      hbQuantity hold \<noteq> wrap32 (int (length (hbSeats hold))) \<or>
                      \<not> sameSeats (hbSeats hold) (canonicalSeatSet in')
                   then Inl (HoldRefused InvalidInventoryResponse)
                   else Inr (hold, wrap32 (int (length (hbSeats hold)))))
                else Inr (hold, rqQuantity in')))"

text \<open>The money of the claim: face value, fees, gross.\<close>

definition composeReserve ::
  "priceResolution \<Rightarrow> feeResolution \<Rightarrow> price \<Rightarrow> int \<Rightarrow> response + (int \<times> feeComposition \<times> int)" where
  "composeReserve resolution fees o' quantity =
     (let faceValue = priceTotal resolution quantity in
      case computeFeeBreakdown (fnFees fees) (poAmount o') quantity (poCurrency o') of
        Inl e \<Rightarrow> Inl (Refused 500 ''fee composition failed after the hold'')
      | Inr cm \<Rightarrow>
          (case composedTotal faceValue (coPassedOnTotal cm) of
             Inl e \<Rightarrow> Inl (Refused 500 ''fee composition failed after the hold'')
           | Inr gross \<Rightarrow> Inr (faceValue, cm, gross)))"

text \<open>
  \<open>INSERT \<dots> ON CONFLICT (id) DO NOTHING\<close> into the table as it is then, and the re-read
  when another request's row was there first.
\<close>

definition persistReserve ::
  "commerceDB \<Rightarrow> reserveRequest \<Rightarrow> holdBody \<Rightarrow> reservation \<Rightarrow> feeComposition \<Rightarrow> response \<times> commerceDB" where
  "persistReserve db in' hold row cm =
     (case db (rvID row) of
        None \<Rightarrow>
          (Reserved \<lparr>raReservationID = rvID row, raHoldID = hbID hold, raBuyerID = rvBuyerID row,
             raAmount = rvAmount row, raCurrency = rvCurrency row, raExpiresAt = hbExpiresAt hold,
             raServerTime = hbServerTime hold,
             raSeats = (if seated in' then Some (hbSeats hold) else None),
             raFees = addFeeFields (rvFaceValue row) cm\<rparr>,
           db(rvID row \<mapsto> row))
      | Some stored \<Rightarrow>
          (if rvOrganizerID stored \<noteq> rqOrganizerID in' then Refused 500 ''persist reservation''
           else if \<not> sameTerms in' (rvQuantity stored) (rvTicketTypeID stored) (rvChannelCode stored)
                     (storedSeats stored)
           then Refused 409 ''idempotency key reused with different terms''
           else (case addStoredFeeFields (rvFaceValue stored) (rvFeeSnapshot stored) of
                   Inl e \<Rightarrow> Refused 500 ''persist reservation''
                 | Inr fees \<Rightarrow> Reserved
                     \<lparr>raReservationID = rvID row, raHoldID = hbID hold, raBuyerID = rvBuyerID row,
                      raAmount = rvAmount stored, raCurrency = rvCurrency row,
                      raExpiresAt = hbExpiresAt hold, raServerTime = hbServerTime hold,
                      raSeats = (if length (storedSeats stored) > 0 then Some (storedSeats stored) else None),
                      raFees = fees\<rparr>),
           db))"

text \<open>A request whose id names no row yet.\<close>

definition freshReserve ::
  "world \<Rightarrow> partnerScope option \<Rightarrow> string \<Rightarrow> uuid \<Rightarrow> reserveRequest \<Rightarrow> commerceDB \<Rightarrow> response \<times> commerceDB" where
  "freshReserve w scope key rid in' db' =
     (case quoteReserve w in' of
        Inl r \<Rightarrow> (r, db')
      | Inr (resolution, fees, o') \<Rightarrow>
          (case claimReserve w scope key in' resolution o' of
             Inl r \<Rightarrow> (r, db')
           | Inr (hold, quantity) \<Rightarrow>
               (case composeReserve resolution fees o' quantity of
                  Inl r \<Rightarrow> (r, db')
                | Inr (faceValue, cm, gross) \<Rightarrow>
                    persistReserve db' in' hold
                      \<lparr>rvID = rid, rvOrganizerID = rqOrganizerID in', rvHoldID = hbID hold,
                       rvSlotID = pnPerformanceID resolution, rvTicketTypeID = rqTicketTypeID in',
                       rvBuyerID = wSha w (''buyer:'' @ uuid_String rid), rvQuantity = quantity,
                       rvUnitAmount = poAmount o', rvAmount = gross, rvFaceValue = faceValue,
                       rvCurrency = poCurrency o', rvStatus = ''held'',
                       rvSeats = (if seated in' then Some (hbSeats hold) else None),
                       rvFeeSnapshot = feeSnapshotEnvelope fees cm faceValue gross,
                       rvChannelCode = rqChannelCode in',
                       rvResellerID = map_option psResellerID scope\<rparr>
                      cm)))"

text \<open>
  \<open>db\<close> is the table the handler's lookup reads, \<open>db'\<close> the table its insert meets: another
  request may have committed in between.
\<close>

definition reserveWithScope ::
  "world \<Rightarrow> partnerScope option \<Rightarrow> string \<Rightarrow> reserveRequest \<Rightarrow> commerceDB \<Rightarrow> commerceDB \<Rightarrow>
   response \<times> commerceDB" where
  "reserveWithScope w scope header in0 db db' =
     (let key = TrimSpace header in
      if key = '''' \<or> length key > 200 then (Refused 400 ''Idempotency-Key required'', db')
      else (case scopedRequest scope in0 of
        Inl r \<Rightarrow> (r, db')
      | Inr in' \<Rightarrow>
          if \<not> validReservationShape in' then (Refused 400 ''invalid reservation'', db')
          else let rid = reservationID (wSha w) (rqOrganizerID in') key scope in
            (case db rid of
               Some pin \<Rightarrow>
                 if rvOrganizerID pin = rqOrganizerID in'
                 then (replayReserve w scope key in' pin, db')
                 else freshReserve w scope key rid in' db'
             | None \<Rightarrow> freshReserve w scope key rid in' db')))"

section \<open>What a persisted row says\<close>

definition itemSum :: "string \<Rightarrow> feeBreakdownItem list \<Rightarrow> int" where
  "itemSum inc items = sum_list (map biAmount (filter (\<lambda>i. biIncidence i = inc) items))"

text \<open>
  The row explains its own money: the face is unit price times tickets, the gross is the
  face plus the passed-on items of the stored breakdown, and the stored totals are the
  sums of the stored items, all without wrapping.
\<close>

definition itemsSound :: "reservation \<Rightarrow> envelope \<Rightarrow> bool" where
  "itemsSound row env \<longleftrightarrow>
     evPassedOnFees env = itemSum incidencePassedOn (evBreakdown env) \<and>
     evAbsorbedFees env = itemSum incidenceAbsorbed (evBreakdown env) \<and>
     evAbsorbedFees env \<le> MaxInt64 \<and>
     (\<forall>i \<in> set (evBreakdown env). 0 \<le> biAmount i \<and> biAmount i \<le> MaxInt64 \<and>
        biCurrency i = rvCurrency row \<and> biIncidence i \<in> {incidencePassedOn, incidenceAbsorbed})"

definition moneyExplained :: "reservation \<Rightarrow> envelope \<Rightarrow> bool" where
  "moneyExplained row env \<longleftrightarrow>
     0 \<le> rvUnitAmount row \<and> 1 \<le> rvQuantity row \<and>
     rvFaceValue row = rvUnitAmount row * rvQuantity row \<and>
     rvAmount row = rvFaceValue row + evPassedOnFees env \<and> rvAmount row \<le> MaxInt64 \<and>
     evFaceValue env = rvFaceValue row \<and> evTotalAmount env = rvAmount row \<and>
     rvCurrency row = ''EUR'' \<and> itemsSound row env"

definition rowExplained :: "reservation \<Rightarrow> bool" where
  "rowExplained row \<longleftrightarrow> (\<exists>env. rvFeeSnapshot row = Envelope env \<and> moneyExplained row env)"

lemma composition_items_sound:
  assumes "computeFeeBreakdown fees face q currency = Inr c"
    and "\<And>w. w \<in> set (winners fees) \<Longrightarrow> validRule w"
  shows "coPassedOnTotal c = itemSum incidencePassedOn (coItems c)"
    and "coAbsorbedTotal c = itemSum incidenceAbsorbed (coItems c)"
    and "0 \<le> coPassedOnTotal c" and "coPassedOnTotal c \<le> MaxInt64"
    and "0 \<le> coAbsorbedTotal c" and "coAbsorbedTotal c \<le> MaxInt64"
    and "\<forall>i \<in> set (coItems c). 0 \<le> biAmount i \<and> biAmount i \<le> MaxInt64 \<and>
        biCurrency i = currency \<and> biIncidence i \<in> {incidencePassedOn, incidenceAbsorbed}"
proof -
  have q: "1 \<le> q" and ch: "\<And>w. w \<in> set (winners fees) \<Longrightarrow> chargeable face q currency w"
    and ft: "fits fees face q" and c: "c = composition fees face q"
    using breakdown_Inr_iff [of fees face q currency c] assms validRule_machine by auto
  have w: "rwCurrency w = currency \<and> 0 \<le> charge face q w \<and> charge face q w \<le> MaxInt64"
    if w: "w \<in> set (winners fees)" for w
    using lineAmount_Inr [OF _ _ q, of w face currency "charge face q w"] ch [OF w]
      validRule_machine [OF assms(2) [OF w]] by (simp add: chargeable_def)
  show "coPassedOnTotal c = itemSum incidencePassedOn (coItems c)"
    "coAbsorbedTotal c = itemSum incidenceAbsorbed (coItems c)"
    by (simp_all add: c composition_def itemSum_def incidenceSum_def feesOf_def filter_map o_def itemOf_def)
  show "coPassedOnTotal c \<le> MaxInt64" "coAbsorbedTotal c \<le> MaxInt64"
    using ft by (simp_all add: c composition_def fits_def)
  show "0 \<le> coPassedOnTotal c" "0 \<le> coAbsorbedTotal c"
    using w by (simp_all add: c composition_def incidenceSum_nonneg)
  show "\<forall>i \<in> set (coItems c). 0 \<le> biAmount i \<and> biAmount i \<le> MaxInt64 \<and>
        biCurrency i = currency \<and> biIncidence i \<in> {incidencePassedOn, incidenceAbsorbed}"
    using w assms(2) by (auto simp: c composition_def itemOf_def validRule_def)
qed

lemma quoteReserve_Inr:
  assumes "quoteReserve w in' = Inr (p, f, o')"
  shows "validatePrice p (rqOrganizerID in') (units in') (rqChannelCode in') = None"
    and "validateFees f (rqOrganizerID in') (pnPerformanceID p) (rqChannelCode in') = None"
    and "o' = \<lparr>poAmount = rmAmount (pnResolvedPrice p), poCurrency = rmCurrency (pnResolvedPrice p)\<rparr>"
    and "checkCompositionFits (fnFees f) o' (priceTotal p (units in')) (units in') = None"
    and "fnCurrency f = poCurrency o'"
  using assms
  by (auto simp: quoteReserve_def resolveTicketTypePrice_def resolveTicketTypeFees_def Let_def bindE_Inr_iff
      split: sum.splits option.splits if_splits)

lemma claimReserve_quantity:
  assumes "claimReserve w scope key in' p o' = Inr (hold, q)" and "validReservationShape in'"
  shows "q = units in'" and "seated in' \<Longrightarrow> hbSeats hold = canonicalSeatSet in'"
  using assms
  by (auto simp: claimReserve_def Let_def units_def split: if_splits option.splits)

lemma composeReserve_checked:
  assumes "quoteReserve w in' = Inr (p, f, o')"
  shows "\<exists>cm gross. composeReserve p f o' (units in') = Inr (priceTotal p (units in'), cm, gross) \<and>
    computeFeeBreakdown (fnFees f) (poAmount o') (units in') (poCurrency o') = Inr cm \<and>
    composedTotal (priceTotal p (units in')) (coPassedOnTotal cm) = Inr gross"
  using quoteReserve_Inr(4) [OF assms]
  by (auto simp: checkCompositionFits_def composeReserve_def Let_def split: sum.splits)

definition newRow ::
  "world \<Rightarrow> partnerScope option \<Rightarrow> uuid \<Rightarrow> reserveRequest \<Rightarrow> priceResolution \<Rightarrow> feeResolution \<Rightarrow>
   holdBody \<Rightarrow> feeComposition \<Rightarrow> int \<Rightarrow> reservation" where
  "newRow w scope rid in' p f hold cm gross =
     \<lparr>rvID = rid, rvOrganizerID = rqOrganizerID in', rvHoldID = hbID hold,
      rvSlotID = pnPerformanceID p, rvTicketTypeID = rqTicketTypeID in',
      rvBuyerID = wSha w (''buyer:'' @ uuid_String rid), rvQuantity = units in',
      rvUnitAmount = rmAmount (pnResolvedPrice p), rvAmount = gross, rvFaceValue = priceTotal p (units in'),
      rvCurrency = rmCurrency (pnResolvedPrice p), rvStatus = ''held'',
      rvSeats = (if seated in' then Some (hbSeats hold) else None),
      rvFeeSnapshot = feeSnapshotEnvelope f cm (priceTotal p (units in')) gross,
      rvChannelCode = rqChannelCode in', rvResellerID = map_option psResellerID scope\<rparr>"

text \<open>Once the quote stands, the only ways out are a refused claim and the insert.\<close>

lemma freshReserve_cases:
  assumes shape: "validReservationShape in'"
  obtains (refused) r where "freshReserve w scope key rid in' db' = (r, db')"
      "quoteReserve w in' = Inl r \<or> (\<exists>p f o'. quoteReserve w in' = Inr (p, f, o') \<and>
         claimReserve w scope key in' p o' = Inl r)"
    | (claimed) p f o' hold cm gross where
      "quoteReserve w in' = Inr (p, f, o')" "claimReserve w scope key in' p o' = Inr (hold, units in')"
      "computeFeeBreakdown (fnFees f) (poAmount o') (units in') (poCurrency o') = Inr cm"
      "composedTotal (priceTotal p (units in')) (coPassedOnTotal cm) = Inr gross"
      "freshReserve w scope key rid in' db' =
         persistReserve db' in' hold (newRow w scope rid in' p f hold cm gross) cm"
proof (cases "quoteReserve w in'")
  case (Inl r)
  then show ?thesis by (intro refused [of r]) (simp_all add: freshReserve_def)
next
  case (Inr t)
  obtain p f o' where t: "t = (p, f, o')" by (cases t)
  show ?thesis
  proof (cases "claimReserve w scope key in' p o'")
    case (Inl r)
    then show ?thesis using Inr t by (intro refused [of r]) (simp_all add: freshReserve_def)
  next
    case claim: (Inr hq)
    obtain hold q where hq: "hq = (hold, q)" by (cases hq)
    have q: "q = units in'" using claimReserve_quantity(1) claim hq shape by blast
    obtain cm gross where c: "composeReserve p f o' (units in') = Inr (priceTotal p (units in'), cm, gross)"
      "computeFeeBreakdown (fnFees f) (poAmount o') (units in') (poCurrency o') = Inr cm"
      "composedTotal (priceTotal p (units in')) (coPassedOnTotal cm) = Inr gross"
      using composeReserve_checked Inr t by blast
    show ?thesis
      using Inr t claim hq q c quoteReserve_Inr(3) [of w in' p f o']
      by (intro claimed [of p f o' hold cm gross]) (simp_all add: freshReserve_def newRow_def)
  qed
qed

lemma newRow_explained:
  assumes quote: "quoteReserve w in' = Inr (p, f, o')" and shape: "validReservationShape in'"
    and cm: "computeFeeBreakdown (fnFees f) (poAmount o') (units in') (poCurrency o') = Inr cm"
    and gross: "composedTotal (priceTotal p (units in')) (coPassedOnTotal cm) = Inr gross"
  shows "rowExplained (newRow w scope rid in' p f hold cm gross)"
proof -
  note q = quoteReserve_Inr [OF quote]
  note price = validatePrice_None [OF q(1)]
  have u: "0 \<le> units in'" using price(6) by simp
  note face = total_exact [OF q(1) u order_refl]
  note items = composition_items_sound [OF cm validateFees_winners [OF q(2)]]
  have "gross = priceTotal p (units in') + coPassedOnTotal cm \<and> gross \<le> MaxInt64"
    using gross checkedAdd_cases [OF face(2) items(3,4)] by (auto simp: composedTotal_def split: if_splits)
  then show ?thesis
    using items price face(1) q(3)
    by (simp add: rowExplained_def moneyExplained_def itemsSound_def newRow_def feeSnapshotEnvelope_def)
qed

lemma persistReserve_cases:
  "persistReserve db' in' hold row cm = (r, db'') \<Longrightarrow>
    db' (rvID row) = None \<and> db'' = db'(rvID row \<mapsto> row) \<or> (\<exists>s. db' (rvID row) = Some s) \<and> db'' = db'"
  by (auto simp: persistReserve_def split: option.splits)

lemma freshReserve_db:
  assumes "freshReserve w scope key rid in' db' = (r, db'')" and "validReservationShape in'"
  shows "db'' = db' \<or> (\<exists>row. db' rid = None \<and> db'' = db'(rid \<mapsto> row) \<and> rowExplained row \<and>
    rvChannelCode row = rqChannelCode in' \<and> rvResellerID row = map_option psResellerID scope \<and>
    rvOrganizerID row = rqOrganizerID in')"
  using assms(2)
proof (cases rule: freshReserve_cases [where w = w and scope = scope and key = key and rid = rid and db' = db'])
  case (refused r')
  then show ?thesis using assms(1) by simp
next
  case (claimed p f o' hold cm gross)
  have p: "persistReserve db' in' hold (newRow w scope rid in' p f hold cm gross) cm = (r, db'')"
    using claimed(5) assms(1) by simp
  have e: "rowExplained (newRow w scope rid in' p f hold cm gross)"
    by (rule newRow_explained [OF claimed(1) assms(2) claimed(3,4)])
  have rid: "rvID (newRow w scope rid in' p f hold cm gross) = rid" by (simp add: newRow_def)
  show ?thesis
    using persistReserve_cases [OF p] e unfolding rid
    by (auto simp: newRow_def intro!: exI [of _ "newRow w scope rid in' p f hold cm gross"])
qed

lemma reserveWithScope_cases:
  assumes "reserveWithScope w scope header in0 db db' = (r, db'')"
  obtains (early) "db'' = db'" "\<And>a. r \<noteq> Reserved a" "\<And>m. r \<noteq> Refused 500 m"
    | (replay) in' pin where "scopedRequest scope in0 = Inr in'" "validReservationShape in'"
        "db (reservationID (wSha w) (rqOrganizerID in') (TrimSpace header) scope) = Some pin"
        "rvOrganizerID pin = rqOrganizerID in'" "db'' = db'"
        "r = replayReserve w scope (TrimSpace header) in' pin"
    | (fresh) in' where "scopedRequest scope in0 = Inr in'" "validReservationShape in'"
        "case db (reservationID (wSha w) (rqOrganizerID in') (TrimSpace header) scope) of
           None \<Rightarrow> True | Some pin \<Rightarrow> rvOrganizerID pin \<noteq> rqOrganizerID in'"
        "freshReserve w scope (TrimSpace header)
           (reservationID (wSha w) (rqOrganizerID in') (TrimSpace header) scope) in' db' = (r, db'')"
proof (cases "scopedRequest scope in0")
  case (Inl r')
  have "\<And>a. r' \<noteq> Reserved a" "\<And>m. r' \<noteq> Refused 500 m"
    using Inl by (auto simp: scopedRequest_def split: option.splits if_splits)
  then show ?thesis using Inl assms by (intro early) (auto simp: reserveWithScope_def Let_def split: if_splits)
next
  case (Inr in')
  show ?thesis
  proof (cases "TrimSpace header = '''' \<or> length (TrimSpace header) > 200 \<or> \<not> validReservationShape in'")
    case True
    then show ?thesis using Inr assms
      by (intro early) (auto simp: reserveWithScope_def Let_def split: if_splits)
  next
    case False
    let ?rid = "reservationID (wSha w) (rqOrganizerID in') (TrimSpace header) scope"
    show ?thesis
    proof (cases "db ?rid")
      case None
      then show ?thesis using Inr False assms
        by (intro fresh [of in']) (auto simp: reserveWithScope_def Let_def)
    next
      case (Some pin)
      show ?thesis
      proof (cases "rvOrganizerID pin = rqOrganizerID in'")
        case True
        then show ?thesis using Some Inr False assms
          by (intro replay [of in' pin]) (auto simp: reserveWithScope_def Let_def)
      next
        case no: False
        then show ?thesis using Some Inr False assms
          by (intro fresh [of in']) (auto simp: reserveWithScope_def Let_def)
      qed
    qed
  qed
qed

lemma scopedRequest_channel:
  "scopedRequest scope in0 = Inr in' \<Longrightarrow>
    rqChannelCode in' = map_option psChannelCode scope \<and> rqOrganizerID in' = rqOrganizerID in0 \<and>
    (\<forall>sc. scope = Some sc \<longrightarrow> psOrganizerID sc = rqOrganizerID in0)"
  by (auto simp: scopedRequest_def split: option.splits if_splits)

lemma reserve_db:
  assumes "reserveWithScope w scope header in0 db db' = (r, db'')"
  shows "db'' = db' \<or> (\<exists>rid row. db' rid = None \<and> db'' = db'(rid \<mapsto> row) \<and> rowExplained row \<and>
    rvChannelCode row = map_option psChannelCode scope \<and>
    rvResellerID row = map_option psResellerID scope \<and> rvOrganizerID row = rqOrganizerID in0)"
  using assms
proof (cases rule: reserveWithScope_cases)
  case (fresh in')
  show ?thesis using freshReserve_db [OF fresh(4,2)] scopedRequest_channel [OF fresh(1)] by metis
qed simp_all

section \<open>A worked sale\<close>

definition demoWorld :: world where
  "demoWorld =
     \<lparr>wPrice = (\<lambda>t c. Inr demoPriceResolution), wFees = (\<lambda>t c. Inr demoFeeResolution),
      wHold = (\<lambda>call. Some \<lparr>haCode = 201,
        haHold = Some \<lparr>hbID = 55, hbExpiresAt = 900, hbServerTime = 101, hbSeats = [], hbQuantity = 3\<rparr>,
        haRefusal = noBody\<rparr>),
      wSha = (\<lambda>t. 77)\<rparr>"

definition demoGA :: reserveRequest where
  "demoGA = \<lparr>rqOrganizerID = 9, rqTicketTypeID = 1, rqQuantity = 3, rqSeatIdentities = [], rqChannelCode = None\<rparr>"

lemma demo_units: "units demoGA = 3" "validReservationShape demoGA" "\<not> seated demoGA"
  by (simp_all add: demoGA_def units_def seated_def validReservationShape_def)

lemma demo_fields:
  "rqTicketTypeID demoGA = 1" "rqOrganizerID demoGA = 9" "rqChannelCode demoGA = None" "rqQuantity demoGA = 3"
  "pnPerformanceID demoPriceResolution = 2" "fnFees demoFeeResolution = demoFees"
  "fnCurrency demoFeeResolution = ''EUR''"
  "pnResolvedPrice demoPriceResolution = \<lparr>rmAmount = 6000, rmCurrency = ''EUR''\<rparr>"
  by (simp_all add: demoGA_def demoPriceResolution_def demoFeeResolution_def)

lemma demo_breakdown: "computeFeeBreakdown demoFees 6000 3 ''EUR'' = Inr (composition demoFees 6000 3)"
  and demo_passed: "coPassedOnTotal (composition demoFees 6000 3) = 597"
  using breakdown_valid [of demoFees "''EUR''" 6000 3] demo_winners
  by (simp_all add: composition_def fits_def demo_charge_defs charge_def exactAmount_def)

lemma demo_total: "priceTotal demoPriceResolution 3 = 18000"
  by (simp add: priceTotal_def demoPriceResolution_def wrap64_def)

lemma demo_composed: "composedTotal 18000 597 = Inr 18597"
  by (simp add: composedTotal_def checkedAdd_def wrap64_def)

lemma demo_quote:
  "quoteReserve demoWorld demoGA = Inr (demoPriceResolution, demoFeeResolution, \<lparr>poAmount = 6000, poCurrency = ''EUR''\<rparr>)"
proof -
  have "resolveTicketTypePrice demoWorld 1 9 3 None = Inr demoPriceResolution"
    by (simp add: resolveTicketTypePrice_def demoWorld_def demo_price_validates)
  moreover have "resolveTicketTypeFees demoWorld 1 9 2 None = Inr demoFeeResolution"
    by (simp add: resolveTicketTypeFees_def demoWorld_def demo_validates)
  moreover have "checkCompositionFits demoFees \<lparr>poAmount = 6000, poCurrency = ''EUR''\<rparr> 18000 3 = None"
    by (simp add: checkCompositionFits_def demo_breakdown demo_passed demo_composed)
  ultimately show ?thesis by (simp add: quoteReserve_def demo_units demo_total demo_fields Let_def)
qed

definition demoHold :: holdBody where
  "demoHold = \<lparr>hbID = 55, hbExpiresAt = 900, hbServerTime = 101, hbSeats = [], hbQuantity = 3\<rparr>"

definition demoRow :: reservation where
  "demoRow = newRow demoWorld None 77 demoGA demoPriceResolution demoFeeResolution demoHold
     (composition demoFees 6000 3) 18597"

definition demoAnswer :: reservedAnswer where
  "demoAnswer = \<lparr>raReservationID = 77, raHoldID = 55, raBuyerID = 77, raAmount = 18597, raCurrency = ''EUR'',
     raExpiresAt = 900, raServerTime = 101, raSeats = None,
     raFees = addFeeFields 18000 (composition demoFees 6000 3)\<rparr>"

lemma demoWorld_wSha: "wSha demoWorld = (\<lambda>t. 77)"
  by (simp add: demoWorld_def)

lemma demo_claim:
  "claimReserve demoWorld None k demoGA demoPriceResolution o' = Inr (demoHold, 3)"
  by (simp add: claimReserve_def demo_units demo_fields callFailed_def demoWorld_def demoHold_def Let_def)

lemma demo_fresh: "freshReserve demoWorld None k 77 demoGA Map.empty = (Reserved demoAnswer, [77 \<mapsto> demoRow])"
proof -
  have c: "composeReserve demoPriceResolution demoFeeResolution \<lparr>poAmount = 6000, poCurrency = ''EUR''\<rparr> 3 =
      Inr (18000, composition demoFees 6000 3, 18597)"
    using demo_breakdown demo_passed demo_composed
    by (simp add: composeReserve_def demo_total Let_def demoFeeResolution_def)
  show ?thesis
    by (simp add: freshReserve_def demo_quote demo_claim c persistReserve_def demoRow_def newRow_def
        demoAnswer_def demo_units demo_total demo_fields demoHold_def demoWorld_wSha)
qed

lemma demo_trim: "TrimSpace ''k1'' = ''k1''"
  by (simp add: TrimSpace_def dropSpace_def spaceRunes_def numeral_2_eq_2 upt_rec)

lemma demo_reserve:
  "reserveWithScope demoWorld None ''k1'' demoGA Map.empty Map.empty = (Reserved demoAnswer, [77 \<mapsto> demoRow])"
proof -
  have "scopedRequest None demoGA = Inr demoGA" by (simp add: scopedRequest_def demoGA_def)
  moreover have "reservationID (wSha demoWorld) o' k None = 77" for o' k
    by (simp add: reservationID_def demoWorld_def)
  ultimately show ?thesis
    by (simp add: reserveWithScope_def demo_trim demo_units demo_fresh Let_def)
qed

lemma persistReserve_answer:
  assumes "persistReserve db' in' hold row cm = (Reserved a, db'')" and "rvOrganizerID row = rqOrganizerID in'"
    and "addStoredFeeFields (rvFaceValue row) (rvFeeSnapshot row) = Inr (addFeeFields (rvFaceValue row) cm)"
  shows "\<exists>s. db'' (rvID row) = Some s \<and> raAmount a = rvAmount s \<and> rvOrganizerID s = rqOrganizerID in' \<and>
    addStoredFeeFields (rvFaceValue s) (rvFeeSnapshot s) = Inr (raFees a)"
  using assms by (auto simp: persistReserve_def split: option.splits if_splits sum.splits)

text \<open>Every success answers the money of the row its id names.\<close>

lemma reserve_answers_row:
  assumes "reserveWithScope w scope header in0 db db' = (Reserved a, db'')" and "db \<subseteq>\<^sub>m db'"
  shows "\<exists>in' s. scopedRequest scope in0 = Inr in' \<and>
    db'' (reservationID (wSha w) (rqOrganizerID in') (TrimSpace header) scope) = Some s \<and>
    raAmount a = rvAmount s \<and> rvOrganizerID s = rqOrganizerID in' \<and>
    addStoredFeeFields (rvFaceValue s) (rvFeeSnapshot s) = Inr (raFees a)"
  using assms(1)
proof (cases rule: reserveWithScope_cases)
  case early
  then show ?thesis by auto
next
  case (replay in' pin)
  have "raAmount a = rvAmount pin \<and> addStoredFeeFields (rvFaceValue pin) (rvFeeSnapshot pin) = Inr (raFees a)"
    using replay(6) by (auto simp: replayReserve_def Let_def split: if_splits option.splits sum.splits)
  moreover have "db' (reservationID (wSha w) (rqOrganizerID in') (TrimSpace header) scope) = Some pin"
    using assms(2) replay(3) by (force simp: map_le_def)
  ultimately show ?thesis using replay by blast
next
  case (fresh in')
  let ?rid = "reservationID (wSha w) (rqOrganizerID in') (TrimSpace header) scope"
  show ?thesis
    using fresh(2)
  proof (cases rule: freshReserve_cases
      [where w = w and scope = scope and key = "TrimSpace header" and rid = ?rid and db' = db'])
    case (refused r)
    then have "r = Reserved a" using fresh(4) by simp
    moreover have "r \<noteq> Reserved a"
      using refused(2) by (auto simp: quoteReserve_def claimReserve_def Let_def
          split: sum.splits option.splits if_splits)
    ultimately show ?thesis by simp
  next
    case (claimed p f o' hold cm gross)
    let ?row = "newRow w scope ?rid in' p f hold cm gross"
    have "persistReserve db' in' hold ?row cm = (Reserved a, db'')"
      using claimed(5) fresh(4) by simp
    moreover have "rvOrganizerID ?row = rqOrganizerID in'" "rvID ?row = ?rid" by (simp_all add: newRow_def)
    moreover have "addStoredFeeFields (rvFaceValue ?row) (rvFeeSnapshot ?row) =
        Inr (addFeeFields (rvFaceValue ?row) cm)"
      by (simp add: newRow_def addStoredFeeFields_def feeSnapshotEnvelope_def addFeeFields_def)
    ultimately show ?thesis using persistReserve_answer fresh(1) by metis
  qed
qed

section \<open>Properties\<close>

text \<open>
  C34: every reservation explains its own money. Whatever catalog and inventory answer and
  whichever request wins the insert, a reserve changes the table by at most one new row
  under an unused id, and that row's face is unit price times tickets, its gross the face
  plus the passed-on items of its stored breakdown, its stored totals the sums of its
  stored items, all exact within \<open>int64\<close>; so a table of explained rows stays one.
\<close>

theorem reserve_keeps_rows_explained:
  assumes "reserveWithScope w scope header in0 db db' = (r, db'')"
    and "\<forall>row \<in> ran db'. rowExplained row"
  shows "(\<forall>row \<in> ran db''. rowExplained row) \<and> db' \<subseteq>\<^sub>m db'' \<and> card (dom db'' - dom db') \<le> 1"
  using reserve_db [OF assms(1)]
proof (elim disjE exE conjE)
  assume "db'' = db'"
  then show ?thesis using assms(2) by simp
next
  fix rid row
  assume row: "db' rid = None" "db'' = db'(rid \<mapsto> row)" "rowExplained row"
  have "dom db'' - dom db' \<subseteq> {rid}" using row by auto
  then have "card (dom db'' - dom db') \<le> 1" using card_mono [of "{rid}"] by force
  then show ?thesis using row assms(2) by (auto simp: map_le_def ran_def)
qed

theorem reserve_keeps_rows_explained_witness:
  "rowExplained demoRow \<and> card (dom [77 :: uuid \<mapsto> demoRow]) \<le> 1"
  using reserve_keeps_rows_explained [OF demo_reserve] by simp

text \<open>
  Nothing fails between the hold and the row for a reason known before the hold. The
  answer ``fee composition failed after the hold'' is never given: the composition that
  was checked before inventory was called is the one made on the claimed quantity.
\<close>

theorem no_composition_failure_after_the_hold:
  "fst (reserveWithScope w scope header in0 db db') \<noteq> Refused 500 ''fee composition failed after the hold''"
proof -
  obtain r db'' where r: "reserveWithScope w scope header in0 db db' = (r, db'')"
    by (cases "reserveWithScope w scope header in0 db db'")
  from r have "r \<noteq> Refused 500 ''fee composition failed after the hold''"
  proof (cases rule: reserveWithScope_cases)
    case (replay in' pin)
    then show ?thesis by (auto simp: replayReserve_def Let_def split: if_splits option.splits sum.splits)
  next
    case (fresh in')
    let ?rid = "reservationID (wSha w) (rqOrganizerID in') (TrimSpace header) scope"
    show ?thesis
      using fresh(2)
    proof (cases rule: freshReserve_cases
        [where w = w and scope = scope and key = "TrimSpace header" and rid = ?rid and db' = db'])
      case (refused r')
      then show ?thesis using fresh(4)
        by (auto simp: quoteReserve_def claimReserve_def Let_def split: sum.splits option.splits if_splits)
    next
      case (claimed p f o' hold cm gross)
      then show ?thesis using fresh(4)
        by (auto simp: persistReserve_def split: option.splits if_splits sum.splits)
    qed
  qed simp
  then show ?thesis by (simp add: r)
qed

text \<open>
  The price quoted is the price charged, across a retry. Once a reserve has answered
  for a key, every later success under that key answers the same total and the same fee
  breakdown, whatever catalog answers by then, and writes nothing.
\<close>

theorem replay_keeps_the_quote:
  assumes "reserveWithScope w scope header in1 db db' = (Reserved a, db'')" and "db \<subseteq>\<^sub>m db'"
    and "reserveWithScope w2 scope header in2 db'' db3 = (Reserved a2, db4)" and "db'' \<subseteq>\<^sub>m db3"
    and "wSha w2 = wSha w" and "rqOrganizerID in2 = rqOrganizerID in1"
  shows "raAmount a2 = raAmount a \<and> raFees a2 = raFees a \<and> db4 = db3"
proof -
  obtain in1' s where s: "scopedRequest scope in1 = Inr in1'"
    "db'' (reservationID (wSha w) (rqOrganizerID in1') (TrimSpace header) scope) = Some s"
    "raAmount a = rvAmount s" "rvOrganizerID s = rqOrganizerID in1'"
    "addStoredFeeFields (rvFaceValue s) (rvFeeSnapshot s) = Inr (raFees a)"
    using reserve_answers_row [OF assms(1,2)] by blast
  from assms(3) show ?thesis
  proof (cases rule: reserveWithScope_cases)
    case (replay in' pin)
    have "rqOrganizerID in' = rqOrganizerID in1'"
      using scopedRequest_channel [OF replay(1)] scopedRequest_channel [OF s(1)] assms(6) by simp
    then have "pin = s" using replay(3) s(2) assms(5) by simp
    then show ?thesis using replay(5,6) s
      by (auto simp: replayReserve_def Let_def split: if_splits option.splits sum.splits)
  next
    case (fresh in')
    have "rqOrganizerID in' = rqOrganizerID in1'"
      using scopedRequest_channel [OF fresh(1)] scopedRequest_channel [OF s(1)] assms(6) by simp
    then show ?thesis using fresh(3) s(2,4) assms(5) by simp
  next
    case early
    then show ?thesis by blast
  qed
qed

theorem replay_keeps_the_quote_witness:
  "\<exists>a2. reserveWithScope (demoWorld\<lparr>wPrice := \<lambda>t c. Inl ErrResolveUnavailable\<rparr>) None ''k1'' demoGA
      [77 \<mapsto> demoRow] [77 \<mapsto> demoRow] = (Reserved a2, [77 \<mapsto> demoRow]) \<and> raAmount a2 = 18597"
proof -
  let ?w = "demoWorld\<lparr>wPrice := \<lambda>t c. Inl ErrResolveUnavailable\<rparr>"
  have sha: "wSha ?w = wSha demoWorld" by simp
  have "scopedRequest None demoGA = Inr demoGA" by (simp add: scopedRequest_def demo_fields)
  moreover have "reservationID (wSha ?w) o' k None = 77" for o' k
    by (simp add: reservationID_def demoWorld_def)
  moreover have "\<exists>a2. replayReserve ?w None ''k1'' demoGA demoRow = Reserved a2"
    by (simp add: replayReserve_def demoRow_def newRow_def storedSeats_def sameTerms_def demo_units demo_fields
        callFailed_def demoWorld_def demoHold_def addStoredFeeFields_def feeSnapshotEnvelope_def Let_def)
  moreover have "rvOrganizerID demoRow = 9" by (simp add: demoRow_def newRow_def demo_fields)
  ultimately obtain a2 where
    "reserveWithScope ?w None ''k1'' demoGA [77 \<mapsto> demoRow] [77 \<mapsto> demoRow] = (Reserved a2, [77 \<mapsto> demoRow])"
    by (auto simp: reserveWithScope_def demo_trim demo_units demo_fields Let_def)
  then show ?thesis
    using replay_keeps_the_quote [OF demo_reserve _ _ _ sha refl] by (simp add: demoAnswer_def)
qed

text \<open>
  A sale's channel and reseller come from the credential and nothing else. Every row a
  reserve inserts carries exactly the channel and reseller of the authenticated scope, so
  a public sale has neither, and a partner writes only under its own organizer.
\<close>

theorem channel_comes_from_the_credential:
  assumes "reserveWithScope w scope header in0 db db' = (r, db'')"
    and "db'' rid = Some row" and "db' rid = None"
  shows "rvChannelCode row = map_option psChannelCode scope \<and>
    rvResellerID row = map_option psResellerID scope \<and>
    (\<forall>sc. scope = Some sc \<longrightarrow> rvOrganizerID row = psOrganizerID sc)"
  using assms(1)
proof (cases rule: reserveWithScope_cases)
  case (fresh in')
  show ?thesis
    using freshReserve_db [OF fresh(4,2)] scopedRequest_channel [OF fresh(1)] assms(2,3)
    by (auto split: if_splits)
qed (use assms(2,3) in simp_all)

theorem channel_comes_from_the_credential_witness:
  "rvChannelCode demoRow = None \<and> rvResellerID demoRow = None"
  using channel_comes_from_the_credential [OF demo_reserve, of 77 demoRow] by simp

end
