(* ===== verification/Commerce_Settlement.thy ===== *)
theory Commerce_Settlement
  imports Commerce_Reserve
begin

text \<open>
  From a persisted reservation to the attribution payments settles:
  \<open>settlementPlanFromSnapshot\<close> (\<open>src/services/commerce/internal/api/catalog_fees.go\<close>), and
  the gate a partner sale passes first, \<open>validatePartnerCommission\<close> (\<open>partner.go\<close>). Both
  read only the stored snapshot.
\<close>

section \<open>The settlement plan\<close>

text \<open>The members of the plan commerce sends; an absent \<open>external_reference\<close> is \<open>None\<close>.\<close>

record planPart =
  plPayeeID :: string
  plKind :: string
  plDisplayName :: string
  plShareBps :: int
  plExternalReference :: "string option"

record planFee =
  pfeFeeCode :: string
  pfeIncidence :: string
  pfeAmount :: int
  pfeCurrency :: string
  pfeParts :: "planPart list"

record planDoc =
  pdocFaceValue :: int
  pdocPassedOn :: int
  pdocAbsorbed :: int
  pdocTotalAmount :: int
  pdocCurrency :: string
  pdocFees :: "planFee list"

definition planPartOf :: "partDoc \<Rightarrow> planPart" where
  "planPartOf p =
     \<lparr>plPayeeID = pdPayeeID (pdPayee p), plKind = pdKind (pdPayee p),
      plDisplayName = pdDisplayName (pdPayee p), plShareBps = pdShareBps p,
      plExternalReference = pdExternalReference (pdPayee p)\<rparr>"

text \<open>\<open>splitByCode\<close>: a later entry for the same code overwrites an earlier one.\<close>

definition addSplit :: "(string \<Rightarrow> planPart list option) \<Rightarrow> feeDoc \<Rightarrow> (string \<Rightarrow> planPart list option)" where
  "addSplit m f =
     (case fdocWinner f of
        None \<Rightarrow> m
      | Some w \<Rightarrow> m(fdocFeeCode f \<mapsto> map planPartOf (wdParts w)))"

definition splitByCode :: "feeDoc list \<Rightarrow> string \<Rightarrow> planPart list option" where
  "splitByCode fees = foldl addSplit Map.empty fees"

definition planFeeOf :: "(string \<Rightarrow> planPart list option) \<Rightarrow> feeBreakdownItem \<Rightarrow> planFee" where
  "planFeeOf m b =
     \<lparr>pfeFeeCode = biFeeCode b, pfeIncidence = biIncidence b, pfeAmount = biAmount b,
      pfeCurrency = biCurrency b,
      pfeParts = (case m (biFeeCode b) of None \<Rightarrow> [] | Some parts \<Rightarrow> parts)\<rparr>"

definition settlementPlanFromSnapshot :: "reservation \<Rightarrow> resolve_error + planDoc" where
  "settlementPlanFromSnapshot x =
     (let plan = \<lparr>pdocFaceValue = rvFaceValue x, pdocPassedOn = 0, pdocAbsorbed = 0,
                  pdocTotalAmount = rvAmount x, pdocCurrency = rvCurrency x, pdocFees = []\<rparr> in
      case rvFeeSnapshot x of
        NoSnapshot \<Rightarrow>
          if rvFaceValue x \<noteq> rvAmount x
          then Inl (ErrResolveUnusable ''reservation charged over its face with no fee snapshot'')
          else Inr plan
      | Unreadable \<Rightarrow> Inl (ErrResolveUnusable ''fee snapshot is unreadable'')
      | Envelope env \<Rightarrow>
          Inr (plan\<lparr>pdocPassedOn := evPassedOnFees env, pdocAbsorbed := evAbsorbedFees env,
                    pdocFees := map (planFeeOf (splitByCode (evResolution env))) (evBreakdown env)\<rparr>))"

section \<open>A partner's commission\<close>

datatype commission_error = ErrCommissionAbsent | ErrCommissionMisplaced

definition ResellerCommissionFeeCode :: string where
  "ResellerCommissionFeeCode = ''reseller_commission''"

definition expectedRef :: "uuid \<Rightarrow> string" where
  "expectedRef resellerID = ''reseller:'' @ uuid_String resellerID"

definition namesReseller :: "uuid \<Rightarrow> partDoc \<Rightarrow> bool" where
  "namesReseller resellerID part \<longleftrightarrow> pdExternalReference (pdPayee part) = Some (expectedRef resellerID)"

text \<open>The beneficiary check: exactly one part names the reseller, and it is owed something.\<close>

definition checkBeneficiary :: "partDoc list \<Rightarrow> uuid \<Rightarrow> commission_error option" where
  "checkBeneficiary parts resellerID =
     (let matching = filter (namesReseller resellerID) parts in
      if length matching = 0 then Some ErrCommissionMisplaced
      else if length matching > 1 then Some ErrCommissionMisplaced
      else if pdShareBps (last matching) \<le> 0 then Some ErrCommissionMisplaced
      else None)"

definition validatePartnerCommission ::
  "snapshot \<Rightarrow> string \<Rightarrow> uuid \<Rightarrow> commission_error option" where
  "validatePartnerCommission snap channelCode resellerID =
     (case snap of
        NoSnapshot \<Rightarrow> Some ErrCommissionAbsent
      | Unreadable \<Rightarrow> Some ErrCommissionMisplaced
      | Envelope env \<Rightarrow>
          let matched = filter (\<lambda>f. fdocFeeCode f = ResellerCommissionFeeCode) (evResolution env) in
          if \<not> list_ex (\<lambda>b. biFeeCode b = ResellerCommissionFeeCode) (evBreakdown env)
          then Some ErrCommissionAbsent
          else if length matched > 1 then Some ErrCommissionMisplaced
          else if matched = [] then Some ErrCommissionAbsent
          else let fee = last matched in
            (case fdocWinner fee of
               None \<Rightarrow>
                 if fdocMode fee = ''split'' then Some ErrCommissionMisplaced else Some ErrCommissionAbsent
             | Some winner \<Rightarrow>
                 if fdocMode fee \<noteq> ''split'' then Some ErrCommissionMisplaced
                 else if wdChannelCode winner \<noteq> Some channelCode then Some ErrCommissionMisplaced
                 else checkBeneficiary (wdParts winner) resellerID))"

section \<open>Facts\<close>

lemma splitByCode_snoc: "splitByCode (fs @ [f]) = addSplit (splitByCode fs) f"
  by (simp add: splitByCode_def)

lemma splitByCode_Some:
  "splitByCode fees code = Some parts \<Longrightarrow>
     \<exists>f \<in> set fees. \<exists>w. fdocFeeCode f = code \<and> fdocWinner f = Some w \<and> parts = map planPartOf (wdParts w)"
proof (induction fees rule: rev_induct)
  case (snoc f fs)
  then show ?case
    by (auto simp: splitByCode_snoc addSplit_def split: option.splits if_splits)
qed (simp add: splitByCode_def)

lemma splitByCode_single:
  assumes "filter (\<lambda>f. fdocFeeCode f = code) fees = [fee]" and "fdocWinner fee = Some w"
  shows "splitByCode fees code = Some (map planPartOf (wdParts w))"
  using assms(1)
proof (induction fees rule: rev_induct)
  case (snoc f fs)
  show ?case
  proof (cases "fdocFeeCode f = code")
    case True
    then show ?thesis using snoc.prems assms(2) by (simp add: splitByCode_snoc addSplit_def)
  next
    case False
    then show ?thesis using snoc by (simp add: splitByCode_snoc addSplit_def split: option.split)
  qed
qed simp

lemma commission_matched:
  assumes "validatePartnerCommission (Envelope env) channel r = None"
  shows "\<exists>fee w. filter (\<lambda>f. fdocFeeCode f = ResellerCommissionFeeCode) (evResolution env) = [fee] \<and>
    fdocWinner fee = Some w \<and> wdChannelCode w = Some channel \<and> checkBeneficiary (wdParts w) r = None"
proof -
  let ?m = "filter (\<lambda>f. fdocFeeCode f = ResellerCommissionFeeCode) (evResolution env)"
  have m: "?m \<noteq> []" "\<not> length ?m > 1"
    using assms by (auto simp: validatePartnerCommission_def Let_def split: if_splits)
  then obtain fee where fee: "?m = [fee]" by (cases ?m; cases "tl ?m") auto
  then show ?thesis using assms
    by (auto simp: validatePartnerCommission_def Let_def split: if_splits option.splits)
qed

section \<open>Properties\<close>

text \<open>
  C35: a partner sale that passes the commission gate is settled to that partner. In the
  plan commerce then sends, every \<open>reseller_commission\<close> line carries exactly one part
  whose external reference is this reseller, with a positive share: the schedule the gate
  judged is the one the plan forwards.
\<close>

theorem validated_commission_is_settled:
  assumes "validatePartnerCommission (rvFeeSnapshot x) channel r = None"
    and "settlementPlanFromSnapshot x = Inr plan"
  shows "(\<exists>fee \<in> set (pdocFees plan). pfeFeeCode fee = ResellerCommissionFeeCode) \<and>
    (\<forall>fee \<in> set (pdocFees plan). pfeFeeCode fee = ResellerCommissionFeeCode \<longrightarrow>
       (\<exists>part. filter (\<lambda>p. plExternalReference p = Some (expectedRef r)) (pfeParts fee) = [part] \<and>
          plShareBps part > 0))"
proof -
  obtain env where env: "rvFeeSnapshot x = Envelope env"
    using assms(1) by (cases "rvFeeSnapshot x") (simp_all add: validatePartnerCommission_def)
  obtain fee w where m: "filter (\<lambda>f. fdocFeeCode f = ResellerCommissionFeeCode) (evResolution env) = [fee]"
    "fdocWinner fee = Some w" "checkBeneficiary (wdParts w) r = None"
    using commission_matched assms(1) env by metis
  have parts: "splitByCode (evResolution env) ResellerCommissionFeeCode = Some (map planPartOf (wdParts w))"
    by (rule splitByCode_single [OF m(1,2)])
  have plan: "pdocFees plan = map (planFeeOf (splitByCode (evResolution env))) (evBreakdown env)"
    using assms(2) env by (auto simp: settlementPlanFromSnapshot_def Let_def)
  let ?f = "filter (namesReseller r) (wdParts w)"
  have f: "?f \<noteq> []" "\<not> length ?f > 1" "pdShareBps (last ?f) > 0"
    using m(3) by (auto simp: checkBeneficiary_def Let_def split: if_splits)
  then obtain part where part: "?f = [part]" by (cases ?f; cases "tl ?f") auto
  have "filter (\<lambda>p. plExternalReference p = Some (expectedRef r)) (map planPartOf (wdParts w)) = map planPartOf ?f"
    by (simp add: filter_map o_def namesReseller_def [abs_def] planPartOf_def)
  then have one: "filter (\<lambda>p. plExternalReference p = Some (expectedRef r)) (map planPartOf (wdParts w)) =
      [planPartOf part]" by (simp add: part)
  have "\<exists>b \<in> set (evBreakdown env). biFeeCode b = ResellerCommissionFeeCode"
    using assms(1) env by (auto simp: validatePartnerCommission_def Let_def list_ex_iff split: if_splits)
  then show ?thesis
    using parts one f(3) part by (auto simp: plan planFeeOf_def planPartOf_def)
qed

definition demoPartnerRow :: reservation where
  "demoPartnerRow = demoRow\<lparr>rvFeeSnapshot := Envelope
     \<lparr>evResolution = [\<lparr>fdocFeeCode = ResellerCommissionFeeCode, fdocMode = ''split'',
        fdocWinner = Some \<lparr>wdChannelCode = Some ''web'',
          wdParts = [\<lparr>pdPayee = \<lparr>pdPayeeID = uuid_String 7, pdKind = ''reseller'', pdDisplayName = ''R'',
                               pdExternalReference = Some (expectedRef 3)\<rparr>, pdShareBps = 10000\<rparr>]\<rparr>\<rparr>],
      evBreakdown = [\<lparr>biFeeCode = ResellerCommissionFeeCode, biBasis = basisPerTicketFixed,
                      biIncidence = incidenceAbsorbed, biAmount = 30, biCurrency = ''EUR''\<rparr>],
      evFaceValue = 18000, evPassedOnFees = 0, evAbsorbedFees = 30, evTotalAmount = 18000\<rparr>\<rparr>"

theorem validated_commission_is_settled_witness:
  "\<exists>plan. settlementPlanFromSnapshot demoPartnerRow = Inr plan \<and>
     (\<exists>fee \<in> set (pdocFees plan). pfeFeeCode fee = ResellerCommissionFeeCode)"
proof -
  have v: "validatePartnerCommission (rvFeeSnapshot demoPartnerRow) ''web'' 3 = None"
    by (simp add: demoPartnerRow_def validatePartnerCommission_def checkBeneficiary_def namesReseller_def Let_def)
  obtain plan where p: "settlementPlanFromSnapshot demoPartnerRow = Inr plan"
    by (simp add: settlementPlanFromSnapshot_def demoPartnerRow_def Let_def)
  show ?thesis using validated_commission_is_settled [OF v p] p by blast
qed

end
