(* ===== verification/Payments_Splits.thy ===== *)
theory Payments_Splits
  imports Checked
begin

text \<open>
  One fee amount turned into whole-cent payee parts,
  \<open>src/services/payments/internal/splits/splits.go\<close>: validation of the shares, the
  floor of every part computed without forming \<open>amount * bps\<close>, the residue handed out
  by largest remainder with ties in payee order, and the checked \<open>Sum\<close>.
\<close>

section \<open>Data\<close>

record Share =
  shPayeeID :: uuid
  shShareBps :: int

record Part =
  paPayeeID :: uuid
  paAmount :: int

datatype split_error = ErrUnbalanced | ErrMalformedSplit

definition TotalBps :: int where "TotalBps = 10000"

section \<open>Allocate\<close>

text \<open>The validation loop: \<open>seen\<close> are the payees met so far, the result is \<open>total\<close>.\<close>

fun checkShares :: "uuid list \<Rightarrow> int \<Rightarrow> Share list \<Rightarrow> split_error + int" where
  "checkShares seen total' [] = Inr total'"
| "checkShares seen total' (s # shares) =
     (if shShareBps s < 0 \<or> shShareBps s > TotalBps then Inl ErrMalformedSplit
      else if shPayeeID s \<in> set seen then Inl ErrMalformedSplit
      else checkShares (shPayeeID s # seen) (wrap64 (total' + shShareBps s)) shares)"

definition baseOf :: "int \<Rightarrow> int \<Rightarrow> Share \<Rightarrow> int" where
  "baseOf q r s =
     wrap64 (wrap64 (q * shShareBps s) + wrap64 (r * shShareBps s) sdiv TotalBps)"

definition fracOf :: "int \<Rightarrow> Share \<Rightarrow> int" where
  "fracOf r s = wrap64 (r * shShareBps s) smod TotalBps"

definition addCent :: "Part list \<Rightarrow> nat \<Rightarrow> Part list" where
  "addCent parts i = parts[i := (parts ! i)\<lparr>paAmount := wrap64 (paAmount (parts ! i) + 1)\<rparr>]"

text \<open>\<open>sort.SliceStable\<close> on the indices, larger remainder first.\<close>

definition byRemainder :: "int list \<Rightarrow> nat list" where
  "byRemainder fracs = sort_key (\<lambda>i. - (fracs ! i)) [0..<length fracs]"

definition Allocate :: "int \<Rightarrow> Share list \<Rightarrow> split_error + Part list" where
  "Allocate amount shares =
     (if amount < 0 then Inl ErrMalformedSplit
      else if length shares = 0 then Inl ErrMalformedSplit
      else bindE (checkShares [] 0 shares) (\<lambda>tot.
        if tot \<noteq> TotalBps then Inl ErrUnbalanced
        else
          let work = sortByID shPayeeID shares;
              q = amount sdiv TotalBps; r = amount smod TotalBps;
              parts = map (\<lambda>s. \<lparr>paPayeeID = shPayeeID s, paAmount = baseOf q r s\<rparr>) work;
              fracs = map (fracOf r) work;
              distributed = foldl (\<lambda>t p. wrap64 (t + paAmount p)) 0 parts;
              residue = wrap64 (amount - distributed) in
          if residue < 0 \<or> residue \<ge> int (length parts) then Inl ErrMalformedSplit
          else Inr (foldl addCent parts (take (nat residue) (byRemainder fracs)))))"

definition sumStep :: "Part \<Rightarrow> int \<Rightarrow> split_error + int" where
  "sumStep p t =
     (if paAmount p < 0 then Inl ErrMalformedSplit
      else if t > wrap64 (MaxInt64 - paAmount p) then Inl ErrMalformedSplit
      else Inr (wrap64 (t + paAmount p)))"

definition Sum :: "Part list \<Rightarrow> split_error + int" where
  "Sum parts = foldE sumStep parts 0"

section \<open>The validation\<close>

text \<open>
  \<open>total\<close> is an unchecked \<open>int64\<close> sum; below \<open>2 ^ 49\<close> shares it cannot wrap (each share
  that passes the range check adds at most \<open>10000\<close>), and no slice is that long.
\<close>

definition inMemory :: "'a list \<Rightarrow> bool" where
  "inMemory xs \<longleftrightarrow> length xs < 562949953421312"

definition bpsSum :: "Share list \<Rightarrow> int" where
  "bpsSum shares = sum_list (map shShareBps shares)"

definition balancedShares :: "Share list \<Rightarrow> bool" where
  "balancedShares shares \<longleftrightarrow> shares \<noteq> [] \<and> distinct (map shPayeeID shares) \<and>
     (\<forall>s \<in> set shares. 0 \<le> shShareBps s \<and> shShareBps s \<le> 10000) \<and> bpsSum shares = 10000"

lemma checkShares_Inr_iff:
  "checkShares seen t shares = Inr u \<longleftrightarrow>
     (\<forall>s \<in> set shares. 0 \<le> shShareBps s \<and> shShareBps s \<le> 10000) \<and>
     distinct (map shPayeeID shares) \<and> set (map shPayeeID shares) \<inter> set seen = {} \<and>
     (if shares = [] then u = t else u = wrap64 (t + bpsSum shares))"
proof (induction seen t shares rule: checkShares.induct)
  case (2 seen t s shares)
  show ?case
    using 2 by (cases "shares = []") (auto simp: TotalBps_def bpsSum_def add.assoc)
qed auto

lemma bpsSum_bound:
  assumes "\<forall>s \<in> set shares. 0 \<le> shShareBps s \<and> shShareBps s \<le> 10000"
  shows "0 \<le> bpsSum shares" and "bpsSum shares \<le> 10000 * int (length shares)"
proof -
  show "0 \<le> bpsSum shares" using assms by (auto simp: bpsSum_def intro!: sum_list_nonneg)
  show "bpsSum shares \<le> 10000 * int (length shares)"
    using assms by (induction shares) (auto simp: bpsSum_def algebra_simps)
qed

lemma checkShares_balanced:
  assumes "inMemory shares" and "shares \<noteq> []"
  shows "checkShares [] 0 shares = Inr 10000 \<longleftrightarrow> balancedShares shares"
proof -
  have "wrap64 (bpsSum shares) = bpsSum shares"
    if "\<forall>s \<in> set shares. 0 \<le> shShareBps s \<and> shShareBps s \<le> 10000"
    using bpsSum_bound [OF that] assms(1) by (intro wrap64_id) (auto simp: inMemory_def)
  then show ?thesis using assms(2) by (auto simp: checkShares_Inr_iff balancedShares_def)
qed

section \<open>The floors and the residue\<close>

definition floorOf :: "int \<Rightarrow> Share \<Rightarrow> int" where
  "floorOf amount s = amount * shShareBps s div 10000"

definition remOf :: "int \<Rightarrow> Share \<Rightarrow> int" where
  "remOf amount s = amount * shShareBps s mod 10000"

lemma floorOf_bounds:
  assumes "0 \<le> amount" "0 \<le> shShareBps s" "shShareBps s \<le> 10000"
  shows "0 \<le> floorOf amount s" and "floorOf amount s \<le> amount"
  using assms rate_le [OF assms] by (simp_all add: floorOf_def pos_imp_zdiv_nonneg_iff)

lemma base_exact:
  assumes "0 \<le> amount" "amount \<le> MaxInt64" "0 \<le> shShareBps s" "shShareBps s \<le> 10000"
  shows "baseOf (amount sdiv 10000) (amount smod 10000) s = floorOf amount s"
    and "fracOf (amount smod 10000) s = remOf amount s"
proof -
  let ?b = "shShareBps s" let ?q = "amount div 10000" let ?r = "amount mod 10000"
  have q: "0 \<le> ?q * ?b" using assms by (simp add: pos_imp_zdiv_nonneg_iff)
  have r: "0 \<le> ?r * ?b" using assms by simp
  have "?r * ?b \<le> 9999 * 10000" using assms by (intro mult_mono) simp_all
  then have rM: "?r * ?b \<le> MaxInt64" by simp
  have f: "floorOf amount s = ?q * ?b + ?r * ?b div 10000"
    unfolding floorOf_def by (rule rate_decomposition)
  have fl: "0 \<le> floorOf amount s" "floorOf amount s \<le> MaxInt64"
    using floorOf_bounds [of amount s] assms by simp_all
  have d: "0 \<le> ?r * ?b div 10000" using r by (simp add: pos_imp_zdiv_nonneg_iff)
  have w1: "wrap64 (?q * ?b) = ?q * ?b" using q d f fl by (intro wrap64_id) simp_all
  have w2: "wrap64 (?r * ?b) = ?r * ?b" using r rM by (intro wrap64_id) simp_all
  have w3: "wrap64 (floorOf amount s) = floorOf amount s" using fl by (intro wrap64_id) simp_all
  have sq: "amount sdiv 10000 = ?q" "amount smod 10000 = ?r"
    using assms(1) by (simp_all add: sdiv_nonneg smod_nonneg)
  show "baseOf (amount sdiv 10000) (amount smod 10000) s = floorOf amount s"
    unfolding baseOf_def sq w1 w2 TotalBps_def sdiv_nonneg [OF r, of 10000, simplified]
    unfolding f [symmetric] w3 ..
  have "fracOf (amount smod 10000) s = ?r * ?b mod 10000"
    unfolding fracOf_def sq w2 TotalBps_def using r by (intro smod_nonneg) simp_all
  then show "fracOf (amount smod 10000) s = remOf amount s"
    by (simp add: remOf_def mod_mult_left_eq)
qed

lemma sum_floor_rem:
  "amount * bpsSum shares = 10000 * sum_list (map (floorOf amount) shares) + sum_list (map (remOf amount) shares)"
proof (induction shares)
  case (Cons s shares)
  have "amount * shShareBps s = 10000 * floorOf amount s + remOf amount s"
    by (simp add: floorOf_def remOf_def)
  then show ?case using Cons by (simp add: bpsSum_def distrib_left)
qed (simp add: bpsSum_def)

definition residueOf :: "int \<Rightarrow> Share list \<Rightarrow> int" where
  "residueOf amount shares = amount - sum_list (map (floorOf amount) shares)"

lemma sum_rem_bounds: "0 \<le> sum_list (map (remOf amount) shares)"
    "sum_list (map (remOf amount) shares) \<le> 9999 * int (length (filter (\<lambda>s. remOf amount s > 0) shares))"
proof -
  have r: "0 \<le> remOf amount s" "remOf amount s \<le> 9999" for s
    by (simp_all add: remOf_def zle_diff1_eq [symmetric])
  show "0 \<le> sum_list (map (remOf amount) shares)" using r by (auto intro!: sum_list_nonneg)
  show "sum_list (map (remOf amount) shares) \<le> 9999 * int (length (filter (\<lambda>s. remOf amount s > 0) shares))"
  proof (induction shares)
    case (Cons s shares)
    then show ?case using r [of s] by (cases "remOf amount s > 0") simp_all
  qed simp
qed

text \<open>The cents left over are fewer than the parts that lost a fraction.\<close>

lemma residue_bounds:
  assumes "bpsSum shares = 10000"
  shows "0 \<le> residueOf amount shares"
    and "10000 * residueOf amount shares = sum_list (map (remOf amount) shares)"
    and "residueOf amount shares \<noteq> 0 \<Longrightarrow>
      residueOf amount shares < int (length (filter (\<lambda>s. remOf amount s > 0) shares))"
proof -
  show eq: "10000 * residueOf amount shares = sum_list (map (remOf amount) shares)"
    using sum_floor_rem [of amount shares] assms by (simp add: residueOf_def)
  then show "0 \<le> residueOf amount shares" using sum_rem_bounds(1) [of amount shares] by simp
  show "residueOf amount shares < int (length (filter (\<lambda>s. remOf amount s > 0) shares))"
    if "residueOf amount shares \<noteq> 0"
    using eq sum_rem_bounds [of amount shares] that by linarith
qed

lemma distributed_exact:
  assumes "\<And>s. s \<in> set shares \<Longrightarrow> 0 \<le> f s" "0 \<le> t" "t + sum_list (map f shares) \<le> MaxInt64"
  shows "foldl (\<lambda>t p. wrap64 (t + paAmount p)) t (map (\<lambda>s. \<lparr>paPayeeID = shPayeeID s, paAmount = f s\<rparr>) shares) =
    t + sum_list (map f shares)"
  using assms
proof (induction shares arbitrary: t)
  case (Cons s shares)
  have nn: "0 \<le> f s" "0 \<le> sum_list (map f shares)" using Cons.prems(1) by (auto intro!: sum_list_nonneg)
  then have "wrap64 (t + f s) = t + f s" using Cons.prems(2,3) by (intro wrap64_id) simp_all
  then show ?case using Cons.IH [of "t + f s"] Cons.prems nn by (simp add: add.assoc)
qed simp

section \<open>Handing out the cents\<close>

lemma addCents_nth:
  assumes "distinct is" and "\<forall>i \<in> set is. i < length parts"
  shows "length (foldl addCent parts is) = length parts \<and>
    (\<forall>i < length parts. foldl addCent parts is ! i =
       (if i \<in> set is then (parts ! i)\<lparr>paAmount := wrap64 (paAmount (parts ! i) + 1)\<rparr> else parts ! i))"
  using assms
proof (induction "is" arbitrary: parts)
  case (Cons i "is")
  have "length (addCent parts i) = length parts" by (simp add: addCent_def)
  then show ?case using Cons.IH [of "addCent parts i"] Cons.prems
    by (auto simp: addCent_def nth_list_update)
qed simp

lemma byRemainder_props:
  "set (byRemainder fracs) = {..<length fracs}" "distinct (byRemainder fracs)"
  "length (byRemainder fracs) = length fracs"
  "sorted (map (\<lambda>i. - (fracs ! i)) (byRemainder fracs))"
  by (simp_all add: byRemainder_def atLeast0LessThan distinct_sort)

text \<open>A part that got a cent has a remainder at least as large as one that did not.\<close>

lemma byRemainder_take:
  assumes "i \<in> set (take k (byRemainder fracs))" and "j < length fracs" "j \<notin> set (take k (byRemainder fracs))"
  shows "fracs ! j \<le> fracs ! i"
proof -
  let ?o = "byRemainder fracs"
  have "j \<in> set (drop k ?o)"
    using assms(2,3) byRemainder_props(1) [of fracs] append_take_drop_id [of k ?o]
    by (metis Un_iff lessThan_iff set_append)
  moreover have "sorted (map (\<lambda>i. - (fracs ! i)) (take k ?o) @ map (\<lambda>i. - (fracs ! i)) (drop k ?o))"
    using byRemainder_props(4) [of fracs] by (metis append_take_drop_id map_append)
  ultimately show ?thesis using assms(1) by (auto simp: sorted_append)
qed

lemma sum_list_indicator:
  assumes "distinct is" "\<forall>i \<in> set is. i < n"
  shows "sum_list (map (\<lambda>i. if i \<in> set is then 1 else (0::int)) [0..<n]) = int (length is)"
proof -
  have "sum_list (map (\<lambda>i. if i \<in> set is then 1 else (0::int)) [0..<n]) =
      (\<Sum>i \<in> {0..<n}. if i \<in> set is then 1 else 0)"
    by (simp add: sum_list_distinct_conv_sum_set)
  also have "\<dots> = int (card ({0..<n} \<inter> set is))" by (simp add: sum.If_cases)
  also have "{0..<n} \<inter> set is = set is" using assms(2) by auto
  finally show ?thesis using distinct_card [OF assms(1)] by simp
qed

text \<open>
  The specification: whole cents in payee order, each the floor of its exact share or one
  more, one more only for the largest remainders.
\<close>

definition extraCent :: "int \<Rightarrow> Share list \<Rightarrow> nat \<Rightarrow> bool" where
  "extraCent amount work i \<longleftrightarrow>
     i \<in> set (take (nat (residueOf amount work)) (byRemainder (map (remOf amount) work)))"

definition allocated :: "int \<Rightarrow> Share list \<Rightarrow> Part list" where
  "allocated amount work =
     map (\<lambda>i. \<lparr>paPayeeID = shPayeeID (work ! i),
              paAmount = floorOf amount (work ! i) + (if extraCent amount work i then 1 else 0)\<rparr>)
       [0..<length work]"

lemma balanced_perm:
  assumes "mset a = mset b" shows "balancedShares a = balancedShares b"
proof -
  have "set a = set b" using assms by (rule mset_eq_setD)
  moreover have "distinct (map shPayeeID a) = distinct (map shPayeeID b)"
    by (rule distinct_map_perm [OF assms])
  moreover have "bpsSum a = bpsSum b"
    unfolding bpsSum_def using assms by (metis mset_map sum_mset_sum_list)
  moreover have "(a = []) = (b = [])" using assms by auto
  ultimately show ?thesis by (simp add: balancedShares_def)
qed

lemma Allocate_balanced:
  assumes "balancedShares shares" "inMemory shares" "0 \<le> amount" "amount \<le> MaxInt64"
  shows "Allocate amount shares = Inr (allocated amount (sortByID shPayeeID shares))"
proof -
  let ?w = "sortByID shPayeeID shares"
  define parts where "parts = map (\<lambda>s. \<lparr>paPayeeID = shPayeeID s, paAmount = floorOf amount s\<rparr>) ?w"
  define ord where "ord = byRemainder (map (remOf amount) ?w)"
  have w: "balancedShares ?w" using balanced_perm [of ?w shares] assms(1) by simp
  then have range: "\<And>s. s \<in> set ?w \<Longrightarrow> 0 \<le> shShareBps s \<and> shShareBps s \<le> 10000"
    and bps: "bpsSum ?w = 10000" and ne: "?w \<noteq> []" by (auto simp: balancedShares_def)
  note res = residue_bounds [OF bps, of amount]
  have chk: "checkShares [] 0 shares = Inr 10000"
    using checkShares_balanced [OF assms(2)] assms(1) by (auto simp: balancedShares_def)
  have base: "map (\<lambda>s. \<lparr>paPayeeID = shPayeeID s, paAmount = baseOf (amount sdiv 10000) (amount smod 10000) s\<rparr>) ?w = parts"
    "map (fracOf (amount smod 10000)) ?w = map (remOf amount) ?w"
    using base_exact [OF assms(3,4)] range by (auto simp: parts_def)
  have fl: "0 \<le> floorOf amount s" "floorOf amount s \<le> amount" if "s \<in> set ?w" for s
    using floorOf_bounds [of amount s] range [OF that] assms(3) by simp_all
  have sumfl: "0 \<le> sum_list (map (floorOf amount) ?w)" using fl by (auto intro!: sum_list_nonneg)
  then have le: "residueOf amount ?w \<le> amount" by (simp add: residueOf_def)
  have dist: "foldl (\<lambda>t p. wrap64 (t + paAmount p)) 0 parts = sum_list (map (floorOf amount) ?w)"
    unfolding parts_def using distributed_exact [of ?w "floorOf amount" 0] fl res(1) assms(4)
    by (simp add: residueOf_def)
  have wres: "wrap64 (amount - sum_list (map (floorOf amount) ?w)) = residueOf amount ?w"
    using res(1) le assms(4) wrap64_id [of "residueOf amount ?w"] by (simp add: residueOf_def)
  have small: "residueOf amount ?w < int (length ?w)"
  proof (cases "residueOf amount ?w = 0")
    case False
    have "length (filter (\<lambda>s. remOf amount s > 0) ?w) \<le> length ?w" by (rule length_filter_le)
    then show ?thesis using res(3) [OF False] by linarith
  next
    case True
    have "0 < length ?w" using ne by (simp only: length_greater_0_conv not_False_eq_True)
    then show ?thesis using True by linarith
  qed
  have all: "Allocate amount shares = Inr (foldl addCent parts (take (nat (residueOf amount ?w)) ord))"
  proof -
    have "length parts = length shares" by (simp add: parts_def)
    then show ?thesis
      using assms(1,3) res(1) small chk
      by (simp add: Allocate_def TotalBps_def Let_def base dist wres ord_def balancedShares_def)
  qed
  have idx: "distinct (take k ord)" "\<forall>i \<in> set (take k ord). i < length parts" for k
    using byRemainder_props(1,2) [of "map (remOf amount) ?w"] set_take_subset [of k ord]
    by (auto simp: ord_def parts_def)
  have one: "wrap64 (floorOf amount s + 1) = floorOf amount s + 1"
    if "s \<in> set ?w" "residueOf amount ?w > 0" for s
  proof -
    have "floorOf amount s \<le> sum_list (map (floorOf amount) ?w)"
      using fl that(1) by (intro le_sum_list_nonneg) auto
    then have "floorOf amount s + 1 \<le> amount" using that(2) by (simp add: residueOf_def)
    then show ?thesis using fl [OF that(1)] assms(4) by (intro wrap64_id) simp_all
  qed
  have "foldl addCent parts (take (nat (residueOf amount ?w)) ord) = allocated amount ?w"
  proof (rule nth_equalityI)
    note nth = addCents_nth [OF idx, of "nat (residueOf amount ?w)"]
    show "length (foldl addCent parts (take (nat (residueOf amount ?w)) ord)) = length (allocated amount ?w)"
      using nth by (simp add: allocated_def parts_def)
    fix i assume "i < length (foldl addCent parts (take (nat (residueOf amount ?w)) ord))"
    then have i: "i < length parts" "i < length ?w" using nth by (simp_all add: parts_def)
    have pos: "i \<in> set (take (nat (residueOf amount ?w)) ord) \<Longrightarrow> residueOf amount ?w > 0"
      by (cases "residueOf amount ?w > 0") simp_all
    show "foldl addCent parts (take (nat (residueOf amount ?w)) ord) ! i = allocated amount ?w ! i"
      using nth i one [OF nth_mem [OF i(2)]] pos
      by (auto simp: allocated_def extraCent_def ord_def parts_def)
  qed
  then show ?thesis using all by simp
qed

lemma Allocate_Inr_balanced:
  assumes "Allocate amount shares = Inr parts" "inMemory shares"
  shows "balancedShares shares" and "0 \<le> amount"
proof -
  have "shares \<noteq> []" "checkShares [] 0 shares = Inr 10000"
    using assms(1) by (auto simp: Allocate_def TotalBps_def bindE_Inr_iff split: if_splits)
  then show "balancedShares shares" using checkShares_balanced [OF assms(2)] by simp
  show "0 \<le> amount" using assms(1) by (simp add: Allocate_def split: if_splits)
qed

lemma allocated_sum:
  assumes "bpsSum work = 10000"
  shows "sum_list (map paAmount (allocated amount work)) = amount"
proof -
  let ?is = "take (nat (residueOf amount work)) (byRemainder (map (remOf amount) work))"
  note res = residue_bounds [OF assms, of amount]
  have len: "nat (residueOf amount work) \<le> length work"
  proof (cases "residueOf amount work = 0")
    case False
    have "length (filter (\<lambda>s. remOf amount s > 0) work) \<le> length work" by (rule length_filter_le)
    then show ?thesis using res(3) [OF False] by linarith
  qed simp
  have "sum_list (map paAmount (allocated amount work)) =
      sum_list (map (\<lambda>i. floorOf amount (work ! i) + (if i \<in> set ?is then 1 else 0)) [0..<length work])"
    by (simp add: allocated_def extraCent_def o_def)
  also have "\<dots> = sum_list (map (\<lambda>i. floorOf amount (work ! i)) [0..<length work]) +
      sum_list (map (\<lambda>i. if i \<in> set ?is then 1 else 0) [0..<length work])"
    by (rule sum_list_addf)
  also have "map (\<lambda>i. floorOf amount (work ! i)) [0..<length work] = map (floorOf amount) work"
    by (rule nth_equalityI) simp_all
  also have "sum_list (map (\<lambda>i. if i \<in> set ?is then 1 else (0::int)) [0..<length work]) = int (length ?is)"
    using byRemainder_props(1,2) [of "map (remOf amount) work"] set_take_subset
    by (intro sum_list_indicator) fastforce+
  also have "length ?is = nat (residueOf amount work)"
    using len byRemainder_props(3) [of "map (remOf amount) work"] by simp
  finally show ?thesis using res(1) by (simp add: residueOf_def)
qed

lemma extraCent_rem:
  assumes "bpsSum work = 10000" and "extraCent amount work i" and "i < length work"
  shows "0 < remOf amount (work ! i)"
proof (rule ccontr)
  assume "\<not> 0 < remOf amount (work ! i)"
  then have zero: "remOf amount (work ! i) \<le> 0" by simp
  let ?fr = "map (remOf amount) work" let ?k = "nat (residueOf amount work)"
  let ?t = "take ?k (byRemainder ?fr)"
  have i: "i \<in> set ?t" using assms(2) by (simp add: extraCent_def)
  then have k: "residueOf amount work \<noteq> 0" by auto
  have "{j. j < length work \<and> 0 < remOf amount (work ! j)} \<subseteq> set ?t - {i}"
    using byRemainder_take [OF i] assms(3) zero by fastforce
  then have "card {j. j < length work \<and> 0 < remOf amount (work ! j)} \<le> card (set ?t - {i})"
    by (intro card_mono) simp_all
  also have "\<dots> < card (set ?t)" using i by (intro psubset_card_mono) auto
  also have "\<dots> \<le> ?k" using card_length [of ?t] by simp
  finally have "int (length (filter (\<lambda>s. remOf amount s > 0) work)) < residueOf amount work"
    using residue_bounds(1) [OF assms(1), of amount] by (simp add: length_filter_conv_card)
  then show False using residue_bounds(3) [OF assms(1) k] by simp
qed

lemma foldE_map: "foldE f (map g xs) acc = foldE (\<lambda>x. f (g x)) xs acc"
proof (induction xs arbitrary: acc)
  case (Cons x xs)
  then show ?case by (cases "f (g x) acc") simp_all
qed simp

definition addPart :: "int \<Rightarrow> int \<Rightarrow> split_error + int" where
  "addPart t x = sumStep \<lparr>paPayeeID = uuid_Nil, paAmount = x\<rparr> t"

interpretation part_add: checked_add addPart
  by unfold_locales (auto simp: addPart_def sumStep_def wrap64_id)

lemma Sum_addPart: "Sum parts = foldE (\<lambda>x t. addPart t x) (map paAmount parts) 0"
proof -
  have "(\<lambda>p t. addPart t (paAmount p)) = sumStep"
    by (intro ext) (simp add: addPart_def sumStep_def)
  then show ?thesis by (simp add: Sum_def foldE_map)
qed

lemma Sum_nonneg:
  assumes "Sum parts = Inr s" "p \<in> set parts" shows "0 \<le> paAmount p"
proof -
  have "foldE sumStep ps t = Inr s \<Longrightarrow> p \<in> set ps \<Longrightarrow> 0 \<le> paAmount p" for ps t
    by (induction ps arbitrary: t) (auto simp: bindE_Inr_iff sumStep_def split: if_splits)
  then show ?thesis using assms by (simp add: Sum_def)
qed

section \<open>Properties\<close>

definition demoShares :: "Share list" where
  "demoShares = [\<lparr>shPayeeID = 2, shShareBps = 3333\<rparr>, \<lparr>shPayeeID = 1, shShareBps = 3333\<rparr>,
                 \<lparr>shPayeeID = 3, shShareBps = 3334\<rparr>]"

lemma demo_balanced: "balancedShares demoShares" "inMemory demoShares"
  by (simp_all add: balancedShares_def demoShares_def bpsSum_def inMemory_def)

text \<open>
  C38: the parts of a split sum to the fee exactly, for every fee and every set of shares
  that is accepted. They come one per payee in payee order, and each is its exact share
  rounded down, or up by one cent where the share has a fraction at all.
\<close>

theorem allocation_is_exact:
  assumes "Allocate amount shares = Inr parts" and "inMemory shares" and "int64 amount"
  shows "sum_list (map paAmount parts) = amount \<and>
    list_all2 (\<lambda>s p. paPayeeID p = shPayeeID s \<and>
        amount * shShareBps s div 10000 \<le> paAmount p \<and>
        paAmount p \<le> (if amount * shShareBps s mod 10000 = 0 then amount * shShareBps s div 10000
                      else amount * shShareBps s div 10000 + 1))
      (sortByID shPayeeID shares) parts"
proof -
  let ?w = "sortByID shPayeeID shares"
  have b: "balancedShares shares" "0 \<le> amount" using Allocate_Inr_balanced [OF assms(1,2)] by simp_all
  then have parts: "parts = allocated amount ?w"
    using Allocate_balanced [OF b(1) assms(2) b(2)] assms(1,3) by (simp add: int64_def)
  have bps: "bpsSum ?w = 10000" using balanced_perm [of ?w shares] b(1) by (simp add: balancedShares_def)
  have "\<not> 10000 dvd amount * shShareBps (?w ! i)" if "extraCent amount ?w i" "i < length shares" for i
    using extraCent_rem [OF bps that(1)] that(2) by (auto simp: remOf_def dvd_eq_mod_eq_0)
  then show ?thesis
    using allocated_sum [OF bps, of amount]
    by (auto simp: parts list_all2_conv_all_nth allocated_def floorOf_def)
qed

theorem allocation_is_exact_witness:
  "\<exists>parts. Allocate 1 demoShares = Inr parts \<and> sum_list (map paAmount parts) = 1 \<and>
     map paPayeeID parts = [1, 2, 3]"
proof -
  let ?w = "sortByID shPayeeID demoShares"
  have w: "?w = [\<lparr>shPayeeID = 1, shShareBps = 3333\<rparr>, \<lparr>shPayeeID = 2, shShareBps = 3333\<rparr>,
      \<lparr>shPayeeID = 3, shShareBps = 3334\<rparr>]"
    by (simp add: demoShares_def sortByID_eq word_le_nat_alt)
  have a: "Allocate 1 demoShares = Inr (allocated 1 ?w)"
    using Allocate_balanced [OF demo_balanced, of 1] by simp
  have "int64 1" by (simp add: int64_def)
  from allocation_is_exact [OF a demo_balanced(2) this]
  have "sum_list (map paAmount (allocated 1 ?w)) = 1"
    and "list_all2 (\<lambda>s p. paPayeeID p = shPayeeID s) ?w (allocated 1 ?w)"
    by (auto elim!: list_all2_mono)
  then show ?thesis using a by (auto simp: w list_all2_Cons1)
qed

text \<open>
  \<open>Allocate\<close> accepts exactly the sets it should: at least one share, no payee twice,
  every share between 0 and 10000, shares that sum to 10000, and a fee that is not
  negative. The residue guard at its end never refuses one of those.
\<close>

theorem allocation_accepts_exactly:
  assumes "inMemory shares" and "int64 amount"
  shows "(\<exists>parts. Allocate amount shares = Inr parts) =
    (0 \<le> amount \<and> shares \<noteq> [] \<and> distinct (map shPayeeID shares) \<and>
     (\<forall>s \<in> set shares. 0 \<le> shShareBps s \<and> shShareBps s \<le> 10000) \<and>
     sum_list (map shShareBps shares) = 10000)"
proof -
  have "(\<exists>parts. Allocate amount shares = Inr parts) = (0 \<le> amount \<and> balancedShares shares)"
    using Allocate_Inr_balanced [OF _ assms(1), of amount] Allocate_balanced [OF _ assms(1), of amount] assms(2)
    unfolding int64_def by blast
  then show ?thesis by (simp add: balancedShares_def bpsSum_def)
qed

theorem allocation_accepts_exactly_witness:
  "\<exists>parts. Allocate 9223372036854775807 demoShares = Inr parts"
  using allocation_accepts_exactly [OF demo_balanced(2), of 9223372036854775807]
  by (simp add: int64_def demoShares_def)

text \<open>
  Who is paid what does not depend on the order the shares arrive in: any permutation
  of them gives the same answer, errors included.
\<close>

theorem allocation_order_independent:
  assumes "mset shares = mset shares'"
  shows "Allocate amount shares = Allocate amount shares'"
proof -
  have set: "set shares = set shares'" using assms by (rule mset_eq_setD)
  have d: "distinct (map shPayeeID shares) = distinct (map shPayeeID shares')"
    by (rule distinct_map_perm [OF assms])
  have sum: "bpsSum shares = bpsSum shares'"
    unfolding bpsSum_def using assms by (metis mset_map sum_mset_sum_list)
  have nil: "shares = [] \<longleftrightarrow> shares' = []" using assms by auto
  have mal: "checkShares seen t xs = Inl e \<Longrightarrow> e = ErrMalformedSplit" for seen t xs e
    by (induction seen t xs rule: checkShares.induct) (auto split: if_splits)
  have iff: "checkShares [] 0 shares = Inr u \<longleftrightarrow> checkShares [] 0 shares' = Inr u" for u
    by (simp only: checkShares_Inr_iff set_map set d sum nil)
  have chk: "checkShares [] 0 shares = checkShares [] 0 shares'"
  proof (cases "checkShares [] 0 shares")
    case (Inl e)
    then obtain e' where "checkShares [] 0 shares' = Inl e'"
      using iff by (cases "checkShares [] 0 shares'") auto
    then show ?thesis using Inl mal [OF Inl] mal [of "[]" 0 shares' e'] by simp
  qed (use iff in simp)
  show ?thesis
  proof (cases "checkShares [] 0 shares'")
    case (Inl e)
    then show ?thesis using chk nil by (simp add: Allocate_def)
  next
    case (Inr u)
    then have "distinct (map shPayeeID shares)" using d by (simp add: checkShares_Inr_iff split: if_splits)
    then have "sortByID shPayeeID shares = sortByID shPayeeID shares'" by (rule sortByID_perm [OF assms])
    moreover have "length shares = length shares'" using assms by (rule mset_eq_length)
    ultimately show ?thesis unfolding Allocate_def by (simp only: chk)
  qed
qed

theorem allocation_order_independent_witness:
  "Allocate 5 demoShares = Allocate 5 (rev demoShares)"
  by (rule allocation_order_independent) simp

text \<open>
  \<open>Sum\<close> is the true sum or an error, never a wrapped number: it succeeds exactly when
  no part is negative and the total fits an \<open>int64\<close>, and on what \<open>Allocate\<close> returns it
  answers the fee.
\<close>

theorem sum_is_exact:
  assumes "\<forall>p \<in> set parts. int64 (paAmount p)"
  shows "(Sum parts = Inr s) =
    ((\<forall>p \<in> set parts. 0 \<le> paAmount p) \<and> s = sum_list (map paAmount parts) \<and> s \<le> MaxInt64)"
proof (cases "\<forall>p \<in> set parts. 0 \<le> paAmount p")
  case True
  then show ?thesis
    using part_add.sum_Inr_iff [of 0 "map paAmount parts" s] assms
    by (auto simp: Sum_addPart int64_def)
next
  case False
  then show ?thesis using Sum_nonneg [of parts s] by auto
qed

theorem sum_is_exact_witness:
  "Sum [\<lparr>paPayeeID = 1, paAmount = 4\<rparr>, \<lparr>paPayeeID = 2, paAmount = 3\<rparr>] = Inr 7"
  using sum_is_exact [of "[\<lparr>paPayeeID = 1, paAmount = 4\<rparr>, \<lparr>paPayeeID = 2, paAmount = 3\<rparr>]" 7]
  by (simp add: int64_def)

end
