(* ===== verification/Payments_Settlement.thy ===== *)
theory Payments_Settlement
  imports Payments_Splits Text "HOL-Library.Product_Lexorder" "HOL-Library.Option_ord"
begin

text \<open>
  The settlement ledger, \<open>src/services/payments/internal/store/settlement.go\<close>: the lines a
  capture is attributed by, the digest a bound operation remembers them under, the rows
  written with the fact and the read that reports them. Also \<open>arithmetic.go\<close>.
\<close>

section \<open>Data\<close>

definition EntryFaceValue :: string where "EntryFaceValue = ''face_value''"
definition EntryFee :: string where "EntryFee = ''fee''"

lemma entry_kinds_differ [simp]: "EntryFee \<noteq> EntryFaceValue" "EntryFaceValue \<noteq> EntryFee"
  by (simp_all add: EntryFaceValue_def EntryFee_def)

datatype settlement_error =
    ErrSettlementUnbalanced string
  | ErrSettlementPlanUnusable string

record PayeeRef =
  peID :: uuid
  peKind :: string
  peDisplayName :: string
  peExternalReference :: "string option"

record FeeLine =
  flFeeCode :: string
  flIncidence :: string
  flAmount :: int
  flCurrency :: string
  flShares :: "Share list"
  flPayees :: "uuid \<Rightarrow> PayeeRef option"

record SettlementPlan =
  plFaceValue :: int
  plPassedOn :: int
  plAbsorbed :: int
  plTotalAmount :: int
  plCurrency :: string
  plFees :: "FeeLine list"

record SettlementEntry =
  seKind :: string
  sePayee :: "PayeeRef option"
  seFeeCode :: string
  seIncidence :: string
  seAmount :: int
  seCurrency :: string

section \<open>arithmetic.go\<close>

datatype amount_error = errAmountOverflow

definition checkedAddMoney :: "int \<Rightarrow> int \<Rightarrow> amount_error + int" where
  "checkedAddMoney a b =
     (if a < 0 \<or> b < 0 then Inl errAmountOverflow
      else if a > wrap64 (MaxInt64 - b) then Inl errAmountOverflow
      else Inr (wrap64 (a + b)))"

interpretation money_add: checked_add checkedAddMoney
  by unfold_locales (auto simp: checkedAddMoney_def wrap64_id)

section \<open>BuildSettlementEntries\<close>

definition feeEntry :: "FeeLine \<Rightarrow> PayeeRef option \<Rightarrow> int \<Rightarrow> SettlementEntry" where
  "feeEntry f payee amount =
     \<lparr>seKind = EntryFee, sePayee = payee, seFeeCode = flFeeCode f, seIncidence = flIncidence f,
      seAmount = amount, seCurrency = flCurrency f\<rparr>"

fun payeeEntries :: "FeeLine \<Rightarrow> Part list \<Rightarrow> settlement_error + SettlementEntry list" where
  "payeeEntries f [] = Inr []"
| "payeeEntries f (p # parts) =
     (case flPayees f (paPayeeID p) of
        None \<Rightarrow> Inl (ErrSettlementPlanUnusable
                  (''fee '' @ flFeeCode f @ '' names a payee it carries no identity for''))
      | Some ref \<Rightarrow>
          bindE (payeeEntries f parts) (\<lambda>es. Inr (feeEntry f (Some ref) (paAmount p) # es)))"

text \<open>The lines of one fee: one unattributed line, or one per allocated part.\<close>

definition feeEntries :: "FeeLine \<Rightarrow> settlement_error + SettlementEntry list" where
  "feeEntries f =
     (if length (flShares f) = 0 then Inr [feeEntry f None (flAmount f)]
      else (case Allocate (flAmount f) (flShares f) of
              Inl e \<Rightarrow> Inl (ErrSettlementPlanUnusable (''fee '' @ flFeeCode f))
            | Inr parts \<Rightarrow> payeeEntries f parts))"

text \<open>One pass of the loop; the state is the entries so far and the two running sums.\<close>

definition settleFee ::
  "string \<Rightarrow> FeeLine \<Rightarrow> SettlementEntry list \<times> int \<times> int \<Rightarrow>
   settlement_error + (SettlementEntry list \<times> int \<times> int)" where
  "settleFee currency f st =
     (case st of (entries, passedOnSeen, absorbedSeen) \<Rightarrow>
        if flCurrency f \<noteq> currency
        then Inl (ErrSettlementPlanUnusable (''fee '' @ flFeeCode f @ '' is in another currency''))
        else if flAmount f < 0
        then Inl (ErrSettlementPlanUnusable (''fee '' @ flFeeCode f @ '' is negative''))
        else bindE (feeEntries f) (\<lambda>new.
          if flIncidence f = ''passed_on'' then
            Inr (entries @ new, wrap64 (passedOnSeen + flAmount f), absorbedSeen)
          else if flIncidence f = ''absorbed'' then
            Inr (entries @ new, passedOnSeen, wrap64 (absorbedSeen + flAmount f))
          else Inl (ErrSettlementPlanUnusable
                 (''fee '' @ flFeeCode f @ '' has unknown incidence '' @ flIncidence f))))"

definition sumEntry :: "SettlementEntry \<Rightarrow> int \<Rightarrow> settlement_error + int" where
  "sumEntry e t =
     (if seAmount e > 0 \<and> t > wrap64 (MaxInt64 - seAmount e)
      then Inl (ErrSettlementUnbalanced ''entries overflow int64'')
      else if seAmount e < 0 \<and> t < wrap64 (MinInt64 - seAmount e)
      then Inl (ErrSettlementUnbalanced ''entries underflow int64'')
      else Inr (wrap64 (t + seAmount e)))"

definition sumEntries :: "SettlementEntry list \<Rightarrow> settlement_error + int" where
  "sumEntries entries = foldE sumEntry entries 0"

definition organizerLine :: "SettlementPlan \<Rightarrow> SettlementEntry" where
  "organizerLine plan =
     \<lparr>seKind = EntryFaceValue, sePayee = None, seFeeCode = '''', seIncidence = '''',
      seAmount = wrap64 (plFaceValue plan - plAbsorbed plan), seCurrency = plCurrency plan\<rparr>"

definition BuildSettlementEntries ::
  "SettlementPlan \<Rightarrow> int \<Rightarrow> settlement_error + SettlementEntry list" where
  "BuildSettlementEntries plan capturedAmount =
     (if plCurrency plan = '''' then Inl (ErrSettlementPlanUnusable ''no currency'')
      else if plFaceValue plan < 0 \<or> plPassedOn plan < 0 \<or> plAbsorbed plan < 0
      then Inl (ErrSettlementPlanUnusable ''a negative component'')
      else if plTotalAmount plan \<noteq> capturedAmount
      then Inl (ErrSettlementPlanUnusable ''plan total is not the captured amount'')
      else if plFaceValue plan > wrap64 (MaxInt64 - plPassedOn plan)
      then Inl (ErrSettlementPlanUnusable ''face + passed_on overflows'')
      else if wrap64 (plFaceValue plan + plPassedOn plan) \<noteq> plTotalAmount plan
      then Inl (ErrSettlementPlanUnusable ''face + passed_on is not the total'')
      else bindE (foldE (settleFee (plCurrency plan)) (plFees plan) ([], 0, 0))
        (\<lambda>(entries, passedOnSeen, absorbedSeen).
          if passedOnSeen \<noteq> plPassedOn plan
          then Inl (ErrSettlementPlanUnusable ''passed-on fees do not sum to the plan'')
          else if absorbedSeen \<noteq> plAbsorbed plan
          then Inl (ErrSettlementPlanUnusable ''absorbed fees do not sum to the plan'')
          else
            let all = entries @ [organizerLine plan] in
            bindE (sumEntries all) (\<lambda>t.
              if t \<noteq> capturedAmount
              then Inl (ErrSettlementUnbalanced ''entries do not sum to the captured amount'')
              else Inr all)))"

section \<open>What each step leaves\<close>

text \<open>The ranges the Go types give a plan, and slices that fit in memory.\<close>

definition machineFee :: "FeeLine \<Rightarrow> bool" where
  "machineFee f \<longleftrightarrow> int64 (flAmount f) \<and> inMemory (flShares f)"

definition machinePlan :: "SettlementPlan \<Rightarrow> bool" where
  "machinePlan plan \<longleftrightarrow> int64 (plFaceValue plan) \<and> int64 (plPassedOn plan) \<and> int64 (plAbsorbed plan) \<and>
     int64 (plTotalAmount plan) \<and> (\<forall>f \<in> set (plFees plan). machineFee f)"

lemma payeeEntries_Inr:
  "payeeEntries f parts = Inr es \<Longrightarrow>
     list_all2 (\<lambda>p e. \<exists>ref. flPayees f (paPayeeID p) = Some ref \<and> e = feeEntry f (Some ref) (paAmount p)) parts es"
  by (induction parts arbitrary: es) (auto simp: bindE_Inr_iff split: option.splits)

lemma payeeEntries_amounts:
  "payeeEntries f parts = Inr es \<Longrightarrow> map seAmount es = map paAmount parts"
  by (induction parts arbitrary: es) (auto simp: bindE_Inr_iff feeEntry_def split: option.splits)

lemma payeeEntries_fields:
  "payeeEntries f parts = Inr es \<Longrightarrow> e \<in> set es \<Longrightarrow> seKind e = EntryFee \<and> seFeeCode e = flFeeCode f \<and>
     seIncidence e = flIncidence f \<and> seCurrency e = flCurrency f"
  by (induction parts arbitrary: es) (auto simp: bindE_Inr_iff feeEntry_def split: option.splits)

lemma payeeEntries_total:
  "(\<And>p. p \<in> set parts \<Longrightarrow> flPayees f (paPayeeID p) \<noteq> None) \<Longrightarrow> \<exists>es. payeeEntries f parts = Inr es"
proof (induction parts)
  case (Cons p parts)
  then obtain es where "payeeEntries f parts = Inr es" by auto
  then show ?case using Cons.prems [of p] by auto
qed simp

lemma allocated_nonneg:
  assumes "balancedShares work" "0 \<le> amount" "p \<in> set (allocated amount work)"
  shows "0 \<le> paAmount p"
proof -
  obtain i where i: "i < length work" "p = \<lparr>paPayeeID = shPayeeID (work ! i),
      paAmount = floorOf amount (work ! i) + (if extraCent amount work i then 1 else 0)\<rparr>"
    using assms(3) by (auto simp: allocated_def)
  have "0 \<le> floorOf amount (work ! i)"
    using floorOf_bounds [of amount "work ! i"] assms(1,2) nth_mem [OF i(1)]
    by (auto simp: balancedShares_def)
  then show ?thesis using i by simp
qed

lemma feeEntries_Inr:
  assumes "feeEntries f = Inr es" and "machineFee f" and "0 \<le> flAmount f"
  shows "sum_list (map seAmount es) = flAmount f" and "\<And>e. e \<in> set es \<Longrightarrow> 0 \<le> seAmount e"
    and "\<And>e. e \<in> set es \<Longrightarrow> seKind e = EntryFee \<and> seFeeCode e = flFeeCode f \<and>
      seIncidence e = flIncidence f \<and> seCurrency e = flCurrency f"
proof -
  have "sum_list (map seAmount es) = flAmount f \<and> (\<forall>e \<in> set es. 0 \<le> seAmount e) \<and>
    (\<forall>e \<in> set es. seKind e = EntryFee \<and> seFeeCode e = flFeeCode f \<and>
      seIncidence e = flIncidence f \<and> seCurrency e = flCurrency f)"
  proof (cases "flShares f = []")
    case True
    then show ?thesis using assms by (auto simp: feeEntries_def feeEntry_def)
  next
    case False
    then obtain parts where parts: "Allocate (flAmount f) (flShares f) = Inr parts"
      "payeeEntries f parts = Inr es"
      using assms(1) by (auto simp: feeEntries_def split: sum.splits)
    have m: "inMemory (flShares f)" "flAmount f \<le> MaxInt64"
      using assms(2) by (simp_all add: machineFee_def int64_def)
    have b: "balancedShares (flShares f)" using Allocate_Inr_balanced [OF parts(1) m(1)] by simp
    let ?w = "sortByID shPayeeID (flShares f)"
    have w: "balancedShares ?w" using balanced_perm [of ?w "flShares f"] b by simp
    have p: "parts = allocated (flAmount f) ?w"
      using Allocate_balanced [OF b m(1) assms(3) m(2)] parts(1) by simp
    have "sum_list (map paAmount parts) = flAmount f"
      unfolding p using w by (intro allocated_sum) (simp add: balancedShares_def)
    moreover have am: "map seAmount es = map paAmount parts" by (rule payeeEntries_amounts [OF parts(2)])
    moreover have "\<forall>e \<in> set es. 0 \<le> seAmount e"
    proof
      fix e assume "e \<in> set es"
      then have "seAmount e \<in> set (map paAmount parts)" unfolding am [symmetric] by simp
      then show "0 \<le> seAmount e" using allocated_nonneg [OF w assms(3)] p by auto
    qed
    moreover have "\<forall>e \<in> set es. seKind e = EntryFee \<and> seFeeCode e = flFeeCode f \<and>
      seIncidence e = flIncidence f \<and> seCurrency e = flCurrency f"
      using payeeEntries_fields [OF parts(2)] by blast
    ultimately show ?thesis by simp
  qed
  then show "sum_list (map seAmount es) = flAmount f" "\<And>e. e \<in> set es \<Longrightarrow> 0 \<le> seAmount e"
    "\<And>e. e \<in> set es \<Longrightarrow> seKind e = EntryFee \<and> seFeeCode e = flFeeCode f \<and>
      seIncidence e = flIncidence f \<and> seCurrency e = flCurrency f" by blast+
qed

section \<open>The loop and the sum\<close>

definition feeTotal :: "string \<Rightarrow> FeeLine list \<Rightarrow> int" where
  "feeTotal inc fees = sum_list (map flAmount (filter (\<lambda>f. flIncidence f = inc) fees))"

definition settleable :: "string \<Rightarrow> FeeLine \<Rightarrow> bool" where
  "settleable currency f \<longleftrightarrow> flCurrency f = currency \<and> 0 \<le> flAmount f \<and>
     (flIncidence f = ''passed_on'' \<or> flIncidence f = ''absorbed'')"

lemma wrap64_wrap64 [simp]: "wrap64 (wrap64 x) = wrap64 x"
  by (rule wrap64_int64 [OF wrap64_range])

lemma wrap64_multiple: "\<exists>k. x = wrap64 x + k * 18446744073709551616"
proof -
  have "x + 9223372036854775808 = (x + 9223372036854775808) div 18446744073709551616 * 18446744073709551616 +
      (x + 9223372036854775808) mod 18446744073709551616"
    by (rule div_mult_mod_eq [symmetric])
  then have "x = wrap64 x + (x + 9223372036854775808) div 18446744073709551616 * 18446744073709551616"
    unfolding wrap64_def by linarith
  then show ?thesis by blast
qed

lemma feeTotal_simps [simp]:
  "feeTotal inc [] = 0"
  "feeTotal inc (f # fs) = (if flIncidence f = inc then flAmount f else 0) + feeTotal inc fs"
  by (simp_all add: feeTotal_def)

lemma feeTotal_nonneg: "(\<And>f. f \<in> set fees \<Longrightarrow> 0 \<le> flAmount f) \<Longrightarrow> 0 \<le> feeTotal inc fees"
  by (auto simp: feeTotal_def intro!: sum_list_nonneg)

lemma settle_loop_iff:
  assumes "wrap64 p = p" "wrap64 a = a"
  shows "foldE (settleFee currency) fees (es, p, a) = Inr (es', p', a') \<longleftrightarrow>
    (\<exists>news. list_all2 (\<lambda>f new. feeEntries f = Inr new) fees news \<and> es' = es @ concat news) \<and>
    (\<forall>f \<in> set fees. settleable currency f) \<and>
    p' = wrap64 (p + feeTotal ''passed_on'' fees) \<and> a' = wrap64 (a + feeTotal ''absorbed'' fees)"
  using assms
proof (induction fees arbitrary: es p a)
  case Nil
  then show ?case by auto
next
  case (Cons f fs)
  let ?p = "if flIncidence f = ''passed_on'' then wrap64 (p + flAmount f) else p"
  let ?a = "if flIncidence f = ''absorbed'' then wrap64 (a + flAmount f) else a"
  show ?case
  proof (cases "settleable currency f \<and> (\<exists>new. feeEntries f = Inr new)")
    case False
    then have "\<not> (\<exists>st. settleFee currency f (es, p, a) = Inr st)"
      by (cases "feeEntries f") (auto simp: settleFee_def settleable_def)
    then obtain e where "settleFee currency f (es, p, a) = Inl e"
      by (cases "settleFee currency f (es, p, a)") auto
    then show ?thesis using False by (auto simp: list_all2_Cons1)
  next
    case True
    then obtain new where new: "feeEntries f = Inr new" and s: "settleable currency f" by blast
    have step: "settleFee currency f (es, p, a) = Inr (es @ new, ?p, ?a)"
      using s new by (auto simp: settleFee_def settleable_def)
    have IH: "foldE (settleFee currency) fs (es @ new, ?p, ?a) = Inr (es', p', a') \<longleftrightarrow>
        (\<exists>news. list_all2 (\<lambda>f new. feeEntries f = Inr new) fs news \<and> es' = (es @ new) @ concat news) \<and>
        (\<forall>f \<in> set fs. settleable currency f) \<and>
        p' = wrap64 (?p + feeTotal ''passed_on'' fs) \<and> a' = wrap64 (?a + feeTotal ''absorbed'' fs)"
      by (rule Cons.IH) (use Cons.prems in simp_all)
    have sums: "wrap64 (?p + feeTotal ''passed_on'' fs) = wrap64 (p + feeTotal ''passed_on'' (f # fs))"
      "wrap64 (?a + feeTotal ''absorbed'' fs) = wrap64 (a + feeTotal ''absorbed'' (f # fs))"
      by (simp_all add: add.assoc)
    have news: "(\<exists>news. list_all2 (\<lambda>f new. feeEntries f = Inr new) (f # fs) news \<and> es' = es @ concat news) \<longleftrightarrow>
        (\<exists>news. list_all2 (\<lambda>f new. feeEntries f = Inr new) fs news \<and> es' = (es @ new) @ concat news)"
      using new by (auto simp: list_all2_Cons1)
    have eq: "foldE (settleFee currency) (f # fs) (es, p, a) = foldE (settleFee currency) fs (es @ new, ?p, ?a)"
      by (simp add: step)
    have ball: "(\<forall>g \<in> set (f # fs). settleable currency g) = (\<forall>g \<in> set fs. settleable currency g)"
      using s by simp
    show ?thesis unfolding eq IH sums news ball ..
  qed
qed

lemma sumEntry_exact:
  assumes "sumEntry e t = Inr s" "int64 t" "int64 (seAmount e)"
  shows "s = t + seAmount e" and "int64 s"
proof -
  have a: "MinInt64 \<le> seAmount e" "seAmount e \<le> MaxInt64" "MinInt64 \<le> t" "t \<le> MaxInt64"
    using assms(2,3) by (simp_all add: int64_def)
  have "MinInt64 \<le> t + seAmount e \<and> t + seAmount e \<le> MaxInt64"
  proof (cases "seAmount e > 0")
    case True
    then have "wrap64 (MaxInt64 - seAmount e) = MaxInt64 - seAmount e" using a by (intro wrap64_id) simp_all
    then show ?thesis using True assms(1) a by (simp add: sumEntry_def split: if_splits)
  next
    case False
    then have "wrap64 (MinInt64 - seAmount e) = MinInt64 - seAmount e" using a by (intro wrap64_id) simp_all
    then show ?thesis using False assms(1) a by (cases "seAmount e = 0") (simp_all add: sumEntry_def split: if_splits)
  qed
  moreover from this have "s = t + seAmount e"
    using assms(1) wrap64_id [of "t + seAmount e"] by (simp add: sumEntry_def split: if_splits)
  ultimately show "s = t + seAmount e" "int64 s" by (simp_all add: int64_def)
qed

lemma sumEntry_fits:
  assumes "int64 t" "int64 (seAmount e)" "int64 (t + seAmount e)"
  shows "sumEntry e t = Inr (t + seAmount e)"
proof -
  have a: "MinInt64 \<le> seAmount e" "seAmount e \<le> MaxInt64" "MinInt64 \<le> t + seAmount e" "t + seAmount e \<le> MaxInt64"
    using assms by (simp_all add: int64_def)
  have s: "wrap64 (t + seAmount e) = t + seAmount e" using a by (intro wrap64_id) simp_all
  show ?thesis
  proof (cases "seAmount e > 0")
    case True
    then have "wrap64 (MaxInt64 - seAmount e) = MaxInt64 - seAmount e" using a by (intro wrap64_id) simp_all
    then show ?thesis using True a s by (simp add: sumEntry_def)
  next
    case False
    then have "wrap64 (MinInt64 - seAmount e) = MinInt64 - seAmount e" using a by (intro wrap64_id) simp_all
    then show ?thesis using False a s by (simp add: sumEntry_def)
  qed
qed

lemma sumEntries_exact:
  assumes "foldE sumEntry es t = Inr s" "int64 t" "\<And>e. e \<in> set es \<Longrightarrow> int64 (seAmount e)"
  shows "s = t + sum_list (map seAmount es)"
  using assms
proof (induction es arbitrary: t)
  case (Cons e es)
  then obtain u where u: "sumEntry e t = Inr u" "foldE sumEntry es u = Inr s"
    by (auto simp: bindE_Inr_iff)
  then show ?case using Cons.IH [OF u(2)] sumEntry_exact [OF u(1)] Cons.prems by simp
qed simp

lemma sumEntries_fits:
  assumes "0 \<le> t" "\<And>e. e \<in> set es \<Longrightarrow> 0 \<le> seAmount e" "t + sum_list (map seAmount es) \<le> MaxInt64"
  shows "foldE sumEntry es t = Inr (t + sum_list (map seAmount es))"
  using assms
proof (induction es arbitrary: t)
  case (Cons e es)
  have nn: "0 \<le> seAmount e" "0 \<le> sum_list (map seAmount es)"
    using Cons.prems(2) by (auto intro!: sum_list_nonneg)
  then have "sumEntry e t = Inr (t + seAmount e)"
    using Cons.prems(1,3) by (intro sumEntry_fits) (simp_all add: int64_def)
  then show ?case using Cons.IH [of "t + seAmount e"] Cons.prems nn by (simp add: add.assoc)
qed simp

section \<open>What a built ledger is\<close>

lemma list_all2_choice:
  "(\<And>x. x \<in> set xs \<Longrightarrow> \<exists>y. P x y) \<Longrightarrow> \<exists>ys. list_all2 P xs ys"
proof (induction xs)
  case (Cons x xs)
  obtain y where "P x y" using Cons.prems [of x] by auto
  moreover obtain ys where "list_all2 P xs ys" using Cons.IH Cons.prems by force
  ultimately show ?case by (intro exI [of _ "y # ys"]) simp
qed (auto intro: exI [of _ "[]"])

lemma concat_members:
  "list_all2 P xs yss \<Longrightarrow> e \<in> set (concat yss) \<Longrightarrow> \<exists>x \<in> set xs. \<exists>ys. P x ys \<and> e \<in> set ys"
  by (induction xs yss rule: list_all2_induct) auto

lemma sum_news_both:
  assumes "list_all2 (\<lambda>f new. feeEntries f = Inr new) fees news"
    and "\<forall>f \<in> set fees. machineFee f \<and> settleable currency f"
  shows "sum_list (map seAmount (concat news)) = feeTotal ''passed_on'' fees + feeTotal ''absorbed'' fees \<and>
    (\<forall>e \<in> set (concat news). 0 \<le> seAmount e \<and> seAmount e \<le> MaxInt64)"
  using assms
proof (induction fees news rule: list_all2_induct)
  case (Cons f fs new news)
  note e = feeEntries_Inr [OF Cons.hyps(1)]
  have f: "machineFee f" "0 \<le> flAmount f" "flIncidence f = ''passed_on'' \<or> flIncidence f = ''absorbed''"
    using Cons.prems by (auto simp: settleable_def)
  have "0 \<le> seAmount x \<and> seAmount x \<le> MaxInt64" if "x \<in> set new" for x
    using le_sum_list_nonneg [OF that, of seAmount] e(1,2) [OF f(1,2)] f(1) that
    by (force simp: machineFee_def int64_def)
  then show ?case using Cons.IH Cons.prems e(1) [OF f(1,2)] f(3) by auto
qed simp

lemmas sum_news = sum_news_both [THEN conjunct1] sum_news_both [THEN conjunct2]

lemma build_Inr:
  assumes "BuildSettlementEntries plan captured = Inr all" and "machinePlan plan"
  shows "\<exists>news. list_all2 (\<lambda>f new. feeEntries f = Inr new) (plFees plan) news \<and>
      all = concat news @ [organizerLine plan] \<and>
      (\<forall>f \<in> set (plFees plan). settleable (plCurrency plan) f) \<and>
      plFaceValue plan + plPassedOn plan = captured \<and> plTotalAmount plan = captured \<and>
      0 \<le> plFaceValue plan \<and> 0 \<le> plPassedOn plan \<and> 0 \<le> plAbsorbed plan \<and>
      feeTotal ''passed_on'' (plFees plan) = plPassedOn plan \<and>
      feeTotal ''absorbed'' (plFees plan) = plAbsorbed plan \<and>
      seAmount (organizerLine plan) = plFaceValue plan - plAbsorbed plan \<and>
      sum_list (map seAmount all) = captured"
proof -
  obtain es p a where loop: "foldE (settleFee (plCurrency plan)) (plFees plan) ([], 0, 0) = Inr (es, p, a)"
    and chk: "p = plPassedOn plan" "a = plAbsorbed plan"
    and all: "all = es @ [organizerLine plan]" and sum: "sumEntries all = Inr captured"
    and nn: "0 \<le> plFaceValue plan" "0 \<le> plPassedOn plan" "0 \<le> plAbsorbed plan"
    and tot: "plTotalAmount plan = captured" "wrap64 (plFaceValue plan + plPassedOn plan) = plTotalAmount plan"
      "plFaceValue plan \<le> wrap64 (MaxInt64 - plPassedOn plan)"
    using assms(1) by (auto simp: BuildSettlementEntries_def Let_def bindE_Inr_iff split: if_splits prod.splits)
  have range: "plFaceValue plan \<le> MaxInt64" "plPassedOn plan \<le> MaxInt64" "plAbsorbed plan \<le> MaxInt64"
    and mf: "\<And>f. f \<in> set (plFees plan) \<Longrightarrow> machineFee f"
    using assms(2) by (auto simp: machinePlan_def int64_def)
  let ?P = "feeTotal ''passed_on'' (plFees plan)" and ?A = "feeTotal ''absorbed'' (plFees plan)"
  have "(\<exists>news. list_all2 (\<lambda>f new. feeEntries f = Inr new) (plFees plan) news \<and> es = [] @ concat news) \<and>
      (\<forall>f \<in> set (plFees plan). settleable (plCurrency plan) f) \<and> p = wrap64 (0 + ?P) \<and> a = wrap64 (0 + ?A)"
    using loop settle_loop_iff [of 0 0 "plCurrency plan" "plFees plan" "[]" es p a] by (simp add: wrap64_id)
  then obtain news where news: "list_all2 (\<lambda>f new. feeEntries f = Inr new) (plFees plan) news" "es = concat news"
    and ok: "\<forall>f \<in> set (plFees plan). settleable (plCurrency plan) f"
    and pa: "plPassedOn plan = wrap64 ?P" "plAbsorbed plan = wrap64 ?A" using chk by auto
  have mok: "\<forall>f \<in> set (plFees plan). machineFee f \<and> settleable (plCurrency plan) f"
    using mf ok by blast
  note sn = sum_news [OF news(1) mok]
  have "wrap64 (MaxInt64 - plPassedOn plan) = MaxInt64 - plPassedOn plan"
    using nn range by (intro wrap64_id) simp_all
  then have "plFaceValue plan + plPassedOn plan \<le> MaxInt64" using tot(3) by simp
  then have gross: "plFaceValue plan + plPassedOn plan = captured"
    using tot nn wrap64_id [of "plFaceValue plan + plPassedOn plan"] by simp
  have org: "seAmount (organizerLine plan) = plFaceValue plan - plAbsorbed plan"
    using nn range wrap64_id [of "plFaceValue plan - plAbsorbed plan"] by (simp add: organizerLine_def)
  have "int64 (seAmount e)" if "e \<in> set all" for e
  proof (cases "e = organizerLine plan")
    case True
    then show ?thesis using org nn range by (simp add: int64_def)
  next
    case False
    then have "e \<in> set (concat news)" using that all news(2) by auto
    then have "0 \<le> seAmount e" "seAmount e \<le> MaxInt64" using sn(2) by blast+
    then show ?thesis by (simp add: int64_def)
  qed
  then have "captured = 0 + sum_list (map seAmount all)"
    using sum by (intro sumEntries_exact [of all 0]) (simp_all add: sumEntries_def int64_def)
  then have total: "sum_list (map seAmount all) = captured" by simp
  then have PA: "?P + ?A = plPassedOn plan + plAbsorbed plan"
    using sn(1) all news(2) org gross by simp
  obtain k where k: "?P = plPassedOn plan + k * 18446744073709551616"
    using wrap64_multiple [of ?P] pa(1) by auto
  have P0: "0 \<le> ?P" "0 \<le> ?A" using mok by (auto simp: settleable_def intro!: feeTotal_nonneg)
  have "k < 1"
  proof (rule ccontr)
    assume "\<not> k < 1"
    then have "18446744073709551616 \<le> ?P" using k nn by linarith
    then show False using PA P0 range by linarith
  qed
  moreover have "- 1 < k"
  proof (rule ccontr)
    assume "\<not> - 1 < k"
    then have "?P < 0" using k range by linarith
    then show False using P0 by linarith
  qed
  ultimately have "k = 0" by linarith
  then show ?thesis using news all ok gross tot(1) nn k PA org total by auto
qed

lemma build_succeeds:
  assumes m: "machinePlan plan" and cur: "plCurrency plan \<noteq> ''''"
    and nn: "0 \<le> plFaceValue plan" "0 \<le> plPassedOn plan" "0 \<le> plAbsorbed plan"
    and gross: "plFaceValue plan + plPassedOn plan = captured" "plTotalAmount plan = captured"
    and fees: "\<And>f. f \<in> set (plFees plan) \<Longrightarrow> settleable (plCurrency plan) f"
      "\<And>f. f \<in> set (plFees plan) \<Longrightarrow> \<exists>new. feeEntries f = Inr new"
    and sums: "feeTotal ''passed_on'' (plFees plan) = plPassedOn plan"
      "feeTotal ''absorbed'' (plFees plan) = plAbsorbed plan"
    and room: "plPassedOn plan + plAbsorbed plan \<le> MaxInt64"
  shows "\<exists>news. list_all2 (\<lambda>f new. feeEntries f = Inr new) (plFees plan) news \<and>
    BuildSettlementEntries plan captured = Inr (concat news @ [organizerLine plan])"
proof -
  have range: "plFaceValue plan \<le> MaxInt64" "plPassedOn plan \<le> MaxInt64" "plAbsorbed plan \<le> MaxInt64"
    "captured \<le> MaxInt64"
    and mf: "\<forall>f \<in> set (plFees plan). machineFee f \<and> settleable (plCurrency plan) f"
    using m gross fees(1) by (auto simp: machinePlan_def int64_def)
  obtain news where news: "list_all2 (\<lambda>f new. feeEntries f = Inr new) (plFees plan) news"
    using list_all2_choice [of "plFees plan" "\<lambda>f new. feeEntries f = Inr new"] fees(2) by blast
  note sn = sum_news [OF news mf]
  have w: "wrap64 (plPassedOn plan) = plPassedOn plan" "wrap64 (plAbsorbed plan) = plAbsorbed plan"
    "wrap64 (MaxInt64 - plPassedOn plan) = MaxInt64 - plPassedOn plan" "wrap64 captured = captured"
    using nn range gross by (auto intro!: wrap64_id)
  have loop: "foldE (settleFee (plCurrency plan)) (plFees plan) ([], 0, 0) =
      Inr (concat news, plPassedOn plan, plAbsorbed plan)"
    using settle_loop_iff [of 0 0 "plCurrency plan" "plFees plan" "[]" "concat news"
        "plPassedOn plan" "plAbsorbed plan"] news fees(1) sums w by (auto simp: wrap64_id)
  have org: "seAmount (organizerLine plan) = plFaceValue plan - plAbsorbed plan"
    using nn range wrap64_id [of "plFaceValue plan - plAbsorbed plan"] by (simp add: organizerLine_def)
  have s1: "sum_list (map seAmount (concat news)) = plPassedOn plan + plAbsorbed plan" using sn(1) sums by simp
  have "foldE sumEntry (concat news) 0 = Inr (plPassedOn plan + plAbsorbed plan)"
    using sumEntries_fits [of 0 "concat news"] sn(2) s1 room by auto
  moreover have "sumEntry (organizerLine plan) (plPassedOn plan + plAbsorbed plan) =
      Inr (plPassedOn plan + plAbsorbed plan + seAmount (organizerLine plan))"
    using nn range room gross org by (intro sumEntry_fits) (simp_all add: int64_def)
  ultimately have "sumEntries (concat news @ [organizerLine plan]) = Inr captured"
    using org gross(1) by (simp add: sumEntries_def foldE_append)
  then have "BuildSettlementEntries plan captured = Inr (concat news @ [organizerLine plan])"
    using cur nn gross range w loop sums by (simp add: BuildSettlementEntries_def Let_def)
  then show ?thesis using news by blast
qed

section \<open>The plan digest\<close>

text \<open>\<open>sha\<close> is the hex text of \<open>sha256.Sum256\<close>.\<close>

definition entryLine :: "SettlementEntry \<Rightarrow> string" where
  "entryLine e =
     joinWith CHR ''|''
       [seKind e, seFeeCode e, seIncidence e,
        (case sePayee e of None \<Rightarrow> '''' | Some ref \<Rightarrow> uuid_String (peID ref)),
        formatInt (seAmount e), seCurrency e]"

definition PlanDigest :: "(string \<Rightarrow> string) \<Rightarrow> SettlementEntry list \<Rightarrow> string" where
  "PlanDigest sha entries = sha (joinWith CHR 0x0A (sort (map entryLine entries)))"

section \<open>The ledger table\<close>

text \<open>A row of \<open>settlement_entries\<close> (migration 0004); \<open>NULL\<close> is \<open>None\<close>.\<close>

record SettlementRow =
  srOrganizerID :: uuid
  srOrderID :: uuid
  srCaptureFactID :: uuid
  srEntryKind :: string
  srPayeeID :: "uuid option"
  srPayeeKind :: "string option"
  srPayeeDisplayName :: "string option"
  srPayeeExternalRef :: "string option"
  srFeeCode :: "string option"
  srIncidence :: "string option"
  srAmount :: int
  srCurrency :: string

definition rowShape :: "SettlementRow \<Rightarrow> bool" where
  "rowShape r \<longleftrightarrow>
     srEntryKind r \<in> {''face_value'', ''fee'', ''legacy_unattributed''} \<and>
     (srIncidence r = None \<or> srIncidence r \<in> {Some ''passed_on'', Some ''absorbed''}) \<and>
     length (srCurrency r) = 3 \<and> (\<forall>c \<in> set (srCurrency r). CHR ''A'' \<le> c \<and> c \<le> CHR ''Z'') \<and>
     (srEntryKind r = ''fee'' \<and> srFeeCode r \<noteq> None \<and> srIncidence r \<noteq> None \<and> srAmount r \<ge> 0 \<and>
        (srPayeeID r \<noteq> None \<and> srPayeeKind r \<noteq> None \<and> srPayeeDisplayName r \<noteq> None \<or>
         srPayeeID r = None \<and> srPayeeKind r = None \<and> srPayeeDisplayName r = None \<and>
           srPayeeExternalRef r = None) \<or>
      srEntryKind r \<in> {''face_value'', ''legacy_unattributed''} \<and>
        srPayeeID r = None \<and> srPayeeKind r = None \<and> srPayeeDisplayName r = None \<and>
        srPayeeExternalRef r = None \<and> srFeeCode r = None \<and> srIncidence r = None)"

text \<open>\<open>UNIQUE NULLS NOT DISTINCT (capture_fact_id, entry_kind, payee_id, fee_code)\<close>.\<close>

definition rowKey :: "SettlementRow \<Rightarrow> uuid \<times> string \<times> uuid option \<times> string option" where
  "rowKey r = (srCaptureFactID r, srEntryKind r, srPayeeID r, srFeeCode r)"

definition insertRow :: "SettlementRow list \<Rightarrow> SettlementRow \<Rightarrow> SettlementRow list option" where
  "insertRow rows r =
     (if rowShape r \<and> rowKey r \<notin> rowKey ` set rows then Some (rows @ [r]) else None)"

record Fact =
  faID :: uuid
  faOrganizerID :: uuid
  faType :: string
  faOccurredAt :: time
  faBuyerID :: uuid
  faAmount :: int
  faCurrency :: string
  faPayload :: "(string \<times> string) list"

datatype insert_error =
    InsertPlanUnusable string
  | InsertRejected

definition rowOf :: "Fact \<Rightarrow> uuid \<Rightarrow> SettlementEntry \<Rightarrow> SettlementRow" where
  "rowOf f orderID e =
     \<lparr>srOrganizerID = faOrganizerID f, srOrderID = orderID, srCaptureFactID = faID f,
      srEntryKind = seKind e,
      srPayeeID = map_option peID (sePayee e), srPayeeKind = map_option peKind (sePayee e),
      srPayeeDisplayName = map_option peDisplayName (sePayee e),
      srPayeeExternalRef = (case sePayee e of None \<Rightarrow> None | Some ref \<Rightarrow> peExternalReference ref),
      srFeeCode = (if seFeeCode e \<noteq> '''' then Some (seFeeCode e) else None),
      srIncidence = (if seIncidence e \<noteq> '''' then Some (seIncidence e) else None),
      srAmount = seAmount e, srCurrency = seCurrency e\<rparr>"

definition writeEntry ::
  "Fact \<Rightarrow> uuid \<Rightarrow> SettlementEntry \<Rightarrow> SettlementRow list \<Rightarrow> insert_error + SettlementRow list" where
  "writeEntry f orderID e rows =
     (if seKind e \<noteq> EntryFaceValue \<and> seKind e \<noteq> EntryFee
      then Inl (InsertPlanUnusable ''settlement entry kind is not writable at runtime'')
      else (case insertRow rows (rowOf f orderID e) of None \<Rightarrow> Inl InsertRejected | Some rows' \<Rightarrow> Inr rows'))"

text \<open>\<open>parse\<close> is \<open>uuid.Parse\<close>; a missing map key reads as the empty string.\<close>

definition insertSettlement ::
  "(string \<Rightarrow> uuid option) \<Rightarrow> Fact \<Rightarrow> SettlementEntry list \<Rightarrow> SettlementRow list \<Rightarrow>
   insert_error + SettlementRow list" where
  "insertSettlement parse f entries rows =
     (if length entries = 0 then Inr rows
      else (case parse (case map_of (faPayload f) ''order_id'' of None \<Rightarrow> '''' | Some t \<Rightarrow> t) of
              None \<Rightarrow> Inl (InsertPlanUnusable ''settlement needs an order_id on the fact'')
            | Some orderID \<Rightarrow> foldE (writeEntry f orderID) entries rows))"

text \<open>The deferred trigger \<open>settlement_must_balance\<close>, for the rows of one capture at commit.\<close>

definition settlementBalances :: "(string \<Rightarrow> uuid option) \<Rightarrow> Fact \<Rightarrow> SettlementRow list \<Rightarrow> bool" where
  "settlementBalances parse f rows \<longleftrightarrow>
     (let own = filter (\<lambda>r. srCaptureFactID r = faID f) rows in
      own \<noteq> [] \<and> faType f = ''payment.captured'' \<and>
      (\<forall>r \<in> set own. srOrganizerID r = faOrganizerID f \<and> srCurrency r = faCurrency f \<and>
         Some (srOrderID r) = parse (case map_of (faPayload f) ''order_id'' of None \<Rightarrow> '''' | Some t \<Rightarrow> t)) \<and>
      sum_list (map srAmount own) = faAmount f)"

text \<open>The report of an order's settlement; \<open>collate\<close> is the database's order on text.\<close>

record LedgerLine =
  llKind :: string
  llAmount :: int
  llCurrency :: string
  llPayeeID :: "uuid option"
  llPayeeKind :: "string option"
  llPayeeDisplayName :: "string option"
  llFeeCode :: "string option"
  llIncidence :: "string option"

definition lineOf :: "SettlementRow \<Rightarrow> LedgerLine" where
  "lineOf r =
     \<lparr>llKind = srEntryKind r, llAmount = srAmount r, llCurrency = srCurrency r,
      llPayeeID = srPayeeID r, llPayeeKind = srPayeeKind r, llPayeeDisplayName = srPayeeDisplayName r,
      llFeeCode = srFeeCode r, llIncidence = srIncidence r\<rparr>"

definition ReadOrderSettlement ::
  "(string \<Rightarrow> 'k :: linorder) \<Rightarrow> SettlementRow list \<Rightarrow> uuid \<Rightarrow> uuid \<Rightarrow> LedgerLine list \<times> int \<times> string" where
  "ReadOrderSettlement collate rows organizerID orderID =
     (let out = map lineOf
            (sort_key (\<lambda>r. (collate (srEntryKind r), map_option collate (srFeeCode r), srPayeeID r))
              (filter (\<lambda>r. srOrganizerID r = organizerID \<and> srOrderID r = orderID) rows))
      in (out, foldl (\<lambda>t l. wrap64 (t + llAmount l)) 0 out, foldl (\<lambda>c l. llCurrency l) '''' out))"

section \<open>Facts about the table and the digest\<close>

lemma foldl_wrap64: "wrap64 t = t \<Longrightarrow> foldl (\<lambda>t x. wrap64 (t + g x)) t xs = wrap64 (t + sum_list (map g xs))"
  by (induction xs arbitrary: t) (simp_all add: add.assoc)

lemma writeEntry_Inr_iff:
  "writeEntry f orderID e rows = Inr rows' \<longleftrightarrow>
     seKind e \<in> {EntryFaceValue, EntryFee} \<and> rowShape (rowOf f orderID e) \<and>
     rowKey (rowOf f orderID e) \<notin> rowKey ` set rows \<and> rows' = rows @ [rowOf f orderID e]"
  by (auto simp: writeEntry_def insertRow_def)

lemma writeEntries_Inr:
  "foldE (writeEntry f orderID) es rows = Inr rows' \<Longrightarrow> rows' = rows @ map (rowOf f orderID) es"
proof (induction es arbitrary: rows)
  case (Cons e es)
  then have "foldE (writeEntry f orderID) es (rows @ [rowOf f orderID e]) = Inr rows'"
    by (auto simp: bindE_Inr_iff writeEntry_Inr_iff)
  from Cons.IH [OF this] show ?case by simp
qed simp

lemma writeEntries_succeed:
  assumes "\<forall>e \<in> set es. rowShape (rowOf f orderID e) \<and> seKind e \<in> {EntryFaceValue, EntryFee}"
    and "distinct (map (\<lambda>e. rowKey (rowOf f orderID e)) es)"
    and "\<forall>e \<in> set es. rowKey (rowOf f orderID e) \<notin> rowKey ` set rows"
  shows "foldE (writeEntry f orderID) es rows = Inr (rows @ map (rowOf f orderID) es)"
  using assms
proof (induction es arbitrary: rows)
  case (Cons e es)
  let ?rows = "rows @ [rowOf f orderID e]"
  have step: "writeEntry f orderID e rows = Inr ?rows"
    using Cons.prems(1,3) by (simp add: writeEntry_Inr_iff)
  have fresh: "\<forall>x \<in> set es. rowKey (rowOf f orderID x) \<notin> rowKey ` set ?rows"
  proof
    fix x assume x: "x \<in> set es"
    then have "rowKey (rowOf f orderID x) \<noteq> rowKey (rowOf f orderID e)" using Cons.prems(2)
      by (auto simp: image_iff)
    then show "rowKey (rowOf f orderID x) \<notin> rowKey ` set ?rows" using Cons.prems(3) x by simp
  qed
  have "foldE (writeEntry f orderID) es ?rows = Inr (?rows @ map (rowOf f orderID) es)"
    by (rule Cons.IH [OF _ _ fresh]) (use Cons.prems(1,2) in simp_all)
  then show ?case by (simp add: step)
qed simp

text \<open>A field that cannot be mistaken for the separators of the digest's text.\<close>

definition cleanField :: "string \<Rightarrow> bool" where
  "cleanField s \<longleftrightarrow> CHR ''|'' \<notin> set s \<and> CHR 0x0A \<notin> set s"

definition cleanEntry :: "SettlementEntry \<Rightarrow> bool" where
  "cleanEntry e \<longleftrightarrow> cleanField (seKind e) \<and> cleanField (seFeeCode e) \<and> cleanField (seIncidence e) \<and>
     cleanField (seCurrency e)"

text \<open>What the digest remembers of a line.\<close>

definition lineFacts :: "SettlementEntry \<Rightarrow> string \<times> string \<times> string \<times> uuid option \<times> int \<times> string" where
  "lineFacts e = (seKind e, seFeeCode e, seIncidence e, map_option peID (sePayee e), seAmount e, seCurrency e)"

lemma hexChar_clean: "d < 16 \<Longrightarrow> hexChar d \<noteq> CHR ''|'' \<and> hexChar d \<noteq> CHR 0x0A"
  by (cases "d < 10") (auto simp: hexChar_def char_of_eq_iff take_bit_eq_mod)

lemma uuid_String_clean: "cleanField (uuid_String u)"
proof -
  have "c = CHR ''-'' \<or> c \<in> hexChar ` set (hexDigits 32 (unat u))" if "c \<in> set (uuid_String u)" for c
    using that by (auto simp: uuid_String_def uuidHex_def Let_def dest!: in_set_takeD in_set_dropD)
  then have "c \<noteq> CHR ''|'' \<and> c \<noteq> CHR 0x0A" if "c \<in> set (uuid_String u)" for c
    using that hexDigits_bound [of 32 "unat u"] hexChar_clean by fastforce
  then show ?thesis unfolding cleanField_def by blast
qed

lemma formatInt_clean: "cleanField (formatInt i)"
  using formatInt_chars [of "CHR ''|''" i] formatInt_chars [of "CHR 0x0A" i]
  by (auto simp: cleanField_def decimalDigit_def less_eq_char_def)

lemma uuid_String_nonempty: "uuid_String u \<noteq> []"
  by (simp add: uuid_String_def Let_def)

text \<open>The fields of a digest line, in order.\<close>

definition entryFields :: "SettlementEntry \<Rightarrow> string list" where
  "entryFields e = [seKind e, seFeeCode e, seIncidence e,
     (case sePayee e of None \<Rightarrow> '''' | Some ref \<Rightarrow> uuid_String (peID ref)),
     formatInt (seAmount e), seCurrency e]"

lemma entryFields_clean: "cleanEntry e \<Longrightarrow> \<forall>x \<in> set (entryFields e). cleanField x"
  using uuid_String_clean formatInt_clean
  by (auto simp: entryFields_def cleanEntry_def split: option.splits) (auto simp: cleanField_def)

lemma joinWith_chars: "c \<in> set (joinWith sep xs) \<Longrightarrow> c = sep \<or> (\<exists>x \<in> set xs. c \<in> set x)"
  by (induction sep xs rule: joinWith.induct) auto

lemma entryFields_inj: "entryFields a = entryFields b \<Longrightarrow> lineFacts a = lineFacts b"
  using uuid_String_nonempty uuid_String_nonempty [symmetric]
  by (auto simp: entryFields_def lineFacts_def dest!: formatInt_inj split: option.splits)

lemma entryLine_fields: "entryLine e = joinWith CHR ''|'' (entryFields e)"
  by (simp add: entryLine_def entryFields_def)

lemma entryLine_inj:
  assumes "entryLine a = entryLine b" "cleanEntry a" "cleanEntry b"
  shows "lineFacts a = lineFacts b"
proof -
  have "\<forall>x \<in> set (entryFields e). CHR ''|'' \<notin> set x" if "cleanEntry e" for e
    using entryFields_clean [OF that] by (simp add: cleanField_def)
  moreover have "entryFields e \<noteq> []" for e by (simp add: entryFields_def)
  ultimately have "entryFields a = entryFields b"
    using joinWith_inj assms unfolding entryLine_fields by blast
  then show ?thesis by (rule entryFields_inj)
qed

lemma entryLine_no_newline: "cleanEntry e \<Longrightarrow> CHR 0x0A \<notin> set (entryLine e)"
  using joinWith_chars [of "CHR 0x0A" "CHR ''|''" "entryFields e"] entryFields_clean [of e]
  by (auto simp: entryLine_fields cleanField_def)

lemma lines_of_facts: "lineFacts a = lineFacts b \<Longrightarrow> entryLine a = entryLine b"
  by (auto simp: lineFacts_def entryLine_def split: option.splits)

section \<open>A built ledger can be written\<close>

definition splitUsable :: "FeeLine \<Rightarrow> bool" where
  "splitUsable f \<longleftrightarrow> flShares f = [] \<or>
     balancedShares (flShares f) \<and> (\<forall>s \<in> set (flShares f). flPayees f (shPayeeID s) \<noteq> None)"

lemma feeEntries_exist:
  assumes "machineFee f" "0 \<le> flAmount f" "splitUsable f"
  shows "\<exists>new. feeEntries f = Inr new"
proof (cases "flShares f = []")
  case False
  let ?w = "sortByID shPayeeID (flShares f)"
  have b: "balancedShares (flShares f)" and known: "\<And>s. s \<in> set ?w \<Longrightarrow> flPayees f (shPayeeID s) \<noteq> None"
    using assms(3) False by (auto simp: splitUsable_def)
  have a: "Allocate (flAmount f) (flShares f) = Inr (allocated (flAmount f) ?w)"
    using Allocate_balanced [OF b] assms(1,2) by (simp add: machineFee_def int64_def)
  have "flPayees f (paPayeeID p) \<noteq> None" if p: "p \<in> set (allocated (flAmount f) ?w)" for p
  proof -
    obtain i where i: "i < length ?w" "p = \<lparr>paPayeeID = shPayeeID (?w ! i),
        paAmount = floorOf (flAmount f) (?w ! i) + (if extraCent (flAmount f) ?w i then 1 else 0)\<rparr>"
      using p unfolding allocated_def by auto
    then show ?thesis using known [OF nth_mem [OF i(1)]] by simp
  qed
  from payeeEntries_total [OF this] show ?thesis using a False by (simp add: feeEntries_def)
qed (simp add: feeEntries_def)

text \<open>The payees of a plan from the wire are keyed by their own ids.\<close>

definition payeesKeyed :: "FeeLine \<Rightarrow> bool" where
  "payeesKeyed f \<longleftrightarrow> (\<forall>i ref. flPayees f i = Some ref \<longrightarrow> peID ref = i)"

lemma feeEntries_payees_distinct:
  assumes "feeEntries f = Inr es" "machineFee f" "0 \<le> flAmount f" "payeesKeyed f"
  shows "distinct (map (\<lambda>e. map_option peID (sePayee e)) es)"
proof (cases "flShares f = []")
  case True
  then show ?thesis using assms(1) by (auto simp: feeEntries_def)
next
  case False
  then obtain parts where parts: "Allocate (flAmount f) (flShares f) = Inr parts"
    "payeeEntries f parts = Inr es"
    using assms(1) by (auto simp: feeEntries_def split: sum.splits)
  have m: "inMemory (flShares f)" "flAmount f \<le> MaxInt64"
    using assms(2) by (simp_all add: machineFee_def int64_def)
  have b: "balancedShares (flShares f)" using Allocate_Inr_balanced [OF parts(1) m(1)] by simp
  let ?w = "sortByID shPayeeID (flShares f)"
  have p: "parts = allocated (flAmount f) ?w"
    using Allocate_balanced [OF b m(1) assms(3) m(2)] parts(1) by simp
  have "map paPayeeID parts = map shPayeeID ?w"
    unfolding p by (rule nth_equalityI) (simp_all add: allocated_def)
  then have d: "distinct (map paPayeeID parts)" using b by (simp add: balancedShares_def)
  have "payeeEntries f ps = Inr xs \<Longrightarrow> map (\<lambda>e. map_option peID (sePayee e)) xs = map (\<lambda>p. Some (paPayeeID p)) ps"
    for ps xs
    using assms(4)
    by (induction ps arbitrary: xs) (auto simp: bindE_Inr_iff feeEntry_def payeesKeyed_def split: option.splits)
  from this [OF parts(2)] have "map (\<lambda>e. map_option peID (sePayee e)) es = map Some (map paPayeeID parts)" by simp
  then show ?thesis using d by (simp only: distinct_map inj_Some inj_on_def) auto
qed

lemma news_keys_distinct:
  assumes "list_all2 (\<lambda>f new. feeEntries f = Inr new) fees news"
    and "\<forall>f \<in> set fees. machineFee f \<and> 0 \<le> flAmount f \<and> payeesKeyed f \<and> flFeeCode f \<noteq> ''''"
    and "distinct (map flFeeCode fees)"
  shows "distinct (map (\<lambda>e. (map_option peID (sePayee e), seFeeCode e)) (concat news)) \<and>
    (\<forall>e \<in> set (concat news). seFeeCode e \<in> flFeeCode ` set fees \<and> seKind e = EntryFee)"
  using assms
proof (induction fees news rule: list_all2_induct)
  case (Cons f fs new news)
  have f: "machineFee f" "0 \<le> flAmount f" "payeesKeyed f" using Cons.prems(1) by simp_all
  note e = feeEntries_Inr(3) [OF Cons.hyps(1) f(1,2)]
  have IH: "distinct (map (\<lambda>e. (map_option peID (sePayee e), seFeeCode e)) (concat news))"
    "\<forall>e \<in> set (concat news). seFeeCode e \<in> flFeeCode ` set fs \<and> seKind e = EntryFee"
    using Cons.IH Cons.prems by simp_all
  have "distinct (map (\<lambda>e. map_option peID (sePayee e)) new)"
    by (rule feeEntries_payees_distinct [OF Cons.hyps(1) f])
  then have "distinct (map (\<lambda>e. (map_option peID (sePayee e), seFeeCode e)) new)"
    by (simp add: distinct_map inj_on_def)
  moreover have "flFeeCode f \<notin> flFeeCode ` set fs" using Cons.prems(2) by simp
  ultimately show ?case using IH e by (auto simp: image_iff) metis
qed simp

lemma rowOf_key: "seFeeCode e \<noteq> '''' \<Longrightarrow>
    rowKey (rowOf f orderID e) = (faID f, seKind e, map_option peID (sePayee e), Some (seFeeCode e))"
  by (simp add: rowKey_def rowOf_def)

lemma rowShape_fee:
  assumes "seKind e = EntryFee" "seFeeCode e \<noteq> ''''" "seIncidence e \<in> {''passed_on'', ''absorbed''}"
    "0 \<le> seAmount e" "length (seCurrency e) = 3" "\<forall>c \<in> set (seCurrency e). CHR ''A'' \<le> c \<and> c \<le> CHR ''Z''"
  shows "rowShape (rowOf f orderID e)"
  using assms by (cases "sePayee e") (auto simp: rowShape_def rowOf_def EntryFee_def)

lemma rowShape_organizer:
  assumes "length (plCurrency plan) = 3" "\<forall>c \<in> set (plCurrency plan). CHR ''A'' \<le> c \<and> c \<le> CHR ''Z''"
  shows "rowShape (rowOf f orderID (organizerLine plan))"
  using assms by (simp add: rowShape_def rowOf_def organizerLine_def EntryFaceValue_def)

definition writablePlan :: "SettlementPlan \<Rightarrow> bool" where
  "writablePlan plan \<longleftrightarrow> distinct (map flFeeCode (plFees plan)) \<and>
     (\<forall>f \<in> set (plFees plan). flFeeCode f \<noteq> '''' \<and> payeesKeyed f) \<and>
     length (plCurrency plan) = 3 \<and> (\<forall>c \<in> set (plCurrency plan). CHR ''A'' \<le> c \<and> c \<le> CHR ''Z'')"

lemma built_rows_insert:
  assumes build: "BuildSettlementEntries plan captured = Inr entries" and m: "machinePlan plan"
    and w: "writablePlan plan" and fresh: "\<forall>r \<in> set rows. srCaptureFactID r \<noteq> faID f"
  shows "foldE (writeEntry f orderID) entries rows = Inr (rows @ map (rowOf f orderID) entries)"
proof -
  obtain news where news: "list_all2 (\<lambda>f new. feeEntries f = Inr new) (plFees plan) news"
    and e: "entries = concat news @ [organizerLine plan]"
    and s: "\<forall>f \<in> set (plFees plan). settleable (plCurrency plan) f"
    using build_Inr [OF build m] by blast
  have mf: "\<forall>f \<in> set (plFees plan). machineFee f \<and> settleable (plCurrency plan) f"
    using s m by (auto simp: machinePlan_def)
  have keys: "distinct (map (\<lambda>e. (map_option peID (sePayee e), seFeeCode e)) (concat news))"
    "\<forall>e \<in> set (concat news). seFeeCode e \<in> flFeeCode ` set (plFees plan) \<and> seKind e = EntryFee"
    using news_keys_distinct [OF news] mf w by (auto simp: writablePlan_def settleable_def)
  have code: "\<forall>e \<in> set (concat news). seFeeCode e \<noteq> ''''"   proof
    fix x assume "x \<in> set (concat news)"
    then have "seFeeCode x \<in> flFeeCode ` set (plFees plan)" using keys(2) by blast
    then show "seFeeCode x \<noteq> ''''" using w by (auto simp: writablePlan_def)
  qed
  have fields: "\<forall>e \<in> set (concat news). seIncidence e \<in> {''passed_on'', ''absorbed''} \<and> seCurrency e = plCurrency plan"
  proof
    fix x assume "x \<in> set (concat news)"
    then obtain g new where "g \<in> set (plFees plan)" "feeEntries g = Inr new" "x \<in> set new"
      using concat_members [OF news] by blast
    then show "seIncidence x \<in> {''passed_on'', ''absorbed''} \<and> seCurrency x = plCurrency plan"
      using feeEntries_Inr(3) [of g new x] mf by (auto simp: settleable_def)
  qed
  have cur: "length (plCurrency plan) = 3" "\<forall>c \<in> set (plCurrency plan). CHR ''A'' \<le> c \<and> c \<le> CHR ''Z''"
    using w by (simp_all add: writablePlan_def)
  have "\<forall>e \<in> set entries. rowShape (rowOf f orderID e) \<and> seKind e \<in> {EntryFaceValue, EntryFee}"
  proof
    fix x assume "x \<in> set entries"
    then consider "x \<in> set (concat news)" | "x = organizerLine plan" using e by auto
    then show "rowShape (rowOf f orderID x) \<and> seKind x \<in> {EntryFaceValue, EntryFee}"
    proof cases
      case 1
      then have "rowShape (rowOf f orderID x)"
        using keys(2) code fields cur sum_news(2) [OF news mf] by (intro rowShape_fee) auto
      then show ?thesis using keys(2) 1 by auto
    next
      case 2
      then show ?thesis using rowShape_organizer [OF cur] by (simp add: organizerLine_def)
    qed
  qed
  moreover have "distinct (map (\<lambda>e. rowKey (rowOf f orderID e)) entries)"
  proof -
    have "map (\<lambda>e. rowKey (rowOf f orderID e)) (concat news) =
        map (\<lambda>(p, c). (faID f, EntryFee, p, Some c)) (map (\<lambda>e. (map_option peID (sePayee e), seFeeCode e)) (concat news))"
      using code keys(2) by (simp add: rowOf_key)
    then have "distinct (map (\<lambda>e. rowKey (rowOf f orderID e)) (concat news))"
      using keys(1) by (simp only: distinct_map) (auto simp: inj_on_def)
    moreover have "rowKey (rowOf f orderID (organizerLine plan)) \<notin> (\<lambda>e. rowKey (rowOf f orderID e)) ` set (concat news)"
      using code keys(2) by (auto simp: rowOf_key) (auto simp: rowKey_def rowOf_def organizerLine_def)
    ultimately show ?thesis by (simp add: e)
  qed
  moreover have "\<forall>e \<in> set entries. rowKey (rowOf f orderID e) \<notin> rowKey ` set rows"
    using fresh by (auto simp: rowKey_def rowOf_def)
  ultimately show ?thesis by (rule writeEntries_succeed)
qed

section \<open>The plan on the wire (internal/api/server.go)\<close>

record partRequest =
  pqPayeeID :: uuid
  pqKind :: string
  pqDisplayName :: string
  pqExternalReference :: "string option"
  pqShareBps :: int

record feeRequest =
  fqFeeCode :: string
  fqIncidence :: string
  fqAmount :: int
  fqCurrency :: string
  fqParts :: "partRequest list"

record settlementPlanRequest =
  sqFaceValue :: int
  sqPassedOn :: int
  sqAbsorbed :: int
  sqTotalAmount :: int
  sqCurrency :: string
  sqFees :: "feeRequest list"

definition payeeRefOf :: "partRequest \<Rightarrow> PayeeRef" where
  "payeeRefOf p = \<lparr>peID = pqPayeeID p, peKind = pqKind p, peDisplayName = pqDisplayName p,
                   peExternalReference = pqExternalReference p\<rparr>"

definition toFeeLine :: "feeRequest \<Rightarrow> FeeLine" where
  "toFeeLine f =
     \<lparr>flFeeCode = fqFeeCode f, flIncidence = fqIncidence f, flAmount = fqAmount f, flCurrency = fqCurrency f,
      flShares = map (\<lambda>p. \<lparr>shPayeeID = pqPayeeID p, shShareBps = pqShareBps p\<rparr>) (fqParts f),
      flPayees = foldl (\<lambda>m p. m(pqPayeeID p \<mapsto> payeeRefOf p)) Map.empty (fqParts f)\<rparr>"

definition toStorePlan :: "settlementPlanRequest \<Rightarrow> SettlementPlan" where
  "toStorePlan p =
     \<lparr>plFaceValue = sqFaceValue p, plPassedOn = sqPassedOn p, plAbsorbed = sqAbsorbed p,
      plTotalAmount = sqTotalAmount p, plCurrency = sqCurrency p, plFees = map toFeeLine (sqFees p)\<rparr>"

lemma payee_map:
  "foldl (\<lambda>m p. m(pqPayeeID p \<mapsto> payeeRefOf p)) m ps i = Some ref \<Longrightarrow>
     m i = Some ref \<or> peID ref = i"
proof (induction ps arbitrary: m)
  case (Cons p ps)
  from Cons.prems have "foldl (\<lambda>m p. m(pqPayeeID p \<mapsto> payeeRefOf p)) (m(pqPayeeID p \<mapsto> payeeRefOf p)) ps i = Some ref"
    by (simp only: foldl_Cons)
  from Cons.IH [OF this] show ?case by (auto simp: payeeRefOf_def split: if_splits)
qed simp

lemma payee_map_dom:
  "dom (foldl (\<lambda>m p. m(pqPayeeID p \<mapsto> payeeRefOf p)) m ps) = dom m \<union> pqPayeeID ` set ps"
  by (induction ps arbitrary: m) auto

lemma toFeeLine_keyed: "payeesKeyed (toFeeLine f)"
  using payee_map [of Map.empty "fqParts f"] by (auto simp: payeesKeyed_def toFeeLine_def)

lemma toFeeLine_known:
  assumes "s \<in> set (flShares (toFeeLine f))"
  shows "flPayees (toFeeLine f) (shPayeeID s) \<noteq> None"
proof -
  have "shPayeeID s \<in> dom (flPayees (toFeeLine f))"
    using assms unfolding toFeeLine_def by (auto simp: payee_map_dom)
  then show ?thesis by auto
qed

section \<open>A worked capture\<close>

definition demoPlan :: SettlementPlan where
  "demoPlan = toStorePlan
     \<lparr>sqFaceValue = 18000, sqPassedOn = 597, sqAbsorbed = 90, sqTotalAmount = 18597, sqCurrency = ''EUR'',
      sqFees = [\<lparr>fqFeeCode = ''svc'', fqIncidence = ''passed_on'', fqAmount = 597, fqCurrency = ''EUR'',
                 fqParts = [\<lparr>pqPayeeID = 7, pqKind = ''venue'', pqDisplayName = ''Hall'',
                             pqExternalReference = None, pqShareBps = 10000\<rparr>]\<rparr>,
                \<lparr>fqFeeCode = ''psp'', fqIncidence = ''absorbed'', fqAmount = 90, fqCurrency = ''EUR'', fqParts = []\<rparr>]\<rparr>"

lemmas demo_plan_defs = demoPlan_def toStorePlan_def toFeeLine_def

lemma demoPlan_machine: "machinePlan demoPlan"
  by (simp add: machinePlan_def demo_plan_defs machineFee_def int64_def inMemory_def)

lemma demoPlan_fees:
  "\<forall>f \<in> set (plFees demoPlan). settleable (plCurrency demoPlan) f \<and> splitUsable f"
  by (simp add: demo_plan_defs settleable_def splitUsable_def balancedShares_def bpsSum_def)

lemma demoPlan_writable: "writablePlan demoPlan"
proof -
  have "\<forall>f \<in> set (plFees demoPlan). payeesKeyed f"
    by (auto simp: demoPlan_def toStorePlan_def toFeeLine_keyed)
  then show ?thesis by (simp add: writablePlan_def demo_plan_defs less_eq_char_def)
qed

definition demoLedger :: "SettlementEntry list" where
  "demoLedger = (case BuildSettlementEntries demoPlan 18597 of Inl e \<Rightarrow> [] | Inr es \<Rightarrow> es)"

lemma demoLedger_built: "BuildSettlementEntries demoPlan 18597 = Inr demoLedger"
proof -
  have "\<exists>news. list_all2 (\<lambda>f new. feeEntries f = Inr new) (plFees demoPlan) news \<and>
      BuildSettlementEntries demoPlan 18597 = Inr (concat news @ [organizerLine demoPlan])"
  proof (rule build_succeeds [OF demoPlan_machine])
    fix f assume f: "f \<in> set (plFees demoPlan)"
    then show "settleable (plCurrency demoPlan) f" using demoPlan_fees by blast
    then show "\<exists>new. feeEntries f = Inr new"
      using feeEntries_exist [of f] demoPlan_machine demoPlan_fees f
      by (auto simp: machinePlan_def settleable_def)
  qed (simp_all add: demo_plan_defs)
  then show ?thesis by (auto simp: demoLedger_def)
qed

section \<open>Properties\<close>

text \<open>
  C36: a ledger that is built balances to the cent. Its lines sum to the captured amount as
  unbounded integers; it ends in the one organizer line, face less absorbed; every fee is
  attributed by lines of its own code, incidence and currency that are not negative and
  sum to that fee; and the fees really sum to the plan's passed-on and absorbed totals,
  which the wrapped running sums alone would not show.
\<close>

theorem ledger_balances_exactly:
  assumes "BuildSettlementEntries plan captured = Inr entries" and "machinePlan plan"
  shows "sum_list (map seAmount entries) = captured \<and>
    filter (\<lambda>e. seKind e = EntryFaceValue) entries = [organizerLine plan] \<and>
    seAmount (organizerLine plan) = plFaceValue plan - plAbsorbed plan \<and>
    plFaceValue plan + plPassedOn plan = captured \<and>
    feeTotal ''passed_on'' (plFees plan) = plPassedOn plan \<and>
    feeTotal ''absorbed'' (plFees plan) = plAbsorbed plan \<and>
    (\<exists>news. entries = concat news @ [organizerLine plan] \<and>
       list_all2 (\<lambda>f new. sum_list (map seAmount new) = flAmount f \<and>
         (\<forall>e \<in> set new. 0 \<le> seAmount e \<and> seKind e = EntryFee \<and> seFeeCode e = flFeeCode f \<and>
            seIncidence e = flIncidence f \<and> seCurrency e = plCurrency plan)) (plFees plan) news)"
proof -
  obtain news where n: "list_all2 (\<lambda>f new. feeEntries f = Inr new) (plFees plan) news"
    "entries = concat news @ [organizerLine plan]"
    "\<forall>f \<in> set (plFees plan). settleable (plCurrency plan) f"
    and rest: "plFaceValue plan + plPassedOn plan = captured"
      "feeTotal ''passed_on'' (plFees plan) = plPassedOn plan"
      "feeTotal ''absorbed'' (plFees plan) = plAbsorbed plan"
      "seAmount (organizerLine plan) = plFaceValue plan - plAbsorbed plan"
      "sum_list (map seAmount entries) = captured"
    using build_Inr [OF assms] by blast
  have f: "machineFee f" "0 \<le> flAmount f" "flCurrency f = plCurrency plan" if "f \<in> set (plFees plan)" for f
    using that n(3) assms(2) by (auto simp: machinePlan_def settleable_def)
  have each: "list_all2 (\<lambda>f new. sum_list (map seAmount new) = flAmount f \<and>
         (\<forall>e \<in> set new. 0 \<le> seAmount e \<and> seKind e = EntryFee \<and> seFeeCode e = flFeeCode f \<and>
            seIncidence e = flIncidence f \<and> seCurrency e = plCurrency plan)) (plFees plan) news"
    unfolding list_all2_conv_all_nth
  proof (intro conjI allI impI)
    show "length (plFees plan) = length news" using n(1) by (rule list_all2_lengthD)
    fix i assume i: "i < length (plFees plan)"
    then have e: "feeEntries (plFees plan ! i) = Inr (news ! i)" by (rule list_all2_nthD [OF n(1)])
    note fi = f [OF nth_mem [OF i]]
    show "sum_list (map seAmount (news ! i)) = flAmount (plFees plan ! i)"
      by (rule feeEntries_Inr(1) [OF e fi(1,2)])
    show "\<forall>x \<in> set (news ! i). 0 \<le> seAmount x \<and> seKind x = EntryFee \<and>
        seFeeCode x = flFeeCode (plFees plan ! i) \<and>
        seIncidence x = flIncidence (plFees plan ! i) \<and> seCurrency x = plCurrency plan"
      using feeEntries_Inr(2,3) [OF e fi(1,2)] fi(3) by simp
  qed
  have "seKind x = EntryFee" if "x \<in> set (concat news)" for x
    using concat_members [OF each that] by blast
  then have "filter (\<lambda>e. seKind e = EntryFaceValue) (concat news) = []" by (simp add: filter_empty_conv)
  then have "filter (\<lambda>e. seKind e = EntryFaceValue) entries = [organizerLine plan]"
    by (simp add: n(2) organizerLine_def)
  then show ?thesis using n(2) rest each by blast
qed

theorem ledger_balances_exactly_witness:
  "sum_list (map seAmount demoLedger) = 18597 \<and> seAmount (organizerLine demoPlan) = 17910"
  using ledger_balances_exactly [OF demoLedger_built demoPlan_machine] by (simp add: demo_plan_defs)

text \<open>
  Every balanced plan is settled. A plan whose components are not negative, whose
  gross is face plus passed-on and what was captured, whose fees are in its currency with
  a known incidence, sum to its totals, and carry either no split or a balanced one with
  known payees, is never refused, as long as the fees together fit an \<open>int64\<close>; and its
  lines come fee by fee, the organizer's last.
\<close>

theorem balanced_plan_is_settled:
  assumes "machinePlan plan" and "plCurrency plan \<noteq> ''''"
    and "0 \<le> plFaceValue plan" "0 \<le> plPassedOn plan" "0 \<le> plAbsorbed plan"
    and "plFaceValue plan + plPassedOn plan = captured" "plTotalAmount plan = captured"
    and "\<forall>f \<in> set (plFees plan). settleable (plCurrency plan) f \<and> splitUsable f"
    and "feeTotal ''passed_on'' (plFees plan) = plPassedOn plan"
    and "feeTotal ''absorbed'' (plFees plan) = plAbsorbed plan"
    and "plPassedOn plan + plAbsorbed plan \<le> MaxInt64"
  shows "\<exists>lines. BuildSettlementEntries plan captured = Inr (lines @ [organizerLine plan]) \<and>
    (\<forall>e \<in> set lines. seKind e = EntryFee)"
proof -
  have fees: "\<And>f. f \<in> set (plFees plan) \<Longrightarrow> \<exists>new. feeEntries f = Inr new"
    using feeEntries_exist assms(1,8) by (auto simp: machinePlan_def settleable_def)
  obtain news where n: "list_all2 (\<lambda>f new. feeEntries f = Inr new) (plFees plan) news"
    "BuildSettlementEntries plan captured = Inr (concat news @ [organizerLine plan])"
    using build_succeeds [OF assms(1-7) _ fees assms(9-11)] assms(8) by blast
  have "seKind e = EntryFee" if "e \<in> set (concat news)" for e
    using concat_members [OF n(1) that] feeEntries_Inr(3) assms(1,8)
    by (fastforce simp: machinePlan_def settleable_def)
  then show ?thesis using n(2) by blast
qed

theorem balanced_plan_is_settled_witness:
  "\<exists>lines. BuildSettlementEntries demoPlan 18597 = Inr (lines @ [organizerLine demoPlan])"
  using balanced_plan_is_settled [OF demoPlan_machine _ _ _ _ _ _ demoPlan_fees, of 18597]
  by (auto simp: demo_plan_defs)

text \<open>
  Payments' checked addition answers the true sum exactly when both amounts are not
  negative and the sum fits, and its \<open>b < 0\<close> clause is inert, as its comment claims: the
  overflow comparison alone already refuses every negative second operand.
\<close>

theorem checked_add_money_exact:
  assumes "int64 a" and "int64 b"
  shows "checkedAddMoney a b =
      (if 0 \<le> a \<and> 0 \<le> b \<and> a + b \<le> MaxInt64 then Inr (a + b) else Inl errAmountOverflow) \<and>
    checkedAddMoney a b =
      (if a < 0 then Inl errAmountOverflow
       else if a > wrap64 (MaxInt64 - b) then Inl errAmountOverflow else Inr (wrap64 (a + b)))"
proof -
  have neg: "wrap64 (MaxInt64 - b) < 0" if "b < 0"
    using wrap64_above [of "MaxInt64 - b"] that assms(2) by (simp add: int64_def)
  show ?thesis
  proof (cases "b < 0")
    case True
    then show ?thesis using neg by (simp add: checkedAddMoney_def)
  next
    case False
    then have "wrap64 (MaxInt64 - b) = MaxInt64 - b"
      using assms(2) by (intro wrap64_id) (simp_all add: int64_def)
    moreover have "wrap64 (a + b) = a + b" if "0 \<le> a" "a + b \<le> MaxInt64"
      using that False by (intro wrap64_id) simp_all
    ultimately show ?thesis using False by (simp add: checkedAddMoney_def)
  qed
qed

theorem checked_add_money_exact_witness:
  "checkedAddMoney 9223372036854775806 1 = Inr 9223372036854775807 \<and>
   checkedAddMoney 9223372036854775807 1 = Inl errAmountOverflow"
  using checked_add_money_exact [of 9223372036854775806 1] checked_add_money_exact [of 9223372036854775807 1]
  by (simp add: int64_def)

text \<open>
  The digest a bound operation remembers does not depend on how the plan was
  serialised: the same fees in another order give a ledger with the same digest.
\<close>

theorem digest_ignores_fee_order:
  assumes "mset (plFees plan) = mset (plFees plan')"
    and "organizerLine plan = organizerLine plan'"
    and "machinePlan plan" "machinePlan plan'"
    and "BuildSettlementEntries plan captured = Inr entries"
    and "BuildSettlementEntries plan' captured = Inr entries'"
  shows "PlanDigest sha entries = PlanDigest sha entries'"
proof -
  let ?lines = "\<lambda>f. case feeEntries f of Inl e \<Rightarrow> [] | Inr new \<Rightarrow> new"
  have unique: "news = map ?lines fees" if "list_all2 (\<lambda>f new. feeEntries f = Inr new) fees news" for fees news
    using that by (induction fees news rule: list_all2_induct) simp_all
  obtain news where n: "list_all2 (\<lambda>f new. feeEntries f = Inr new) (plFees plan) news"
    "entries = concat news @ [organizerLine plan]"
    using build_Inr [OF assms(5,3)] by blast
  obtain news' where n': "list_all2 (\<lambda>f new. feeEntries f = Inr new) (plFees plan') news'"
    "entries' = concat news' @ [organizerLine plan']"
    using build_Inr [OF assms(6,4)] by blast
  have "mset news = mset news'"
    using unique [OF n(1)] unique [OF n'(1)] assms(1) by (metis mset_map)
  then have "mset (concat news) = mset (concat news')"
    by (metis mset_concat mset_map sum_mset_sum_list)
  then have "mset entries = mset entries'" using n(2) n'(2) assms(2) by simp
  then show ?thesis using sort_map_perm by (metis PlanDigest_def)
qed

theorem digest_ignores_fee_order_witness:
  "\<exists>es. BuildSettlementEntries (demoPlan\<lparr>plFees := rev (plFees demoPlan)\<rparr>) 18597 = Inr es \<and>
     PlanDigest (\<lambda>t. t) es = PlanDigest (\<lambda>t. t) demoLedger"
proof -
  let ?p = "demoPlan\<lparr>plFees := rev (plFees demoPlan)\<rparr>"
  have m: "machinePlan ?p" using demoPlan_machine by (simp add: machinePlan_def)
  have tot: "feeTotal inc (rev fs) = feeTotal inc fs" for inc fs
    by (simp add: feeTotal_def rev_filter [symmetric] rev_map [symmetric])
  have "\<exists>news. list_all2 (\<lambda>f new. feeEntries f = Inr new) (plFees ?p) news \<and>
      BuildSettlementEntries ?p 18597 = Inr (concat news @ [organizerLine ?p])"
  proof (rule build_succeeds [OF m])
    fix f assume "f \<in> set (plFees ?p)"
    then have f: "f \<in> set (plFees demoPlan)" by simp
    then show s: "settleable (plCurrency ?p) f" using demoPlan_fees by simp
    show "\<exists>new. feeEntries f = Inr new"
      using feeEntries_exist [of f] demoPlan_machine demoPlan_fees f s
      by (auto simp: machinePlan_def settleable_def)
  qed (simp_all add: demo_plan_defs)
  then obtain es where es: "BuildSettlementEntries ?p 18597 = Inr es" by blast
  show ?thesis
    using digest_ignores_fee_order [OF _ _ m demoPlan_machine es demoLedger_built] es
    by (simp add: organizerLine_def)
qed

text \<open>
  And it distinguishes who is owed what. With a digest function that does not collide,
  two ledgers whose kinds, codes, incidences and currencies are free of the separators
  have the same digest only if they owe the same lines: kind, code, incidence, payee,
  amount and currency, each as often.
\<close>

theorem digest_distinguishes_ledgers:
  assumes "PlanDigest sha es = PlanDigest sha es'" and "inj sha"
    and "es \<noteq> []" "es' \<noteq> []" and "\<forall>e \<in> set es. cleanEntry e" "\<forall>e \<in> set es'. cleanEntry e"
  shows "mset (map lineFacts es) = mset (map lineFacts es')"
proof -
  let ?t = "sort (map entryLine es)" and ?t' = "sort (map entryLine es')"
  have "joinWith CHR 0x0A ?t = joinWith CHR 0x0A ?t'"
    using assms(1,2) by (simp add: PlanDigest_def inj_eq)
  moreover have "?t \<noteq> []" "?t' \<noteq> []" using assms(3,4)
    by (metis length_0_conv length_map length_sort)+
  ultimately have "?t = ?t'"
    using joinWith_inj [of "CHR 0x0A" ?t ?t'] entryLine_no_newline assms(5,6) by auto
  then have lines: "mset (map entryLine es) = mset (map entryLine es')"
    by (metis mset_sort)
  define factsOf where "factsOf l = lineFacts (SOME e. cleanEntry e \<and> entryLine e = l)" for l
  have "factsOf (entryLine e) = lineFacts e" if "cleanEntry e" for e
  proof -
    have "cleanEntry (SOME x. cleanEntry x \<and> entryLine x = entryLine e) \<and>
        entryLine (SOME x. cleanEntry x \<and> entryLine x = entryLine e) = entryLine e"
      by (rule someI [of _ e]) (use that in simp)
    then show ?thesis unfolding factsOf_def using entryLine_inj that by blast
  qed
  then have "map lineFacts es = map factsOf (map entryLine es)" "map lineFacts es' = map factsOf (map entryLine es')"
    using assms(5,6) by simp_all
  then show ?thesis using lines by (metis mset_map)
qed

lemma demoLedger_fields:
  "e \<in> set demoLedger \<Longrightarrow> cleanEntry e" "demoLedger \<noteq> []"
proof -
  obtain news where n: "list_all2 (\<lambda>f new. feeEntries f = Inr new) (plFees demoPlan) news"
    "demoLedger = concat news @ [organizerLine demoPlan]"
    using build_Inr [OF demoLedger_built demoPlan_machine] by blast
  show "demoLedger \<noteq> []" by (simp add: n(2))
  have f: "cleanField (flFeeCode f) \<and> cleanField (flIncidence f) \<and> flCurrency f = ''EUR'' \<and>
      machineFee f \<and> 0 \<le> flAmount f" if "f \<in> set (plFees demoPlan)" for f
    using that demoPlan_machine demoPlan_fees
    by (auto simp: demo_plan_defs cleanField_def machinePlan_def settleable_def)
  have k: "cleanField EntryFee" "cleanField EntryFaceValue" "cleanField ''EUR''" "cleanField []"
    by (simp_all add: cleanField_def EntryFee_def EntryFaceValue_def)
  assume "e \<in> set demoLedger"
  then have "e \<in> set (concat news) \<or> e = organizerLine demoPlan" unfolding n(2) by auto
  then consider "e \<in> set (concat news)" | "e = organizerLine demoPlan" by blast
  then show "cleanEntry e"
  proof cases
    case 1
    then obtain g new where g: "g \<in> set (plFees demoPlan)" "feeEntries g = Inr new" "e \<in> set new"
      using concat_members [OF n(1)] by blast
    then show ?thesis using feeEntries_Inr(3) [OF g(2) _ _ g(3)] f [OF g(1)] k by (simp add: cleanEntry_def)
  next
    case 2
    then show ?thesis using k by (simp add: cleanEntry_def organizerLine_def demoPlan_def toStorePlan_def)
  qed
qed

theorem digest_distinguishes_ledgers_witness:
  "mset (map lineFacts demoLedger) = mset (map lineFacts (rev demoLedger))"
proof -
  have "sort (map entryLine demoLedger) = sort (map entryLine (rev demoLedger))"
    by (rule sort_map_perm) simp
  then have "PlanDigest (\<lambda>t. t) demoLedger = PlanDigest (\<lambda>t. t) (rev demoLedger)"
    by (simp add: PlanDigest_def)
  from digest_distinguishes_ledgers [OF this] show ?thesis using demoLedger_fields by auto
qed

lemma writeEntries_distinct:
  "foldE (writeEntry f orderID) es rows = Inr rows' \<Longrightarrow>
     distinct (map (\<lambda>e. rowKey (rowOf f orderID e)) es) \<and>
     (\<forall>e \<in> set es. rowKey (rowOf f orderID e) \<notin> rowKey ` set rows)"
proof (induction es arbitrary: rows)
  case (Cons e es)
  then have w: "rowKey (rowOf f orderID e) \<notin> rowKey ` set rows"
    and "foldE (writeEntry f orderID) es (rows @ [rowOf f orderID e]) = Inr rows'"
    by (auto simp: bindE_Inr_iff writeEntry_Inr_iff)
  from Cons.IH [OF this(2)] w show ?case by auto
qed simp

lemma built_currency:
  assumes "BuildSettlementEntries plan captured = Inr entries" "machinePlan plan" "e \<in> set entries"
  shows "seCurrency e = plCurrency plan"
proof -
  obtain news where n: "list_all2 (\<lambda>f new. feeEntries f = Inr new) (plFees plan) news"
    "entries = concat news @ [organizerLine plan]" "\<forall>f \<in> set (plFees plan). settleable (plCurrency plan) f"
    using build_Inr [OF assms(1,2)] by blast
  show ?thesis
  proof (cases "e = organizerLine plan")
    case False
    then have "e \<in> set (concat news)" using assms(3) n(2) by auto
    then obtain g new where g: "g \<in> set (plFees plan)" "feeEntries g = Inr new" "e \<in> set new"
      using concat_members [OF n(1)] by blast
    then show ?thesis using feeEntries_Inr(3) [OF g(2) _ _ g(3)] n(3) assms(2)
      by (auto simp: machinePlan_def settleable_def)
  qed (simp add: organizerLine_def)
qed

lemma foldl_last: "(\<forall>x \<in> set xs. g x = v) \<Longrightarrow> xs \<noteq> [] \<Longrightarrow> foldl (\<lambda>c x. g x) c xs = v"
  by (induction xs rule: rev_induct) auto

lemma Read_lines:
  fixes collate :: "string \<Rightarrow> 'k :: linorder"
  assumes "ReadOrderSettlement collate rows org orderID = (lines, tot, cur)"
    and "filter (\<lambda>r. srOrganizerID r = org \<and> srOrderID r = orderID) rows = own"
  shows "mset lines = mset (map lineOf own)" and "tot = wrap64 (sum_list (map srAmount own))"
    and "own \<noteq> [] \<Longrightarrow> (\<forall>r \<in> set own. srCurrency r = v) \<Longrightarrow> cur = v"
proof -
  define key where "key r = (collate (srEntryKind r), map_option collate (srFeeCode r), srPayeeID r)"
    for r :: SettlementRow
  have l: "lines = map lineOf (sort_key key own)" "tot = foldl (\<lambda>t l. wrap64 (t + llAmount l)) 0 lines"
    "cur = foldl (\<lambda>c l. llCurrency l) '''' lines"
    using assms by (auto simp: ReadOrderSettlement_def Let_def key_def [abs_def])
  show m: "mset lines = mset (map lineOf own)" by (simp add: l(1))
  have "tot = wrap64 (sum_list (map llAmount lines))"
    using foldl_wrap64 [of 0 llAmount lines] by (simp add: l(2) wrap64_id)
  also have "sum_list (map llAmount lines) = sum_list (map llAmount (map lineOf own))"
    using m by (metis mset_map sum_mset_sum_list)
  finally show "tot = wrap64 (sum_list (map srAmount own))" by (simp add: o_def lineOf_def)
  assume own: "own \<noteq> []" and v: "\<forall>r \<in> set own. srCurrency r = v"
  have "lines \<noteq> []" using own m by auto
  moreover have "\<forall>x \<in> set lines. llCurrency x = v"
    using v mset_eq_setD [OF m] by (auto simp: lineOf_def)
  ultimately show "cur = v" unfolding l(3) by (intro foldl_last)
qed

text \<open>
  What is built is what is stored and what is reported. For a plan with distinct
  non-empty fee codes in a well-formed currency, writing its ledger for a fresh capture is
  refused by no check and no key of the table, the rows pass the deferred balance trigger,
  and the settlement report of the order is exactly those lines, totalling the capture.
\<close>

theorem ledger_written_and_reported:
  fixes collate :: "string \<Rightarrow> 'k :: linorder"
  assumes "BuildSettlementEntries plan captured = Inr entries" and "machinePlan plan" and "writablePlan plan"
    and "map_of (faPayload f) ''order_id'' = Some text" and "parse text = Some orderID"
    and "faType f = ''payment.captured''" "faAmount f = captured" "faCurrency f = plCurrency plan"
    and "\<forall>r \<in> set rows. srCaptureFactID r \<noteq> faID f"
    and "\<forall>r \<in> set rows. \<not> (srOrganizerID r = faOrganizerID f \<and> srOrderID r = orderID)"
    and "ReadOrderSettlement collate (rows @ map (rowOf f orderID) entries) (faOrganizerID f) orderID =
      (lines, tot, cur)"
  shows "insertSettlement parse f entries rows = Inr (rows @ map (rowOf f orderID) entries) \<and>
    settlementBalances parse f (rows @ map (rowOf f orderID) entries) \<and>
    mset lines = mset (map (\<lambda>e. lineOf (rowOf f orderID e)) entries) \<and>
    tot = captured \<and> cur = plCurrency plan"
proof -
  let ?own = "map (rowOf f orderID) entries"
  have ne: "entries \<noteq> []" and sum: "sum_list (map seAmount entries) = captured"
    using build_Inr [OF assms(1,2)] by auto
  have "plTotalAmount plan = captured" using build_Inr [OF assms(1,2)] by blast
  then have cap: "wrap64 captured = captured"
    using assms(2) by (auto simp: machinePlan_def wrap64_int64)
  have fields: "srOrganizerID (rowOf f orderID e) = faOrganizerID f" "srOrderID (rowOf f orderID e) = orderID"
    "srCaptureFactID (rowOf f orderID e) = faID f" "srAmount (rowOf f orderID e) = seAmount e"
    "srCurrency (rowOf f orderID e) = seCurrency e" for e
    by (simp_all add: rowOf_def)
  have amounts: "map srAmount ?own = map seAmount entries" by (simp add: fields)
  have cur: "\<forall>r \<in> set ?own. srCurrency r = plCurrency plan"
    using built_currency [OF assms(1,2)] by (auto simp: fields)
  have ins: "insertSettlement parse f entries rows = Inr (rows @ ?own)"
    using ne assms(4,5) built_rows_insert [OF assms(1-3,9)] by (simp add: insertSettlement_def)
  have "filter (\<lambda>r. srCaptureFactID r = faID f) (rows @ ?own) = ?own"
    using assms(9) by (auto simp: filter_empty_conv fields intro!: filter_True)
  then have bal: "settlementBalances parse f (rows @ ?own)"
    using ne cur assms(4-8) sum by (auto simp: settlementBalances_def Let_def fields o_def)
  have own: "filter (\<lambda>r. srOrganizerID r = faOrganizerID f \<and> srOrderID r = orderID) (rows @ ?own) = ?own"
    using assms(10) by (auto simp: filter_empty_conv fields intro!: filter_True)
  note read = Read_lines [OF assms(11) own]
  have "tot = captured" unfolding read(2) amounts sum by (rule cap)
  then show ?thesis using ins bal read(1) read(3) [OF _ cur] ne by (simp add: o_def)
qed

definition demoFact :: Fact where
  "demoFact = \<lparr>faID = 42, faOrganizerID = 9, faType = ''payment.captured'', faOccurredAt = 0,
     faBuyerID = 8, faAmount = 18597, faCurrency = ''EUR'', faPayload = [(''order_id'', ''o'')]\<rparr>"

theorem ledger_written_and_reported_witness:
  "\<exists>rows. insertSettlement (\<lambda>t. Some 6) demoFact demoLedger [] = Inr rows \<and>
     fst (snd (ReadOrderSettlement (\<lambda>t. t) rows 9 6)) = 18597"
proof -
  obtain lines tot cur where r:
    "ReadOrderSettlement (\<lambda>t. t) ([] @ map (rowOf demoFact 6) demoLedger) (faOrganizerID demoFact) 6 = (lines, tot, cur)"
    by (metis prod.exhaust)
  have "map_of (faPayload demoFact) ''order_id'' = Some ''o''" "faOrganizerID demoFact = 9"
    "faType demoFact = ''payment.captured''" "faAmount demoFact = 18597" "faCurrency demoFact = plCurrency demoPlan"
    by (simp_all add: demoFact_def demoPlan_def toStorePlan_def)
  with ledger_written_and_reported [OF demoLedger_built demoPlan_machine demoPlan_writable,
      of demoFact "''o''" "\<lambda>t. Some 6" 6 "[]" "\<lambda>t. t" lines tot cur] r
  show ?thesis by simp
qed

text \<open>
  C37: but building a ledger does not make sure it can be written. A plan that lists one fee
  code twice, without splits, is built like any other, and its rows then meet the table's
  key on (capture, kind, payee, fee code): no table takes them, although by then the
  provider has been charged.
\<close>

theorem built_ledger_may_be_unwritable:
  assumes "BuildSettlementEntries plan captured = Inr entries" and "machinePlan plan"
    and "plFees plan = fs1 @ g # fs2 @ h # fs3"
    and "flFeeCode g = flFeeCode h" "flShares g = []" "flShares h = []"
  shows "\<nexists>rows'. insertSettlement parse f entries rows = Inr rows'"
proof
  assume "\<exists>rows'. insertSettlement parse f entries rows = Inr rows'"
  then obtain rows' where ins: "insertSettlement parse f entries rows = Inr rows'" by blast
  obtain news where n: "list_all2 (\<lambda>f new. feeEntries f = Inr new) (plFees plan) news"
    "entries = concat news @ [organizerLine plan]"
    using build_Inr [OF assms(1,2)] by blast
  have u: "feeEntries g = Inr [feeEntry g None (flAmount g)]" "feeEntries h = Inr [feeEntry h None (flAmount h)]"
    using assms(5,6) by (simp_all add: feeEntries_def)
  obtain n1 n2 n3 where "news = n1 @ [feeEntry g None (flAmount g)] # n2 @ [feeEntry h None (flAmount h)] # n3"
    using n(1) u unfolding assms(3) by (auto simp: list_all2_append1 list_all2_Cons1)
  then have e: "entries = concat n1 @ feeEntry g None (flAmount g) # concat n2 @
      feeEntry h None (flAmount h) # concat n3 @ [organizerLine plan]"
    using n(2) by simp
  obtain orderID where "foldE (writeEntry f orderID) entries rows = Inr rows'"
    using ins n(2) by (auto simp: insertSettlement_def split: option.splits)
  from writeEntries_distinct [OF this]
  have "rowKey (rowOf f orderID (feeEntry g None (flAmount g))) \<noteq> rowKey (rowOf f orderID (feeEntry h None (flAmount h)))"
    unfolding e by auto
  then show False using assms(4)
    by (cases "flFeeCode h = []") (simp_all add: rowKey_def rowOf_def feeEntry_def)
qed

theorem built_ledger_may_be_unwritable_witness:
  "\<exists>plan entries. BuildSettlementEntries plan 100 = Inr entries \<and>
     (\<forall>rows. \<nexists>rows'. insertSettlement (\<lambda>t. Some 6) demoFact entries rows = Inr rows')"
proof -
  define g where "g = \<lparr>flFeeCode = ''svc'', flIncidence = ''absorbed'', flAmount = 5, flCurrency = ''EUR'',
      flShares = [], flPayees = Map.empty\<rparr>"
  define plan where "plan = \<lparr>plFaceValue = 100, plPassedOn = 0, plAbsorbed = 10, plTotalAmount = 100,
      plCurrency = ''EUR'', plFees = [g, g]\<rparr>"
  have m: "machinePlan plan"
    by (simp add: machinePlan_def plan_def g_def machineFee_def int64_def inMemory_def)
  have "\<exists>news. list_all2 (\<lambda>f new. feeEntries f = Inr new) (plFees plan) news \<and>
      BuildSettlementEntries plan 100 = Inr (concat news @ [organizerLine plan])"
    by (rule build_succeeds [OF m]) (simp_all add: plan_def g_def settleable_def feeEntries_def)
  then obtain entries where b: "BuildSettlementEntries plan 100 = Inr entries" by blast
  have "plFees plan = [] @ g # [] @ g # []" by (simp add: plan_def)
  from built_ledger_may_be_unwritable [OF b m this] have
    "\<forall>rows. \<nexists>rows'. insertSettlement (\<lambda>t. Some 6) demoFact entries rows = Inr rows'" by (simp add: g_def)
  then show ?thesis using b by blast
qed

end
