(* ===== verification/Json_Text.thy ===== *)
theory Json_Text
  imports Text
begin

text \<open>
  What \<open>encoding/json\<close> writes for a string and for a map of strings: quotes, the short
  escapes, \<open>\u00XX\<close> for the other control characters and for the characters HTML gives a
  meaning, the two line separators U+2028 and U+2029, and keys in byte order. A string is
  its UTF-8 bytes. The texts are shown to say one thing only and to hold no line feed.
\<close>

definition jsonShort :: "char \<Rightarrow> char option" where
  "jsonShort c =
     (if c = CHR 0x22 then Some (CHR 0x22) else if c = CHR 0x5C then Some (CHR 0x5C)
      else if c = CHR 0x08 then Some (CHR ''b'') else if c = CHR 0x0C then Some (CHR ''f'')
      else if c = CHR 0x0A then Some (CHR ''n'') else if c = CHR 0x0D then Some (CHR ''r'')
      else if c = CHR 0x09 then Some (CHR ''t'') else None)"

definition jsonHex :: "char \<Rightarrow> bool" where
  "jsonHex c \<longleftrightarrow> of_char c < (0x20 :: nat) \<or> c = CHR ''<'' \<or> c = CHR ''>'' \<or> c = CHR ''&''"

definition hexPair :: "char \<Rightarrow> string" where
  "hexPair c = [hexChar (of_char c div 16), hexChar (of_char c mod 16)]"

text \<open>\<open>hex.EncodeToString\<close>.\<close>

definition hexString :: "string \<Rightarrow> string" where
  "hexString s = concat (map hexPair s)"

definition jsonChar :: "char \<Rightarrow> string" where
  "jsonChar c =
     (case jsonShort c of
        Some s \<Rightarrow> [CHR 0x5C, s]
      | None \<Rightarrow> if jsonHex c then [CHR 0x5C, CHR ''u'', CHR ''0'', CHR ''0''] @ hexPair c else [c])"

definition lineSeparator :: "string \<Rightarrow> char option" where
  "lineSeparator s =
     (if take 2 s = [CHR 0xE2, CHR 0x80] \<and> length s > 2 \<and> (s ! 2 = CHR 0xA8 \<or> s ! 2 = CHR 0xA9)
      then Some (if s ! 2 = CHR 0xA8 then CHR ''8'' else CHR ''9'') else None)"

function jsonChars :: "string \<Rightarrow> string" where
  "jsonChars s =
     (case lineSeparator s of
        Some d \<Rightarrow> [CHR 0x5C, CHR ''u'', CHR ''2'', CHR ''0'', CHR ''2'', d] @ jsonChars (drop 3 s)
      | None \<Rightarrow> (case s of [] \<Rightarrow> [] | c # cs \<Rightarrow> jsonChar c @ jsonChars cs))"
  by pat_completeness auto
termination
  by (relation "measure length") (auto simp: lineSeparator_def split: if_splits)

declare jsonChars.simps [simp del]

definition jsonString :: "string \<Rightarrow> string" where
  "jsonString s = CHR 0x22 # jsonChars s @ [CHR 0x22]"

definition jsonMap :: "(string \<times> string) list \<Rightarrow> string" where
  "jsonMap m =
     ''{'' @ joinWith CHR '','' (map (\<lambda>(k, v). jsonString k @ '':'' @ jsonString v) (sort_key fst m)) @ ''}''"

section \<open>One text, one value\<close>

lemma jsonShort_inj: "jsonShort c = Some x \<Longrightarrow> jsonShort d = Some x \<Longrightarrow> c = d"
  by (auto simp: jsonShort_def split: if_splits)

lemma jsonShort_not_u: "jsonShort c \<noteq> Some (CHR ''u'')"
  by (simp add: jsonShort_def)

lemma jsonShort_special: "jsonShort (CHR 0x5C) = Some (CHR 0x5C)" "jsonShort (CHR 0x22) = Some (CHR 0x22)"
  "jsonShort (CHR 0x0A) = Some (CHR ''n'')"
  by (simp_all add: jsonShort_def)

lemma plain_char: "jsonShort c = None \<Longrightarrow> c \<noteq> CHR 0x5C \<and> c \<noteq> CHR 0x22 \<and> c \<noteq> CHR 0x0A"
  using jsonShort_special by auto

lemma hexPair_inj: "hexPair c = hexPair d \<Longrightarrow> c = d"
proof -
  assume h: "hexPair c = hexPair d"
  have b: "(of_char c :: nat) < 256" "(of_char d :: nat) < 256" by (simp_all add: nat_of_char_less_256)
  have "(of_char c :: nat) div 16 = of_char d div 16" "(of_char c :: nat) mod 16 = of_char d mod 16"
    using h b hexChar_eq [of "of_char c div 16" "of_char d div 16"]
      hexChar_eq [of "of_char c mod 16" "of_char d mod 16"]
    by (auto simp: hexPair_def)
  then have "(of_char c :: nat) = of_char d" by (metis div_mult_mod_eq)
  then show ?thesis by simp
qed

lemma hexPair_parts: "hexChar (of_char c div 16) = hexChar (of_char d div 16) \<Longrightarrow>
    hexChar (of_char c mod 16) = hexChar (of_char d mod 16) \<Longrightarrow> c = d"
  by (rule hexPair_inj) (simp add: hexPair_def)

lemma hexString_inj: "hexString s = hexString t \<Longrightarrow> s = t"
proof (induction s arbitrary: t)
  case Nil
  then show ?case by (cases t) (simp_all add: hexString_def hexPair_def)
next
  case (Cons c s)
  then obtain d u where t: "t = d # u" by (cases t) (simp_all add: hexString_def hexPair_def)
  then have "hexPair c = hexPair d" "hexString s = hexString u" using Cons.prems by (simp_all add: hexString_def hexPair_def)
  then show ?case using Cons.IH hexPair_inj t by blast
qed

lemma hexPair_chars: "x \<in> set (hexPair c) \<Longrightarrow> \<exists>n < 16. x = hexChar n"
proof -
  assume "x \<in> set (hexPair c)"
  then have "x = hexChar (of_char c div 16) \<or> x = hexChar (of_char c mod 16)" by (auto simp: hexPair_def)
  moreover have "of_char c div 16 < (16 :: nat)" using nat_of_char_less_256 [of c] by (intro less_mult_imp_div_less) simp
  moreover have "of_char c mod 16 < (16 :: nat)" by simp
  ultimately show ?thesis by blast
qed

lemma hexString_lines: "CHR 0x0A \<notin> set (hexString s)"
  by (auto simp: hexString_def dest!: hexPair_chars) (metis hexChar_line)

lemma jsonChar_prefix: "jsonChar c @ x = jsonChar d @ y \<Longrightarrow> c = d \<and> x = y"
  using plain_char [of c] plain_char [of d] jsonShort_not_u [of c] jsonShort_not_u [of d]
  by (auto simp: jsonChar_def hexPair_def split: option.splits if_splits
      dest: jsonShort_inj hexPair_parts)

definition jsonUnit :: "string \<Rightarrow> string \<times> string" where
  "jsonUnit s =
     (case lineSeparator s of
        Some d \<Rightarrow> (take 3 s, [CHR 0x5C, CHR ''u'', CHR ''2'', CHR ''0'', CHR ''2'', d])
      | None \<Rightarrow> ([hd s], jsonChar (hd s)))"

lemma jsonChars_Nil [simp]: "jsonChars [] = []"
  by (simp add: jsonChars.simps [of "[]"] lineSeparator_def)

lemma jsonChars_unit:
  "s \<noteq> [] \<Longrightarrow> jsonChars s = snd (jsonUnit s) @ jsonChars (drop (length (fst (jsonUnit s))) s)"
  by (subst jsonChars.simps) (auto simp: jsonUnit_def lineSeparator_def neq_Nil_conv split: option.splits if_splits)

lemma unit_take: "s \<noteq> [] \<Longrightarrow> fst (jsonUnit s) \<noteq> [] \<and> take (length (fst (jsonUnit s))) s = fst (jsonUnit s)"
  by (auto simp: jsonUnit_def lineSeparator_def neq_Nil_conv split: option.splits if_splits)

lemma jsonChar_starts: "jsonChar c @ x = [CHR 0x5C, CHR ''u'', CHR ''2''] @ y \<Longrightarrow> False"
  using plain_char [of c] jsonShort_not_u [of c]
  by (auto simp: jsonChar_def split: option.splits if_splits)

lemma jsonChar_quote: "jsonChar c @ x = CHR 0x22 # y \<Longrightarrow> False"
  using plain_char [of c] by (auto simp: jsonChar_def split: option.splits if_splits)

lemma separator_take: "lineSeparator s = Some d \<Longrightarrow>
    take 3 s = [CHR 0xE2, CHR 0x80, if d = CHR ''8'' then CHR 0xA8 else CHR 0xA9] \<and> (d = CHR ''8'' \<or> d = CHR ''9'')"
  by (cases s; cases "tl s"; cases "tl (tl s)") (auto simp: lineSeparator_def split: if_splits)

lemma unit_prefix:
  assumes "snd (jsonUnit s) @ x = snd (jsonUnit t) @ y"
  shows "fst (jsonUnit s) = fst (jsonUnit t) \<and> x = y"
proof (cases "lineSeparator s")
  case None
  show ?thesis
  proof (cases "lineSeparator t")
    case None
    then show ?thesis using assms \<open>lineSeparator s = None\<close> jsonChar_prefix [of "hd s" x "hd t" y]
      by (simp add: jsonUnit_def)
  next
    case (Some d)
    then show ?thesis using assms \<open>lineSeparator s = None\<close> jsonChar_starts [of "hd s" x] by (simp add: jsonUnit_def)
  qed
next
  case (Some d)
  show ?thesis
  proof (cases "lineSeparator t")
    case None
    then have "jsonChar (hd t) @ y = [CHR 0x5C, CHR ''u'', CHR ''2''] @ [CHR ''0'', CHR ''2'', d] @ x"
      using assms Some by (simp add: jsonUnit_def)
    then show ?thesis using jsonChar_starts by blast
  next
    case (Some e)
    then show ?thesis using assms \<open>lineSeparator s = Some d\<close> separator_take [of s d] separator_take [of t e]
      by (auto simp: jsonUnit_def)
  qed
qed

lemma unit_quote: "s \<noteq> [] \<Longrightarrow> snd (jsonUnit s) @ x \<noteq> CHR 0x22 # y"
  using jsonChar_quote [of "hd s" x y] by (auto simp: jsonUnit_def split: option.splits)

lemma jsonChars_quote: "jsonChars s @ CHR 0x22 # x = jsonChars t @ CHR 0x22 # y \<Longrightarrow> s = t \<and> x = y"
proof (induction "length s" arbitrary: s t rule: less_induct)
  case less
  show ?case
  proof (cases "s = [] \<or> t = []")
    case True
    then show ?thesis
    proof (cases "s = []")
      case True
      then show ?thesis using less.prems unit_quote [of t] by (cases "t = []") (auto simp: jsonChars_unit [of t] dest: sym)
    next
      case False
      then have "t = []" using True by simp
      then show ?thesis using less.prems unit_quote [OF False] by (simp add: jsonChars_unit [OF False])
    qed
  next
    case False
    let ?d = "drop (length (fst (jsonUnit s))) s" and ?e = "drop (length (fst (jsonUnit t))) t"
    have u: "fst (jsonUnit s) = fst (jsonUnit t) \<and> jsonChars ?d @ CHR 0x22 # x = jsonChars ?e @ CHR 0x22 # y"
      using less.prems False by (intro unit_prefix) (simp add: jsonChars_unit [of s] jsonChars_unit [of t])
    have "length ?d < length s" using unit_take [of s] False by (cases "fst (jsonUnit s)") auto
    then have d: "?d = ?e \<and> x = y" using less.hyps [of ?d ?e] u by blast
    then have "s = t" using unit_take [of s] unit_take [of t] False u
      by (metis append_take_drop_id)
    then show ?thesis using d by blast
  qed
qed

lemma jsonString_prefix: "jsonString s @ x = jsonString t @ y \<Longrightarrow> s = t \<and> x = y"
  using jsonChars_quote [of s x t y] by (simp add: jsonString_def)

definition jsonPair :: "string \<times> string \<Rightarrow> string" where
  "jsonPair p = jsonString (fst p) @ '':'' @ jsonString (snd p)"

lemma jsonMap_pairs: "jsonMap m = ''{'' @ joinWith CHR '','' (map jsonPair (sort_key fst m)) @ ''}''"
  by (simp add: jsonMap_def jsonPair_def [abs_def] split_def)

lemma jsonPair_prefix: "jsonPair p @ x = jsonPair q @ y \<Longrightarrow> p = q \<and> x = y"
  unfolding jsonPair_def append_assoc
  using jsonString_prefix [of "fst p" "'':'' @ jsonString (snd p) @ x" "fst q" "'':'' @ jsonString (snd q) @ y"]
    jsonString_prefix [of "snd p" x "snd q" y] by (cases p; cases q) auto

lemma jsonPairs_inj:
  "joinWith CHR '','' (map jsonPair ps) @ ''}'' = joinWith CHR '','' (map jsonPair qs) @ ''}'' \<Longrightarrow> ps = qs"
proof (induction ps arbitrary: qs)
  case Nil
  then show ?case by (cases qs; cases "tl qs") (auto simp: jsonPair_def jsonString_def)
next
  case (Cons p ps)
  obtain q qs' where qs: "qs = q # qs'"
    using Cons.prems by (cases qs; cases ps) (auto simp: jsonPair_def jsonString_def)
  define tail where "tail rs = (case rs of [] \<Rightarrow> ''}'' | _ \<Rightarrow> CHR '','' # joinWith CHR '','' (map jsonPair rs) @ ''}'')"
    for rs
  have step: "joinWith CHR '','' (map jsonPair (r # rs)) @ ''}'' = jsonPair r @ tail rs" for r rs
    by (cases rs) (simp_all add: tail_def)
  have e: "p = q \<and> tail ps = tail qs'" using Cons.prems unfolding qs step by (rule jsonPair_prefix)
  then have "ps = qs'" using Cons.IH [of qs'] by (cases ps; cases qs') (auto simp: tail_def)
  then show ?case using e qs by simp
qed

lemma jsonMap_inj: "jsonMap m = jsonMap n \<Longrightarrow> sort_key fst m = sort_key fst n"
  unfolding jsonMap_pairs by (rule jsonPairs_inj) simp

lemma jsonMap_same:
  assumes "jsonMap m = jsonMap n" and "distinct (map fst m)" and "distinct (map fst n)"
  shows "map_of m = map_of n"
proof -
  have "set m = set n" using jsonMap_inj [OF assms(1)] by (metis set_sort)
  then show ?thesis using assms(2,3) by (metis map_of_inject_set)
qed

lemma jsonChar_lines: "CHR 0x0A \<notin> set (jsonChar c)"
proof -
  have hex: "hexChar n \<noteq> CHR 0x0A" if "n < 16" for n
  proof -
    have "(of_char (hexChar n) :: nat) = (if n < 10 then 48 + n else 87 + n)"
      using that by (simp add: hexChar_def of_char_of)
    then have "(of_char (hexChar n) :: nat) \<noteq> of_char (CHR 0x0A)" by simp
    then show ?thesis by metis
  qed
  have "(of_char c :: nat) div 16 < 16" using nat_of_char_less_256 [of c] by linarith
  then have "hexChar (of_char c div 16) \<noteq> CHR 0x0A" "hexChar (of_char c mod 16) \<noteq> CHR 0x0A" by (simp_all add: hex)
  moreover have "x \<noteq> CHR 0x0A" if "jsonShort c = Some x" for x
    using that by (auto simp: jsonShort_def split: if_splits)
  ultimately show ?thesis using plain_char [of c]
    by (auto simp: jsonChar_def hexPair_def split: option.splits dest: sym)
qed

lemma jsonChars_lines: "CHR 0x0A \<notin> set (jsonChars s)"
proof (induction s rule: jsonChars.induct)
  case (1 s)
  show ?case
  proof (cases "lineSeparator s")
    case None
    show ?thesis
    proof (cases s)
      case (Cons c cs)
      then have "CHR 0x0A \<notin> set (jsonChars cs)" using 1(1) None by blast
      then show ?thesis using None Cons jsonChar_lines [of c] by (simp add: jsonChars.simps [of "c # cs"])
    qed simp
  next
    case (Some d)
    then show ?thesis using 1(2) [OF Some] separator_take [OF Some] by (subst jsonChars.simps) auto
  qed
qed

lemma joinWith_set: "c \<in> set (joinWith sep xs) \<Longrightarrow> c = sep \<or> (\<exists>x \<in> set xs. c \<in> set x)"
  by (induction sep xs rule: joinWith.induct) auto

lemma jsonMap_lines: "CHR 0x0A \<notin> set (jsonMap m)"
  using jsonChars_lines by (auto simp: jsonMap_pairs jsonPair_def jsonString_def dest!: joinWith_set)

end
