(* ===== verification/Runs.thy ===== *)
theory Runs
  imports Main
begin

text \<open>
  Histories of a service: events with a time and a precondition, runs whose events are in
  order, and, as two locales, what a step keeps and what every run then keeps. Inventory
  and payments interpret them on their own steps.
\<close>

section \<open>Machines that keep an invariant\<close>

locale kept_machine =
  fixes step :: "'e \<Rightarrow> 's \<Rightarrow> 's" and allowed :: "'e \<Rightarrow> bool" and kept :: "'s \<Rightarrow> bool" and grown :: "'s \<Rightarrow> 's \<Rightarrow> bool"
  assumes step_kept: "allowed e \<Longrightarrow> kept s \<Longrightarrow> kept (step e s)"
    and grown_refl: "grown s s" and grown_trans: "grown s s' \<Longrightarrow> grown s' s'' \<Longrightarrow> grown s s''"
    and step_grown: "grown s (step e s)"
begin

lemma run_kept: "list_all allowed es \<Longrightarrow> kept s \<Longrightarrow> kept (fold step es s)"
  by (induction es arbitrary: s) (auto intro: step_kept)

lemma run_grown: "grown s (fold step es s)"
  by (induction es arbitrary: s) (auto intro: grown_refl grown_trans [OF step_grown])

end

section \<open>Machines whose invariant ages\<close>

text \<open>Events, each within its preconditions, that start no earlier than \<open>t\<close> and in order.\<close>

fun ordered :: "('e \<Rightarrow> int) \<Rightarrow> ('e \<Rightarrow> bool) \<Rightarrow> int \<Rightarrow> 'e list \<Rightarrow> bool" where
  "ordered at ok t [] \<longleftrightarrow> True"
| "ordered at ok t (e # es) \<longleftrightarrow> t \<le> at e \<and> ok e \<and> ordered at ok (at e) es"

fun lastAt :: "('e \<Rightarrow> int) \<Rightarrow> int \<Rightarrow> 'e list \<Rightarrow> int" where
  "lastAt at t [] = t"
| "lastAt at t (e # es) = lastAt at (at e) es"

lemma ordered_append: "ordered at ok t (es @ fs) \<longleftrightarrow> ordered at ok t es \<and> ordered at ok (lastAt at t es) fs"
  by (induction es arbitrary: t) auto

lemma lastAt_le: "ordered at ok t es \<Longrightarrow> t \<le> lastAt at t es"
  by (induction es arbitrary: t) (auto intro: order_trans)

locale timed_machine =
  fixes step :: "'e \<Rightarrow> 's \<Rightarrow> 's" and at :: "'e \<Rightarrow> int" and ok :: "'e \<Rightarrow> bool" and good :: "int \<Rightarrow> 's \<Rightarrow> bool"
  assumes step_good: "ok e \<Longrightarrow> good (at e) s \<Longrightarrow> good (at e) (step e s)"
    and good_later: "good t s \<Longrightarrow> t \<le> u \<Longrightarrow> good u s"
begin

lemma run_good: "ordered at ok t es \<Longrightarrow> good t s \<Longrightarrow> good (lastAt at t es) (fold step es s)"
proof (induction es arbitrary: t s)
  case (Cons e es)
  have "good (at e) (step e s)" using Cons.prems good_later [of t s "at e"] by (auto intro: step_good)
  then show ?case using Cons.IH [of "at e" "step e s"] Cons.prems(1) by simp
qed simp

end

locale timed_evolution = timed_machine step at ok good
  for step :: "'e \<Rightarrow> 's \<Rightarrow> 's" and at ok good +
  fixes evolves :: "'s \<Rightarrow> 's \<Rightarrow> bool"
  assumes evolves_refl: "evolves s s" and evolves_trans: "evolves s s' \<Longrightarrow> evolves s' s'' \<Longrightarrow> evolves s s''"
    and step_evolves: "ok e \<Longrightarrow> good (at e) s \<Longrightarrow> evolves s (step e s)"
begin

lemma run_evolves: "ordered at ok t es \<Longrightarrow> good t s \<Longrightarrow> evolves s (fold step es s)"
proof (induction es arbitrary: t s)
  case (Cons e es)
  have g: "good (at e) s" using Cons.prems good_later [of t s "at e"] by simp
  have "evolves (step e s) (fold step es (step e s))"
    using Cons.prems(1) step_good [OF _ g] by (intro Cons.IH [of "at e"]) auto
  then show ?case using step_evolves [OF _ g] Cons.prems(1) evolves_trans by auto
qed (simp add: evolves_refl)

end

end
