(* ===== verification/Payments_Journal.thy ===== *)
theory Payments_Journal
  imports Payments_Settlement Json_Text Runs "HOL-Library.AList"
begin

text \<open>
  The hash-chained journal of \<open>src/services/payments/internal/store/store.go\<close>: the
  admission of a fact (\<open>validate\<close>), its canonical bytes, the append with its settlement
  in one transaction (\<open>AppendWithSettlement\<close>) and the verification of the whole journal
  against its heads (\<open>Verify\<close>), with the keys of \<open>keyring.go\<close>. A byte string is a
  \<open>string\<close>. SHA-256, HMAC-SHA-256, \<open>uuid.Parse\<close> and the printing of an instant in
  \<open>time.RFC3339Nano\<close> are the fields of \<open>JournalEnv\<close>.
\<close>

section \<open>Facts\<close>

record JournalEnv =
  jeSha :: "string \<Rightarrow> string"
  jeMac :: "string \<Rightarrow> string \<Rightarrow> string"
  jeRFC :: "time \<Rightarrow> string"
  jeParse :: "string \<Rightarrow> uuid option"

datatype refusal =
    InvalidFact
  | CurrencyUnsupported string
  | FactTypeUnsupported
  | FieldForbidden string
  | FieldNotAllowed string
  | OrderIDRequired
  | AmountNotPositive string
  | FactIDReused

datatype journal_error =
    Refused refusal
  | SettlementRefused insert_error
  | ErrJournalDatabase
  | SequenceGap uuid int int
  | PreviousHashMismatch uuid int
  | InvalidHash uuid int
  | UnknownKeyID string uuid int
  | InvalidSignature string uuid int
  | HeadMismatch uuid
  | EntriesMissingHead

definition SupportedCurrencies :: "string list" where
  "SupportedCurrencies = [''EUR'']"

definition moneyMovingTypes :: "string list" where
  "moneyMovingTypes = [''payment.authorized'', ''payment.captured'', ''payment.voided'', ''payment.refunded'',
     ''order.refunded'']"

definition allowedTypes :: "string list" where
  "allowedTypes = [''order.created'', ''order.completed'', ''order.failed'', ''order.refunded'',
     ''order.exchange.reversed'', ''order.exchange.sold'', ''payment.authorized'', ''payment.captured'',
     ''payment.declined'', ''payment.timeout'', ''payment.voided'', ''payment.refunded'']"

definition toLower :: "string \<Rightarrow> string" where
  "toLower s = map (\<lambda>c. if CHR ''A'' \<le> c \<and> c \<le> CHR ''Z'' then char_of (of_char c + 32 :: nat) else c) s"

definition Contains :: "string \<Rightarrow> string \<Rightarrow> bool" where
  "Contains s t = list_ex (\<lambda>i. take (length t) (drop i s) = t) [0..<length s + 1]"

text \<open>The payload's keys, in the order the \<open>range\<close> visits them.\<close>

fun payloadRefusal :: "string list \<Rightarrow> refusal option" where
  "payloadRefusal [] = None"
| "payloadRefusal (k # ks) =
     (let l = toLower k in
      if Contains l ''email'' \<or> Contains l ''name'' \<or> Contains l ''pan'' \<or> Contains l ''cvv''
      then Some (FieldForbidden k)
      else if k \<noteq> ''order_id'' then Some (FieldNotAllowed k)
      else payloadRefusal ks)"

definition orderText :: "Fact \<Rightarrow> string" where
  "orderText f = (case map_of (faPayload f) ''order_id'' of None \<Rightarrow> '''' | Some t \<Rightarrow> t)"

definition validateFact :: "JournalEnv \<Rightarrow> Fact \<Rightarrow> refusal option" where
  "validateFact env f =
     (if faID f = uuid_Nil \<or> faOrganizerID f = uuid_Nil \<or> faBuyerID f = uuid_Nil \<or> faAmount f < 0
      then Some InvalidFact
      else if faCurrency f \<notin> set SupportedCurrencies then Some (CurrencyUnsupported (faCurrency f))
      else if faType f \<notin> set allowedTypes then Some FactTypeUnsupported
      else (case payloadRefusal (map fst (faPayload f)) of
          Some r \<Rightarrow> Some r
        | None \<Rightarrow>
            if jeParse env (orderText f) = None then Some OrderIDRequired
            else if faType f \<in> set moneyMovingTypes \<and> faAmount f \<le> 0 then Some (AmountNotPositive (faType f))
            else None))"

definition canonical :: "JournalEnv \<Rightarrow> Fact \<Rightarrow> int \<Rightarrow> string" where
  "canonical env f seq =
     joinWith CHR 0x0A [''1'', uuid_String (faOrganizerID f), formatInt seq, uuid_String (faID f), faType f,
       jeRFC env (faOccurredAt f), uuid_String (faBuyerID f), formatInt (faAmount f), faCurrency f,
       jsonMap (faPayload f)]"

section \<open>Keys and tables\<close>

record Keyring =
  kyActive :: string
  kyKeys :: "string \<Rightarrow> string option"

definition keySign :: "JournalEnv \<Rightarrow> Keyring \<Rightarrow> string \<Rightarrow> string" where
  "keySign env ring dg = jeMac env (case kyKeys ring (kyActive ring) of None \<Rightarrow> '''' | Some k \<Rightarrow> k) dg"

record Entry =
  enFact :: Fact
  enSequence :: int
  enPreviousHash :: string
  enEntryHash :: string
  enSignature :: string
  enKeyID :: string

record JournalDB =
  jdEntries :: "Entry list"
  jdHeads :: "(uuid \<times> int \<times> string) list"
  jdSettlement :: "SettlementRow list"

definition zeroHash :: string where
  "zeroHash = replicate 32 (CHR 0x00)"

definition entryOrg :: "Entry \<Rightarrow> uuid" where
  "entryOrg e = faOrganizerID (enFact e)"

section \<open>Append\<close>

definition loadExistingFact :: "JournalEnv \<Rightarrow> Fact \<Rightarrow> JournalDB \<Rightarrow> journal_error + Entry option" where
  "loadExistingFact env f db =
     (case find (\<lambda>e. faID (enFact e) = faID f) (jdEntries db) of
        None \<Rightarrow> Inr None
      | Some e \<Rightarrow>
          if canonical env f (enSequence e) \<noteq> canonical env (enFact e) (enSequence e)
          then Inl (Refused FactIDReused) else Inr (Some e))"

definition stamped :: "time \<Rightarrow> Fact \<Rightarrow> Fact" where
  "stamped now f = f\<lparr>faOccurredAt := truncateMicro (if IsZero (faOccurredAt f) then now else faOccurredAt f)\<rparr>"

text \<open>The head row, created at zero where the organizer has none.\<close>

definition openHead :: "uuid \<Rightarrow> JournalDB \<Rightarrow> JournalDB" where
  "openHead org db =
     (if map_of (jdHeads db) org = None then db\<lparr>jdHeads := jdHeads db @ [(org, 0, zeroHash)]\<rparr> else db)"

definition setHead :: "uuid \<Rightarrow> int \<times> string \<Rightarrow> JournalDB \<Rightarrow> JournalDB" where
  "setHead org h db = db\<lparr>jdHeads := map (\<lambda>r. if fst r = org then (org, h) else r) (jdHeads db)\<rparr>"

text \<open>The shape the schema gives a currency, and the code checks before it writes one.\<close>

definition isISOCurrency :: "string \<Rightarrow> bool" where
  "isISOCurrency s \<longleftrightarrow> length s = 3 \<and> list_all (\<lambda>c. CHR ''A'' \<le> c \<and> c \<le> CHR ''Z'') s"

text \<open>The CHECKs of a row of \<open>journal_entries\<close>, and its two keys.\<close>

definition entryRow :: "Entry \<Rightarrow> bool" where
  "entryRow e \<longleftrightarrow>
     int64 (enSequence e) \<and> enSequence e > 0 \<and> faAmount (enFact e) \<ge> 0 \<and> isISOCurrency (faCurrency (enFact e)) \<and>
     length (enPreviousHash e) = 32 \<and> length (enEntryHash e) = 32 \<and> length (enSignature e) = 32"

definition entryCheck :: "Entry \<Rightarrow> Entry list \<Rightarrow> bool" where
  "entryCheck e es \<longleftrightarrow>
     entryRow e \<and>
     list_all (\<lambda>d. faID (enFact d) \<noteq> faID (enFact e) \<and>
        (entryOrg d \<noteq> entryOrg e \<or> enSequence d \<noteq> enSequence e)) es"

text \<open>The two deferred triggers, at the commit of the transaction that wrote this fact.\<close>

definition commitSettlement :: "JournalEnv \<Rightarrow> Fact \<Rightarrow> SettlementEntry list \<Rightarrow> JournalDB \<Rightarrow> bool" where
  "commitSettlement env f settlement db \<longleftrightarrow>
     (settlement = [] \<or> settlementBalances (jeParse env) f (jdSettlement db)) \<and>
     (faType f = ''payment.captured'' \<longrightarrow> list_ex (\<lambda>r. srCaptureFactID r = faID f) (jdSettlement db))"

definition newEntry :: "JournalEnv \<Rightarrow> Keyring \<Rightarrow> Fact \<Rightarrow> int \<Rightarrow> string \<Rightarrow> Entry" where
  "newEntry env ring f seq prev =
     (let dg = jeSha env (prev @ canonical env f seq) in
      \<lparr>enFact = f, enSequence = seq, enPreviousHash = prev, enEntryHash = dg,
       enSignature = keySign env ring dg, enKeyID = kyActive ring\<rparr>)"

definition writeFact ::
  "JournalEnv \<Rightarrow> Keyring \<Rightarrow> Fact \<Rightarrow> SettlementEntry list \<Rightarrow> JournalDB \<Rightarrow> journal_error + (Entry \<times> JournalDB)" where
  "writeFact env ring f settlement db =
     (case map_of (jdHeads db) (faOrganizerID f) of
        None \<Rightarrow> Inl ErrJournalDatabase
      | Some (lastSeq, prev) \<Rightarrow>
          let e = newEntry env ring f (wrap64 (lastSeq + 1)) prev in
          if \<not> entryCheck e (jdEntries db) then Inl ErrJournalDatabase
          else
            let db1 = setHead (faOrganizerID f) (enSequence e, enEntryHash e)
                        (db\<lparr>jdEntries := jdEntries db @ [e]\<rparr>) in
            (case insertSettlement (jeParse env) f settlement (jdSettlement db1) of
               Inl r \<Rightarrow> Inl (SettlementRefused r)
             | Inr rows \<Rightarrow>
                 let db2 = db1\<lparr>jdSettlement := rows\<rparr> in
                 if commitSettlement env f settlement db2 then Inr (e, db2) else Inl ErrJournalDatabase))"

text \<open>
  \<open>seen\<close> is what the transaction read before it took the organizer's lock, \<open>db\<close> what it
  finds under the lock.
\<close>

definition AppendWithSettlement ::
  "JournalEnv \<Rightarrow> Keyring \<Rightarrow> time \<Rightarrow> Fact \<Rightarrow> SettlementEntry list \<Rightarrow> JournalDB \<Rightarrow> JournalDB \<Rightarrow>
   (journal_error + (Entry \<times> bool)) \<times> JournalDB" where
  "AppendWithSettlement env ring now f0 settlement seen db =
     (case validateFact env f0 of
        Some r \<Rightarrow> (Inl (Refused r), db)
      | None \<Rightarrow>
          let f = stamped now f0 in
          (case loadExistingFact env f seen of
             Inl x \<Rightarrow> (Inl x, db)
           | Inr (Some e) \<Rightarrow> (Inr (e, True), db)
           | Inr None \<Rightarrow>
               let db1 = openHead (faOrganizerID f) db in
               (case loadExistingFact env f db1 of
                  Inl x \<Rightarrow> (Inl x, db)
                | Inr (Some e) \<Rightarrow> (Inr (e, True), db1)
                | Inr None \<Rightarrow>
                    (case writeFact env ring f settlement db1 of
                       Inl x \<Rightarrow> (Inl x, db)
                     | Inr (e, db2) \<Rightarrow> (Inr (e, False), db2)))))"

definition Append ::
  "JournalEnv \<Rightarrow> Keyring \<Rightarrow> time \<Rightarrow> Fact \<Rightarrow> JournalDB \<Rightarrow> JournalDB \<Rightarrow>
   (journal_error + (Entry \<times> bool)) \<times> JournalDB" where
  "Append env ring now f seen db = AppendWithSettlement env ring now f [] seen db"

section \<open>Verify\<close>

type_synonym scan = "(uuid \<times> int) list \<times> (uuid \<times> string) list"

definition seqOf :: "(uuid \<times> int) list \<Rightarrow> uuid \<Rightarrow> int" where
  "seqOf seqs org = (case map_of seqs org of None \<Rightarrow> 0 | Some n \<Rightarrow> n)"

definition sumOf :: "(uuid \<times> string) list \<Rightarrow> uuid \<Rightarrow> string" where
  "sumOf prevs org = (case map_of prevs org of None \<Rightarrow> [] | Some h \<Rightarrow> h)"

definition chainedAfter :: "(uuid \<times> string) list \<Rightarrow> uuid \<Rightarrow> string" where
  "chainedAfter prevs org = (case map_of prevs org of None \<Rightarrow> zeroHash | Some h \<Rightarrow> h)"

definition keyVerify :: "JournalEnv \<Rightarrow> Keyring \<Rightarrow> Entry \<Rightarrow> string \<Rightarrow> journal_error option" where
  "keyVerify env ring e dg =
     (case kyKeys ring (enKeyID e) of
        None \<Rightarrow> Some (UnknownKeyID (enKeyID e) (entryOrg e) (enSequence e))
      | Some k \<Rightarrow> if jeMac env k dg \<noteq> enSignature e
          then Some (InvalidSignature (enKeyID e) (entryOrg e) (enSequence e)) else None)"

definition verifyEntry :: "JournalEnv \<Rightarrow> Keyring \<Rightarrow> Entry \<Rightarrow> scan \<Rightarrow> journal_error + scan" where
  "verifyEntry env ring e = (\<lambda>(seqs, prevs).
     let org = entryOrg e; prev = chainedAfter prevs org; want = wrap64 (seqOf seqs org + 1) in
     if enSequence e \<noteq> want then Inl (SequenceGap org want (enSequence e))
     else if prev \<noteq> enPreviousHash e then Inl (PreviousHashMismatch org (enSequence e))
     else
       let dg = jeSha env (prev @ canonical env (enFact e) (enSequence e)) in
       if dg \<noteq> enEntryHash e then Inl (InvalidHash org (enSequence e))
       else (case keyVerify env ring e dg of
           Some x \<Rightarrow> Inl x
         | None \<Rightarrow> Inr (AList.update org (enSequence e) seqs, AList.update org dg prevs)))"

definition verifyHead ::
  "(uuid \<times> string) list \<Rightarrow> uuid \<times> int \<times> string \<Rightarrow> (uuid \<times> int) list \<Rightarrow> journal_error + (uuid \<times> int) list" where
  "verifyHead prevs = (\<lambda>(org, seq, dg) seqs.
     if seqOf seqs org \<noteq> seq \<or> sumOf prevs org \<noteq> dg then Inl (HeadMismatch org)
     else Inr (AList.delete org seqs))"

definition Verify :: "JournalEnv \<Rightarrow> Keyring \<Rightarrow> JournalDB \<Rightarrow> journal_error option" where
  "Verify env ring db =
     (case foldE (verifyEntry env ring) (sort_key (\<lambda>e. (entryOrg e, enSequence e)) (jdEntries db)) ([], []) of
        Inl x \<Rightarrow> Some x
      | Inr (seqs, prevs) \<Rightarrow>
          (case foldE (verifyHead prevs) (jdHeads db) seqs of
             Inl x \<Rightarrow> Some x
           | Inr rest \<Rightarrow> if rest \<noteq> [] then Some EntriesMissingHead else None))"

end
