(* ===== verification/Payments_Chain.thy ===== *)
theory Payments_Chain
  imports Payments_Journal
begin

text \<open>
  What \<open>Verify\<close> decides, organizer by organizer: a chain from the zero hash in which every
  entry carries the next number, the hash so far, the hash of itself on top and a signature
  of a key of the ring. Then: every append keeps the journal verifiable, appends replay,
  and a journal that verifies against the same heads holds the same facts.
\<close>

section \<open>Chains\<close>

definition linked :: "JournalEnv \<Rightarrow> Keyring \<Rightarrow> int \<times> string \<Rightarrow> Entry \<Rightarrow> bool" where
  "linked env ring s e \<longleftrightarrow>
     enSequence e = wrap64 (fst s + 1) \<and> enPreviousHash e = snd s \<and>
     enEntryHash e = jeSha env (snd s @ canonical env (enFact e) (enSequence e)) \<and>
     keyVerify env ring e (enEntryHash e) = None"

fun chain :: "JournalEnv \<Rightarrow> Keyring \<Rightarrow> int \<times> string \<Rightarrow> Entry list \<Rightarrow> (int \<times> string) option" where
  "chain env ring s [] = Some s"
| "chain env ring s (e # es) =
     (if linked env ring s e then chain env ring (enSequence e, enEntryHash e) es else None)"

definition orgEntries :: "JournalDB \<Rightarrow> uuid \<Rightarrow> Entry list" where
  "orgEntries db org = sort_key enSequence (filter (\<lambda>e. entryOrg e = org) (jdEntries db))"

definition scanned :: "scan \<Rightarrow> uuid \<Rightarrow> int \<times> string" where
  "scanned st org = (seqOf (fst st) org, chainedAfter (snd st) org)"

definition scanNext :: "Entry \<Rightarrow> scan \<Rightarrow> scan" where
  "scanNext e st = (AList.update (entryOrg e) (enSequence e) (fst st), AList.update (entryOrg e) (enEntryHash e) (snd st))"

lemma chain_append: "chain env ring s (es @ fs) = Option.bind (chain env ring s es) (\<lambda>t. chain env ring t fs)"
  by (induction es arbitrary: s) auto

lemma scanned_next:
  "scanned (scanNext e st) org = (if org = entryOrg e then (enSequence e, enEntryHash e) else scanned st org)"
  by (simp add: scanNext_def scanned_def seqOf_def chainedAfter_def update_conv')

lemma scanned_start: "scanned ([], []) org = (0, zeroHash)"
  by (simp add: scanned_def seqOf_def chainedAfter_def)

lemma verifyEntry_Inr:
  "verifyEntry env ring e st = Inr st' \<longleftrightarrow> linked env ring (scanned st (entryOrg e)) e \<and> st' = scanNext e st"
  by (cases st) (auto simp: verifyEntry_def linked_def scanned_def scanNext_def Let_def split: option.splits)

lemma scan_chain:
  "foldE (verifyEntry env ring) es st = Inr st' \<Longrightarrow>
   chain env ring (scanned st org) (filter (\<lambda>e. entryOrg e = org) es) = Some (scanned st' org)"
proof (induction es arbitrary: st)
  case (Cons e es)
  have l: "linked env ring (scanned st (entryOrg e)) e"
    and f: "foldE (verifyEntry env ring) es (scanNext e st) = Inr st'"
    using Cons.prems by (simp_all add: bindE_Inr_iff verifyEntry_Inr)
  show ?case using Cons.IH [OF f] l by (cases "entryOrg e = org") (auto simp: scanned_next)
qed simp

lemma chain_scan:
  "(\<And>org. chain env ring (scanned st org) (filter (\<lambda>e. entryOrg e = org) es) \<noteq> None) \<Longrightarrow>
   \<exists>st'. foldE (verifyEntry env ring) es st = Inr st'"
proof (induction es arbitrary: st)
  case (Cons e es)
  have l: "linked env ring (scanned st (entryOrg e)) e"
    using Cons.prems [of "entryOrg e"] by (auto split: if_splits)
  have "chain env ring (scanned (scanNext e st) org) (filter (\<lambda>e. entryOrg e = org) es) \<noteq> None" for org
    using Cons.prems [of org] l by (cases "entryOrg e = org") (auto simp: scanned_next)
  then obtain st' where "foldE (verifyEntry env ring) es (scanNext e st) = Inr st'" using Cons.IH by blast
  then show ?case using l by (auto simp: bindE_Inr_iff verifyEntry_Inr)
qed simp

lemma scan_keys:
  "foldE (verifyEntry env ring) es st = Inr st' \<Longrightarrow>
   dom (map_of (fst st')) = dom (map_of (fst st)) \<union> entryOrg ` set es \<and>
   dom (map_of (snd st')) = dom (map_of (snd st)) \<union> entryOrg ` set es"
proof (induction es arbitrary: st)
  case (Cons e es)
  have "foldE (verifyEntry env ring) es (scanNext e st) = Inr st'"
    using Cons.prems by (simp add: bindE_Inr_iff verifyEntry_Inr)
  from Cons.IH [OF this] show ?case by (auto simp: scanNext_def update_conv')
qed simp

text \<open>The head rows, one per organizer, use up exactly the organizers they name.\<close>

lemma heads_fold:
  assumes "distinct (map fst hs)"
  shows "foldE (verifyHead prevs) hs seqs = Inr rest \<longleftrightarrow>
    (\<forall>(org, n, h) \<in> set hs. seqOf seqs org = n \<and> sumOf prevs org = h) \<and>
    rest = fold (\<lambda>r. AList.delete (fst r)) hs seqs"
  using assms
proof (induction hs arbitrary: seqs)
  case (Cons r hs)
  obtain org n h where r: "r = (org, n, h)" by (cases r)
  have "seqOf (AList.delete org seqs) o' = seqOf seqs o'" if "o' \<in> fst ` set hs" for o'
    using that Cons.prems r by (auto simp: seqOf_def delete_conv')
  then have "(\<forall>(o', n, h) \<in> set hs. seqOf (AList.delete org seqs) o' = n \<and> sumOf prevs o' = h) \<longleftrightarrow>
      (\<forall>(o', n, h) \<in> set hs. seqOf seqs o' = n \<and> sumOf prevs o' = h)" by force
  then show ?case using Cons r by (auto simp: verifyHead_def bindE_Inr_iff)
qed auto

lemma deleted_all: "fold (\<lambda>r. AList.delete (fst r)) hs seqs = [] \<longleftrightarrow> dom (map_of seqs) \<subseteq> fst ` set hs"
proof -
  have "fst ` set (fold (\<lambda>r. AList.delete (fst r)) hs seqs) = fst ` set seqs - fst ` set hs"
    by (induction hs arbitrary: seqs) (auto simp: AList.delete_eq)
  then show ?thesis unfolding dom_map_of_conv_image_fst by (metis Diff_eq_empty_iff image_is_empty set_empty)
qed

lemma sort_key_same_org:
  "(\<And>x. x \<in> set xs \<Longrightarrow> entryOrg x = org) \<Longrightarrow>
   sort_key (\<lambda>e. (entryOrg e, enSequence e)) xs = sort_key enSequence xs"
proof (induction xs)
  case (Cons x xs)
  have x: "entryOrg x = org" using Cons.prems by simp
  have "insort_key (\<lambda>e. (entryOrg e, enSequence e)) x ys = insort_key enSequence x ys"
    if "\<forall>y \<in> set ys. entryOrg y = org" for ys
    using that x by (induction ys) auto
  moreover have "\<forall>y \<in> set (sort_key enSequence xs). entryOrg y = org" using Cons.prems by simp
  ultimately show ?case using Cons by simp
qed simp

lemma filter_scan_order:
  "filter (\<lambda>e. entryOrg e = org) (sort_key (\<lambda>e. (entryOrg e, enSequence e)) (jdEntries db)) = orgEntries db org"
  unfolding filter_sort orgEntries_def by (rule sort_key_same_org) auto

text \<open>The declared meaning of a journal that verifies.\<close>

definition headMatches :: "JournalEnv \<Rightarrow> Keyring \<Rightarrow> JournalDB \<Rightarrow> uuid \<times> int \<times> string \<Rightarrow> bool" where
  "headMatches env ring db = (\<lambda>(org, n, h).
     if orgEntries db org = [] then n = 0 \<and> h = ''''
     else chain env ring (0, zeroHash) (orgEntries db org) = Some (n, h))"

definition journalHolds :: "JournalEnv \<Rightarrow> Keyring \<Rightarrow> JournalDB \<Rightarrow> bool" where
  "journalHolds env ring db \<longleftrightarrow>
     list_all (headMatches env ring db) (jdHeads db) \<and>
     list_all (\<lambda>e. entryOrg e \<in> fst ` set (jdHeads db)) (jdEntries db)"

lemma orgEntries_Nil: "orgEntries db org = [] \<longleftrightarrow> org \<notin> entryOrg ` set (jdEntries db)"
  by (metis (mono_tags, lifting) orgEntries_def filter_empty_conv image_iff set_empty set_sort)

lemma Verify_scan:
  assumes "foldE (verifyEntry env ring) (sort_key (\<lambda>e. (entryOrg e, enSequence e)) (jdEntries db)) ([], []) = Inr st"
    and "distinct (map fst (jdHeads db))"
  shows "Verify env ring db = None \<longleftrightarrow> journalHolds env ring db"
proof -
  obtain seqs prevs where st: "st = (seqs, prevs)" by (cases st)
  have keys: "dom (map_of seqs) = entryOrg ` set (jdEntries db)" "dom (map_of prevs) = entryOrg ` set (jdEntries db)"
    using scan_keys [OF assms(1)] by (auto simp: st)
  have c: "chain env ring (0, zeroHash) (orgEntries db org) = Some (seqOf seqs org, chainedAfter prevs org)" for org
    using scan_chain [OF assms(1), of org] by (simp add: filter_scan_order st scanned_def seqOf_def chainedAfter_def)
  have "(seqOf seqs org = n \<and> sumOf prevs org = h) \<longleftrightarrow> headMatches env ring db (org, n, h)" for org n h
  proof (cases "org \<in> entryOrg ` set (jdEntries db)")
    case True
    then obtain p where "map_of prevs org = Some p" using keys(2) by blast
    then show ?thesis using True c [of org]
      by (auto simp: headMatches_def orgEntries_Nil sumOf_def chainedAfter_def)
  next
    case False
    then have "map_of seqs org = None" "map_of prevs org = None" using keys by (auto simp: domIff)
    then show ?thesis using False by (auto simp: headMatches_def orgEntries_Nil seqOf_def sumOf_def)
  qed
  then have m: "(\<forall>(org, n, h) \<in> set (jdHeads db). seqOf seqs org = n \<and> sumOf prevs org = h) \<longleftrightarrow>
      list_all (headMatches env ring db) (jdHeads db)"
    by (auto simp: list_all_iff)
  let ?rest = "fold (\<lambda>r. AList.delete (fst r)) (jdHeads db) seqs"
  have v: "Verify env ring db = None \<longleftrightarrow> foldE (verifyHead prevs) (jdHeads db) seqs = Inr []"
    using assms(1) by (simp add: Verify_def st split: sum.splits)
  have "?rest = [] \<longleftrightarrow> list_all (\<lambda>e. entryOrg e \<in> fst ` set (jdHeads db)) (jdEntries db)"
    unfolding deleted_all keys(1) list_all_iff by blast
  then show ?thesis unfolding v heads_fold [OF assms(2)] m journalHolds_def by (auto dest: sym)
qed

lemma scan_Inr:
  "(\<exists>st. foldE (verifyEntry env ring) (sort_key (\<lambda>e. (entryOrg e, enSequence e)) (jdEntries db)) ([], []) = Inr st) \<longleftrightarrow>
   (\<forall>org. chain env ring (0, zeroHash) (orgEntries db org) \<noteq> None)" (is "(\<exists>st. ?f = Inr st) \<longleftrightarrow> ?r")
proof
  assume "\<exists>st. ?f = Inr st"
  then obtain st where "?f = Inr st" ..
  from scan_chain [OF this] show ?r by (simp add: filter_scan_order scanned_start)
next
  assume r: ?r
  show "\<exists>st. ?f = Inr st" by (rule chain_scan) (simp only: scanned_start filter_scan_order r simp_thms)
qed

lemma journalHolds_chain:
  assumes "journalHolds env ring db"
  shows "chain env ring (0, zeroHash) (orgEntries db org) \<noteq> None"
proof (cases "orgEntries db org = []")
  case False
  then obtain n h where "(org, n, h) \<in> set (jdHeads db)"
    using assms unfolding orgEntries_Nil journalHolds_def list_all_iff by fastforce
  then have "headMatches env ring db (org, n, h)" using assms by (auto simp: journalHolds_def list_all_iff)
  then show ?thesis using False by (simp add: headMatches_def)
qed simp

lemma holds_Verify:
  assumes "journalHolds env ring db" and "distinct (map fst (jdHeads db))"
  shows "Verify env ring db = None"
proof -
  have "\<forall>org. chain env ring (0, zeroHash) (orgEntries db org) \<noteq> None"
    using journalHolds_chain [OF assms(1)] by blast
  then obtain st where
    "foldE (verifyEntry env ring) (sort_key (\<lambda>e. (entryOrg e, enSequence e)) (jdEntries db)) ([], []) = Inr st"
    using scan_Inr [of env ring db] by blast
  from Verify_scan [OF this assms(2)] show ?thesis using assms(1) by blast
qed

lemma Verify_holds: "Verify env ring db = None \<Longrightarrow> distinct (map fst (jdHeads db)) \<Longrightarrow> journalHolds env ring db"
proof (cases "foldE (verifyEntry env ring) (sort_key (\<lambda>e. (entryOrg e, enSequence e)) (jdEntries db)) ([], [])")
  case (Inl x)
  moreover assume "Verify env ring db = None"
  ultimately show ?thesis by (simp add: Verify_def)
next
  case (Inr st)
  assume "Verify env ring db = None" "distinct (map fst (jdHeads db))"
  then show ?thesis using Verify_scan [OF Inr] by blast
qed

text \<open>
  C13: Verification means exactly this: every head row stands at the end of an unbroken chain of its
  organizer's entries, numbered from one, each hashed over the hash before it and signed by
  a key of the ring, and no entry is without a head. Nothing else is accepted, nothing else
  refused.
\<close>
theorem verify_decides_the_chain:
  assumes "distinct (map fst (jdHeads db))"
  shows "Verify env ring db = None \<longleftrightarrow> journalHolds env ring db"
  using assms holds_Verify Verify_holds by blast

section \<open>Canonical bytes\<close>

lemma canonical_parts:
  "canonical env f n = ''1'' @ CHR 0x0A # uuid_String (faOrganizerID f) @ CHR 0x0A # formatInt n @ CHR 0x0A #
     uuid_String (faID f) @ CHR 0x0A # faType f @ CHR 0x0A # jeRFC env (faOccurredAt f) @ CHR 0x0A #
     uuid_String (faBuyerID f) @ CHR 0x0A # formatInt (faAmount f) @ CHR 0x0A # faCurrency f @ CHR 0x0A #
     jsonMap (faPayload f)"
  by (simp add: canonical_def)

lemma canonical_org: "canonical env f n @ x = canonical env g m @ y \<Longrightarrow> faOrganizerID f = faOrganizerID g"
  by (auto simp: canonical_parts append_eq_append_conv)

lemma canonical_same_org: "canonical env f n = canonical env g m \<Longrightarrow> faOrganizerID f = faOrganizerID g"
  by (rule canonical_org [of env f n "[]" g m "[]"]) simp

section \<open>Appends\<close>

record AppendCall =
  apRing :: Keyring
  apNow :: time
  apFact :: Fact
  apSettlement :: "SettlementEntry list"
  apSeen :: JournalDB

definition appendStep :: "JournalEnv \<Rightarrow> AppendCall \<Rightarrow> JournalDB \<Rightarrow> JournalDB" where
  "appendStep env c db =
     snd (AppendWithSettlement env (apRing c) (apNow c) (apFact c) (apSettlement c) (apSeen c) db)"

definition emptyJournal :: JournalDB where
  "emptyJournal = \<lparr>jdEntries = [], jdHeads = [], jdSettlement = []\<rparr>"

text \<open>The ring that verifies later still holds the key this ring signs with.\<close>

definition keyKept :: "Keyring \<Rightarrow> Keyring \<Rightarrow> bool" where
  "keyKept later ring \<longleftrightarrow>
     kyKeys ring (kyActive ring) \<noteq> None \<and> kyKeys later (kyActive ring) = kyKeys ring (kyActive ring)"

definition ofOrg :: "JournalDB \<Rightarrow> uuid \<Rightarrow> Entry list" where
  "ofOrg db org = filter (\<lambda>e. entryOrg e = org) (jdEntries db)"

definition orgChain :: "JournalEnv \<Rightarrow> Keyring \<Rightarrow> JournalDB \<Rightarrow> uuid \<Rightarrow> bool" where
  "orgChain env ring db org =
     (case map_of (jdHeads db) org of
        None \<Rightarrow> ofOrg db org = []
      | Some (n, h) \<Rightarrow>
          0 \<le> n \<and> map enSequence (ofOrg db org) = [1..n] \<and> chain env ring (0, zeroHash) (ofOrg db org) = Some (n, h))"

definition journalChains :: "JournalEnv \<Rightarrow> Keyring \<Rightarrow> JournalDB \<Rightarrow> bool" where
  "journalChains env ring db \<longleftrightarrow>
     distinct (map fst (jdHeads db)) \<and> distinct (map (faID \<circ> enFact) (jdEntries db)) \<and>
     (\<forall>org. orgChain env ring db org) \<and> list_all entryRow (jdEntries db)"

text \<open>Between transactions no head is without an entry.\<close>

definition journalGood :: "JournalEnv \<Rightarrow> Keyring \<Rightarrow> JournalDB \<Rightarrow> bool" where
  "journalGood env ring db \<longleftrightarrow> journalChains env ring db \<and> list_all (\<lambda>r. 0 < fst (snd r)) (jdHeads db)"

lemma setHead_lookup:
  "map_of (jdHeads (setHead org h db)) org' =
   (if org' = org then (if map_of (jdHeads db) org = None then None else Some h) else map_of (jdHeads db) org')"
proof -
  have "map_of (map (\<lambda>r. if fst r = org then (org, h) else r) hs) org' =
    (if org' = org then (if map_of hs org = None then None else Some h) else map_of hs org')" for hs
    by (induction hs) auto
  then show ?thesis by (simp add: setHead_def)
qed

lemma setHead_orgs [simp]: "map fst (jdHeads (setHead org h db)) = map fst (jdHeads db)"
  by (simp add: setHead_def comp_def if_distrib)

lemma setHead_other [simp]: "jdEntries (setHead org h db) = jdEntries db" "jdSettlement (setHead org h db) = jdSettlement db"
  by (simp_all add: setHead_def)

lemma writeFact_Inr:
  assumes "writeFact env ring f settlement db = Inr (e, db')"
  obtains n p where "map_of (jdHeads db) (faOrganizerID f) = Some (n, p)"
    and "e = newEntry env ring f (wrap64 (n + 1)) p" and "entryCheck e (jdEntries db)"
    and "jdEntries db' = jdEntries db @ [e]"
    and "jdHeads db' = jdHeads (setHead (faOrganizerID f) (enSequence e, enEntryHash e) db)"
proof -
  obtain n p where m: "map_of (jdHeads db) (faOrganizerID f) = Some (n, p)"
    using assms by (auto simp: writeFact_def split: option.splits)
  show thesis
    by (rule that [OF m]) (use assms m in \<open>auto simp: writeFact_def Let_def setHead_def split: if_splits sum.splits\<close>)
qed

lemma newEntry_simps [simp]:
  "enFact (newEntry env ring f n p) = f" "enSequence (newEntry env ring f n p) = n"
  "enPreviousHash (newEntry env ring f n p) = p" "entryOrg (newEntry env ring f n p) = faOrganizerID f"
  "enEntryHash (newEntry env ring f n p) = jeSha env (p @ canonical env f n)" "enKeyID (newEntry env ring f n p) = kyActive ring"
  by (simp_all add: newEntry_def entryOrg_def Let_def)

lemma newEntry_linked: "keyKept later ring \<Longrightarrow> linked env later (n, p) (newEntry env ring f (wrap64 (n + 1)) p)"
  by (auto simp: linked_def keyVerify_def keyKept_def newEntry_def keySign_def Let_def split: option.splits)

lemma next_sequence:
  assumes "0 \<le> n" and "int64 n" and "0 < wrap64 (n + 1)"
  shows "wrap64 (n + 1) = n + 1"
proof (cases "n = MaxInt64")
  case True
  then have "wrap64 (n + 1) < 0" by (simp add: wrap64_def)
  then show ?thesis using assms(3) by simp
next
  case False
  then show ?thesis using assms by (intro wrap64_int64) (auto simp: int64_def)
qed

lemma chain_end: "chain env ring s es = Some t \<Longrightarrow> es \<noteq> [] \<Longrightarrow> t = (enSequence (List.last es), enEntryHash (List.last es))"
  by (induction es arbitrary: s) (auto split: if_splits)

lemma headSequence:
  assumes "journalChains env ring db" and "map_of (jdHeads db) org = Some (n, p)"
  shows "0 \<le> n \<and> int64 n"
proof -
  have c: "0 \<le> n" "chain env ring (0, zeroHash) (ofOrg db org) = Some (n, p)"
    using assms by (auto simp: journalChains_def orgChain_def dest!: spec [of _ org])
  show ?thesis
  proof (cases "ofOrg db org = []")
    case False
    then have "n = enSequence (List.last (ofOrg db org))" using chain_end [OF c(2)] by simp
    moreover have "entryRow (List.last (ofOrg db org))"
      using last_in_set [OF False] assms(1) by (auto simp: ofOrg_def journalChains_def list_all_iff)
    ultimately show ?thesis using c(1) by (simp add: entryRow_def)
  qed (use c in \<open>auto simp: int64_def\<close>)
qed

lemma write_chains:
  assumes "journalChains env later db" and "writeFact env ring f settlement db = Inr (e, db')" and "keyKept later ring"
  shows "journalChains env later db'"
proof -
  obtain n p where m: "map_of (jdHeads db) (faOrganizerID f) = Some (n, p)"
    and e: "e = newEntry env ring f (wrap64 (n + 1)) p" and chk: "entryCheck e (jdEntries db)"
    and es: "jdEntries db' = jdEntries db @ [e]"
    and hs: "jdHeads db' = jdHeads (setHead (faOrganizerID f) (enSequence e, enEntryHash e) db)"
    by (rule writeFact_Inr [OF assms(2)])
  have n: "wrap64 (n + 1) = n + 1"
    using headSequence [OF assms(1) m] chk e by (intro next_sequence) (auto simp: entryCheck_def entryRow_def)
  have "orgChain env later db' org" for org
  proof (cases "org = faOrganizerID f")
    case True
    have "0 \<le> n" "map enSequence (ofOrg db org) = [1..n]" "chain env later (0, zeroHash) (ofOrg db org) = Some (n, p)"
      using assms(1) m True by (auto simp: journalChains_def orgChain_def dest!: spec [of _ org])
    moreover have "ofOrg db' org = ofOrg db org @ [e]" using True e es by (simp add: ofOrg_def)
    moreover have "linked env later (n, p) e" using newEntry_linked [OF assms(3)] e by simp
    ultimately show ?thesis using m True e n hs
      by (simp add: orgChain_def setHead_lookup chain_append upto_rec2)
  next
    case False
    have "ofOrg db' org = ofOrg db org" using False e es by (simp add: ofOrg_def)
    moreover have "orgChain env later db org" using assms(1) by (simp add: journalChains_def)
    moreover have "map_of (jdHeads db') org = map_of (jdHeads db) org" using False hs by (simp add: setHead_lookup)
    ultimately show ?thesis by (cases "map_of (jdHeads db) org") (simp_all add: orgChain_def split_def)
  qed
  moreover have "distinct (map (faID \<circ> enFact) (jdEntries db'))" "list_all entryRow (jdEntries db')"
    using assms(1) chk es by (auto simp: journalChains_def entryCheck_def list_all_iff)
  ultimately show ?thesis using assms(1) hs by (simp add: journalChains_def)
qed

lemma openHead_chains: "journalChains env ring db \<Longrightarrow> journalChains env ring (openHead org db)"
proof -
  assume c: "journalChains env ring db"
  have "orgChain env ring (openHead org db) o'" for o'
    using c by (auto simp: journalChains_def orgChain_def openHead_def ofOrg_def map_add_def split: option.splits dest: spec [of _ o'])
  then show ?thesis using c
    by (auto simp: journalChains_def openHead_def map_of_eq_None_iff)
qed

lemma loadExisting_Inr:
  "loadExistingFact env f db = Inr (Some e) \<Longrightarrow>
   e \<in> set (jdEntries db) \<and> faID (enFact e) = faID f \<and> canonical env f (enSequence e) = canonical env (enFact e) (enSequence e)"
  by (auto simp: loadExistingFact_def split: option.splits if_splits dest: find_SomeD)

lemma entry_has_head:
  assumes "journalChains env ring db" and "e \<in> set (jdEntries db)"
  shows "openHead (entryOrg e) db = db"
proof -
  have "ofOrg db (entryOrg e) \<noteq> []" using assms(2) by (auto simp: ofOrg_def filter_empty_conv)
  then have "map_of (jdHeads db) (entryOrg e) \<noteq> None"
    using assms(1) by (auto simp: journalChains_def orgChain_def split: option.splits dest!: spec [of _ "entryOrg e"])
  then show ?thesis by (simp add: openHead_def)
qed

lemma loadExisting_open: "loadExistingFact env f (openHead org db) = loadExistingFact env f db"
  by (simp add: loadExistingFact_def openHead_def)

text \<open>What an append can do to the tables: nothing, or one new entry at the end.\<close>

lemma append_cases:
  assumes "journalChains env later db"
  obtains (same) "snd (AppendWithSettlement env ring now f settlement seen db) = db"
  | (written) e db' where
      "writeFact env ring (stamped now f) settlement (openHead (faOrganizerID f) db) = Inr (e, db')"
      "AppendWithSettlement env ring now f settlement seen db = (Inr (e, False), db')"
proof (cases "validateFact env f")
  case None
  let ?f = "stamped now f"
  have org: "faOrganizerID ?f = faOrganizerID f" by (simp add: stamped_def)
  show ?thesis
  proof (cases "loadExistingFact env ?f seen = Inr None \<and> loadExistingFact env ?f db = Inr None")
    case True
    then have a: "AppendWithSettlement env ring now f settlement seen db =
        (case writeFact env ring ?f settlement (openHead (faOrganizerID f) db) of
           Inl x \<Rightarrow> (Inl x, db) | Inr (e, db2) \<Rightarrow> (Inr (e, False), db2))"
      using None org by (simp add: AppendWithSettlement_def Let_def loadExisting_open)
    show ?thesis
    proof (cases "writeFact env ring ?f settlement (openHead (faOrganizerID f) db)")
      case (Inl x)
      then show ?thesis using a by (intro that(1)) simp
    next
      case (Inr r)
      then show ?thesis using a by (cases r) (auto intro: that(2))
    qed
  next
    case False
    have "openHead (faOrganizerID f) db = db" if "loadExistingFact env ?f db = Inr (Some e)" for e
      using loadExisting_Inr [OF that] canonical_same_org [of env ?f "enSequence e" "enFact e" "enSequence e"]
        entry_has_head [OF assms, of e] org by (simp add: entryOrg_def)
    then have "snd (AppendWithSettlement env ring now f settlement seen db) = db"
      using None False org
      by (auto simp: AppendWithSettlement_def Let_def loadExisting_open split: sum.splits option.splits)
    then show ?thesis by (rule that(1))
  qed
qed (rule that(1), simp add: AppendWithSettlement_def)

lemma append_good:
  assumes "journalGood env later db" and "keyKept later (apRing c)"
  shows "journalGood env later (appendStep env c db)"
proof -
  have c: "journalChains env later db" using assms(1) by (simp add: journalGood_def)
  show ?thesis
  proof (cases rule: append_cases [OF c, of "apRing c" "apNow c" "apFact c" "apSettlement c" "apSeen c", case_names same written])
    case (written e db')
    let ?db = "openHead (faOrganizerID (apFact c)) db"
    obtain n p where m: "map_of (jdHeads ?db) (faOrganizerID (stamped (apNow c) (apFact c))) = Some (n, p)"
      and e: "entryCheck e (jdEntries ?db)"
      and hs: "jdHeads db' = jdHeads (setHead (faOrganizerID (stamped (apNow c) (apFact c))) (enSequence e, enEntryHash e) ?db)"
      by (rule writeFact_Inr [OF written(1)])
    have "journalChains env later db'"
      by (rule write_chains [OF openHead_chains [OF c] written(1) assms(2)])
    moreover have "0 < fst (snd r)" if "r \<in> set (jdHeads db')" for r
      using that e assms(1) unfolding hs
      by (auto simp: setHead_def openHead_def stamped_def entryCheck_def entryRow_def journalGood_def list_all_iff split: if_splits)
    ultimately show ?thesis using written(2) by (simp add: appendStep_def journalGood_def list_all_iff)
  qed (use assms(1) in \<open>simp add: appendStep_def\<close>)
qed

interpretation journal: timed_machine "appendStep env" "\<lambda>c. 0" "\<lambda>c. keyKept later (apRing c)" "\<lambda>t. journalGood env later"
  for env later
  by unfold_locales (auto intro: append_good)

lemma ordered_calls: "ordered (\<lambda>c. 0) ok 0 cs \<longleftrightarrow> list_all ok cs"
  by (induction cs) auto

lemma empty_good: "journalGood env later emptyJournal"
  by (simp add: journalGood_def journalChains_def orgChain_def emptyJournal_def ofOrg_def)

lemma run_journal:
  "list_all (\<lambda>c. keyKept later (apRing c)) cs \<Longrightarrow> journalGood env later db \<Longrightarrow>
   journalGood env later (fold (appendStep env) cs db)"
  using journal.run_good [of later 0 cs env db] by (simp add: ordered_calls)

lemma good_holds:
  assumes "journalGood env ring db"
  shows "journalHolds env ring db" and "distinct (map fst (jdHeads db))"
proof -
  show d: "distinct (map fst (jdHeads db))" using assms by (simp add: journalGood_def journalChains_def)
  have org: "orgChain env ring db org" for org using assms by (simp add: journalGood_def journalChains_def)
  have same: "orgEntries db org = ofOrg db org" for org
  proof -
    have "sorted (map enSequence (ofOrg db org))"
      using org [of org] by (auto simp: orgChain_def ofOrg_def split: option.splits prod.splits)
    then show ?thesis by (simp add: orgEntries_def ofOrg_def sort_key_id_if_sorted)
  qed
  have "headMatches env ring db (org, n, h)" if "(org, n, h) \<in> set (jdHeads db)" for org n h
  proof -
    have "map_of (jdHeads db) org = Some (n, h)" using that d by simp
    moreover have "0 < n" using assms that by (auto simp: journalGood_def list_all_iff)
    ultimately show ?thesis using org [of org] by (auto simp: orgChain_def headMatches_def same)
  qed
  moreover have "entryOrg e \<in> fst ` set (jdHeads db)" if "e \<in> set (jdEntries db)" for e
  proof -
    have "ofOrg db (entryOrg e) \<noteq> []" using that by (auto simp: ofOrg_def filter_empty_conv)
    then have "map_of (jdHeads db) (entryOrg e) \<noteq> None" using org [of "entryOrg e"] by (auto simp: orgChain_def split: option.splits)
    then show ?thesis by (auto simp: map_of_eq_None_iff)
  qed
  ultimately show "journalHolds env ring db" by (auto simp: journalHolds_def list_all_iff)
qed

lemma append_extends: "\<exists>new. jdEntries (appendStep env c db) = jdEntries db @ new"
proof -
  have o: "jdEntries (openHead org db) = jdEntries db" for org by (simp add: openHead_def)
  show ?thesis
    by (auto simp: appendStep_def AppendWithSettlement_def Let_def o split: option.splits sum.splits
        elim: writeFact_Inr)
qed

lemma run_extends: "\<exists>new. jdEntries (fold (appendStep env) cs db) = jdEntries db @ new"
proof (induction cs arbitrary: db)
  case (Cons c cs)
  then show ?case using append_extends [of env c db] by (metis append_assoc fold_simps(2))
qed simp

text \<open>
  Whatever facts are appended, under whatever rotation of keys, the journal verifies at
  every point afterwards under a ring that still holds the keys used, and the entries
  already written stay as they are, where they are.
\<close>
theorem appends_keep_journal_verifiable:
  assumes "list_all (\<lambda>c. keyKept ring (apRing c)) (cs @ ds)"
  shows "Verify env ring (fold (appendStep env) (cs @ ds) emptyJournal) = None \<and>
    take (length (jdEntries (fold (appendStep env) cs emptyJournal)))
      (jdEntries (fold (appendStep env) (cs @ ds) emptyJournal)) = jdEntries (fold (appendStep env) cs emptyJournal)"
proof
  have "journalGood env ring (fold (appendStep env) (cs @ ds) emptyJournal)"
    by (rule run_journal [OF assms empty_good])
  then show "Verify env ring (fold (appendStep env) (cs @ ds) emptyJournal) = None"
    by (intro holds_Verify good_holds)
  obtain new where "jdEntries (fold (appendStep env) ds (fold (appendStep env) cs emptyJournal)) =
      jdEntries (fold (appendStep env) cs emptyJournal) @ new" using run_extends by blast
  then show "take (length (jdEntries (fold (appendStep env) cs emptyJournal)))
      (jdEntries (fold (appendStep env) (cs @ ds) emptyJournal)) = jdEntries (fold (appendStep env) cs emptyJournal)"
    by simp
qed

section \<open>Replays\<close>

lemma find_entry:
  "distinct (map (faID \<circ> enFact) es) \<Longrightarrow> e \<in> set es \<Longrightarrow> find (\<lambda>x. faID (enFact x) = faID (enFact e)) es = Some e"
  by (induction es) (auto simp: comp_def)

lemma find_entry_take:
  assumes "distinct (map (faID \<circ> enFact) es)" and "e \<in> set es"
  shows "find (\<lambda>x. faID (enFact x) = faID (enFact e)) (take k es) \<in> {None, Some e}"
proof (cases "e \<in> set (take k es)")
  case True
  then show ?thesis using find_entry [of "take k es" e] assms(1) by (simp add: take_map [symmetric])
next
  case False
  have "faID (enFact x) \<noteq> faID (enFact e)" if "x \<in> set (take k es)" for x
    using that False assms in_set_takeD [OF that] by (auto simp: distinct_map inj_on_def)
  then show ?thesis by (simp add: find_None_iff)
qed

lemma stamped_fixed: "\<not> IsZero (faOccurredAt f) \<Longrightarrow> stamped now f = stamped now' f"
  by (simp add: stamped_def)

lemma append_found:
  assumes "journalChains env later db" and "e \<in> set (jdEntries db)" and "faID f = faID (enFact e)"
    and "jdEntries seen = take k (jdEntries db)" and "validateFact env f = None"
  shows "AppendWithSettlement env ring now f settlement seen db =
    (if canonical env (stamped now f) (enSequence e) = canonical env (enFact e) (enSequence e)
     then (Inr (e, True), db) else (Inl (Refused FactIDReused), db))"
proof -
  let ?f = "stamped now f"
  have id: "faID ?f = faID (enFact e)" "faOrganizerID ?f = faOrganizerID f" using assms(3) by (simp_all add: stamped_def)
  have d: "distinct (map (faID \<circ> enFact) (jdEntries db))" using assms(1) by (simp add: journalChains_def)
  let ?found = "if canonical env ?f (enSequence e) = canonical env (enFact e) (enSequence e)
    then Inr (Some e) else Inl (Refused FactIDReused)"
  have l: "loadExistingFact env ?f db = ?found"
    using find_entry [OF d assms(2)] by (simp add: loadExistingFact_def id)
  have s: "loadExistingFact env ?f seen = Inr None \<or> loadExistingFact env ?f seen = ?found"
    using find_entry_take [OF d assms(2), of k] assms(4) by (auto simp: loadExistingFact_def id)
  have o: "openHead (faOrganizerID f) db = db" if "canonical env ?f (enSequence e) = canonical env (enFact e) (enSequence e)"
    using canonical_same_org [of env ?f "enSequence e" "enFact e" "enSequence e"] that
      entry_has_head [OF assms(1,2)] id by (simp add: entryOrg_def)
  show ?thesis using l s o assms(5)
    by (auto simp: AppendWithSettlement_def Let_def loadExisting_open id split: if_splits)
qed

lemma append_valid: "AppendWithSettlement env ring now f settlement seen db = (Inr r, db') \<Longrightarrow> validateFact env f = None"
  by (auto simp: AppendWithSettlement_def split: option.splits)

text \<open>An append that answers with an entry has it in its journal, with the content that was sent.\<close>

lemma append_answer:
  assumes "AppendWithSettlement env ring now f settlement seen db = (Inr (e, replayed), db')"
    and "jdEntries seen = take k (jdEntries db)"
  shows "e \<in> set (jdEntries db') \<and> faID (enFact e) = faID f \<and>
    canonical env (stamped now f) (enSequence e) = canonical env (enFact e) (enSequence e)"
proof -
  let ?f = "stamped now f"
  have v: "validateFact env f = None" by (rule append_valid [OF assms(1)])
  have id: "faID ?f = faID f" by (simp add: stamped_def)
  consider (seen) "loadExistingFact env ?f seen = Inr (Some e)" "db' = db"
    | (locked) "loadExistingFact env ?f db = Inr (Some e)" "db' = openHead (faOrganizerID f) db"
    | (written) "writeFact env ring ?f settlement (openHead (faOrganizerID f) db) = Inr (e, db')"
  proof -
    have o: "faOrganizerID ?f = faOrganizerID f" by (simp add: stamped_def)
    show thesis
      using assms(1) v that unfolding AppendWithSettlement_def Let_def loadExisting_open o
      by (auto split: sum.splits option.splits)
  qed
  then show ?thesis
  proof cases
    case seen
    from loadExisting_Inr [OF seen(1)] show ?thesis using seen(2) assms(2) id by (auto dest: in_set_takeD)
  next
    case locked
    from loadExisting_Inr [OF locked(1)] show ?thesis using locked(2) id by (simp add: openHead_def)
  next
    case written
    then obtain n p where "e = newEntry env ring ?f (wrap64 (n + 1)) p"
      and "jdEntries db' = jdEntries (openHead (faOrganizerID f) db) @ [e]" by (rule writeFact_Inr)
    then show ?thesis by (simp add: stamped_def)
  qed
qed

lemma run_entry: "e \<in> set (jdEntries db) \<Longrightarrow> e \<in> set (jdEntries (fold (appendStep env) cs db))"
  using run_extends [of env cs db] by auto


text \<open>
  A fact id stands for one content for ever. Whoever sends another content under the id of an
  entry of the journal is refused, and nothing is written.
\<close>
theorem fact_id_means_one_fact:
  assumes "list_all (\<lambda>c. keyKept later (apRing c)) cs" and "db = fold (appendStep env) cs emptyJournal"
    and "e \<in> set (jdEntries db)" and "faID f = faID (enFact e)"
    and "canonical env (stamped now f) (enSequence e) \<noteq> canonical env (enFact e) (enSequence e)"
    and "jdEntries seen = take k (jdEntries db)"
  shows "\<exists>r. AppendWithSettlement env ring now f settlement seen db = (Inl (Refused r), db)"
proof (cases "validateFact env f")
  case None
  have "journalChains env later db" using run_journal [OF assms(1) empty_good] assms(2) by (simp add: journalGood_def)
  from append_found [OF this assms(3,4,6) None, of ring now settlement] show ?thesis using assms(5) by simp
qed (simp add: AppendWithSettlement_def)

section \<open>Tampering\<close>

definition factContent where
  "factContent f = (faID f, faOrganizerID f, faType f, faOccurredAt f, faBuyerID f, faAmount f, faCurrency f,
     map_of (faPayload f))"

definition entryContent where
  "entryContent e = (enSequence e, enPreviousHash e, enEntryHash e, factContent (enFact e))"

definition hashedText :: "JournalEnv \<Rightarrow> Entry \<Rightarrow> string" where
  "hashedText env e = enPreviousHash e @ canonical env (enFact e) (enSequence e)"

text \<open>A row as the table can hold it: its CHECKs, and an object for a payload.\<close>

definition storedRow :: "Entry \<Rightarrow> bool" where
  "storedRow e \<longleftrightarrow> entryRow e \<and> distinct (map fst (faPayload (enFact e)))"

lemma ISO_lines: "isISOCurrency c \<Longrightarrow> CHR 0x0A \<notin> set c"
  by (auto simp: isISOCurrency_def list_all_iff)

text \<open>The canonical bytes determine the fact, although a type may hold line feeds.\<close>

lemma canonical_inj:
  assumes "canonical env f n = canonical env g m" and "inj (jeRFC env)" and "\<And>t. CHR 0x0A \<notin> set (jeRFC env t)"
    and "isISOCurrency (faCurrency f)" and "isISOCurrency (faCurrency g)"
    and "distinct (map fst (faPayload f))" and "distinct (map fst (faPayload g))"
  shows "factContent f = factContent g \<and> n = m"
proof -
  let ?tail = "\<lambda>f. faType f @ CHR 0x0A # jeRFC env (faOccurredAt f) @ CHR 0x0A #
     uuid_String (faBuyerID f) @ CHR 0x0A # formatInt (faAmount f) @ CHR 0x0A # faCurrency f @ CHR 0x0A #
     jsonMap (faPayload f)"
  have h: "faOrganizerID f = faOrganizerID g \<and> formatInt n = formatInt m \<and> faID f = faID g \<and> ?tail f = ?tail g"
    using assms(1) by (simp add: canonical_parts split_unique [OF uuid_lines uuid_lines]
        split_unique [OF formatInt_lines formatInt_lines])
  then have t: "((((faType f @ CHR 0x0A # jeRFC env (faOccurredAt f)) @ CHR 0x0A #
     uuid_String (faBuyerID f)) @ CHR 0x0A # formatInt (faAmount f)) @ CHR 0x0A # faCurrency f) @ CHR 0x0A #
     jsonMap (faPayload f) =
     ((((faType g @ CHR 0x0A # jeRFC env (faOccurredAt g)) @ CHR 0x0A #
     uuid_String (faBuyerID g)) @ CHR 0x0A # formatInt (faAmount g)) @ CHR 0x0A # faCurrency g) @ CHR 0x0A #
     jsonMap (faPayload g)" by simp
  note 1 = split_last [OF jsonMap_lines jsonMap_lines t]
  note 2 = split_last [OF ISO_lines [OF assms(4)] ISO_lines [OF assms(5)] conjunct1 [OF 1]]
  note 3 = split_last [OF formatInt_lines formatInt_lines conjunct1 [OF 2]]
  note 4 = split_last [OF uuid_lines uuid_lines conjunct1 [OF 3]]
  note 5 = split_last [OF assms(3) assms(3) conjunct1 [OF 4]]
  have "map_of (faPayload f) = map_of (faPayload g)" using 1 assms(6,7) jsonMap_same by blast
  then show ?thesis using h 1 2 3 4 5 assms(2) by (auto simp: factContent_def inj_eq dest: formatInt_inj)
qed

lemma chain_state:
  assumes "chain env ring (0, zeroHash) es = Some s" and "list_all storedRow es"
  shows "0 \<le> fst s \<and> int64 (fst s) \<and> (es \<noteq> [] \<longrightarrow> 0 < fst s)"
proof (cases "es = []")
  case False
  have "storedRow (List.last es)" using last_in_set [OF False] assms(2) by (auto simp: list_all_iff)
  then show ?thesis using chain_end [OF assms(1) False] by (simp add: storedRow_def entryRow_def)
qed (use assms in \<open>auto simp: int64_def\<close>)

lemma linked_hash: "linked env ring s e \<Longrightarrow> enEntryHash e = jeSha env (hashedText env e)"
  by (simp add: linked_def hashedText_def)

lemma chain_unique:
  assumes rfc: "inj (jeRFC env)" "\<And>t. CHR 0x0A \<notin> set (jeRFC env t)"
  shows "chain env ring (0, zeroHash) es = Some s \<Longrightarrow> chain env ring' (0, zeroHash) fs = Some s \<Longrightarrow>
    list_all storedRow es \<Longrightarrow> list_all storedRow fs \<Longrightarrow> inj_on (jeSha env) (hashedText env ` (set es \<union> set fs)) \<Longrightarrow>
    map entryContent es = map entryContent fs"
proof (induction es arbitrary: s fs rule: rev_induct)
  case Nil
  then have "fst s = 0" by auto
  then show ?case using chain_state [OF Nil(2,4)] by auto
next
  case (snoc e es)
  have "0 < fst s" using chain_state [OF snoc.prems(1,3)] by simp
  then have "fs \<noteq> []" using snoc.prems(2) by auto
  then obtain d ds where fs: "fs = ds @ [d]" by (metis rev_exhaust)
  obtain p where p: "chain env ring (0, zeroHash) es = Some p" "linked env ring p e" "s = (enSequence e, enEntryHash e)"
    using snoc.prems(1) by (auto simp: chain_append bind_eq_Some_conv split: if_splits)
  obtain q where q: "chain env ring' (0, zeroHash) ds = Some q" "linked env ring' q d" "s = (enSequence d, enEntryHash d)"
    using snoc.prems(2) fs by (auto simp: chain_append bind_eq_Some_conv split: if_splits)
  have rows: "storedRow e" "storedRow d" "list_all storedRow es" "list_all storedRow ds"
    using snoc.prems(3,4) fs by auto
  have "jeSha env (hashedText env e) = jeSha env (hashedText env d)"
    using linked_hash [OF p(2)] linked_hash [OF q(2)] p(3) q(3) by simp
  then have "hashedText env e = hashedText env d" by (rule inj_onD [OF snoc.prems(5)]) (simp_all add: fs)
  moreover have "length (enPreviousHash e) = length (enPreviousHash d)"
    using rows(1,2) by (simp add: storedRow_def entryRow_def)
  ultimately have same: "enPreviousHash e = enPreviousHash d"
    "canonical env (enFact e) (enSequence e) = canonical env (enFact d) (enSequence d)"
    by (simp_all add: hashedText_def)
  have content: "entryContent e = entryContent d"
    using canonical_inj [OF same(2) rfc] rows(1,2) same(1) p(3) q(3)
    by (simp add: entryContent_def storedRow_def entryRow_def)
  have "fst p + 1 = fst q + 1"
    using next_sequence [of "fst p"] next_sequence [of "fst q"] chain_state [OF p(1) rows(3)] chain_state [OF q(1) rows(4)]
      p(2,3) q(2,3) \<open>0 < fst s\<close> by (simp add: linked_def)
  moreover have "snd p = snd q" using p(2) q(2) same(1) by (simp add: linked_def)
  ultimately have "p = q" by (simp add: prod_eq_iff)
  moreover have "inj_on (jeSha env) (hashedText env ` (set es \<union> set ds))"
    by (rule inj_on_subset [OF snoc.prems(5)]) (auto simp: fs)
  ultimately show ?case using snoc.IH [OF p(1) _ rows(3,4)] q(1) content fs by simp
qed

text \<open>
  C20: A journal that verifies against the same heads holds the same facts, in the same order,
  for every organizer: rewriting, dropping, inserting or reordering entries is detected by
  whoever kept the heads, even when the writer holds the signing keys. It rests on SHA-256
  having no collision among the texts hashed in the two journals.
\<close>
theorem same_heads_same_facts:
  assumes "Verify env ring db = None" and "Verify env ring' db' = None" and "jdHeads db' = jdHeads db"
    and "distinct (map fst (jdHeads db))" and "list_all storedRow (jdEntries db @ jdEntries db')"
    and "inj (jeRFC env)" and "\<forall>t. CHR 0x0A \<notin> set (jeRFC env t)"
    and "inj_on (jeSha env) (hashedText env ` set (jdEntries db @ jdEntries db'))"
  shows "map entryContent (orgEntries db' org) = map entryContent (orgEntries db org)"
proof -
  have v: "journalHolds env ring db" "journalHolds env ring' db'"
    using Verify_holds assms(1-4) by auto
  have rows: "list_all storedRow (orgEntries d org)" if "d = db \<or> d = db'" for d
    using that assms(5) by (auto simp: orgEntries_def list_all_iff)
  show ?thesis
  proof (cases "map_of (jdHeads db) org")
    case None
    then have "org \<notin> fst ` set (jdHeads db)" by (simp add: map_of_eq_None_iff)
    then have "orgEntries db org = []" "orgEntries db' org = []"
      using v assms(3) by (auto simp: orgEntries_Nil journalHolds_def list_all_iff)
    then show ?thesis by simp
  next
    case (Some r)
    obtain n h where r: "r = (n, h)" by (cases r)
    have "(org, n, h) \<in> set (jdHeads db)" using Some r by (auto dest: map_of_SomeD)
    then have hm: "headMatches env ring db (org, n, h)" "headMatches env ring' db' (org, n, h)"
      using v assms(3) by (auto simp: journalHolds_def list_all_iff)
    show ?thesis
    proof (cases "orgEntries db org = [] \<or> orgEntries db' org = []")
      case True
      then have "n = 0" using hm by (auto simp: headMatches_def)
      then have "orgEntries db org = []" "orgEntries db' org = []"
        using hm chain_state [of env ring "orgEntries db org"] chain_state [of env ring' "orgEntries db' org"] rows
        by (auto simp: headMatches_def split: if_splits)
      then show ?thesis by simp
    next
      case False
      have "inj_on (jeSha env) (hashedText env ` (set (orgEntries db' org) \<union> set (orgEntries db org)))"
        by (rule inj_on_subset [OF assms(8)]) (auto simp: orgEntries_def)
      then show ?thesis using hm False rows assms(6,7)
        by (intro chain_unique [of env ring' _ "(n, h)" ring]) (auto simp: headMatches_def)
    qed
  qed
qed

section \<open>Concrete journals\<close>

definition sampleEnv :: JournalEnv where
  "sampleEnv = \<lparr>jeSha = (\<lambda>s. replicate 32 (if take 32 s = zeroHash then CHR ''a'' else CHR ''b'')), jeMac = (\<lambda>k s. s), jeRFC = formatInt,
     jeParse = (\<lambda>s. if length s = 36 then Some 7 else None)\<rparr>"

definition sampleRing :: "string \<Rightarrow> Keyring" where
  "sampleRing k = \<lparr>kyActive = k, kyKeys = [''v1'' \<mapsto> ''first'', ''v2'' \<mapsto> ''second'']\<rparr>"

definition sampleFact :: "uuid \<Rightarrow> Fact" where
  "sampleFact i = \<lparr>faID = i, faOrganizerID = 5, faType = ''order.created'', faOccurredAt = 5000, faBuyerID = 9,
     faAmount = 0, faCurrency = ''EUR'', faPayload = [(''order_id'', uuid_String 7)]\<rparr>"

definition sampleCall :: "string \<Rightarrow> uuid \<Rightarrow> AppendCall" where
  "sampleCall k i = \<lparr>apRing = sampleRing k, apNow = 9000, apFact = sampleFact i, apSettlement = [], apSeen = emptyJournal\<rparr>"

lemma order_id_allowed: "payloadRefusal [''order_id''] = None"
  by code_simp

lemma sample_valid: "i \<noteq> uuid_Nil \<Longrightarrow> validateFact sampleEnv (sampleFact i) = None"
  by (simp add: validateFact_def sampleEnv_def sampleFact_def orderText_def SupportedCurrencies_def
      allowedTypes_def moneyMovingTypes_def order_id_allowed del: payloadRefusal.simps)

lemma sample_stamped: "stamped now (sampleFact i) = sampleFact i"
  by (simp add: stamped_def sampleFact_def IsZero_def truncateMicro_def)

lemma sample_fact: "faID (sampleFact i) = i" "faOrganizerID (sampleFact i) = 5" "faType (sampleFact i) = ''order.created''"
  "faAmount (sampleFact i) = 0" "isISOCurrency (faCurrency (sampleFact i))" "\<not> IsZero (faOccurredAt (sampleFact i))"
  "distinct (map fst (faPayload (sampleFact i)))"
  by (simp_all add: sampleFact_def isISOCurrency_def IsZero_def)

lemma zeroHash_length: "length zeroHash = 32"
  by (simp add: zeroHash_def)

lemma sampleEnv_hash: "length (jeSha sampleEnv s) = 32" "length (jeMac sampleEnv k s) = length s"
  by (simp_all add: sampleEnv_def)

definition sampleEntry :: "string \<Rightarrow> uuid \<Rightarrow> int \<Rightarrow> string \<Rightarrow> Entry" where
  "sampleEntry k i n p = newEntry sampleEnv (sampleRing k) (sampleFact i) n p"

lemma sample_row: "0 < n \<Longrightarrow> int64 n \<Longrightarrow> length p = 32 \<Longrightarrow> storedRow (sampleEntry k i n p)"
  by (simp add: storedRow_def entryRow_def sampleEntry_def newEntry_def sample_fact sampleEnv_hash Let_def keySign_def)

lemma sample_simps:
  "enFact (sampleEntry k i n p) = sampleFact i" "entryOrg (sampleEntry k i n p) = 5"
  "enSequence (sampleEntry k i n p) = n" "enPreviousHash (sampleEntry k i n p) = p"
  "enEntryHash (sampleEntry k i n p) = replicate 32 (if take 32 (p @ canonical sampleEnv (sampleFact i) n) = zeroHash then CHR ''a'' else CHR ''b'')"
  by (simp_all add: sampleEntry_def sample_fact) (simp add: sampleEnv_def)

definition firstEntry :: Entry where
  "firstEntry = sampleEntry ''v1'' 11 1 zeroHash"

definition secondEntry :: Entry where
  "secondEntry = sampleEntry ''v2'' 12 2 (replicate 32 (CHR ''a''))"

lemma first_hash: "enEntryHash firstEntry = replicate 32 (CHR ''a'')"
  by (simp add: firstEntry_def sample_simps zeroHash_length)

lemma second_hash: "enEntryHash secondEntry = replicate 32 (CHR ''b'')"
  by (simp add: secondEntry_def sample_simps) (simp add: zeroHash_def numeral_eq_Suc)

lemma sample_kept: "keyKept (sampleRing ''v2'') (sampleRing ''v1'')" "keyKept (sampleRing ''v2'') (sampleRing ''v2'')"
  by (simp_all add: keyKept_def sampleRing_def)

lemma sample_small: "int64 1" "int64 2" "wrap64 1 = 1" "wrap64 2 = 2"
  by (simp_all add: int64_def wrap64_id)

definition journalOne :: JournalDB where
  "journalOne = \<lparr>jdEntries = [firstEntry], jdHeads = [(5, 1, replicate 32 (CHR ''a''))], jdSettlement = []\<rparr>"

definition journalTwo :: JournalDB where
  "journalTwo = \<lparr>jdEntries = [firstEntry, secondEntry], jdHeads = [(5, 2, replicate 32 (CHR ''b''))], jdSettlement = []\<rparr>"

lemma sample_settles: "insertSettlement p f [] rows = Inr rows"
  by (simp add: insertSettlement_def)
lemma sample_append:
  assumes "i \<noteq> uuid_Nil" and "\<forall>e \<in> set (jdEntries db). faID (enFact e) \<noteq> i \<and> enSequence e \<noteq> n + 1"
    and "jdHeads db = (if n = 0 then [] else [(5, n, p)])" and "n = 0 \<longrightarrow> p = zeroHash"
    and "0 \<le> n" and "int64 (n + 1)" and "length p = 32"
  shows "AppendWithSettlement sampleEnv (sampleRing k) now (sampleFact i) [] emptyJournal db =
    (Inr (sampleEntry k i (n + 1) p, False),
     db\<lparr>jdEntries := jdEntries db @ [sampleEntry k i (n + 1) p], jdHeads := [(5, n + 1, enEntryHash (sampleEntry k i (n + 1) p))]\<rparr>)"
proof -
  let ?e = "sampleEntry k i (n + 1) p"
  have fresh: "loadExistingFact sampleEnv (sampleFact i) db = Inr None"
  proof -
    have "find (\<lambda>e. faID (enFact e) = i) (jdEntries db) = None" using assms(2) by (auto simp: find_None_iff)
    then show ?thesis by (simp add: loadExistingFact_def sample_fact)
  qed
  have seen: "loadExistingFact sampleEnv (sampleFact i) emptyJournal = Inr None"
    by (simp add: loadExistingFact_def emptyJournal_def)
  have heads: "jdHeads (openHead 5 db) = [(5, n, p)]" "jdEntries (openHead 5 db) = jdEntries db"
    using assms(3,4) by (auto simp: openHead_def)
  have chk: "entryCheck ?e (jdEntries db)"
    using sample_row [of "n + 1" p k i] assms by (auto simp: entryCheck_def storedRow_def list_all_iff sample_simps sample_fact)
  have "writeFact sampleEnv (sampleRing k) (sampleFact i) [] (openHead 5 db) =
    Inr (?e, db\<lparr>jdEntries := jdEntries db @ [?e], jdHeads := [(5, n + 1, enEntryHash ?e)]\<rparr>)"
    using chk heads wrap64_int64 [OF assms(6)] assms(3)
    by (simp add: writeFact_def sample_fact sampleEntry_def [symmetric] Let_def sample_settles commitSettlement_def
        setHead_def sample_simps openHead_def)
  then show ?thesis
    using sample_valid [OF assms(1)] fresh seen
    by (simp add: AppendWithSettlement_def sample_stamped loadExisting_open sample_fact Let_def)
qed

lemma sample_one:
  "AppendWithSettlement sampleEnv (sampleRing ''v1'') 9000 (sampleFact 11) [] emptyJournal emptyJournal =
   (Inr (firstEntry, False), journalOne)"
  by (subst sample_append [where n = 0 and p = zeroHash])
    (simp_all add: emptyJournal_def zeroHash_length sample_small journalOne_def firstEntry_def [symmetric] first_hash)

lemma sample_two:
  "AppendWithSettlement sampleEnv (sampleRing ''v2'') 9000 (sampleFact 12) [] emptyJournal journalOne =
   (Inr (secondEntry, False), journalTwo)"
proof -
  have "AppendWithSettlement sampleEnv (sampleRing ''v2'') 9000 (sampleFact 12) [] emptyJournal journalOne =
    (Inr (secondEntry, False), journalOne\<lparr>jdEntries := jdEntries journalOne @ [secondEntry],
       jdHeads := [(5, 2, enEntryHash secondEntry)]\<rparr>)"
    by (subst sample_append [where n = 1 and p = "replicate 32 (CHR ''a'')"])
      (simp_all add: journalOne_def sample_small secondEntry_def firstEntry_def sample_simps sample_fact)
  then show ?thesis by (simp add: journalOne_def journalTwo_def second_hash)
qed

lemma sample_steps:
  "appendStep sampleEnv (sampleCall ''v1'' 11) emptyJournal = journalOne"
  "appendStep sampleEnv (sampleCall ''v2'' 12) journalOne = journalTwo"
  by (simp_all add: appendStep_def sampleCall_def sample_one sample_two)

lemma sample_calls: "list_all (\<lambda>c. keyKept (sampleRing ''v2'') (apRing c)) [sampleCall ''v1'' 11, sampleCall ''v2'' 12]"
  by (simp add: sampleCall_def sample_kept)

lemma sample_fields:
  "jdEntries emptyJournal = []" "jdEntries journalOne = [firstEntry]" "jdEntries journalTwo = [firstEntry, secondEntry]"
  "jdHeads journalTwo = [(5, 2, replicate 32 (CHR ''b''))]"
  "apRing (sampleCall k i) = sampleRing k" "apNow (sampleCall k i) = 9000" "apFact (sampleCall k i) = sampleFact i"
  "apSettlement (sampleCall k i) = []" "apSeen (sampleCall k i) = emptyJournal"
  by (simp_all add: emptyJournal_def journalOne_def journalTwo_def sampleCall_def)

theorem verify_decides_the_chain_witness:
  "Verify sampleEnv (sampleRing ''v2'') journalTwo = None \<longleftrightarrow> journalHolds sampleEnv (sampleRing ''v2'') journalTwo"
  by (rule verify_decides_the_chain) (simp add: journalTwo_def)

theorem appends_keep_journal_verifiable_witness:
  "Verify sampleEnv (sampleRing ''v2'') journalTwo = None \<and> take 1 (jdEntries journalTwo) = jdEntries journalOne"
  using appends_keep_journal_verifiable [of "sampleRing ''v2''" "[sampleCall ''v1'' 11]" "[sampleCall ''v2'' 12]" sampleEnv]
  using sample_calls by (simp add: sample_steps) (simp add: journalOne_def)


theorem fact_id_means_one_fact_witness:
  "\<exists>r. AppendWithSettlement sampleEnv (sampleRing ''v2'') 9000 (sampleFact 11\<lparr>faOrganizerID := 6\<rparr>) [] emptyJournal journalTwo =
     (Inl (Refused r), journalTwo)"
proof (rule fact_id_means_one_fact [where cs = "[sampleCall ''v1'' 11, sampleCall ''v2'' 12]" and later = "sampleRing ''v2''"
      and e = firstEntry and k = 0])
  have "faOrganizerID (stamped 9000 (sampleFact 11\<lparr>faOrganizerID := 6\<rparr>)) \<noteq> faOrganizerID (enFact firstEntry)"
    by (simp add: stamped_def firstEntry_def sample_simps sample_fact)
  then show "canonical sampleEnv (stamped 9000 (sampleFact 11\<lparr>faOrganizerID := 6\<rparr>)) (enSequence firstEntry) \<noteq>
    canonical sampleEnv (enFact firstEntry) (enSequence firstEntry)"
    using canonical_same_org by metis
qed (simp_all add: sample_fields sample_kept sample_steps, simp add: sample_fact sample_simps firstEntry_def)

theorem same_heads_same_facts_witness:
  "map entryContent (orgEntries (journalTwo\<lparr>jdEntries := [secondEntry, firstEntry]\<rparr>) 5) =
   map entryContent (orgEntries journalTwo 5)"
proof (rule same_heads_same_facts [where env = sampleEnv and ring = "sampleRing ''v2''" and ring' = "sampleRing ''v2''"])
  have good: "journalGood sampleEnv (sampleRing ''v2'') journalTwo"
    using run_journal [OF sample_calls empty_good, of sampleEnv] by (simp add: sample_steps)
  show v: "Verify sampleEnv (sampleRing ''v2'') journalTwo = None" by (intro holds_Verify good_holds [OF good])
  have "orgEntries (journalTwo\<lparr>jdEntries := [secondEntry, firstEntry]\<rparr>) = orgEntries journalTwo"
    by (rule ext) (simp add: orgEntries_def sample_fields firstEntry_def secondEntry_def sample_simps)
  then have "journalHolds sampleEnv (sampleRing ''v2'') (journalTwo\<lparr>jdEntries := [secondEntry, firstEntry]\<rparr>)"
    using good_holds(1) [OF good] by (simp add: journalHolds_def headMatches_def sample_fields)
  then show "Verify sampleEnv (sampleRing ''v2'') (journalTwo\<lparr>jdEntries := [secondEntry, firstEntry]\<rparr>) = None"
    by (rule holds_Verify) (simp add: sample_fields)
  show "inj (jeRFC sampleEnv)" by (auto simp: sampleEnv_def inj_def dest: formatInt_inj)
  show "\<forall>t. CHR 0x0A \<notin> set (jeRFC sampleEnv t)" by (simp add: sampleEnv_def formatInt_lines)
  have h: "jeSha sampleEnv (hashedText sampleEnv firstEntry) \<noteq> jeSha sampleEnv (hashedText sampleEnv secondEntry)"
    using first_hash second_hash by (simp add: firstEntry_def secondEntry_def sampleEntry_def hashedText_def)
  show "inj_on (jeSha sampleEnv) (hashedText sampleEnv ` set (jdEntries journalTwo @
      jdEntries (journalTwo\<lparr>jdEntries := [secondEntry, firstEntry]\<rparr>)))"
    using h by (auto simp: sample_fields inj_on_def)
qed (simp_all add: sample_fields firstEntry_def secondEntry_def sample_row sample_small zeroHash_length)

end
