(* ===== verification/Payments_Operations.thy ===== *)
theory Payments_Operations
  imports Payments_Journal
begin

text \<open>
  The operation half of \<open>src/services/payments/internal/store\<close>: the rows a charge binds,
  leases and completes (\<open>store.go\<close>), the whole compensation of a charge (\<open>store.go\<close>) and the
  partial refund legs (\<open>refund_legs.go\<close>), with the CHECKs of migrations 0001 to 0006. A NULL
  is \<open>None\<close>; a function that commits is a function from the tables to its answer and the
  tables it leaves. \<open>now\<close> is the database's clock at the statement.
\<close>

section \<open>Tables\<close>

record OperationRow =
  owOrganizerID :: uuid
  owKey :: string
  owFingerprint :: string
  owStatus :: "string option"
  owFactID :: "uuid option"
  owOccurredAt :: time
  owLeaseUntil :: time
  owOrderID :: "uuid option"
  owBuyerID :: "uuid option"
  owRequestAmount :: "int option"
  owRequestCurrency :: "string option"
  owPaymentMethodRef :: "string option"
  owPaymentRef :: "string option"
  owChargeRef :: "string option"
  owState :: "string option"
  owAuthorizedAmount :: "int option"
  owCapturedAmount :: "int option"
  owStateAt :: "time option"
  owDigest :: "string option"
  owConfirmedAmount :: "int option"
  owConfirmedCurrency :: "string option"

record CompensationRow =
  cwOrganizerID :: uuid
  cwSourceKey :: string
  cwKind :: string
  cwProviderKey :: string
  cwStatus :: "string option"
  cwProviderRef :: "string option"
  cwFactID :: "uuid option"
  cwAmount :: "int option"
  cwCurrency :: "string option"
  cwBoundAt :: time
  cwCompletedAt :: "time option"
  cwConfirmedAmount :: "int option"
  cwConfirmedCurrency :: "string option"

record LegRow =
  lwOrganizerID :: uuid
  lwSourceKey :: string
  lwRefundKey :: string
  lwProviderKey :: string
  lwAmount :: int
  lwCurrency :: string
  lwStatus :: string
  lwProviderRef :: "string option"
  lwFactID :: "uuid option"
  lwBoundAt :: time
  lwCompletedAt :: "time option"
  lwConfirmedAmount :: "int option"
  lwConfirmedCurrency :: "string option"

record PaymentsDB =
  pdOperations :: "OperationRow list"
  pdCompensations :: "CompensationRow list"
  pdLegs :: "LegRow list"

datatype pay_error =
    KeyReused
  | PlanReused
  | OperationInProgress
  | AmountMustBePositive
  | CapturedMoneyRequired
  | CaptureCurrencyDiffers
  | ErrRefundExceedsCapture
  | ErrWholeRefundBound
  | ErrRefundLegsBound
  | ErrOperationNotCompleted
  | ErrCompensationNotCompleted
  | ErrRefundLegNotCompleted
  | PayNoRows
  | ErrPayDatabase

text \<open>A CHECK passes on NULL. Money recorded as confirmed is an amount with its currency.\<close>

definition nullOr :: "('a \<Rightarrow> bool) \<Rightarrow> 'a option \<Rightarrow> bool" where
  "nullOr p x = (case x of None \<Rightarrow> True | Some v \<Rightarrow> p v)"

definition operationRow :: "OperationRow \<Rightarrow> bool" where
  "operationRow r \<longleftrightarrow>
     nullOr (\<lambda>a. 0 \<le> a) (owRequestAmount r) \<and> nullOr isISOCurrency (owRequestCurrency r) \<and>
     nullOr (\<lambda>a. 0 \<le> a) (owAuthorizedAmount r) \<and> nullOr (\<lambda>a. 0 \<le> a) (owCapturedAmount r) \<and>
     nullOr (\<lambda>a. 0 \<le> a) (owConfirmedAmount r) \<and> nullOr isISOCurrency (owConfirmedCurrency r) \<and>
     (owConfirmedAmount r = None \<longleftrightarrow> owConfirmedCurrency r = None)"

definition compensationRow :: "CompensationRow \<Rightarrow> bool" where
  "compensationRow r \<longleftrightarrow>
     (cwKind r = ''void'' \<or> cwKind r = ''refund'') \<and>
     nullOr (\<lambda>a. 0 \<le> a) (cwAmount r) \<and> nullOr isISOCurrency (cwCurrency r) \<and>
     nullOr (\<lambda>a. 0 < a) (cwConfirmedAmount r) \<and> nullOr isISOCurrency (cwConfirmedCurrency r) \<and>
     (cwConfirmedAmount r = None \<longleftrightarrow> cwConfirmedCurrency r = None)"

definition legRow :: "LegRow \<Rightarrow> bool" where
  "legRow r \<longleftrightarrow>
     0 < lwAmount r \<and> isISOCurrency (lwCurrency r) \<and>
     nullOr (\<lambda>a. 0 < a) (lwConfirmedAmount r) \<and> nullOr isISOCurrency (lwConfirmedCurrency r) \<and>
     (lwConfirmedAmount r = None \<longleftrightarrow> lwConfirmedCurrency r = None) \<and>
     (lwStatus r = ''bound'' \<and> lwCompletedAt r = None \<and> lwFactID r = None \<or>
      lwStatus r = ''refunded'' \<and> lwCompletedAt r \<noteq> None \<and> lwFactID r \<noteq> None)"

text \<open>An UPDATE: the rows it affects, unless one of them would break a CHECK.\<close>

definition updateRows :: "('r \<Rightarrow> bool) \<Rightarrow> ('r \<Rightarrow> bool) \<Rightarrow> ('r \<Rightarrow> 'r) \<Rightarrow> 'r list \<Rightarrow> pay_error + (nat \<times> 'r list)" where
  "updateRows check hit f rows =
     (if list_ex (\<lambda>r. hit r \<and> \<not> check (f r)) rows then Inl ErrPayDatabase
      else Inr (length (filter hit rows), map (\<lambda>r. if hit r then f r else r) rows))"

definition nullIf :: "string \<Rightarrow> string option" where
  "nullIf s = (if s = '''' then None else Some s)"

definition coalesce :: "'a option \<Rightarrow> 'a option \<Rightarrow> 'a option" where
  "coalesce x y = (case x of None \<Rightarrow> y | Some v \<Rightarrow> Some v)"

definition textOf :: "string option \<Rightarrow> string" where
  "textOf x = (case x of None \<Rightarrow> '''' | Some s \<Rightarrow> s)"

definition amountOf :: "int option \<Rightarrow> int" where
  "amountOf x = (case x of None \<Rightarrow> 0 | Some n \<Rightarrow> n)"

definition uuidOf :: "uuid option \<Rightarrow> uuid" where
  "uuidOf x = (case x of None \<Rightarrow> uuid_Nil | Some u \<Rightarrow> u)"

section \<open>Operations\<close>

record OperationRequest =
  oqOrderID :: uuid
  oqBuyerID :: uuid
  oqAmount :: int
  oqCurrency :: string
  oqPaymentMethodRef :: string
  oqSettlementDigest :: string

record Operation =
  opStatus :: string
  opFactID :: uuid
  opOccurredAt :: time
  opResolved :: bool
  opRequestFingerprint :: string
  opOrderID :: uuid
  opBuyerID :: uuid
  opRequestAmount :: int
  opRequestCurrency :: string
  opPaymentMethodRef :: string
  opProviderPaymentRef :: string
  opProviderChargeRef :: string
  opProviderState :: string
  opAuthorizedAmount :: int
  opCapturedAmount :: int
  opConfirmedCapturedAmount :: "int option"
  opConfirmedCurrency :: string

record ProviderResult =
  prPaymentRef :: string
  prChargeRef :: string
  prState :: string
  prAuthorizedAmount :: int
  prCapturedAmount :: int
  prConfirmedCapturedAmount :: "int option"
  prConfirmedCurrency :: string

definition leaseTime :: int where
  "leaseTime = 30 * 1000000000"

definition nullableDigest :: "string \<Rightarrow> string option" where
  "nullableDigest d = (if d = '''' then None else Some d)"

definition isOperation :: "uuid \<Rightarrow> string \<Rightarrow> OperationRow \<Rightarrow> bool" where
  "isOperation org key r \<longleftrightarrow> owOrganizerID r = org \<and> owKey r = key"

definition newOperation :: "time \<Rightarrow> uuid \<Rightarrow> string \<Rightarrow> string \<Rightarrow> OperationRequest \<Rightarrow> OperationRow" where
  "newOperation now org key fingerprint req =
     \<lparr>owOrganizerID = org, owKey = key, owFingerprint = fingerprint, owStatus = None, owFactID = None,
      owOccurredAt = now, owLeaseUntil = now + leaseTime, owOrderID = Some (oqOrderID req),
      owBuyerID = Some (oqBuyerID req), owRequestAmount = Some (oqAmount req), owRequestCurrency = Some (oqCurrency req),
      owPaymentMethodRef = Some (oqPaymentMethodRef req), owPaymentRef = None, owChargeRef = None, owState = None,
      owAuthorizedAmount = None, owCapturedAmount = None, owStateAt = None,
      owDigest = nullableDigest (oqSettlementDigest req), owConfirmedAmount = None, owConfirmedCurrency = None\<rparr>"

text \<open>The three statements of \<open>BindOperation\<close>, each its own transaction.\<close>

definition insertOperation ::
  "time \<Rightarrow> uuid \<Rightarrow> string \<Rightarrow> string \<Rightarrow> OperationRequest \<Rightarrow> PaymentsDB \<Rightarrow> pay_error + (bool \<times> PaymentsDB)" where
  "insertOperation now org key fingerprint req db =
     (let row = newOperation now org key fingerprint req in
      if \<not> operationRow row then Inl ErrPayDatabase
      else if list_ex (isOperation org key) (pdOperations db) then Inr (False, db)
      else Inr (True, db\<lparr>pdOperations := pdOperations db @ [row]\<rparr>))"

definition takeLease ::
  "time \<Rightarrow> uuid \<Rightarrow> string \<Rightarrow> string \<Rightarrow> PaymentsDB \<Rightarrow> pay_error + (nat \<times> PaymentsDB)" where
  "takeLease now org key digest db =
     (case updateRows operationRow
         (\<lambda>r. isOperation org key r \<and> owStatus r = None \<and> owLeaseUntil r \<le> now)
         (\<lambda>r. r\<lparr>owLeaseUntil := now + leaseTime, owDigest := coalesce (owDigest r) (nullableDigest digest)\<rparr>)
         (pdOperations db) of
        Inl e \<Rightarrow> Inl e
      | Inr (n, rows) \<Rightarrow> Inr (n, db\<lparr>pdOperations := rows\<rparr>))"

definition boundAnswer :: "OperationRow \<Rightarrow> string \<times> uuid \<times> time \<times> bool" where
  "boundAnswer r = (textOf (owStatus r), uuidOf (owFactID r), truncateMicro (owOccurredAt r), owStatus r \<noteq> None)"

definition BindOperation ::
  "time \<Rightarrow> time \<Rightarrow> uuid \<Rightarrow> string \<Rightarrow> string \<Rightarrow> OperationRequest \<Rightarrow> PaymentsDB \<Rightarrow>
   (pay_error + (string \<times> uuid \<times> time \<times> bool)) \<times> PaymentsDB" where
  "BindOperation now later org key fingerprint req db =
     (case insertOperation now org key fingerprint req db of
        Inl e \<Rightarrow> (Inl e, db)
      | Inr (inserted, db1) \<Rightarrow>
          (case find (isOperation org key) (pdOperations db1) of
             None \<Rightarrow> (Inl PayNoRows, db1)
           | Some r \<Rightarrow>
               if owFingerprint r \<noteq> fingerprint then (Inl KeyReused, db1)
               else if \<not> inserted \<and> owStatus r = None then
                 if owDigest r \<noteq> None \<and> owDigest r \<noteq> Some (oqSettlementDigest req) then (Inl PlanReused, db1)
                 else (case takeLease later org key (oqSettlementDigest req) db1 of
                         Inl e \<Rightarrow> (Inl e, db1)
                       | Inr (rows, db2) \<Rightarrow>
                           if rows = 0 then (Inl OperationInProgress, db2) else (Inr (boundAnswer r), db2))
               else (Inr (boundAnswer r), db1)))"

definition operationOf :: "OperationRow \<Rightarrow> Operation" where
  "operationOf r =
     \<lparr>opStatus = textOf (owStatus r), opFactID = uuidOf (owFactID r), opOccurredAt = truncateMicro (owOccurredAt r),
      opResolved = (owStatus r \<noteq> None), opRequestFingerprint = owFingerprint r, opOrderID = uuidOf (owOrderID r),
      opBuyerID = uuidOf (owBuyerID r), opRequestAmount = amountOf (owRequestAmount r),
      opRequestCurrency = textOf (owRequestCurrency r), opPaymentMethodRef = textOf (owPaymentMethodRef r),
      opProviderPaymentRef = textOf (owPaymentRef r), opProviderChargeRef = textOf (owChargeRef r),
      opProviderState = textOf (owState r), opAuthorizedAmount = amountOf (owAuthorizedAmount r),
      opCapturedAmount = amountOf (owCapturedAmount r), opConfirmedCapturedAmount = owConfirmedAmount r,
      opConfirmedCurrency = textOf (owConfirmedCurrency r)\<rparr>"

definition LookupOperation :: "uuid \<Rightarrow> string \<Rightarrow> PaymentsDB \<Rightarrow> Operation option" where
  "LookupOperation org key db = map_option operationOf (find (isOperation org key) (pdOperations db))"

definition CompleteOperation ::
  "time \<Rightarrow> uuid \<Rightarrow> string \<Rightarrow> string \<Rightarrow> uuid \<Rightarrow> ProviderResult \<Rightarrow> PaymentsDB \<Rightarrow> (pay_error + unit) \<times> PaymentsDB" where
  "CompleteOperation now org key status factID prov db =
     (case updateRows operationRow (\<lambda>r. isOperation org key r \<and> owStatus r = None)
         (\<lambda>r. r\<lparr>owStatus := Some status, owFactID := Some factID, owPaymentRef := nullIf (prPaymentRef prov),
            owChargeRef := nullIf (prChargeRef prov), owState := nullIf (prState prov),
            owAuthorizedAmount := Some (prAuthorizedAmount prov), owCapturedAmount := Some (prCapturedAmount prov),
            owConfirmedAmount := prConfirmedCapturedAmount prov, owConfirmedCurrency := nullIf (prConfirmedCurrency prov),
            owStateAt := Some now\<rparr>)
         (pdOperations db) of
        Inl e \<Rightarrow> (Inl e, db)
      | Inr (n, rows) \<Rightarrow>
          if n = 0 then
            (case LookupOperation org key db of
               None \<Rightarrow> (Inl ErrOperationNotCompleted, db)
             | Some existing \<Rightarrow>
                 if \<not> opResolved existing then (Inl ErrOperationNotCompleted, db)
                 else if opFactID existing \<noteq> factID then (Inl ErrOperationNotCompleted, db)
                 else (Inr (), db))
          else (Inr (), db\<lparr>pdOperations := rows\<rparr>))"

definition RecordProviderState ::
  "time \<Rightarrow> uuid \<Rightarrow> string \<Rightarrow> ProviderResult \<Rightarrow> PaymentsDB \<Rightarrow> (pay_error + bool) \<times> PaymentsDB" where
  "RecordProviderState now org key prov db =
     (case updateRows operationRow
         (\<lambda>r. isOperation org key r \<and>
            (owState r = None \<or> owState r = Some ''authorized'' \<or> owState r = Some (prState prov)))
         (\<lambda>r. r\<lparr>owPaymentRef := coalesce (nullIf (prPaymentRef prov)) (owPaymentRef r),
            owChargeRef := coalesce (nullIf (prChargeRef prov)) (owChargeRef r), owState := nullIf (prState prov),
            owAuthorizedAmount := Some (prAuthorizedAmount prov), owCapturedAmount := Some (prCapturedAmount prov),
            owConfirmedAmount := coalesce (prConfirmedCapturedAmount prov) (owConfirmedAmount r),
            owConfirmedCurrency := coalesce (nullIf (prConfirmedCurrency prov)) (owConfirmedCurrency r),
            owStateAt := Some now\<rparr>)
         (pdOperations db) of
        Inl e \<Rightarrow> (Inl e, db)
      | Inr (n, rows) \<Rightarrow> (Inr (n > 0), db\<lparr>pdOperations := rows\<rparr>))"

section \<open>Whole compensations\<close>

record Compensation =
  coKind :: string
  coProviderKey :: string
  coStatus :: string
  coProviderRef :: string
  coFactID :: uuid
  coAmount :: int
  coCurrency :: string
  coCompleted :: bool
  coConfirmedAmount :: "int option"
  coConfirmedCurrency :: string
  coBoundAt :: time

record ConfirmedRefund =
  crAmount :: int
  crCurrency :: string

definition noRefund :: ConfirmedRefund where
  "noRefund = \<lparr>crAmount = 0, crCurrency = ''''\<rparr>"

definition CompensationKey :: "JournalEnv \<Rightarrow> uuid \<Rightarrow> string \<Rightarrow> string \<Rightarrow> string" where
  "CompensationKey env org sourceKey kind =
     ''psp-comp-v1:'' @ hexString (jeSha env (uuid_String org @ CHR 0x00 # sourceKey @ CHR 0x00 # kind))"

definition isCompensation :: "uuid \<Rightarrow> string \<Rightarrow> string \<Rightarrow> CompensationRow \<Rightarrow> bool" where
  "isCompensation org sourceKey kind r \<longleftrightarrow> cwOrganizerID r = org \<and> cwSourceKey r = sourceKey \<and> cwKind r = kind"

definition compensationOf :: "CompensationRow \<Rightarrow> Compensation" where
  "compensationOf r =
     \<lparr>coKind = cwKind r, coProviderKey = cwProviderKey r, coStatus = textOf (cwStatus r),
      coProviderRef = textOf (cwProviderRef r), coFactID = uuidOf (cwFactID r), coAmount = amountOf (cwAmount r),
      coCurrency = textOf (cwCurrency r), coCompleted = (cwStatus r \<noteq> None), coConfirmedAmount = cwConfirmedAmount r,
      coConfirmedCurrency = textOf (cwConfirmedCurrency r), coBoundAt = truncateMicro (cwBoundAt r)\<rparr>"

definition LookupCompensation :: "uuid \<Rightarrow> string \<Rightarrow> string \<Rightarrow> PaymentsDB \<Rightarrow> Compensation option" where
  "LookupCompensation org sourceKey kind db =
     map_option compensationOf (find (isCompensation org sourceKey kind) (pdCompensations db))"

definition isLegOf :: "uuid \<Rightarrow> string \<Rightarrow> LegRow \<Rightarrow> bool" where
  "isLegOf org sourceKey r \<longleftrightarrow> lwOrganizerID r = org \<and> lwSourceKey r = sourceKey"

definition newCompensation ::
  "JournalEnv \<Rightarrow> time \<Rightarrow> uuid \<Rightarrow> string \<Rightarrow> string \<Rightarrow> int \<Rightarrow> string \<Rightarrow> CompensationRow" where
  "newCompensation env now org sourceKey kind amount currency =
     \<lparr>cwOrganizerID = org, cwSourceKey = sourceKey, cwKind = kind, cwProviderKey = CompensationKey env org sourceKey kind,
      cwStatus = None, cwProviderRef = None, cwFactID = None, cwAmount = Some amount, cwCurrency = Some currency,
      cwBoundAt = now, cwCompletedAt = None, cwConfirmedAmount = None, cwConfirmedCurrency = None\<rparr>"

definition BindCompensation ::
  "JournalEnv \<Rightarrow> time \<Rightarrow> uuid \<Rightarrow> string \<Rightarrow> string \<Rightarrow> int \<Rightarrow> string \<Rightarrow> PaymentsDB \<Rightarrow>
   (pay_error + Compensation) \<times> PaymentsDB" where
  "BindCompensation env now org sourceKey kind amount currency db =
     (if \<not> list_ex (isOperation org sourceKey) (pdOperations db) then (Inl PayNoRows, db)
      else (case LookupCompensation org sourceKey kind db of
          Some c \<Rightarrow> (Inr c, db)
        | None \<Rightarrow>
            if kind = ''refund'' \<and> length (filter (isLegOf org sourceKey) (pdLegs db)) > 0 then (Inl ErrRefundLegsBound, db)
            else
              let row = newCompensation env now org sourceKey kind amount currency in
              if \<not> compensationRow row then (Inl ErrPayDatabase, db)
              else
                let db1 = db\<lparr>pdCompensations := pdCompensations db @ [row]\<rparr> in
                (case LookupCompensation org sourceKey kind db1 of
                   None \<Rightarrow> (Inl ErrPayDatabase, db)
                 | Some c \<Rightarrow> (Inr c, db1))))"

definition RecordCompensationProviderRef ::
  "uuid \<Rightarrow> string \<Rightarrow> string \<Rightarrow> string \<Rightarrow> PaymentsDB \<Rightarrow> (pay_error + unit) \<times> PaymentsDB" where
  "RecordCompensationProviderRef org sourceKey kind providerRef db =
     (case updateRows compensationRow (\<lambda>r. isCompensation org sourceKey kind r \<and> cwStatus r = None)
         (\<lambda>r. r\<lparr>cwProviderRef := Some providerRef\<rparr>) (pdCompensations db) of
        Inl e \<Rightarrow> (Inl e, db)
      | Inr (n, rows) \<Rightarrow> (Inr (), db\<lparr>pdCompensations := rows\<rparr>))"

definition confirmedPair :: "string \<Rightarrow> ConfirmedRefund \<Rightarrow> (int option \<times> string option) option" where
  "confirmedPair kind confirmed =
     (if kind = ''refund'' then
        if crAmount confirmed \<le> 0 \<or> \<not> isISOCurrency (crCurrency confirmed) then None
        else Some (Some (crAmount confirmed), Some (crCurrency confirmed))
      else if kind = ''void'' then (if confirmed \<noteq> noRefund then None else Some (None, None))
      else None)"

definition CompleteCompensation ::
  "time \<Rightarrow> uuid \<Rightarrow> string \<Rightarrow> string \<Rightarrow> string \<Rightarrow> string \<Rightarrow> uuid \<Rightarrow> ConfirmedRefund \<Rightarrow> PaymentsDB \<Rightarrow>
   (pay_error + unit) \<times> PaymentsDB" where
  "CompleteCompensation now org sourceKey kind status providerRef factID confirmed db =
     (case confirmedPair kind confirmed of
        None \<Rightarrow> (Inl ErrCompensationNotCompleted, db)
      | Some (amount, currency) \<Rightarrow>
          (case updateRows compensationRow (\<lambda>r. isCompensation org sourceKey kind r \<and> cwStatus r = None)
              (\<lambda>r. r\<lparr>cwStatus := Some status, cwProviderRef := nullIf providerRef, cwFactID := Some factID,
                 cwCompletedAt := Some now, cwConfirmedAmount := amount, cwConfirmedCurrency := currency\<rparr>)
              (pdCompensations db) of
             Inl e \<Rightarrow> (Inl e, db)
           | Inr (n, rows) \<Rightarrow>
               if n = 0 then
                 (case LookupCompensation org sourceKey kind db of
                    None \<Rightarrow> (Inl ErrCompensationNotCompleted, db)
                  | Some existing \<Rightarrow>
                      if \<not> coCompleted existing then (Inl ErrCompensationNotCompleted, db)
                      else if coFactID existing \<noteq> factID then (Inl ErrCompensationNotCompleted, db)
                      else (Inr (), db))
               else (Inr (), db\<lparr>pdCompensations := rows\<rparr>)))"

section \<open>Partial refund legs\<close>

record RefundLeg =
  rlRefundKey :: string
  rlProviderKey :: string
  rlAmount :: int
  rlCurrency :: string
  rlStatus :: string
  rlProviderRef :: string
  rlFactID :: uuid
  rlCompleted :: bool
  rlConfirmedAmount :: "int option"
  rlConfirmedCurrency :: string
  rlBoundAt :: time

definition RefundLegKey :: "JournalEnv \<Rightarrow> uuid \<Rightarrow> string \<Rightarrow> string \<Rightarrow> string" where
  "RefundLegKey env org sourceKey refundKey =
     ''psp-refund-leg-v1:'' @ hexString (jeSha env (uuid_String org @ CHR 0x00 # sourceKey @ CHR 0x00 # refundKey))"

definition isLeg :: "uuid \<Rightarrow> string \<Rightarrow> string \<Rightarrow> LegRow \<Rightarrow> bool" where
  "isLeg org sourceKey refundKey r \<longleftrightarrow> isLegOf org sourceKey r \<and> lwRefundKey r = refundKey"

definition refundLegOf :: "LegRow \<Rightarrow> RefundLeg" where
  "refundLegOf r =
     \<lparr>rlRefundKey = lwRefundKey r, rlProviderKey = lwProviderKey r, rlAmount = lwAmount r, rlCurrency = lwCurrency r,
      rlStatus = lwStatus r, rlProviderRef = textOf (lwProviderRef r), rlFactID = uuidOf (lwFactID r),
      rlCompleted = (lwStatus r = ''refunded''), rlConfirmedAmount = lwConfirmedAmount r,
      rlConfirmedCurrency = textOf (lwConfirmedCurrency r), rlBoundAt = truncateMicro (lwBoundAt r)\<rparr>"

definition LookupRefundLeg :: "uuid \<Rightarrow> string \<Rightarrow> string \<Rightarrow> PaymentsDB \<Rightarrow> RefundLeg option" where
  "LookupRefundLeg org sourceKey refundKey db =
     map_option refundLegOf (find (isLeg org sourceKey refundKey) (pdLegs db))"

definition newLeg :: "JournalEnv \<Rightarrow> time \<Rightarrow> uuid \<Rightarrow> string \<Rightarrow> string \<Rightarrow> int \<Rightarrow> string \<Rightarrow> LegRow" where
  "newLeg env now org sourceKey refundKey amount currency =
     \<lparr>lwOrganizerID = org, lwSourceKey = sourceKey, lwRefundKey = refundKey,
      lwProviderKey = RefundLegKey env org sourceKey refundKey, lwAmount = amount, lwCurrency = currency,
      lwStatus = ''bound'', lwProviderRef = None, lwFactID = None, lwBoundAt = now, lwCompletedAt = None,
      lwConfirmedAmount = None, lwConfirmedCurrency = None\<rparr>"

text \<open>The table's CHECKs and its unique provider key; the primary key was looked up before.\<close>

definition legInsertable :: "LegRow \<Rightarrow> LegRow list \<Rightarrow> bool" where
  "legInsertable r rows \<longleftrightarrow>
     legRow r \<and> list_all (\<lambda>q. lwOrganizerID q \<noteq> lwOrganizerID r \<or> lwProviderKey q \<noteq> lwProviderKey r) rows"

definition boundTotal :: "uuid \<Rightarrow> string \<Rightarrow> LegRow list \<Rightarrow> int" where
  "boundTotal org sourceKey rows = sum_list (map lwAmount (filter (isLegOf org sourceKey) rows))"

text \<open>\<open>sum(bigint)\<close> is a numeric; scanning it into an \<open>int64\<close> fails when it does not fit.\<close>

definition BindRefundLeg ::
  "JournalEnv \<Rightarrow> time \<Rightarrow> uuid \<Rightarrow> string \<Rightarrow> string \<Rightarrow> int \<Rightarrow> string \<Rightarrow> PaymentsDB \<Rightarrow>
   (pay_error + RefundLeg) \<times> PaymentsDB" where
  "BindRefundLeg env now org sourceKey refundKey amount currency db =
     (if amount \<le> 0 then (Inl AmountMustBePositive, db)
      else (case find (isOperation org sourceKey) (pdOperations db) of
          None \<Rightarrow> (Inl PayNoRows, db)
        | Some op \<Rightarrow>
            (case LookupRefundLeg org sourceKey refundKey db of
               Some leg \<Rightarrow> (Inr leg, db)
             | None \<Rightarrow>
                 if textOf (owState op) \<noteq> ''captured'' \<or> amountOf (owCapturedAmount op) \<le> 0
                 then (Inl CapturedMoneyRequired, db)
                 else if textOf (owRequestCurrency op) \<noteq> currency then (Inl CaptureCurrencyDiffers, db)
                 else if length (filter (isCompensation org sourceKey ''refund'') (pdCompensations db)) > 0
                 then (Inl ErrWholeRefundBound, db)
                 else
                   let bound = boundTotal org sourceKey (pdLegs db) in
                   if \<not> int64 bound then (Inl ErrPayDatabase, db)
                   else (case checkedAddMoney bound amount of
                       Inl e \<Rightarrow> (Inl ErrRefundExceedsCapture, db)
                     | Inr tot \<Rightarrow>
                         if tot > amountOf (owCapturedAmount op) then (Inl ErrRefundExceedsCapture, db)
                         else
                           let row = newLeg env now org sourceKey refundKey amount currency in
                           if \<not> legInsertable row (pdLegs db) then (Inl ErrPayDatabase, db)
                           else
                             let db1 = db\<lparr>pdLegs := pdLegs db @ [row]\<rparr> in
                             (case LookupRefundLeg org sourceKey refundKey db1 of
                                None \<Rightarrow> (Inl ErrPayDatabase, db)
                              | Some leg \<Rightarrow> (Inr leg, db1))))))"

text \<open>A fact identifies at most one leg.\<close>

definition factFree :: "uuid \<Rightarrow> LegRow list \<Rightarrow> bool" where
  "factFree factID rows \<longleftrightarrow> list_all (\<lambda>r. lwFactID r \<noteq> Some factID) rows"

definition CompleteRefundLeg ::
  "time \<Rightarrow> uuid \<Rightarrow> string \<Rightarrow> string \<Rightarrow> string \<Rightarrow> uuid \<Rightarrow> ConfirmedRefund \<Rightarrow> PaymentsDB \<Rightarrow>
   (pay_error + unit) \<times> PaymentsDB" where
  "CompleteRefundLeg now org sourceKey refundKey providerRef factID confirmed db =
     (if crAmount confirmed \<le> 0 \<or> crCurrency confirmed = '''' then (Inl ErrRefundLegNotCompleted, db)
      else (case updateRows legRow (\<lambda>r. isLeg org sourceKey refundKey r \<and> lwStatus r = ''bound'')
          (\<lambda>r. r\<lparr>lwStatus := ''refunded'', lwProviderRef := nullIf providerRef, lwFactID := Some factID,
             lwCompletedAt := Some now, lwConfirmedAmount := Some (crAmount confirmed),
             lwConfirmedCurrency := Some (crCurrency confirmed)\<rparr>) (pdLegs db) of
         Inl e \<Rightarrow> (Inl e, db)
       | Inr (n, rows) \<Rightarrow>
           if n = 0 then
             (case LookupRefundLeg org sourceKey refundKey db of
                None \<Rightarrow> (Inl ErrRefundLegNotCompleted, db)
              | Some existing \<Rightarrow>
                  if \<not> rlCompleted existing then (Inl ErrRefundLegNotCompleted, db)
                  else if rlFactID existing \<noteq> factID then (Inl ErrRefundLegNotCompleted, db)
                  else (Inr (), db))
           else if \<not> factFree factID (pdLegs db) then (Inl ErrPayDatabase, db)
           else (Inr (), db\<lparr>pdLegs := rows\<rparr>)))"

end
