(* ===== verification/Payments_Refunds.thy ===== *)
theory Payments_Refunds
  imports Payments_Operations
begin

text \<open>
  Histories of the payment tables. A step is one transaction of \<open>Payments_Operations\<close>, so a
  history is any interleaving of the requests in flight. What a row may become is the
  relation \<open>tablesEvolve\<close>; that money bound for return never exceeds the money captured is
  the invariant \<open>tablesGood\<close>, for a provider that gives one final answer per operation.
\<close>

section \<open>Steps\<close>

datatype pay_step =
    InsertOp time uuid string string OperationRequest
  | TakeLease time uuid string string
  | CompleteOp time uuid string string uuid ProviderResult
  | RecordState time uuid string ProviderResult
  | BindComp time uuid string string int string
  | RecordRef uuid string string string
  | CompleteComp time uuid string string string string uuid ConfirmedRefund
  | BindLeg time uuid string string int string
  | CompleteLeg time uuid string string string uuid ConfirmedRefund

definition committed :: "PaymentsDB \<Rightarrow> pay_error + ('a \<times> PaymentsDB) \<Rightarrow> PaymentsDB" where
  "committed db r = (case r of Inl e \<Rightarrow> db | Inr (x, db') \<Rightarrow> db')"

fun payStep :: "JournalEnv \<Rightarrow> pay_step \<Rightarrow> PaymentsDB \<Rightarrow> PaymentsDB" where
  "payStep env (InsertOp now org key fingerprint req) db = committed db (insertOperation now org key fingerprint req db)"
| "payStep env (TakeLease now org key digest) db = committed db (takeLease now org key digest db)"
| "payStep env (CompleteOp now org key status factID prov) db = snd (CompleteOperation now org key status factID prov db)"
| "payStep env (RecordState now org key prov) db = snd (RecordProviderState now org key prov db)"
| "payStep env (BindComp now org key kind amount currency) db = snd (BindCompensation env now org key kind amount currency db)"
| "payStep env (RecordRef org key kind ref) db = snd (RecordCompensationProviderRef org key kind ref db)"
| "payStep env (CompleteComp now org key kind status ref factID confirmed) db =
     snd (CompleteCompensation now org key kind status ref factID confirmed db)"
| "payStep env (BindLeg now org key refundKey amount currency) db =
     snd (BindRefundLeg env now org key refundKey amount currency db)"
| "payStep env (CompleteLeg now org key refundKey ref factID confirmed) db =
     snd (CompleteRefundLeg now org key refundKey ref factID confirmed db)"

definition noPayments :: PaymentsDB where
  "noPayments = \<lparr>pdOperations = [], pdCompensations = [], pdLegs = []\<rparr>"

section \<open>What a row may become\<close>

definition kept :: "'a option \<Rightarrow> 'a option \<Rightarrow> bool" where
  "kept x y \<longleftrightarrow> x = None \<or> y = x"

definition operationEvolves :: "OperationRow \<Rightarrow> OperationRow \<Rightarrow> bool" where
  "operationEvolves r q \<longleftrightarrow>
     owOrganizerID q = owOrganizerID r \<and> owKey q = owKey r \<and> owFingerprint q = owFingerprint r \<and>
     owOccurredAt q = owOccurredAt r \<and> owOrderID q = owOrderID r \<and> owBuyerID q = owBuyerID r \<and>
     owRequestAmount q = owRequestAmount r \<and> owRequestCurrency q = owRequestCurrency r \<and>
     owPaymentMethodRef q = owPaymentMethodRef r \<and>
     kept (owDigest r) (owDigest q) \<and> kept (owStatus r) (owStatus q) \<and>
     (owStatus r \<noteq> None \<longrightarrow> owFactID q = owFactID r)"

definition compensationEvolves :: "CompensationRow \<Rightarrow> CompensationRow \<Rightarrow> bool" where
  "compensationEvolves r q \<longleftrightarrow>
     (if cwStatus r \<noteq> None then q = r
      else cwOrganizerID q = cwOrganizerID r \<and> cwSourceKey q = cwSourceKey r \<and> cwKind q = cwKind r \<and>
        cwProviderKey q = cwProviderKey r \<and> cwAmount q = cwAmount r \<and> cwCurrency q = cwCurrency r \<and>
        cwBoundAt q = cwBoundAt r)"

definition legEvolves :: "LegRow \<Rightarrow> LegRow \<Rightarrow> bool" where
  "legEvolves r q \<longleftrightarrow>
     (if lwStatus r \<noteq> ''bound'' then q = r
      else lwOrganizerID q = lwOrganizerID r \<and> lwSourceKey q = lwSourceKey r \<and> lwRefundKey q = lwRefundKey r \<and>
        lwProviderKey q = lwProviderKey r \<and> lwAmount q = lwAmount r \<and> lwCurrency q = lwCurrency r \<and>
        lwBoundAt q = lwBoundAt r)"

text \<open>Rows keep their place; new ones come at the end.\<close>

definition grown :: "('r \<Rightarrow> 'r \<Rightarrow> bool) \<Rightarrow> 'r list \<Rightarrow> 'r list \<Rightarrow> bool" where
  "grown R xs ys \<longleftrightarrow> list_all2 R xs (take (length xs) ys)"

definition tablesEvolve :: "PaymentsDB \<Rightarrow> PaymentsDB \<Rightarrow> bool" where
  "tablesEvolve db db' \<longleftrightarrow>
     grown operationEvolves (pdOperations db) (pdOperations db') \<and>
     grown compensationEvolves (pdCompensations db) (pdCompensations db') \<and>
     grown legEvolves (pdLegs db) (pdLegs db')"

named_theorems evolve_intro

lemma grown_refl [evolve_intro]: "(\<And>x. R x x) \<Longrightarrow> grown R xs xs"
  by (simp add: grown_def list_all2_refl)

lemma grown_trans:
  assumes "\<And>x y z. R x y \<Longrightarrow> R y z \<Longrightarrow> R x z" and "grown R xs ys" and "grown R ys zs"
  shows "grown R xs zs"
proof -
  have l: "length xs \<le> length ys" "length ys \<le> length zs"
    using assms(2,3) by (auto simp: grown_def dest!: list_all2_lengthD)
  have "list_all2 R (take (length xs) ys) (take (length xs) zs)"
    using list_all2_takeI [OF assms(3) [unfolded grown_def], of "length xs"] l by (simp add: min_def)
  with assms(2) have "list_all2 R xs (take (length xs) zs)" unfolding grown_def
    by (rule list_all2_trans [rotated]) (rule assms(1))
  then show ?thesis by (simp add: grown_def)
qed

lemma grown_append [evolve_intro]: "(\<And>x. R x x) \<Longrightarrow> grown R xs (xs @ ys)"
  by (simp add: grown_def list_all2_refl)

lemma grown_update:
  assumes "updateRows check hit f xs = Inr (n, ys)" and "\<And>x. hit x \<Longrightarrow> R x (f x)" and "\<And>x. R x x"
  shows "grown R xs ys"
proof -
  have "ys = map (\<lambda>r. if hit r then f r else r) xs" using assms(1) by (auto simp: updateRows_def split: if_splits)
  then show ?thesis using assms(2,3) by (simp add: grown_def list_all2_conv_all_nth)
qed

lemma evolves_refl [simp]: "operationEvolves r r" "compensationEvolves c c" "legEvolves l l"
  by (simp_all add: operationEvolves_def compensationEvolves_def legEvolves_def kept_def)

lemma operationEvolves_trans: "operationEvolves x y \<Longrightarrow> operationEvolves y z \<Longrightarrow> operationEvolves x z"
  by (auto simp: operationEvolves_def kept_def)

lemma compensationEvolves_trans: "compensationEvolves x y \<Longrightarrow> compensationEvolves y z \<Longrightarrow> compensationEvolves x z"
  by (auto simp: compensationEvolves_def split: if_splits)

lemma legEvolves_trans: "legEvolves x y \<Longrightarrow> legEvolves y z \<Longrightarrow> legEvolves x z"
  by (auto simp: legEvolves_def split: if_splits)

lemma tablesEvolve_refl [simp]: "tablesEvolve db db"
  by (simp add: tablesEvolve_def grown_refl)

lemma tablesEvolve_trans: "tablesEvolve a b \<Longrightarrow> tablesEvolve b c \<Longrightarrow> tablesEvolve a c"
  unfolding tablesEvolve_def
  by (blast intro: grown_trans operationEvolves_trans compensationEvolves_trans legEvolves_trans)

lemma operations_evolve: "grown operationEvolves (pdOperations db) rows \<Longrightarrow> tablesEvolve db (db\<lparr>pdOperations := rows\<rparr>)"
  by (simp add: tablesEvolve_def grown_refl)

lemma compensations_evolve:
  "grown compensationEvolves (pdCompensations db) rows \<Longrightarrow> tablesEvolve db (db\<lparr>pdCompensations := rows\<rparr>)"
  by (simp add: tablesEvolve_def grown_refl)

lemma legs_evolve: "grown legEvolves (pdLegs db) rows \<Longrightarrow> tablesEvolve db (db\<lparr>pdLegs := rows\<rparr>)"
  by (simp add: tablesEvolve_def grown_refl)

lemma coalesce_kept: "kept x (coalesce x y)"
  by (cases x) (simp_all add: coalesce_def kept_def)

lemma insertOperation_evolves: "insertOperation now org key fp req db = Inr (b, db') \<Longrightarrow> tablesEvolve db db'"
  by (auto simp: insertOperation_def Let_def split: if_splits intro!: operations_evolve grown_append)

lemma takeLease_evolves: "takeLease now org key digest db = Inr (n, db') \<Longrightarrow> tablesEvolve db db'"
  unfolding takeLease_def
  by (auto split: sum.splits intro!: operations_evolve elim!: grown_update simp: operationEvolves_def coalesce_kept)
    (auto simp: kept_def)

lemma CompleteOperation_evolves: "tablesEvolve db (snd (CompleteOperation now org key status factID prov db))"
  unfolding CompleteOperation_def
  by (auto split: sum.splits option.splits intro!: operations_evolve elim!: grown_update
      simp: operationEvolves_def kept_def)

lemma RecordProviderState_evolves: "tablesEvolve db (snd (RecordProviderState now org key prov db))"
  unfolding RecordProviderState_def
  by (auto split: sum.splits intro!: operations_evolve elim!: grown_update simp: operationEvolves_def kept_def)

lemma BindCompensation_evolves: "tablesEvolve db (snd (BindCompensation env now org key kind amount currency db))"
  unfolding BindCompensation_def Let_def
  by (auto split: option.splits intro!: compensations_evolve grown_append)

lemma RecordRef_evolves: "tablesEvolve db (snd (RecordCompensationProviderRef org key kind ref db))"
  unfolding RecordCompensationProviderRef_def
  by (auto split: sum.splits intro!: compensations_evolve elim!: grown_update simp: compensationEvolves_def)

lemma CompleteCompensation_evolves:
  "tablesEvolve db (snd (CompleteCompensation now org key kind status ref factID confirmed db))"
  unfolding CompleteCompensation_def
  by (auto split: sum.splits option.splits intro!: compensations_evolve elim!: grown_update simp: compensationEvolves_def)

lemma BindRefundLeg_evolves: "tablesEvolve db (snd (BindRefundLeg env now org key rk amount currency db))"
  unfolding BindRefundLeg_def Let_def
  by (auto split: option.splits sum.splits intro!: legs_evolve grown_append)

lemma CompleteRefundLeg_evolves: "tablesEvolve db (snd (CompleteRefundLeg now org key rk ref factID confirmed db))"
  unfolding CompleteRefundLeg_def
  by (auto split: sum.splits option.splits intro!: legs_evolve elim!: grown_update simp: legEvolves_def)

lemma payStep_evolves: "tablesEvolve db (payStep env s db)"
  by (cases s) (auto simp: committed_def CompleteOperation_evolves RecordProviderState_evolves BindCompensation_evolves
      RecordRef_evolves CompleteCompensation_evolves BindRefundLeg_evolves CompleteRefundLeg_evolves
      intro: insertOperation_evolves takeLease_evolves split: sum.splits)

interpretation pay_history: timed_evolution "payStep env" "\<lambda>s. 0" "\<lambda>s. True" "\<lambda>t db. True" tablesEvolve
  for env
  by unfold_locales (auto intro: tablesEvolve_trans payStep_evolves)

section \<open>Money bound for return\<close>

text \<open>
  \<open>cap\<close> is what the provider captured for an operation. A provider is consistent when a
  completion says \<open>captured\<close>, with that amount, exactly where there is one, and an
  observation never says it elsewhere. A whole refund is bound on the captured amount.
\<close>

type_synonym captures = "uuid \<Rightarrow> string \<Rightarrow> int option"

fun payOk :: "captures \<Rightarrow> pay_step \<Rightarrow> bool" where
  "payOk cap (CompleteOp now org key status factID prov) \<longleftrightarrow>
     (if cap org key = None then prState prov \<noteq> ''captured''
      else prState prov = ''captured'' \<and> cap org key = Some (prCapturedAmount prov))"
| "payOk cap (RecordState now org key prov) \<longleftrightarrow>
     prState prov = ''captured'' \<longrightarrow> cap org key = Some (prCapturedAmount prov)"
| "payOk cap (BindComp now org key kind amount currency) \<longleftrightarrow> kind = ''refund'' \<longrightarrow> cap org key = Some amount"
| "payOk cap (BindLeg now org key refundKey amount currency) \<longleftrightarrow> int64 amount"
| "payOk cap s \<longleftrightarrow> True"

definition proven :: "captures \<Rightarrow> OperationRow \<Rightarrow> bool" where
  "proven cap r \<longleftrightarrow> (\<exists>c. owCapturedAmount r = Some c \<and> cap (owOrganizerID r) (owKey r) = Some c)"

definition opsGood :: "captures \<Rightarrow> OperationRow list \<Rightarrow> bool" where
  "opsGood cap ops \<longleftrightarrow>
     distinct (map (\<lambda>r. (owOrganizerID r, owKey r)) ops) \<and>
     (\<forall>r \<in> set ops. owState r = Some ''captured'' \<longrightarrow> proven cap r)"

definition capturedOp :: "OperationRow list \<Rightarrow> uuid \<Rightarrow> string \<Rightarrow> bool" where
  "capturedOp ops org key \<longleftrightarrow> (\<exists>r \<in> set ops. isOperation org key r \<and> owState r = Some ''captured'')"

definition legsGood :: "captures \<Rightarrow> OperationRow list \<Rightarrow> LegRow list \<Rightarrow> bool" where
  "legsGood cap ops legs \<longleftrightarrow>
     (\<forall>l \<in> set legs. 0 < lwAmount l \<and> capturedOp ops (lwOrganizerID l) (lwSourceKey l)) \<and>
     (\<forall>org key. capturedOp ops org key \<longrightarrow> boundTotal org key legs \<le> max 0 (amountOf (cap org key)))"

definition compsGood :: "captures \<Rightarrow> LegRow list \<Rightarrow> CompensationRow list \<Rightarrow> bool" where
  "compsGood cap legs comps \<longleftrightarrow>
     distinct (map (\<lambda>c. (cwOrganizerID c, cwSourceKey c, cwKind c)) comps) \<and>
     (\<forall>c \<in> set comps. cwKind c = ''refund'' \<longrightarrow>
        filter (isLegOf (cwOrganizerID c) (cwSourceKey c)) legs = [] \<and> cwAmount c = cap (cwOrganizerID c) (cwSourceKey c))"

definition tablesGood :: "captures \<Rightarrow> PaymentsDB \<Rightarrow> bool" where
  "tablesGood cap db \<longleftrightarrow>
     opsGood cap (pdOperations db) \<and> legsGood cap (pdOperations db) (pdLegs db) \<and>
     compsGood cap (pdLegs db) (pdCompensations db)"

definition moneyBack :: "uuid \<Rightarrow> string \<Rightarrow> PaymentsDB \<Rightarrow> int" where
  "moneyBack org key db =
     sum_list (map (\<lambda>c. amountOf (cwAmount c)) (filter (isCompensation org key ''refund'') (pdCompensations db))) +
     boundTotal org key (pdLegs db)"

lemma unique_filter:
  "distinct (map f xs) \<Longrightarrow> filter (\<lambda>x. f x = k) xs = [] \<or> (\<exists>x \<in> set xs. f x = k \<and> filter (\<lambda>x. f x = k) xs = [x])"
  by (induction xs) (auto simp: filter_empty_conv, (metis imageI)+)

lemma good_moneyBack:
  assumes "tablesGood cap db"
  shows "moneyBack org key db \<le> max 0 (amountOf (cap org key)) \<and>
    (filter (isCompensation org key ''refund'') (pdCompensations db) = [] \<or> filter (isLegOf org key) (pdLegs db) = [])"
proof -
  have f: "isCompensation org key ''refund'' = (\<lambda>c. (cwOrganizerID c, cwSourceKey c, cwKind c) = (org, key, ''refund''))"
    by (auto simp: isCompensation_def)
  have legs: "boundTotal org key (pdLegs db) \<le> max 0 (amountOf (cap org key))"
  proof (cases "filter (isLegOf org key) (pdLegs db) = []")
    case False
    then obtain l where "l \<in> set (pdLegs db)" "isLegOf org key l" by (auto simp: filter_empty_conv)
    then have "capturedOp (pdOperations db) org key" using assms by (auto simp: tablesGood_def legsGood_def isLegOf_def)
    then show ?thesis using assms by (simp add: tablesGood_def legsGood_def)
  qed (simp add: boundTotal_def)
  consider "filter (isCompensation org key ''refund'') (pdCompensations db) = []"
    | c where "c \<in> set (pdCompensations db)" "isCompensation org key ''refund'' c"
        "filter (isCompensation org key ''refund'') (pdCompensations db) = [c]"
    using unique_filter [of "\<lambda>c. (cwOrganizerID c, cwSourceKey c, cwKind c)" "pdCompensations db" "(org, key, ''refund'')"] assms
    unfolding f by (auto simp: tablesGood_def compsGood_def)
  then show ?thesis
  proof cases
    case 1
    then show ?thesis using legs by (simp add: moneyBack_def)
  next
    case 2
    then have "filter (isLegOf org key) (pdLegs db) = []" "cwAmount c = cap org key"
      using assms by (auto simp: tablesGood_def compsGood_def isCompensation_def)
    then show ?thesis using 2(3) by (simp add: moneyBack_def boundTotal_def)
  qed
qed

lemma legsGood_ops:
  "legsGood cap ops legs \<Longrightarrow> (\<And>org key. capturedOp ops org key \<Longrightarrow> capturedOp ops' org key) \<Longrightarrow>
   legsGood cap ops' legs"
proof -
  assume g: "legsGood cap ops legs" and m: "\<And>org key. capturedOp ops org key \<Longrightarrow> capturedOp ops' org key"
  have "boundTotal org key legs \<le> max 0 (amountOf (cap org key))" for org key
  proof (cases "capturedOp ops org key")
    case False
    then have "filter (isLegOf org key) legs = []" using g by (auto simp: legsGood_def filter_empty_conv isLegOf_def)
    then show ?thesis by (simp add: boundTotal_def)
  qed (use g in \<open>simp add: legsGood_def\<close>)
  then show ?thesis using g m by (auto simp: legsGood_def)
qed

text \<open>An UPDATE of operations that keeps identities, and of the captured ones the capture.\<close>

lemma update_operations:
  assumes "tablesGood cap db" and "updateRows check hit f (pdOperations db) = Inr (n, rows)"
    and "\<And>r. hit r \<Longrightarrow> owOrganizerID (f r) = owOrganizerID r \<and> owKey (f r) = owKey r"
    and "\<And>r. hit r \<Longrightarrow> owState (f r) = Some ''captured'' \<Longrightarrow>
      proven cap (f r) \<or> owState r = Some ''captured'' \<and> owCapturedAmount (f r) = owCapturedAmount r"
    and "\<And>r. hit r \<Longrightarrow> r \<in> set (pdOperations db) \<Longrightarrow> owState r = Some ''captured'' \<Longrightarrow> owState (f r) = Some ''captured''"
  shows "tablesGood cap (db\<lparr>pdOperations := rows\<rparr>)"
proof -
  have rows: "rows = map (\<lambda>r. if hit r then f r else r) (pdOperations db)"
    using assms(2) by (auto simp: updateRows_def split: if_splits)
  have "map (\<lambda>r. (owOrganizerID r, owKey r)) rows = map (\<lambda>r. (owOrganizerID r, owKey r)) (pdOperations db)"
    unfolding rows using assms(3) by simp
  moreover have "proven cap r" if "r \<in> set rows" "owState r = Some ''captured''" for r
  proof -
    obtain q where q: "q \<in> set (pdOperations db)" "r = (if hit q then f q else q)" using \<open>r \<in> set rows\<close> unfolding rows by auto
    have before: "proven cap q" if "owState q = Some ''captured''"
      using that q(1) assms(1) by (simp add: tablesGood_def opsGood_def)
    show ?thesis
    proof (cases "hit q")
      case True
      then show ?thesis using q(2) that(2) before assms(3,4) [of q] by (auto simp: proven_def)
    qed (use q(2) that(2) before in simp)
  qed
  ultimately have ops: "opsGood cap rows" using assms(1) by (simp add: tablesGood_def opsGood_def)
  have "capturedOp rows org key" if c: "capturedOp (pdOperations db) org key" for org key
  proof -
    obtain q where q: "q \<in> set (pdOperations db)" "isOperation org key q" "owState q = Some ''captured''"
      using c by (auto simp: capturedOp_def)
    let ?r = "if hit q then f q else q"
    have "?r \<in> set rows" "isOperation org key ?r" "owState ?r = Some ''captured''"
      using q assms(3,5) [of q] by (auto simp: rows isOperation_def)
    then show ?thesis unfolding capturedOp_def by blast
  qed
  then have "legsGood cap rows (pdLegs db)" using assms(1) by (auto simp: tablesGood_def intro: legsGood_ops)
  then show ?thesis using assms(1) ops by (simp add: tablesGood_def)
qed
lemma updated_good:
  assumes "tablesGood cap db" and "\<And>n rows. u = Inr (n, rows) \<Longrightarrow> tablesGood cap (db\<lparr>pdOperations := rows\<rparr>)"
  shows "tablesGood cap (snd (case u of Inl e \<Rightarrow> (Inl e, db) | Inr (n, rows) \<Rightarrow> (Inr (0 < n), db\<lparr>pdOperations := rows\<rparr>)))"
  using assms by (cases u) auto

lemma CompleteOperation_good:
  assumes "tablesGood cap db" and "payOk cap (CompleteOp now org key status factID prov)"
  shows "tablesGood cap (snd (CompleteOperation now org key status factID prov db))"
proof -
  have "tablesGood cap (db\<lparr>pdOperations := rows\<rparr>)"
    if u: "updateRows operationRow (\<lambda>r. isOperation org key r \<and> owStatus r = None)
         (\<lambda>r. r\<lparr>owStatus := Some status, owFactID := Some factID, owPaymentRef := nullIf (prPaymentRef prov),
            owChargeRef := nullIf (prChargeRef prov), owState := nullIf (prState prov),
            owAuthorizedAmount := Some (prAuthorizedAmount prov), owCapturedAmount := Some (prCapturedAmount prov),
            owConfirmedAmount := prConfirmedCapturedAmount prov, owConfirmedCurrency := nullIf (prConfirmedCurrency prov),
            owStateAt := Some now\<rparr>) (pdOperations db) = Inr (n, rows)" for n rows
  proof (rule update_operations [OF assms(1) u])
    fix r assume r: "isOperation org key r \<and> owStatus r = None" "r \<in> set (pdOperations db)" "owState r = Some ''captured''"
    then have "proven cap r" using assms(1) by (simp add: tablesGood_def opsGood_def)
    then have "prState prov = ''captured''" using assms(2) r(1) by (auto simp: proven_def isOperation_def)
    then show "owState (r\<lparr>owStatus := Some status, owFactID := Some factID, owPaymentRef := nullIf (prPaymentRef prov),
            owChargeRef := nullIf (prChargeRef prov), owState := nullIf (prState prov),
            owAuthorizedAmount := Some (prAuthorizedAmount prov), owCapturedAmount := Some (prCapturedAmount prov),
            owConfirmedAmount := prConfirmedCapturedAmount prov, owConfirmedCurrency := nullIf (prConfirmedCurrency prov),
            owStateAt := Some now\<rparr>) = Some ''captured''" by (simp add: nullIf_def)
  qed (use assms(2) in \<open>auto simp: isOperation_def nullIf_def proven_def split: if_splits\<close>)
  then show ?thesis using assms(1) by (auto simp: CompleteOperation_def split: sum.splits option.splits)
qed

lemma RecordProviderState_good:
  assumes "tablesGood cap db" and "payOk cap (RecordState now org key prov)"
  shows "tablesGood cap (snd (RecordProviderState now org key prov db))"
  unfolding RecordProviderState_def
  by (rule updated_good [OF assms(1)], erule update_operations [OF assms(1)])
    (use assms(2) in \<open>auto simp: isOperation_def nullIf_def proven_def split: if_splits\<close>)

lemma takeLease_good:
  "tablesGood cap db \<Longrightarrow> takeLease now org key digest db = Inr (n, db') \<Longrightarrow> tablesGood cap db'"
  unfolding takeLease_def by (auto split: sum.splits intro!: update_operations)

lemma insertOperation_good:
  assumes "tablesGood cap db" and "insertOperation now org key fp req db = Inr (b, db')"
  shows "tablesGood cap db'"
proof (cases "db' = db")
  case False
  then have db': "db' = db\<lparr>pdOperations := pdOperations db @ [newOperation now org key fp req]\<rparr>"
    and new: "\<not> list_ex (isOperation org key) (pdOperations db)"
    using assms(2) by (auto simp: insertOperation_def Let_def split: if_splits)
  have ops: "opsGood cap (pdOperations db @ [newOperation now org key fp req])"
    using assms(1) new by (auto simp: tablesGood_def opsGood_def newOperation_def list_ex_iff isOperation_def)
  have "legsGood cap (pdOperations db @ [newOperation now org key fp req]) (pdLegs db)"
    using assms(1) by (auto simp: tablesGood_def capturedOp_def intro: legsGood_ops)
  then show ?thesis using ops assms(1) by (simp add: tablesGood_def db')
qed (use assms in simp)

text \<open>A compensation's UPDATE keeps its identity and its amount.\<close>

lemma update_compensations:
  assumes "tablesGood cap db" and "updateRows check hit f (pdCompensations db) = Inr (n, rows)"
    and "\<And>r. cwOrganizerID (f r) = cwOrganizerID r \<and> cwSourceKey (f r) = cwSourceKey r \<and>
      cwKind (f r) = cwKind r \<and> cwAmount (f r) = cwAmount r"
  shows "tablesGood cap (db\<lparr>pdCompensations := rows\<rparr>)"
proof -
  have rows: "rows = map (\<lambda>r. if hit r then f r else r) (pdCompensations db)"
    using assms(2) by (auto simp: updateRows_def split: if_splits)
  have m: "map (\<lambda>c. (cwOrganizerID c, cwSourceKey c, cwKind c)) rows =
    map (\<lambda>c. (cwOrganizerID c, cwSourceKey c, cwKind c)) (pdCompensations db)"
    unfolding rows using assms(3) by simp
  have "compsGood cap (pdLegs db) rows"
    unfolding compsGood_def m using assms(1,3) by (auto simp: rows tablesGood_def compsGood_def)
  then show ?thesis using assms(1) by (simp add: tablesGood_def)
qed

lemma RecordRef_good:
  "tablesGood cap db \<Longrightarrow> tablesGood cap (snd (RecordCompensationProviderRef org key kind ref db))"
  unfolding RecordCompensationProviderRef_def by (auto split: sum.splits intro!: update_compensations)

lemma CompleteCompensation_good:
  "tablesGood cap db \<Longrightarrow> tablesGood cap (snd (CompleteCompensation now org key kind status ref factID confirmed db))"
  unfolding CompleteCompensation_def by (auto split: sum.splits option.splits intro!: update_compensations)

lemma BindCompensation_good:
  assumes "tablesGood cap db" and "payOk cap (BindComp now org key kind amount currency)"
  shows "tablesGood cap (snd (BindCompensation env now org key kind amount currency db))"
proof -
  let ?row = "newCompensation env now org key kind amount currency"
  have "compsGood cap (pdLegs db) (pdCompensations db @ [?row])"
    if "LookupCompensation org key kind db = None" "kind = ''refund'' \<Longrightarrow> filter (isLegOf org key) (pdLegs db) = []"
  proof -
    have "\<not> (cwOrganizerID c = org \<and> cwSourceKey c = key \<and> cwKind c = kind)" if "c \<in> set (pdCompensations db)" for c
      using that \<open>LookupCompensation org key kind db = None\<close>
      by (auto simp: LookupCompensation_def find_None_iff isCompensation_def)
    then show ?thesis using assms that(2)
      by (auto simp: tablesGood_def compsGood_def newCompensation_def)
  qed
  then show ?thesis using assms(1)
    by (auto simp: BindCompensation_def Let_def tablesGood_def split: option.splits)
qed

lemma update_legs:
  assumes "tablesGood cap db" and "updateRows check hit f (pdLegs db) = Inr (n, rows)"
    and "\<And>r. lwOrganizerID (f r) = lwOrganizerID r \<and> lwSourceKey (f r) = lwSourceKey r \<and> lwAmount (f r) = lwAmount r"
  shows "tablesGood cap (db\<lparr>pdLegs := rows\<rparr>)"
proof -
  have rows: "rows = map (\<lambda>r. if hit r then f r else r) (pdLegs db)"
    using assms(2) by (auto simp: updateRows_def split: if_splits)
  have same: "isLegOf org key (if hit r then f r else r) = isLegOf org key r" "lwAmount (if hit r then f r else r) = lwAmount r"
    for org key r using assms(3) by (auto simp: isLegOf_def)
  have nil: "filter (isLegOf org key) rows = [] \<longleftrightarrow> filter (isLegOf org key) (pdLegs db) = []" for org key
    unfolding rows filter_map comp_def same by simp
  have total: "boundTotal org key rows = boundTotal org key (pdLegs db)" for org key
    unfolding boundTotal_def rows filter_map comp_def same map_map ..
  have "legsGood cap (pdOperations db) rows"
    using assms(1,3) unfolding tablesGood_def legsGood_def total by (auto simp: rows)
  then show ?thesis using assms(1) by (simp add: tablesGood_def compsGood_def nil)
qed

lemma CompleteRefundLeg_good:
  "tablesGood cap db \<Longrightarrow> tablesGood cap (snd (CompleteRefundLeg now org key rk ref factID confirmed db))"
  unfolding CompleteRefundLeg_def by (auto split: sum.splits option.splits intro!: update_legs)

lemma BindRefundLeg_cases:
  assumes "BindRefundLeg env now org key rk amount currency db = (r, db')" and "db' \<noteq> db"
    and "0 \<le> boundTotal org key (pdLegs db)" and "int64 amount"
  obtains op where "0 < amount" and "op \<in> set (pdOperations db)" and "isOperation org key op"
    and "owState op = Some ''captured''" and "LookupRefundLeg org key rk db = None"
    and "filter (isCompensation org key ''refund'') (pdCompensations db) = []"
    and "boundTotal org key (pdLegs db) + amount \<le> amountOf (owCapturedAmount op)"
    and "db' = db\<lparr>pdLegs := pdLegs db @ [newLeg env now org key rk amount currency]\<rparr>"
proof -
  obtain op where op: "find (isOperation org key) (pdOperations db) = Some op" and pos: "\<not> amount \<le> 0"
    using assms by (auto simp: BindRefundLeg_def split: if_splits option.splits)
  obtain tot where tot: "checkedAddMoney (boundTotal org key (pdLegs db)) amount = Inr tot" "tot \<le> amountOf (owCapturedAmount op)"
    "textOf (owState op) = ''captured''" "filter (isCompensation org key ''refund'') (pdCompensations db) = []"
    "LookupRefundLeg org key rk db = None"
    "db' = db\<lparr>pdLegs := pdLegs db @ [newLeg env now org key rk amount currency]\<rparr>"
    using assms op pos
    by (auto simp: BindRefundLeg_def Let_def not_less split: if_splits option.splits sum.splits)
  have "owState op = Some ''captured''" using tot(3) by (cases "owState op") (auto simp: textOf_def)
  moreover have "tot = boundTotal org key (pdLegs db) + amount" 
    using tot(1) money_add.add_Inr_iff [of "boundTotal org key (pdLegs db)" amount tot] assms(3,4) pos by (simp add: int64_def)
  ultimately show thesis using that tot pos op by (auto dest: find_SomeD)
qed

lemma boundTotal_nonneg: "tablesGood cap db \<Longrightarrow> 0 \<le> boundTotal org key (pdLegs db)"
  unfolding boundTotal_def by (rule sum_list_nonneg) (auto simp: tablesGood_def legsGood_def intro: less_imp_le)

lemma BindRefundLeg_good:
  assumes "tablesGood cap db" and "int64 amount"
  shows "tablesGood cap (snd (BindRefundLeg env now org key rk amount currency db))"
proof (cases "BindRefundLeg env now org key rk amount currency db")
  case (Pair r db')
  show ?thesis
  proof (cases "db' = db")
    case False
    then obtain op where op: "0 < amount" "op \<in> set (pdOperations db)" "isOperation org key op" "owState op = Some ''captured''"
      "filter (isCompensation org key ''refund'') (pdCompensations db) = []"
      "boundTotal org key (pdLegs db) + amount \<le> amountOf (owCapturedAmount op)"
      "db' = db\<lparr>pdLegs := pdLegs db @ [newLeg env now org key rk amount currency]\<rparr>"
      by (rule BindRefundLeg_cases [OF Pair _ boundTotal_nonneg [OF assms(1)] assms(2)])
    let ?row = "newLeg env now org key rk amount currency"
    have row: "isLegOf o' k' ?row \<longleftrightarrow> o' = org \<and> k' = key" "lwAmount ?row = amount" "lwOrganizerID ?row = org" "lwSourceKey ?row = key"
      for o' k' by (auto simp: isLegOf_def newLeg_def)
    have "proven cap op" using op(2,4) assms by (simp add: tablesGood_def opsGood_def)
    then have c: "owCapturedAmount op = cap org key" using op(3) by (auto simp: proven_def isOperation_def)
    have total: "boundTotal o' k' (pdLegs db @ [?row]) =
      boundTotal o' k' (pdLegs db) + (if o' = org \<and> k' = key then amount else 0)" for o' k'
      by (simp add: boundTotal_def row)
    have "capturedOp (pdOperations db) org key" using op(2-4) by (auto simp: capturedOp_def)
    moreover have "boundTotal o' k' (pdLegs db @ [?row]) \<le> max 0 (amountOf (cap o' k'))"
      if "capturedOp (pdOperations db) o' k'" for o' k'
    proof (cases "o' = org \<and> k' = key")
      case True
      then show ?thesis using op(6) c by (simp add: total le_max_iff_disj)
    next
      case False
      then show ?thesis using that assms by (auto simp: total tablesGood_def legsGood_def)
    qed
    ultimately have "legsGood cap (pdOperations db) (pdLegs db @ [?row])"
      using assms op(1) row by (auto simp: tablesGood_def legsGood_def)
    moreover have "compsGood cap (pdLegs db @ [?row]) (pdCompensations db)"
      using assms op(5) by (auto simp: tablesGood_def compsGood_def row filter_empty_conv isCompensation_def)
    ultimately show ?thesis using assms Pair op(7) by (simp add: tablesGood_def)
  qed (use Pair assms in simp)
qed

lemma payStep_good:
  assumes "tablesGood cap db" and "payOk cap s"
  shows "tablesGood cap (payStep env s db)"
proof (cases s)
  case (InsertOp now org key fp req)
  then show ?thesis using assms(1) insertOperation_good
    by (auto simp: committed_def split: sum.splits)
next
  case (TakeLease now org key digest)
  then show ?thesis using assms(1) takeLease_good by (auto simp: committed_def split: sum.splits)
next
  case (CompleteOp now org key status factID prov)
  then show ?thesis using assms CompleteOperation_good by (simp del: payOk.simps)
next
  case (RecordState now org key prov)
  then show ?thesis using assms RecordProviderState_good by (simp del: payOk.simps)
next
  case (BindComp now org key kind amount currency)
  then show ?thesis using assms BindCompensation_good by (simp del: payOk.simps)
next
  case (BindLeg now org key rk amount currency)
  then show ?thesis using assms BindRefundLeg_good by simp
qed (use assms(1) RecordRef_good CompleteCompensation_good CompleteRefundLeg_good in simp_all)

interpretation pay_money: timed_machine "payStep env" "\<lambda>s. 0" "payOk cap" "\<lambda>t. tablesGood cap"
  for env cap
  by unfold_locales (auto intro: payStep_good)

lemma empty_tables: "tablesGood cap noPayments"
  by (simp add: tablesGood_def opsGood_def legsGood_def compsGood_def noPayments_def boundTotal_def)

lemma ordered_steps: "ordered (\<lambda>s. 0) ok 0 ss \<longleftrightarrow> list_all ok ss"
  by (induction ss) auto


lemma history_evolves: "tablesEvolve db (fold (payStep env) steps db)"
  using pay_history.run_evolves [of 0 steps db env] by (simp add: ordered_steps list_all_iff)

text \<open>
  C23: Whatever happens to the tables, no row disappears, an operation keeps the request it was
  bound with, its recorded status, fact and settlement digest, and a completed
  compensation or leg never changes again.
\<close>
theorem recorded_outcomes_are_final: "tablesEvolve db (fold (payStep env) steps db)"
  by (rule history_evolves)

section \<open>One completion\<close>

definition operationKeys :: "PaymentsDB \<Rightarrow> (uuid \<times> string) list" where
  "operationKeys db = map (\<lambda>r. (owOrganizerID r, owKey r)) (pdOperations db)"

lemma update_keys:
  assumes "updateRows check hit f xs = Inr (n, ys)" and "\<And>x. hit x \<Longrightarrow> g (f x) = g x"
  shows "map g ys = map g xs"
  using assms by (auto simp: updateRows_def split: if_splits)

lemma payStep_keys: "distinct (operationKeys db) \<Longrightarrow> distinct (operationKeys (payStep env s db))"
proof (cases s)
  case (InsertOp now org key fp req)
  assume "distinct (operationKeys db)"
  then show ?thesis using InsertOp
    by (auto simp: committed_def insertOperation_def Let_def operationKeys_def newOperation_def list_ex_iff
        isOperation_def split: sum.splits if_splits)
next
  case (TakeLease now org key digest)
  assume "distinct (operationKeys db)"
  then show ?thesis using TakeLease
    by (auto simp: committed_def takeLease_def operationKeys_def split: sum.splits
        dest!: update_keys [where g = "\<lambda>r. (owOrganizerID r, owKey r)"])
next
  case (CompleteOp now org key status factID prov)
  assume "distinct (operationKeys db)"
  then show ?thesis using CompleteOp
    by (auto simp: CompleteOperation_def operationKeys_def split: sum.splits option.splits
        dest!: update_keys [where g = "\<lambda>r. (owOrganizerID r, owKey r)"])
next
  case (RecordState now org key prov)
  assume "distinct (operationKeys db)"
  then show ?thesis using RecordState
    by (auto simp: RecordProviderState_def operationKeys_def split: sum.splits
        dest!: update_keys [where g = "\<lambda>r. (owOrganizerID r, owKey r)"])
qed (auto simp: operationKeys_def BindCompensation_def RecordCompensationProviderRef_def CompleteCompensation_def
    BindRefundLeg_def CompleteRefundLeg_def Let_def split: option.splits sum.splits)

lemma find_grown:
  assumes "grown R xs ys" and "find p xs = Some x" and "\<And>x y. R x y \<Longrightarrow> p y \<longleftrightarrow> p x"
  shows "\<exists>y. find p ys = Some y \<and> R x y"
proof -
  have "list_all2 R xs zs \<Longrightarrow> \<exists>y. find p (zs @ ws) = Some y \<and> R x y" for zs ws
    using assms(2)
  proof (induction xs arbitrary: zs)
    case (Cons a xs)
    then obtain b bs where "zs = b # bs" "R a b" "list_all2 R xs bs" by (auto simp: list_all2_Cons1)
    then show ?case using Cons assms(3) [of a b] by (auto split: if_splits)
  qed simp
  from this [of "take (length xs) ys" "drop (length xs) ys"] show ?thesis using assms(1) by (simp add: grown_def)
qed

lemma find_operation:
  "tablesEvolve db db' \<Longrightarrow> find (isOperation org key) (pdOperations db) = Some r \<Longrightarrow>
   \<exists>q. find (isOperation org key) (pdOperations db') = Some q \<and> operationEvolves r q"
  by (rule find_grown [where R = operationEvolves and xs = "pdOperations db"])
    (simp_all add: tablesEvolve_def, simp add: operationEvolves_def isOperation_def)

lemma find_unique:
  "distinct (operationKeys db) \<Longrightarrow> find (isOperation org key) (pdOperations db) = Some r \<Longrightarrow>
   q \<in> set (pdOperations db) \<Longrightarrow> isOperation org key q \<Longrightarrow> q = r"
  by (drule find_SomeD) (auto simp: operationKeys_def distinct_map inj_on_def isOperation_def)

lemma run_keys: "distinct (operationKeys db) \<Longrightarrow> distinct (operationKeys (fold (payStep env) steps db))"
  by (induction steps arbitrary: db) (auto intro: payStep_keys)

lemma completed_answer:
  assumes "distinct (operationKeys db)" and "find (isOperation org key) (pdOperations db) = Some r"
    and "owStatus r \<noteq> None" and "owFactID r = Some factID"
  shows "CompleteOperation now org key status factID' prov db =
    ((if factID' = factID then Inr () else Inl ErrOperationNotCompleted), db)"
proof -
  have none: "\<not> (isOperation org key q \<and> owStatus q = None)" if "q \<in> set (pdOperations db)" for q
    using find_unique [OF assms(1,2) that] assms(3) by auto
  have u: "updateRows operationRow (\<lambda>r. isOperation org key r \<and> owStatus r = None) f (pdOperations db) = Inr (0, pdOperations db)" for f
    using none by (fastforce simp: updateRows_def list_ex_iff filter_empty_conv intro!: map_idI)
  have l: "LookupOperation org key db = Some (operationOf r)" using assms(2) by (simp add: LookupOperation_def)
  show ?thesis using assms(3,4) by (simp add: CompleteOperation_def u l) (simp add: operationOf_def uuidOf_def)
qed

lemma CompleteOperation_Inr:
  assumes "CompleteOperation now org key status factID prov db = (Inr (), db')" and "distinct (operationKeys db)"
    and "factID \<noteq> uuid_Nil"
  shows "\<exists>r. find (isOperation org key) (pdOperations db') = Some r \<and> owStatus r \<noteq> None \<and> owFactID r = Some factID"
proof -
  let ?hit = "\<lambda>r. isOperation org key r \<and> owStatus r = None"
  let ?f = "\<lambda>r. r\<lparr>owStatus := Some status, owFactID := Some factID, owPaymentRef := nullIf (prPaymentRef prov),
            owChargeRef := nullIf (prChargeRef prov), owState := nullIf (prState prov),
            owAuthorizedAmount := Some (prAuthorizedAmount prov), owCapturedAmount := Some (prCapturedAmount prov),
            owConfirmedAmount := prConfirmedCapturedAmount prov, owConfirmedCurrency := nullIf (prConfirmedCurrency prov),
            owStateAt := Some now\<rparr>"
  obtain n rows where u: "updateRows operationRow ?hit ?f (pdOperations db) = Inr (n, rows)"
    using assms(1) by (auto simp: CompleteOperation_def split: sum.splits)
  have rows: "n = length (filter ?hit (pdOperations db))" "rows = map (\<lambda>r. if ?hit r then ?f r else r) (pdOperations db)"
    using u by (auto simp: updateRows_def split: if_splits)
  show ?thesis
  proof (cases "n = 0")
    case True
    then have "db' = db" "\<exists>op. LookupOperation org key db = Some op \<and> opResolved op \<and> opFactID op = factID"
      using assms(1) u by (auto simp: CompleteOperation_def split: option.splits if_splits)
    then show ?thesis using assms(3) by (auto simp: LookupOperation_def operationOf_def uuidOf_def split: option.splits)
  next
    case False
    then have db': "db' = db\<lparr>pdOperations := rows\<rparr>" using assms(1) u by (simp add: CompleteOperation_def)
    obtain q where q: "q \<in> set (pdOperations db)" "?hit q" using False rows(1) by (auto simp: filter_empty_conv)
    then obtain r where r: "find (isOperation org key) (pdOperations db) = Some r"
      by (cases "find (isOperation org key) (pdOperations db)") (auto simp: find_None_iff)
    have "q = r" using find_unique [OF assms(2) r] q by blast
    then have "?hit r" using q by simp
    moreover have "find (isOperation org key) (map (\<lambda>r. if ?hit r then ?f r else r) xs) =
      map_option (\<lambda>r. if ?hit r then ?f r else r) (find (isOperation org key) xs)" for xs
      by (induction xs) (auto simp: isOperation_def)
    ultimately show ?thesis using r db' rows(2) by simp
  qed
qed

text \<open>
  The first completion of an operation decides it. Whatever happens afterwards, completing it
  again under the same fact succeeds and changes nothing, and completing it under
  another fact is refused.
\<close>
theorem first_completion_decides:
  assumes "distinct (operationKeys db)" and "factID \<noteq> uuid_Nil"
    and "CompleteOperation now org key status factID prov db = (Inr (), db1)"
    and "db2 = fold (payStep env) steps db1"
  shows "CompleteOperation now' org key status' factID' prov' db2 =
      ((if factID' = factID then Inr () else Inl ErrOperationNotCompleted), db2)"
proof -
  obtain r where r: "find (isOperation org key) (pdOperations db1) = Some r" "owStatus r \<noteq> None" "owFactID r = Some factID"
    using CompleteOperation_Inr [OF assms(3,1,2)] by blast
  have "distinct (operationKeys db1)"
    using payStep_keys [OF assms(1), of env "CompleteOp now org key status factID prov"] assms(3) by simp
  then have d: "distinct (operationKeys db2)" using assms(4) run_keys by simp
  obtain q where q: "find (isOperation org key) (pdOperations db2) = Some q" "operationEvolves r q"
    using find_operation [OF _ r(1)] history_evolves assms(4) by blast
  show ?thesis by (rule completed_answer [OF d q(1)]) (use q(2) r in \<open>auto simp: operationEvolves_def kept_def\<close>)
qed
section \<open>One driver\<close>

text \<open>The operation is decided, or its lease runs at least until \<open>until\<close>.\<close>

definition leased :: "time \<Rightarrow> uuid \<Rightarrow> string \<Rightarrow> PaymentsDB \<Rightarrow> bool" where
  "leased until org key db \<longleftrightarrow>
     list_ex (isOperation org key) (pdOperations db) \<and>
     list_all (\<lambda>r. isOperation org key r \<longrightarrow> owStatus r \<noteq> None \<or> until \<le> owLeaseUntil r) (pdOperations db)"

fun leaseStep :: "time \<Rightarrow> pay_step \<Rightarrow> bool" where
  "leaseStep until (TakeLease now org key digest) \<longleftrightarrow> now < until"
| "leaseStep until s \<longleftrightarrow> True"

lemma update_leased:
  assumes "leased until org key db" and "updateRows check hit f (pdOperations db) = Inr (n, rows)"
    and "\<And>r. hit r \<Longrightarrow> isOperation org key (f r) = isOperation org key r"
    and "\<And>r. hit r \<Longrightarrow> isOperation org key r \<Longrightarrow> owStatus r \<noteq> None \<or> until \<le> owLeaseUntil r \<Longrightarrow>
      owStatus (f r) \<noteq> None \<or> until \<le> owLeaseUntil (f r)"
  shows "leased until org key (db\<lparr>pdOperations := rows\<rparr>)"
proof -
  let ?g = "\<lambda>r. if hit r then f r else r"
  have rows: "rows = map ?g (pdOperations db)" using assms(2) by (auto simp: updateRows_def split: if_splits)
  have key: "isOperation org key (?g r) = isOperation org key r" for r using assms(3) by simp
  have kept: "owStatus (?g r) \<noteq> None \<or> until \<le> owLeaseUntil (?g r)"
    if "isOperation org key r" "owStatus r \<noteq> None \<or> until \<le> owLeaseUntil r" for r
    using assms(4) [OF _ that] that(2) by (cases "hit r") simp_all
  have "list_ex (isOperation org key) rows" using assms(1) by (simp only: leased_def rows list_ex_iff set_map bex_simps key)
  moreover have "list_all (\<lambda>r. isOperation org key r \<longrightarrow> owStatus r \<noteq> None \<or> until \<le> owLeaseUntil r) rows"
    using assms(1) kept by (simp only: leased_def rows list_all_iff set_map ball_simps key) blast
  ultimately show ?thesis by (simp add: leased_def)
qed

lemma payStep_leased: "leased until org key db \<Longrightarrow> leaseStep until s \<Longrightarrow> leased until org key (payStep env s db)"
proof (cases s)
  case (InsertOp now o' k' fp req)
  assume l: "leased until org key db"
  have "\<not> isOperation org key (newOperation now o' k' fp req)" if "\<not> list_ex (isOperation o' k') (pdOperations db)"
    using that l by (auto simp: leased_def isOperation_def newOperation_def)
  then show ?thesis using InsertOp l
    by (auto simp: committed_def insertOperation_def Let_def leased_def split: sum.splits if_splits)
next
  case (TakeLease now o' k' digest)
  assume "leased until org key db" "leaseStep until s"
  then show ?thesis using TakeLease
    by (auto simp: committed_def takeLease_def split: sum.splits elim!: update_leased) (auto simp: isOperation_def leaseTime_def)
next
  case (CompleteOp now o' k' status factID prov)
  assume "leased until org key db"
  then show ?thesis using CompleteOp
    by (auto simp: CompleteOperation_def split: sum.splits option.splits elim!: update_leased) (auto simp: isOperation_def)
next
  case (RecordState now o' k' prov)
  assume "leased until org key db"
  then show ?thesis using RecordState
    by (auto simp: RecordProviderState_def split: sum.splits elim!: update_leased) (auto simp: isOperation_def)
qed (auto simp: leased_def BindCompensation_def RecordCompensationProviderRef_def CompleteCompensation_def
    BindRefundLeg_def CompleteRefundLeg_def Let_def split: option.splits sum.splits)

lemma run_leased:
  "leased until org key db \<Longrightarrow> list_all (leaseStep until) steps \<Longrightarrow> leased until org key (fold (payStep env) steps db)"
  by (induction steps arbitrary: db) (auto intro: payStep_leased)

lemma takeLease_leased:
  assumes "leased until org key db" and "now < until" and "takeLease now org key digest db = Inr (n, db')"
  shows "n = 0"
proof -
  have "\<not> (isOperation org key r \<and> owStatus r = None \<and> owLeaseUntil r \<le> now)" if "r \<in> set (pdOperations db)" for r
    using assms(1,2) that by (auto simp: leased_def list_all_iff)
  then show ?thesis using assms(3) by (auto simp: takeLease_def updateRows_def filter_empty_conv split: sum.splits if_splits)
qed

lemma BindOperation_driver:
  assumes "BindOperation now later org key fp req db = (Inr (st, factID, at, False), db')"
    and "distinct (operationKeys db)" and "now \<le> later"
  shows "leased (now + leaseTime) org key db'"
proof -
  obtain ins db1 where ins: "insertOperation now org key fp req db = Inr (ins, db1)"
    using assms(1) by (auto simp: BindOperation_def split: sum.splits)
  have db1: "db1 = (if ins then db\<lparr>pdOperations := pdOperations db @ [newOperation now org key fp req]\<rparr> else db)"
    "ins = (\<not> list_ex (isOperation org key) (pdOperations db))"
    using ins by (auto simp: insertOperation_def Let_def split: if_splits)
  obtain r where r: "find (isOperation org key) (pdOperations db1) = Some r"
    using assms(1) ins by (auto simp: BindOperation_def split: option.splits)
  show ?thesis
  proof (cases ins)
    case True
    then have "db' = db1" using assms(1) ins r by (auto simp: BindOperation_def split: if_splits)
    then show ?thesis using True db1
      by (auto simp: leased_def list_ex_iff list_all_iff newOperation_def isOperation_def)
  next
    case False
    have db: "db1 = db" using db1(1) False by simp
    have st: "owStatus r = None"
      using assms(1) ins r False by (auto simp: BindOperation_def boundAnswer_def split: if_splits sum.splits)
    obtain n where n: "takeLease later org key (oqSettlementDigest req) db = Inr (n, db')" "n \<noteq> 0"
      using assms(1) ins r False st by (auto simp: BindOperation_def db split: if_splits sum.splits)
    have un: "q = r" if "q \<in> set (pdOperations db)" "isOperation org key q" for q
      using find_unique [OF assms(2) r [unfolded db] that] .
    let ?hit = "\<lambda>r. isOperation org key r \<and> owStatus r = None \<and> owLeaseUntil r \<le> later"
    let ?f = "\<lambda>r. r\<lparr>owLeaseUntil := later + leaseTime, owDigest := coalesce (owDigest r) (nullableDigest (oqSettlementDigest req))\<rparr>"
    have rows: "n = length (filter ?hit (pdOperations db))" "pdOperations db' = map (\<lambda>r. if ?hit r then ?f r else r) (pdOperations db)"
      using n(1) by (auto simp: takeLease_def updateRows_def split: sum.splits if_splits)
    then obtain q where "q \<in> set (pdOperations db)" "?hit q" using n(2) by (auto simp: filter_empty_conv)
    then have hit: "?hit r" using un by blast
    let ?g = "\<lambda>r. if ?hit r then ?f r else r"
    have "r \<in> set (pdOperations db)" using r db by (auto dest: find_SomeD)
    then have "?g r \<in> set (pdOperations db')" unfolding rows(2) set_map by (rule imageI)
    moreover have "isOperation org key (?g r)" using hit by (simp add: isOperation_def)
    moreover have "until \<le> owLeaseUntil x" if x: "x \<in> set (pdOperations db')" "isOperation org key x" "until = now + leaseTime" for x until
    proof -
      obtain q where q: "q \<in> set (pdOperations db)" "x = ?g q" using x(1) unfolding rows(2) by auto
      have "isOperation org key q" using x(2) q(2) by (simp add: isOperation_def split: if_splits)
      then have "q = r" using un q(1) by blast
      then have "owLeaseUntil x = later + leaseTime" using q(2) hit by simp
      then show ?thesis using assms(3) x(3) by simp
    qed
    ultimately show ?thesis unfolding leased_def list_ex_iff list_all_iff by blast
  qed
qed

text \<open>
  At most one request drives a charge at a time. Once a request has been let through to the
  provider, every other request under the same key is refused or answered from the
  record until the lease ends, whatever is done to the tables in between.
\<close>
theorem one_driver_per_lease:
  assumes "distinct (operationKeys db)" and "now \<le> later"
    and "BindOperation now later org key fingerprint req db = (Inr (st, factID, at, False), db1)"
    and "list_all (leaseStep (now + leaseTime)) steps" and "db2 = fold (payStep env) steps db1"
    and "later' < now + leaseTime"
  shows "case fst (BindOperation now' later' org key fingerprint' req' db2) of Inl e \<Rightarrow> True | Inr (st', factID', at', replay) \<Rightarrow> replay"
proof -
  have l: "leased (now + leaseTime) org key db2"
    using run_leased [OF BindOperation_driver [OF assms(3,1,2)] assms(4)] assms(5) by simp
  show ?thesis
  proof (cases "insertOperation now' org key fingerprint' req' db2")
    case (Inr p)
    have p: "p = (False, db2)"
      using Inr l by (auto simp: insertOperation_def Let_def leased_def split: if_splits)
    have ins: "insertOperation now' org key fingerprint' req' db2 = Inr (False, db2)" using Inr p by simp
    obtain r where r: "find (isOperation org key) (pdOperations db2) = Some r"
      using l by (cases "find (isOperation org key) (pdOperations db2)") (auto simp: leased_def list_ex_iff find_None_iff)
    show ?thesis
    proof (cases "owStatus r")
      case None
      have n: "n = 0" if "takeLease later' org key digest db2 = Inr (n, db3)" for n digest db3
        by (rule takeLease_leased [OF l assms(6) that])
      show ?thesis
      proof (cases "takeLease later' org key (oqSettlementDigest req') db2")
        case (Inr q)
        obtain m db3 where q: "q = (m, db3)" by (cases q)
        have "m = 0" by (rule n) (use Inr q in simp)
        then show ?thesis using None r ins Inr q by (simp add: BindOperation_def)
      qed (use None r ins in \<open>simp add: BindOperation_def\<close>)
    qed (use r ins in \<open>simp add: BindOperation_def boundAnswer_def\<close>)
  qed (simp add: BindOperation_def)
qed

section \<open>A charge and its refunds\<close>

definition sampleSha :: JournalEnv where
  "sampleSha = \<lparr>jeSha = (\<lambda>s. s), jeMac = (\<lambda>k s. s), jeRFC = (\<lambda>t. ''''), jeParse = (\<lambda>s. None)\<rparr>"

definition sampleRequest :: OperationRequest where
  "sampleRequest = \<lparr>oqOrderID = 7, oqBuyerID = 8, oqAmount = 1000, oqCurrency = ''EUR'', oqPaymentMethodRef = ''tok'',
     oqSettlementDigest = ''plan''\<rparr>"

definition sampleCapture :: ProviderResult where
  "sampleCapture = \<lparr>prPaymentRef = ''pi'', prChargeRef = ''ch'', prState = ''captured'', prAuthorizedAmount = 1000,
     prCapturedAmount = 1000, prConfirmedCapturedAmount = Some 1000, prConfirmedCurrency = ''EUR''\<rparr>"

definition chargeSteps :: "pay_step list" where
  "chargeSteps = [InsertOp 100 5 ''k'' ''f'' sampleRequest, CompleteOp 200 5 ''k'' ''captured'' 9 sampleCapture]"

definition refundSteps :: "pay_step list" where
  "refundSteps = [BindLeg 300 5 ''k'' ''r1'' 600 ''EUR'', BindLeg 400 5 ''k'' ''r2'' 500 ''EUR'',
     BindComp 500 5 ''k'' ''refund'' 1000 ''EUR'']"

definition sampleCap :: captures where
  "sampleCap org key = (if org = 5 \<and> key = ''k'' then Some 1000 else None)"

lemma EUR_iso: "isISOCurrency ''EUR''"
  by (simp add: isISOCurrency_def)

definition chargedRow :: OperationRow where
  "chargedRow = (newOperation 100 5 ''k'' ''f'' sampleRequest)
     \<lparr>owStatus := Some ''captured'', owFactID := Some 9, owPaymentRef := Some ''pi'', owChargeRef := Some ''ch'',
      owState := Some ''captured'', owAuthorizedAmount := Some 1000, owCapturedAmount := Some 1000,
      owConfirmedAmount := Some 1000, owConfirmedCurrency := Some ''EUR'', owStateAt := Some 200\<rparr>"

lemma charged: "fold (payStep sampleSha) chargeSteps noPayments = noPayments\<lparr>pdOperations := [chargedRow]\<rparr>"
  by (simp add: chargeSteps_def committed_def insertOperation_def Let_def newOperation_def operationRow_def nullOr_def
      EUR_iso sampleRequest_def noPayments_def CompleteOperation_def updateRows_def isOperation_def sampleCapture_def
      nullIf_def chargedRow_def nullableDigest_def)

definition sampleLeg :: LegRow where
  "sampleLeg = newLeg sampleSha 300 5 ''k'' ''r1'' 600 ''EUR''"

lemma sampleLeg_simps: "isLegOf 5 ''k'' sampleLeg" "isLeg 5 ''k'' rk sampleLeg \<longleftrightarrow> rk = ''r1''" "lwAmount sampleLeg = 600"
  "legRow sampleLeg"
  by (auto simp: sampleLeg_def newLeg_def isLegOf_def isLeg_def legRow_def nullOr_def EUR_iso)

lemma chargedRow_simps: "isOperation 5 ''k'' chargedRow" "owState chargedRow = Some ''captured''"
  "owCapturedAmount chargedRow = Some 1000" "owRequestCurrency chargedRow = Some ''EUR''"
  by (simp_all add: chargedRow_def newOperation_def isOperation_def sampleRequest_def)

lemma first_leg: "snd (BindRefundLeg sampleSha 300 5 ''k'' ''r1'' 600 ''EUR'' (noPayments\<lparr>pdOperations := [chargedRow]\<rparr>)) =
   noPayments\<lparr>pdOperations := [chargedRow], pdLegs := [sampleLeg]\<rparr>"
  by (simp add: BindRefundLeg_def noPayments_def chargedRow_simps sampleLeg_simps sampleLeg_def [symmetric] LookupRefundLeg_def
      textOf_def amountOf_def boundTotal_def checkedAddMoney_def wrap64_id legInsertable_def int64_def Let_def)

lemma second_leg:
  "snd (BindRefundLeg sampleSha 400 5 ''k'' ''r2'' 500 ''EUR'' (noPayments\<lparr>pdOperations := [chargedRow], pdLegs := [sampleLeg]\<rparr>)) =
   noPayments\<lparr>pdOperations := [chargedRow], pdLegs := [sampleLeg]\<rparr>"
  by (simp add: BindRefundLeg_def noPayments_def chargedRow_simps sampleLeg_simps LookupRefundLeg_def
      textOf_def amountOf_def boundTotal_def checkedAddMoney_def wrap64_id int64_def Let_def)

lemma whole_refund:
  "snd (BindCompensation sampleSha 500 5 ''k'' ''refund'' 1000 ''EUR''
      (noPayments\<lparr>pdOperations := [chargedRow], pdLegs := [sampleLeg]\<rparr>)) =
   noPayments\<lparr>pdOperations := [chargedRow], pdLegs := [sampleLeg]\<rparr>"
  by (simp add: BindCompensation_def noPayments_def chargedRow_simps sampleLeg_simps LookupCompensation_def)

lemma refunded:
  "fold (payStep sampleSha) refundSteps (noPayments\<lparr>pdOperations := [chargedRow]\<rparr>) =
   noPayments\<lparr>pdOperations := [chargedRow], pdLegs := [sampleLeg]\<rparr>"
  by (simp add: refundSteps_def first_leg second_leg whole_refund)


theorem first_completion_decides_witness:
  "CompleteOperation 900 5 ''k'' ''declined'' 11 sampleCapture
     (fold (payStep sampleSha) refundSteps (noPayments\<lparr>pdOperations := [chargedRow]\<rparr>)) =
   (Inl ErrOperationNotCompleted, fold (payStep sampleSha) refundSteps (noPayments\<lparr>pdOperations := [chargedRow]\<rparr>))"
proof -
  let ?db = "noPayments\<lparr>pdOperations := [newOperation 100 5 ''k'' ''f'' sampleRequest]\<rparr>"
  have "CompleteOperation 200 5 ''k'' ''captured'' 9 sampleCapture ?db = (Inr (), noPayments\<lparr>pdOperations := [chargedRow]\<rparr>)"
    by (simp add: CompleteOperation_def updateRows_def isOperation_def sampleCapture_def operationRow_def nullOr_def
        EUR_iso sampleRequest_def nullIf_def chargedRow_def newOperation_def noPayments_def)
  then show ?thesis
    using first_completion_decides [of ?db 9 200 5 "''k''" "''captured''" sampleCapture "noPayments\<lparr>pdOperations := [chargedRow]\<rparr>"
        _ sampleSha refundSteps 900 "''declined''" 11 sampleCapture]
    by (simp add: operationKeys_def)
qed

theorem one_driver_per_lease_witness:
  "case fst (BindOperation 150 160 5 ''k'' ''f'' sampleRequest
      (noPayments\<lparr>pdOperations := [newOperation 100 5 ''k'' ''f'' sampleRequest]\<rparr>)) of
     Inl e \<Rightarrow> True | Inr (st, factID, at, replay) \<Rightarrow> replay"
proof (rule one_driver_per_lease [where db = noPayments and now = 100 and later = 100 and steps = "[]" and env = sampleSha])
  show "BindOperation 100 100 5 ''k'' ''f'' sampleRequest noPayments =
    (Inr ('''', uuid_Nil, 0, False), noPayments\<lparr>pdOperations := [newOperation 100 5 ''k'' ''f'' sampleRequest]\<rparr>)"
    by (simp add: BindOperation_def insertOperation_def Let_def noPayments_def operationRow_def nullOr_def EUR_iso
        sampleRequest_def newOperation_def isOperation_def boundAnswer_def textOf_def uuidOf_def truncateMicro_def)
qed (simp_all add: operationKeys_def noPayments_def leaseTime_def)

end
