(* ===== verification/Payments_Provider.thy ===== *)
theory Payments_Provider
  imports Payments_Journal
begin

text \<open>
  The payment-service-provider port, \<open>src/services/payments/internal/psp\<close>: the normalized
  result and its validation (\<open>port.go\<close>), the offline provider (\<open>fake.go\<close>) and the decisions of
  the Stripe adapter (\<open>stripe.go\<close>). An HTTP call of the adapter is a field of \<open>StripeAPI\<close>,
  and its answer a transport failure, an error envelope, a body that does not decode, or a
  decoded object.
\<close>

section \<open>port.go\<close>

datatype Outcome =
    Authorized
  | Captured
  | Declined
  | Timeout
  | Unknown
  | Voided
  | Refunded
  | OtherOutcome string

datatype psp_error =
    ErrInvalidToken
  | ErrRefundPending
  | RefundFailedError string
  | ProviderError

record ConfirmedMoney =
  cfAmount :: int
  cfCurrency :: string

record Result =
  rsOutcome :: Outcome
  rsCaptured :: bool
  rsAuthorized :: bool
  rsTerminalNoSideEffect :: bool
  rsProviderRef :: string
  rsProviderChargeRef :: string
  rsConfirmed :: "ConfirmedMoney option"

record AuthorizeRequest =
  auOrganizerID :: string
  auOrderID :: string
  auBuyerID :: string
  auAmount :: int
  auCurrency :: string
  auPaymentToken :: string
  auIdempotencyKey :: string

record StatusRequest =
  ruProviderRef :: string
  ruIdempotencyKey :: string
  ruAmount :: int
  ruCurrency :: string
  ruPaymentToken :: string

type_synonym answer = "Result \<times> psp_error option"

record Provider =
  pvAuthorize :: "AuthorizeRequest \<Rightarrow> answer"
  pvVoid :: "string \<Rightarrow> string \<Rightarrow> answer"
  pvRefund :: "string \<Rightarrow> string \<Rightarrow> int \<Rightarrow> string \<Rightarrow> answer"
  pvStatus :: "StatusRequest \<Rightarrow> answer"

definition resultOf :: "Outcome \<Rightarrow> Result" where
  "resultOf o' = \<lparr>rsOutcome = o', rsCaptured = False, rsAuthorized = False, rsTerminalNoSideEffect = False,
     rsProviderRef = '''', rsProviderChargeRef = '''', rsConfirmed = None\<rparr>"

definition Agrees :: "ConfirmedMoney option \<Rightarrow> int \<Rightarrow> string \<Rightarrow> bool" where
  "Agrees c amount currency =
     (case c of None \<Rightarrow> False | Some m \<Rightarrow> cfAmount m = amount \<and> cfCurrency m = currency)"

datatype result_fault =
    ConfirmedNegative
  | ConfirmedCurrencyNotISO
  | ConfirmedZero
  | ConfirmedUnmoved
  | OutcomeContradicted
  | OutcomeUnrecognized

definition validateMoney :: "ConfirmedMoney \<Rightarrow> result_fault option" where
  "validateMoney m =
     (if cfAmount m < 0 then Some ConfirmedNegative
      else if \<not> isISOCurrency (cfCurrency m) then Some ConfirmedCurrencyNotISO else None)"

definition validateConfirmed :: "Result \<Rightarrow> result_fault option" where
  "validateConfirmed r =
     (case rsConfirmed r of
        None \<Rightarrow> None
      | Some m \<Rightarrow>
          (case validateMoney m of
             Some f \<Rightarrow> Some f
           | None \<Rightarrow>
               if rsOutcome r = Captured \<or> rsOutcome r = Refunded
               then (if cfAmount m = 0 then Some ConfirmedZero else None) else Some ConfirmedUnmoved))"

definition ValidateResult :: "Result \<Rightarrow> result_fault option" where
  "ValidateResult r =
     (case validateConfirmed r of
        Some f \<Rightarrow> Some f
      | None \<Rightarrow>
          (let contradiction = (\<lambda>b. if b then Some OutcomeContradicted else None) in
           case rsOutcome r of
             Captured \<Rightarrow> contradiction (\<not> rsCaptured r \<or> \<not> rsAuthorized r \<or> rsTerminalNoSideEffect r)
           | Authorized \<Rightarrow> contradiction (\<not> rsAuthorized r \<or> rsCaptured r \<or> rsTerminalNoSideEffect r)
           | Declined \<Rightarrow> contradiction (rsCaptured r \<or> rsAuthorized r \<or> \<not> rsTerminalNoSideEffect r)
           | Timeout \<Rightarrow> contradiction (rsCaptured r \<or> rsAuthorized r \<or> \<not> rsTerminalNoSideEffect r)
           | Unknown \<Rightarrow> contradiction (rsCaptured r \<or> rsAuthorized r \<or> rsTerminalNoSideEffect r)
           | Voided \<Rightarrow> contradiction (rsCaptured r \<or> rsAuthorized r \<or> \<not> rsTerminalNoSideEffect r)
           | Refunded \<Rightarrow> contradiction (rsCaptured r \<or> rsAuthorized r \<or> rsTerminalNoSideEffect r)
           | OtherOutcome s \<Rightarrow> Some OutcomeUnrecognized))"

section \<open>fake.go\<close>

definition TokenSuccess :: string where "TokenSuccess = ''fake-ok''"
definition TokenDecline :: string where "TokenDecline = ''fake-decline''"
definition TokenTimeout :: string where "TokenTimeout = ''fake-timeout''"
definition TokenAuthHold :: string where "TokenAuthHold = ''fake-auth-hold''"

definition capturedResult :: "ConfirmedMoney option \<Rightarrow> Result" where
  "capturedResult m = (resultOf Captured)\<lparr>rsCaptured := True, rsAuthorized := True, rsConfirmed := m\<rparr>"

definition noSideEffect :: "Outcome \<Rightarrow> Result" where
  "noSideEffect o' = (resultOf o')\<lparr>rsTerminalNoSideEffect := True\<rparr>"

definition fakeAuthorize :: "AuthorizeRequest \<Rightarrow> answer" where
  "fakeAuthorize req =
     (if auPaymentToken req = TokenSuccess
      then (capturedResult (Some \<lparr>cfAmount = auAmount req, cfCurrency = auCurrency req\<rparr>), None)
      else if auPaymentToken req = TokenDecline then (noSideEffect Declined, None)
      else if auPaymentToken req = TokenTimeout then (noSideEffect Timeout, None)
      else if auPaymentToken req = TokenAuthHold then ((resultOf Authorized)\<lparr>rsAuthorized := True\<rparr>, None)
      else (resultOf (OtherOutcome ''''), Some ErrInvalidToken))"

definition fakeVoid :: "string \<Rightarrow> string \<Rightarrow> answer" where
  "fakeVoid ref key = (noSideEffect Voided, None)"

definition fakeRefund :: "string \<Rightarrow> string \<Rightarrow> int \<Rightarrow> string \<Rightarrow> answer" where
  "fakeRefund ref key amount currency =
     ((resultOf Refunded)\<lparr>rsConfirmed := Some \<lparr>cfAmount = amount, cfCurrency = currency\<rparr>\<rparr>, None)"

definition fakeStatus :: "StatusRequest \<Rightarrow> answer" where
  "fakeStatus req =
     (if ruPaymentToken req = TokenSuccess
      then (capturedResult (Some \<lparr>cfAmount = ruAmount req, cfCurrency = ruCurrency req\<rparr>), None)
      else if ruPaymentToken req = TokenAuthHold then ((resultOf Authorized)\<lparr>rsAuthorized := True\<rparr>, None)
      else if ruPaymentToken req = TokenDecline then (noSideEffect Declined, None)
      else if ruPaymentToken req = TokenTimeout then (noSideEffect Timeout, None)
      else (resultOf Unknown, None))"

definition Fake :: Provider where
  "Fake = \<lparr>pvAuthorize = fakeAuthorize, pvVoid = fakeVoid, pvRefund = fakeRefund, pvStatus = fakeStatus\<rparr>"

definition fakeCapture :: "string \<Rightarrow> int \<Rightarrow> string \<Rightarrow> answer" where
  "fakeCapture ref amount currency = (capturedResult (Some \<lparr>cfAmount = amount, cfCurrency = currency\<rparr>), None)"

definition ValidToken :: "string \<Rightarrow> bool" where
  "ValidToken token \<longleftrightarrow> token \<in> set [TokenSuccess, TokenDecline, TokenTimeout, TokenAuthHold]"

section \<open>stripe.go\<close>

record stripePI =
  piID :: string
  piStatus :: string
  piCurrency :: string
  piLatestCharge :: string
  piAmountReceived :: "int option"

record stripeRefund =
  rfID :: string
  rfStatus :: string
  rfAmount :: int
  rfCurrency :: string
  rfPaymentIntent :: string
  rfMetadata :: "(string \<times> string) list"

record stripeRefundList =
  lsObject :: string
  lsData :: "stripeRefund list option"
  lsHasMore :: "bool option"

text \<open>What \<open>do\<close> and the decoding of its body give: no response or an unread one, an error envelope with
  its type, a body that is not the object asked for, or the object.\<close>

datatype 'a reply =
    NoResponse
  | StripeError string
  | Undecodable
  | Decoded 'a

record StripeAPI =
  saCreate :: "int \<Rightarrow> string \<Rightarrow> string \<Rightarrow> string \<Rightarrow> stripePI reply"
  saCapture :: "string \<Rightarrow> int \<Rightarrow> stripePI reply"
  saCancel :: "string \<Rightarrow> string \<Rightarrow> stripePI reply"
  saIntent :: "string \<Rightarrow> stripePI reply"
  saListRefunds :: "string \<Rightarrow> string option \<Rightarrow> stripeRefundList reply"
  saCreateRefund :: "string \<Rightarrow> int \<Rightarrow> string \<Rightarrow> stripeRefund reply"
  saRefund :: "string \<Rightarrow> stripeRefund reply"

definition toUpper :: "string \<Rightarrow> string" where
  "toUpper s = map (\<lambda>c. if CHR ''a'' \<le> c \<and> c \<le> CHR ''z'' then char_of (of_char c - 32 :: nat) else c) s"

definition confirmedCapture :: "stripePI \<Rightarrow> ConfirmedMoney option" where
  "confirmedCapture pi =
     map_option (\<lambda>n. \<lparr>cfAmount = n, cfCurrency = toUpper (piCurrency pi)\<rparr>) (piAmountReceived pi)"

definition confirmedRefund :: "stripeRefund \<Rightarrow> ConfirmedMoney option" where
  "confirmedRefund rf =
     (if rfAmount rf = 0 \<and> rfCurrency rf = '''' then None
      else Some \<lparr>cfAmount = rfAmount rf, cfCurrency = toUpper (rfCurrency rf)\<rparr>)"

definition completeList :: "stripeRefundList \<Rightarrow> bool" where
  "completeList l \<longleftrightarrow> lsObject l = ''list'' \<and> lsData l \<noteq> None \<and> lsHasMore l \<noteq> None"

definition unknownAnswer :: answer where
  "unknownAnswer = (resultOf Unknown, Some ProviderError)"

definition classifyError :: "string \<Rightarrow> answer" where
  "classifyError kind = (if kind = ''card_error'' then (noSideEffect Declined, None) else unknownAnswer)"

definition settledIntent :: "stripePI \<Rightarrow> Result" where
  "settledIntent pi = (capturedResult (confirmedCapture pi))
     \<lparr>rsProviderRef := piID pi, rsProviderChargeRef := piLatestCharge pi\<rparr>"

definition mapPIStatus :: "stripePI \<Rightarrow> answer" where
  "mapPIStatus pi =
     (if piStatus pi = ''requires_capture''
      then ((resultOf Authorized)\<lparr>rsAuthorized := True, rsProviderRef := piID pi\<rparr>, None)
      else if piStatus pi = ''succeeded'' then (settledIntent pi, None)
      else if piStatus pi = ''canceled'' then ((noSideEffect Voided)\<lparr>rsProviderRef := piID pi\<rparr>, None)
      else ((resultOf Unknown)\<lparr>rsProviderRef := piID pi\<rparr>, Some ProviderError))"

definition mapRefundStatus :: "stripeRefund \<Rightarrow> answer" where
  "mapRefundStatus rf =
     (if rfStatus rf = ''succeeded''
      then ((resultOf Refunded)\<lparr>rsProviderRef := rfID rf, rsConfirmed := confirmedRefund rf\<rparr>, None)
      else ((resultOf Unknown)\<lparr>rsProviderRef := rfID rf\<rparr>,
        Some (if rfStatus rf = ''pending'' then ErrRefundPending
              else if rfStatus rf = ''failed'' \<or> rfStatus rf = ''canceled'' then RefundFailedError (rfID rf)
              else ProviderError)))"

definition stripeCapture :: "StripeAPI \<Rightarrow> string \<Rightarrow> int \<Rightarrow> string \<Rightarrow> answer" where
  "stripeCapture api ref amount currency =
     (case saCapture api ref amount of
        Decoded pi \<Rightarrow> if piStatus pi = ''succeeded'' then (settledIntent pi, None) else mapPIStatus pi
      | _ \<Rightarrow> ((resultOf Unknown)\<lparr>rsProviderRef := ref\<rparr>, Some ProviderError))"

definition stripeAuthorize :: "StripeAPI \<Rightarrow> AuthorizeRequest \<Rightarrow> answer" where
  "stripeAuthorize api req =
     (case saCreate api (auAmount req) (toLower (auCurrency req)) (auPaymentToken req) (auIdempotencyKey req) of
        NoResponse \<Rightarrow> unknownAnswer
      | Undecodable \<Rightarrow> unknownAnswer
      | StripeError kind \<Rightarrow> classifyError kind
      | Decoded pi \<Rightarrow>
          if piStatus pi = ''requires_capture'' then stripeCapture api (piID pi) (auAmount req) (auCurrency req)
          else if piStatus pi = ''succeeded'' then (settledIntent pi, None)
          else mapPIStatus pi)"

definition stripeVoid :: "StripeAPI \<Rightarrow> string \<Rightarrow> string \<Rightarrow> answer" where
  "stripeVoid api ref key =
     (case saCancel api ref key of
        NoResponse \<Rightarrow> unknownAnswer
      | Undecodable \<Rightarrow> unknownAnswer
      | StripeError kind \<Rightarrow> classifyError kind
      | Decoded pi \<Rightarrow>
          if piStatus pi = ''canceled'' then ((noSideEffect Voided)\<lparr>rsProviderRef := piID pi\<rparr>, None)
          else ((resultOf Unknown)\<lparr>rsProviderRef := piID pi\<rparr>, Some ProviderError))"

datatype refundMatch = refundMatchNo | refundMatchYes | refundMatchInconclusive

definition compensationKeyMetadata :: string where
  "compensationKeyMetadata = ''compensation_key''"

definition classifyRefund :: "stripeRefund \<Rightarrow> string \<Rightarrow> string \<Rightarrow> int \<Rightarrow> string \<Rightarrow> refundMatch" where
  "classifyRefund rf providerRef key amount currency =
     (if key = '''' \<or> map_of (rfMetadata rf) compensationKeyMetadata \<noteq> Some key then refundMatchNo
      else if rfID rf = '''' \<or> rfPaymentIntent rf \<noteq> providerRef \<or> rfCurrency rf \<noteq> toLower currency
      then refundMatchInconclusive
      else if amount \<le> 0 \<or> rfAmount rf \<noteq> amount then refundMatchInconclusive
      else refundMatchYes)"

text \<open>One page: the verdict of the first refund that is not somebody else's.\<close>

fun classifyPage :: "stripeRefund list \<Rightarrow> string \<Rightarrow> string \<Rightarrow> int \<Rightarrow> string \<Rightarrow> answer option" where
  "classifyPage [] providerRef key amount currency = None"
| "classifyPage (rf # rest) providerRef key amount currency =
     (case classifyRefund rf providerRef key amount currency of
        refundMatchYes \<Rightarrow> Some (mapRefundStatus rf)
      | refundMatchInconclusive \<Rightarrow> Some unknownAnswer
      | refundMatchNo \<Rightarrow> classifyPage rest providerRef key amount currency)"

definition refundListPages :: nat where
  "refundListPages = 10"

text \<open>\<open>None\<close> is \<open>done = false\<close>: no such refund exists, a submission is safe.\<close>

fun resolvePages :: "StripeAPI \<Rightarrow> nat \<Rightarrow> string option \<Rightarrow> string \<Rightarrow> string \<Rightarrow> int \<Rightarrow> string \<Rightarrow> answer option" where
  "resolvePages api 0 cursor providerRef key amount currency = Some unknownAnswer"
| "resolvePages api (Suc n) cursor providerRef key amount currency =
     (case saListRefunds api providerRef cursor of
        NoResponse \<Rightarrow> Some unknownAnswer
      | Undecodable \<Rightarrow> Some unknownAnswer
      | StripeError kind \<Rightarrow> Some (classifyError kind)
      | Decoded l \<Rightarrow>
          if \<not> completeList l then Some unknownAnswer
          else
            let rows = (case lsData l of None \<Rightarrow> [] | Some d \<Rightarrow> d) in
            (case classifyPage rows providerRef key amount currency of
               Some a \<Rightarrow> Some a
             | None \<Rightarrow>
                 if lsHasMore l \<noteq> Some True then None
                 else if rows = [] then Some unknownAnswer
                 else resolvePages api n (Some (rfID (List.last rows))) providerRef key amount currency))"

definition resolveRefund :: "StripeAPI \<Rightarrow> string \<Rightarrow> string \<Rightarrow> int \<Rightarrow> string \<Rightarrow> answer option" where
  "resolveRefund api providerRef key amount currency =
     resolvePages api refundListPages None providerRef key amount currency"

definition stripeRefundCall :: "StripeAPI \<Rightarrow> string \<Rightarrow> string \<Rightarrow> int \<Rightarrow> string \<Rightarrow> answer" where
  "stripeRefundCall api providerRef key amount currency =
     (case resolveRefund api providerRef key amount currency of
        Some a \<Rightarrow> a
      | None \<Rightarrow>
          (case saCreateRefund api providerRef amount key of
             NoResponse \<Rightarrow> unknownAnswer
           | Undecodable \<Rightarrow> unknownAnswer
           | StripeError kind \<Rightarrow> classifyError kind
           | Decoded rf \<Rightarrow> mapRefundStatus rf))"

definition stripeStatus :: "StripeAPI \<Rightarrow> StatusRequest \<Rightarrow> answer" where
  "stripeStatus api req =
     (if take 3 (ruProviderRef req) = ''re_'' then
        (case saRefund api (ruProviderRef req) of
           NoResponse \<Rightarrow> unknownAnswer
         | Undecodable \<Rightarrow> unknownAnswer
         | StripeError kind \<Rightarrow> classifyError kind
         | Decoded rf \<Rightarrow> mapRefundStatus rf)
      else
        (case (if ruProviderRef req \<noteq> '''' then saIntent api (ruProviderRef req)
               else saCreate api (ruAmount req) (toLower (ruCurrency req)) (ruPaymentToken req) (ruIdempotencyKey req)) of
           NoResponse \<Rightarrow> unknownAnswer
         | Undecodable \<Rightarrow> unknownAnswer
         | StripeError kind \<Rightarrow> classifyError kind
         | Decoded pi \<Rightarrow> mapPIStatus pi))"

definition Stripe :: "StripeAPI \<Rightarrow> Provider" where
  "Stripe api = \<lparr>pvAuthorize = stripeAuthorize api, pvVoid = stripeVoid api, pvRefund = stripeRefundCall api,
     pvStatus = stripeStatus api\<rparr>"

section \<open>What a provider's answer may say\<close>

text \<open>The contract the handlers rest on: an answer without error contradicts itself nowhere but,
  at most, in its confirmed money, and says that a hold ended only where one did.\<close>

definition shapely :: "Result \<Rightarrow> bool" where
  "shapely r \<longleftrightarrow> ValidateResult (r\<lparr>rsConfirmed := None\<rparr>) = None"

locale psp_port =
  fixes p :: Provider
  assumes authorize_shapely: "pvAuthorize p req = (r, None) \<Longrightarrow> shapely r"
    and void_shapely: "pvVoid p ref key = (r, None) \<Longrightarrow> shapely r"
    and refund_shapely: "pvRefund p ref key amount currency = (r, None) \<Longrightarrow> shapely r"
    and status_shapely: "pvStatus p sreq = (r, None) \<Longrightarrow> shapely r"
begin

text \<open>What stays for the validation to refuse is the confirmed money.\<close>

lemma refused_only_for_money:
  "pvAuthorize p req = (r, None) \<or> pvStatus p sreq = (r, None) \<Longrightarrow> ValidateResult r = validateConfirmed r"
  using authorize_shapely [of req r] status_shapely [of sreq r]
  by (auto simp: shapely_def ValidateResult_def validateConfirmed_def Let_def split: option.splits Outcome.splits)

end

fun consistent :: "Outcome \<Rightarrow> bool \<Rightarrow> bool \<Rightarrow> bool \<Rightarrow> bool" where
  "consistent Captured c a t \<longleftrightarrow> c \<and> a \<and> \<not> t"
| "consistent Authorized c a t \<longleftrightarrow> a \<and> \<not> c \<and> \<not> t"
| "consistent Declined c a t \<longleftrightarrow> \<not> c \<and> \<not> a \<and> t"
| "consistent Timeout c a t \<longleftrightarrow> \<not> c \<and> \<not> a \<and> t"
| "consistent Unknown c a t \<longleftrightarrow> \<not> c \<and> \<not> a \<and> \<not> t"
| "consistent Voided c a t \<longleftrightarrow> \<not> c \<and> \<not> a \<and> t"
| "consistent Refunded c a t \<longleftrightarrow> \<not> c \<and> \<not> a \<and> \<not> t"
| "consistent (OtherOutcome s) c a t \<longleftrightarrow> False"

lemma shapely_consistent: "shapely r \<longleftrightarrow> consistent (rsOutcome r) (rsCaptured r) (rsAuthorized r) (rsTerminalNoSideEffect r)"
  by (cases "rsOutcome r") (simp_all add: shapely_def ValidateResult_def validateConfirmed_def)

lemma shapely_simps [simp]:
  "shapely (capturedResult m)" "shapely (noSideEffect Declined)" "shapely (noSideEffect Timeout)"
  "shapely (noSideEffect Voided)" "shapely ((resultOf Authorized)\<lparr>rsAuthorized := True\<rparr>)" "shapely (resultOf Unknown)"
  "shapely (r\<lparr>rsConfirmed := m\<rparr>) = shapely r" "shapely (r\<lparr>rsProviderRef := t\<rparr>) = shapely r"
  "shapely (r\<lparr>rsProviderChargeRef := t\<rparr>) = shapely r" "shapely (resultOf Refunded)"
  by (simp_all add: shapely_consistent capturedResult_def noSideEffect_def resultOf_def)

interpretation fake: psp_port Fake
  by unfold_locales
    (auto simp: Fake_def fakeAuthorize_def fakeVoid_def fakeRefund_def fakeStatus_def split: if_splits)

lemma mapPIStatus_shapely: "mapPIStatus pi = (r, None) \<Longrightarrow> shapely r"
  by (auto simp: mapPIStatus_def settledIntent_def split: if_splits)

lemma mapRefundStatus_shapely: "mapRefundStatus rf = (r, None) \<Longrightarrow> shapely r"
  by (auto simp: mapRefundStatus_def split: if_splits)

lemma classifyError_shapely: "classifyError kind = (r, None) \<Longrightarrow> shapely r"
  by (auto simp: classifyError_def unknownAnswer_def split: if_splits)

lemma unknownAnswer_error: "unknownAnswer \<noteq> (r, None)"
  by (simp add: unknownAnswer_def)

lemma classifyPage_shapely: "classifyPage rows ref key amount currency = Some (r, None) \<Longrightarrow> shapely r"
  by (induction rows) (auto simp: unknownAnswer_error dest: mapRefundStatus_shapely split: refundMatch.splits)

lemma resolvePages_shapely: "resolvePages api n cursor ref key amount currency = Some (r, None) \<Longrightarrow> shapely r"
  by (induction n arbitrary: cursor)
    (auto simp: unknownAnswer_error Let_def dest: classifyError_shapely classifyPage_shapely
      split: reply.splits option.splits if_splits)

lemma stripeCapture_shapely: "stripeCapture api ref amount currency = (r, None) \<Longrightarrow> shapely r"
  by (auto simp: stripeCapture_def settledIntent_def dest: mapPIStatus_shapely split: reply.splits if_splits)

lemma stripeAuthorize_shapely: "stripeAuthorize api req = (r, None) \<Longrightarrow> shapely r"
  by (auto simp: stripeAuthorize_def settledIntent_def unknownAnswer_error
      dest: mapPIStatus_shapely stripeCapture_shapely classifyError_shapely split: reply.splits if_splits)

lemma stripeVoid_shapely: "stripeVoid api ref key = (r, None) \<Longrightarrow> shapely r"
  by (auto simp: stripeVoid_def unknownAnswer_error dest: classifyError_shapely split: reply.splits if_splits)

lemma stripeRefundCall_shapely: "stripeRefundCall api ref key amount currency = (r, None) \<Longrightarrow> shapely r"
  by (auto simp: stripeRefundCall_def resolveRefund_def unknownAnswer_error
      dest: classifyError_shapely mapRefundStatus_shapely resolvePages_shapely split: reply.splits option.splits)

lemma stripeStatus_shapely: "stripeStatus api req = (r, None) \<Longrightarrow> shapely r"
  by (auto simp: stripeStatus_def unknownAnswer_error
      dest: classifyError_shapely mapRefundStatus_shapely mapPIStatus_shapely split: reply.splits if_splits)

interpretation stripe: psp_port "Stripe api" for api
  by unfold_locales
    (auto simp: Stripe_def intro: stripeAuthorize_shapely stripeVoid_shapely stripeRefundCall_shapely stripeStatus_shapely)

section \<open>Refunding twice\<close>

text \<open>
  A complete listing of a payment intent's refunds from a cursor on: pages that carry their
  data and say whether more follow, each asked for after the last refund of the one before.
\<close>

inductive listing :: "StripeAPI \<Rightarrow> string \<Rightarrow> string option \<Rightarrow> stripeRefund list list \<Rightarrow> bool" for api ref where
  last_page: "saListRefunds api ref cursor = Decoded l \<Longrightarrow> completeList l \<Longrightarrow> lsData l = Some rows \<Longrightarrow>
    lsHasMore l = Some False \<Longrightarrow> listing api ref cursor [rows]"
| next_page: "saListRefunds api ref cursor = Decoded l \<Longrightarrow> completeList l \<Longrightarrow> lsData l = Some rows \<Longrightarrow>
    lsHasMore l = Some True \<Longrightarrow> rows \<noteq> [] \<Longrightarrow> listing api ref (Some (rfID (List.last rows))) pages \<Longrightarrow>
    listing api ref cursor (rows # pages)"

inductive_cases listing_Cons: "listing api ref cursor (rows # pages)"
inductive_cases listing_Nil: "listing api ref cursor []"

definition foreign :: "string \<Rightarrow> stripeRefund \<Rightarrow> bool" where
  "foreign key rf \<longleftrightarrow> key = '''' \<or> map_of (rfMetadata rf) compensationKeyMetadata \<noteq> Some key"

lemma classify_No: "classifyRefund rf ref key amount currency = refundMatchNo \<longleftrightarrow> foreign key rf"
  by (simp add: classifyRefund_def foreign_def)

lemma classifyPage_None: "classifyPage rows ref key amount currency = None \<longleftrightarrow> list_all (foreign key) rows"
  by (induction rows) (auto simp: classify_No [of _ ref key amount currency, symmetric] split: refundMatch.splits)

lemma resolvePages_None:
  "resolvePages api n cursor ref key amount currency = None \<longleftrightarrow>
   (\<exists>pages. listing api ref cursor pages \<and> length pages \<le> n \<and> list_all (list_all (foreign key)) pages)"
proof (induction n arbitrary: cursor)
  case 0
  then show ?case by (auto elim: listing_Nil)
next
  case (Suc n)
  let ?goal = "\<exists>pages. listing api ref cursor pages \<and> length pages \<le> Suc n \<and> list_all (list_all (foreign key)) pages"
  have one: "\<exists>l rows more. saListRefunds api ref cursor = Decoded l \<and> completeList l \<and> lsData l = Some rows \<and>
      lsHasMore l = Some more \<and> list_all (foreign key) rows \<and>
      (more \<longrightarrow> rows \<noteq> [] \<and> resolvePages api n (Some (rfID (List.last rows))) ref key amount currency = None)"
    if ?goal
  proof -
    obtain pages where p: "listing api ref cursor pages" "length pages \<le> Suc n" "list_all (list_all (foreign key)) pages"
      using \<open>?goal\<close> by blast
    from p(1) show ?thesis
    proof cases
      case (last_page l rows)
      then show ?thesis using p(3) by auto
    next
      case (next_page l rows pages')
      then have "resolvePages api n (Some (rfID (List.last rows))) ref key amount currency = None"
        using p(2,3) Suc.IH by auto
      then show ?thesis using next_page p(3) by auto
    qed
  qed
  have two: ?goal if g: "saListRefunds api ref cursor = Decoded l" "completeList l" "lsData l = Some rows"
      "lsHasMore l = Some more" "list_all (foreign key) rows"
      "more \<longrightarrow> rows \<noteq> [] \<and> resolvePages api n (Some (rfID (List.last rows))) ref key amount currency = None"
    for l rows more
  proof (cases more)
    case True
    then obtain pages where "listing api ref (Some (rfID (List.last rows))) pages" "length pages \<le> n"
      "list_all (list_all (foreign key)) pages" "rows \<noteq> []"
      using g(6) Suc.IH by blast
    moreover from this have "listing api ref cursor (rows # pages)" using g True by (auto intro: listing.next_page)
    ultimately show ?thesis using g(5) by (intro exI [of _ "rows # pages"]) simp
  next
    case False
    then have "listing api ref cursor [rows]" using g by (auto intro: listing.last_page)
    then show ?thesis using g(5) by (intro exI [of _ "[rows]"]) simp
  qed
  show ?case
  proof
    assume r: "resolvePages api (Suc n) cursor ref key amount currency = None"
    then obtain l where l: "saListRefunds api ref cursor = Decoded l" "completeList l"
      by (auto simp: Let_def split: reply.splits if_splits)
    then obtain rows more where lm: "lsData l = Some rows" "lsHasMore l = Some more" by (auto simp: completeList_def)
    have "classifyPage rows ref key amount currency = None" using r l lm by (simp split: option.splits)
    then show ?goal using r l lm by (intro two [OF l lm]) (auto simp: classifyPage_None split: if_splits option.splits)
  next
    assume ?goal
    then show "resolvePages api (Suc n) cursor ref key amount currency = None"
      using one by (auto simp: Let_def classifyPage_None [of _ ref key amount currency, symmetric])
  qed
qed

text \<open>
  C24: A refund is submitted to Stripe exactly when a complete listing of the payment's refunds, of
  at most ten pages, shows none that carries this compensation's key: no failure, no
  malformed page and no unfinished listing ever licenses a second refund.
\<close>
theorem refund_submitted_only_when_absent:
  "resolveRefund api ref key amount currency = None \<longleftrightarrow>
   (\<exists>pages. listing api ref None pages \<and> length pages \<le> refundListPages \<and> list_all (list_all (foreign key)) pages)"
  unfolding resolveRefund_def by (rule resolvePages_None)

text \<open>
  Stripe's adapter reports a decline, the answer that releases a buyer's places, only when the
  creation of the payment itself was refused as a card error; after money may have been
  held it reports the outcome as unknown.
\<close>
theorem decline_is_a_card_error:
  assumes "rsOutcome (fst (stripeAuthorize api req)) = Declined"
  shows "saCreate api (auAmount req) (toLower (auCurrency req)) (auPaymentToken req) (auIdempotencyKey req) =
    StripeError ''card_error''"
proof (cases "saCreate api (auAmount req) (toLower (auCurrency req)) (auPaymentToken req) (auIdempotencyKey req)")
  case (StripeError kind)
  then show ?thesis using assms
    by (auto simp: stripeAuthorize_def classifyError_def unknownAnswer_def resultOf_def split: if_splits)
next
  case (Decoded pi)
  have m: "rsOutcome (fst (mapPIStatus p)) \<noteq> Declined" for p
    by (simp add: mapPIStatus_def settledIntent_def capturedResult_def noSideEffect_def resultOf_def)
  have "rsOutcome (fst (stripeCapture api (piID pi) (auAmount req) (auCurrency req))) \<noteq> Declined"
    using m by (auto simp: stripeCapture_def settledIntent_def capturedResult_def resultOf_def split: reply.splits)
  then show ?thesis using assms Decoded m
    by (auto simp: stripeAuthorize_def settledIntent_def capturedResult_def resultOf_def split: if_splits)
qed (use assms in \<open>simp_all add: stripeAuthorize_def unknownAnswer_def resultOf_def\<close>)

definition decliningStripe :: StripeAPI where
  "decliningStripe = \<lparr>saCreate = (\<lambda>amount currency token key. StripeError ''card_error''), saCapture = (\<lambda>ref amount. NoResponse),
     saCancel = (\<lambda>ref key. NoResponse), saIntent = (\<lambda>ref. NoResponse), saListRefunds = (\<lambda>ref after. NoResponse),
     saCreateRefund = (\<lambda>ref amount key. NoResponse), saRefund = (\<lambda>ref. NoResponse)\<rparr>"

theorem decline_is_a_card_error_witness:
  "rsOutcome (fst (stripeAuthorize decliningStripe \<lparr>auOrganizerID = ''o'', auOrderID = ''r'', auBuyerID = ''b'', auAmount = 500,
     auCurrency = ''EUR'', auPaymentToken = ''pm_1'', auIdempotencyKey = ''k''\<rparr>)) = Declined \<and>
   saCreate decliningStripe 500 (toLower ''EUR'') ''pm_1'' ''k'' = StripeError ''card_error''"
proof
  show d: "rsOutcome (fst (stripeAuthorize decliningStripe \<lparr>auOrganizerID = ''o'', auOrderID = ''r'', auBuyerID = ''b'', auAmount = 500,
     auCurrency = ''EUR'', auPaymentToken = ''pm_1'', auIdempotencyKey = ''k''\<rparr>)) = Declined"
    by (simp add: stripeAuthorize_def decliningStripe_def classifyError_def noSideEffect_def resultOf_def)
  show "saCreate decliningStripe 500 (toLower ''EUR'') ''pm_1'' ''k'' = StripeError ''card_error''"
    using decline_is_a_card_error [OF d] by simp
qed

text \<open>
  C25: Every answer the Stripe adapter gives without an error is well formed: its outcome is one of
  the seven the port names and its captured, authorized and no-side-effect flags are the
  ones of that outcome, whatever the API replied; what is left for \<open>Validate\<close> to refuse
  is the money.
\<close>
theorem stripe_answers_are_well_formed:
  assumes "(r, None) \<in> {pvAuthorize (Stripe api) req, pvVoid (Stripe api) ref key,
    pvRefund (Stripe api) ref key amount currency, pvStatus (Stripe api) sreq}"
  shows "consistent (rsOutcome r) (rsCaptured r) (rsAuthorized r) (rsTerminalNoSideEffect r) \<and>
    ValidateResult r = validateConfirmed r"
proof -
  have s: "shapely r"
    using assms stripe.authorize_shapely [of api req r] stripe.void_shapely [of api ref key r]
      stripe.refund_shapely [of api ref key amount currency r] stripe.status_shapely [of api sreq r]
    by (auto simp: eq_commute [of "(r, None)"])
  then show ?thesis
    by (auto simp: shapely_consistent [symmetric])
      (auto simp: shapely_def ValidateResult_def validateConfirmed_def Let_def split: option.splits Outcome.splits)
qed

theorem stripe_answers_are_well_formed_witness:
  "consistent Declined False False True \<and> ValidateResult (noSideEffect Declined) = validateConfirmed (noSideEffect Declined)"
proof -
  have "(noSideEffect Declined, None) \<in> {pvAuthorize (Stripe decliningStripe) \<lparr>auOrganizerID = ''o'', auOrderID = ''r'',
      auBuyerID = ''b'', auAmount = 500, auCurrency = ''EUR'', auPaymentToken = ''pm_1'', auIdempotencyKey = ''k''\<rparr>,
    pvVoid (Stripe decliningStripe) '''' '''', pvRefund (Stripe decliningStripe) '''' '''' 0 '''',
    pvStatus (Stripe decliningStripe) \<lparr>ruProviderRef = '''', ruIdempotencyKey = '''', ruAmount = 0, ruCurrency = '''', ruPaymentToken = ''''\<rparr>}"
    by (simp add: Stripe_def stripeAuthorize_def decliningStripe_def classifyError_def)
  from stripe_answers_are_well_formed [OF this] show ?thesis by (simp add: noSideEffect_def resultOf_def)
qed

end
