(* ===== verification/Payments_Api.thy ===== *)
theory Payments_Api
  imports Payments_Chain Payments_Refunds Payments_Provider
begin

text \<open>
  The handlers of the payments service, \<open>src/services/payments/internal/api\<close>: the fact and
  charge endpoints and the reads (\<open>server.go\<close>, \<open>refund_leg.go\<close>), status resolution and
  compensation (\<open>psp.go\<close>) and the partial refund (\<open>partial_refund.go\<close>). A handler is a
  function from the service's state to its answer and the state it leaves; \<open>ok\<close> says that the
  internal credential matched, a body that does not decode is \<open>None\<close>, and \<open>now i\<close> is the
  clock at its i-th statement. The provider is \<open>pePSP\<close>, \<open>uuid.NewSHA1\<close> in the OID name space
  is \<open>peSHA1\<close>.
\<close>

section \<open>State and answers\<close>

record PaymentsEnv =
  peJournal :: JournalEnv
  peRing :: Keyring
  peSHA1 :: "string \<Rightarrow> uuid"
  pePSP :: Provider
  peRetention :: time

record PaymentsState =
  pzJournal :: JournalDB
  pzTables :: PaymentsDB

datatype 'a http_reply =
    Failed int string
  | RefusedPay int pay_error
  | RefusedFact int refusal
  | ProviderRefundFailed string
  | Answered int 'a

fun isRefusal :: "pay_error \<Rightarrow> bool" where
  "isRefusal KeyReused = True"
| "isRefusal PlanReused = True"
| "isRefusal OperationInProgress = True"
| "isRefusal AmountMustBePositive = True"
| "isRefusal CapturedMoneyRequired = True"
| "isRefusal CaptureCurrencyDiffers = True"
| "isRefusal e = False"

definition refusedPay :: "int \<Rightarrow> pay_error \<Rightarrow> 'a http_reply" where
  "refusedPay code e = (if isRefusal e then RefusedPay code e else Failed 500 ''internal error'')"

definition refusedFact :: "int \<Rightarrow> journal_error \<Rightarrow> 'a http_reply" where
  "refusedFact code e = (case e of Refused r \<Rightarrow> RefusedFact code r | _ \<Rightarrow> Failed 500 ''internal error'')"

definition appendFact ::
  "PaymentsEnv \<Rightarrow> time \<Rightarrow> Fact \<Rightarrow> SettlementEntry list \<Rightarrow> PaymentsState \<Rightarrow>
   (journal_error + (Entry \<times> bool)) \<times> PaymentsState" where
  "appendFact env now f settlement st =
     (case AppendWithSettlement (peJournal env) (peRing env) now f settlement (pzJournal st) (pzJournal st) of
        (r, j) \<Rightarrow> (r, st\<lparr>pzJournal := j\<rparr>))"

definition onTables :: "(PaymentsDB \<Rightarrow> 'r \<times> PaymentsDB) \<Rightarrow> PaymentsState \<Rightarrow> 'r \<times> PaymentsState" where
  "onTables f st = (case f (pzTables st) of (r, t) \<Rightarrow> (r, st\<lparr>pzTables := t\<rparr>))"

definition keyRefused :: "string \<Rightarrow> bool" where
  "keyRefused key \<longleftrightarrow> key = '''' \<or> length key > 200"

definition paymentFactID :: "PaymentsEnv \<Rightarrow> uuid \<Rightarrow> string \<Rightarrow> string \<Rightarrow> uuid" where
  "paymentFactID env org key factType =
     peSHA1 env (''payment:'' @ uuid_String org @ '':'' @ key @ '':'' @ factType)"

definition paymentFact :: "uuid \<Rightarrow> uuid \<Rightarrow> string \<Rightarrow> time \<Rightarrow> uuid \<Rightarrow> int \<Rightarrow> string \<Rightarrow> uuid \<Rightarrow> Fact" where
  "paymentFact factID org factType occurredAt buyer amount currency order =
     \<lparr>faID = factID, faOrganizerID = org, faType = factType, faOccurredAt = occurredAt, faBuyerID = buyer,
      faAmount = amount, faCurrency = currency, faPayload = [(''order_id'', uuid_String order)]\<rparr>"

section \<open>Facts and reads\<close>

definition fact ::
  "PaymentsEnv \<Rightarrow> (nat \<Rightarrow> time) \<Rightarrow> bool \<Rightarrow> Fact option \<Rightarrow> PaymentsState \<Rightarrow>
   (int \<times> string \<times> bool) http_reply \<times> PaymentsState" where
  "fact env now ok body st =
     (if \<not> ok then (Failed 401 ''unauthorized'', st)
      else (case body of
          None \<Rightarrow> (Failed 400 ''invalid body'', st)
        | Some f \<Rightarrow>
            (case appendFact env (now 0) f [] st of
               (Inl e, st1) \<Rightarrow> (refusedFact 400 e, st1)
             | (Inr (e, replay), st1) \<Rightarrow> (Answered 200 (enSequence e, hexString (enEntryHash e), replay), st1))))"

definition statusReplayDeadline :: "Operation \<Rightarrow> time \<Rightarrow> time option" where
  "statusReplayDeadline op retention =
     (if retention \<le> 0 \<or> opResolved op \<or> opProviderPaymentRef op \<noteq> '''' then None
      else Some (opOccurredAt op + retention))"

record OperationReport =
  orResolved :: bool
  orOccurredAt :: time
  orDecided :: "(string \<times> uuid) option"
  orCaptured :: "(int \<times> string) option"
  orConfirmed :: "(int \<times> string) option"
  orReplayDeadline :: "time option"

definition operationReport :: "PaymentsEnv \<Rightarrow> Operation \<Rightarrow> OperationReport" where
  "operationReport env op =
     \<lparr>orResolved = opResolved op, orOccurredAt = opOccurredAt op,
      orDecided = (if opResolved op then Some (opStatus op, opFactID op) else None),
      orCaptured = (if opProviderState op = ''captured'' then Some (opCapturedAmount op, opRequestCurrency op) else None),
      orConfirmed = map_option (\<lambda>n. (n, opConfirmedCurrency op)) (opConfirmedCapturedAmount op),
      orReplayDeadline = statusReplayDeadline op (peRetention env)\<rparr>"

definition operation ::
  "PaymentsEnv \<Rightarrow> bool \<Rightarrow> string \<Rightarrow> string \<Rightarrow> PaymentsState \<Rightarrow> OperationReport http_reply" where
  "operation env ok organizer header st =
     (if \<not> ok then Failed 401 ''unauthorized''
      else (case jeParse (peJournal env) organizer of
          None \<Rightarrow> Failed 400 ''valid organizer_id required''
        | Some org \<Rightarrow>
            let key = TrimSpace header in
            if keyRefused key then Failed 400 ''idempotency_key required''
            else (case LookupOperation org key (pzTables st) of
                None \<Rightarrow> Failed 404 ''operation not found''
              | Some op \<Rightarrow> Answered 200 (operationReport env op))))"

record LegReport =
  leCompleted :: bool
  leAmount :: int
  leCurrency :: string
  leConfirmed :: "(int \<times> string) option"

definition refundLeg ::
  "PaymentsEnv \<Rightarrow> bool \<Rightarrow> string \<Rightarrow> string \<Rightarrow> string \<Rightarrow> PaymentsState \<Rightarrow> LegReport http_reply" where
  "refundLeg env ok organizer source refund st =
     (if \<not> ok then Failed 401 ''unauthorized''
      else (case jeParse (peJournal env) organizer of
          None \<Rightarrow> Failed 400 ''valid organizer_id required''
        | Some org \<Rightarrow>
            if keyRefused (TrimSpace source) then Failed 400 ''source_idempotency_key required''
            else if keyRefused (TrimSpace refund) then Failed 400 ''refund_idempotency_key required''
            else (case LookupRefundLeg org (TrimSpace source) (TrimSpace refund) (pzTables st) of
                None \<Rightarrow> Failed 404 ''refund leg not found''
              | Some leg \<Rightarrow> Answered 200
                  \<lparr>leCompleted = rlCompleted leg, leAmount = rlAmount leg, leCurrency = rlCurrency leg,
                   leConfirmed = map_option (\<lambda>n. (n, rlConfirmedCurrency leg)) (rlConfirmedAmount leg)\<rparr>)))"

section \<open>Charge\<close>

record chargeRequest =
  chOrderID :: uuid
  chOrganizerID :: uuid
  chBuyerID :: uuid
  chAmount :: int
  chCurrency :: string
  chPaymentToken :: string
  chSettlement :: "settlementPlanRequest option"

record ChargeAnswer =
  caStatus :: string
  caPaymentID :: uuid
  caSequence :: "int option"
  caReplay :: bool

definition chargeRefused :: "chargeRequest \<Rightarrow> bool" where
  "chargeRefused i \<longleftrightarrow>
     chOrderID i = uuid_Nil \<or> chOrganizerID i = uuid_Nil \<or> chBuyerID i = uuid_Nil \<or> chAmount i \<le> 0 \<or>
     chCurrency i \<notin> set SupportedCurrencies"

definition fingerprint :: "PaymentsEnv \<Rightarrow> chargeRequest \<Rightarrow> string" where
  "fingerprint env i =
     hexString (jeSha (peJournal env) (joinWith CHR 0x0A
       [uuid_String (chOrderID i), uuid_String (chBuyerID i), formatInt (chAmount i), chCurrency i, chPaymentToken i]))"

definition statusCode :: "string \<Rightarrow> int" where
  "statusCode status = (if status = ''timeout'' then 408 else if status = ''declined'' then 402 else 200)"

definition replayed :: "string \<Rightarrow> uuid \<Rightarrow> ChargeAnswer http_reply" where
  "replayed status factID =
     Answered (statusCode status) \<lparr>caStatus = status, caPaymentID = factID, caSequence = None, caReplay = True\<rparr>"

definition priorAnswer :: "string \<Rightarrow> Operation option \<Rightarrow> ChargeAnswer http_reply option" where
  "priorAnswer fp prior =
     (case prior of
        None \<Rightarrow> None
      | Some op \<Rightarrow>
          if opRequestFingerprint op \<noteq> fp
          then Some (Failed 409 ''idempotency key reused with different request'')
          else if opResolved op then Some (replayed (opStatus op) (opFactID op))
          else None)"

definition authorizeRequest :: "string \<Rightarrow> chargeRequest \<Rightarrow> AuthorizeRequest" where
  "authorizeRequest key i =
     \<lparr>auOrganizerID = uuid_String (chOrganizerID i), auOrderID = uuid_String (chOrderID i),
      auBuyerID = uuid_String (chBuyerID i), auAmount = chAmount i, auCurrency = chCurrency i,
      auPaymentToken = chPaymentToken i, auIdempotencyKey = key\<rparr>"

definition chargeFact :: "PaymentsEnv \<Rightarrow> string \<Rightarrow> chargeRequest \<Rightarrow> time \<Rightarrow> string \<Rightarrow> Fact" where
  "chargeFact env key i occurredAt factType =
     paymentFact (paymentFactID env (chOrganizerID i) key factType) (chOrganizerID i) factType occurredAt
       (chBuyerID i) (chAmount i) (chCurrency i) (chOrderID i)"

definition evidence :: "chargeRequest \<Rightarrow> Result \<Rightarrow> string \<Rightarrow> ProviderResult" where
  "evidence i result status =
     \<lparr>prPaymentRef = rsProviderRef result, prChargeRef = rsProviderChargeRef result, prState = status,
      prAuthorizedAmount = (if status = ''captured'' then chAmount i else 0),
      prCapturedAmount = (if status = ''captured'' then chAmount i else 0),
      prConfirmedCapturedAmount = (if status = ''captured'' then map_option cfAmount (rsConfirmed result) else None),
      prConfirmedCurrency =
        (if status = ''captured'' then (case rsConfirmed result of None \<Rightarrow> '''' | Some m \<Rightarrow> cfCurrency m) else '''')\<rparr>"

definition finishCharge ::
  "PaymentsEnv \<Rightarrow> (nat \<Rightarrow> time) \<Rightarrow> string \<Rightarrow> chargeRequest \<Rightarrow> SettlementEntry list \<Rightarrow> time \<Rightarrow> Result \<Rightarrow>
   string \<Rightarrow> string \<Rightarrow> PaymentsState \<Rightarrow> ChargeAnswer http_reply \<times> PaymentsState" where
  "finishCharge env now key i plan occurredAt result status factType st =
     (let f = chargeFact env key i occurredAt factType in
      case appendFact env (now 3) f (if factType = ''payment.captured'' then plan else []) st of
        (Inl e, st1) \<Rightarrow> (Failed 500 ''journal append failed'', st1)
      | (Inr (e, replay), st1) \<Rightarrow>
          (case onTables (CompleteOperation (now 4) (chOrganizerID i) key status (faID f) (evidence i result status)) st1 of
             (Inl x, st2) \<Rightarrow> (Failed 500 ''persist payment result'', st2)
           | (Inr x, st2) \<Rightarrow>
               (Answered (statusCode status)
                  \<lparr>caStatus = status, caPaymentID = faID f, caSequence = Some (enSequence e), caReplay = replay\<rparr>, st2)))"

definition driveCharge ::
  "PaymentsEnv \<Rightarrow> (nat \<Rightarrow> time) \<Rightarrow> string \<Rightarrow> chargeRequest \<Rightarrow> SettlementEntry list \<Rightarrow> time \<Rightarrow> PaymentsState \<Rightarrow>
   ChargeAnswer http_reply \<times> PaymentsState" where
  "driveCharge env now key i plan occurredAt st =
     (case pvAuthorize (pePSP env) (authorizeRequest key i) of
        (result, Some e) \<Rightarrow>
          (if e = ErrInvalidToken then Failed 400 ''invalid payment token'' else Failed 500 ''payment provider error'', st)
      | (result, None) \<Rightarrow>
          if ValidateResult result \<noteq> None then (Failed 500 ''invalid payment outcome'', st)
          else if rsOutcome result = Captured \<and> \<not> Agrees (rsConfirmed result) (chAmount i) (chCurrency i)
          then (Failed 502 ''provider confirmed a different amount than requested'', st)
          else (case rsOutcome result of
              Captured \<Rightarrow>
                (case appendFact env (now 2) (chargeFact env key i occurredAt ''payment.authorized'') [] st of
                   (Inl e, st1) \<Rightarrow> (Failed 500 ''journal append failed'', st1)
                 | (Inr e, st1) \<Rightarrow>
                     finishCharge env now key i plan occurredAt result ''captured'' ''payment.captured'' st1)
            | Declined \<Rightarrow> finishCharge env now key i plan occurredAt result ''declined'' ''payment.declined'' st
            | Timeout \<Rightarrow> finishCharge env now key i plan occurredAt result ''timeout'' ''payment.timeout'' st
            | _ \<Rightarrow> (Failed 500 ''unsupported payment outcome'', st)))"

definition operationRequest :: "PaymentsEnv \<Rightarrow> chargeRequest \<Rightarrow> SettlementEntry list \<Rightarrow> OperationRequest" where
  "operationRequest env i plan =
     \<lparr>oqOrderID = chOrderID i, oqBuyerID = chBuyerID i, oqAmount = chAmount i, oqCurrency = chCurrency i,
      oqPaymentMethodRef = chPaymentToken i,
      oqSettlementDigest = PlanDigest (\<lambda>s. hexString (jeSha (peJournal env) s)) plan\<rparr>"

definition charge ::
  "PaymentsEnv \<Rightarrow> (nat \<Rightarrow> time) \<Rightarrow> bool \<Rightarrow> string \<Rightarrow> chargeRequest option \<Rightarrow> PaymentsState \<Rightarrow>
   ChargeAnswer http_reply \<times> PaymentsState" where
  "charge env now ok header body st =
     (if \<not> ok then (Failed 401 ''unauthorized'', st)
      else
        let key = TrimSpace header in
        if keyRefused key then (Failed 400 ''Idempotency-Key required'', st)
        else (case body of
            None \<Rightarrow> (Failed 400 ''invalid body'', st)
          | Some i \<Rightarrow>
              if chargeRefused i then (Failed 400 ''invalid charge'', st)
              else
                let fp = fingerprint env i in
                (case priorAnswer fp (LookupOperation (chOrganizerID i) key (pzTables st)) of
                   Some a \<Rightarrow> (a, st)
                 | None \<Rightarrow>
                     (case chSettlement i of
                        None \<Rightarrow> (Failed 400 ''a charge must carry a settlement plan'', st)
                      | Some p \<Rightarrow>
                          (case BuildSettlementEntries (toStorePlan p) (chAmount i) of
                             Inl e \<Rightarrow> (Failed 500 ''settlement plan unusable'', st)
                           | Inr plan \<Rightarrow>
                               (case onTables (BindOperation (now 0) (now 1) (chOrganizerID i) key fp (operationRequest env i plan)) st of
                                  (Inl e, st1) \<Rightarrow> (refusedPay 409 e, st1)
                                | (Inr (status, factID, occurredAt, replay), st1) \<Rightarrow>
                                    if replay then (replayed status factID, st1)
                                    else driveCharge env now key i plan occurredAt st1))))))"

section \<open>Status resolution\<close>

record StatusBody =
  sbOutcome :: Outcome
  sbTerminalNoSideEffect :: bool
  sbCaptured :: bool
  sbAuthorized :: bool
  sbAuthorizedAmount :: int
  sbCapturedAmount :: int
  sbCurrency :: string
  sbConfirmedCaptured :: "(int \<times> string) option"
  sbConfirmedRefunded :: "(int \<times> string) option"

definition statusBody :: "Result \<Rightarrow> int \<Rightarrow> int \<Rightarrow> string \<Rightarrow> (int \<times> string) option \<Rightarrow> StatusBody" where
  "statusBody result authorized captured currency confirmed =
     \<lparr>sbOutcome = rsOutcome result, sbTerminalNoSideEffect = rsTerminalNoSideEffect result,
      sbCaptured = rsCaptured result, sbAuthorized = rsAuthorized result, sbAuthorizedAmount = authorized,
      sbCapturedAmount = captured, sbCurrency = currency,
      sbConfirmedCaptured = (if rsOutcome result = Refunded then None else confirmed),
      sbConfirmedRefunded = (if rsOutcome result = Refunded then confirmed else None)\<rparr>"

definition confirmedOperation :: "Operation \<Rightarrow> (int \<times> string) option" where
  "confirmedOperation op = map_option (\<lambda>n. (n, opConfirmedCurrency op)) (opConfirmedCapturedAmount op)"

definition confirmedCompensation :: "Compensation \<Rightarrow> (int \<times> string) option" where
  "confirmedCompensation c = map_option (\<lambda>n. (n, coConfirmedCurrency c)) (coConfirmedAmount c)"

definition resolvedResult :: "Operation \<Rightarrow> Result option" where
  "resolvedResult op =
     (if opStatus op = ''captured'' then Some (capturedResult None)
      else if opStatus op = ''declined'' then Some (noSideEffect Declined)
      else if opStatus op = ''timeout'' then Some (noSideEffect Timeout)
      else None)"

definition providerStateResult :: "Operation \<Rightarrow> Result option" where
  "providerStateResult op =
     (if opProviderState op = ''authorized'' then Some ((resultOf Authorized)\<lparr>rsAuthorized := True\<rparr>)
      else if opProviderState op = ''captured'' then Some (capturedResult None)
      else if opProviderState op = ''declined'' then Some (noSideEffect Declined)
      else if opProviderState op = ''timeout'' then Some (noSideEffect Timeout)
      else if opProviderState op = ''voided'' then Some (noSideEffect Voided)
      else None)"

definition operationParams :: "PaymentsEnv \<Rightarrow> string \<Rightarrow> string \<Rightarrow> (uuid \<times> string) + string" where
  "operationParams env organizer header =
     (case jeParse (peJournal env) organizer of
        None \<Rightarrow> Inr ''valid organizer_id required''
      | Some org \<Rightarrow>
          if keyRefused (TrimSpace header) then Inr ''idempotency_key required'' else Inl (org, TrimSpace header))"

text \<open>The state and the amounts an outcome proves for an operation of \<open>amount\<close>.\<close>

fun learnedState :: "Outcome \<Rightarrow> int \<Rightarrow> (string \<times> int \<times> int) option" where
  "learnedState Authorized amount = Some (''authorized'', amount, 0)"
| "learnedState Captured amount = Some (''captured'', amount, amount)"
| "learnedState Voided amount = Some (''voided'', 0, 0)"
| "learnedState Declined amount = Some (''declined'', 0, 0)"
| "learnedState Timeout amount = Some (''timeout'', 0, 0)"
| "learnedState o' amount = None"

definition learnedEvidence :: "Result \<Rightarrow> string \<Rightarrow> int \<Rightarrow> int \<Rightarrow> ProviderResult" where
  "learnedEvidence result state authorized captured =
     (let m = (if rsOutcome result = Captured then rsConfirmed result else None) in
      \<lparr>prPaymentRef = rsProviderRef result, prChargeRef = rsProviderChargeRef result, prState = state,
       prAuthorizedAmount = authorized, prCapturedAmount = captured, prConfirmedCapturedAmount = map_option cfAmount m,
       prConfirmedCurrency = (case m of None \<Rightarrow> '''' | Some x \<Rightarrow> cfCurrency x)\<rparr>)"

definition recordStatus ::
  "time \<Rightarrow> uuid \<Rightarrow> string \<Rightarrow> Operation \<Rightarrow> Result \<Rightarrow> PaymentsState \<Rightarrow> StatusBody http_reply \<times> PaymentsState" where
  "recordStatus now org key op result st =
     (case learnedState (rsOutcome result) (opRequestAmount op) of
        None \<Rightarrow> (Answered 200 (statusBody result 0 0 (opRequestCurrency op) None), st)
      | Some (state, authorized, captured) \<Rightarrow>
          let learned = learnedEvidence result state authorized captured in
          (case onTables (RecordProviderState now org key learned) st of
             (Inl e, st1) \<Rightarrow> (Failed 500 ''persist provider state'', st1)
           | (Inr recorded, st1) \<Rightarrow>
               if \<not> recorded then
                 (case LookupOperation org key (pzTables st1) of
                    None \<Rightarrow> (Failed 500 ''lookup operation'', st1)
                  | Some fresh \<Rightarrow>
                      (case providerStateResult fresh of
                         None \<Rightarrow> (Failed 500 ''provider evidence inconsistent'', st1)
                       | Some stored \<Rightarrow>
                           (Answered 200 (statusBody stored (opAuthorizedAmount fresh) (opCapturedAmount fresh)
                              (opRequestCurrency fresh) (confirmedOperation fresh)), st1)))
               else
                 (Answered 200 (statusBody result authorized captured (opRequestCurrency op)
                    (map_option (\<lambda>n. (n, prConfirmedCurrency learned)) (prConfirmedCapturedAmount learned))), st1)))"

definition resolveStatus ::
  "PaymentsEnv \<Rightarrow> time \<Rightarrow> uuid \<Rightarrow> string \<Rightarrow> Operation \<Rightarrow> PaymentsState \<Rightarrow> StatusBody http_reply \<times> PaymentsState" where
  "resolveStatus env now org key op st =
     (case pvStatus (pePSP env)
        \<lparr>ruProviderRef = opProviderPaymentRef op, ruIdempotencyKey = key, ruAmount = opRequestAmount op,
         ruCurrency = opRequestCurrency op, ruPaymentToken = opPaymentMethodRef op\<rparr> of
        (result, Some e) \<Rightarrow> (Failed 502 ''provider status unresolved'', st)
      | (result, None) \<Rightarrow>
          if ValidateResult result \<noteq> None then (Failed 500 ''invalid provider status'', st)
          else if rsOutcome result = Captured \<and>
            \<not> Agrees (rsConfirmed result) (opRequestAmount op) (opRequestCurrency op)
          then (Failed 502 ''provider confirmed a different amount than requested'', st)
          else recordStatus now org key op result st)"

definition decidedStatus ::
  "PaymentsEnv \<Rightarrow> (nat \<Rightarrow> time) \<Rightarrow> uuid \<Rightarrow> string \<Rightarrow> Operation \<Rightarrow> PaymentsState \<Rightarrow> StatusBody http_reply \<times> PaymentsState" where
  "decidedStatus env now org key op st =
     (case resolvedResult op of
        Some result \<Rightarrow>
          (Answered 200 (statusBody result (opAuthorizedAmount op) (opCapturedAmount op) (opRequestCurrency op)
             (confirmedOperation op)), st)
      | None \<Rightarrow>
          (case statusReplayDeadline op (peRetention env) of
             Some deadline \<Rightarrow>
               if now 0 > deadline
               then (Failed 409 ''status replay window expired; manual reconciliation required'', st)
               else resolveStatus env (now 1) org key op st
           | None \<Rightarrow> resolveStatus env (now 1) org key op st))"

definition afterRefund ::
  "PaymentsEnv \<Rightarrow> (nat \<Rightarrow> time) \<Rightarrow> uuid \<Rightarrow> string \<Rightarrow> Operation \<Rightarrow> PaymentsState \<Rightarrow> StatusBody http_reply \<times> PaymentsState" where
  "afterRefund env now org key op st =
     (case LookupCompensation org key ''void'' (pzTables st) of
        Some made \<Rightarrow> if coCompleted made
          then (Answered 200 (statusBody (noSideEffect Voided) 0 0 (opRequestCurrency op) None), st)
          else decidedStatus env now org key op st
      | None \<Rightarrow> decidedStatus env now org key op st)"

definition pspStatus ::
  "PaymentsEnv \<Rightarrow> (nat \<Rightarrow> time) \<Rightarrow> bool \<Rightarrow> string \<Rightarrow> string \<Rightarrow> PaymentsState \<Rightarrow> StatusBody http_reply \<times> PaymentsState" where
  "pspStatus env now ok organizer header st =
     (if \<not> ok then (Failed 401 ''unauthorized'', st)
      else (case operationParams env organizer header of
          Inr msg \<Rightarrow> (Failed 400 msg, st)
        | Inl (org, key) \<Rightarrow>
            (case LookupOperation org key (pzTables st) of
               None \<Rightarrow> (Failed 404 ''operation not found'', st)
             | Some op \<Rightarrow>
                 (case LookupCompensation org key ''refund'' (pzTables st) of
                    Some made \<Rightarrow> if coCompleted made
                      then (Answered 200 (statusBody (resultOf Refunded) 0 0 (opRequestCurrency op)
                             (confirmedCompensation made)), st)
                      else afterRefund env now org key op st
                  | None \<Rightarrow> afterRefund env now org key op st))))"

section \<open>Compensation\<close>

datatype compensation_refusal = NoEvidence | VoidNeedsHold | RefundNeedsCapture | UnknownKind

definition compensationAllowed :: "Operation \<Rightarrow> string \<Rightarrow> compensation_refusal option" where
  "compensationAllowed op kind =
     (if opOrderID op = uuid_Nil \<or> opBuyerID op = uuid_Nil \<or> opRequestCurrency op = '''' then Some NoEvidence
      else if kind = ''void'' then
        (if opProviderState op \<noteq> ''authorized'' \<or> opCapturedAmount op \<noteq> 0 \<or> opAuthorizedAmount op \<le> 0
         then Some VoidNeedsHold else None)
      else if kind = ''refund'' then
        (if opProviderState op \<noteq> ''captured'' \<or> opCapturedAmount op \<le> 0 then Some RefundNeedsCapture else None)
      else Some UnknownKind)"

definition refusalText :: "compensation_refusal \<Rightarrow> string" where
  "refusalText r = (case r of
     NoEvidence \<Rightarrow> ''operation carries no compensation evidence''
   | VoidNeedsHold \<Rightarrow> ''void requires an authorized, uncaptured operation''
   | RefundNeedsCapture \<Rightarrow> ''refund requires captured money''
   | UnknownKind \<Rightarrow> ''unknown compensation kind'')"

definition compensationBasis :: "Operation \<Rightarrow> string \<Rightarrow> int \<times> string" where
  "compensationBasis op kind =
     (if kind = ''void'' then (opAuthorizedAmount op, opRequestCurrency op)
      else (opCapturedAmount op, opRequestCurrency op))"

record CompensationAnswer =
  cnStatus :: string
  cnFactID :: uuid
  cnReplay :: bool

definition compensationReplay :: "Compensation \<Rightarrow> CompensationAnswer http_reply" where
  "compensationReplay c = Answered 200 \<lparr>cnStatus = coStatus c, cnFactID = coFactID c, cnReplay = True\<rparr>"

definition failedRefund422 :: "psp_error \<Rightarrow> string option" where
  "failedRefund422 e =
     (case e of RefundFailedError ref \<Rightarrow> if length ref > 3 \<and> take 3 ref = ''re_'' then Some ref else None | _ \<Rightarrow> None)"

text \<open>What the provider is asked, the outcome that proves it, and the status and fact that record it.\<close>

definition compensationCall :: "Provider \<Rightarrow> Operation \<Rightarrow> string \<Rightarrow> Compensation \<Rightarrow> int \<Rightarrow> string \<Rightarrow> answer" where
  "compensationCall p op kind made amount currency =
     (if kind = ''void'' then pvVoid p (opProviderPaymentRef op) (coProviderKey made)
      else if coProviderRef made \<noteq> '''' then
        pvStatus p \<lparr>ruProviderRef = coProviderRef made, ruIdempotencyKey = '''', ruAmount = 0, ruCurrency = '''', ruPaymentToken = ''''\<rparr>
      else pvRefund p (opProviderPaymentRef op) (coProviderKey made) amount currency)"

definition settleCompensation ::
  "PaymentsEnv \<Rightarrow> (nat \<Rightarrow> time) \<Rightarrow> uuid \<Rightarrow> string \<Rightarrow> string \<Rightarrow> Operation \<Rightarrow> Compensation \<Rightarrow> int \<Rightarrow> string \<Rightarrow> Result \<Rightarrow>
   PaymentsState \<Rightarrow> CompensationAnswer http_reply \<times> PaymentsState" where
  "settleCompensation env now org key kind op made amount currency result st =
     (let status = (if kind = ''void'' then ''voided'' else ''refunded'');
          factType = (if kind = ''void'' then ''payment.voided'' else ''payment.refunded'');
          factID = paymentFactID env org key factType;
          f = paymentFact factID org factType (coBoundAt made) (opBuyerID op) amount currency (opOrderID op);
          confirmed = (case rsConfirmed result of
              Some m \<Rightarrow> if kind = ''void'' then noRefund else \<lparr>crAmount = cfAmount m, crCurrency = cfCurrency m\<rparr>
            | None \<Rightarrow> noRefund) in
      case appendFact env (now 2) f [] st of
        (Inl e, st1) \<Rightarrow> (Failed 500 ''journal append failed'', st1)
      | (Inr e, st1) \<Rightarrow>
          (case onTables (CompleteCompensation (now 3) org key kind status (rsProviderRef result) factID confirmed) st1 of
             (Inl x, st2) \<Rightarrow> (Failed 500 ''persist compensation result'', st2)
           | (Inr x, st2) \<Rightarrow> (Answered 200 \<lparr>cnStatus = status, cnFactID = factID, cnReplay = False\<rparr>, st2)))"

definition driveCompensation ::
  "PaymentsEnv \<Rightarrow> (nat \<Rightarrow> time) \<Rightarrow> uuid \<Rightarrow> string \<Rightarrow> string \<Rightarrow> Operation \<Rightarrow> Compensation \<Rightarrow> int \<Rightarrow> string \<Rightarrow>
   PaymentsState \<Rightarrow> CompensationAnswer http_reply \<times> PaymentsState" where
  "driveCompensation env now org key kind op made amount currency st =
     (let want = (if kind = ''void'' then Voided else Refunded) in
      case compensationCall (pePSP env) op kind made amount currency of
        (result, Some e) \<Rightarrow>
          (case failedRefund422 e of
             Some ref \<Rightarrow> (ProviderRefundFailed ref, st)
           | None \<Rightarrow>
               if e = ErrRefundPending \<and> rsProviderRef result \<noteq> '''' \<and> coProviderRef made = '''' then
                 (case onTables (RecordCompensationProviderRef org key kind (rsProviderRef result)) st of
                    (Inl x, st1) \<Rightarrow> (Failed 500 ''persist compensation reference'', st1)
                  | (Inr x, st1) \<Rightarrow> (Failed 502 ''provider compensation unresolved'', st1))
               else (Failed 502 ''provider compensation unresolved'', st))
      | (result, None) \<Rightarrow>
          if ValidateResult result \<noteq> None then (Failed 500 ''invalid provider result'', st)
          else if rsOutcome result \<noteq> want then (Failed 502 ''provider compensation unresolved'', st)
          else if want = Refunded \<and> \<not> Agrees (rsConfirmed result) amount currency
          then (Failed 502 ''provider confirmed a different refund amount than requested'', st)
          else settleCompensation env now org key kind op made amount currency result st)"

definition bindAndDrive ::
  "PaymentsEnv \<Rightarrow> (nat \<Rightarrow> time) \<Rightarrow> uuid \<Rightarrow> string \<Rightarrow> string \<Rightarrow> Operation \<Rightarrow> int \<times> string \<Rightarrow> PaymentsState \<Rightarrow>
   CompensationAnswer http_reply \<times> PaymentsState" where
  "bindAndDrive env now org key kind op basis st =
     (case onTables (BindCompensation (peJournal env) (now 1) org key kind (fst basis) (snd basis)) st of
        (Inl e, st1) \<Rightarrow>
          (if e = ErrRefundLegsBound then Failed 409 ''partial refund legs exist for this operation''
           else Failed 500 ''bind compensation'', st1)
      | (Inr made, st1) \<Rightarrow>
          if coCompleted made then (compensationReplay made, st1)
          else driveCompensation env now org key kind op made (fst basis) (snd basis) st1)"

definition compensate ::
  "PaymentsEnv \<Rightarrow> (nat \<Rightarrow> time) \<Rightarrow> bool \<Rightarrow> (uuid \<times> string) option \<Rightarrow> string \<Rightarrow> PaymentsState \<Rightarrow>
   CompensationAnswer http_reply \<times> PaymentsState" where
  "compensate env now ok body kind st =
     (if \<not> ok then (Failed 401 ''unauthorized'', st)
      else (case body of
          None \<Rightarrow> (Failed 400 ''invalid body'', st)
        | Some (org, raw) \<Rightarrow>
            let key = TrimSpace raw in
            if org = uuid_Nil \<or> keyRefused key then (Failed 400 ''organizer_id and idempotency_key required'', st)
            else (case LookupOperation org key (pzTables st) of
                None \<Rightarrow> (Failed 404 ''operation not found'', st)
              | Some op \<Rightarrow>
                  (case LookupCompensation org key kind (pzTables st) of
                     Some existing \<Rightarrow>
                       if coCompleted existing then (compensationReplay existing, st)
                       else bindAndDrive env now org key kind op (coAmount existing, coCurrency existing) st
                   | None \<Rightarrow>
                       (case compensationAllowed op kind of
                          Some r \<Rightarrow> (Failed 409 (refusalText r), st)
                        | None \<Rightarrow> bindAndDrive env now org key kind op (compensationBasis op kind) st)))))"

definition pspVoid where "pspVoid env now ok body st = compensate env now ok body ''void'' st"
definition pspRefund where "pspRefund env now ok body st = compensate env now ok body ''refund'' st"

section \<open>Partial refund\<close>

record partialRefundRequest =
  pfOrganizerID :: uuid
  pfIdempotencyKey :: string
  pfRefundKey :: string
  pfAmount :: int
  pfCurrency :: string

record LegAnswer =
  laStatus :: string
  laFactID :: uuid
  laAmount :: int
  laCurrency :: string
  laReplay :: bool

definition refundLegFactID :: "PaymentsEnv \<Rightarrow> uuid \<Rightarrow> string \<Rightarrow> string \<Rightarrow> uuid" where
  "refundLegFactID env org sourceKey refundKey =
     peSHA1 env (''payment-leg:'' @ uuid_String org @ '':'' @ sourceKey @ '':'' @ refundKey)"

definition settleLeg ::
  "PaymentsEnv \<Rightarrow> (nat \<Rightarrow> time) \<Rightarrow> uuid \<Rightarrow> string \<Rightarrow> string \<Rightarrow> Operation \<Rightarrow> RefundLeg \<Rightarrow> Result \<Rightarrow> ConfirmedMoney \<Rightarrow>
   PaymentsState \<Rightarrow> LegAnswer http_reply \<times> PaymentsState" where
  "settleLeg env now org key refundKey op leg result m st =
     (let factID = refundLegFactID env org key refundKey;
          f = paymentFact factID org ''payment.refunded'' (rlBoundAt leg) (opBuyerID op) (rlAmount leg) (rlCurrency leg)
                (opOrderID op) in
      case appendFact env (now 1) f [] st of
        (Inl e, st1) \<Rightarrow> (Failed 500 ''journal append failed'', st1)
      | (Inr e, st1) \<Rightarrow>
          (case onTables (CompleteRefundLeg (now 2) org key refundKey (rsProviderRef result) factID
                 \<lparr>crAmount = cfAmount m, crCurrency = cfCurrency m\<rparr>) st1 of
             (Inl x, st2) \<Rightarrow> (Failed 500 ''persist refund leg result'', st2)
           | (Inr x, st2) \<Rightarrow>
               (Answered 200 \<lparr>laStatus = ''refunded'', laFactID = factID, laAmount = rlAmount leg,
                  laCurrency = rlCurrency leg, laReplay = False\<rparr>, st2)))"

definition driveLeg ::
  "PaymentsEnv \<Rightarrow> (nat \<Rightarrow> time) \<Rightarrow> uuid \<Rightarrow> string \<Rightarrow> string \<Rightarrow> Operation \<Rightarrow> RefundLeg \<Rightarrow> PaymentsState \<Rightarrow>
   LegAnswer http_reply \<times> PaymentsState" where
  "driveLeg env now org key refundKey op leg st =
     (case pvRefund (pePSP env) (opProviderPaymentRef op) (rlProviderKey leg) (rlAmount leg) (rlCurrency leg) of
        (result, Some e) \<Rightarrow>
          (case failedRefund422 e of
             Some ref \<Rightarrow> (ProviderRefundFailed ref, st)
           | None \<Rightarrow> (Failed 502 ''provider refund unresolved'', st))
      | (result, None) \<Rightarrow>
          if ValidateResult result \<noteq> None then (Failed 500 ''invalid provider result'', st)
          else if rsOutcome result \<noteq> Refunded then (Failed 502 ''provider refund unresolved'', st)
          else if \<not> Agrees (rsConfirmed result) (rlAmount leg) (rlCurrency leg)
          then (Failed 502 ''provider confirmed a different refund amount than requested'', st)
          else (case rsConfirmed result of
              None \<Rightarrow> (Failed 500 ''internal error'', st)
            | Some m \<Rightarrow> settleLeg env now org key refundKey op leg result m st))"

definition partialRefundRefused :: "partialRefundRequest \<Rightarrow> bool" where
  "partialRefundRefused i \<longleftrightarrow>
     pfOrganizerID i = uuid_Nil \<or> keyRefused (TrimSpace (pfIdempotencyKey i)) \<or> keyRefused (TrimSpace (pfRefundKey i)) \<or>
     pfAmount i \<le> 0 \<or> length (pfCurrency i) \<noteq> 3"

definition pspPartialRefund ::
  "PaymentsEnv \<Rightarrow> (nat \<Rightarrow> time) \<Rightarrow> bool \<Rightarrow> partialRefundRequest option \<Rightarrow> PaymentsState \<Rightarrow>
   LegAnswer http_reply \<times> PaymentsState" where
  "pspPartialRefund env now ok body st =
     (if \<not> ok then (Failed 401 ''unauthorized'', st)
      else (case body of
          None \<Rightarrow> (Failed 400 ''invalid body'', st)
        | Some i \<Rightarrow>
            if partialRefundRefused i
            then (Failed 400 ''organizer_id, idempotency_key, refund_key, positive amount and currency required'', st)
            else
              let org = pfOrganizerID i; key = TrimSpace (pfIdempotencyKey i); refundKey = TrimSpace (pfRefundKey i) in
              (case LookupOperation org key (pzTables st) of
                 None \<Rightarrow> (Failed 404 ''operation not found'', st)
               | Some op \<Rightarrow>
                   (case onTables (BindRefundLeg (peJournal env) (now 0) org key refundKey (pfAmount i) (pfCurrency i)) st of
                      (Inl e, st1) \<Rightarrow>
                        (if e = PayNoRows then Failed 404 ''operation not found''
                         else if e = ErrRefundExceedsCapture then Failed 409 ''refund legs would exceed the captured amount''
                         else if e = ErrWholeRefundBound then Failed 409 ''a whole refund is already bound for this operation''
                         else refusedPay 409 e, st1)
                    | (Inr leg, st1) \<Rightarrow>
                        if rlCompleted leg then
                          (Answered 200 \<lparr>laStatus = rlStatus leg, laFactID = rlFactID leg, laAmount = rlAmount leg,
                             laCurrency = rlCurrency leg, laReplay = True\<rparr>, st1)
                        else driveLeg env now org key refundKey op leg st1))))"

section \<open>Settlement report\<close>

definition pathTail :: "string \<Rightarrow> string \<Rightarrow> string \<Rightarrow> string" where
  "pathTail path prefix suffix =
     (if length path \<le> length prefix + length suffix then ''''
      else if take (length prefix) path \<noteq> prefix \<or> drop (length path - length suffix) path \<noteq> suffix then ''''
      else take (length path - length suffix - length prefix) (drop (length prefix) path))"

record SettlementReport =
  seOrderID :: uuid
  seReportCurrency :: string
  seTotal :: int
  seEntries :: "LedgerLine list"

definition getOrderSettlement ::
  "(string \<Rightarrow> 'k :: linorder) \<Rightarrow> PaymentsEnv \<Rightarrow> bool \<Rightarrow> string \<Rightarrow> string \<Rightarrow> PaymentsState \<Rightarrow>
   SettlementReport http_reply" where
  "getOrderSettlement collate env ok path organizer st =
     (if \<not> ok then Failed 401 ''unauthorized''
      else (case jeParse (peJournal env) (pathTail path ''/internal/orders/'' ''/settlement'') of
          None \<Rightarrow> Failed 404 ''not found''
        | Some orderID \<Rightarrow>
            (case jeParse (peJournal env) organizer of
               None \<Rightarrow> Failed 400 ''organizer_id required''
             | Some org \<Rightarrow>
                 (case ReadOrderSettlement collate (jdSettlement (pzJournal st)) org orderID of
                    (lines, tot, currency) \<Rightarrow>
                      if lines = [] then Failed 404 ''not found''
                      else Answered 200
                        \<lparr>seOrderID = orderID, seReportCurrency = currency, seTotal = tot, seEntries = lines\<rparr>))))"

end
