(* ===== verification/Payments_Service.thy ===== *)
theory Payments_Service
  imports Payments_Api
begin

text \<open>
  What the handlers of \<open>Payments_Api\<close> do to the service as a whole: every one of them is a
  sequence of the transactions of \<open>Payments_Refunds\<close> and of appends, so what those keep is
  kept by every history of requests; what a charge answers is in the tables and in the
  journal; and no money is journalled that the provider did not confirm.
\<close>

section \<open>Handlers as transactions\<close>

definition reaches :: "PaymentsEnv \<Rightarrow> PaymentsState \<Rightarrow> PaymentsState \<Rightarrow> bool" where
  "reaches env st st' \<longleftrightarrow>
     (\<exists>steps. pzTables st' = fold (payStep (peJournal env)) steps (pzTables st)) \<and>
     (\<exists>calls. pzJournal st' = fold (appendStep (peJournal env)) calls (pzJournal st) \<and>
        list_all (\<lambda>c. apRing c = peRing env) calls)"

lemma reaches_refl [simp]: "reaches env st st"
  unfolding reaches_def by (intro conjI exI [of _ "[]"]) simp_all

lemma reaches_trans: "reaches env a b \<Longrightarrow> reaches env b c \<Longrightarrow> reaches env a c"
proof -
  assume "reaches env a b" "reaches env b c"
  then obtain ss cs ts ds where
    "pzTables b = fold (payStep (peJournal env)) ss (pzTables a)" "pzTables c = fold (payStep (peJournal env)) ts (pzTables b)"
    "pzJournal b = fold (appendStep (peJournal env)) cs (pzJournal a)"
    "pzJournal c = fold (appendStep (peJournal env)) ds (pzJournal b)"
    "list_all (\<lambda>c. apRing c = peRing env) cs" "list_all (\<lambda>c. apRing c = peRing env) ds"
    unfolding reaches_def by blast
  then have "pzTables c = fold (payStep (peJournal env)) (ss @ ts) (pzTables a)"
    "pzJournal c = fold (appendStep (peJournal env)) (cs @ ds) (pzJournal a)"
    "list_all (\<lambda>c. apRing c = peRing env) (cs @ ds)" by simp_all
  then show ?thesis unfolding reaches_def by blast
qed

lemma appendFact_reaches: "appendFact env now f settlement st = (r, st') \<Longrightarrow> reaches env st st'"
proof -
  assume a: "appendFact env now f settlement st = (r, st')"
  let ?c = "\<lparr>apRing = peRing env, apNow = now, apFact = f, apSettlement = settlement, apSeen = pzJournal st\<rparr>"
  have "pzTables st' = pzTables st" "pzJournal st' = appendStep (peJournal env) ?c (pzJournal st)"
    using a by (auto simp: appendFact_def appendStep_def split: prod.splits)
  then show ?thesis unfolding reaches_def
    by (intro conjI exI [of _ "[]"] exI [of _ "[?c]"]) simp_all
qed

lemma onTables_reaches:
  assumes "onTables f st = (r, st')" and "\<exists>steps. snd (f (pzTables st)) = fold (payStep (peJournal env)) steps (pzTables st)"
  shows "reaches env st st'"
proof -
  have "pzTables st' = snd (f (pzTables st))" "pzJournal st' = pzJournal st"
    using assms(1) by (auto simp: onTables_def split: prod.splits)
  then show ?thesis using assms(2) unfolding reaches_def by (auto intro: exI [of _ "[]"])
qed

lemma one_step: "snd (f db) = payStep env s db \<Longrightarrow> \<exists>steps. snd (f db) = fold (payStep env) steps db"
  by (rule exI [of _ "[s]"]) simp

lemma BindOperation_steps:
  "\<exists>steps. snd (BindOperation now later org key fp req db) = fold (payStep env) steps db"
proof (cases "insertOperation now org key fp req db")
  case (Inl e)
  then show ?thesis by (intro exI [of _ "[]"]) (simp add: BindOperation_def)
next
  case (Inr p)
  obtain ins db1 where p: "p = (ins, db1)" by (cases p)
  have one: "fold (payStep env) [InsertOp now org key fp req] db = db1" using Inr p by (simp add: committed_def)
  show ?thesis
  proof (cases "snd (BindOperation now later org key fp req db) = db1")
    case True
    then show ?thesis using one by metis
  next
    case False
    then obtain n db2 where t: "takeLease later org key (oqSettlementDigest req) db1 = Inr (n, db2)"
      "snd (BindOperation now later org key fp req db) = db2"
      using Inr p by (auto simp: BindOperation_def split: option.splits sum.splits if_splits)
    then have "snd (BindOperation now later org key fp req db) =
        fold (payStep env) [InsertOp now org key fp req, TakeLease later org key (oqSettlementDigest req)] db"
      using one by (simp add: committed_def)
    then show ?thesis by blast
  qed
qed

lemma finishCharge_reaches: "finishCharge env now key i plan occurredAt result status factType st = (a, st') \<Longrightarrow> reaches env st st'"
proof -
  let ?f = "chargeFact env key i occurredAt factType"
  let ?pl = "if factType = ''payment.captured'' then plan else []"
  assume h: "finishCharge env now key i plan occurredAt result status factType st = (a, st')"
  obtain r st1 where app: "appendFact env (now 3) ?f ?pl st = (r, st1)" by (cases "appendFact env (now 3) ?f ?pl st")
  have r1: "reaches env st st1" by (rule appendFact_reaches [OF app])
  let ?done = "onTables (CompleteOperation (now 4) (chOrganizerID i) key status (faID ?f) (evidence i result status)) st1"
  obtain x st2 where d: "?done = (x, st2)" by (cases ?done)
  have "reaches env st1 st2"
    by (rule onTables_reaches [OF d])
      (rule one_step [where s = "CompleteOp (now 4) (chOrganizerID i) key status (faID ?f) (evidence i result status)"], simp)
  moreover have "st' = st1 \<or> st' = st2" using h app d by (auto simp: finishCharge_def Let_def split: sum.splits)
  ultimately show ?thesis using r1 reaches_trans by blast
qed

lemma driveCharge_reaches: "driveCharge env now key i plan occurredAt st = (a, st') \<Longrightarrow> reaches env st st'"
proof -
  assume h: "driveCharge env now key i plan occurredAt st = (a, st')"
  let ?f = "chargeFact env key i occurredAt ''payment.authorized''"
  obtain r st1 where app: "appendFact env (now 2) ?f [] st = (r, st1)" by (cases "appendFact env (now 2) ?f [] st")
  have "reaches env st st1" by (rule appendFact_reaches [OF app])
  then show ?thesis using h app
    by (auto simp: driveCharge_def split: prod.splits option.splits if_splits Outcome.splits sum.splits
        intro: finishCharge_reaches reaches_trans)
qed

abbreviation bindCharge where
  "bindCharge env now key i plan st \<equiv>
     onTables (BindOperation (now 0) (now 1) (chOrganizerID i) key (fingerprint env i) (operationRequest env i plan)) st"

text \<open>A charge that touches anything has bound its operation on a ledger that settles its amount.\<close>

lemma charge_cases:
  assumes "charge env now ok header body st = (a, st')"
  obtains (unbound) "st' = st"
  | (bound) i p plan r st1 where "body = Some i" and "\<not> chargeRefused i" and "chSettlement i = Some p"
      and "priorAnswer (fingerprint env i) (LookupOperation (chOrganizerID i) (TrimSpace header) (pzTables st)) = None"
      and "BuildSettlementEntries (toStorePlan p) (chAmount i) = Inr plan"
      and "bindCharge env now (TrimSpace header) i plan st = (r, st1)"
      and "(a, st') = (case r of Inl e \<Rightarrow> (refusedPay 409 e, st1)
        | Inr (status, factID, occurredAt, replay) \<Rightarrow>
            if replay then (replayed status factID, st1)
            else driveCharge env now (TrimSpace header) i plan occurredAt st1)"
proof (cases "ok \<and> \<not> keyRefused (TrimSpace header)")
  case True
  show ?thesis
  proof (cases body)
    case None
    then show ?thesis using assms True by (intro unbound) (simp add: charge_def Let_def)
  next
    case (Some i)
    let ?prior = "priorAnswer (fingerprint env i) (LookupOperation (chOrganizerID i) (TrimSpace header) (pzTables st))"
    show ?thesis
    proof (cases "chargeRefused i \<or> ?prior \<noteq> None \<or> chSettlement i = None")
      case True
      then show ?thesis using assms Some \<open>ok \<and> _\<close> by (intro unbound) (auto simp: charge_def Let_def split: if_splits option.splits)
    next
      case False
      then obtain p where p: "chSettlement i = Some p" by blast
      show ?thesis
      proof (cases "BuildSettlementEntries (toStorePlan p) (chAmount i)")
        case (Inl e)
        then show ?thesis using assms Some False p \<open>ok \<and> _\<close> by (intro unbound) (auto simp: charge_def Let_def)
      next
        case (Inr plan)
        obtain r st1 where b: "bindCharge env now (TrimSpace header) i plan st = (r, st1)" by fastforce
        show ?thesis
          by (rule bound [OF Some _ p _ Inr b]) (use assms Some False p Inr b \<open>ok \<and> _\<close> in \<open>simp_all add: charge_def Let_def\<close>)
      qed
    qed
  qed
qed (use assms in \<open>auto intro!: unbound simp: charge_def Let_def split: if_splits\<close>)

lemma charge_reaches: "charge env now ok header body st = (a, st') \<Longrightarrow> reaches env st st'"
proof (cases rule: charge_cases [of env now ok header body st a st', case_names charged unbound bound])
  case (bound i p plan r st1)
  have "reaches env st st1" by (rule onTables_reaches [OF bound(6) BindOperation_steps])
  moreover have "reaches env st1 st'"
    using bound(7) by (auto split: sum.splits prod.splits if_splits intro: driveCharge_reaches [OF sym])
  ultimately show ?thesis by (rule reaches_trans)
qed simp_all

lemma recordStatus_reaches: "recordStatus now org key op result st = (a, st') \<Longrightarrow> reaches env st st'"
proof -
  assume h: "recordStatus now org key op result st = (a, st')"
  show ?thesis
  proof (cases "st' = st")
    case False
    then obtain l r st1 where b: "onTables (RecordProviderState now org key l) st = (r, st1)" "st' = st1"
      using h by (auto simp: recordStatus_def Let_def split: option.splits prod.splits sum.splits if_splits)
    have "\<exists>steps. snd (RecordProviderState now org key l (pzTables st)) = fold (payStep (peJournal env)) steps (pzTables st)"
      by (rule one_step [where s = "RecordState now org key l"]) simp
    then show ?thesis using onTables_reaches [OF b(1)] b(2) by simp
  qed simp
qed

lemma pspStatus_reaches: "pspStatus env now ok organizer header st = (a, st') \<Longrightarrow> reaches env st st'"
proof -
  have resolve: "resolveStatus env t org key op st = (a, st') \<Longrightarrow> reaches env st st'" for t org key op
    by (auto simp: resolveStatus_def split: prod.splits option.splits if_splits intro: recordStatus_reaches)
  have decided: "decidedStatus env now org key op st = (a, st') \<Longrightarrow> reaches env st st'" for org key op
    by (auto simp: decidedStatus_def split: option.splits if_splits intro: resolve)
  have after: "afterRefund env now org key op st = (a, st') \<Longrightarrow> reaches env st st'" for org key op
    by (auto simp: afterRefund_def split: option.splits if_splits intro: decided)
  show "pspStatus env now ok organizer header st = (a, st') \<Longrightarrow> reaches env st st'"
    by (auto simp: pspStatus_def split: if_splits sum.splits prod.splits option.splits intro: after)
qed

lemma settleCompensation_reaches:
  "settleCompensation env now org key kind op made amount currency result st = (a, st') \<Longrightarrow> reaches env st st'"
proof -
  assume h: "settleCompensation env now org key kind op made amount currency result st = (a, st')"
  show ?thesis
  proof (cases "st' = st")
    case False
    then obtain f r st1 where app: "appendFact env (now 2) f [] st = (r, st1)" and
      rest: "st' = st1 \<or> (\<exists>x status ref fid confirmed.
        onTables (CompleteCompensation (now 3) org key kind status ref fid confirmed) st1 = (x, st'))"
      using h unfolding settleCompensation_def Let_def
      by (auto split: prod.splits sum.splits) blast+
    have r1: "reaches env st st1" by (rule appendFact_reaches [OF app])
    have "reaches env st1 st'" if "onTables (CompleteCompensation (now 3) org key kind status ref fid confirmed) st1 = (x, st')"
      for x status ref fid confirmed
      by (rule onTables_reaches [OF that])
        (rule one_step [where s = "CompleteComp (now 3) org key kind status ref fid confirmed"], simp)
    then show ?thesis using r1 rest reaches_trans by blast
  qed simp
qed

lemma driveCompensation_reaches:
  "driveCompensation env now org key kind op made amount currency st = (a, st') \<Longrightarrow> reaches env st st'"
proof -
  assume h: "driveCompensation env now org key kind op made amount currency st = (a, st')"
  have ref: "reaches env st st1" if "onTables (RecordCompensationProviderRef org key kind t) st = (x, st1)" for t x st1
    by (rule onTables_reaches [OF that]) (rule one_step [where s = "RecordRef org key kind t"], simp)
  show ?thesis using h
    by (auto simp: driveCompensation_def Let_def split: prod.splits option.splits sum.splits if_splits
        intro: ref settleCompensation_reaches)
qed

lemma bindAndDrive_reaches: "bindAndDrive env now org key kind op basis st = (a, st') \<Longrightarrow> reaches env st st'"
proof -
  assume h: "bindAndDrive env now org key kind op basis st = (a, st')"
  let ?b = "onTables (BindCompensation (peJournal env) (now 1) org key kind (fst basis) (snd basis)) st"
  obtain r st1 where b: "?b = (r, st1)" by (cases ?b)
  have "reaches env st st1"
    by (rule onTables_reaches [OF b])
      (rule one_step [where s = "BindComp (now 1) org key kind (fst basis) (snd basis)"], simp)
  then show ?thesis using h b
    by (auto simp: bindAndDrive_def split: sum.splits if_splits intro: driveCompensation_reaches reaches_trans)
qed

lemma compensate_reaches: "compensate env now ok body kind st = (a, st') \<Longrightarrow> reaches env st st'"
  by (auto simp: compensate_def Let_def split: if_splits option.splits prod.splits intro: bindAndDrive_reaches)

lemma settleLeg_reaches: "settleLeg env now org key refundKey op leg result m st = (a, st') \<Longrightarrow> reaches env st st'"
proof -
  let ?fid = "refundLegFactID env org key refundKey"
  let ?f = "paymentFact ?fid org ''payment.refunded'' (rlBoundAt leg) (opBuyerID op) (rlAmount leg) (rlCurrency leg) (opOrderID op)"
  assume h: "settleLeg env now org key refundKey op leg result m st = (a, st')"
  obtain r st1 where app: "appendFact env (now 1) ?f [] st = (r, st1)" by (cases "appendFact env (now 1) ?f [] st")
  have r1: "reaches env st st1" by (rule appendFact_reaches [OF app])
  let ?c = "\<lparr>crAmount = cfAmount m, crCurrency = cfCurrency m\<rparr>"
  obtain x st2 where d: "onTables (CompleteRefundLeg (now 2) org key refundKey (rsProviderRef result) ?fid ?c) st1 = (x, st2)"
    by (cases "onTables (CompleteRefundLeg (now 2) org key refundKey (rsProviderRef result) ?fid ?c) st1")
  have "reaches env st1 st2"
    by (rule onTables_reaches [OF d])
      (rule one_step [where s = "CompleteLeg (now 2) org key refundKey (rsProviderRef result) ?fid ?c"], simp)
  moreover have "st' = st1 \<or> st' = st2" using h app d by (auto simp: settleLeg_def Let_def split: sum.splits)
  ultimately show ?thesis using r1 reaches_trans by blast
qed

lemma driveLeg_reaches: "driveLeg env now org key refundKey op leg st = (a, st') \<Longrightarrow> reaches env st st'"
  by (auto simp: driveLeg_def split: prod.splits option.splits if_splits intro: settleLeg_reaches)

lemma partialRefund_reaches: "pspPartialRefund env now ok body st = (a, st') \<Longrightarrow> reaches env st st'"
proof -
  assume h: "pspPartialRefund env now ok body st = (a, st')"
  have bind: "reaches env st st1" if "onTables (BindRefundLeg (peJournal env) t org key rk amount currency) st = (r, st1)"
    for t org key rk amount currency r st1
    by (rule onTables_reaches [OF that]) (rule one_step [where s = "BindLeg t org key rk amount currency"], simp)
  show ?thesis using h
    by (auto simp: pspPartialRefund_def Let_def split: if_splits option.splits prod.splits sum.splits
        intro: bind reaches_trans [OF bind driveLeg_reaches])
qed

lemma fact_reaches: "fact env now ok body st = (a, st') \<Longrightarrow> reaches env st st'"
  by (auto simp: fact_def split: if_splits option.splits prod.splits sum.splits intro: appendFact_reaches)

section \<open>Histories of requests\<close>

datatype api_call =
    CallFact "Fact option"
  | CallCharge string "chargeRequest option"
  | CallStatus string string
  | CallCompensate string "(uuid \<times> string) option"
  | CallPartialRefund "partialRefundRequest option"

record ApiRequest =
  arEnv :: PaymentsEnv
  arNow :: "nat \<Rightarrow> time"
  arAuthorized :: bool
  arCall :: api_call

definition apiStep :: "ApiRequest \<Rightarrow> PaymentsState \<Rightarrow> PaymentsState" where
  "apiStep q st =
     (case arCall q of
        CallFact body \<Rightarrow> snd (fact (arEnv q) (arNow q) (arAuthorized q) body st)
      | CallCharge header body \<Rightarrow> snd (charge (arEnv q) (arNow q) (arAuthorized q) header body st)
      | CallStatus organizer header \<Rightarrow> snd (pspStatus (arEnv q) (arNow q) (arAuthorized q) organizer header st)
      | CallCompensate kind body \<Rightarrow> snd (compensate (arEnv q) (arNow q) (arAuthorized q) body kind st)
      | CallPartialRefund body \<Rightarrow> snd (pspPartialRefund (arEnv q) (arNow q) (arAuthorized q) body st))"

definition emptyService :: PaymentsState where
  "emptyService = \<lparr>pzJournal = emptyJournal, pzTables = noPayments\<rparr>"

lemma apiStep_reaches: "reaches (arEnv q) st (apiStep q st)"
  by (cases "arCall q")
    (auto simp: apiStep_def intro: fact_reaches charge_reaches pspStatus_reaches compensate_reaches partialRefund_reaches
      surjective_pairing)

text \<open>One hash, one clock format; a ring that still holds every key a request signed with.\<close>

definition apiOk :: "JournalEnv \<Rightarrow> Keyring \<Rightarrow> ApiRequest \<Rightarrow> bool" where
  "apiOk je later q \<longleftrightarrow> peJournal (arEnv q) = je \<and> keyKept later (peRing (arEnv q))"

definition serviceGood :: "JournalEnv \<Rightarrow> Keyring \<Rightarrow> PaymentsState \<Rightarrow> bool" where
  "serviceGood je later st \<longleftrightarrow> journalGood je later (pzJournal st) \<and> distinct (operationKeys (pzTables st))"

definition serviceEvolves :: "PaymentsState \<Rightarrow> PaymentsState \<Rightarrow> bool" where
  "serviceEvolves st st' \<longleftrightarrow>
     tablesEvolve (pzTables st) (pzTables st') \<and> (\<exists>new. jdEntries (pzJournal st') = jdEntries (pzJournal st) @ new)"

lemma reaches_evolves: "reaches env st st' \<Longrightarrow> serviceEvolves st st'"
  unfolding reaches_def serviceEvolves_def using history_evolves run_extends by metis

lemma reaches_good:
  assumes "reaches env st st'" and "serviceGood (peJournal env) later st" and "keyKept later (peRing env)"
  shows "serviceGood (peJournal env) later st'"
proof -
  obtain ss cs where s: "pzTables st' = fold (payStep (peJournal env)) ss (pzTables st)"
    "pzJournal st' = fold (appendStep (peJournal env)) cs (pzJournal st)" "list_all (\<lambda>c. apRing c = peRing env) cs"
    using assms(1) unfolding reaches_def by blast
  have "list_all (\<lambda>c. keyKept later (apRing c)) cs" using s(3) assms(3) by (simp add: list_all_iff)
  from run_journal [OF this] run_keys [of "pzTables st"] show ?thesis
    using assms(2) s(1,2) by (simp add: serviceGood_def)
qed

interpretation service: timed_evolution apiStep "\<lambda>q. 0" "apiOk je later" "\<lambda>t. serviceGood je later" serviceEvolves
  for je later
proof unfold_locales
  fix q st assume q: "apiOk je later q"
  {
    fix t :: int assume "serviceGood je later st"
    then show "serviceGood je later (apiStep q st)"
      using reaches_good [OF apiStep_reaches [of q st]] q by (auto simp: apiOk_def)
  }
  show "serviceEvolves st (apiStep q st)" by (rule reaches_evolves [OF apiStep_reaches])
next
  fix a b c assume "serviceEvolves a b" "serviceEvolves b c"
  then show "serviceEvolves a c" by (auto simp: serviceEvolves_def intro: tablesEvolve_trans)
qed (auto simp: serviceEvolves_def)

lemma empty_service: "serviceGood je later emptyService"
  by (simp add: serviceGood_def emptyService_def empty_good operationKeys_def noPayments_def)

lemma ordered_requests: "ordered (\<lambda>q. 0) ok 0 qs \<longleftrightarrow> list_all ok qs"
  by (induction qs) auto

text \<open>
  C8: After any history of requests to the payments service, charges, status resolutions,
  compensations, partial refunds and facts, with whatever answers of the provider, the
  journal verifies; and what a part of the history recorded, entries, request data, decided
  outcomes and completed refunds, the rest of it leaves as it was.
\<close>
theorem every_history_keeps_the_books:
  assumes "list_all (apiOk je later) (qs @ rs)"
  shows "Verify je later (pzJournal (fold apiStep (qs @ rs) emptyService)) = None \<and>
    serviceEvolves (fold apiStep qs emptyService) (fold apiStep (qs @ rs) emptyService)"
proof
  have "serviceGood je later (fold apiStep (qs @ rs) emptyService)"
    using service.run_good [of je later 0 "qs @ rs" emptyService] assms empty_service by (simp add: ordered_requests)
  then show "Verify je later (pzJournal (fold apiStep (qs @ rs) emptyService)) = None"
    by (auto simp: serviceGood_def intro: holds_Verify good_holds)
  have "serviceGood je later (fold apiStep qs emptyService)"
    using service.run_good [of je later 0 qs emptyService] assms empty_service by (simp add: ordered_requests)
  then show "serviceEvolves (fold apiStep qs emptyService) (fold apiStep (qs @ rs) emptyService)"
    using service.run_evolves [of je later 0 rs "fold apiStep qs emptyService"] assms by (simp add: ordered_requests)
qed

section \<open>What a charge answers\<close>

definition recordedAs :: "uuid \<Rightarrow> string \<Rightarrow> string \<Rightarrow> string \<Rightarrow> uuid \<Rightarrow> PaymentsDB \<Rightarrow> bool" where
  "recordedAs org key fp status factID t \<longleftrightarrow>
     (case LookupOperation org key t of
        None \<Rightarrow> False
      | Some op \<Rightarrow> opResolved op \<and> opRequestFingerprint op = fp \<and> opStatus op = status \<and> opFactID op = factID)"

lemma recordedAs_evolves:
  "recordedAs org key fp status factID t \<Longrightarrow> tablesEvolve t t' \<Longrightarrow> recordedAs org key fp status factID t'"
  using find_operation [of t t' org key]
  by (fastforce simp: recordedAs_def LookupOperation_def operationOf_def operationEvolves_def kept_def split: option.splits)

lemma complete_records:
  assumes "CompleteOperation now org key status factID prov t = (Inr (), t')" and "distinct (operationKeys t)"
    and "find (isOperation org key) (pdOperations t) = Some r" and "owStatus r = None" and "owFingerprint r = fp"
  shows "recordedAs org key fp status factID t'"
proof -
  let ?hit = "\<lambda>r. isOperation org key r \<and> owStatus r = None"
  let ?f = "\<lambda>r. r\<lparr>owStatus := Some status, owFactID := Some factID, owPaymentRef := nullIf (prPaymentRef prov),
            owChargeRef := nullIf (prChargeRef prov), owState := nullIf (prState prov),
            owAuthorizedAmount := Some (prAuthorizedAmount prov), owCapturedAmount := Some (prCapturedAmount prov),
            owConfirmedAmount := prConfirmedCapturedAmount prov, owConfirmedCurrency := nullIf (prConfirmedCurrency prov),
            owStateAt := Some now\<rparr>"
  have r: "r \<in> set (pdOperations t)" "?hit r" using find_SomeD [OF assms(3)] assms(4) by auto
  obtain n rows where u: "updateRows operationRow ?hit ?f (pdOperations t) = Inr (n, rows)"
    using assms(1) by (auto simp: CompleteOperation_def split: sum.splits)
  have rows: "n = length (filter ?hit (pdOperations t))" "rows = map (\<lambda>r. if ?hit r then ?f r else r) (pdOperations t)"
    using u by (auto simp: updateRows_def split: if_splits)
  have "n \<noteq> 0" using rows(1) r by (auto simp: filter_empty_conv)
  then have t': "t' = t\<lparr>pdOperations := rows\<rparr>" using assms(1) u by (simp add: CompleteOperation_def)
  have "find (isOperation org key) (map (\<lambda>r. if ?hit r then ?f r else r) xs) =
      map_option (\<lambda>r. if ?hit r then ?f r else r) (find (isOperation org key) xs)" for xs
    by (induction xs) (auto simp: isOperation_def)
  then have "find (isOperation org key) (pdOperations t') = Some (?f r)" using assms(3) r(2) t' rows(2) by simp
  then show ?thesis using assms(5) by (simp add: recordedAs_def LookupOperation_def operationOf_def textOf_def uuidOf_def)
qed

text \<open>A request let through by the bind holds the one undecided row of its key.\<close>

lemma BindOperation_Inr:
  assumes "BindOperation now later org key fp req t = (Inr (status, factID, at, replay), t')"
    and "distinct (operationKeys t)"
  shows "\<exists>r. find (isOperation org key) (pdOperations t') = Some r \<and> owFingerprint r = fp \<and>
    (if replay then owStatus r \<noteq> None \<and> textOf (owStatus r) = status \<and> uuidOf (owFactID r) = factID
     else owStatus r = None) \<and> distinct (operationKeys t')"
proof -
  obtain ins t1 where ins: "insertOperation now org key fp req t = Inr (ins, t1)"
    using assms(1) by (auto simp: BindOperation_def split: sum.splits)
  obtain r where r: "find (isOperation org key) (pdOperations t1) = Some r" "owFingerprint r = fp"
    using assms(1) ins by (auto simp: BindOperation_def split: option.splits if_splits)
  have ans: "boundAnswer r = (status, factID, at, replay)"
    using assms(1) ins r by (auto simp: BindOperation_def split: if_splits sum.splits)
  have d: "distinct (operationKeys t')"
    using BindOperation_steps [of now later org key fp req t undefined] run_keys [OF assms(2)] assms(1) by (metis snd_conv)
  show ?thesis
  proof (cases "t' = t1")
    case True
    then show ?thesis using r ans d by (auto simp: boundAnswer_def)
  next
    case False
    then obtain n where n: "takeLease later org key (oqSettlementDigest req) t1 = Inr (n, t')" "owStatus r = None"
      using assms(1) ins r by (auto simp: BindOperation_def split: if_splits sum.splits)
    let ?hit = "\<lambda>r. isOperation org key r \<and> owStatus r = None \<and> owLeaseUntil r \<le> later"
    let ?f = "\<lambda>r. r\<lparr>owLeaseUntil := later + leaseTime, owDigest := coalesce (owDigest r) (nullableDigest (oqSettlementDigest req))\<rparr>"
    have "pdOperations t' = map (\<lambda>r. if ?hit r then ?f r else r) (pdOperations t1)"
      using n(1) by (auto simp: takeLease_def updateRows_def split: sum.splits if_splits)
    moreover have "find (isOperation org key) (map (\<lambda>r. if ?hit r then ?f r else r) xs) =
      map_option (\<lambda>r. if ?hit r then ?f r else r) (find (isOperation org key) xs)" for xs
      by (induction xs) (auto simp: isOperation_def)
    ultimately have "find (isOperation org key) (pdOperations t') = Some (if ?hit r then ?f r else r)" using r(1) by simp
    then show ?thesis using r(2) ans n(2) d by (auto simp: boundAnswer_def)
  qed
qed

lemma finishCharge_records:
  assumes "finishCharge env now key i plan at result status factType st = (Answered code a, st')"
    and "find (isOperation (chOrganizerID i) key) (pdOperations (pzTables st)) = Some r" and "owStatus r = None"
    and "owFingerprint r = fp" and "distinct (operationKeys (pzTables st))"
  shows "recordedAs (chOrganizerID i) key fp (caStatus a) (caPaymentID a) (pzTables st') \<and> code = statusCode (caStatus a)"
proof -
  let ?f = "chargeFact env key i at factType"
  let ?pl = "if factType = ''payment.captured'' then plan else []"
  obtain r1 st1 where app: "appendFact env (now 3) ?f ?pl st = (r1, st1)" by (cases "appendFact env (now 3) ?f ?pl st")
  have t1: "pzTables st1 = pzTables st" using app by (auto simp: appendFact_def split: prod.splits)
  obtain e replay where e: "r1 = Inr (e, replay)"
    using assms(1) app by (auto simp: finishCharge_def Let_def split: sum.splits)
  obtain x t2 where d: "CompleteOperation (now 4) (chOrganizerID i) key status (faID ?f) (evidence i result status) (pzTables st) = (x, t2)"
    by fastforce
  have "x = Inr ()" "pzTables st' = t2" "caStatus a = status" "caPaymentID a = faID ?f" "code = statusCode status"
    using assms(1) app e d t1 by (auto simp: finishCharge_def Let_def onTables_def split: sum.splits)
  then show ?thesis using complete_records [OF _ assms(5,2,3,4), of "now 4" status "faID ?f" "evidence i result status" t2] d by simp
qed

lemma driveCharge_finishes:
  assumes "driveCharge env now key i plan at st = (Answered code a, st')"
  obtains result status factType st1 where "finishCharge env now key i plan at result status factType st1 = (Answered code a, st')"
    and "pzTables st1 = pzTables st" and "pvAuthorize (pePSP env) (authorizeRequest key i) = (result, None)"
    and "ValidateResult result = None"
    and "factType = ''payment.captured'' \<Longrightarrow> Agrees (rsConfirmed result) (chAmount i) (chCurrency i)"
    and "status = ''captured'' \<longleftrightarrow> factType = ''payment.captured''"
    and "status = ''captured'' \<Longrightarrow> rsOutcome result = Captured"
proof -
  obtain result where p: "pvAuthorize (pePSP env) (authorizeRequest key i) = (result, None)"
    using assms by (cases "pvAuthorize (pePSP env) (authorizeRequest key i)") (auto simp: driveCharge_def split: option.splits if_splits)
  have v: "ValidateResult result = None" "rsOutcome result = Captured \<Longrightarrow> Agrees (rsConfirmed result) (chAmount i) (chCurrency i)"
    using assms p by (auto simp: driveCharge_def split: if_splits)
  show thesis
  proof (cases "rsOutcome result = Captured")
    case True
    obtain r st1 where app: "appendFact env (now 2) (chargeFact env key i at ''payment.authorized'') [] st = (r, st1)" by fastforce
    have "pzTables st1 = pzTables st" using app by (auto simp: appendFact_def split: prod.splits)
    moreover have "finishCharge env now key i plan at result ''captured'' ''payment.captured'' st1 = (Answered code a, st')"
      using assms p v True app by (auto simp: driveCharge_def split: sum.splits)
    ultimately show ?thesis using that p v True by blast
  next
    case False
    then consider "rsOutcome result = Declined" | "rsOutcome result = Timeout"
      using assms p v by (auto simp: driveCharge_def split: Outcome.splits)
    then show ?thesis
    proof cases
      case 1
      show ?thesis
        by (rule that [of result "''declined''" "''payment.declined''" st]) (use assms p v 1 in \<open>simp_all add: driveCharge_def\<close>)
    next
      case 2
      show ?thesis
        by (rule that [of result "''timeout''" "''payment.timeout''" st]) (use assms p v 2 in \<open>simp_all add: driveCharge_def\<close>)
    qed
  qed
qed

lemma prior_recorded:
  assumes "priorAnswer fp (LookupOperation org key t) = Some (Answered code a)"
  shows "recordedAs org key fp (caStatus a) (caPaymentID a) t \<and> code = statusCode (caStatus a)"
  using assms by (auto simp: priorAnswer_def recordedAs_def replayed_def split: option.splits if_splits)

lemma charge_records:
  assumes "charge env now ok header (Some i) st = (Answered code a, st')" and "distinct (operationKeys (pzTables st))"
  shows "recordedAs (chOrganizerID i) (TrimSpace header) (fingerprint env i) (caStatus a) (caPaymentID a) (pzTables st') \<and>
    code = statusCode (caStatus a) \<and> \<not> keyRefused (TrimSpace header) \<and> \<not> chargeRefused i"
proof -
  have g: "ok" "\<not> keyRefused (TrimSpace header)" "\<not> chargeRefused i"
    using assms(1) by (auto simp: charge_def Let_def split: if_splits)
  let ?prior = "priorAnswer (fingerprint env i) (LookupOperation (chOrganizerID i) (TrimSpace header) (pzTables st))"
  show ?thesis
  proof (cases ?prior)
    case (Some b)
    then have "b = Answered code a" "st' = st" using assms(1) g by (auto simp: charge_def Let_def)
    then show ?thesis using Some prior_recorded g by metis
  next
    case None
    then obtain p where p: "chSettlement i = Some p" using assms(1) g by (auto simp: charge_def Let_def split: option.splits)
    then obtain plan where plan: "BuildSettlementEntries (toStorePlan p) (chAmount i) = Inr plan"
      using assms(1) g None by (auto simp: charge_def Let_def split: sum.splits)
    obtain r st1 where b: "bindCharge env now (TrimSpace header) i plan st = (r, st1)" by fastforce
    have c: "charge env now ok header (Some i) st = (case r of Inl e \<Rightarrow> (refusedPay 409 e, st1)
        | Inr (status, factID, occurredAt, replay) \<Rightarrow>
            if replay then (replayed status factID, st1)
            else driveCharge env now (TrimSpace header) i plan occurredAt st1)"
      using g None p plan b by (simp add: charge_def Let_def)
    then obtain status factID at replay where r: "r = Inr (status, factID, at, replay)"
      using assms(1) by (cases r) (auto simp: refusedPay_def split: if_splits)
    obtain t1 where t1: "BindOperation (now 0) (now 1) (chOrganizerID i) (TrimSpace header) (fingerprint env i)
        (operationRequest env i plan) (pzTables st) = (Inr (status, factID, at, replay), t1)" "pzTables st1 = t1"
      using b r by (auto simp: onTables_def split: prod.splits)
    obtain q where q: "find (isOperation (chOrganizerID i) (TrimSpace header)) (pdOperations t1) = Some q"
      "owFingerprint q = fingerprint env i"
      "if replay then owStatus q \<noteq> None \<and> textOf (owStatus q) = status \<and> uuidOf (owFactID q) = factID else owStatus q = None"
      "distinct (operationKeys t1)"
      using BindOperation_Inr [OF t1(1) assms(2)] by blast
    show ?thesis
    proof (cases replay)
      case True
      then have "st' = st1" "a = \<lparr>caStatus = status, caPaymentID = factID, caSequence = None, caReplay = True\<rparr>" "code = statusCode status"
        using assms(1) c r by (auto simp: replayed_def)
      then show ?thesis using q True t1(2) g by (simp add: recordedAs_def LookupOperation_def operationOf_def)
    next
      case False
      then have "driveCharge env now (TrimSpace header) i plan at st1 = (Answered code a, st')" using assms(1) c r by simp
      then obtain result status' factType st2 where
        f: "finishCharge env now (TrimSpace header) i plan at result status' factType st2 = (Answered code a, st')"
        "pzTables st2 = pzTables st1" by (rule driveCharge_finishes)
      show ?thesis using finishCharge_records [OF f(1), of q "fingerprint env i"] q False t1(2) f(2) g by simp
    qed
  qed
qed

text \<open>
  C21: A charge is answered once. When it has been answered, the same request under the same key
  gets the same status and payment for ever, with or without its settlement plan, whatever
  the provider would say now and whatever the service has done in between, and changes
  nothing.
\<close>
theorem charge_is_answered_once:
  assumes "charge env now ok header (Some i) st = (Answered code a, st1)" and "distinct (operationKeys (pzTables st))"
    and "tablesEvolve (pzTables st1) (pzTables st2)" and "peJournal env' = peJournal env"
  shows "charge env' now' True header (Some (i\<lparr>chSettlement := s\<rparr>)) st2 =
    (Answered code \<lparr>caStatus = caStatus a, caPaymentID = caPaymentID a, caSequence = None, caReplay = True\<rparr>, st2)"
proof -
  have r: "recordedAs (chOrganizerID i) (TrimSpace header) (fingerprint env i) (caStatus a) (caPaymentID a) (pzTables st1)"
    "code = statusCode (caStatus a)" "\<not> keyRefused (TrimSpace header)" "\<not> chargeRefused i"
    using charge_records [OF assms(1,2)] by auto
  have same: "fingerprint env' (i\<lparr>chSettlement := s\<rparr>) = fingerprint env i" "chargeRefused (i\<lparr>chSettlement := s\<rparr>) = chargeRefused i"
    using assms(4) by (simp_all add: fingerprint_def chargeRefused_def)
  have "recordedAs (chOrganizerID i) (TrimSpace header) (fingerprint env i) (caStatus a) (caPaymentID a) (pzTables st2)"
    by (rule recordedAs_evolves [OF r(1) assms(3)])
  then have "priorAnswer (fingerprint env i) (LookupOperation (chOrganizerID i) (TrimSpace header) (pzTables st2)) =
    Some (replayed (caStatus a) (caPaymentID a))"
    by (auto simp: recordedAs_def priorAnswer_def split: option.splits)
  then show ?thesis using r same by (simp add: charge_def Let_def replayed_def)
qed

text \<open>
  C22: Without a ledger that settles the charge to the cent, nothing happens: the provider is not
  asked, the operation is not bound, and the answer and the state are the same whatever
  the provider would do.
\<close>
theorem no_charge_without_a_ledger:
  assumes "case chSettlement i of None \<Rightarrow> True | Some p \<Rightarrow> \<not> is_ok (BuildSettlementEntries (toStorePlan p) (chAmount i))"
  shows "snd (charge env now ok header (Some i) st) = st \<and>
    charge (env\<lparr>pePSP := psp\<rparr>) now ok header (Some i) st = charge env now ok header (Some i) st"
  using assms by (auto simp: charge_def Let_def fingerprint_def split: option.splits sum.splits)

section \<open>Confirmed money\<close>

text \<open>The entries a request added, and what the provider must have said for them.\<close>

definition written :: "PaymentsState \<Rightarrow> PaymentsState \<Rightarrow> Fact list" where
  "written st st' = map enFact (drop (length (jdEntries (pzJournal st))) (jdEntries (pzJournal st')))"

definition provedBy :: "answer \<Rightarrow> Outcome \<Rightarrow> Fact \<Rightarrow> bool" where
  "provedBy a o' f \<longleftrightarrow>
     snd a = None \<and> ValidateResult (fst a) = None \<and> rsOutcome (fst a) = o' \<and>
     Agrees (rsConfirmed (fst a)) (faAmount f) (faCurrency f)"

lemma appendFact_written:
  assumes "appendFact env now f settlement st = (r, st')"
  shows "written st st' = [] \<or> written st st' = [stamped now f]"
proof -
  have "jdEntries (pzJournal st') = jdEntries (pzJournal st) \<or>
    (\<exists>e. jdEntries (pzJournal st') = jdEntries (pzJournal st) @ [e] \<and> enFact e = stamped now f)"
    using assms by (auto simp: appendFact_def AppendWithSettlement_def Let_def openHead_def
        split: prod.splits option.splits sum.splits elim!: writeFact_Inr)
  then show ?thesis by (auto simp: written_def)
qed

lemma onTables_written: "onTables f st = (r, st') \<Longrightarrow> pzJournal st' = pzJournal st"
  by (auto simp: onTables_def split: prod.splits)

lemma appendFact_journal:
  "appendFact env now f settlement st = (r, st') \<Longrightarrow> \<exists>es. jdEntries (pzJournal st') = jdEntries (pzJournal st) @ es"
  using reaches_evolves [OF appendFact_reaches] by (auto simp: serviceEvolves_def)

lemma written_trans:
  assumes "\<exists>es. jdEntries (pzJournal b) = jdEntries (pzJournal a) @ es" and "\<exists>es. jdEntries (pzJournal c) = jdEntries (pzJournal b) @ es"
  shows "written a c = written a b @ written b c"
  using assms by (auto simp: written_def)

lemma stamped_money: "faType (stamped now f) = faType f" "faAmount (stamped now f) = faAmount f" "faCurrency (stamped now f) = faCurrency f"
  by (simp_all add: stamped_def)

lemma chargeFact_money:
  "faType (chargeFact env key i at t) = t" "faAmount (chargeFact env key i at t) = chAmount i" "faCurrency (chargeFact env key i at t) = chCurrency i"
  by (simp_all add: chargeFact_def paymentFact_def)

lemma finishCharge_written:
  assumes "finishCharge env now key i plan at result status factType st = (a, st')"
  shows "written st st' = [] \<or> written st st' = [stamped (now 3) (chargeFact env key i at factType)]"
proof -
  let ?f = "chargeFact env key i at factType"
  let ?pl = "if factType = ''payment.captured'' then plan else []"
  obtain r1 st1 where app: "appendFact env (now 3) ?f ?pl st = (r1, st1)" by (cases "appendFact env (now 3) ?f ?pl st")
  have "pzJournal st' = pzJournal st1"
    using assms app by (auto simp: finishCharge_def Let_def split: sum.splits prod.splits dest!: onTables_written)
  then have "written st st' = written st st1" by (simp add: written_def)
  then show ?thesis using appendFact_written [OF app] by simp
qed

lemma driveCharge_moved:
  assumes "driveCharge env now key i plan at st = (a, st')" and "f \<in> set (written st st')"
  shows "if faType f = ''payment.captured'' then provedBy (pvAuthorize (pePSP env) (authorizeRequest key i)) Captured f
    else faType f \<noteq> ''payment.refunded''"
proof -
  obtain result e where p: "pvAuthorize (pePSP env) (authorizeRequest key i) = (result, e)" by fastforce
  have "st' \<noteq> st" using assms(2) by (auto simp: written_def)
  then have v: "e = None" "ValidateResult result = None"
    "rsOutcome result = Captured \<Longrightarrow> Agrees (rsConfirmed result) (chAmount i) (chCurrency i)"
    using assms(1) p by (auto simp: driveCharge_def split: option.splits if_splits)
  have typed: "g \<in> set (written st1 st') \<Longrightarrow> faType g = t \<and> faAmount g = chAmount i \<and> faCurrency g = chCurrency i"
    if "finishCharge env now key i plan at result status t st1 = (a, st')" for g status t st1
    using finishCharge_written [OF that] by (auto simp: stamped_money chargeFact_money)
  show ?thesis
  proof (cases "rsOutcome result = Captured")
    case True
    obtain r st1 where app: "appendFact env (now 2) (chargeFact env key i at ''payment.authorized'') [] st = (r, st1)" by fastforce
    have one: "written st st1 = [] \<or> written st st1 = [stamped (now 2) (chargeFact env key i at ''payment.authorized'')]"
      by (rule appendFact_written [OF app])
    have fin: "st' = st1 \<or> finishCharge env now key i plan at result ''captured'' ''payment.captured'' st1 = (a, st')"
      using assms(1) p v True app by (auto simp: driveCharge_def split: sum.splits)
    show ?thesis
    proof (cases "f \<in> set (written st st1)")
      case True
      then show ?thesis using one by (auto simp: stamped_money chargeFact_money)
    next
      case False
      then have fin: "finishCharge env now key i plan at result ''captured'' ''payment.captured'' st1 = (a, st')"
        using fin assms(2) by auto
      have "written st st' = written st st1 @ written st1 st'"
        using appendFact_journal [OF app] reaches_evolves [OF finishCharge_reaches [OF fin]]
        by (intro written_trans) (auto simp: serviceEvolves_def)
      then have "f \<in> set (written st1 st')" using assms(2) False by simp
      then show ?thesis using typed [OF fin] v p \<open>rsOutcome result = Captured\<close> by (simp add: provedBy_def)
    qed
  next
    case False
    then have "finishCharge env now key i plan at result ''declined'' ''payment.declined'' st = (a, st') \<or>
        finishCharge env now key i plan at result ''timeout'' ''payment.timeout'' st = (a, st')"
      using assms(1) p v \<open>st' \<noteq> st\<close> by (auto simp: driveCharge_def split: Outcome.splits)
    then show ?thesis using typed assms(2) by auto
  qed
qed

lemma charge_moved:
  assumes "charge env now ok header body st = (a, st')" and "f \<in> set (written st st')"
  shows "if faType f = ''payment.captured'' then \<exists>req. provedBy (pvAuthorize (pePSP env) req) Captured f
    else faType f \<noteq> ''payment.refunded''"
proof (cases rule: charge_cases [OF assms(1), case_names unbound bound])
  case unbound
  then show ?thesis using assms(2) by (simp add: written_def)
next
  case (bound i p plan r st1)
  have j: "pzJournal st1 = pzJournal st" using onTables_written [OF bound(6)] .
  then have w: "f \<in> set (written st1 st')" using assms(2) by (simp add: written_def)
  then have "st' \<noteq> st1" by (auto simp: written_def)
  then obtain at where d: "driveCharge env now (TrimSpace header) i plan at st1 = (a, st')"
    using bound(7) by (auto split: sum.splits prod.splits if_splits)
  show ?thesis using driveCharge_moved [OF d w] by (auto split: if_splits)
qed

lemma settleCompensation_written:
  assumes "settleCompensation env now org key kind op made amount currency result st = (a, st')"
    and "f \<in> set (written st st')"
  shows "faType f = (if kind = ''void'' then ''payment.voided'' else ''payment.refunded'') \<and>
    faAmount f = amount \<and> faCurrency f = currency"
proof -
  obtain g r1 st1 where app: "appendFact env (now 2) g [] st = (r1, st1)" and j: "pzJournal st' = pzJournal st1"
    and g: "faType g = (if kind = ''void'' then ''payment.voided'' else ''payment.refunded'')" "faAmount g = amount"
      "faCurrency g = currency"
    using assms(1) unfolding settleCompensation_def Let_def
    by (fastforce simp: paymentFact_def split: prod.splits sum.splits dest: onTables_written)
  have "written st st' = written st st1" using j by (simp add: written_def)
  then show ?thesis using appendFact_written [OF app] assms(2) g by (auto simp: stamped_money)
qed

lemma settleLeg_written:
  assumes "settleLeg env now org key refundKey op leg result m st = (a, st')" and "f \<in> set (written st st')"
  shows "faType f = ''payment.refunded'' \<and> faAmount f = rlAmount leg \<and> faCurrency f = rlCurrency leg"
proof -
  obtain g r1 st1 where app: "appendFact env (now 1) g [] st = (r1, st1)" and j: "pzJournal st' = pzJournal st1"
    and g: "faType g = ''payment.refunded''" "faAmount g = rlAmount leg" "faCurrency g = rlCurrency leg"
    using assms(1) unfolding settleLeg_def Let_def
    by (fastforce simp: paymentFact_def split: prod.splits sum.splits dest: onTables_written)
  have "written st st' = written st st1" using j by (simp add: written_def)
  then show ?thesis using appendFact_written [OF app] assms(2) g by (auto simp: stamped_money)
qed

text \<open>The provider answered that it has given this money back: a refund call, or the status of one.\<close>

definition refundProved :: "Provider \<Rightarrow> Fact \<Rightarrow> bool" where
  "refundProved p f \<longleftrightarrow>
     (\<exists>ref key amount currency. provedBy (pvRefund p ref key amount currency) Refunded f) \<or>
     (\<exists>ru. provedBy (pvStatus p ru) Refunded f)"

lemma driveCompensation_moved:
  assumes "driveCompensation env now org key kind op made amount currency st = (a, st')" and "f \<in> set (written st st')"
  shows "if kind = ''void'' then faType f = ''payment.voided'' else refundProved (pePSP env) f \<and> faType f = ''payment.refunded''"
proof -
  obtain result e where c: "compensationCall (pePSP env) op kind made amount currency = (result, e)" by fastforce
  have j: "pzJournal st' \<noteq> pzJournal st" using assms(2) by (auto simp: written_def)
  then have v: "e = None" "ValidateResult result = None" "rsOutcome result = (if kind = ''void'' then Voided else Refunded)"
    "kind \<noteq> ''void'' \<Longrightarrow> Agrees (rsConfirmed result) amount currency"
    and s: "settleCompensation env now org key kind op made amount currency result st = (a, st')"
    using assms(1) c
    by (auto simp: driveCompensation_def Let_def split: option.splits if_splits prod.splits sum.splits dest: onTables_written)
  have w: "faType f = (if kind = ''void'' then ''payment.voided'' else ''payment.refunded'')" "faAmount f = amount"
    "faCurrency f = currency" using settleCompensation_written [OF s assms(2)] by auto
  show ?thesis
  proof (cases "kind = ''void''")
    case False
    then have "provedBy (compensationCall (pePSP env) op kind made amount currency) Refunded f"
      using v w c by (simp add: provedBy_def)
    then show ?thesis using False w by (auto simp: refundProved_def compensationCall_def split: if_splits)
  qed (use w in simp)
qed

lemma compensate_moved:
  assumes "compensate env now ok body kind st = (a, st')" and "f \<in> set (written st st')"
  shows "if kind = ''void'' then faType f = ''payment.voided'' else refundProved (pePSP env) f \<and> faType f = ''payment.refunded''"
proof -
  have ne: "pzJournal st' \<noteq> pzJournal st" using assms(2) by (auto simp: written_def)
  then obtain org key op basis where b: "bindAndDrive env now org key kind op basis st = (a, st')"
    using assms(1) by (auto simp: compensate_def Let_def split: if_splits option.splits prod.splits)
  obtain r st1 where o: "onTables (BindCompensation (peJournal env) (now 1) org key kind (fst basis) (snd basis)) st = (r, st1)"
    by fastforce
  have j: "pzJournal st1 = pzJournal st" by (rule onTables_written [OF o])
  then obtain made where "driveCompensation env now org key kind op made (fst basis) (snd basis) st1 = (a, st')"
    using b o ne by (auto simp: bindAndDrive_def split: sum.splits if_splits)
  moreover have "f \<in> set (written st1 st')" using assms(2) j by (simp add: written_def)
  ultimately show ?thesis by (rule driveCompensation_moved)
qed

lemma partialRefund_moved:
  assumes "pspPartialRefund env now ok body st = (a, st')" and "f \<in> set (written st st')"
  shows "refundProved (pePSP env) f \<and> faType f = ''payment.refunded''"
proof -
  have ne: "pzJournal st' \<noteq> pzJournal st" using assms(2) by (auto simp: written_def)
  obtain org key refundKey op leg st1 where j: "pzJournal st1 = pzJournal st"
    and d: "driveLeg env now org key refundKey op leg st1 = (a, st')"
    using assms(1) ne by (auto simp: pspPartialRefund_def Let_def split: if_splits option.splits prod.splits sum.splits
        dest: onTables_written)
  obtain result e where c: "pvRefund (pePSP env) (opProviderPaymentRef op) (rlProviderKey leg) (rlAmount leg) (rlCurrency leg) = (result, e)"
    by fastforce
  obtain m where v: "e = None" "ValidateResult result = None" "rsOutcome result = Refunded"
    "Agrees (rsConfirmed result) (rlAmount leg) (rlCurrency leg)"
    "settleLeg env now org key refundKey op leg result m st1 = (a, st')"
    using d c ne j by (auto simp: driveLeg_def split: option.splits if_splits)
  have "f \<in> set (written st1 st')" using assms(2) j by (simp add: written_def)
  from settleLeg_written [OF v(5) this] v(1-4) c show ?thesis
    unfolding refundProved_def provedBy_def by (metis fst_conv snd_conv)
qed

text \<open>Resolving a status writes no fact.\<close>

definition quiet :: "PaymentsState \<Rightarrow> PaymentsState \<Rightarrow> bool" where
  "quiet st st' \<longleftrightarrow> pzJournal st' = pzJournal st"

lemma quiet_refl [simp]: "quiet st st"
  by (simp add: quiet_def)

lemma onTables_quiet: "onTables f st = (r, st') \<Longrightarrow> quiet st st'"
  unfolding quiet_def by (rule onTables_written)

lemma recordStatus_quiet: "recordStatus now org key op result st = (a, st') \<Longrightarrow> quiet st st'"
  by (auto simp: recordStatus_def Let_def split: option.splits prod.splits sum.splits if_splits intro: onTables_quiet)

lemma pspStatus_quiet: "pspStatus env now ok organizer header st = (a, st') \<Longrightarrow> quiet st st'"
proof -
  have resolve: "resolveStatus env t org key op st = (a, st') \<Longrightarrow> quiet st st'" for t org key op
    by (auto simp: resolveStatus_def split: prod.splits option.splits if_splits intro: recordStatus_quiet)
  have decided: "decidedStatus env now org key op st = (a, st') \<Longrightarrow> quiet st st'" for org key op
    by (auto simp: decidedStatus_def split: option.splits if_splits intro: resolve)
  have after: "afterRefund env now org key op st = (a, st') \<Longrightarrow> quiet st st'" for org key op
    by (auto simp: afterRefund_def split: option.splits if_splits intro: decided)
  show "pspStatus env now ok organizer header st = (a, st') \<Longrightarrow> quiet st st'"
    by (auto simp: pspStatus_def split: if_splits sum.splits prod.splits option.splits intro: after)
qed

lemma fact_written:
  assumes "fact env now ok body st = (a, st')" and "f \<in> set (written st st')"
  shows "\<exists>g. body = Some g \<and> f = stamped (now 0) g"
proof -
  obtain g where g: "body = Some g" using assms by (auto simp: fact_def written_def split: if_splits option.splits)
  obtain r where "appendFact env (now 0) g [] st = (r, st')"
    using assms g by (auto simp: fact_def written_def split: if_splits prod.splits sum.splits)
  then show ?thesis using appendFact_written [of env "now 0" g "[]" st r st'] assms(2) g by auto
qed

text \<open>A request that backs an entry: it posted the fact, or the provider confirmed to it the money the fact moves.\<close>

definition backs :: "ApiRequest \<Rightarrow> Fact \<Rightarrow> bool" where
  "backs q f \<longleftrightarrow>
     (\<exists>g. arCall q = CallFact (Some g) \<and> f = stamped (arNow q 0) g) \<or>
     (faType f = ''payment.captured'' \<longrightarrow> (\<exists>req. provedBy (pvAuthorize (pePSP (arEnv q)) req) Captured f)) \<and>
     (faType f = ''payment.refunded'' \<longrightarrow> refundProved (pePSP (arEnv q)) f)"

lemma step_backed: "f \<in> set (written st (apiStep q st)) \<Longrightarrow> backs q f"
proof -
  assume f: "f \<in> set (written st (apiStep q st))"
  show ?thesis
  proof (cases "arCall q")
    case (CallFact body)
    obtain a where c: "fact (arEnv q) (arNow q) (arAuthorized q) body st = (a, apiStep q st)"
      using CallFact by (auto simp: apiStep_def) (metis prod.collapse)
    show ?thesis using fact_written [OF c f] CallFact by (auto simp: backs_def)
  next
    case (CallCharge header body)
    obtain a where c: "charge (arEnv q) (arNow q) (arAuthorized q) header body st = (a, apiStep q st)"
      using CallCharge by (auto simp: apiStep_def) (metis prod.collapse)
    show ?thesis using charge_moved [OF c f] by (auto simp: backs_def split: if_splits)
  next
    case (CallStatus organizer header)
    then obtain a where c: "pspStatus (arEnv q) (arNow q) (arAuthorized q) organizer header st = (a, apiStep q st)"
      by (auto simp: apiStep_def) (metis prod.collapse)
    show ?thesis using pspStatus_quiet [OF c] f by (simp add: quiet_def written_def)
  next
    case (CallCompensate kind body)
    obtain a where c: "compensate (arEnv q) (arNow q) (arAuthorized q) body kind st = (a, apiStep q st)"
      using CallCompensate by (auto simp: apiStep_def) (metis prod.collapse)
    show ?thesis using compensate_moved [OF c f] by (auto simp: backs_def split: if_splits)
  next
    case (CallPartialRefund body)
    obtain a where c: "pspPartialRefund (arEnv q) (arNow q) (arAuthorized q) body st = (a, apiStep q st)"
      using CallPartialRefund by (auto simp: apiStep_def) (metis prod.collapse)
    show ?thesis using partialRefund_moved [OF c f] by (auto simp: backs_def)
  qed
qed


section \<open>Concrete requests\<close>

definition sampleService :: PaymentsEnv where
  "sampleService = \<lparr>peJournal = sampleEnv, peRing = sampleRing ''v1'', peSHA1 = (\<lambda>s. 77), pePSP = Fake,
     peRetention = 0\<rparr>"

definition samplePlanRequest :: settlementPlanRequest where
  "samplePlanRequest = \<lparr>sqFaceValue = 500, sqPassedOn = 0, sqAbsorbed = 0, sqTotalAmount = 500, sqCurrency = ''EUR'', sqFees = []\<rparr>"

definition sampleCharge :: chargeRequest where
  "sampleCharge = \<lparr>chOrderID = 7, chOrganizerID = 5, chBuyerID = 9, chAmount = 500, chCurrency = ''EUR'',
     chPaymentToken = TokenDecline, chSettlement = Some samplePlanRequest\<rparr>"

definition sampleAnswered :: PaymentsState where
  "sampleAnswered = snd (charge sampleService (\<lambda>i. 9000) True ''key'' (Some sampleCharge) emptyService)"

lemma sample_plan: "BuildSettlementEntries (toStorePlan samplePlanRequest) 500 =
    Inr [organizerLine (toStorePlan samplePlanRequest)]"
  by code_simp

lemma sample_guards: "keyRefused ''key'' = False" "TrimSpace ''key'' = ''key''" "chargeRefused sampleCharge = False"
  "operationRow (newOperation 9000 5 ''key'' fp (operationRequest env sampleCharge plan))"
proof -
  show "TrimSpace ''key'' = ''key''" by code_simp
qed (simp_all add: keyRefused_def chargeRefused_def sampleCharge_def SupportedCurrencies_def operationRow_def newOperation_def
  operationRequest_def nullOr_def isISOCurrency_def)

lemma sample_declined:
  "validateFact sampleEnv (chargeFact sampleService ''key'' sampleCharge 9000 ''payment.declined'') = None"
  "stamped 9000 (chargeFact sampleService ''key'' sampleCharge 9000 ''payment.declined'') =
     chargeFact sampleService ''key'' sampleCharge 9000 ''payment.declined''"
  by (simp_all add: validateFact_def sampleEnv_def stamped_def IsZero_def truncateMicro_def chargeFact_def paymentFact_def
      paymentFactID_def sampleService_def sampleCharge_def orderText_def SupportedCurrencies_def allowedTypes_def
      moneyMovingTypes_def order_id_allowed del: payloadRefusal.simps)

lemma sample_journal:
  "\<exists>e j. AppendWithSettlement sampleEnv (sampleRing ''v1'') 9000
     (chargeFact sampleService ''key'' sampleCharge 9000 ''payment.declined'') [] emptyJournal emptyJournal =
   (Inr (e, False), j) \<and> enSequence e = 1"
proof -
  let ?f = "chargeFact sampleService ''key'' sampleCharge 9000 ''payment.declined''"
  have seen: "loadExistingFact sampleEnv ?f emptyJournal = Inr None"
    by (simp add: loadExistingFact_def emptyJournal_def)
  have f: "faOrganizerID ?f = 5" "faAmount ?f = 500" "faCurrency ?f = ''EUR''" "faType ?f = ''payment.declined''"
    by (simp_all add: chargeFact_def paymentFact_def sampleCharge_def)
  have chk: "entryCheck (newEntry sampleEnv (sampleRing ''v1'') ?f 1 zeroHash) []"
    by (simp add: entryCheck_def entryRow_def newEntry_def Let_def f isISOCurrency_def sample_small zeroHash_length
        sampleEnv_hash keySign_def)
  have heads: "jdHeads (openHead 5 emptyJournal) = [(5, 0, zeroHash)]" "jdEntries (openHead 5 emptyJournal) = []"
    by (simp_all add: openHead_def emptyJournal_def)
  have "enSequence (newEntry sampleEnv (sampleRing ''v1'') ?f 1 zeroHash) = 1" by (simp add: newEntry_def Let_def)
  then show ?thesis using sample_declined seen chk heads
    by (simp add: AppendWithSettlement_def loadExisting_open writeFact_def f Let_def sample_small sample_settles
        commitSettlement_def)
qed

lemma sample_charge:
  "\<exists>st. charge sampleService (\<lambda>i. 9000) True ''key'' (Some sampleCharge) emptyService =
    (Answered 402 \<lparr>caStatus = ''declined'', caPaymentID = 77, caSequence = Some 1, caReplay = False\<rparr>, st)"
proof -
  obtain e j where ap: "AppendWithSettlement sampleEnv (sampleRing ''v1'') 9000
     (chargeFact sampleService ''key'' sampleCharge 9000 ''payment.declined'') [] emptyJournal emptyJournal =
   (Inr (e, False), j)" and e: "enSequence e = 1" using sample_journal by blast
  let ?r = "newOperation 9000 5 ''key'' (fingerprint sampleService sampleCharge)
    (operationRequest sampleService sampleCharge [organizerLine (toStorePlan samplePlanRequest)])"
  have b: "BindOperation 9000 9000 5 ''key'' (fingerprint sampleService sampleCharge)
      (operationRequest sampleService sampleCharge [organizerLine (toStorePlan samplePlanRequest)]) noPayments =
    (Inr ('''', uuid_Nil, 9000, False), noPayments\<lparr>pdOperations := [?r]\<rparr>)"
    using sample_guards(4)
    by (simp add: BindOperation_def insertOperation_def Let_def noPayments_def boundAnswer_def isOperation_def)
      (simp add: newOperation_def textOf_def uuidOf_def truncateMicro_def)
  have p: "pvAuthorize (pePSP sampleService) (authorizeRequest ''key'' sampleCharge) = (noSideEffect Declined, None)"
    by (simp add: sampleService_def Fake_def fakeAuthorize_def authorizeRequest_def sampleCharge_def TokenDecline_def
        TokenSuccess_def)
  have v: "ValidateResult (noSideEffect Declined) = None" "rsOutcome (noSideEffect Declined) = Declined"
    by (simp_all add: ValidateResult_def validateConfirmed_def noSideEffect_def resultOf_def)
  have c: "\<exists>t. CompleteOperation 9000 5 ''key'' ''declined'' 77 (evidence sampleCharge (noSideEffect Declined) ''declined'')
      (noPayments\<lparr>pdOperations := [?r]\<rparr>) = (Inr (), t)"
    by (simp add: CompleteOperation_def updateRows_def isOperation_def newOperation_def evidence_def noSideEffect_def resultOf_def
        operationRow_def nullOr_def nullIf_def operationRequest_def sampleCharge_def isISOCurrency_def)
  have fid: "faID (chargeFact sampleService ''key'' sampleCharge 9000 ''payment.declined'') = 77"
    by (simp add: chargeFact_def paymentFact_def paymentFactID_def sampleService_def)
  have s: "peJournal sampleService = sampleEnv" "peRing sampleService = sampleRing ''v1''" "chOrganizerID sampleCharge = 5"
    "chSettlement sampleCharge = Some samplePlanRequest" "chAmount sampleCharge = 500"
    by (simp_all add: sampleService_def sampleCharge_def)
  have l: "LookupOperation 5 ''key'' noPayments = None" by (simp add: LookupOperation_def noPayments_def)
  show ?thesis using ap e b p v c fid
    by (auto simp: charge_def Let_def sample_guards s emptyService_def l priorAnswer_def sample_plan onTables_def
        driveCharge_def finishCharge_def appendFact_def statusCode_def split: prod.splits)
qed

theorem charge_is_answered_once_witness:
  "charge sampleService (\<lambda>i. 99000) True ''key'' (Some (sampleCharge\<lparr>chSettlement := None\<rparr>)) sampleAnswered =
    (Answered 402 \<lparr>caStatus = ''declined'', caPaymentID = 77, caSequence = None, caReplay = True\<rparr>, sampleAnswered)"
proof -
  obtain st where c: "charge sampleService (\<lambda>i. 9000) True ''key'' (Some sampleCharge) emptyService =
    (Answered 402 \<lparr>caStatus = ''declined'', caPaymentID = 77, caSequence = Some 1, caReplay = False\<rparr>, st)"
    using sample_charge by blast
  have st: "st = sampleAnswered" using c by (simp add: sampleAnswered_def)
  have "tablesEvolve (pzTables st) (pzTables st)"
    using reaches_evolves [OF reaches_refl, of st] by (simp add: serviceEvolves_def)
  moreover have "distinct (operationKeys (pzTables emptyService))"
    by (simp add: emptyService_def operationKeys_def noPayments_def)
  ultimately show ?thesis using charge_is_answered_once [OF c _ _ refl, of st "\<lambda>i. 99000" None] st by simp
qed

theorem no_charge_without_a_ledger_witness:
  "snd (charge sampleService (\<lambda>i. 9000) True ''key'' (Some (sampleCharge\<lparr>chSettlement := None\<rparr>)) emptyService) = emptyService"
  using no_charge_without_a_ledger [of "sampleCharge\<lparr>chSettlement := None\<rparr>" sampleService "\<lambda>i. 9000" True "''key''" emptyService Fake]
  by simp

definition postFact :: "uuid \<Rightarrow> ApiRequest" where
  "postFact i = \<lparr>arEnv = sampleService, arNow = (\<lambda>j. 9000), arAuthorized = True, arCall = CallFact (Some (sampleFact i))\<rparr>"

definition postCharge :: ApiRequest where
  "postCharge = \<lparr>arEnv = sampleService, arNow = (\<lambda>j. 9000), arAuthorized = True, arCall = CallCharge ''key'' (Some sampleCharge)\<rparr>"

theorem every_history_keeps_the_books_witness:
  "Verify sampleEnv (sampleRing ''v2'') (pzJournal (fold apiStep [postFact 11, postCharge] emptyService)) = None \<and>
   serviceEvolves (fold apiStep [postFact 11] emptyService) (fold apiStep [postFact 11, postCharge] emptyService)"
proof -
  have "list_all (apiOk sampleEnv (sampleRing ''v2'')) ([postFact 11] @ [postCharge])"
    by (simp add: apiOk_def postFact_def postCharge_def sampleService_def sample_kept)
  from every_history_keeps_the_books [OF this] show ?thesis by simp
qed

end
