(* ===== verification/Payments_Attribution.thy ===== *)
theory Payments_Attribution
  imports Payments_Chain
begin

text \<open>
  The two deferred triggers of migration 0004, read over the life of the journal: because an
  entry and its settlement are written in one transaction and neither changes afterwards,
  every captured fact of every journal is attributed to the cent, and no row is attributed
  to anything but a captured fact.
\<close>

definition captures :: "Entry list \<Rightarrow> Fact list" where
  "captures es = filter (\<lambda>f. faType f = ''payment.captured'') (map enFact es)"

definition attributed :: "JournalEnv \<Rightarrow> JournalDB \<Rightarrow> bool" where
  "attributed env db \<longleftrightarrow>
     list_all (\<lambda>f. settlementBalances (jeParse env) f (jdSettlement db)) (captures (jdEntries db)) \<and>
     list_all (\<lambda>r. list_ex (\<lambda>f. faID f = srCaptureFactID r) (captures (jdEntries db))) (jdSettlement db)"

lemma insertSettlement_rows:
  assumes "insertSettlement parse f entries rows = Inr rows'"
  obtains new where "rows' = rows @ new" and "\<forall>r \<in> set new. srCaptureFactID r = faID f" and "entries = [] \<longleftrightarrow> new = []"
proof (cases "entries = []")
  case True
  then show ?thesis using assms that [of "[]"] by (simp add: insertSettlement_def)
next
  case False
  then obtain order where "foldE (writeEntry f order) entries rows = Inr rows'"
    using assms by (auto simp: insertSettlement_def split: option.splits if_splits)
  from writeEntries_Inr [OF this] show ?thesis
    using that [of "map (rowOf f order) entries"] False by (auto simp: rowOf_def)
qed

lemma balances_own:
  assumes "\<forall>r \<in> set new. srCaptureFactID r \<noteq> faID g"
  shows "settlementBalances parse g (rows @ new) = settlementBalances parse g rows"
proof -
  have "filter (\<lambda>r. srCaptureFactID r = faID g) (rows @ new) = filter (\<lambda>r. srCaptureFactID r = faID g) rows"
    using assms by (auto simp: filter_empty_conv)
  then show ?thesis by (simp add: settlementBalances_def Let_def)
qed

lemma writeFact_attributed:
  assumes "attributed env db" and "writeFact env ring f settlement db = Inr (e, db')"
  shows "attributed env db'"
proof -
  obtain n p where e: "e = newEntry env ring f (wrap64 (n + 1)) p" and chk: "entryCheck e (jdEntries db)"
    and es: "jdEntries db' = jdEntries db @ [e]"
    by (rule writeFact_Inr [OF assms(2)])
  have ins: "insertSettlement (jeParse env) f settlement (jdSettlement db) = Inr (jdSettlement db')"
    and com: "commitSettlement env f settlement db'"
    using assms(2) by (auto simp: writeFact_def Let_def setHead_def commitSettlement_def split: option.splits if_splits sum.splits)
  obtain new where new: "jdSettlement db' = jdSettlement db @ new" "\<forall>r \<in> set new. srCaptureFactID r = faID f"
    "settlement = [] \<longleftrightarrow> new = []"
    by (rule insertSettlement_rows [OF ins])
  have fresh: "faID g \<noteq> faID f" if "g \<in> set (captures (jdEntries db))" for g
    using that chk e by (auto simp: captures_def entryCheck_def list_all_iff)
  have old: "settlementBalances (jeParse env) g (jdSettlement db')" if "g \<in> set (captures (jdEntries db))" for g
    using assms(1) that fresh [OF that] new(1,2) balances_own [of new g "jeParse env" "jdSettlement db"]
    by (auto simp: attributed_def list_all_iff)
  have caps: "captures (jdEntries db') = captures (jdEntries db) @ (if faType f = ''payment.captured'' then [f] else [])"
    using es e by (simp add: captures_def)
  have none: "\<forall>r \<in> set (jdSettlement db). srCaptureFactID r \<noteq> faID f"
    using assms(1) fresh by (fastforce simp: attributed_def list_all_iff list_ex_iff)
  have mine: "settlementBalances (jeParse env) f (jdSettlement db')" if "faType f = ''payment.captured'' \<or> new \<noteq> []"
  proof -
    have "new \<noteq> []"
    proof
      assume "new = []"
      then have "list_ex (\<lambda>r. srCaptureFactID r = faID f) (jdSettlement db)"
        using com that new(1) by (auto simp: commitSettlement_def)
      then show False using none by (auto simp: list_ex_iff)
    qed
    then show ?thesis using com new(3) by (simp add: commitSettlement_def)
  qed
  have "list_ex (\<lambda>g. faID g = srCaptureFactID r) (captures (jdEntries db'))" if "r \<in> set (jdSettlement db')" for r
  proof (cases "r \<in> set new")
    case True
    then have "faType f = ''payment.captured''" using mine by (cases new) (auto simp: settlementBalances_def Let_def)
    then show ?thesis using True new(2) by (simp add: caps)
  next
    case False
    then show ?thesis using that new(1) assms(1) by (auto simp: caps attributed_def list_all_iff)
  qed
  then show ?thesis unfolding attributed_def caps list_all_iff using old mine by auto
qed

lemma append_attributed: "attributed env db \<Longrightarrow> attributed env (appendStep env c db)"
proof -
  assume a: "attributed env db"
  let ?r = "AppendWithSettlement env (apRing c) (apNow c) (apFact c) (apSettlement c) (apSeen c) db"
  have o: "attributed env (openHead org db)" for org using a by (simp add: attributed_def openHead_def)
  have w: "attributed env db'" if "writeFact env (apRing c) f s (openHead org db) = Inr (e, db')" for f s org e db'
    by (rule writeFact_attributed [OF o that])
  show ?thesis using a o w
    by (auto simp: appendStep_def AppendWithSettlement_def Let_def split: option.splits sum.splits)
qed

lemma run_attributed: "attributed env db \<Longrightarrow> attributed env (fold (appendStep env) cs db)"
  by (induction cs arbitrary: db) (auto intro: append_attributed)

lemma empty_attributed: "attributed env emptyJournal"
  by (simp add: attributed_def emptyJournal_def captures_def)

text \<open>
  C12: In every journal there can be, each captured fact carries settlement rows of its own
  organizer, order and currency that sum to exactly the captured amount, and each
  settlement row belongs to a captured fact of the journal.
\<close>
theorem captures_are_attributed:
  "list_all (\<lambda>f. settlementBalances (jeParse env) f (jdSettlement (fold (appendStep env) cs emptyJournal)))
     (captures (jdEntries (fold (appendStep env) cs emptyJournal))) \<and>
   list_all (\<lambda>r. list_ex (\<lambda>f. faID f = srCaptureFactID r) (captures (jdEntries (fold (appendStep env) cs emptyJournal))))
     (jdSettlement (fold (appendStep env) cs emptyJournal))"
  using run_attributed [OF empty_attributed] by (simp add: attributed_def)

end
