(* ===== verification/Inventory_State.thy ===== *)
theory Inventory_State
  imports Text Checked
begin

text \<open>
  The inventory service's tables and the statements its operations share, from
  \<open>src/services/inventory/internal/store\<close>: the pool, its claims and their history, the
  seats a claim holds, channel allocations and presale codes; the predicates every
  capacity read derives from (\<open>liveClaims\<close>, \<open>consumingClaims\<close>, \<open>activeAllocation\<close>,
  \<open>windowOpen\<close>); the sweep of due holds and the wind-down of a capacity cut. Rows are kept
  in insertion order; the CHECKs, keys and unique indexes of the migrations are part of
  the statements that write them. \<open>now()\<close>, each \<open>clock_timestamp()\<close> a transaction reads,
  and the identifiers it generates are arguments.
\<close>

section \<open>Rows\<close>

datatype ClaimStatus = Held | Finalizing | Confirmed | Released | Expired

datatype ClaimKind = BuyerClaim | OperationalClaim | ReservationClaim

datatype PoolKind = GAPool | SeatedPool

datatype Lifecycle = Published | Archived

datatype Closure = OpenSlot | ClosedSlot

record Pool =
  ipOrganizerID :: uuid
  ipCapacity :: int
  ipConfirmed :: int
  ipTarget :: "int option"
  ipLifecycle :: Lifecycle
  ipClosure :: Closure
  ipKind :: PoolKind
  ipRevision :: int
  ipSourceEvent :: uuid

record Claim =
  icID :: uuid
  icOrganizerID :: uuid
  icPoolID :: uuid
  icTicketTypeID :: "uuid option"
  icQuantity :: int
  icReturned :: int
  icUnitAmount :: "int option"
  icCurrency :: "string option"
  icStatus :: ClaimStatus
  icExpiresAt :: "time option"
  icKey :: string
  icFingerprint :: string
  icKind :: ClaimKind
  icChannel :: "string option"
  icPresaleCode :: "string option"
  icReseller :: "uuid option"
  icStaff :: bool
  icPurpose :: "string option"
  icLabel :: "string option"
  icCounterparty :: "string option"

record HistoryRow =
  ihOrganizerID :: uuid
  ihClaimID :: "uuid option"
  ihRelatedID :: "uuid option"
  ihPoolID :: "uuid option"
  ihAction :: string
  ihActor :: string
  ihReason :: string
  ihQuantity :: int
  ihQuantityAfter :: int
  ihStatusAfter :: string
  ihTarget :: "int option"
  ihKey :: "string option"
  ihFingerprint :: "string option"

record SeatRow =
  csClaimID :: uuid
  csPoolID :: uuid
  csSeat :: string
  csReleased :: bool

record ChannelAllocation =
  alChannel :: string
  alCap :: int
  alReleaseAt :: "time option"
  alOpensAt :: "time option"
  alClosesAt :: "time option"
  alRequiresCode :: bool
  alSoldBy :: "uuid option"

record PresaleCode =
  cdOrganizerID :: uuid
  cdChannel :: string
  cdCode :: string
  cdMax :: "int option"
  cdOpensAt :: "time option"
  cdClosesAt :: "time option"

record SlotClosure =
  scPoolID :: uuid
  scPerformanceID :: uuid
  scStatus :: Closure
  scVersion :: int

record InventoryDB =
  ivPools :: "uuid \<Rightarrow> Pool option"
  ivClaims :: "Claim list"
  ivHistory :: "HistoryRow list"
  ivSeats :: "SeatRow list"
  ivAllocations :: "uuid \<Rightarrow> ChannelAllocation list"
  ivCodes :: "PresaleCode list"
  ivEvents :: "uuid list"
  ivClosures :: "SlotClosure list"

text \<open>The instants one transaction reads: its start, and the clock at each later statement.\<close>

record Clock =
  ckNow :: time
  ckActive :: time
  ckWindow :: time
  ckCode :: time
  ckReserved :: time
  ckInsert :: time

datatype inv_error =
    ErrNotFound
  | ErrUnavailable
  | ErrSoldOut
  | ErrConflict
  | ErrChannelWindowClosed
  | ErrPresaleCodeInvalid
  | ErrIdempotency
  | ErrPoolKindMismatch
  | ErrSlotArchived
  | ErrSlotClosed
  | ErrAllocationCapsExceedCapacity
  | ErrAllocationRevisionMismatch
  | ErrAllocationWindowReversed string
  | AllocationCapBelowConsumption string
  | ErrRefundReturnExceedsClaim
  | ErrRefundReturnNotConfirmed
  | ErrRefundReturnConflict
  | ErrPartialSeatedReturn
  | ErrPresaleCodeInvalidInput
  | ErrInput string
  | ErrDatabase

text \<open>
  A method's transaction: an error before the commit rolls everything back; a method may
  also commit and then answer an error.
\<close>

type_synonym 'a body = "InventoryDB \<Rightarrow> inv_error + ((inv_error + 'a) \<times> InventoryDB)"

definition transact :: "'a body \<Rightarrow> InventoryDB \<Rightarrow> (inv_error + 'a) \<times> InventoryDB" where
  "transact body db = (case body db of Inl e \<Rightarrow> (Inl e, db) | Inr r \<Rightarrow> r)"

text \<open>A \<open>Scan\<close> into an \<open>int32\<close>, or a cast to \<open>integer\<close>.\<close>

definition asInt32 :: "int \<Rightarrow> inv_error + int" where
  "asInt32 v = (if int32 v then Inr v else Inl ErrDatabase)"

section \<open>The shared predicates\<close>

definition isLive :: "time \<Rightarrow> Claim \<Rightarrow> bool" where
  "isLive now c \<longleftrightarrow>
     icStatus c = Held \<and> (case icExpiresAt c of None \<Rightarrow> True | Some e \<Rightarrow> e > now) \<or>
     icStatus c = Finalizing"

definition consuming :: "time \<Rightarrow> Claim \<Rightarrow> bool" where
  "consuming now c \<longleftrightarrow> icStatus c = Confirmed \<or> isLive now c"

definition presaleUsage :: "Claim \<Rightarrow> bool" where
  "presaleUsage c \<longleftrightarrow> icStatus c \<in> {Confirmed, Finalizing, Held}"

definition consumedQuantity :: "Claim \<Rightarrow> int" where
  "consumedQuantity c = (if icStatus c = Confirmed then icQuantity c - icReturned c else icQuantity c)"

definition activeAllocation :: "time \<Rightarrow> ChannelAllocation \<Rightarrow> bool" where
  "activeAllocation clk a = (case alReleaseAt a of None \<Rightarrow> True | Some r \<Rightarrow> r > clk)"

definition windowAdmits :: "time option \<Rightarrow> time option \<Rightarrow> time \<Rightarrow> bool" where
  "windowAdmits opens closes clk \<longleftrightarrow>
     (case opens of None \<Rightarrow> True | Some o' \<Rightarrow> o' \<le> clk) \<and>
     (case closes of None \<Rightarrow> True | Some c \<Rightarrow> c > clk)"

definition windowOpen :: "time \<Rightarrow> ChannelAllocation \<Rightarrow> bool" where
  "windowOpen clk a = windowAdmits (alOpensAt a) (alClosesAt a) clk"

definition codeWindowOpen :: "time \<Rightarrow> PresaleCode \<Rightarrow> bool" where
  "codeWindowOpen clk c = windowAdmits (cdOpensAt c) (cdClosesAt c) clk"

text \<open>\<open>Claim.expired\<close> at the transaction's start.\<close>

definition expired :: "time \<Rightarrow> Claim \<Rightarrow> bool" where
  "expired at c \<longleftrightarrow> icStatus c = Held \<and> (case icExpiresAt c of None \<Rightarrow> False | Some e \<Rightarrow> \<not> at < e)"

text \<open>A sum over the claims, each row with its weight.\<close>

definition tally :: "(Claim \<Rightarrow> int) \<Rightarrow> InventoryDB \<Rightarrow> int" where
  "tally w db = sum_list (map w (ivClaims db))"

definition liveIn :: "time \<Rightarrow> uuid \<Rightarrow> Claim \<Rightarrow> int" where
  "liveIn now pool c = (if icPoolID c = pool \<and> isLive now c then icQuantity c else 0)"

definition usedIn :: "time \<Rightarrow> uuid \<Rightarrow> string \<Rightarrow> Claim \<Rightarrow> int" where
  "usedIn now pool ch c =
     (if icPoolID c = pool \<and> icChannel c = Some ch \<and> consuming now c then consumedQuantity c else 0)"

definition redeemedBy :: "uuid \<Rightarrow> string \<Rightarrow> string \<Rightarrow> Claim \<Rightarrow> int" where
  "redeemedBy org ch code c =
     (if icOrganizerID c = org \<and> icChannel c = Some ch \<and> icPresaleCode c = Some code \<and> presaleUsage c
      then consumedQuantity c else 0)"

definition liveHeld :: "time \<Rightarrow> uuid \<Rightarrow> InventoryDB \<Rightarrow> int" where
  "liveHeld now pool db = tally (liveIn now pool) db"

definition channelConsumed :: "time \<Rightarrow> uuid \<Rightarrow> string \<Rightarrow> InventoryDB \<Rightarrow> int" where
  "channelConsumed now pool ch db = tally (usedIn now pool ch) db"

definition codeRedeemed :: "uuid \<Rightarrow> string \<Rightarrow> string \<Rightarrow> InventoryDB \<Rightarrow> int" where
  "codeRedeemed org ch code db = tally (redeemedBy org ch code) db"

definition reservedForChannels :: "time \<Rightarrow> time \<Rightarrow> uuid \<Rightarrow> InventoryDB \<Rightarrow> int" where
  "reservedForChannels now clk pool db =
     sum_list (map (\<lambda>a. max (alCap a - channelConsumed now pool (alChannel a) db) 0)
       (filter (activeAllocation clk) (ivAllocations db pool)))"

definition capacityLimit :: "Pool \<Rightarrow> int" where
  "capacityLimit p = (case ipTarget p of None \<Rightarrow> ipCapacity p | Some t \<Rightarrow> t)"

section \<open>Statements\<close>

definition poolCheck :: "Pool \<Rightarrow> bool" where
  "poolCheck p \<longleftrightarrow> int32 (ipCapacity p) \<and> ipCapacity p > 0 \<and> int32 (ipConfirmed p) \<and> ipConfirmed p \<ge> 0 \<and>
     (case ipTarget p of None \<Rightarrow> True | Some t \<Rightarrow> int32 t \<and> t > 0 \<and> t < ipCapacity p)"

definition updatePool :: "uuid \<Rightarrow> (Pool \<Rightarrow> Pool) \<Rightarrow> InventoryDB \<Rightarrow> inv_error + InventoryDB" where
  "updatePool slot f db =
     (case ivPools db slot of
        None \<Rightarrow> Inr db
      | Some p \<Rightarrow> if poolCheck (f p) then Inr (db\<lparr>ivPools := (ivPools db)(slot \<mapsto> f p)\<rparr>) else Inl ErrDatabase)"

definition notBlank :: "string \<Rightarrow> bool" where
  "notBlank s = list_ex (\<lambda>c. c \<noteq> CHR '' '') s"

text \<open>The CHECKs of the claims table: ranges, \<open>claims_kind_shape\<close>, the code's channel, the scope.\<close>

definition kindShape :: "Claim \<Rightarrow> bool" where
  "kindShape c =
     (case icKind c of
        BuyerClaim \<Rightarrow> icExpiresAt c \<noteq> None \<and> icPurpose c = None \<and> icLabel c = None \<and> icCounterparty c = None
      | OperationalClaim \<Rightarrow> icExpiresAt c = None \<and>
          (case icPurpose c of None \<Rightarrow> False | Some q \<Rightarrow> q \<in> {''house'', ''artist'', ''kill'', ''other''}) \<and>
          (case icLabel c of None \<Rightarrow> False | Some l \<Rightarrow> notBlank l) \<and>
          icChannel c = None \<and> icCounterparty c = None
      | ReservationClaim \<Rightarrow> icExpiresAt c \<noteq> None \<and>
          (case icCounterparty c of None \<Rightarrow> False | Some l \<Rightarrow> notBlank l) \<and>
          icPurpose c = None \<and> icLabel c = None)"

definition bounded :: "nat \<Rightarrow> string option \<Rightarrow> bool" where
  "bounded n s = (case s of None \<Rightarrow> True | Some t \<Rightarrow> 1 \<le> length t \<and> length t \<le> n)"

definition claimCheck :: "Claim \<Rightarrow> bool" where
  "claimCheck c \<longleftrightarrow> int32 (icQuantity c) \<and> icQuantity c > 0 \<and> 0 \<le> icReturned c \<and> icReturned c \<le> icQuantity c \<and>
     (case icUnitAmount c of None \<Rightarrow> True | Some u \<Rightarrow> int64 u \<and> u \<ge> 0) \<and>
     (case icCurrency c of None \<Rightarrow> True | Some u \<Rightarrow> length u \<le> 3) \<and>
     kindShape c \<and> bounded 100 (icChannel c) \<and> bounded 100 (icPresaleCode c) \<and>
     (icPresaleCode c = None \<or> icChannel c \<noteq> None) \<and> (icStaff c \<longrightarrow> icReseller c = None)"

text \<open>The three unique indexes: public, staff and reseller requests have keys of their own.\<close>

definition sameScope :: "Claim \<Rightarrow> Claim \<Rightarrow> bool" where
  "sameScope c d \<longleftrightarrow> icOrganizerID c = icOrganizerID d \<and> icKey c = icKey d \<and> icReseller c = icReseller d \<and>
     icStaff c = icStaff d"

definition insertClaim :: "Claim \<Rightarrow> InventoryDB \<Rightarrow> inv_error + InventoryDB" where
  "insertClaim c db =
     (if \<not> claimCheck c then Inl ErrDatabase
      else if icID c \<in> icID ` set (ivClaims db) then Inl ErrDatabase
      else if list_ex (sameScope c) (ivClaims db) then Inl ErrIdempotency
      else Inr (db\<lparr>ivClaims := ivClaims db @ [c]\<rparr>))"

definition changeClaim :: "uuid \<Rightarrow> (Claim \<Rightarrow> Claim) \<Rightarrow> InventoryDB \<Rightarrow> InventoryDB" where
  "changeClaim i f db = db\<lparr>ivClaims := map (\<lambda>c. if icID c = i then f c else c) (ivClaims db)\<rparr>"

definition setStatus :: "ClaimStatus \<Rightarrow> uuid \<Rightarrow> InventoryDB \<Rightarrow> InventoryDB" where
  "setStatus st i db = changeClaim i (\<lambda>c. c\<lparr>icStatus := st\<rparr>) db"

definition statusText :: "ClaimStatus \<Rightarrow> string" where
  "statusText s = (case s of Held \<Rightarrow> ''held'' | Finalizing \<Rightarrow> ''finalizing'' | Confirmed \<Rightarrow> ''confirmed''
     | Released \<Rightarrow> ''released'' | Expired \<Rightarrow> ''expired'')"

definition historyCheck :: "HistoryRow \<Rightarrow> bool" where
  "historyCheck h \<longleftrightarrow> notBlank (ihActor h) \<and> notBlank (ihReason h) \<and> ihQuantity h > 0 \<and> ihQuantityAfter h \<ge> 0"

definition insertHistory :: "HistoryRow \<Rightarrow> InventoryDB \<Rightarrow> inv_error + InventoryDB" where
  "insertHistory h db =
     (if \<not> historyCheck h then Inl ErrDatabase
      else if ihKey h \<noteq> None \<and>
        list_ex (\<lambda>g. ihOrganizerID g = ihOrganizerID h \<and> ihKey g = ihKey h) (ivHistory db) then Inl ErrDatabase
      else Inr (db\<lparr>ivHistory := ivHistory db @ [h]\<rparr>))"

definition appendHistory ::
  "uuid \<Rightarrow> uuid \<Rightarrow> uuid option \<Rightarrow> string \<Rightarrow> string \<Rightarrow> string \<Rightarrow> int \<Rightarrow> int \<Rightarrow> ClaimStatus \<Rightarrow>
   (string \<times> string) option \<Rightarrow> InventoryDB \<Rightarrow> inv_error + InventoryDB" where
  "appendHistory org claim related action actor reason qty qtyAfter st keyFP db =
     insertHistory \<lparr>ihOrganizerID = org, ihClaimID = Some claim, ihRelatedID = related, ihPoolID = None,
       ihAction = action, ihActor = actor, ihReason = reason, ihQuantity = qty, ihQuantityAfter = qtyAfter,
       ihStatusAfter = statusText st, ihTarget = None, ihKey = map_option fst keyFP,
       ihFingerprint = map_option snd keyFP\<rparr> db"

definition releaseSeatsForTerminal :: "uuid \<Rightarrow> InventoryDB \<Rightarrow> InventoryDB" where
  "releaseSeatsForTerminal pool db =
     db\<lparr>ivSeats := map (\<lambda>s. if csPoolID s = pool \<and>
           list_ex (\<lambda>c. icID c = csClaimID s \<and> icPoolID c = pool \<and> icStatus c \<in> {Expired, Released}) (ivClaims db)
         then s\<lparr>csReleased := True\<rparr> else s) (ivSeats db)\<rparr>"

text \<open>
  While demand exceeds the target of a cut, capacity follows demand down; once demand
  reaches the target, capacity lands there and the target clears.
\<close>

definition reconcileCapacity :: "time \<Rightarrow> uuid \<Rightarrow> InventoryDB \<Rightarrow> inv_error + InventoryDB" where
  "reconcileCapacity now pool db =
     (case ivPools db pool of
        None \<Rightarrow> Inr db
      | Some p \<Rightarrow> (case ipTarget p of
          None \<Rightarrow> Inr db
        | Some t \<Rightarrow>
            bindE (asInt32 (liveHeld now pool db)) (\<lambda>held.
            bindE (asInt32 (ipConfirmed p + held)) (\<lambda>demand.
              updatePool pool (\<lambda>p. p\<lparr>ipCapacity := max t demand,
                ipTarget := (if demand \<le> t then None else Some t)\<rparr>) db))))"

definition dueIn :: "time \<Rightarrow> uuid \<Rightarrow> Claim \<Rightarrow> bool" where
  "dueIn now pool c \<longleftrightarrow> icPoolID c = pool \<and> icStatus c = Held \<and>
     (case icExpiresAt c of None \<Rightarrow> False | Some e \<Rightarrow> e \<le> now)"

definition expiryRow :: "Claim \<Rightarrow> HistoryRow" where
  "expiryRow c = \<lparr>ihOrganizerID = icOrganizerID c, ihClaimID = Some (icID c), ihRelatedID = None,
     ihPoolID = None, ihAction = ''expire'', ihActor = ''system'', ihReason = ''ttl_elapsed'',
     ihQuantity = icQuantity c, ihQuantityAfter = 0, ihStatusAfter = ''expired'', ihTarget = None,
     ihKey = None, ihFingerprint = None\<rparr>"

definition sweepExpired :: "time \<Rightarrow> uuid \<Rightarrow> InventoryDB \<Rightarrow> inv_error + InventoryDB" where
  "sweepExpired now pool db =
     bindE (foldE (\<lambda>c. insertHistory (expiryRow c)) (filter (dueIn now pool) (ivClaims db))
        (db\<lparr>ivClaims := map (\<lambda>c. if dueIn now pool c then c\<lparr>icStatus := Expired\<rparr> else c) (ivClaims db)\<rparr>))
       (\<lambda>db1. reconcileCapacity now pool (releaseSeatsForTerminal pool db1))"

section \<open>The offering\<close>

definition guardOffering :: "Pool \<Rightarrow> inv_error option" where
  "guardOffering p =
     (if ipLifecycle p = Archived then Some ErrSlotArchived
      else if ipClosure p = ClosedSlot then Some ErrSlotClosed else None)"

definition offeringOpen :: "Pool \<Rightarrow> bool" where
  "offeringOpen p \<longleftrightarrow> ipLifecycle p \<noteq> Archived \<and> ipClosure p \<noteq> ClosedSlot"

definition effectiveCapacity :: "Pool \<Rightarrow> int \<Rightarrow> int" where
  "effectiveCapacity p held = wrap32 (max (capacityLimit p) (ipConfirmed p + held))"

end
