(* ===== verification/Inventory_Holds.thy ===== *)
theory Inventory_Holds
  imports Inventory_State
begin

text \<open>
  The buyer's path through \<open>src/services/inventory/internal/store/store.go\<close>: provisioning
  a pool, granting a hold (\<open>CreateHold\<close>), the checkout transitions of a claim
  (\<open>Transition\<close>) and the public availability read; with the presale gate of
  \<open>presale_codes.go\<close>. Each method is one transaction under the pool lock.
\<close>

section \<open>Provisioning\<close>

definition Provision :: "uuid \<Rightarrow> uuid \<Rightarrow> uuid \<Rightarrow> int \<Rightarrow> InventoryDB \<Rightarrow> (inv_error + unit) \<times> InventoryDB" where
  "Provision eventID slotID organizerID capacity db =
     (if capacity \<le> 0 then (Inl (ErrInput ''capacity must be positive''), db)
      else transact (\<lambda>db.
        if eventID \<in> set (ivEvents db) then Inr (Inr (), db)
        else let db1 = db\<lparr>ivEvents := ivEvents db @ [eventID]\<rparr>;
                 p = \<lparr>ipOrganizerID = organizerID, ipCapacity = capacity, ipConfirmed = 0, ipTarget = None,
                      ipLifecycle = Published, ipClosure = OpenSlot, ipKind = GAPool, ipRevision = 0,
                      ipSourceEvent = eventID\<rparr> in
          (case ivPools db1 slotID of
             None \<Rightarrow> if poolCheck p then Inr (Inr (), db1\<lparr>ivPools := (ivPools db1)(slotID \<mapsto> p)\<rparr>)
                     else Inl ErrDatabase
           | Some old \<Rightarrow>
               if ipOrganizerID old = organizerID \<and> ipConfirmed old = 0 \<and>
                  \<not> list_ex (\<lambda>c. icPoolID c = slotID) (ivClaims db1) \<and>
                  \<not> list_ex (\<lambda>h. ihPoolID h = Some slotID) (ivHistory db1)
               then bindE (updatePool slotID (\<lambda>q. q\<lparr>ipCapacity := capacity\<rparr>) db1) (\<lambda>db2. Inr (Inr (), db2))
               else Inr (Inr (), db1))) db)"

section \<open>Request identity\<close>

text \<open>\<open>sha\<close> is SHA-256 in lower-case hexadecimal.\<close>

definition fingerprintText ::
  "uuid \<Rightarrow> uuid \<Rightarrow> uuid \<Rightarrow> int \<Rightarrow> int \<Rightarrow> string \<Rightarrow> string \<Rightarrow> string \<Rightarrow> uuid \<Rightarrow> string" where
  "fingerprintText org slot ticketType qty unitAmount currency channel presaleCode reseller =
     joinWith CHR '':'' [uuid_String org, uuid_String slot, uuid_String ticketType, formatInt qty,
       formatInt unitAmount, currency] @
     (if channel = '''' then '''' else '':'' @ channel) @
     (if presaleCode = '''' then ''''
      else '':c'' @ formatInt (int (length channel)) @ '':'' @ channel @ '':p'' @
           formatInt (int (length presaleCode)) @ '':'' @ presaleCode) @
     (if reseller = uuid_Nil then ''''
      else '':r'' @ formatInt (int (length (uuid_String reseller))) @ '':'' @ uuid_String reseller)"

definition resellerScope :: "uuid \<Rightarrow> uuid option" where
  "resellerScope r = (if r = uuid_Nil then None else Some r)"

definition sellerAdmits :: "uuid option \<Rightarrow> uuid \<Rightarrow> bool" where
  "sellerAdmits soldBy caller =
     (case soldBy of None \<Rightarrow> True | Some s \<Rightarrow> caller \<noteq> uuid_Nil \<and> s = caller)"

definition storedCurrency :: "string \<Rightarrow> string" where
  "storedCurrency currency =
     (if length currency > 3 \<and> (\<forall>c \<in> set (drop 3 currency). c = CHR '' '') then take 3 currency else currency)"

definition nullIf :: "string \<Rightarrow> string option" where
  "nullIf s = (if s = '''' then None else Some s)"

record HoldRequest =
  hqOrganizerID :: uuid
  hqSlotID :: uuid
  hqTicketTypeID :: uuid
  hqQuantity :: int
  hqUnitAmount :: int
  hqCurrency :: string
  hqChannel :: string
  hqKey :: string
  hqPresaleCode :: string
  hqReseller :: uuid

definition requestFP :: "(string \<Rightarrow> string) \<Rightarrow> HoldRequest \<Rightarrow> string" where
  "requestFP sha r = sha (fingerprintText (hqOrganizerID r) (hqSlotID r) (hqTicketTypeID r) (hqQuantity r)
     (hqUnitAmount r) (hqCurrency r) (hqChannel r) (hqPresaleCode r) (hqReseller r))"

section \<open>The presale gate\<close>

definition findCode :: "uuid \<Rightarrow> string \<Rightarrow> string \<Rightarrow> InventoryDB \<Rightarrow> PresaleCode option" where
  "findCode org ch code db =
     find (\<lambda>c. cdOrganizerID c = org \<and> cdChannel c = ch \<and> cdCode c = code) (ivCodes db)"

definition redeemPresaleCode ::
  "time \<Rightarrow> uuid \<Rightarrow> uuid \<Rightarrow> string \<Rightarrow> string \<Rightarrow> int \<Rightarrow> InventoryDB \<Rightarrow> inv_error option" where
  "redeemPresaleCode clk org slot channel code qty db =
     (if code = '''' then Some ErrPresaleCodeInvalid
      else case find (\<lambda>a. alChannel a = channel) (ivAllocations db slot) of
        None \<Rightarrow> Some ErrDatabase
      | Some a \<Rightarrow>
          (case findCode org channel code db of
             None \<Rightarrow> Some ErrPresaleCodeInvalid
           | Some c \<Rightarrow>
               if \<not> windowOpen clk a \<or> \<not> codeWindowOpen clk c then Some ErrPresaleCodeInvalid
               else (case cdMax c of
                   None \<Rightarrow> None
                 | Some m \<Rightarrow> if codeRedeemed org channel code db + qty > m then Some ErrPresaleCodeInvalid
                            else None)))"

section \<open>Granting a hold\<close>

text \<open>The claim an earlier request with this key, in this reseller scope, left behind.\<close>

definition priorClaim :: "HoldRequest \<Rightarrow> InventoryDB \<Rightarrow> Claim option" where
  "priorClaim r db =
     find (\<lambda>c. icOrganizerID c = hqOrganizerID r \<and> icKey c = hqKey r \<and>
        icReseller c = resellerScope (hqReseller r) \<and> \<not> icStaff c) (ivClaims db)"

definition replayHold ::
  "(string \<Rightarrow> string) \<Rightarrow> Clock \<Rightarrow> HoldRequest \<Rightarrow> Claim \<Rightarrow> (Claim \<times> bool) body" where
  "replayHold sha ck r c db =
     (if icFingerprint c \<noteq> requestFP sha r \<or> icChannel c \<noteq> nullIf (hqChannel r) \<or>
         icCurrency c \<noteq> Some (storedCurrency (hqCurrency r)) then Inl ErrIdempotency
      else if expired (ckNow ck) c then
        bindE (appendHistory (hqOrganizerID r) (icID c) None ''expire'' ''system'' ''ttl_elapsed''
                 (icQuantity c) 0 Expired None (setStatus Expired (icID c) db))
          (\<lambda>db1. Inr (Inl ErrConflict, db1))
      else Inr (Inr (c, True), db))"

text \<open>
  What the requested channel says: \<open>None\<close> for a public request or a channel without an
  active allocation.
\<close>

definition channelGate ::
  "Clock \<Rightarrow> HoldRequest \<Rightarrow> InventoryDB \<Rightarrow> inv_error + ChannelAllocation option" where
  "channelGate ck r db =
     (if hqChannel r = '''' then Inr None
      else case find (\<lambda>a. alChannel a = hqChannel r \<and> activeAllocation (ckActive ck) a)
                 (ivAllocations db (hqSlotID r)) of
        None \<Rightarrow> Inr None
      | Some a \<Rightarrow>
          if \<not> windowOpen (ckWindow ck) a then Inl ErrChannelWindowClosed
          else if \<not> sellerAdmits (alSoldBy a) (hqReseller r) then Inl ErrUnavailable
          else if alRequiresCode a then
            (case redeemPresaleCode (ckCode ck) (hqOrganizerID r) (hqSlotID r) (hqChannel r)
                    (hqPresaleCode r) (hqQuantity r) db of
               Some e \<Rightarrow> Inl e
             | None \<Rightarrow> Inr (Some a))
          else Inr (Some a))"

text \<open>The capacity decision under the pool lock.\<close>

definition admitHold ::
  "Clock \<Rightarrow> HoldRequest \<Rightarrow> Pool \<Rightarrow> ChannelAllocation option \<Rightarrow> InventoryDB \<Rightarrow> inv_error option" where
  "admitHold ck r p alloc db =
     (case asInt32 (liveHeld (ckNow ck) (hqSlotID r) db) of
        Inl e \<Rightarrow> Some e
      | Inr held \<Rightarrow>
          let limit = capacityLimit p;
              globalShort = ipConfirmed p + held + hqQuantity r > limit in
          if hqChannel r \<noteq> '''' then
            (if globalShort then Some ErrUnavailable
             else case alloc of
               None \<Rightarrow> Some ErrUnavailable
             | Some a \<Rightarrow>
                 if channelConsumed (ckNow ck) (hqSlotID r) (hqChannel r) db + hqQuantity r > alCap a
                 then Some ErrUnavailable else None)
          else
            let publicRemaining = limit - ipConfirmed p - held -
                  reservedForChannels (ckNow ck) (ckReserved ck) (hqSlotID r) db in
            if publicRemaining \<le> 0 then Some ErrSoldOut
            else if hqQuantity r > publicRemaining \<or> globalShort then Some ErrUnavailable else None)"

definition heldClaim ::
  "(string \<Rightarrow> string) \<Rightarrow> int \<Rightarrow> Clock \<Rightarrow> uuid \<Rightarrow> HoldRequest \<Rightarrow> ChannelAllocation option \<Rightarrow> Claim" where
  "heldClaim sha ttl ck newID r alloc =
     \<lparr>icID = newID, icOrganizerID = hqOrganizerID r, icPoolID = hqSlotID r,
      icTicketTypeID = Some (hqTicketTypeID r), icQuantity = hqQuantity r, icReturned = 0,
      icUnitAmount = Some (hqUnitAmount r), icCurrency = Some (storedCurrency (hqCurrency r)), icStatus = Held,
      icExpiresAt = Some (ckInsert ck + ttl), icKey = hqKey r, icFingerprint = requestFP sha r,
      icKind = BuyerClaim, icChannel = nullIf (hqChannel r),
      icPresaleCode = (case alloc of None \<Rightarrow> None
         | Some a \<Rightarrow> if alRequiresCode a then nullIf (hqPresaleCode r) else None),
      icReseller = resellerScope (hqReseller r), icStaff = False, icPurpose = None, icLabel = None,
      icCounterparty = None\<rparr>"

definition grantHold ::
  "(string \<Rightarrow> string) \<Rightarrow> int \<Rightarrow> Clock \<Rightarrow> uuid \<Rightarrow> HoldRequest \<Rightarrow> Pool \<Rightarrow> (Claim \<times> bool) body" where
  "grantHold sha ttl ck newID r p db =
     (case guardOffering p of
        Some e \<Rightarrow> Inl e
      | None \<Rightarrow>
          bindE (sweepExpired (ckNow ck) (hqSlotID r) db) (\<lambda>db1.
          bindE (channelGate ck r db1) (\<lambda>alloc.
            case admitHold ck r p alloc db1 of
              Some e \<Rightarrow> Inl e
            | None \<Rightarrow>
                let c = heldClaim sha ttl ck newID r alloc in
                bindE (insertClaim c db1) (\<lambda>db2.
                bindE (appendHistory (hqOrganizerID r) newID None ''create'' ''buyer'' ''public_hold''
                         (hqQuantity r) (hqQuantity r) Held None db2) (\<lambda>db3.
                  Inr (Inr (c\<lparr>icCurrency := Some (hqCurrency r)\<rparr>, False), db3))))))"

definition CreateHold ::
  "(string \<Rightarrow> string) \<Rightarrow> int \<Rightarrow> Clock \<Rightarrow> uuid \<Rightarrow> HoldRequest \<Rightarrow> InventoryDB \<Rightarrow>
   (inv_error + (Claim \<times> bool)) \<times> InventoryDB" where
  "CreateHold sha ttl ck newID r db =
     (if hqQuantity r \<le> 0 then (Inl (ErrInput ''quantity must be positive''), db)
      else transact (\<lambda>db.
        case ivPools db (hqSlotID r) of
          None \<Rightarrow> Inl ErrNotFound
        | Some p \<Rightarrow>
            if ipOrganizerID p \<noteq> hqOrganizerID r then Inl ErrNotFound
            else if ipKind p = SeatedPool then Inl ErrPoolKindMismatch
            else (case priorClaim r db of
                Some c \<Rightarrow> replayHold sha ck r c db
              | None \<Rightarrow> grantHold sha ttl ck newID r p db)) db)"

section \<open>The checkout transitions\<close>

definition findClaim :: "uuid \<Rightarrow> uuid \<Rightarrow> InventoryDB \<Rightarrow> Claim option" where
  "findClaim org i db = find (\<lambda>c. icID c = i \<and> icOrganizerID c = org) (ivClaims db)"

text \<open>The expiry branch: the claim as the transaction goes on with it.\<close>

definition expireFirst :: "time \<Rightarrow> uuid \<Rightarrow> Claim \<Rightarrow> InventoryDB \<Rightarrow> inv_error + (Claim \<times> InventoryDB)" where
  "expireFirst now org c db =
     (if expired now c then
        bindE (appendHistory org (icID c) None ''expire'' ''system'' ''ttl_elapsed'' (icQuantity c) 0 Expired None
                 (setStatus Expired (icID c) db)) (\<lambda>db1.
        bindE (reconcileCapacity now (icPoolID c) (releaseSeatsForTerminal (icPoolID c) db1)) (\<lambda>db2.
          Inr (c\<lparr>icStatus := Expired\<rparr>, db2)))
      else Inr (c, db))"

text \<open>The terminal write of a live claim: confirm or release.\<close>

definition settleClaim :: "time \<Rightarrow> uuid \<Rightarrow> Claim \<Rightarrow> ClaimStatus \<Rightarrow> InventoryDB \<Rightarrow> inv_error + InventoryDB" where
  "settleClaim now org c target db =
     bindE (if target = Confirmed
            then updatePool (icPoolID c) (\<lambda>p. p\<lparr>ipConfirmed := ipConfirmed p + icQuantity c\<rparr>) db
            else Inr db) (\<lambda>db1.
     let db2 = setStatus target (icID c) db1 in
     bindE (if target = Released
            then reconcileCapacity now (icPoolID c) (releaseSeatsForTerminal (icPoolID c) db2)
            else Inr db2) (\<lambda>db3.
       appendHistory org (icID c) None (if target = Released then ''release'' else ''confirm'')
         ''commerce'' ''checkout'' (icQuantity c) (if target = Released then 0 else icQuantity c) target None db3))"

definition Transition ::
  "time \<Rightarrow> uuid \<Rightarrow> uuid \<Rightarrow> ClaimStatus \<Rightarrow> InventoryDB \<Rightarrow> (inv_error + Claim) \<times> InventoryDB" where
  "Transition now org i target db =
     (case findClaim org i db of
        None \<Rightarrow> (Inl ErrNotFound, db)
      | Some c0 \<Rightarrow> transact (\<lambda>db.
          if icKind c0 \<noteq> BuyerClaim then Inl ErrConflict
          else bindE (expireFirst now org c0 db) (\<lambda>(c, db1).
            if icStatus c = target then Inr (Inr c, db1)
            else if target = Finalizing \<and> icStatus c = Confirmed then Inr (Inr c, db1)
            else if target = Released \<and> icStatus c = Expired then Inr (Inr c, db1)
            else if target = Finalizing \<and> icStatus c = Held then
              bindE (appendHistory org i None ''finalize'' ''commerce'' ''checkout'' (icQuantity c) (icQuantity c)
                       Finalizing None (setStatus Finalizing i db1))
                (\<lambda>db2. Inr (Inr (c\<lparr>icStatus := Finalizing\<rparr>), db2))
            else if icStatus c \<noteq> Held \<and> icStatus c \<noteq> Finalizing then Inl ErrConflict
            else bindE (settleClaim now org c target db1)
                   (\<lambda>db2. Inr (Inr (c\<lparr>icStatus := target\<rparr>), db2)))) db)"

section \<open>Availability\<close>

record Availability =
  avCapacity :: int
  avHeld :: int
  avConfirmed :: int
  avAvailable :: int
  avOpen :: bool

definition clampAvailable :: "int \<Rightarrow> int" where
  "clampAvailable v = (if v < 0 then 0 else wrap32 v)"

text \<open>
  Two statements outside a transaction: \<open>ckNow ck\<close> is the first one's \<open>now()\<close>, \<open>now2\<close> the
  second one's.
\<close>

definition Availability_read ::
  "Clock \<Rightarrow> time \<Rightarrow> uuid \<Rightarrow> uuid \<Rightarrow> string \<Rightarrow> InventoryDB \<Rightarrow> inv_error + Availability" where
  "Availability_read ck now2 org slot channel db =
     (case ivPools db slot of
        None \<Rightarrow> Inl ErrNotFound
      | Some p \<Rightarrow>
          if ipOrganizerID p \<noteq> org then Inl ErrNotFound
          else bindE (asInt32 (liveHeld (ckNow ck) slot db)) (\<lambda>held.
            let cap = effectiveCapacity p held;
                remaining = (if offeringOpen p then cap - ipConfirmed p - held else 0);
                a = \<lparr>avCapacity = cap, avHeld = held, avConfirmed = ipConfirmed p, avAvailable = 0,
                     avOpen = offeringOpen p\<rparr> in
            if channel \<noteq> '''' then
              (case find (\<lambda>al. alChannel al = channel \<and> activeAllocation (ckActive ck) al)
                      (ivAllocations db slot) of
                 None \<Rightarrow> Inr a
               | Some al \<Rightarrow>
                   if \<not> windowOpen (ckWindow ck) al then Inr a
                   else Inr (a\<lparr>avAvailable := clampAvailable (min remaining
                     (alCap al - channelConsumed now2 slot channel db))\<rparr>))
            else Inr (a\<lparr>avAvailable := clampAvailable
                   (remaining - reservedForChannels now2 (ckReserved ck) slot db)\<rparr>)))"

end
