(* ===== verification/Inventory_Operations.thy ===== *)
theory Inventory_Operations
  imports Inventory_Holds
begin

text \<open>
  The staff and system operations on a pool, from \<open>src/services/inventory/internal/store\<close>:
  operational holds and their conversion (\<open>operational.go\<close>), group reservations and their
  draw-down (\<open>reservations.go\<close>), capacity cuts (\<open>capacity.go\<close>), channel allocations
  (\<open>channel_allocations.go\<close>), refunded capacity (\<open>refund_returns.go\<close>), presale codes
  (\<open>presale_codes.go\<close>) and the offering state catalog announces (\<open>offering.go\<close>).
\<close>

section \<open>The registry of staff requests\<close>

text \<open>\<open>fmt.Appendf(nil, "%v", parts)\<close> of values that print as the given strings.\<close>

definition opFingerprint :: "(string \<Rightarrow> string) \<Rightarrow> string list \<Rightarrow> string" where
  "opFingerprint sha parts = sha (''['' @ joinWith CHR '' '' parts @ '']'')"

definition registryLookup ::
  "uuid \<Rightarrow> string \<Rightarrow> string \<Rightarrow> InventoryDB \<Rightarrow> inv_error + HistoryRow option" where
  "registryLookup org key fp db =
     (case find (\<lambda>h. ihOrganizerID h = org \<and> ihKey h = Some key) (ivHistory db) of
        None \<Rightarrow> Inr None
      | Some h \<Rightarrow> if ihFingerprint h \<noteq> Some fp then Inl ErrIdempotency else Inr (Some h))"

section \<open>Operational holds (operational.go)\<close>

record OperationalHold =
  ohID :: "uuid option"
  ohQuantity :: int
  ohPurpose :: string
  ohLabel :: string
  ohStatus :: string

definition operationalClaim ::
  "uuid \<Rightarrow> uuid \<Rightarrow> uuid \<Rightarrow> int \<Rightarrow> string \<Rightarrow> string \<Rightarrow> string \<Rightarrow> string \<Rightarrow> Claim" where
  "operationalClaim newID org slot qty purpose label key fp =
     \<lparr>icID = newID, icOrganizerID = org, icPoolID = slot, icTicketTypeID = None, icQuantity = qty,
      icReturned = 0, icUnitAmount = None, icCurrency = None, icStatus = Held, icExpiresAt = None,
      icKey = key, icFingerprint = fp, icKind = OperationalClaim, icChannel = None, icPresaleCode = None,
      icReseller = None, icStaff = True, icPurpose = Some purpose, icLabel = Some label,
      icCounterparty = None\<rparr>"

definition PlaceOperationalHold ::
  "(string \<Rightarrow> string) \<Rightarrow> Clock \<Rightarrow> uuid \<Rightarrow> uuid \<Rightarrow> uuid \<Rightarrow> int \<Rightarrow> string \<Rightarrow> string \<Rightarrow> string \<Rightarrow> string \<Rightarrow> string \<Rightarrow>
   InventoryDB \<Rightarrow> (inv_error + (OperationalHold \<times> bool)) \<times> InventoryDB" where
  "PlaceOperationalHold sha ck newID org slot qty purpose label actor reason key db =
     (if qty \<le> 0 then (Inl (ErrInput ''quantity must be positive''), db)
      else let fp = opFingerprint sha [''op-place'', uuid_String org, uuid_String slot, formatInt qty, purpose, label] in
      transact (\<lambda>db.
        case ivPools db slot of
          None \<Rightarrow> Inl ErrNotFound
        | Some p \<Rightarrow>
            if ipOrganizerID p \<noteq> org then Inl ErrNotFound
            else if ipKind p = SeatedPool then Inl ErrPoolKindMismatch
            else bindE (registryLookup org key fp db) (\<lambda>prior.
              case prior of
                Some h \<Rightarrow> Inr (Inr (\<lparr>ohID = ihClaimID h, ohQuantity = ihQuantity h, ohPurpose = purpose,
                    ohLabel = label, ohStatus = ihStatusAfter h\<rparr>, True), db)
              | None \<Rightarrow>
                  (case guardOffering p of
                     Some e \<Rightarrow> Inl e
                   | None \<Rightarrow>
                       bindE (sweepExpired (ckNow ck) slot db) (\<lambda>db1.
                       bindE (asInt32 (liveHeld (ckNow ck) slot db1)) (\<lambda>held.
                         if ipConfirmed p + held + qty > capacityLimit p then Inl ErrUnavailable
                         else
                           bindE (insertClaim (operationalClaim newID org slot qty purpose label key fp) db1) (\<lambda>db2.
                           bindE (appendHistory org newID None ''place'' actor reason qty qty Held
                                    (Some (key, fp)) db2) (\<lambda>db3.
                             Inr (Inr (\<lparr>ohID = Some newID, ohQuantity = qty, ohPurpose = purpose,
                               ohLabel = label, ohStatus = ''held''\<rparr>, False), db3)))))))) db)"

text \<open>What a release, a conversion and a draw-down do to the claim they take from.\<close>

definition takeFrom :: "uuid \<Rightarrow> int \<Rightarrow> Claim \<Rightarrow> InventoryDB \<Rightarrow> InventoryDB" where
  "takeFrom i qty c db =
     (if qty = icQuantity c then setStatus Released i db
      else changeClaim i (\<lambda>x. x\<lparr>icQuantity := icQuantity x - qty\<rparr>) db)"

definition leftAfter :: "int \<Rightarrow> Claim \<Rightarrow> ClaimStatus \<times> int" where
  "leftAfter qty c = (if qty = icQuantity c then (Released, 0) else (Held, icQuantity c - qty))"

definition ReleaseOperational ::
  "(string \<Rightarrow> string) \<Rightarrow> time \<Rightarrow> uuid \<Rightarrow> uuid \<Rightarrow> int \<Rightarrow> string \<Rightarrow> string \<Rightarrow> string \<Rightarrow> InventoryDB \<Rightarrow>
   (inv_error + (OperationalHold \<times> bool)) \<times> InventoryDB" where
  "ReleaseOperational sha now org i qty actor reason key db =
     (if qty \<le> 0 then (Inl (ErrInput ''quantity must be positive''), db)
      else let fp = opFingerprint sha [''op-release'', uuid_String org, uuid_String i, formatInt qty] in
      (case findClaim org i db of
         None \<Rightarrow> (Inl ErrNotFound, db)
       | Some c \<Rightarrow> transact (\<lambda>db.
           bindE (registryLookup org key fp db) (\<lambda>prior.
             case prior of
               Some h \<Rightarrow> Inr (Inr (\<lparr>ohID = ihClaimID h, ohQuantity = ihQuantityAfter h, ohPurpose = '''',
                   ohLabel = '''', ohStatus = ihStatusAfter h\<rparr>, True), db)
             | None \<Rightarrow>
                 if icKind c \<noteq> OperationalClaim then Inl ErrNotFound
                 else if icStatus c \<noteq> Held \<or> qty > icQuantity c then Inl ErrConflict
                 else
                   bindE (appendHistory org i None ''release'' actor reason qty (snd (leftAfter qty c))
                            (fst (leftAfter qty c)) (Some (key, fp)) (takeFrom i qty c db)) (\<lambda>db1.
                   bindE (reconcileCapacity now (icPoolID c) db1) (\<lambda>db2.
                     Inr (Inr (\<lparr>ohID = Some i, ohQuantity = snd (leftAfter qty c),
                       ohPurpose = (case icPurpose c of None \<Rightarrow> '''' | Some x \<Rightarrow> x),
                       ohLabel = (case icLabel c of None \<Rightarrow> '''' | Some x \<Rightarrow> x),
                       ohStatus = statusText (fst (leftAfter qty c))\<rparr>, False), db2))))) db))"

text \<open>The sale a staff member makes out of a hold: the child claim and what is left.\<close>

record SaleRequest =
  sqOrganizerID :: uuid
  sqSourceID :: uuid
  sqTicketTypeID :: uuid
  sqExpectedSlot :: uuid
  sqQuantity :: int
  sqUnitAmount :: int
  sqCurrency :: string
  sqActor :: string
  sqReason :: string
  sqKey :: string

record ConvertResult =
  cvChild :: Claim
  cvSourceID :: uuid
  cvSourceRemaining :: int
  cvSourceStatus :: string

definition saleFP :: "(string \<Rightarrow> string) \<Rightarrow> string \<Rightarrow> SaleRequest \<Rightarrow> string" where
  "saleFP sha op r = opFingerprint sha [op, uuid_String (sqOrganizerID r), uuid_String (sqSourceID r),
     formatInt (sqQuantity r), uuid_String (sqTicketTypeID r), uuid_String (sqExpectedSlot r),
     formatInt (sqUnitAmount r), sqCurrency r]"

definition saleClaim ::
  "int \<Rightarrow> Clock \<Rightarrow> uuid \<Rightarrow> SaleRequest \<Rightarrow> string \<Rightarrow> string option \<Rightarrow> string option \<Rightarrow> Claim" where
  "saleClaim ttl ck newID r fp channel code =
     \<lparr>icID = newID, icOrganizerID = sqOrganizerID r, icPoolID = sqExpectedSlot r,
      icTicketTypeID = Some (sqTicketTypeID r), icQuantity = sqQuantity r, icReturned = 0,
      icUnitAmount = Some (sqUnitAmount r), icCurrency = Some (storedCurrency (sqCurrency r)), icStatus = Held,
      icExpiresAt = Some (ckInsert ck + ttl), icKey = sqKey r, icFingerprint = fp, icKind = BuyerClaim,
      icChannel = channel, icPresaleCode = code, icReseller = None, icStaff = True, icPurpose = None,
      icLabel = None, icCounterparty = None\<rparr>"

text \<open>The replay of a conversion: the child its history row names.\<close>

definition replaySale :: "SaleRequest \<Rightarrow> HistoryRow \<Rightarrow> uuid \<Rightarrow> (ConvertResult \<times> bool) body" where
  "replaySale r h rel db =
     (case find (\<lambda>c. icID c = rel) (ivClaims db) of
        None \<Rightarrow> Inl ErrDatabase
      | Some child \<Rightarrow> Inr (Inr (\<lparr>cvChild = child, cvSourceID = sqSourceID r,
          cvSourceRemaining = ihQuantityAfter h, cvSourceStatus = ihStatusAfter h\<rparr>, True), db))"

definition sellFrom ::
  "int \<Rightarrow> Clock \<Rightarrow> uuid \<Rightarrow> SaleRequest \<Rightarrow> string \<Rightarrow> string \<Rightarrow> Claim \<Rightarrow> string option \<Rightarrow> string option \<Rightarrow>
   (ConvertResult \<times> bool) body" where
  "sellFrom ttl ck newID r fp action c channel code db =
     (if icPoolID c \<noteq> sqExpectedSlot r then Inl ErrConflict
      else if icStatus c \<noteq> Held \<or> sqQuantity r > icQuantity c then Inl ErrConflict
      else let child = saleClaim ttl ck newID r fp channel code in
        bindE (insertClaim child db) (\<lambda>db1.
        bindE (appendHistory (sqOrganizerID r) (sqSourceID r) (Some newID) action (sqActor r) (sqReason r)
                 (sqQuantity r) (snd (leftAfter (sqQuantity r) c)) (fst (leftAfter (sqQuantity r) c))
                 (Some (sqKey r, fp)) (takeFrom (sqSourceID r) (sqQuantity r) c db1)) (\<lambda>db2.
          Inr (Inr (\<lparr>cvChild = child\<lparr>icCurrency := Some (sqCurrency r)\<rparr>, cvSourceID = sqSourceID r,
            cvSourceRemaining = snd (leftAfter (sqQuantity r) c),
            cvSourceStatus = statusText (fst (leftAfter (sqQuantity r) c))\<rparr>, False), db2))))"

definition ConvertOperational ::
  "(string \<Rightarrow> string) \<Rightarrow> int \<Rightarrow> Clock \<Rightarrow> uuid \<Rightarrow> SaleRequest \<Rightarrow> InventoryDB \<Rightarrow>
   (inv_error + (ConvertResult \<times> bool)) \<times> InventoryDB" where
  "ConvertOperational sha ttl ck newID r db =
     (if sqQuantity r \<le> 0 then (Inl (ErrInput ''quantity must be positive''), db)
      else let fp = saleFP sha ''op-convert'' r in
      (case findClaim (sqOrganizerID r) (sqSourceID r) db of
         None \<Rightarrow> (Inl ErrNotFound, db)
       | Some c \<Rightarrow> transact (\<lambda>db.
           bindE (registryLookup (sqOrganizerID r) (sqKey r) fp db) (\<lambda>prior.
             case (prior, Option.bind prior ihRelatedID) of
               (Some h, Some rel) \<Rightarrow> replaySale r h rel db
             | _ \<Rightarrow>
                 if icKind c \<noteq> OperationalClaim then Inl ErrNotFound
                 else sellFrom ttl ck newID r fp ''convert'' c None None db)) db))"

section \<open>Group reservations (reservations.go)\<close>

record GroupRequest =
  gqHold :: HoldRequest
  gqCounterparty :: string
  gqExpiresAt :: time
  gqActor :: string
  gqReason :: string

record GroupReservation =
  grID :: "uuid option"
  grQuantity :: int
  grStatus :: string
  grExpiresAt :: time

text \<open>\<open>rfc\<close> prints an instant as \<open>time.RFC3339Nano\<close> in UTC.\<close>

definition groupFP :: "(string \<Rightarrow> string) \<Rightarrow> (time \<Rightarrow> string) \<Rightarrow> GroupRequest \<Rightarrow> string" where
  "groupFP sha rfc g = (let r = gqHold g in
     opFingerprint sha ([''grp-place'', uuid_String (hqOrganizerID r), uuid_String (hqSlotID r),
       formatInt (hqQuantity r), gqCounterparty g, rfc (gqExpiresAt g), hqChannel r] @
       (if hqPresaleCode r = '''' then []
        else [''c'' @ formatInt (int (length (hqChannel r))) @ '':'' @ hqChannel r @ '':p'' @
              formatInt (int (length (hqPresaleCode r))) @ '':'' @ hqPresaleCode r])))"

definition reservationClaim ::
  "uuid \<Rightarrow> GroupRequest \<Rightarrow> string \<Rightarrow> ChannelAllocation option \<Rightarrow> Claim" where
  "reservationClaim newID g fp alloc = (let r = gqHold g in
     \<lparr>icID = newID, icOrganizerID = hqOrganizerID r, icPoolID = hqSlotID r, icTicketTypeID = None,
      icQuantity = hqQuantity r, icReturned = 0, icUnitAmount = None, icCurrency = None, icStatus = Held,
      icExpiresAt = Some (gqExpiresAt g), icKey = hqKey r, icFingerprint = fp, icKind = ReservationClaim,
      icChannel = nullIf (hqChannel r),
      icPresaleCode = (case alloc of None \<Rightarrow> None
         | Some a \<Rightarrow> if alRequiresCode a then nullIf (hqPresaleCode r) else None),
      icReseller = None, icStaff = True, icPurpose = None, icLabel = None,
      icCounterparty = Some (gqCounterparty g)\<rparr>)"

text \<open>The capacity decision: the group takes from its channel, or leaves the channels' share alone.\<close>

definition admitGroup ::
  "Clock \<Rightarrow> HoldRequest \<Rightarrow> Pool \<Rightarrow> ChannelAllocation option \<Rightarrow> InventoryDB \<Rightarrow> inv_error option" where
  "admitGroup ck r p alloc db =
     (case asInt32 (liveHeld (ckNow ck) (hqSlotID r) db) of
        Inl e \<Rightarrow> Some e
      | Inr held \<Rightarrow>
          if ipConfirmed p + held + hqQuantity r > capacityLimit p then Some ErrUnavailable
          else if hqChannel r \<noteq> '''' then
            (case alloc of
               None \<Rightarrow> Some ErrUnavailable
             | Some a \<Rightarrow>
                 if channelConsumed (ckNow ck) (hqSlotID r) (hqChannel r) db + hqQuantity r > alCap a
                 then Some ErrUnavailable else None)
          else if ipConfirmed p + held + hqQuantity r +
              reservedForChannels (ckNow ck) (ckReserved ck) (hqSlotID r) db > capacityLimit p
          then Some ErrUnavailable else None)"

definition PlaceGroupReservation ::
  "(string \<Rightarrow> string) \<Rightarrow> (time \<Rightarrow> string) \<Rightarrow> time \<Rightarrow> Clock \<Rightarrow> uuid \<Rightarrow> GroupRequest \<Rightarrow> InventoryDB \<Rightarrow>
   (inv_error + (GroupReservation \<times> bool)) \<times> InventoryDB" where
  "PlaceGroupReservation sha rfc clk ck newID g db =
     (let r = gqHold g; fp = groupFP sha rfc g in
      if hqQuantity r \<le> 0 then (Inl (ErrInput ''quantity must be positive''), db)
      else transact (\<lambda>db.
        case ivPools db (hqSlotID r) of
          None \<Rightarrow> Inl ErrNotFound
        | Some p \<Rightarrow>
            if ipOrganizerID p \<noteq> hqOrganizerID r then Inl ErrNotFound
            else if ipKind p = SeatedPool then Inl ErrPoolKindMismatch
            else bindE (registryLookup (hqOrganizerID r) (hqKey r) fp db) (\<lambda>prior.
              case prior of
                Some h \<Rightarrow> Inr (Inr (\<lparr>grID = ihClaimID h, grQuantity = ihQuantity h,
                    grStatus = ihStatusAfter h, grExpiresAt = gqExpiresAt g\<rparr>, True), db)
              | None \<Rightarrow>
                  (case guardOffering p of
                     Some e \<Rightarrow> Inl e
                   | None \<Rightarrow>
                       if \<not> gqExpiresAt g > clk then Inl ErrConflict
                       else
                         bindE (sweepExpired (ckNow ck) (hqSlotID r) db) (\<lambda>db1.
                         bindE (channelGate ck r db1) (\<lambda>alloc.
                           case admitGroup ck r p alloc db1 of
                             Some e \<Rightarrow> Inl e
                           | None \<Rightarrow>
                               bindE (insertClaim (reservationClaim newID g fp alloc) db1) (\<lambda>db2.
                               bindE (appendHistory (hqOrganizerID r) newID None ''reserve'' (gqActor g)
                                        (gqReason g) (hqQuantity r) (hqQuantity r) Held
                                        (Some (hqKey r, fp)) db2) (\<lambda>db3.
                                 Inr (Inr (\<lparr>grID = Some newID, grQuantity = hqQuantity r,
                                   grStatus = ''held'', grExpiresAt = gqExpiresAt g\<rparr>, False), db3)))))))) db)"

definition DrawDownGroupReservation ::
  "(string \<Rightarrow> string) \<Rightarrow> int \<Rightarrow> time \<Rightarrow> Clock \<Rightarrow> uuid \<Rightarrow> SaleRequest \<Rightarrow> InventoryDB \<Rightarrow>
   (inv_error + (ConvertResult \<times> bool)) \<times> InventoryDB" where
  "DrawDownGroupReservation sha ttl decision ck newID r db =
     (if sqQuantity r \<le> 0 then (Inl (ErrInput ''quantity must be positive''), db)
      else let fp = saleFP sha ''grp-draw'' r in
      (case findClaim (sqOrganizerID r) (sqSourceID r) db of
         None \<Rightarrow> (Inl ErrNotFound, db)
       | Some c \<Rightarrow> transact (\<lambda>db.
           bindE (registryLookup (sqOrganizerID r) (sqKey r) fp db) (\<lambda>prior.
             case (prior, Option.bind prior ihRelatedID) of
               (Some h, Some rel) \<Rightarrow> replaySale r h rel db
             | _ \<Rightarrow>
                 if icKind c \<noteq> ReservationClaim then Inl ErrNotFound
                 else if expired decision c then
                   bindE (appendHistory (sqOrganizerID r) (sqSourceID r) None ''expire'' ''system''
                            ''ttl_elapsed'' (icQuantity c) 0 Expired None
                            (setStatus Expired (sqSourceID r) db)) (\<lambda>db1.
                   bindE (reconcileCapacity (ckNow ck) (icPoolID c) db1) (\<lambda>db2.
                     Inr (Inl ErrConflict, db2)))
                 else sellFrom ttl ck newID r fp ''draw_down'' c (icChannel c) (icPresaleCode c) db)) db))"

section \<open>Capacity (capacity.go)\<close>

record CapacityAdjustment =
  caBefore :: int
  caCapacity :: int
  caTarget :: "int option"
  caStatus :: string

definition AdjustCapacity ::
  "(string \<Rightarrow> string) \<Rightarrow> time \<Rightarrow> uuid \<Rightarrow> uuid \<Rightarrow> int \<Rightarrow> string \<Rightarrow> string \<Rightarrow> string \<Rightarrow> InventoryDB \<Rightarrow>
   (inv_error + (CapacityAdjustment \<times> bool)) \<times> InventoryDB" where
  "AdjustCapacity sha now org slot newCap actor reason key db =
     (if newCap \<le> 0 then (Inl (ErrInput ''capacity must be positive''), db)
      else let fp = opFingerprint sha [''adjust-capacity'', uuid_String org, uuid_String slot, formatInt newCap] in
      transact (\<lambda>db.
        case ivPools db slot of
          None \<Rightarrow> Inl ErrNotFound
        | Some p \<Rightarrow>
            if ipOrganizerID p \<noteq> org then Inl ErrNotFound
            else bindE (registryLookup org key fp db) (\<lambda>prior.
              case prior of
                Some h \<Rightarrow> Inr (Inr (\<lparr>caBefore = ihQuantity h, caCapacity = ihQuantityAfter h,
                    caTarget = ihTarget h, caStatus = ihStatusAfter h\<rparr>, True), db)
              | None \<Rightarrow>
                  if ipLifecycle p = Archived then Inl ErrSlotArchived
                  else
                    bindE (sweepExpired now slot db) (\<lambda>db1.
                    case ivPools db1 slot of
                      None \<Rightarrow> Inl ErrDatabase
                    | Some q \<Rightarrow>
                        bindE (asInt32 (liveHeld now slot db1)) (\<lambda>held.
                        let demand = ipConfirmed q + held;
                            adj = (if newCap < demand
                              then \<lparr>caBefore = ipCapacity q, caCapacity = wrap32 demand,
                                    caTarget = Some newCap, caStatus = ''clamped''\<rparr>
                              else \<lparr>caBefore = ipCapacity q, caCapacity = newCap, caTarget = None,
                                    caStatus = ''applied''\<rparr>) in
                        bindE (updatePool slot (\<lambda>p. p\<lparr>ipCapacity := caCapacity adj, ipTarget := caTarget adj\<rparr>) db1) (\<lambda>db2.
                        bindE (insertHistory \<lparr>ihOrganizerID = org, ihClaimID = None, ihRelatedID = None,
                                 ihPoolID = Some slot, ihAction = ''adjust_capacity'', ihActor = actor,
                                 ihReason = reason, ihQuantity = caBefore adj, ihQuantityAfter = caCapacity adj,
                                 ihStatusAfter = caStatus adj, ihTarget = caTarget adj, ihKey = Some key,
                                 ihFingerprint = Some fp\<rparr> db2) (\<lambda>db3.
                          Inr (Inr (adj, False), db3))))))) db)"

section \<open>Channel allocations (channel_allocations.go)\<close>

fun allocationInput :: "string list \<Rightarrow> ChannelAllocation list \<Rightarrow> inv_error option" where
  "allocationInput seen [] = None"
| "allocationInput seen (a # as) =
     (if alChannel a = '''' \<or> alCap a \<le> 0
      then Some (ErrInput ''allocation needs a channel and a positive cap'')
      else if alChannel a \<in> set seen then Some (ErrInput ''duplicate channel'')
      else allocationInput (alChannel a # seen) as)"

definition windowReversed :: "ChannelAllocation \<Rightarrow> bool" where
  "windowReversed a =
     (case (alOpensAt a, alClosesAt a) of (Some o', Some c) \<Rightarrow> \<not> Before o' c | _ \<Rightarrow> False)"

definition ReplaceChannelAllocations ::
  "time \<Rightarrow> uuid \<Rightarrow> uuid \<Rightarrow> ChannelAllocation list \<Rightarrow> int option \<Rightarrow> InventoryDB \<Rightarrow>
   (inv_error + ChannelAllocation list) \<times> InventoryDB" where
  "ReplaceChannelAllocations now org slot allocs expectedRevision db =
     (case allocationInput [] allocs of
        Some e \<Rightarrow> (Inl e, db)
      | None \<Rightarrow> transact (\<lambda>db.
          case ivPools db slot of
            None \<Rightarrow> Inl ErrNotFound
          | Some p \<Rightarrow>
              if ipOrganizerID p \<noteq> org then Inl ErrNotFound
              else if (case expectedRevision of None \<Rightarrow> False | Some v \<Rightarrow> v \<noteq> ipRevision p)
              then Inl ErrAllocationRevisionMismatch
              else if ipKind p = SeatedPool \<and> allocs \<noteq> [] then Inl ErrPoolKindMismatch
              else (case find windowReversed allocs of
                Some a \<Rightarrow> Inl (ErrAllocationWindowReversed (alChannel a))
              | None \<Rightarrow>
                  if sum_list (map alCap allocs) > capacityLimit p then Inl ErrAllocationCapsExceedCapacity
                  else (case find (\<lambda>a. channelConsumed now slot (alChannel a) db > alCap a) allocs of
                    Some a \<Rightarrow> Inl (AllocationCapBelowConsumption (alChannel a))
                  | None \<Rightarrow>
                      if list_ex (\<lambda>a. length (alChannel a) > 100) allocs then Inl ErrDatabase
                      else
                        bindE (updatePool slot (\<lambda>p. p\<lparr>ipRevision := ipRevision p + 1\<rparr>)
                                 (db\<lparr>ivAllocations := (ivAllocations db)(slot := allocs)\<rparr>)) (\<lambda>db1.
                          Inr (Inr allocs, db1))))) db)"

section \<open>Refunded capacity (refund_returns.go)\<close>

record RefundCapacityReturn =
  rcClaimID :: uuid
  rcQuantity :: int
  rcUnreturned :: int
  rcReplay :: bool

definition refundReturnKey :: "uuid \<Rightarrow> string" where
  "refundReturnKey i = ''refund:'' @ uuid_String i"

definition ReturnRefundedCapacity ::
  "(string \<Rightarrow> string) \<Rightarrow> time \<Rightarrow> uuid \<Rightarrow> uuid \<Rightarrow> uuid \<Rightarrow> int \<Rightarrow> InventoryDB \<Rightarrow>
   (inv_error + RefundCapacityReturn) \<times> InventoryDB" where
  "ReturnRefundedCapacity sha now org claimID refundID quantity db =
     (if quantity < 1 then (Inl (ErrInput ''refund return quantity must be positive''), db)
      else (case findClaim org claimID db of
        None \<Rightarrow> (Inl ErrNotFound, db)
      | Some c \<Rightarrow>
          let fp = opFingerprint sha [''refund-return'', uuid_String org, uuid_String claimID, formatInt quantity];
              key = refundReturnKey refundID;
              pool = icPoolID c in
          transact (\<lambda>db.
            case find (\<lambda>h. ihOrganizerID h = org \<and> ihKey h = Some key) (ivHistory db) of
              Some h \<Rightarrow>
                if ihFingerprint h \<noteq> Some fp then Inl ErrRefundReturnConflict
                else Inr (Inr \<lparr>rcClaimID = claimID, rcQuantity = quantity,
                       rcUnreturned = ihQuantityAfter h, rcReplay = True\<rparr>, db)
            | None \<Rightarrow>
                if icStatus c \<noteq> Confirmed \<or> icKind c \<noteq> BuyerClaim then Inl ErrRefundReturnNotConfirmed
                else if wrap32 (icReturned c + quantity) > icQuantity c then Inl ErrRefundReturnExceedsClaim
                else
                  let seats = list_ex (\<lambda>s. csClaimID s = claimID) (ivSeats db) in
                  if seats \<and> (icReturned c \<noteq> 0 \<or> quantity \<noteq> icQuantity c) then Inl ErrPartialSeatedReturn
                  else
                    let db1 = (if seats then db\<lparr>ivSeats := map (\<lambda>s. if csClaimID s = claimID
                          then s\<lparr>csReleased := True\<rparr> else s) (ivSeats db)\<rparr> else db) in
                    (case ivPools db1 pool of
                       None \<Rightarrow> Inl ErrRefundReturnExceedsClaim
                     | Some p \<Rightarrow>
                         if \<not> ipConfirmed p \<ge> quantity then Inl ErrRefundReturnExceedsClaim
                         else
                           bindE (updatePool pool (\<lambda>p. p\<lparr>ipConfirmed := ipConfirmed p - quantity\<rparr>) db1) (\<lambda>db2.
                           if \<not> icReturned c + quantity \<le> icQuantity c then Inl ErrDatabase
                           else
                             let db3 = changeClaim claimID (\<lambda>x. x\<lparr>icReturned := icReturned x + quantity\<rparr>) db2;
                                 after = wrap32 (wrap32 (icQuantity c - icReturned c) - quantity) in
                             bindE (reconcileCapacity now pool db3) (\<lambda>db4.
                             bindE (appendHistory org claimID None ''refund_return'' ''commerce'' ''refund''
                                      quantity after Confirmed (Some (key, fp)) db4) (\<lambda>db5.
                               Inr (Inr \<lparr>rcClaimID = claimID, rcQuantity = quantity, rcUnreturned = after,
                                 rcReplay = False\<rparr>, db5)))))) db))"

section \<open>Presale codes and the offering\<close>

definition validatePresaleCode :: "PresaleCode \<Rightarrow> inv_error option" where
  "validatePresaleCode c =
     (if cdOrganizerID c = uuid_Nil then Some ErrPresaleCodeInvalidInput
      else if length (cdChannel c) < 1 \<or> length (cdChannel c) > 100 then Some ErrPresaleCodeInvalidInput
      else if length (cdCode c) < 1 \<or> length (cdCode c) > 100 then Some ErrPresaleCodeInvalidInput
      else if (case cdMax c of None \<Rightarrow> False | Some m \<Rightarrow> m \<le> 0) then Some ErrPresaleCodeInvalidInput
      else if (case (cdOpensAt c, cdClosesAt c) of (Some o', Some cl) \<Rightarrow> \<not> Before o' cl | _ \<Rightarrow> False)
      then Some ErrPresaleCodeInvalidInput else None)"

definition sameCode :: "PresaleCode \<Rightarrow> PresaleCode \<Rightarrow> bool" where
  "sameCode c d \<longleftrightarrow> cdOrganizerID c = cdOrganizerID d \<and> cdChannel c = cdChannel d \<and> cdCode c = cdCode d"

definition IssuePresaleCode :: "PresaleCode \<Rightarrow> InventoryDB \<Rightarrow> (inv_error + PresaleCode) \<times> InventoryDB" where
  "IssuePresaleCode c db =
     (case validatePresaleCode c of
        Some e \<Rightarrow> (Inl e, db)
      | None \<Rightarrow> (Inr c,
          if list_ex (sameCode c) (ivCodes db)
          then db\<lparr>ivCodes := map (\<lambda>d. if sameCode c d then c else d) (ivCodes db)\<rparr>
          else db\<lparr>ivCodes := ivCodes db @ [c]\<rparr>))"

definition ApplyArchive :: "uuid \<Rightarrow> uuid \<Rightarrow> InventoryDB \<Rightarrow> (inv_error + unit) \<times> InventoryDB" where
  "ApplyArchive eventID pool =
     transact (\<lambda>db. case ivPools db pool of
        None \<Rightarrow> Inl ErrNotFound
      | Some p \<Rightarrow>
          if eventID \<in> set (ivEvents db) then Inr (Inr (), db)
          else bindE (updatePool pool (\<lambda>p. p\<lparr>ipLifecycle := Archived\<rparr>)
                        (db\<lparr>ivEvents := ivEvents db @ [eventID]\<rparr>)) (\<lambda>db1. Inr (Inr (), db1)))"

definition upsertClosure :: "SlotClosure \<Rightarrow> SlotClosure list \<Rightarrow> SlotClosure list" where
  "upsertClosure n cs =
     (if list_ex (\<lambda>c. scPoolID c = scPoolID n \<and> scPerformanceID c = scPerformanceID n) cs
      then map (\<lambda>c. if scPoolID c = scPoolID n \<and> scPerformanceID c = scPerformanceID n \<and>
                       scVersion c < scVersion n then n else c) cs
      else cs @ [n])"

definition ApplyClosure ::
  "uuid \<Rightarrow> uuid \<Rightarrow> uuid \<Rightarrow> bool \<Rightarrow> int \<Rightarrow> InventoryDB \<Rightarrow> (inv_error + unit) \<times> InventoryDB" where
  "ApplyClosure eventID pool performance closed version =
     transact (\<lambda>db. case ivPools db pool of
        None \<Rightarrow> Inl ErrNotFound
      | Some p \<Rightarrow>
          if eventID \<in> set (ivEvents db) then Inr (Inr (), db)
          else if version < 1 then Inl ErrDatabase
          else
            let cs = upsertClosure \<lparr>scPoolID = pool, scPerformanceID = performance,
                       scStatus = (if closed then ClosedSlot else OpenSlot), scVersion = version\<rparr>
                       (ivClosures db) in
            bindE (updatePool pool (\<lambda>p. p\<lparr>ipClosure :=
                     (if list_ex (\<lambda>c. scPoolID c = pool \<and> scStatus c = ClosedSlot) cs then ClosedSlot
                      else OpenSlot)\<rparr>)
                   (db\<lparr>ivEvents := ivEvents db @ [eventID], ivClosures := cs\<rparr>)) (\<lambda>db1. Inr (Inr (), db1)))"

end
