(* ===== verification/Inventory_Machine.thy ===== *)
theory Inventory_Machine
  imports Inventory_Operations
begin

text \<open>
  What the operations may do to a pool, abstractly: the part of the tables capacity depends
  on (\<open>core\<close>: pools, claims, allocations), the moves a transaction with start time \<open>now\<close>
  may make on it, and the facts every move keeps. \<open>Inventory_Refinement\<close> shows that each
  operation is a sequence of such moves.
\<close>

section \<open>The core and its tallies\<close>

type_synonym core = "(uuid \<Rightarrow> Pool option) \<times> Claim list \<times> (uuid \<Rightarrow> ChannelAllocation list)"

definition coreOf :: "InventoryDB \<Rightarrow> core" where
  "coreOf db = (ivPools db, ivClaims db, ivAllocations db)"

definition claimSum :: "(Claim \<Rightarrow> int) \<Rightarrow> Claim list \<Rightarrow> int" where
  "claimSum w cs = sum_list (map w cs)"

definition modify :: "uuid \<Rightarrow> (Claim \<Rightarrow> Claim) \<Rightarrow> Claim list \<Rightarrow> Claim list" where
  "modify i f cs = map (\<lambda>c. if icID c = i then f c else c) cs"

definition soldIn :: "uuid \<Rightarrow> Claim \<Rightarrow> int" where
  "soldIn pool c = (if icPoolID c = pool \<and> icStatus c = Confirmed then icQuantity c - icReturned c else 0)"

lemma claimSum_simps [simp]: "claimSum w [] = 0" "claimSum w (c # cs) = w c + claimSum w cs"
  "claimSum w (cs @ ds) = claimSum w cs + claimSum w ds"
  by (simp_all add: claimSum_def)

lemma claimSum_mono: "(\<And>c. c \<in> set cs \<Longrightarrow> w (f c) \<le> v c) \<Longrightarrow> claimSum w (map f cs) \<le> claimSum v cs"
  by (induction cs) (auto intro: add_mono)

lemma claimSum_cong: "(\<And>c. c \<in> set cs \<Longrightarrow> w (f c) = v c) \<Longrightarrow> claimSum w (map f cs) = claimSum v cs"
  by (induction cs) auto

lemma claimSum_nonneg: "(\<And>c. c \<in> set cs \<Longrightarrow> 0 \<le> w c) \<Longrightarrow> 0 \<le> claimSum w cs"
  by (induction cs) auto

lemma claimSum_zero: "(\<And>c. c \<in> set cs \<Longrightarrow> w c = 0) \<Longrightarrow> claimSum w cs = 0"
  by (induction cs) auto

lemma modify_notin: "i \<notin> icID ` set cs \<Longrightarrow> modify i f cs = cs"
  unfolding modify_def by (induction cs) auto

lemma claimSum_modify:
  assumes "distinct (map icID cs)" and "c \<in> set cs"
  shows "claimSum w (modify (icID c) f cs) = claimSum w cs - w c + w (f c)"
  using assms
proof (induction cs)
  case (Cons d cs)
  show ?case
  proof (cases "d = c")
    case True
    then have "modify (icID c) f cs = cs" using Cons.prems(1) by (intro modify_notin) auto
    then show ?thesis using True by (simp add: modify_def)
  next
    case False
    then have "c \<in> set cs" "icID d \<noteq> icID c" using Cons.prems by auto
    then show ?thesis using Cons by (simp add: modify_def)
  qed
qed simp

lemma set_modify: "set (modify i f cs) = (\<lambda>c. if icID c = i then f c else c) ` set cs"
  by (simp add: modify_def)

lemma ids_modify: "(\<And>c. icID (f c) = icID c) \<Longrightarrow> map icID (modify i f cs) = map icID cs"
  by (induction cs) (simp_all add: modify_def)

lemma unique_claim: "distinct (map icID cs) \<Longrightarrow> c \<in> set cs \<Longrightarrow> d \<in> set cs \<Longrightarrow> icID c = icID d \<Longrightarrow> c = d"
  by (simp add: distinct_map inj_on_def)

section \<open>The moves\<close>

text \<open>
  \<open>retire\<close>: claims that have not been sold leave (expiry, release). \<open>finalize\<close> and
  \<open>confirm\<close>: checkout. \<open>admit\<close>: a new hold within the limit and its channel's cap.
  \<open>split\<close>: part of a staff hold becomes a buyer's. \<open>shrink\<close>: part of a staff hold is given
  back. \<open>refund\<close>: part of a sale is given back. \<open>resize\<close>: capacity, never below demand.
  \<open>reallocate\<close>, \<open>annotate\<close> and \<open>provision\<close>: the allocations, the pool's other columns, a
  new pool or one without claims.
\<close>

inductive move :: "time \<Rightarrow> core \<Rightarrow> core \<Rightarrow> bool" for now :: time where
  retire: "move now (P, C, A) (P, map (\<lambda>c. if Q c then c\<lparr>icStatus := st\<rparr> else c) C, A)"
    if "\<And>c. c \<in> set C \<Longrightarrow> Q c \<Longrightarrow> icStatus c \<in> {Held, Finalizing}" and "st \<in> {Released, Expired}"
| finalize: "move now (P, C, A) (P, modify (icID c) (\<lambda>x. x\<lparr>icStatus := Finalizing\<rparr>) C, A)"
    if "c \<in> set C" "icStatus c = Held" "icKind c = BuyerClaim" "isLive now c"
| confirm: "move now (P, C, A) (P(icPoolID c \<mapsto> p\<lparr>ipConfirmed := ipConfirmed p + icQuantity c\<rparr>),
      modify (icID c) (\<lambda>x. x\<lparr>icStatus := Confirmed\<rparr>) C, A)"
    if "c \<in> set C" "icKind c = BuyerClaim" "isLive now c" "P (icPoolID c) = Some p"
      "poolCheck (p\<lparr>ipConfirmed := ipConfirmed p + icQuantity c\<rparr>)"
| admit: "move now (P, C, A) (P, C @ [c], A)"
    if "icID c \<notin> icID ` set C" "claimCheck c" "icStatus c = Held" "icReturned c = 0"
      "P (icPoolID c) = Some p"
      "ipConfirmed p + claimSum (liveIn now (icPoolID c)) C + icQuantity c \<le> capacityLimit p"
      "\<And>a. a \<in> set (A (icPoolID c)) \<Longrightarrow> icChannel c = Some (alChannel a) \<Longrightarrow>
         claimSum (usedIn now (icPoolID c) (alChannel a)) C + icQuantity c \<le> alCap a"
| split: "move now (P, C, A)
      (P, modify (icID c) (if q = icQuantity c then (\<lambda>x. x\<lparr>icStatus := Released\<rparr>)
                           else (\<lambda>x. x\<lparr>icQuantity := icQuantity x - q\<rparr>)) (C @ [d]), A)"
    if "c \<in> set C" "icStatus c = Held" "icKind c \<noteq> BuyerClaim" "isLive now c" "0 < q" "q \<le> icQuantity c"
      "icID d \<notin> icID ` set C" "claimCheck d" "icStatus d = Held" "icReturned d = 0"
      "icKind d = BuyerClaim" "icQuantity d = q" "icPoolID d = icPoolID c" "icChannel d = icChannel c"
| shrink: "move now (P, C, A) (P, modify (icID c) (\<lambda>x. x\<lparr>icQuantity := icQuantity x - q\<rparr>) C, A)"
    if "c \<in> set C" "icStatus c = Held" "0 < q" "q < icQuantity c"
| refund: "move now (P, C, A) (P(icPoolID c \<mapsto> p\<lparr>ipConfirmed := ipConfirmed p - q\<rparr>),
      modify (icID c) (\<lambda>x. x\<lparr>icReturned := icReturned x + q\<rparr>) C, A)"
    if "c \<in> set C" "icStatus c = Confirmed" "0 < q" "icReturned c + q \<le> icQuantity c"
      "P (icPoolID c) = Some p" "poolCheck (p\<lparr>ipConfirmed := ipConfirmed p - q\<rparr>)"
| resize: "move now (P, C, A) (P(slot \<mapsto> p\<lparr>ipCapacity := n, ipTarget := t\<rparr>), C, A)"
    if "P slot = Some p" "ipConfirmed p + claimSum (liveIn now slot) C \<le> n"
      "poolCheck (p\<lparr>ipCapacity := n, ipTarget := t\<rparr>)"
| reallocate: "move now (P, C, A) (P(slot \<mapsto> p\<lparr>ipRevision := r\<rparr>), C, A(slot := as))"
    if "P slot = Some p" "distinct (map alChannel as)"
      "\<And>a. a \<in> set as \<Longrightarrow> claimSum (usedIn now slot (alChannel a)) C \<le> alCap a"
      "sum_list (map alCap as) \<le> capacityLimit p"
| annotate: "move now (P, C, A) (P(slot \<mapsto> p\<lparr>ipLifecycle := l, ipClosure := cl\<rparr>), C, A)"
    if "P slot = Some p"
| provision: "move now (P, C, A) (P(slot \<mapsto> p), C, A)"
    if "\<And>c. c \<in> set C \<Longrightarrow> icPoolID c \<noteq> slot" "poolCheck p" "ipConfirmed p = 0"

inductive moves :: "time \<Rightarrow> core \<Rightarrow> core \<Rightarrow> bool" for now :: time where
  moves_refl [intro]: "moves now s s"
| moves_step: "move now s s' \<Longrightarrow> moves now s' s'' \<Longrightarrow> moves now s s''"

lemma moves_trans [trans]: "moves now s s' \<Longrightarrow> moves now s' s'' \<Longrightarrow> moves now s s''"
  by (induction rule: moves.induct) (auto intro: moves_step)

lemma moves_one: "move now s s' \<Longrightarrow> moves now s s'"
  by (auto intro: moves_step)

section \<open>What the moves keep\<close>

definition claimsSound :: "core \<Rightarrow> bool" where
  "claimsSound = (\<lambda>(P, C, A). distinct (map icID C) \<and>
     (\<forall>c \<in> set C. claimCheck c \<and> P (icPoolID c) \<noteq> None \<and>
        (icStatus c \<noteq> Confirmed \<longrightarrow> icReturned c = 0) \<and>
        (icKind c \<noteq> BuyerClaim \<longrightarrow> icStatus c \<notin> {Finalizing, Confirmed})))"

definition poolsSound :: "time \<Rightarrow> core \<Rightarrow> bool" where
  "poolsSound now = (\<lambda>(P, C, A). \<forall>slot p. P slot = Some p \<longrightarrow> poolCheck p \<and>
     claimSum (soldIn slot) C = ipConfirmed p \<and>
     ipConfirmed p + claimSum (liveIn now slot) C \<le> ipCapacity p)"

definition channelsSound :: "time \<Rightarrow> core \<Rightarrow> bool" where
  "channelsSound now = (\<lambda>(P, C, A). \<forall>slot. distinct (map alChannel (A slot)) \<and>
     (\<forall>a \<in> set (A slot). claimSum (usedIn now slot (alChannel a)) C \<le> alCap a))"

definition sound :: "time \<Rightarrow> core \<Rightarrow> bool" where
  "sound now s \<longleftrightarrow> claimsSound s \<and> poolsSound now s \<and> channelsSound now s"

lemmas sound_defs = claimsSound_def poolsSound_def channelsSound_def

lemma claimCheck_bounds: "claimCheck c \<Longrightarrow> 0 < icQuantity c \<and> 0 \<le> icReturned c \<and> icReturned c \<le> icQuantity c"
  by (simp add: claimCheck_def)

lemma claimCheck_update [simp]:
  "claimCheck (c\<lparr>icStatus := st\<rparr>) = claimCheck c"
  by (cases "icKind c") (simp_all add: claimCheck_def kindShape_def)

lemma poolCheck_columns [simp]:
  "poolCheck (p\<lparr>ipRevision := r\<rparr>) = poolCheck p" "poolCheck (p\<lparr>ipLifecycle := l\<rparr>) = poolCheck p"
  "poolCheck (p\<lparr>ipClosure := cl\<rparr>) = poolCheck p"
  by (cases "ipTarget p"; simp add: poolCheck_def)+

lemma capacityLimit_le: "poolCheck p \<Longrightarrow> capacityLimit p \<le> ipCapacity p"
  by (auto simp: poolCheck_def capacityLimit_def split: option.splits)

text \<open>The weights of a claim in its own pool and elsewhere.\<close>

lemma weight_elsewhere:
  "icPoolID c \<noteq> slot \<Longrightarrow> liveIn now slot c = 0" "icPoolID c \<noteq> slot \<Longrightarrow> soldIn slot c = 0"
  "icPoolID c \<noteq> slot \<Longrightarrow> usedIn now slot ch c = 0"
  by (simp_all add: liveIn_def soldIn_def usedIn_def)

text \<open>Live claims only get fewer as time passes, and so do the claims a channel pays for.\<close>

lemma isLive_later: "isLive later c \<Longrightarrow> now \<le> later \<Longrightarrow> isLive now c"
  by (auto simp: isLive_def split: option.splits)

lemma liveIn_later: "claimCheck c \<Longrightarrow> now \<le> later \<Longrightarrow> liveIn later slot c \<le> liveIn now slot c"
  using isLive_later [of later c now] claimCheck_bounds [of c] by (auto simp: liveIn_def)

lemma usedIn_later: "claimCheck c \<Longrightarrow> now \<le> later \<Longrightarrow> usedIn later slot ch c \<le> usedIn now slot ch c"
  using isLive_later [of later c now] claimCheck_bounds [of c]
  by (auto simp: usedIn_def consuming_def consumedQuantity_def)

lemma sound_later:
  assumes "sound now s" and "now \<le> later"
  shows "sound later s"
proof -
  obtain P C A where s: "s = (P, C, A)" by (cases s)
  have cs: "\<And>c. c \<in> set C \<Longrightarrow> claimCheck c" using assms(1) by (auto simp: sound_def claimsSound_def s)
  have "claimSum (liveIn later slot) C \<le> claimSum (liveIn now slot) C"
    and "claimSum (usedIn later slot ch) C \<le> claimSum (usedIn now slot ch) C" for slot ch
    using claimSum_mono [of C "liveIn later slot" "\<lambda>c. c" "liveIn now slot"] liveIn_later assms(2) cs
      claimSum_mono [of C "usedIn later slot ch" "\<lambda>c. c" "usedIn now slot ch"] usedIn_later by auto
  then have le: "claimSum (liveIn later slot) C \<le> claimSum (liveIn now slot) C"
    "claimSum (usedIn later slot ch) C \<le> claimSum (usedIn now slot ch) C" for slot ch .
  have "ipConfirmed p + claimSum (liveIn later slot) C \<le> ipCapacity p" if "P slot = Some p" for slot p
  proof -
    have "ipConfirmed p + claimSum (liveIn now slot) C \<le> ipCapacity p"
      using assms(1) that unfolding sound_def poolsSound_def s by blast
    then show ?thesis using le(1) [of slot] by linarith
  qed
  then have "poolsSound later s" using assms(1) by (simp add: sound_def poolsSound_def s)
  moreover have "claimSum (usedIn later slot (alChannel a)) C \<le> alCap a" if "a \<in> set (A slot)" for slot a
  proof -
    have "claimSum (usedIn now slot (alChannel a)) C \<le> alCap a"
      using assms(1) that unfolding sound_def channelsSound_def s by blast
    then show ?thesis using le(2) [of slot "alChannel a"] by linarith
  qed
  then have "channelsSound later s" using assms(1) by (simp add: sound_def channelsSound_def s)
  ultimately show ?thesis using assms(1) by (simp add: sound_def)
qed

section \<open>Every move keeps the claims sound\<close>

lemma kindShape_status [simp]: "kindShape (c\<lparr>icStatus := st\<rparr>) = kindShape c"
  "kindShape (c\<lparr>icQuantity := q\<rparr>) = kindShape c" "kindShape (c\<lparr>icReturned := q\<rparr>) = kindShape c"
  by (cases "icKind c"; simp add: kindShape_def)+

lemma claimCheck_less: "claimCheck c \<Longrightarrow> 0 < q \<Longrightarrow> q < icQuantity c \<Longrightarrow> icReturned c = 0 \<Longrightarrow>
    claimCheck (c\<lparr>icQuantity := icQuantity c - q\<rparr>)"
  by (auto simp: claimCheck_def int32_def)

lemma claimCheck_return: "claimCheck c \<Longrightarrow> 0 < q \<Longrightarrow> icReturned c + q \<le> icQuantity c \<Longrightarrow>
    claimCheck (c\<lparr>icReturned := icReturned c + q\<rparr>)"
  by (auto simp: claimCheck_def)

lemma claimsSound_modify:
  assumes "claimsSound (P, C, A)" and "c \<in> set C"
    and "\<And>c. icID (f c) = icID c" and "\<And>c. icPoolID (f c) = icPoolID c" and "\<And>c. icKind (f c) = icKind c"
    and "claimCheck (f c)" and "icStatus (f c) \<noteq> Confirmed \<Longrightarrow> icReturned (f c) = 0"
    and "icKind c \<noteq> BuyerClaim \<Longrightarrow> icStatus (f c) \<notin> {Finalizing, Confirmed}"
  shows "claimsSound (P, modify (icID c) f C, A)"
proof -
  have only: "x = c" if "x \<in> set C" "icID x = icID c" for x
    using that assms(1,2) unique_claim by (auto simp: claimsSound_def)
  then have "set (modify (icID c) f C) \<subseteq> insert (f c) (set C)" by (auto simp: set_modify)
  moreover have "claimCheck x \<and> P (icPoolID x) \<noteq> None \<and> (icStatus x \<noteq> Confirmed \<longrightarrow> icReturned x = 0) \<and>
      (icKind x \<noteq> BuyerClaim \<longrightarrow> icStatus x \<notin> {Finalizing, Confirmed})" if "x \<in> insert (f c) (set C)" for x
    using that assms by (auto simp: claimsSound_def)
  moreover have "distinct (map icID (modify (icID c) f C))"
    using assms(1,3) by (simp add: ids_modify claimsSound_def)
  ultimately show ?thesis unfolding claimsSound_def by blast
qed

lemma claimsSound_pools:
  "claimsSound (P, C, A) \<Longrightarrow> claimsSound (P(slot \<mapsto> p), C, A')"
  by (auto simp: claimsSound_def)

lemma claimsSound_insert:
  assumes "claimsSound (P, C, A)" and "icID d \<notin> icID ` set C" and "claimCheck d" and "icStatus d = Held"
    and "icReturned d = 0" and "P (icPoolID d) \<noteq> None"
  shows "claimsSound (P, C @ [d], A)"
  using assms by (auto simp: claimsSound_def)

lemma move_claimsSound: "move now s s' \<Longrightarrow> claimsSound s \<Longrightarrow> claimsSound s'"
proof (induction rule: move.induct)
  case (retire C Q st P A)
  have "map icID (map (\<lambda>c. if Q c then c\<lparr>icStatus := st\<rparr> else c) C) = map icID C" by simp
  moreover have "icReturned c = 0" if "c \<in> set C" "Q c" for c
    using retire(1) [OF that] retire(3) that by (auto simp: claimsSound_def)
  ultimately show ?case using retire(2,3) unfolding claimsSound_def by (auto simp del: map_map)
next
  case (finalize c C P A)
  then show ?case by (intro claimsSound_modify) (auto simp: claimsSound_def)
next
  case (confirm c C P p A)
  then show ?case by (intro claimsSound_pools claimsSound_modify) (auto simp: claimsSound_def)
next
  case (admit c C P p A)
  then show ?case by (intro claimsSound_insert) auto
next
  case (split c C q d P A)
  have ins: "claimsSound (P, C @ [d], A)"
    using split by (intro claimsSound_insert) (auto simp: claimsSound_def)
  have c: "claimCheck c" "icReturned c = 0" using split by (auto simp: claimsSound_def)
  then have less: "q \<noteq> icQuantity c \<Longrightarrow> claimCheck (c\<lparr>icQuantity := icQuantity c - q\<rparr>)"
    using split by (intro claimCheck_less) auto
  show ?case using ins split(1,2,3) c less by (intro claimsSound_modify) auto
next
  case (shrink c C q P A)
  have c: "claimCheck c" "icReturned c = 0" using shrink by (auto simp: claimsSound_def)
  then have "claimCheck (c\<lparr>icQuantity := icQuantity c - q\<rparr>)" using shrink by (intro claimCheck_less)
  then show ?case using shrink c by (intro claimsSound_modify) auto
next
  case (refund c C q P p A)
  then have "claimCheck (c\<lparr>icReturned := icReturned c + q\<rparr>)"
    by (intro claimCheck_return) (auto simp: claimsSound_def)
  then show ?case using refund
    by (intro claimsSound_pools claimsSound_modify) (auto simp: claimsSound_def)
qed (auto intro: claimsSound_pools)

section \<open>Every move keeps the pools and the channels sound\<close>

text \<open>
  A claim that changes keeps the books when what it adds to the confirmed counter and to
  live demand is what the pool's row gains; pools other than its own are not touched.
\<close>

lemma poolsSound_modify:
  assumes "poolsSound now (P, C, A)" and "distinct (map icID C)" and "c \<in> set C"
    and "\<And>c. icPoolID (f c) = icPoolID c"
    and "\<And>p. P (icPoolID c) = Some p \<Longrightarrow>
      soldIn (icPoolID c) (f c) = soldIn (icPoolID c) c \<and> liveIn now (icPoolID c) (f c) \<le> liveIn now (icPoolID c) c"
  shows "poolsSound now (P, modify (icID c) f C, A)"
proof -
  have sum: "claimSum w (modify (icID c) f C) = claimSum w C - w c + w (f c)" for w
    by (rule claimSum_modify [OF assms(2,3)])
  have "poolCheck p \<and> claimSum (soldIn slot) (modify (icID c) f C) = ipConfirmed p \<and>
      ipConfirmed p + claimSum (liveIn now slot) (modify (icID c) f C) \<le> ipCapacity p"
    if p: "P slot = Some p" for slot p
  proof -
    have old: "poolCheck p \<and> claimSum (soldIn slot) C = ipConfirmed p \<and>
        ipConfirmed p + claimSum (liveIn now slot) C \<le> ipCapacity p"
      using assms(1) p unfolding poolsSound_def by blast
    show ?thesis
    proof (cases "icPoolID c = slot")
      case True
      then show ?thesis using old assms(5) [of p] p by (simp add: sum)
    next
      case False
      then show ?thesis using old assms(4) by (simp add: sum weight_elsewhere)
    qed
  qed
  then show ?thesis unfolding poolsSound_def by blast
qed

lemma poolsSound_book:
  assumes "poolsSound now (P, C, A)" and "distinct (map icID C)" and "c \<in> set C"
    and "\<And>c. icPoolID (f c) = icPoolID c" and "P (icPoolID c) = Some p"
    and "poolCheck (p\<lparr>ipConfirmed := ipConfirmed p + k\<rparr>)"
    and "soldIn (icPoolID c) (f c) = soldIn (icPoolID c) c + k"
    and "k + liveIn now (icPoolID c) (f c) \<le> liveIn now (icPoolID c) c"
  shows "poolsSound now (P(icPoolID c \<mapsto> p\<lparr>ipConfirmed := ipConfirmed p + k\<rparr>), modify (icID c) f C, A)"
proof -
  have sum: "claimSum w (modify (icID c) f C) = claimSum w C - w c + w (f c)" for w
    by (rule claimSum_modify [OF assms(2,3)])
  have old: "poolCheck q \<and> claimSum (soldIn slot) C = ipConfirmed q \<and>
      ipConfirmed q + claimSum (liveIn now slot) C \<le> ipCapacity q" if "P slot = Some q" for slot q
    using assms(1) that unfolding poolsSound_def by blast
  show ?thesis
    unfolding poolsSound_def
    using old [OF assms(5)] old assms(4,6,7,8) by (auto simp: sum weight_elsewhere split: if_splits)
qed

lemma poolsSound_row:
  assumes "poolsSound now (P, C, A)" and "P slot = Some p" and "poolCheck q" and "ipConfirmed q = ipConfirmed p"
    and "ipConfirmed p + claimSum (liveIn now slot) C \<le> ipCapacity q"
  shows "poolsSound now (P(slot \<mapsto> q), C, A')"
proof -
  have old: "claimSum (soldIn slot) C = ipConfirmed p"
    using assms(1,2) unfolding poolsSound_def by blast
  have "poolsSound now (P, C, A')" using assms(1) unfolding poolsSound_def by simp
  then show ?thesis using old assms(3-5) unfolding poolsSound_def by auto
qed

lemma poolsSound_insert:
  assumes "poolsSound now (P, C, A)" and "icStatus d = Held" and "P (icPoolID d) = Some p"
    and "ipConfirmed p + claimSum (liveIn now (icPoolID d)) C + liveIn now (icPoolID d) d \<le> ipCapacity p"
  shows "poolsSound now (P, C @ [d], A)"
proof -
  have "soldIn slot d = 0" for slot using assms(2) by (simp add: soldIn_def)
  moreover have "ipConfirmed q + (claimSum (liveIn now slot) C + liveIn now slot d) \<le> ipCapacity q"
    if "P slot = Some q" for slot q
  proof (cases "icPoolID d = slot")
    case True
    then show ?thesis using that assms(3,4) by simp
  next
    case False
    then show ?thesis using assms(1) that unfolding poolsSound_def by (simp add: weight_elsewhere)
  qed
  ultimately show ?thesis using assms(1) unfolding poolsSound_def by simp
qed

lemmas weight_defs = soldIn_def liveIn_def usedIn_def consuming_def consumedQuantity_def isLive_def

lemma move_poolsSound: "move now s s' \<Longrightarrow> claimsSound s \<Longrightarrow> poolsSound now s \<Longrightarrow> poolsSound now s'"
proof (induction rule: move.induct)
  case (retire C Q st P A)
  let ?f = "\<lambda>c. if Q c then c\<lparr>icStatus := st\<rparr> else c"
  have q: "0 \<le> icQuantity c" if "c \<in> set C" for c
    using retire(3) that claimCheck_bounds [of c] by (auto simp: claimsSound_def)
  have "claimSum (soldIn slot) (map ?f C) = claimSum (soldIn slot) C" for slot
    using retire(2) by (intro claimSum_cong) (auto simp: soldIn_def dest!: retire(1))
  moreover have le: "claimSum (liveIn now slot) (map ?f C) \<le> claimSum (liveIn now slot) C" for slot
    using retire(2) by (intro claimSum_mono) (auto simp: liveIn_def isLive_def intro: q)
  moreover have "ipConfirmed p + claimSum (liveIn now slot) (map ?f C) \<le> ipCapacity p"
    if "P slot = Some p" for slot p
  proof -
    have "ipConfirmed p + claimSum (liveIn now slot) C \<le> ipCapacity p"
      using retire(4) that unfolding poolsSound_def by blast
    then show ?thesis using le [of slot] by linarith
  qed
  ultimately show ?case using retire(4) unfolding poolsSound_def by simp
next
  case (finalize c C P A)
  then show ?case
    by (intro poolsSound_modify) (auto simp: weight_defs claimsSound_def)
next
  case (confirm c C P p A)
  have "icReturned c = 0" "0 < icQuantity c"
    using confirm claimCheck_bounds by (auto simp: claimsSound_def isLive_def)
  moreover have "icStatus c \<noteq> Confirmed" using confirm(3) by (auto simp: isLive_def)
  ultimately show ?case using confirm
    by (intro poolsSound_book) (auto simp: soldIn_def liveIn_def isLive_def claimsSound_def)
next
  case (admit c C P p A)
  have "poolCheck p" using admit unfolding poolsSound_def by blast
  then have "ipConfirmed p + claimSum (liveIn now (icPoolID c)) C + icQuantity c \<le> ipCapacity p"
    using admit capacityLimit_le [of p] by linarith
  moreover have "liveIn now (icPoolID c) c \<le> icQuantity c"
    using claimCheck_bounds [OF admit(2)] by (simp add: liveIn_def)
  ultimately show ?case using admit by (intro poolsSound_insert [where p = p]) linarith+
next
  case (split c C q d P A)
  let ?f = "if q = icQuantity c then (\<lambda>x. x\<lparr>icStatus := Released\<rparr>) else (\<lambda>x. x\<lparr>icQuantity := icQuantity x - q\<rparr>)"
  have ids: "distinct (map icID (C @ [d]))" using split by (auto simp: claimsSound_def)
  have sum: "claimSum w (modify (icID c) ?f (C @ [d])) = claimSum w C + w d - w c + w (?f c)" for w
    using claimSum_modify [OF ids, of c w ?f] split(1) by simp
  have cq: "0 < icQuantity c" using split claimCheck_bounds by (auto simp: claimsSound_def)
  have "claimSum (soldIn slot) (modify (icID c) ?f (C @ [d])) = claimSum (soldIn slot) C" for slot
    unfolding sum using split by (simp add: soldIn_def)
  moreover have "claimSum (liveIn now slot) (modify (icID c) ?f (C @ [d])) \<le> claimSum (liveIn now slot) C" for slot
    unfolding sum using split(2,4,5,6,9,12,13) by (auto simp: liveIn_def isLive_def)
  ultimately show ?case using split.prems(2) unfolding poolsSound_def
    by (fastforce intro: order_trans [OF add_left_mono])
next
  case (shrink c C q P A)
  then show ?case by (intro poolsSound_modify) (auto simp: weight_defs claimsSound_def)
next
  case (refund c C q P p A)
  have "poolsSound now (P(icPoolID c \<mapsto> p\<lparr>ipConfirmed := ipConfirmed p + (- q)\<rparr>),
      modify (icID c) (\<lambda>x. x\<lparr>icReturned := icReturned x + q\<rparr>) C, A)"
    using refund by (intro poolsSound_book) (auto simp: soldIn_def liveIn_def isLive_def claimsSound_def)
  then show ?case by simp
next
  case (resize P slot p C n t A)
  then show ?case by (intro poolsSound_row) simp_all
next
  case (reallocate P slot p as C A r)
  then have "poolCheck p \<and> ipConfirmed p + claimSum (liveIn now slot) C \<le> ipCapacity p"
    unfolding poolsSound_def by blast
  then show ?case using reallocate by (intro poolsSound_row) auto
next
  case (annotate P slot p C A l cl)
  then have "poolCheck p \<and> ipConfirmed p + claimSum (liveIn now slot) C \<le> ipCapacity p"
    unfolding poolsSound_def by blast
  then show ?case using annotate by (intro poolsSound_row) auto
next
  case (provision C slot p P A)
  have "claimSum (soldIn slot) C = 0" "claimSum (liveIn now slot) C = 0"
    using provision(1) by (auto intro!: claimSum_zero simp: weight_elsewhere)
  then show ?case using provision unfolding poolsSound_def by (auto simp: poolCheck_def)
qed

lemma channelsSound_sums:
  assumes "channelsSound now (P, C, A)"
    and "\<And>slot a. a \<in> set (A slot) \<Longrightarrow>
      claimSum (usedIn now slot (alChannel a)) C' \<le> claimSum (usedIn now slot (alChannel a)) C"
  shows "channelsSound now (P', C', A)"
  using assms unfolding channelsSound_def by (fastforce intro: order_trans)

lemma channelsSound_modify:
  assumes "channelsSound now (P, C, A)" and "distinct (map icID C)" and "c \<in> set C"
    and "\<And>slot ch. usedIn now slot ch (f c) \<le> usedIn now slot ch c"
  shows "channelsSound now (P', modify (icID c) f C, A)"
  using assms(1)
proof (rule channelsSound_sums)
  fix slot a
  show "claimSum (usedIn now slot (alChannel a)) (modify (icID c) f C) \<le> claimSum (usedIn now slot (alChannel a)) C"
    using claimSum_modify [OF assms(2,3), of "usedIn now slot (alChannel a)" f] assms(4) [of slot "alChannel a"]
    by simp
qed

lemma move_channelsSound: "move now s s' \<Longrightarrow> claimsSound s \<Longrightarrow> channelsSound now s \<Longrightarrow> channelsSound now s'"
proof (induction rule: move.induct)
  case (retire C Q st P A)
  have q: "0 \<le> icQuantity c" if "c \<in> set C" for c
    using retire(3) that claimCheck_bounds [of c] by (auto simp: claimsSound_def)
  show ?case using retire(4)
  proof (rule channelsSound_sums)
    fix slot a
    show "claimSum (usedIn now slot (alChannel a)) (map (\<lambda>c. if Q c then c\<lparr>icStatus := st\<rparr> else c) C)
        \<le> claimSum (usedIn now slot (alChannel a)) C"
    proof (rule claimSum_mono)
      fix c
      assume c: "c \<in> set C"
      show "usedIn now slot (alChannel a) (if Q c then c\<lparr>icStatus := st\<rparr> else c) \<le> usedIn now slot (alChannel a) c"
        using retire(1) [OF c] retire(2) q [OF c] by (auto simp: weight_defs)
    qed
  qed
next
  case (finalize c C P A)
  then show ?case by (intro channelsSound_modify) (auto simp: weight_defs claimsSound_def)
next
  case (confirm c C P p A)
  have "icReturned c = 0" using confirm by (auto simp: claimsSound_def isLive_def)
  then show ?case using confirm by (intro channelsSound_modify) (auto simp: weight_defs claimsSound_def)
next
  case (admit c C P p A)
  have "claimSum (usedIn now slot (alChannel a)) C + usedIn now slot (alChannel a) c \<le> alCap a"
    if "a \<in> set (A slot)" for slot a
  proof (cases "icPoolID c = slot \<and> icChannel c = Some (alChannel a)")
    case True
    then have "usedIn now slot (alChannel a) c \<le> icQuantity c"
      using claimCheck_bounds [OF admit(2)] admit(3) by (simp add: usedIn_def consumedQuantity_def)
    then show ?thesis using admit(7) [of a] True that by auto
  next
    case False
    then have "usedIn now slot (alChannel a) c = 0" by (auto simp: usedIn_def)
    then show ?thesis using admit(9) that unfolding channelsSound_def by simp
  qed
  then show ?case using admit(9) unfolding channelsSound_def by simp
next
  case (split c C q d P A)
  let ?f = "if q = icQuantity c then (\<lambda>x. x\<lparr>icStatus := Released\<rparr>) else (\<lambda>x. x\<lparr>icQuantity := icQuantity x - q\<rparr>)"
  have ids: "distinct (map icID (C @ [d]))" using split by (auto simp: claimsSound_def)
  have sum: "claimSum w (modify (icID c) ?f (C @ [d])) = claimSum w C + w d - w c + w (?f c)" for w
    using claimSum_modify [OF ids, of c w ?f] split(1) by simp
  show ?case using split.prems(2)
  proof (rule channelsSound_sums)
    fix slot a
    show "claimSum (usedIn now slot (alChannel a)) (modify (icID c) ?f (C @ [d])) \<le> claimSum (usedIn now slot (alChannel a)) C"
      unfolding sum using split(2,4,5,6,9,12,13,14) by (auto simp: weight_defs)
  qed
next
  case (shrink c C q P A)
  then show ?case by (intro channelsSound_modify) (auto simp: weight_defs claimsSound_def)
next
  case (refund c C q P p A)
  then show ?case by (intro channelsSound_modify) (auto simp: weight_defs claimsSound_def)
next
  case (reallocate P slot p as C A r)
  then show ?case unfolding channelsSound_def by auto
qed (simp_all add: channelsSound_def)

lemma move_sound: "move now s s' \<Longrightarrow> sound now s \<Longrightarrow> sound now s'"
  unfolding sound_def using move_claimsSound move_poolsSound move_channelsSound by blast

lemma moves_sound: "moves now s s' \<Longrightarrow> sound now s \<Longrightarrow> sound now s'"
  by (induction rule: moves.induct) (auto dest: move_sound)

section \<open>A claim's life\<close>

text \<open>The status a claim may have after a claim of status \<open>s\<close>.\<close>

fun mayBecome :: "ClaimStatus \<Rightarrow> ClaimStatus \<Rightarrow> bool" where
  "mayBecome Held s = True"
| "mayBecome Finalizing s \<longleftrightarrow> s \<noteq> Held"
| "mayBecome s s' \<longleftrightarrow> s' = s"

lemma mayBecome_refl [simp]: "mayBecome s s" by (cases s) auto

lemma mayBecome_trans: "mayBecome a b \<Longrightarrow> mayBecome b c \<Longrightarrow> mayBecome a c"
  by (cases a; cases b; cases c) auto

text \<open>A claim keeps its identity, its pool, its owner and its kind; only its status moves on.\<close>

definition continues :: "Claim \<Rightarrow> Claim \<Rightarrow> bool" where
  "continues c d \<longleftrightarrow> icID d = icID c \<and> icPoolID d = icPoolID c \<and> icOrganizerID d = icOrganizerID c \<and>
     icKind d = icKind c \<and> icChannel d = icChannel c \<and> icKey d = icKey c \<and>
     mayBecome (icStatus c) (icStatus d) \<and> icReturned c \<le> icReturned d \<and> icQuantity d \<le> icQuantity c"

definition lives :: "core \<Rightarrow> core \<Rightarrow> bool" where
  "lives = (\<lambda>(P, C, A) (P', C', A'). \<forall>c \<in> set C. \<exists>d \<in> set C'. continues c d)"

lemma continues_refl [simp]: "continues c c" by (simp add: continues_def)

lemma continues_trans: "continues a b \<Longrightarrow> continues b c \<Longrightarrow> continues a c"
  by (auto simp: continues_def dest: mayBecome_trans)

lemma lives_map: "(\<And>c. c \<in> set C \<Longrightarrow> continues c (f c)) \<Longrightarrow> lives (P, C, A) (P', map f C @ D, A')"
  by (auto simp: lives_def)

lemma lives_modify:
  assumes "distinct (map icID C)" and "c \<in> set C" and "continues c (f c)"
  shows "lives (P, C, A) (P', modify (icID c) f C @ D, A')"
proof -
  have "continues x (if icID x = icID c then f x else x)" if "x \<in> set C" for x
    using that assms unique_claim [OF assms(1), of x c] by auto
  then show ?thesis unfolding modify_def by (rule lives_map)
qed

lemma lives_refl [simp]: "lives (P, C, A) (P', C @ D, A')" "lives (P, C, A) (P', C, A')"
  by (auto simp: lives_def intro: bexI [of _ "_ :: Claim"] continues_refl)

lemma move_lives: "move now s s' \<Longrightarrow> claimsSound s \<Longrightarrow> lives s s'"
proof (induction rule: move.induct)
  case (retire C Q st P A)
  have "continues c (if Q c then c\<lparr>icStatus := st\<rparr> else c)" if "c \<in> set C" for c
    using retire(1) [OF that] retire(2) by (auto simp: continues_def)
  then show ?case using lives_map [of C "\<lambda>c. if Q c then c\<lparr>icStatus := st\<rparr> else c" P A P "[]" A] by simp
next
  case (finalize c C P A)
  then show ?case
    using lives_modify [of C c "\<lambda>x. x\<lparr>icStatus := Finalizing\<rparr>" P A P "[]" A]
    by (auto simp: claimsSound_def continues_def)
next
  case (confirm c C P p A)
  then show ?case
    using lives_modify [of C c "\<lambda>x. x\<lparr>icStatus := Confirmed\<rparr>" P A _ "[]" A]
    by (auto simp: claimsSound_def continues_def isLive_def)
next
  case (split c C q d P A)
  let ?f = "if q = icQuantity c then (\<lambda>x. x\<lparr>icStatus := Released\<rparr>) else (\<lambda>x. x\<lparr>icQuantity := icQuantity x - q\<rparr>)"
  have "icID d \<noteq> icID c" using split by auto
  then have "modify (icID c) ?f (C @ [d]) = modify (icID c) ?f C @ [d]" by (simp add: modify_def)
  then show ?case using split lives_modify [of C c ?f P A P "[d]" A]
    by (auto simp: claimsSound_def continues_def)
next
  case (shrink c C q P A)
  then show ?case
    using lives_modify [of C c "\<lambda>x. x\<lparr>icQuantity := icQuantity x - q\<rparr>" P A P "[]" A]
    by (auto simp: claimsSound_def continues_def)
next
  case (refund c C q P p A)
  then show ?case
    using lives_modify [of C c "\<lambda>x. x\<lparr>icReturned := icReturned x + q\<rparr>" P A _ "[]" A]
    by (auto simp: claimsSound_def continues_def)
qed simp_all

lemma moves_lives: "moves now s s' \<Longrightarrow> claimsSound s \<Longrightarrow> lives s s'"
proof (induction rule: moves.induct)
  case (moves_refl s)
  then show ?case by (cases s) simp
next
  case (moves_step s s' s'')
  have "lives s s'" "lives s' s''" using moves_step move_lives move_claimsSound by blast+
  then show ?case unfolding lives_def
    by (cases s; cases s'; cases s'') (auto, meson continues_trans)
qed

end
