(* ===== verification/Inventory_Refinement.thy ===== *)
theory Inventory_Refinement
  imports Inventory_Machine
begin

text \<open>
  Every operation of the inventory store, successful or refused, is a sequence of moves of
  the abstract pool machine made at its transaction's start time.
\<close>

section \<open>Statements\<close>

lemma transact_cases:
  assumes "transact body db = (r, db')"
  obtains e where "body db = Inl e" "r = Inl e" "db' = db" | "body db = Inr (r, db')"
  using assms by (cases "body db") (auto simp: transact_def)

lemma coreOf_frame [simp]:
  "coreOf (db\<lparr>ivHistory := h\<rparr>) = coreOf db" "coreOf (db\<lparr>ivSeats := s\<rparr>) = coreOf db"
  "coreOf (db\<lparr>ivCodes := cs\<rparr>) = coreOf db" "coreOf (db\<lparr>ivEvents := es\<rparr>) = coreOf db"
  "coreOf (db\<lparr>ivClosures := cl\<rparr>) = coreOf db"
  by (simp_all add: coreOf_def)

lemma coreOf_seats [simp]: "coreOf (releaseSeatsForTerminal pool db) = coreOf db"
  by (simp add: releaseSeatsForTerminal_def)

lemma insertHistory_core: "insertHistory h db = Inr db' \<Longrightarrow> coreOf db' = coreOf db"
  by (auto simp: insertHistory_def split: if_splits)

lemma appendHistory_core: "appendHistory org c rel ac actor reason q qa st k db = Inr db' \<Longrightarrow> coreOf db' = coreOf db"
  unfolding appendHistory_def by (rule insertHistory_core)

lemma foldE_history_core:
  "foldE (\<lambda>c. insertHistory (g c)) cs db = Inr db' \<Longrightarrow> coreOf db' = coreOf db"
  by (induction cs arbitrary: db) (auto simp: bindE_Inr_iff dest: insertHistory_core)

lemma coreOf_modify: "coreOf (changeClaim i f db) = (ivPools db, modify i f (ivClaims db), ivAllocations db)"
  by (simp add: coreOf_def changeClaim_def modify_def)

lemma coreOf_setStatus:
  "coreOf (setStatus st i db) = (ivPools db, modify i (\<lambda>x. x\<lparr>icStatus := st\<rparr>) (ivClaims db), ivAllocations db)"
  by (simp add: setStatus_def coreOf_modify)

lemma coreOf_eqD: "coreOf db' = (P, C, A) \<Longrightarrow> ivPools db' = P \<and> ivClaims db' = C \<and> ivAllocations db' = A"
  by (simp add: coreOf_def)

lemma liveHeld_core: "liveHeld now pool db = claimSum (liveIn now pool) (ivClaims db)"
  by (simp add: liveHeld_def tally_def claimSum_def)

lemma channelConsumed_core: "channelConsumed now pool ch db = claimSum (usedIn now pool ch) (ivClaims db)"
  by (simp add: channelConsumed_def tally_def claimSum_def)

lemma insertClaim_core:
  assumes "insertClaim c db = Inr db'"
  shows "coreOf db' = (ivPools db, ivClaims db @ [c], ivAllocations db)"
    and "claimCheck c" and "icID c \<notin> icID ` set (ivClaims db)"
  using assms by (auto simp: insertClaim_def coreOf_def split: if_splits)

lemma updatePool_core:
  assumes "updatePool slot f db = Inr db'" and "ivPools db slot = Some p"
  shows "coreOf db' = ((ivPools db)(slot \<mapsto> f p), ivClaims db, ivAllocations db)" and "poolCheck (f p)"
  using assms by (auto simp: updatePool_def coreOf_def split: if_splits)

lemma asInt32_Inr: "asInt32 v = Inr n \<longleftrightarrow> int32 v \<and> n = v"
  by (auto simp: asInt32_def)

lemma findClaim_Some: "findClaim org i db = Some c \<Longrightarrow> c \<in> set (ivClaims db) \<and> icID c = i \<and> icOrganizerID c = org"
  by (auto simp: findClaim_def find_Some_iff)

section \<open>The shared steps\<close>

lemma reconcile_moves:
  assumes "reconcileCapacity now pool db = Inr db'"
  shows "moves now (coreOf db) (coreOf db')"
proof (cases "ivPools db pool")
  case None
  then show ?thesis using assms by (auto simp: reconcileCapacity_def)
next
  case (Some p)
  show ?thesis
  proof (cases "ipTarget p")
    case None
    then show ?thesis using assms Some by (auto simp: reconcileCapacity_def)
  next
    case (Some t)
    let ?d = "ipConfirmed p + claimSum (liveIn now pool) (ivClaims db)"
    have u: "updatePool pool (\<lambda>p. p\<lparr>ipCapacity := max t ?d, ipTarget := (if ?d \<le> t then None else Some t)\<rparr>) db = Inr db'"
      using assms Some \<open>ivPools db pool = Some p\<close>
      by (auto simp: reconcileCapacity_def bindE_Inr_iff asInt32_Inr liveHeld_core)
    show ?thesis unfolding updatePool_core(1) [OF u \<open>ivPools db pool = Some p\<close>]
      using updatePool_core(2) [OF u \<open>ivPools db pool = Some p\<close>] \<open>ivPools db pool = Some p\<close>
      by (simp only: coreOf_def) (intro moves_one move.resize; simp)
  qed
qed

lemma sweep_moves:
  assumes "sweepExpired now pool db = Inr db'"
  shows "moves now (coreOf db) (coreOf db')"
proof -
  let ?db1 = "db\<lparr>ivClaims := map (\<lambda>c. if dueIn now pool c then c\<lparr>icStatus := Expired\<rparr> else c) (ivClaims db)\<rparr>"
  obtain db1 where h: "foldE (\<lambda>c. insertHistory (expiryRow c)) (filter (dueIn now pool) (ivClaims db)) ?db1 = Inr db1"
    and r: "reconcileCapacity now pool (releaseSeatsForTerminal pool db1) = Inr db'"
    using assms by (auto simp: sweepExpired_def bindE_Inr_iff)
  have m: "move now (coreOf db) (coreOf ?db1)"
    unfolding coreOf_def by (simp, rule move.retire) (auto simp: dueIn_def)
  have "moves now (coreOf ?db1) (coreOf db')"
    using foldE_history_core [OF h] reconcile_moves [OF r] by simp
  then show ?thesis by (rule moves_step [OF m])
qed

text \<open>
  A wind-down moves a pool's capacity and target, not its limit, its counter or the state of
  its offering.
\<close>

definition samePool :: "Pool \<Rightarrow> Pool \<Rightarrow> bool" where
  "samePool p q \<longleftrightarrow> ipConfirmed q = ipConfirmed p \<and> capacityLimit q = capacityLimit p \<and>
     ipLifecycle q = ipLifecycle p \<and> ipClosure q = ipClosure p \<and> ipOrganizerID q = ipOrganizerID p \<and>
     ipKind q = ipKind p"

lemma reconcile_pool:
  assumes "reconcileCapacity now pool db = Inr db'" and "ivPools db pool = Some p"
  obtains q where "ivPools db' pool = Some q" "samePool p q" "ivAllocations db' = ivAllocations db"
    "ivClaims db' = ivClaims db"
  using assms
  by (cases "ipTarget p") (auto simp: reconcileCapacity_def bindE_Inr_iff asInt32_Inr updatePool_def samePool_def
      capacityLimit_def split: if_splits)

lemma sweep_pool:
  assumes "sweepExpired now pool db = Inr db'" and "ivPools db pool = Some p"
  obtains q where "ivPools db' pool = Some q" "samePool p q" "ivAllocations db' = ivAllocations db"
proof -
  let ?db1 = "db\<lparr>ivClaims := map (\<lambda>c. if dueIn now pool c then c\<lparr>icStatus := Expired\<rparr> else c) (ivClaims db)\<rparr>"
  obtain db1 where h: "foldE (\<lambda>c. insertHistory (expiryRow c)) (filter (dueIn now pool) (ivClaims db)) ?db1 = Inr db1"
    and r: "reconcileCapacity now pool (releaseSeatsForTerminal pool db1) = Inr db'"
    using assms by (auto simp: sweepExpired_def bindE_Inr_iff)
  have "ivPools (releaseSeatsForTerminal pool db1) = ivPools db"
    and a: "ivAllocations (releaseSeatsForTerminal pool db1) = ivAllocations db"
    using foldE_history_core [OF h] by (auto simp: coreOf_def releaseSeatsForTerminal_def)
  then have "ivPools (releaseSeatsForTerminal pool db1) pool = Some p" using assms(2) by simp
  then show thesis using reconcile_pool [OF r] a that by metis
qed

section \<open>The buyer's operations\<close>

text \<open>
  Where a hold is admitted: the limit holds over all live claims, and a channel's claims stay
  within its cap.
\<close>

lemma admit_move:
  assumes "insertClaim c db = Inr db'" and "icStatus c = Held" and "icReturned c = 0"
    and "ivPools db (icPoolID c) = Some p"
    and "ipConfirmed p + liveHeld now (icPoolID c) db + icQuantity c \<le> capacityLimit p"
    and "\<And>a. a \<in> set (ivAllocations db (icPoolID c)) \<Longrightarrow> icChannel c = Some (alChannel a) \<Longrightarrow>
      channelConsumed now (icPoolID c) (alChannel a) db + icQuantity c \<le> alCap a"
  shows "move now (coreOf db) (coreOf db')"
  unfolding insertClaim_core(1) [OF assms(1)] unfolding coreOf_def
  using assms(2-6) insertClaim_core(2,3) [OF assms(1)]
  by (intro move.admit) (simp_all add: liveHeld_core channelConsumed_core)

lemma channelGate_Some:
  assumes "channelGate ck r db = Inr (Some a)" 
  shows "a \<in> set (ivAllocations db (hqSlotID r)) \<and> alChannel a = hqChannel r"
  using assms by (auto simp: channelGate_def find_Some_iff split: if_splits option.splits)

lemma only_allocation:
  assumes "channelsSound now (coreOf db)" and "a \<in> set (ivAllocations db slot)" 
    and "b \<in> set (ivAllocations db slot)" and "alChannel a = alChannel b"
  shows "a = b"
  using assms unfolding channelsSound_def coreOf_def by (auto simp: distinct_map inj_on_def)

lemma nullIf_Some [simp]: "nullIf s = Some t \<longleftrightarrow> s = t \<and> s \<noteq> ''''"
  by (auto simp: nullIf_def)

lemma admitHold_None:
  assumes "admitHold ck r p alloc db = None"
  shows "ipConfirmed p + liveHeld (ckNow ck) (hqSlotID r) db + hqQuantity r \<le> capacityLimit p"
    and "hqChannel r \<noteq> '''' \<Longrightarrow> \<exists>a. alloc = Some a \<and>
      channelConsumed (ckNow ck) (hqSlotID r) (hqChannel r) db + hqQuantity r \<le> alCap a"
  using assms by (auto simp: admitHold_def asInt32_def Let_def split: if_splits option.splits)

lemma admitGroup_None:
  assumes "admitGroup ck r p alloc db = None"
  shows "ipConfirmed p + liveHeld (ckNow ck) (hqSlotID r) db + hqQuantity r \<le> capacityLimit p"
    and "hqChannel r \<noteq> '''' \<Longrightarrow> \<exists>a. alloc = Some a \<and>
      channelConsumed (ckNow ck) (hqSlotID r) (hqChannel r) db + hqQuantity r \<le> alCap a"
  using assms by (auto simp: admitGroup_def asInt32_def Let_def split: if_splits option.splits)

text \<open>The sweep, the gate and the insert of a hold on a channel, for buyers and for groups.\<close>

lemma granted_moves:
  assumes "sound now (coreOf db)" and "ivPools db (hqSlotID r) = Some p"
    and "sweepExpired now (hqSlotID r) db = Inr db1" and "channelGate ck r db1 = Inr alloc"
    and "ipConfirmed p + liveHeld now (hqSlotID r) db1 + hqQuantity r \<le> capacityLimit p"
    and "hqChannel r \<noteq> '''' \<Longrightarrow> \<exists>a. alloc = Some a \<and>
      channelConsumed now (hqSlotID r) (hqChannel r) db1 + hqQuantity r \<le> alCap a"
    and "insertClaim c db1 = Inr db2" and "icStatus c = Held" and "icReturned c = 0"
    and "icPoolID c = hqSlotID r" and "icQuantity c = hqQuantity r" and "icChannel c = nullIf (hqChannel r)"
  shows "moves now (coreOf db) (coreOf db2)"
proof -
  obtain q where q: "ivPools db1 (hqSlotID r) = Some q" "samePool p q" by (rule sweep_pool [OF assms(3,2)])
  have s: "moves now (coreOf db) (coreOf db1)" by (rule sweep_moves [OF assms(3)])
  have ch: "channelsSound now (coreOf db1)" using moves_sound [OF s assms(1)] by (simp add: sound_def)
  have "move now (coreOf db1) (coreOf db2)"
  proof (rule admit_move [OF assms(7)])
    fix b
    assume b: "b \<in> set (ivAllocations db1 (icPoolID c))" "icChannel c = Some (alChannel b)"
    have slot: "icPoolID c = hqSlotID r" and n: "icQuantity c = hqQuantity r" by fact+
    have k: "alChannel b = hqChannel r" "hqChannel r \<noteq> ''''" using b(2) unfolding assms(12) by auto
    obtain a where a: "alloc = Some a" "channelConsumed now (hqSlotID r) (hqChannel r) db1 + hqQuantity r \<le> alCap a"
      using assms(6) [OF k(2)] by blast
    have "a \<in> set (ivAllocations db1 (hqSlotID r))" "alChannel a = alChannel b"
      using channelGate_Some [of ck r db1 a] assms(4) a(1) k(1) by auto
    then have "a = b" using only_allocation [OF ch _ b(1)] unfolding slot by blast
    then show "channelConsumed now (icPoolID c) (alChannel b) db1 + icQuantity c \<le> alCap b"
      using a(2) unfolding slot n k(1) by simp
  next
    show "ivPools db1 (icPoolID c) = Some q" using q(1) assms(10) by simp
    show "ipConfirmed q + liveHeld now (icPoolID c) db1 + icQuantity c \<le> capacityLimit q"
      using assms(5) q(2) unfolding assms(10,11) samePool_def by simp
  qed (fact assms)+
  then show ?thesis using s moves_one moves_trans by blast
qed

lemma soundD:
  assumes "sound now (coreOf db)"
  shows "distinct (map icID (ivClaims db))" "claimsSound (coreOf db)"
    and "c \<in> set (ivClaims db) \<Longrightarrow> claimCheck c"
    and "c \<in> set (ivClaims db) \<Longrightarrow> \<exists>p. ivPools db (icPoolID c) = Some p"
    and "c \<in> set (ivClaims db) \<Longrightarrow> icStatus c \<noteq> Confirmed \<Longrightarrow> icReturned c = 0"
    and "c \<in> set (ivClaims db) \<Longrightarrow> icKind c \<noteq> BuyerClaim \<Longrightarrow> icStatus c \<noteq> Finalizing \<and> icStatus c \<noteq> Confirmed"
  using assms unfolding sound_def claimsSound_def coreOf_def by auto

lemma retire_move:
  assumes "sound now (coreOf db)" and "c \<in> set (ivClaims db)" and "icStatus c \<in> {Held, Finalizing}"
    and "st \<in> {Released, Expired}"
  shows "move now (coreOf db) (coreOf (setStatus st (icID c) db))"
proof -
  have "icStatus d \<in> {Held, Finalizing}" if "d \<in> set (ivClaims db)" "icID d = icID c" for d
    using unique_claim [OF soundD(1) [OF assms(1)] that(1) assms(2) that(2)] assms(3) by simp
  then show ?thesis unfolding coreOf_setStatus modify_def unfolding coreOf_def
    by (intro move.retire) (use assms(4) in auto)
qed

lemma moves_after: "moves now s s' \<Longrightarrow> move now s' s'' \<Longrightarrow> moves now s s''"
  by (meson moves_one moves_trans)

lemma Provision_moves:
  assumes "sound now (coreOf db)" and "Provision e slot org cap db = (r, db')"
  shows "moves now (coreOf db) (coreOf db')"
proof -
  have empty: "icPoolID c \<noteq> slot" if "c \<in> set (ivClaims db)" "ivPools db slot = None" for c
    using soundD(4) [OF assms(1) that(1)] that(2) by auto
  have "coreOf db' = coreOf db \<or> (\<exists>p. coreOf db' = ((ivPools db)(slot \<mapsto> p), ivClaims db, ivAllocations db) \<and>
      poolCheck p \<and> ipConfirmed p = 0 \<and> (\<forall>c \<in> set (ivClaims db). icPoolID c \<noteq> slot))"
    using assms(2) empty
    by (cases "ivPools db slot")
      (auto simp: Provision_def transact_def Let_def coreOf_def updatePool_def list_ex_iff bindE_def split: if_splits)
  then show ?thesis
  proof
    assume "coreOf db' = coreOf db"
    then show ?thesis by auto
  next
    assume "\<exists>p. coreOf db' = ((ivPools db)(slot \<mapsto> p), ivClaims db, ivAllocations db) \<and>
      poolCheck p \<and> ipConfirmed p = 0 \<and> (\<forall>c \<in> set (ivClaims db). icPoolID c \<noteq> slot)"
    then obtain p where p: "coreOf db' = ((ivPools db)(slot \<mapsto> p), ivClaims db, ivAllocations db)" "poolCheck p"
      "ipConfirmed p = 0" "\<And>c. c \<in> set (ivClaims db) \<Longrightarrow> icPoolID c \<noteq> slot" by blast
    show ?thesis unfolding p(1) unfolding coreOf_def by (rule moves_one, rule move.provision) (use p in auto)
  qed
qed

lemma CreateHold_moves:
  assumes "sound (ckNow ck) (coreOf db)" and "CreateHold sha ttl ck newID r db = (res, db')"
  shows "moves (ckNow ck) (coreOf db) (coreOf db')"
proof (cases "db' = db")
  case False
  then obtain p where p: "ivPools db (hqSlotID r) = Some p"
    and b: "(case priorClaim r db of Some c \<Rightarrow> replayHold sha ck r c db
              | None \<Rightarrow> grantHold sha ttl ck newID r p db) = Inr (res, db')"
    using assms(2) by (auto simp: CreateHold_def transact_def split: if_splits option.splits sum.splits)
  show ?thesis
  proof (cases "priorClaim r db")
    case (Some c)
    then have c: "c \<in> set (ivClaims db)" by (auto simp: priorClaim_def find_Some_iff)
    have "expired (ckNow ck) c" and "coreOf db' = coreOf (setStatus Expired (icID c) db)"
      using b Some False
      by (auto simp: replayHold_def bindE_Inr_iff split: if_splits dest: appendHistory_core)
    then show ?thesis using retire_move [OF assms(1) c] by (auto simp: expired_def intro: moves_one)
  next
    case None
    then obtain db1 db2 db3 alloc where s: "sweepExpired (ckNow ck) (hqSlotID r) db = Inr db1"
      and g: "channelGate ck r db1 = Inr alloc" and a: "admitHold ck r p alloc db1 = None"
      and i: "insertClaim (heldClaim sha ttl ck newID r alloc) db1 = Inr db2" and c: "coreOf db' = coreOf db2"
      using b by (auto simp: grantHold_def Let_def bindE_Inr_iff split: option.splits dest: appendHistory_core)
    show ?thesis unfolding c
      using admitHold_None [OF a] by (intro granted_moves [OF assms(1) p s g _ _ i]) (auto simp: heldClaim_def)
  qed
qed auto

lemma expireFirst_cases:
  assumes "expireFirst now org c db = Inr (c', db')"
  obtains "c' = c" "db' = db" "\<not> expired now c"
  | db1 where "expired now c" "icStatus c' = Expired" "coreOf db1 = coreOf (setStatus Expired (icID c) db)"
      "reconcileCapacity now (icPoolID c) db1 = Inr db'"
proof (cases "expired now c")
  case True
  then obtain db1 where "appendHistory org (icID c) None ''expire'' ''system'' ''ttl_elapsed'' (icQuantity c) 0 Expired None
        (setStatus Expired (icID c) db) = Inr db1"
    and "reconcileCapacity now (icPoolID c) (releaseSeatsForTerminal (icPoolID c) db1) = Inr db'"
    and "c' = c\<lparr>icStatus := Expired\<rparr>"
    using assms by (auto simp: expireFirst_def bindE_Inr_iff)
  then show ?thesis using that(2) [OF True, of "releaseSeatsForTerminal (icPoolID c) db1"] by (auto dest: appendHistory_core)
qed (use assms that(1) in \<open>auto simp: expireFirst_def\<close>)

lemma retire_reconcile_moves:
  assumes "sound now (coreOf db)" and "c \<in> set (ivClaims db)" and "icStatus c \<in> {Held, Finalizing}"
    and "st \<in> {Released, Expired}" and "coreOf db1 = coreOf (setStatus st (icID c) db)"
    and "reconcileCapacity now pool db1 = Inr db'"
  shows "moves now (coreOf db) (coreOf db')"
  using moves_step [OF retire_move [OF assms(1-4)]] reconcile_moves [OF assms(6)] unfolding assms(5) by blast

lemma settle_release:
  assumes "settleClaim now org c Released db = Inr db'"
  obtains db1 db2 where "coreOf db1 = coreOf (setStatus Released (icID c) db)"
    "reconcileCapacity now (icPoolID c) db1 = Inr db2" "coreOf db' = coreOf db2"
  using assms that [of "releaseSeatsForTerminal (icPoolID c) (setStatus Released (icID c) db)"]
  by (auto simp: settleClaim_def Let_def bindE_Inr_iff dest: appendHistory_core)

lemma settle_confirm:
  assumes "settleClaim now org c Confirmed db = Inr db'" and "ivPools db (icPoolID c) = Some p"
  shows "poolCheck (p\<lparr>ipConfirmed := ipConfirmed p + icQuantity c\<rparr>)"
    and "coreOf db' = ((ivPools db)(icPoolID c \<mapsto> p\<lparr>ipConfirmed := ipConfirmed p + icQuantity c\<rparr>),
      modify (icID c) (\<lambda>x. x\<lparr>icStatus := Confirmed\<rparr>) (ivClaims db), ivAllocations db)"
proof -
  obtain db1 where u: "updatePool (icPoolID c) (\<lambda>p. p\<lparr>ipConfirmed := ipConfirmed p + icQuantity c\<rparr>) db = Inr db1"
    and h: "coreOf db' = coreOf (setStatus Confirmed (icID c) db1)"
    using assms(1) by (auto simp: settleClaim_def Let_def bindE_Inr_iff dest: appendHistory_core)
  show "poolCheck (p\<lparr>ipConfirmed := ipConfirmed p + icQuantity c\<rparr>)" by (rule updatePool_core(2) [OF u assms(2)])
  show "coreOf db' = ((ivPools db)(icPoolID c \<mapsto> p\<lparr>ipConfirmed := ipConfirmed p + icQuantity c\<rparr>),
      modify (icID c) (\<lambda>x. x\<lparr>icStatus := Confirmed\<rparr>) (ivClaims db), ivAllocations db)"
    using updatePool_core(1) [OF u assms(2)] unfolding h coreOf_setStatus unfolding coreOf_def by simp
qed

lemma not_expired_live: "icStatus c \<in> {Held, Finalizing} \<Longrightarrow> \<not> expired at c \<Longrightarrow> now \<le> at \<Longrightarrow> isLive now c"
  by (auto simp: expired_def isLive_def split: option.splits)

lemma Transition_moves:
  assumes "sound now (coreOf db)" and "target \<in> {Finalizing, Confirmed, Released}"
    and "Transition now org i target db = (res, db')"
  shows "moves now (coreOf db) (coreOf db')"
proof (cases "db' = db")
  case False
  then obtain c0 c db1 where f: "findClaim org i db = Some c0" and k: "icKind c0 = BuyerClaim"
    and e: "expireFirst now org c0 db = Inr (c, db1)"
    and t: "coreOf db' = coreOf db1 \<or> (icStatus c = Held \<and> target = Finalizing \<and>
        coreOf db' = coreOf (setStatus Finalizing i db1)) \<or>
      (icStatus c \<in> {Held, Finalizing} \<and> target \<noteq> Finalizing \<and> settleClaim now org c target db1 = Inr db')"
    using assms(2,3) by (auto simp: Transition_def transact_def bindE_Inr_iff split: if_splits option.splits sum.splits
        dest: appendHistory_core)
  have c0: "c0 \<in> set (ivClaims db)" "icID c0 = i" using findClaim_Some [OF f] by auto
  from e show ?thesis
  proof (cases rule: expireFirst_cases)
    case 1
    obtain p where p: "ivPools db (icPoolID c) = Some p" using soundD(4) [OF assms(1) c0(1)] 1 by auto
    consider "coreOf db' = coreOf db" | "icStatus c = Held" "coreOf db' = coreOf (setStatus Finalizing i db)"
      | "icStatus c \<in> {Held, Finalizing}" "settleClaim now org c Confirmed db = Inr db'"
      | "icStatus c \<in> {Held, Finalizing}" "settleClaim now org c Released db = Inr db'"
      using t 1 assms(2) by auto
    then show ?thesis
    proof cases
      case 2
      have "move now (coreOf db) (coreOf db')" unfolding 2(2) coreOf_setStatus c0(2) [symmetric] unfolding coreOf_def
        using c0 k 1 2 by (intro move.finalize) (auto intro: not_expired_live)
      then show ?thesis by (rule moves_one)
    next
      case 3
      note s = settle_confirm [OF 3(2) p]
      have "move now (coreOf db) (coreOf db')" unfolding s(2) unfolding coreOf_def
        using c0 k 1 3 p s(1) by (intro move.confirm) (auto intro: not_expired_live)
      then show ?thesis by (rule moves_one)
    next
      case 4
      from 4(2) obtain db2 db3 where r: "coreOf db2 = coreOf (setStatus Released (icID c) db)"
        "reconcileCapacity now (icPoolID c) db2 = Inr db3" "coreOf db' = coreOf db3" by (rule settle_release)
      have "c \<in> set (ivClaims db)" using c0 1 by simp
      then show ?thesis unfolding r(3) using 4(1) by (intro retire_reconcile_moves [OF assms(1) _ _ _ r(1,2)]) auto
    qed auto
  next
    case (2 db2)
    have "moves now (coreOf db) (coreOf db1)"
      using 2(1) by (intro retire_reconcile_moves [OF assms(1) c0(1) _ _ 2(3,4)]) (auto simp: expired_def)
    moreover have "coreOf db' = coreOf db1" using t 2(2) by auto
    ultimately show ?thesis by simp
  qed
qed auto

section \<open>The staff operations\<close>

lemma PlaceOperationalHold_moves:
  assumes "sound (ckNow ck) (coreOf db)"
    and "PlaceOperationalHold sha ck newID org slot qty purpose label actor reason key db = (res, db')"
  shows "moves (ckNow ck) (coreOf db) (coreOf db')"
proof (cases "db' = db")
  case False
  let ?c = "operationalClaim newID org slot qty purpose label key
     (opFingerprint sha [''op-place'', uuid_String org, uuid_String slot, formatInt qty, purpose, label])"
  obtain p db1 db2 where p: "ivPools db slot = Some p" and s: "sweepExpired (ckNow ck) slot db = Inr db1"
    and n: "ipConfirmed p + liveHeld (ckNow ck) slot db1 + qty \<le> capacityLimit p"
    and i: "insertClaim ?c db1 = Inr db2" and c: "coreOf db' = coreOf db2"
    using assms(2) False
    by (auto simp: PlaceOperationalHold_def transact_def bindE_Inr_iff asInt32_Inr Let_def
        split: if_splits option.splits sum.splits dest: appendHistory_core)
  obtain q where q: "ivPools db1 slot = Some q" "samePool p q" by (rule sweep_pool [OF s p])
  have "move (ckNow ck) (coreOf db1) (coreOf db2)"
    using n q by (intro admit_move [where p = q, OF i]) (auto simp: operationalClaim_def samePool_def)
  then show ?thesis unfolding c using sweep_moves [OF s] moves_after by blast
qed auto

lemma coreOf_takeFrom:
  "coreOf (takeFrom i q c db) = (ivPools db, modify i (if q = icQuantity c then (\<lambda>x. x\<lparr>icStatus := Released\<rparr>)
     else (\<lambda>x. x\<lparr>icQuantity := icQuantity x - q\<rparr>)) (ivClaims db), ivAllocations db)"
  by (simp add: takeFrom_def coreOf_setStatus coreOf_modify)

lemma takeFrom_move:
  assumes "sound now (coreOf db)" and "c \<in> set (ivClaims db)" and "icStatus c = Held"
    and "0 < q" and "q \<le> icQuantity c"
  shows "move now (coreOf db) (coreOf (takeFrom (icID c) q c db))"
proof (cases "q = icQuantity c")
  case True
  then show ?thesis using retire_move [OF assms(1,2), of Released] assms(3) by (simp add: takeFrom_def)
next
  case False
  then show ?thesis unfolding coreOf_takeFrom unfolding coreOf_def using assms(2-5)
    by (simp only: if_False) (intro move.shrink; simp)
qed

lemma ReleaseOperational_moves:
  assumes "sound now (coreOf db)" and "ReleaseOperational sha now org i qty actor reason key db = (res, db')"
  shows "moves now (coreOf db) (coreOf db')"
proof (cases "db' = db")
  case False
  then obtain c db1 where f: "findClaim org i db = Some c" and h: "icStatus c = Held" "0 < qty" "qty \<le> icQuantity c"
    and t: "coreOf db1 = coreOf (takeFrom i qty c db)" and r: "reconcileCapacity now (icPoolID c) db1 = Inr db'"
    using assms(2)
    by (auto simp: ReleaseOperational_def transact_def bindE_Inr_iff Let_def
        split: if_splits option.splits sum.splits dest: appendHistory_core)
  have c: "c \<in> set (ivClaims db)" "icID c = i" using findClaim_Some [OF f] by auto
  show ?thesis
    using takeFrom_move [OF assms(1) c(1) h] reconcile_moves [OF r] unfolding c(2) t by (rule moves_step)
qed auto

text \<open>A sale out of a staff hold: the child enters, the hold gives up the same quantity.\<close>

lemma sellFrom_moves:
  assumes "sound now (coreOf db)" and "c \<in> set (ivClaims db)" and "icID c = sqSourceID r"
    and "icKind c \<noteq> BuyerClaim" and "isLive now c" and "0 < sqQuantity r" and "channel = icChannel c"
    and "sellFrom ttl ck newID r fp action c channel code db = Inr (res, db')"
  shows "move now (coreOf db) (coreOf db')"
proof -
  let ?d = "saleClaim ttl ck newID r fp channel code"
  obtain db1 where e: "icPoolID c = sqExpectedSlot r" "icStatus c = Held" "sqQuantity r \<le> icQuantity c"
    and i: "insertClaim ?d db = Inr db1" and t: "coreOf db' = coreOf (takeFrom (icID c) (sqQuantity r) c db1)"
    using assms(3,8) by (auto simp: sellFrom_def bindE_Inr_iff Let_def split: if_splits dest: appendHistory_core)
  have d1: "ivPools db1 = ivPools db" "ivClaims db1 = ivClaims db @ [?d]" "ivAllocations db1 = ivAllocations db"
    using insertClaim_core(1) [OF i] by (auto simp: coreOf_def)
  show ?thesis unfolding t coreOf_takeFrom d1 unfolding coreOf_def
    using assms(2,4-7) e insertClaim_core(2,3) [OF i] by (intro move.split) (auto simp: saleClaim_def)
qed

lemma replaySale_db: "replaySale r h rel db = Inr (res, db') \<Longrightarrow> db' = db"
  by (auto simp: replaySale_def split: option.splits)

lemma sale_cases: "(case (prior, Option.bind prior f) of (Some h, Some rel) \<Rightarrow> x h rel | _ \<Rightarrow> y) =
    (case Option.bind prior f of None \<Rightarrow> y | Some rel \<Rightarrow> x (the prior) rel)"
  by (cases prior; cases "Option.bind prior f") auto

lemma ConvertOperational_moves:
  assumes "sound now (coreOf db)" and "ConvertOperational sha ttl ck newID r db = (res, db')"
  shows "moves now (coreOf db) (coreOf db')"
proof (cases "db' = db")
  case False
  then obtain c where f: "findClaim (sqOrganizerID r) (sqSourceID r) db = Some c" and k: "icKind c = OperationalClaim"
    and q: "0 < sqQuantity r"
    and s: "sellFrom ttl ck newID r (saleFP sha ''op-convert'' r) ''convert'' c None None db = Inr (res, db')"
    using assms(2) unfolding ConvertOperational_def sale_cases
    by (auto simp: transact_def bindE_Inr_iff Let_def
        split: if_splits option.splits sum.splits dest: replaySale_db)
  have c: "c \<in> set (ivClaims db)" "icID c = sqSourceID r" using findClaim_Some [OF f] by auto
  have "icExpiresAt c = None" "icChannel c = None"
    using soundD(3) [OF assms(1) c(1)] k by (auto simp: claimCheck_def kindShape_def)
  moreover have "icStatus c = Held" using s by (auto simp: sellFrom_def split: if_splits)
  ultimately show ?thesis
    using k by (intro moves_one sellFrom_moves [OF assms(1) c _ _ q _ s]) (auto simp: isLive_def)
qed auto

lemma PlaceGroupReservation_moves:
  assumes "sound (ckNow ck) (coreOf db)" and "PlaceGroupReservation sha rfc clk ck newID g db = (res, db')"
  shows "moves (ckNow ck) (coreOf db) (coreOf db')"
proof (cases "db' = db")
  case False
  let ?r = "gqHold g" and ?fp = "groupFP sha rfc g"
  obtain p db1 db2 alloc where p: "ivPools db (hqSlotID ?r) = Some p"
    and s: "sweepExpired (ckNow ck) (hqSlotID ?r) db = Inr db1"
    and g: "channelGate ck ?r db1 = Inr alloc" and a: "admitGroup ck ?r p alloc db1 = None"
    and i: "insertClaim (reservationClaim newID g ?fp alloc) db1 = Inr db2" and c: "coreOf db' = coreOf db2"
    using assms(2) False
    by (auto simp: PlaceGroupReservation_def transact_def bindE_Inr_iff Let_def
        split: if_splits option.splits sum.splits dest: appendHistory_core)
  show ?thesis unfolding c
    using admitGroup_None [OF a]
    by (intro granted_moves [OF assms(1) p s g _ _ i]) (auto simp: reservationClaim_def Let_def)
qed auto

lemma DrawDownGroupReservation_moves:
  assumes "sound (ckNow ck) (coreOf db)" and "ckNow ck \<le> decision"
    and "DrawDownGroupReservation sha ttl decision ck newID r db = (res, db')"
  shows "moves (ckNow ck) (coreOf db) (coreOf db')"
proof (cases "db' = db")
  case False
  then obtain c where f: "findClaim (sqOrganizerID r) (sqSourceID r) db = Some c" and k: "icKind c = ReservationClaim"
    and q: "0 < sqQuantity r"
    and s: "(\<exists>db1. expired decision c \<and> coreOf db1 = coreOf (setStatus Expired (sqSourceID r) db) \<and>
        reconcileCapacity (ckNow ck) (icPoolID c) db1 = Inr db') \<or>
      (\<not> expired decision c \<and>
        sellFrom ttl ck newID r (saleFP sha ''grp-draw'' r) ''draw_down'' c (icChannel c) (icPresaleCode c) db = Inr (res, db'))"
    using assms(3) unfolding DrawDownGroupReservation_def sale_cases
    by (auto simp: transact_def bindE_Inr_iff Let_def
        split: if_splits option.splits sum.splits dest: replaySale_db appendHistory_core)
  have c: "c \<in> set (ivClaims db)" "icID c = sqSourceID r" using findClaim_Some [OF f] by auto
  from s show ?thesis
  proof (elim disjE exE conjE)
    fix db1
    assume e: "expired decision c" and d: "coreOf db1 = coreOf (setStatus Expired (sqSourceID r) db)"
      and r: "reconcileCapacity (ckNow ck) (icPoolID c) db1 = Inr db'"
    show ?thesis using e d
      by (intro retire_reconcile_moves [OF assms(1) c(1) _ _ _ r]) (auto simp: c(2) expired_def)
  next
    assume e: "\<not> expired decision c"
      and t: "sellFrom ttl ck newID r (saleFP sha ''grp-draw'' r) ''draw_down'' c (icChannel c) (icPresaleCode c) db = Inr (res, db')"
    have "icStatus c = Held" using t by (auto simp: sellFrom_def split: if_splits)
    then have "isLive (ckNow ck) c" using e assms(2) by (auto intro: not_expired_live)
    then show ?thesis using k by (intro moves_one sellFrom_moves [OF assms(1) c _ _ q _ t]) auto
  qed
qed auto

section \<open>Capacity, channels, refunds and the offering\<close>

lemma demand_bounds:
  assumes "sound now (coreOf db)" and "ivPools db slot = Some p"
  shows "0 \<le> liveHeld now slot db" and "ipConfirmed p + liveHeld now slot db \<le> ipCapacity p" and "poolCheck p"
    and "int32 (ipConfirmed p + liveHeld now slot db)" and "int32 (liveHeld now slot db)"
proof -
  have "0 \<le> liveIn now slot c" if "c \<in> set (ivClaims db)" for c
    using claimCheck_bounds [OF soundD(3) [OF assms(1) that]] by (simp add: liveIn_def)
  then show n: "0 \<le> liveHeld now slot db" unfolding liveHeld_core by (rule claimSum_nonneg)
  show b: "ipConfirmed p + liveHeld now slot db \<le> ipCapacity p" and c: "poolCheck p"
    using assms by (auto simp: sound_def poolsSound_def coreOf_def liveHeld_core)
  then show "int32 (ipConfirmed p + liveHeld now slot db)" "int32 (liveHeld now slot db)"
    using n by (auto simp: poolCheck_def int32_def)
qed

lemma case_option_Inr: "(case x of None \<Rightarrow> Inl e | Some q \<Rightarrow> f q) = Inr y \<longleftrightarrow> (\<exists>q. x = Some q \<and> f q = Inr y)"
  by (cases x) auto

lemma AdjustCapacity_moves:
  assumes "sound now (coreOf db)" and "AdjustCapacity sha now org slot newCap actor reason key db = (res, db')"
  shows "moves now (coreOf db) (coreOf db')"
proof (cases "db' = db")
  case False
  then obtain db1 q db2 n t where s: "sweepExpired now slot db = Inr db1" and q: "ivPools db1 slot = Some q"
    and n: "n = (if newCap < ipConfirmed q + liveHeld now slot db1 then wrap32 (ipConfirmed q + liveHeld now slot db1) else newCap)"
    and u: "updatePool slot (\<lambda>p. p\<lparr>ipCapacity := n, ipTarget := t\<rparr>) db1 = Inr db2" and c: "coreOf db' = coreOf db2"
    using assms(2)
    by (auto simp: AdjustCapacity_def transact_def bindE_Inr_iff asInt32_Inr case_option_Inr Let_def
        split: if_splits option.splits sum.splits dest: insertHistory_core)
  have m: "moves now (coreOf db) (coreOf db1)" by (rule sweep_moves [OF s])
  note d = demand_bounds [OF moves_sound [OF m assms(1)] q]
  have "ipConfirmed q + liveHeld now slot db1 \<le> n" using n d(4) by (simp add: wrap32_id)
  then have "move now (coreOf db1) (coreOf db2)"
    unfolding updatePool_core(1) [OF u q] unfolding coreOf_def
    using q updatePool_core(2) [OF u q] by (intro move.resize) (auto simp: liveHeld_core)
  then show ?thesis unfolding c using m moves_after by blast
qed auto

lemma allocationInput_distinct:
  "allocationInput seen as = None \<Longrightarrow> distinct (map alChannel as) \<and> set (map alChannel as) \<inter> set seen = {}"
  by (induction seen as rule: allocationInput.induct) (auto split: if_splits)

lemma ReplaceChannelAllocations_moves:
  assumes "ReplaceChannelAllocations now org slot allocs expected db = (res, db')"
  shows "moves now (coreOf db) (coreOf db')"
proof (cases "db' = db")
  case False
  then obtain p where p: "ivPools db slot = Some p" and d: "distinct (map alChannel allocs)"
    and s: "sum_list (map alCap allocs) \<le> capacityLimit p"
    and f: "find (\<lambda>a. channelConsumed now slot (alChannel a) db > alCap a) allocs = None"
    and c: "coreOf db' = ((ivPools db)(slot \<mapsto> p\<lparr>ipRevision := ipRevision p + 1\<rparr>), ivClaims db,
      (ivAllocations db)(slot := allocs))"
    using assms allocationInput_distinct [of "[]" allocs]
    by (auto simp: ReplaceChannelAllocations_def transact_def bindE_Inr_iff updatePool_def coreOf_def
        split: if_splits option.splits sum.splits)
  show ?thesis unfolding c unfolding coreOf_def
    using p d s f by (intro moves_one move.reallocate) (auto simp: channelConsumed_core find_None_iff)
qed auto

lemma ReturnRefundedCapacity_moves:
  assumes "sound now (coreOf db)" and "ReturnRefundedCapacity sha now org claimID refundID quantity db = (res, db')"
  shows "moves now (coreOf db) (coreOf db')"
proof (cases "db' = db")
  case False
  define db1 where "db1 = (if list_ex (\<lambda>s. csClaimID s = claimID) (ivSeats db)
    then db\<lparr>ivSeats := map (\<lambda>s. if csClaimID s = claimID then s\<lparr>csReleased := True\<rparr> else s) (ivSeats db)\<rparr> else db)"
  have d: "coreOf db1 = coreOf db" by (simp add: db1_def)
  obtain c p db2 db3 where f: "findClaim org claimID db = Some c" and h: "icStatus c = Confirmed" "0 < quantity"
    "icReturned c + quantity \<le> icQuantity c" and p: "ivPools db1 (icPoolID c) = Some p"
    and u: "updatePool (icPoolID c) (\<lambda>p. p\<lparr>ipConfirmed := ipConfirmed p - quantity\<rparr>) db1 = Inr db2"
    and r: "reconcileCapacity now (icPoolID c)
      (changeClaim claimID (\<lambda>x. x\<lparr>icReturned := icReturned x + quantity\<rparr>) db2) = Inr db3" and e: "coreOf db' = coreOf db3"
    using assms(2) False unfolding ReturnRefundedCapacity_def Let_def transact_def unfolding db1_def [symmetric]
    by (auto simp: bindE_Inr_iff case_option_Inr
        split: if_splits option.splits sum.splits dest: appendHistory_core)
  have c: "c \<in> set (ivClaims db)" "icID c = claimID" using findClaim_Some [OF f] by auto
  have d1: "ivPools db1 = ivPools db" "ivClaims db1 = ivClaims db" "ivAllocations db1 = ivAllocations db"
    using d by (auto simp: coreOf_def)
  have d2: "ivPools db2 = (ivPools db)(icPoolID c \<mapsto> p\<lparr>ipConfirmed := ipConfirmed p - quantity\<rparr>)"
    "ivClaims db2 = ivClaims db" "ivAllocations db2 = ivAllocations db"
    using updatePool_core(1) [OF u p] d1 by (auto simp: coreOf_def)
  have "move now (coreOf db) (coreOf (changeClaim claimID (\<lambda>x. x\<lparr>icReturned := icReturned x + quantity\<rparr>) db2))"
    unfolding coreOf_modify d2 c(2) [symmetric] unfolding coreOf_def
    using c h p d1 updatePool_core(2) [OF u p] by (intro move.refund) auto
  then show ?thesis unfolding e using reconcile_moves [OF r] by (rule moves_step)
qed auto

lemma annotated_moves:
  assumes "updatePool slot f db = Inr db'" and "\<And>p. \<exists>l cl. f p = p\<lparr>ipLifecycle := l, ipClosure := cl\<rparr>"
  shows "moves now (coreOf db) (coreOf db')"
proof (cases "ivPools db slot")
  case None
  then show ?thesis using assms(1) by (auto simp: updatePool_def)
next
  case (Some p)
  obtain l cl where "f p = p\<lparr>ipLifecycle := l, ipClosure := cl\<rparr>" using assms(2) by blast
  then show ?thesis unfolding updatePool_core(1) [OF assms(1) Some] unfolding coreOf_def
    using Some by (auto intro: moves_one move.annotate)
qed

lemma ApplyArchive_moves:
  assumes "ApplyArchive e pool db = (res, db')"
  shows "moves now (coreOf db) (coreOf db')"
proof (cases "db' = db")
  case False
  then have u: "updatePool pool (\<lambda>p. p\<lparr>ipLifecycle := Archived\<rparr>) (db\<lparr>ivEvents := ivEvents db @ [e]\<rparr>) = Inr db'"
    using assms by (auto simp: ApplyArchive_def transact_def bindE_Inr_iff split: if_splits option.splits sum.splits)
  have "\<exists>l cl. p\<lparr>ipLifecycle := Archived\<rparr> = p\<lparr>ipLifecycle := l, ipClosure := cl\<rparr>" for p :: Pool
    by (intro exI [of _ Archived] exI [of _ "ipClosure p"]) simp
  then show ?thesis using annotated_moves [OF u] by simp
qed auto

lemma ApplyClosure_moves:
  assumes "ApplyClosure e pool performance closed version db = (res, db')"
  shows "moves now (coreOf db) (coreOf db')"
proof (cases "db' = db")
  case False
  then obtain st cs where u: "updatePool pool (\<lambda>p. p\<lparr>ipClosure := st\<rparr>)
      (db\<lparr>ivEvents := ivEvents db @ [e], ivClosures := cs\<rparr>) = Inr db'"
    using assms by (auto simp: ApplyClosure_def transact_def bindE_Inr_iff Let_def split: if_splits option.splits sum.splits)
  have "\<exists>l cl. p\<lparr>ipClosure := st\<rparr> = p\<lparr>ipLifecycle := l, ipClosure := cl\<rparr>" for p :: Pool
    by (intro exI [of _ "ipLifecycle p"] exI [of _ st]) simp
  then show ?thesis using annotated_moves [OF u] by simp
qed auto

lemma IssuePresaleCode_core: "IssuePresaleCode c db = (res, db') \<Longrightarrow> coreOf db' = coreOf db"
  by (auto simp: IssuePresaleCode_def split: option.splits if_splits)

end
