(* ===== verification/Inventory_Runs.thy ===== *)
theory Inventory_Runs
  imports Inventory_Refinement Runs
begin

text \<open>
  Histories of the inventory service: one event per call of the store, a run of events whose
  transactions start in order, and what holds at the end of every run that begins with an
  empty database. The locales of \<open>Runs\<close> are interpreted on the model's step.
\<close>

section \<open>Events\<close>

datatype InvEvent =
    EvProvision time uuid uuid uuid int
  | EvCreateHold Clock uuid HoldRequest
  | EvTransition time uuid uuid ClaimStatus
  | EvPlaceOperational Clock uuid uuid uuid int string string string string string
  | EvReleaseOperational time uuid uuid int string string string
  | EvConvertOperational Clock uuid SaleRequest
  | EvPlaceGroup time Clock uuid GroupRequest
  | EvDrawDown time Clock uuid SaleRequest
  | EvAdjustCapacity time uuid uuid int string string string
  | EvReplaceAllocations time uuid uuid "ChannelAllocation list" "int option"
  | EvReturnRefunded time uuid uuid uuid int
  | EvIssueCode time PresaleCode
  | EvArchive time uuid uuid
  | EvClosure time uuid uuid uuid bool int

text \<open>The transaction's start.\<close>

fun eventAt :: "InvEvent \<Rightarrow> time" where
  "eventAt (EvProvision t e slot org cap) = t"
| "eventAt (EvCreateHold ck i r) = ckNow ck"
| "eventAt (EvTransition t org i st) = t"
| "eventAt (EvPlaceOperational ck i org slot q purpose label actor reason key) = ckNow ck"
| "eventAt (EvReleaseOperational t org i q actor reason key) = t"
| "eventAt (EvConvertOperational ck i r) = ckNow ck"
| "eventAt (EvPlaceGroup clk ck i g) = ckNow ck"
| "eventAt (EvDrawDown d ck i r) = ckNow ck"
| "eventAt (EvAdjustCapacity t org slot n actor reason key) = t"
| "eventAt (EvReplaceAllocations t org slot as v) = t"
| "eventAt (EvReturnRefunded t org c rid q) = t"
| "eventAt (EvIssueCode t c) = t"
| "eventAt (EvArchive t e pool) = t"
| "eventAt (EvClosure t e pool performance closed v) = t"

text \<open>
  The HTTP layer asks for three transitions only, and the clock a draw-down reads after
  taking the lock is not behind its transaction's start.
\<close>

fun eventOk :: "InvEvent \<Rightarrow> bool" where
  "eventOk (EvTransition t org i st) \<longleftrightarrow> st \<in> {Finalizing, Confirmed, Released}"
| "eventOk (EvDrawDown d ck i r) \<longleftrightarrow> ckNow ck \<le> d"
| "eventOk e \<longleftrightarrow> True"

fun inventoryStep ::
  "(string \<Rightarrow> string) \<Rightarrow> (time \<Rightarrow> string) \<Rightarrow> int \<Rightarrow> InvEvent \<Rightarrow> InventoryDB \<Rightarrow> InventoryDB" where
  "inventoryStep sha rfc ttl (EvProvision t e slot org cap) db = snd (Provision e slot org cap db)"
| "inventoryStep sha rfc ttl (EvCreateHold ck i r) db = snd (CreateHold sha ttl ck i r db)"
| "inventoryStep sha rfc ttl (EvTransition t org i st) db = snd (Transition t org i st db)"
| "inventoryStep sha rfc ttl (EvPlaceOperational ck i org slot q purpose label actor reason key) db =
     snd (PlaceOperationalHold sha ck i org slot q purpose label actor reason key db)"
| "inventoryStep sha rfc ttl (EvReleaseOperational t org i q actor reason key) db =
     snd (ReleaseOperational sha t org i q actor reason key db)"
| "inventoryStep sha rfc ttl (EvConvertOperational ck i r) db = snd (ConvertOperational sha ttl ck i r db)"
| "inventoryStep sha rfc ttl (EvPlaceGroup clk ck i g) db = snd (PlaceGroupReservation sha rfc clk ck i g db)"
| "inventoryStep sha rfc ttl (EvDrawDown d ck i r) db = snd (DrawDownGroupReservation sha ttl d ck i r db)"
| "inventoryStep sha rfc ttl (EvAdjustCapacity t org slot n actor reason key) db =
     snd (AdjustCapacity sha t org slot n actor reason key db)"
| "inventoryStep sha rfc ttl (EvReplaceAllocations t org slot as v) db =
     snd (ReplaceChannelAllocations t org slot as v db)"
| "inventoryStep sha rfc ttl (EvReturnRefunded t org c rid q) db = snd (ReturnRefundedCapacity sha t org c rid q db)"
| "inventoryStep sha rfc ttl (EvIssueCode t c) db = snd (IssuePresaleCode c db)"
| "inventoryStep sha rfc ttl (EvArchive t e pool) db = snd (ApplyArchive e pool db)"
| "inventoryStep sha rfc ttl (EvClosure t e pool performance closed v) db =
     snd (ApplyClosure e pool performance closed v db)"

definition emptyInventory :: InventoryDB where
  "emptyInventory = \<lparr>ivPools = (\<lambda>_. None), ivClaims = [], ivHistory = [], ivSeats = [],
     ivAllocations = (\<lambda>_. []), ivCodes = [], ivEvents = [], ivClosures = []\<rparr>"

definition runEvents ::
  "(string \<Rightarrow> string) \<Rightarrow> (time \<Rightarrow> string) \<Rightarrow> int \<Rightarrow> InvEvent list \<Rightarrow> InventoryDB \<Rightarrow> InventoryDB" where
  "runEvents sha rfc ttl es db = fold (inventoryStep sha rfc ttl) es db"

abbreviation inOrder :: "time \<Rightarrow> InvEvent list \<Rightarrow> bool" where
  "inOrder \<equiv> ordered eventAt eventOk"

lemmas operation_moves =
  Provision_moves [OF _ surjective_pairing] CreateHold_moves [OF _ surjective_pairing]
  Transition_moves [OF _ _ surjective_pairing] PlaceOperationalHold_moves [OF _ surjective_pairing]
  ReleaseOperational_moves [OF _ surjective_pairing] ConvertOperational_moves [OF _ surjective_pairing]
  PlaceGroupReservation_moves [OF _ surjective_pairing] DrawDownGroupReservation_moves [OF _ _ surjective_pairing]
  AdjustCapacity_moves [OF _ surjective_pairing] ReplaceChannelAllocations_moves [OF surjective_pairing]
  ReturnRefundedCapacity_moves [OF _ surjective_pairing] ApplyArchive_moves [OF surjective_pairing]
  ApplyClosure_moves [OF surjective_pairing]

lemma step_moves:
  assumes "eventOk e" and "sound (eventAt e) (coreOf db)"
  shows "moves (eventAt e) (coreOf db) (coreOf (inventoryStep sha rfc ttl e db))"
proof (cases e)
  case (EvIssueCode t c)
  then show ?thesis using IssuePresaleCode_core [of c db] by (cases "IssuePresaleCode c db") auto
qed (use assms in \<open>auto intro: operation_moves\<close>)

section \<open>Every run\<close>

definition goodInventory :: "time \<Rightarrow> InventoryDB \<Rightarrow> bool" where
  "goodInventory t db \<longleftrightarrow> sound t (coreOf db)"

definition evolvesInto :: "InventoryDB \<Rightarrow> InventoryDB \<Rightarrow> bool" where
  "evolvesInto db db' \<longleftrightarrow> (\<forall>c \<in> set (ivClaims db). \<exists>d \<in> set (ivClaims db'). continues c d)"

lemma evolvesInto_core: "evolvesInto db db' \<longleftrightarrow> lives (coreOf db) (coreOf db')"
  by (simp add: evolvesInto_def lives_def coreOf_def)

interpretation inv: timed_machine "inventoryStep sha rfc ttl" eventAt eventOk goodInventory
  for sha rfc ttl
proof
  show "goodInventory (eventAt e) (inventoryStep sha rfc ttl e db)"
    if "eventOk e" "goodInventory (eventAt e) db" for e db
    using that step_moves moves_sound unfolding goodInventory_def by blast
  show "goodInventory u db" if "goodInventory t db" "t \<le> u" for t u db
    using that sound_later unfolding goodInventory_def by blast
qed

interpretation inv: timed_evolution "inventoryStep sha rfc ttl" eventAt eventOk goodInventory evolvesInto
  for sha rfc ttl
proof
  show "evolvesInto db db" for db unfolding evolvesInto_def using continues_refl by blast
  show "evolvesInto db db''" if "evolvesInto db db'" "evolvesInto db' db''" for db db' db''
    using that continues_trans unfolding evolvesInto_def by blast
  show "evolvesInto db (inventoryStep sha rfc ttl e db)" if "eventOk e" "goodInventory (eventAt e) db" for e db
    using that step_moves moves_lives unfolding goodInventory_def evolvesInto_core sound_def by blast
qed

lemma good_empty: "goodInventory t emptyInventory"
  by (simp add: goodInventory_def emptyInventory_def coreOf_def sound_def sound_defs)

lemma empty_run_good: "inOrder t es \<Longrightarrow> goodInventory (lastAt eventAt t es) (runEvents sha rfc ttl es emptyInventory)"
  unfolding runEvents_def by (rule inv.run_good [OF _ good_empty])

lemma goodInventoryD:
  assumes "goodInventory t db"
  shows "ivPools db slot = Some p \<Longrightarrow> ipConfirmed p + liveHeld t slot db \<le> ipCapacity p"
    and "ivPools db slot = Some p \<Longrightarrow> tally (soldIn slot) db = ipConfirmed p"
    and "a \<in> set (ivAllocations db slot) \<Longrightarrow> channelConsumed t slot (alChannel a) db \<le> alCap a"
    and "ivPools db slot = Some p \<Longrightarrow> poolCheck p"
  using assms by (auto simp: goodInventory_def sound_def sound_defs coreOf_def liveHeld_core
      channelConsumed_core tally_def claimSum_def)

text \<open>
  A slot of ten places, four of them set aside for the box office: a box-office sale of
  three, a public hold of five, a cut of the capacity to six, a refund of one.
\<close>

definition demoClock :: "time \<Rightarrow> Clock" where
  "demoClock t = \<lparr>ckNow = t, ckActive = t, ckWindow = t, ckCode = t, ckReserved = t, ckInsert = t\<rparr>"

definition demoHold :: "int \<Rightarrow> string \<Rightarrow> string \<Rightarrow> HoldRequest" where
  "demoHold q ch key = \<lparr>hqOrganizerID = 7, hqSlotID = 1, hqTicketTypeID = 2, hqQuantity = q, hqUnitAmount = 500,
     hqCurrency = ''EUR'', hqChannel = ch, hqKey = key, hqPresaleCode = '''', hqReseller = 0\<rparr>"

definition demoAllocation :: ChannelAllocation where
  "demoAllocation = \<lparr>alChannel = ''box'', alCap = 4, alReleaseAt = None, alOpensAt = None, alClosesAt = None,
     alRequiresCode = False, alSoldBy = None\<rparr>"

definition demoEvents :: "InvEvent list" where
  "demoEvents =
     [EvProvision 1 100 1 7 10, EvReplaceAllocations 2 7 1 [demoAllocation] None,
      EvCreateHold (demoClock 3) 51 (demoHold 3 ''box'' ''k1''), EvTransition 4 7 51 Finalizing,
      EvTransition 5 7 51 Confirmed, EvCreateHold (demoClock 6) 52 (demoHold 5 '''' ''k2''),
      EvAdjustCapacity 7 7 1 6 ''ann'' ''fire'' ''k3'', EvReturnRefunded 8 7 51 60 1]"

definition demoInventory :: InventoryDB where
  "demoInventory = runEvents (\<lambda>s. s) (\<lambda>_. '''') 900 demoEvents emptyInventory"

lemma demo_inOrder: "inOrder 0 demoEvents"
  by (simp add: demoEvents_def demoClock_def)

lemmas inventory_defs = transact_def bindE_def asInt32_def updatePool_def poolCheck_def int32_def insertClaim_def
  claimCheck_def kindShape_def bounded_def insertHistory_def appendHistory_def historyCheck_def notBlank_def
  changeClaim_def setStatus_def reconcileCapacity_def sweepExpired_def releaseSeatsForTerminal_def dueIn_def
  expiryRow_def guardOffering_def capacityLimit_def liveHeld_def channelConsumed_def reservedForChannels_def
  tally_def liveIn_def usedIn_def isLive_def consuming_def consumedQuantity_def activeAllocation_def windowOpen_def
  windowAdmits_def expired_def findClaim_def sameScope_def Let_def int64_def

lemmas hold_defs = CreateHold_def priorClaim_def grantHold_def channelGate_def admitHold_def heldClaim_def
  resellerScope_def sellerAdmits_def storedCurrency_def nullIf_def

lemmas transition_defs = Transition_def expireFirst_def settleClaim_def

lemmas demo_defs = demoClock_def demoHold_def demoAllocation_def

lemmas staff_defs = AdjustCapacity_def registryLookup_def ReturnRefundedCapacity_def refundReturnKey_def
  Provision_def ReplaceChannelAllocations_def windowReversed_def

lemma demo_pool: "\<exists>p. ivPools demoInventory 1 = Some p \<and> ipCapacity p = 7 \<and> ipConfirmed p = 2 \<and> ipTarget p = Some 6"
  by (simp add: demoInventory_def runEvents_def demoEvents_def emptyInventory_def statusText_def demo_defs
    inventory_defs hold_defs transition_defs staff_defs wrap32_id)

lemma demo_claims: "map (\<lambda>c. (icID c, icQuantity c, icReturned c, icStatus c, icExpiresAt c)) (ivClaims demoInventory) =
    [(51, 3, 1, Confirmed, Some 903), (52, 5, 0, Held, Some 906)]"
  by (simp add: demoInventory_def runEvents_def demoEvents_def emptyInventory_def statusText_def demo_defs
    inventory_defs hold_defs transition_defs staff_defs wrap32_id)

lemma demo_lastAt: "lastAt eventAt 0 demoEvents = 8"
  by (simp add: demoEvents_def demoClock_def)

lemma demo_allocation: "demoAllocation \<in> set (ivAllocations demoInventory 1)"
  by (simp add: demoInventory_def runEvents_def demoEvents_def emptyInventory_def statusText_def demo_defs
    inventory_defs hold_defs transition_defs staff_defs wrap32_id)

lemma good_at:
  assumes "inOrder t es" and "lastAt eventAt t es \<le> u"
  shows "goodInventory u (runEvents sha rfc ttl es emptyInventory)"
  using inv.good_later [OF empty_run_good [OF assms(1)] assms(2)] .

section \<open>Properties\<close>



text \<open>
  C14: the pool's sold counter is exact: it always equals the confirmed quantities of the pool's
  claims less what refunds have given back.
\<close>
theorem sold_counter_exact:
  assumes "inOrder t es" and "ivPools (runEvents sha rfc ttl es emptyInventory) slot = Some p"
  shows "ipConfirmed p = tally (soldIn slot) (runEvents sha rfc ttl es emptyInventory)"
  using goodInventoryD(2) [OF empty_run_good [OF assms(1)] assms(2)] by simp

theorem sold_counter_exact_witness:
  "\<exists>p. ivPools demoInventory 1 = Some p \<and> ipConfirmed p = tally (soldIn 1) demoInventory \<and> ipConfirmed p = 2"
proof -
  obtain p where "ivPools demoInventory 1 = Some p" "ipConfirmed p = 2" using demo_pool by blast
  then show ?thesis
    using sold_counter_exact [OF demo_inOrder, of "\<lambda>s. s" "\<lambda>_. ''''" 900 1 p]
    by (simp add: demoInventory_def)
qed



text \<open>
  C16: claims are never lost or revived: whatever is called after a run, each of its claims is
  still there under the same identity, pool, kind and channel, never with a larger quantity
  or a smaller refund; a confirmed, released or expired claim keeps its status forever, and a
  finalizing claim never becomes held again.
\<close>
theorem claims_move_forward:
  assumes "inOrder t (es @ fs)" and "c \<in> set (ivClaims (runEvents sha rfc ttl es emptyInventory))"
  shows "\<exists>d \<in> set (ivClaims (runEvents sha rfc ttl (es @ fs) emptyInventory)).
    icID d = icID c \<and> icPoolID d = icPoolID c \<and> icKind d = icKind c \<and> icChannel d = icChannel c \<and>
    mayBecome (icStatus c) (icStatus d) \<and> icQuantity d \<le> icQuantity c \<and> icReturned c \<le> icReturned d"
proof -
  have o: "inOrder t es" "inOrder (lastAt eventAt t es) fs" using assms(1) by (auto simp: ordered_append)
  have "evolvesInto (runEvents sha rfc ttl es emptyInventory) (runEvents sha rfc ttl (es @ fs) emptyInventory)"
    using inv.run_evolves [OF o(2) empty_run_good [OF o(1)]] by (simp add: runEvents_def)
  then show ?thesis using assms(2) unfolding evolvesInto_def continues_def by blast
qed

theorem claims_move_forward_witness:
  "\<exists>d \<in> set (ivClaims demoInventory). icID d = 51 \<and> icStatus d = Confirmed"
proof -
  let ?c = "heldClaim (\<lambda>s. s) 900 (demoClock 3) 51 (demoHold 3 ''box'' ''k1'') (Some demoAllocation)\<lparr>icStatus := Confirmed\<rparr>"
  have "?c \<in> set (ivClaims (runEvents (\<lambda>s. s) (\<lambda>_. '''') 900 (take 5 demoEvents) emptyInventory))"
    by (simp add: runEvents_def demoEvents_def emptyInventory_def statusText_def demo_defs
      inventory_defs hold_defs transition_defs staff_defs)
  then have "\<exists>d \<in> set (ivClaims demoInventory). icID d = icID ?c \<and> mayBecome (icStatus ?c) (icStatus d)"
    using claims_move_forward [of 0 "take 5 demoEvents" "drop 5 demoEvents"] demo_inOrder
    unfolding demoInventory_def append_take_drop_id by blast
  then show ?thesis by (simp add: heldClaim_def)
qed

text \<open>
  C2: every call of the store, whatever it answers, changes a reachable database by a sequence of
  the abstract moves: retiring, finalizing and confirming claims, admitting a hold within the
  limit and its channel's cap, splitting or shrinking a staff hold, giving back a refund,
  resizing a pool to no less than its demand, replacing allocations that cover consumption.
\<close>
theorem operations_refine_moves:
  assumes "inOrder t (es @ [e])"
  shows "moves (eventAt e) (coreOf (runEvents sha rfc ttl es emptyInventory))
    (coreOf (runEvents sha rfc ttl (es @ [e]) emptyInventory))"
proof -
  have o: "inOrder t es" "lastAt eventAt t es \<le> eventAt e" "eventOk e" using assms by (auto simp: ordered_append)
  show ?thesis using step_moves [OF o(3)] good_at [OF o(1,2)] by (simp add: runEvents_def goodInventory_def)
qed

theorem operations_refine_moves_witness:
  "moves 8 (coreOf (runEvents (\<lambda>s. s) (\<lambda>_. '''') 900 (butlast demoEvents) emptyInventory)) (coreOf demoInventory)"
  using operations_refine_moves [of 0 "butlast demoEvents" "last demoEvents" "\<lambda>s. s" "\<lambda>_. ''''" 900] demo_inOrder
  unfolding demoInventory_def by (simp add: demoEvents_def)

end
