(* ===== verification/Inventory_Behaviour.thy ===== *)
theory Inventory_Behaviour
  imports Inventory_Runs
begin

text \<open>
  What each call of the inventory store answers and leaves behind: retries of a hold and of a
  refund, the agreement of the availability read with the hold that follows it, conversions
  that conserve places, capacity cuts and their wind-down, the presale gate.
\<close>

section \<open>The sweep, exactly\<close>

lemma find_append: "find P xs = None \<Longrightarrow> find P (xs @ ys) = find P ys"
  by (induction xs) (auto split: if_splits)

lemma foldE_history_ok:
  assumes "\<And>c. c \<in> set cs \<Longrightarrow> historyCheck (g c)" and "\<And>c. c \<in> set cs \<Longrightarrow> ihKey (g c) = None"
  shows "\<exists>h. foldE (\<lambda>c. insertHistory (g c)) cs db = Inr (db\<lparr>ivHistory := h\<rparr>)"
  using assms
proof (induction cs arbitrary: db)
  case Nil
  show ?case by (auto intro: exI [of _ "ivHistory db"])
next
  case (Cons c cs)
  have "insertHistory (g c) db = Inr (db\<lparr>ivHistory := ivHistory db @ [g c]\<rparr>)"
    using Cons.prems by (simp add: insertHistory_def)
  then show ?case using Cons.IH [of "db\<lparr>ivHistory := ivHistory db @ [g c]\<rparr>"] Cons.prems by simp
qed

definition sweepClaim :: "time \<Rightarrow> uuid \<Rightarrow> Claim \<Rightarrow> Claim" where
  "sweepClaim now slot c = (if dueIn now slot c then c\<lparr>icStatus := Expired\<rparr> else c)"

lemma sweepClaim_live: "isLive now (sweepClaim now slot c) = isLive now c"
  by (auto simp: sweepClaim_def dueIn_def isLive_def split: option.splits)

lemma sweepClaim_same [simp]:
  "icID (sweepClaim now slot c) = icID c" "icPoolID (sweepClaim now slot c) = icPoolID c"
  "icQuantity (sweepClaim now slot c) = icQuantity c" "icChannel (sweepClaim now slot c) = icChannel c"
  "icReturned (sweepClaim now slot c) = icReturned c" "icOrganizerID (sweepClaim now slot c) = icOrganizerID c"
  "icKey (sweepClaim now slot c) = icKey c" "icReseller (sweepClaim now slot c) = icReseller c"
  "icStaff (sweepClaim now slot c) = icStaff c" "icStatus (sweepClaim now slot c) = Confirmed \<longleftrightarrow> icStatus c = Confirmed"
  by (auto simp: sweepClaim_def dueIn_def)

lemma sweepClaim_weights [simp]:
  "liveIn now pool (sweepClaim now slot c) = liveIn now pool c"
  "usedIn now pool ch (sweepClaim now slot c) = usedIn now pool ch c"
  by (auto simp: liveIn_def usedIn_def consuming_def sweepClaim_live consumedQuantity_def)

text \<open>In a sound database the sweep cannot fail, and it changes neither live demand nor any limit.\<close>

lemma sweep_result:
  assumes "sound now (coreOf db)" and "ivPools db slot = Some p"
  obtains db1 q where "sweepExpired now slot db = Inr db1"
    "ivClaims db1 = map (sweepClaim now slot) (ivClaims db)" "ivAllocations db1 = ivAllocations db"
    "ivCodes db1 = ivCodes db" "ivPools db1 slot = Some q" "samePool p q"
    "ipCapacity q = (case ipTarget p of None \<Rightarrow> ipCapacity p | Some t \<Rightarrow> max t (ipConfirmed p + liveHeld now slot db))"
    "ipTarget q = (case ipTarget p of None \<Rightarrow> None
       | Some t \<Rightarrow> if ipConfirmed p + liveHeld now slot db \<le> t then None else Some t)"
proof -
  let ?db0 = "db\<lparr>ivClaims := map (sweepClaim now slot) (ivClaims db)\<rparr>"
  have check: "historyCheck (expiryRow c)" "ihKey (expiryRow c) = None" if "c \<in> set (filter (dueIn now slot) (ivClaims db))" for c
    using claimCheck_bounds [OF soundD(3) [OF assms(1)], of c] that by (auto simp: expiryRow_def historyCheck_def notBlank_def)
  obtain h where h: "foldE (\<lambda>c. insertHistory (expiryRow c)) (filter (dueIn now slot) (ivClaims db)) ?db0 =
      Inr (?db0\<lparr>ivHistory := h\<rparr>)"
    using foldE_history_ok [of "filter (dueIn now slot) (ivClaims db)" expiryRow ?db0] check by blast
  define db2 where "db2 = releaseSeatsForTerminal slot (?db0\<lparr>ivHistory := h\<rparr>)"
  have d: "ivPools db2 = ivPools db" "ivClaims db2 = map (sweepClaim now slot) (ivClaims db)"
    "ivAllocations db2 = ivAllocations db" "ivCodes db2 = ivCodes db"
    by (simp_all add: db2_def releaseSeatsForTerminal_def)
  have live: "liveHeld now slot db2 = liveHeld now slot db"
    unfolding liveHeld_core d by (rule claimSum_cong) simp
  have sw: "sweepExpired now slot db = reconcileCapacity now slot db2"
    using h by (simp add: sweepExpired_def sweepClaim_def [abs_def] db2_def)
  note b = demand_bounds [OF assms]
  show thesis
  proof (cases "ipTarget p")
    case None
    show thesis
      by (rule that [of db2 p]) (simp_all add: sw reconcileCapacity_def d assms(2) None samePool_def)
  next
    case (Some t)
    let ?n = "ipConfirmed p + liveHeld now slot db"
    let ?q = "p\<lparr>ipCapacity := max t ?n, ipTarget := (if ?n \<le> t then None else Some t)\<rparr>"
    have t: "0 < t" "t < ipCapacity p" "int32 t" "int32 (ipCapacity p)"
      using b(3) Some by (auto simp: poolCheck_def)
    have "poolCheck ?q" using b t unfolding poolCheck_def int32_def by auto
    then have "reconcileCapacity now slot db2 = Inr (db2\<lparr>ivPools := (ivPools db)(slot \<mapsto> ?q)\<rparr>)"
      using b by (simp add: reconcileCapacity_def d assms(2) Some live asInt32_def updatePool_def)
    then show thesis
      by (intro that [of "db2\<lparr>ivPools := (ivPools db)(slot \<mapsto> ?q)\<rparr>" ?q])
        (auto simp: sw d Some samePool_def capacityLimit_def)
  qed
qed

lemma swept_sums:
  assumes "ivClaims db1 = map (sweepClaim now slot) (ivClaims db)" and "ivAllocations db1 = ivAllocations db"
  shows "liveHeld now pool db1 = liveHeld now pool db"
    and "channelConsumed now pool ch db1 = channelConsumed now pool ch db"
    and "reservedForChannels now clk pool db1 = reservedForChannels now clk pool db"
proof -
  show "liveHeld now pool db1 = liveHeld now pool db"
    unfolding liveHeld_core assms by (rule claimSum_cong) simp
  show c: "channelConsumed now pool ch db1 = channelConsumed now pool ch db" for ch
    unfolding channelConsumed_core assms by (rule claimSum_cong) simp
  show "reservedForChannels now clk pool db1 = reservedForChannels now clk pool db"
    unfolding reservedForChannels_def assms(2) c by simp
qed

lemma reachable_sound:
  "inOrder t es \<Longrightarrow> lastAt eventAt t es \<le> u \<Longrightarrow> db = runEvents sha rfc ttl es emptyInventory \<Longrightarrow> sound u (coreOf db)"
  using good_at unfolding goodInventory_def by simp

section \<open>Granting and retrying a hold\<close>

lemma grant_frame:
  assumes "insertClaim c db1 = Inr db2" and "appendHistory org i rel ac actor reason q qa st k db2 = Inr db3"
  shows "ivClaims db3 = ivClaims db1 @ [c]" "ivPools db3 = ivPools db1" "ivAllocations db3 = ivAllocations db1"
    "list_all (\<lambda>d. \<not> sameScope c d) (ivClaims db1)"
  using insertClaim_core(1) [OF assms(1)] appendHistory_core [OF assms(2)] assms(1)
  by (auto simp: coreOf_def insertClaim_def list_ex_iff list_all_iff split: if_splits)

lemma CreateHold_granted:
  assumes "CreateHold sha ttl ck newID r db = (Inr (c, False), db')"
  obtains p q db1 alloc where "ivPools db (hqSlotID r) = Some p" "ipOrganizerID p = hqOrganizerID r"
    "ipKind p \<noteq> SeatedPool" "priorClaim r db = None" "guardOffering p = None" "0 < hqQuantity r"
    "sweepExpired (ckNow ck) (hqSlotID r) db = Inr db1" "channelGate ck r db1 = Inr alloc"
    "admitHold ck r p alloc db1 = None"
    "c = (heldClaim sha ttl ck newID r alloc)\<lparr>icCurrency := Some (hqCurrency r)\<rparr>"
    "ivClaims db' = ivClaims db1 @ [heldClaim sha ttl ck newID r alloc]"
    "list_all (\<lambda>d. \<not> sameScope (heldClaim sha ttl ck newID r alloc) d) (ivClaims db1)"
    "ivPools db' (hqSlotID r) = Some q" "samePool p q" "ivAllocations db' = ivAllocations db"
    "claimCheck (heldClaim sha ttl ck newID r alloc)"
proof -
  obtain p where p: "ivPools db (hqSlotID r) = Some p" "ipOrganizerID p = hqOrganizerID r" "ipKind p \<noteq> SeatedPool"
    "0 < hqQuantity r" "priorClaim r db = None" and b: "grantHold sha ttl ck newID r p db = Inr (Inr (c, False), db')"
    using assms by (auto simp: CreateHold_def transact_def replayHold_def bindE_Inr_iff
        split: if_splits option.splits sum.splits)
  obtain db1 alloc db2 where g: "guardOffering p = None" "sweepExpired (ckNow ck) (hqSlotID r) db = Inr db1"
    "channelGate ck r db1 = Inr alloc" "admitHold ck r p alloc db1 = None"
    "insertClaim (heldClaim sha ttl ck newID r alloc) db1 = Inr db2"
    "appendHistory (hqOrganizerID r) newID None ''create'' ''buyer'' ''public_hold'' (hqQuantity r) (hqQuantity r) Held None db2 = Inr db'"
    "c = (heldClaim sha ttl ck newID r alloc)\<lparr>icCurrency := Some (hqCurrency r)\<rparr>"
    using b by (auto simp: grantHold_def Let_def bindE_Inr_iff split: option.splits)
  obtain q where q: "ivPools db1 (hqSlotID r) = Some q" "samePool p q" "ivAllocations db1 = ivAllocations db"
    by (rule sweep_pool [OF g(2) p(1)])
  note f = grant_frame [OF g(5,6)]
  show thesis
    using insertClaim_core(2) [OF g(5)] that [OF p(1-3,5) g(1) p(4) g(2-4,7) f(1,4)] q f by simp
qed


section \<open>Availability and the hold that follows\<close>

definition publicRemaining :: "time \<Rightarrow> time \<Rightarrow> uuid \<Rightarrow> Pool \<Rightarrow> InventoryDB \<Rightarrow> int" where
  "publicRemaining now clk slot p db =
     capacityLimit p - ipConfirmed p - liveHeld now slot db - reservedForChannels now clk slot db"

lemma reserved_nonneg: "0 \<le> reservedForChannels now clk slot db"
  unfolding reservedForChannels_def by (rule sum_list_nonneg) auto

lemma Availability_public:
  assumes "sound (ckNow ck) (coreOf db)" and "Availability_read ck (ckNow ck) org slot '''' db = Inr a" and "avOpen a"
  shows "\<exists>p. ivPools db slot = Some p \<and> ipOrganizerID p = org \<and> guardOffering p = None \<and>
    avAvailable a = max 0 (publicRemaining (ckNow ck) (ckReserved ck) slot p db)"
proof -
  obtain p where p: "ivPools db slot = Some p" "ipOrganizerID p = org" and o: "offeringOpen p"
    and a: "avAvailable a = clampAvailable (effectiveCapacity p (liveHeld (ckNow ck) slot db) - ipConfirmed p -
      liveHeld (ckNow ck) slot db - reservedForChannels (ckNow ck) (ckReserved ck) slot db)"
    using assms(2,3) by (auto simp: Availability_read_def bindE_Inr_iff asInt32_Inr Let_def
        split: option.splits if_splits)
  note b = demand_bounds [OF assms(1) p(1)]
  note r = reserved_nonneg [of "ckNow ck" "ckReserved ck" slot db]
  let ?e = "max (capacityLimit p) (ipConfirmed p + liveHeld (ckNow ck) slot db)"
  have "int32 ?e" "0 \<le> ipConfirmed p" using b capacityLimit_le [OF b(3)] by (auto simp: int32_def poolCheck_def max_def)
  then have "avAvailable a = max 0 (?e - ipConfirmed p - liveHeld (ckNow ck) slot db - reservedForChannels (ckNow ck) (ckReserved ck) slot db)"
    using b r unfolding a effectiveCapacity_def clampAvailable_def
    by (auto simp: wrap32_id int32_def)
  moreover have "guardOffering p = None" using o by (simp add: offeringOpen_def guardOffering_def)
  ultimately show ?thesis using p r by (auto simp: publicRemaining_def max_def)
qed

lemma fresh_after_sweep:
  assumes "ivClaims db1 = map (sweepClaim now slot) (ivClaims db)" and "priorClaim r db = None"
    and "newID \<notin> icID ` set (ivClaims db)" and "claimCheck (heldClaim sha ttl ck newID r alloc)"
  shows "insertClaim (heldClaim sha ttl ck newID r alloc) db1 =
    Inr (db1\<lparr>ivClaims := ivClaims db1 @ [heldClaim sha ttl ck newID r alloc]\<rparr>)"
proof -
  have "icID (heldClaim sha ttl ck newID r alloc) \<notin> icID ` set (ivClaims db1)"
    using assms(1,3) by (auto simp: heldClaim_def)
  moreover have "\<not> list_ex (sameScope (heldClaim sha ttl ck newID r alloc)) (ivClaims db1)"
    using assms(2) unfolding assms(1) by (auto simp: priorClaim_def find_None_iff list_ex_iff sameScope_def heldClaim_def)
  ultimately show ?thesis using assms(4) by (simp add: insertClaim_def)
qed

text \<open>
  C15: the public availability read is exactly what the hold that follows decides by: at the same
  clock, for an open general-admission slot in any reachable state, a new public request is
  refused as sold out if and only if the read shows zero, refused as unavailable if it asks for
  more than the read shows, and granted otherwise.
\<close>
theorem availability_decides_hold:
  assumes "inOrder t es" and "lastAt eventAt t es \<le> ckNow ck"
    and "db = runEvents sha rfc ttl es emptyInventory"
    and "Availability_read ck (ckNow ck) (hqOrganizerID r) (hqSlotID r) '''' db = Inr a" and "avOpen a"
    and "hqChannel r = ''''" and "0 < hqQuantity r" and "map_option ipKind (ivPools db (hqSlotID r)) = Some GAPool"
    and "priorClaim r db = None" and "newID \<notin> icID ` set (ivClaims db)"
    and "claimCheck (heldClaim sha ttl ck newID r None)"
  shows "fst (CreateHold sha ttl ck newID r db) =
    (if avAvailable a = 0 then Inl ErrSoldOut
     else if hqQuantity r > avAvailable a then Inl ErrUnavailable
     else Inr ((heldClaim sha ttl ck newID r None)\<lparr>icCurrency := Some (hqCurrency r)\<rparr>, False))"
proof -
  note s = reachable_sound [OF assms(1-3)]
  obtain p where p: "ivPools db (hqSlotID r) = Some p" "ipOrganizerID p = hqOrganizerID r" "guardOffering p = None"
    and av: "avAvailable a = max 0 (publicRemaining (ckNow ck) (ckReserved ck) (hqSlotID r) p db)"
    using Availability_public [OF s assms(4,5)] by blast
  obtain db1 q where w: "sweepExpired (ckNow ck) (hqSlotID r) db = Inr db1"
    "ivClaims db1 = map (sweepClaim (ckNow ck) (hqSlotID r)) (ivClaims db)" "ivAllocations db1 = ivAllocations db"
    using sweep_result [OF s p(1)] by metis
  note sums = swept_sums [OF w(2,3)]
  note b = demand_bounds [OF s p(1)]
  let ?rem = "publicRemaining (ckNow ck) (ckReserved ck) (hqSlotID r) p db"
  have gate: "channelGate ck r db1 = Inr None" using assms(6) by (simp add: channelGate_def)
  have admit: "admitHold ck r p None db1 =
      (if ?rem \<le> 0 then Some ErrSoldOut else if hqQuantity r > ?rem then Some ErrUnavailable else None)"
    using b assms(6,7) reserved_nonneg [of "ckNow ck" "ckReserved ck" "hqSlotID r" db]
    by (auto simp: admitHold_def asInt32_def Let_def sums publicRemaining_def)
  have "kind": "ipKind p \<noteq> SeatedPool" using assms(8) p(1) by simp
  have hold: "fst (CreateHold sha ttl ck newID r db) = fst (transact (grantHold sha ttl ck newID r p) db)"
    using p assms(7,9) "kind" by (simp add: CreateHold_def transact_def)
  show ?thesis
  proof (cases "hqQuantity r \<le> ?rem")
    case True
    let ?c = "heldClaim sha ttl ck newID r None"
    note i = fresh_after_sweep [OF w(2) assms(9-11)]
    have h: "\<exists>db3. appendHistory (hqOrganizerID r) newID None ''create'' ''buyer'' ''public_hold'' (hqQuantity r)
        (hqQuantity r) Held None (db1\<lparr>ivClaims := ivClaims db1 @ [?c]\<rparr>) = Inr db3"
      using assms(7) by (simp add: appendHistory_def insertHistory_def historyCheck_def notBlank_def)
    have "fst (transact (grantHold sha ttl ck newID r p) db) = Inr (?c\<lparr>icCurrency := Some (hqCurrency r)\<rparr>, False)"
      using p(3) w(1) gate admit True assms(7) i h by (auto simp: grantHold_def transact_def)
    then show ?thesis unfolding hold av using True assms(7) by simp
  next
    case False
    have "fst (transact (grantHold sha ttl ck newID r p) db) = Inl (if ?rem \<le> 0 then ErrSoldOut else ErrUnavailable)"
      using p(3) w(1) gate admit False by (simp add: grantHold_def transact_def)
    then show ?thesis unfolding hold av using False by (auto simp: max_def)
  qed
qed

section \<open>Conversions and draw-downs\<close>

lemma replaySale_flag: "replaySale r h rel db \<noteq> Inr (Inr (v, False), db')"
  by (auto simp: replaySale_def split: option.splits)

lemma sellFrom_conserves:
  assumes "sound now (coreOf db)" and "c \<in> set (ivClaims db)" and "icID c = sqSourceID r" and "isLive now c"
    and "channel = icChannel c" and "now < ckInsert ck + ttl" and "0 < sqQuantity r"
    and "sellFrom ttl ck newID r fp action c channel code db = Inr (res, db')"
  shows "\<exists>v. res = Inr (v, False) \<and> icQuantity (cvChild v) = sqQuantity r \<and>
      cvSourceRemaining v = icQuantity c - sqQuantity r \<and> 0 \<le> cvSourceRemaining v \<and>
      ivPools db' = ivPools db \<and> liveHeld now slot db' = liveHeld now slot db \<and>
      channelConsumed now slot ch db' = channelConsumed now slot ch db"
proof -
  let ?d = "saleClaim ttl ck newID r fp channel code"
  let ?q = "sqQuantity r"
  let ?f = "if ?q = icQuantity c then (\<lambda>x. x\<lparr>icStatus := Released\<rparr>) else (\<lambda>x. x\<lparr>icQuantity := icQuantity x - ?q\<rparr>)"
  obtain db1 where e: "icPoolID c = sqExpectedSlot r" "icStatus c = Held" "?q \<le> icQuantity c"
    and i: "insertClaim ?d db = Inr db1" and t: "coreOf db' = coreOf (takeFrom (icID c) ?q c db1)"
    and v: "res = Inr (\<lparr>cvChild = ?d\<lparr>icCurrency := Some (sqCurrency r)\<rparr>, cvSourceID = sqSourceID r,
        cvSourceRemaining = snd (leftAfter ?q c), cvSourceStatus = statusText (fst (leftAfter ?q c))\<rparr>, False)"
    using assms(3,8) by (auto simp: sellFrom_def bindE_Inr_iff Let_def split: if_splits dest: appendHistory_core)
  have d1: "ivPools db1 = ivPools db" "ivClaims db1 = ivClaims db @ [?d]"
    using insertClaim_core(1) [OF i] by (auto simp: coreOf_def)
  have d2: "ivPools db' = ivPools db" "ivClaims db' = modify (icID c) ?f (ivClaims db @ [?d])"
    using t unfolding coreOf_takeFrom d1 by (auto simp: coreOf_def)
  have ids: "distinct (map icID (ivClaims db @ [?d]))"
    using soundD(1) [OF assms(1)] insertClaim_core(3) [OF i] by auto
  have sum: "claimSum w (ivClaims db') = claimSum w (ivClaims db) + w ?d - w c + w (?f c)" for w
    using claimSum_modify [OF ids, of c w ?f] assms(2) d2(2) by simp
  have d: "icPoolID ?d = icPoolID c" "icQuantity ?d = ?q" "icStatus ?d = Held" "isLive now ?d" "icChannel ?d = icChannel c"
    using e assms(5,6) by (auto simp: saleClaim_def isLive_def)
  have f: "icPoolID (?f c) = icPoolID c" "icChannel (?f c) = icChannel c"
    "isLive now (?f c) \<longleftrightarrow> ?q \<noteq> icQuantity c" "icStatus (?f c) \<noteq> Confirmed"
    "?q \<noteq> icQuantity c \<Longrightarrow> icQuantity (?f c) = icQuantity c - ?q"
    using e(2) assms(4) by (auto simp: isLive_def)
  have "liveIn now slot ?d + liveIn now slot (?f c) = liveIn now slot c"
    using d f e assms(4) by (auto simp: liveIn_def)
  moreover have "usedIn now slot ch ?d + usedIn now slot ch (?f c) = usedIn now slot ch c"
    using d f e assms(4) by (auto simp: usedIn_def consuming_def consumedQuantity_def)
  ultimately show ?thesis using v d(2) d2(1) e(3)
    by (auto simp: liveHeld_core channelConsumed_core sum leftAfter_def)
qed

text \<open>
  Converting part of an operational hold into a buyer's hold creates and loses no place: the
  child gets exactly the quantity asked for, the source keeps the rest, and the pool's live
  demand, its counters and every channel's consumption are what they were.
\<close>
theorem conversion_conserves_places:
  assumes "inOrder t es" and "lastAt eventAt t es \<le> ckNow ck"
    and "db = runEvents sha rfc ttl es emptyInventory" and "ckNow ck < ckInsert ck + ttl"
    and "ConvertOperational sha ttl ck newID r db = (Inr (v, False), db')"
  shows "\<exists>c. findClaim (sqOrganizerID r) (sqSourceID r) db = Some c \<and>
    icQuantity (cvChild v) + cvSourceRemaining v = icQuantity c \<and> icQuantity (cvChild v) = sqQuantity r \<and>
    ivPools db' = ivPools db \<and> liveHeld (ckNow ck) slot db' = liveHeld (ckNow ck) slot db \<and>
    channelConsumed (ckNow ck) slot ch db' = channelConsumed (ckNow ck) slot ch db"
proof -
  note s = reachable_sound [OF assms(1-3)]
  obtain c where f: "findClaim (sqOrganizerID r) (sqSourceID r) db = Some c" and k: "icKind c = OperationalClaim"
    and q: "0 < sqQuantity r"
    and l: "sellFrom ttl ck newID r (saleFP sha ''op-convert'' r) ''convert'' c None None db = Inr (Inr (v, False), db')"
    using assms(5) unfolding ConvertOperational_def sale_cases
    by (auto simp: transact_def bindE_Inr_iff Let_def replaySale_flag split: if_splits option.splits sum.splits)
  have c: "c \<in> set (ivClaims db)" "icID c = sqSourceID r" using findClaim_Some [OF f] by auto
  have x: "icExpiresAt c = None" "icChannel c = None"
    using soundD(3) [OF s c(1)] k by (auto simp: claimCheck_def kindShape_def)
  have "icStatus c = Held" using l by (auto simp: sellFrom_def split: if_splits)
  then have "isLive (ckNow ck) c" using x by (simp add: isLive_def)
  then show ?thesis using sellFrom_conserves [OF s c _ _ assms(4) q l] x f by auto
qed

text \<open>
  Drawing a buyer's hold from a group reservation, before the reservation expires, moves places
  from the group to the buyer one for one: live demand, the pool and the consumption of the
  reservation's channel are unchanged.
\<close>
theorem draw_down_conserves_places:
  assumes "inOrder t es" and "lastAt eventAt t es \<le> ckNow ck" and "ckNow ck \<le> decision"
    and "db = runEvents sha rfc ttl es emptyInventory" and "ckNow ck < ckInsert ck + ttl"
    and "DrawDownGroupReservation sha ttl decision ck newID r db = (Inr (v, False), db')"
  shows "\<exists>c. findClaim (sqOrganizerID r) (sqSourceID r) db = Some c \<and> icKind c = ReservationClaim \<and>
    icQuantity (cvChild v) + cvSourceRemaining v = icQuantity c \<and> icChannel (cvChild v) = icChannel c \<and>
    ivPools db' = ivPools db \<and> liveHeld (ckNow ck) slot db' = liveHeld (ckNow ck) slot db \<and>
    channelConsumed (ckNow ck) slot ch db' = channelConsumed (ckNow ck) slot ch db"
proof -
  note s = reachable_sound [OF assms(1,2,4)]
  obtain c where f: "findClaim (sqOrganizerID r) (sqSourceID r) db = Some c" and k: "icKind c = ReservationClaim"
    and q: "0 < sqQuantity r" and x: "\<not> expired decision c"
    and l: "sellFrom ttl ck newID r (saleFP sha ''grp-draw'' r) ''draw_down'' c (icChannel c) (icPresaleCode c) db =
      Inr (Inr (v, False), db')"
    using assms(6) unfolding DrawDownGroupReservation_def sale_cases
    by (auto simp: transact_def bindE_Inr_iff Let_def replaySale_flag split: if_splits option.splits sum.splits)
  have c: "c \<in> set (ivClaims db)" "icID c = sqSourceID r" using findClaim_Some [OF f] by auto
  have h: "icStatus c = Held" using l by (auto simp: sellFrom_def split: if_splits)
  have v: "icChannel (cvChild v) = icChannel c"
    using l by (auto simp: sellFrom_def bindE_Inr_iff Let_def saleClaim_def split: if_splits)
  have "isLive (ckNow ck) c" using h x assms(3) by (auto intro: not_expired_live)
  then show ?thesis using sellFrom_conserves [OF s c _ _ assms(5) q l] f k v by auto
qed

section \<open>Capacity\<close>

text \<open>
  A capacity change never strands a sale: its new limit is what was asked for, and the capacity
  itself is the larger of the request and the demand at that moment; a target is left behind
  exactly when demand exceeds the request.
\<close>
theorem capacity_change_clamps:
  assumes "inOrder t es" and "lastAt eventAt t es \<le> now" and "db = runEvents sha rfc ttl es emptyInventory"
    and "AdjustCapacity sha now org slot newCap actor reason key db = (Inr (a, False), db')"
  shows "\<exists>p. ivPools db' slot = Some p \<and> capacityLimit p = newCap \<and>
    ipCapacity p = max newCap (ipConfirmed p + liveHeld now slot db') \<and>
    ipTarget p = (if ipConfirmed p + liveHeld now slot db' \<le> newCap then None else Some newCap) \<and>
    caCapacity a = ipCapacity p \<and> caTarget a = ipTarget p"
proof -
  note s = reachable_sound [OF assms(1-3)]
  obtain db1 q db2 where w: "sweepExpired now slot db = Inr db1" and q: "ivPools db1 slot = Some q"
    and a: "a = (if newCap < ipConfirmed q + liveHeld now slot db1
      then \<lparr>caBefore = ipCapacity q, caCapacity = wrap32 (ipConfirmed q + liveHeld now slot db1),
            caTarget = Some newCap, caStatus = ''clamped''\<rparr>
      else \<lparr>caBefore = ipCapacity q, caCapacity = newCap, caTarget = None, caStatus = ''applied''\<rparr>)"
    and u: "updatePool slot (\<lambda>p. p\<lparr>ipCapacity := caCapacity a, ipTarget := caTarget a\<rparr>) db1 = Inr db2"
    and c: "coreOf db' = coreOf db2"
    using assms(4)
    by (auto simp: AdjustCapacity_def transact_def bindE_Inr_iff asInt32_Inr case_option_Inr Let_def
        split: if_splits option.splits sum.splits dest: insertHistory_core)
  have b: "int32 (ipConfirmed q + liveHeld now slot db1)"
    using demand_bounds(4) [OF moves_sound [OF sweep_moves [OF w] s] q] .
  have d: "ivPools db' slot = Some (q\<lparr>ipCapacity := caCapacity a, ipTarget := caTarget a\<rparr>)"
    "liveHeld now slot db' = liveHeld now slot db1"
    using updatePool_core(1) [OF u q] c unfolding liveHeld_core by (auto simp: coreOf_def)
  show ?thesis unfolding d(1) using b by (auto simp: a d(2) capacityLimit_def wrap32_id)
qed

text \<open>
  A cut winds down: once the checkouts in flight on a pool are over and its holds are past their
  expiry, the next sweep, which cannot fail, lands the capacity on the target of the cut, or on the places
  sold where more than the target have been, and clears a target that has been reached.
\<close>
theorem capacity_cut_lands:
  assumes "inOrder t es" and "lastAt eventAt t es \<le> now" and "db = runEvents sha rfc ttl es emptyInventory"
    and "ivPools db slot = Some p" and "ipTarget p = Some target"
    and "\<And>c. c \<in> set (ivClaims db) \<Longrightarrow> icPoolID c = slot \<Longrightarrow> \<not> isLive now c"
  shows "\<exists>db' q. sweepExpired now slot db = Inr db' \<and> ivPools db' slot = Some q \<and>
    ipCapacity q = max target (ipConfirmed p) \<and> ipConfirmed q = ipConfirmed p \<and>
    ipTarget q = (if ipConfirmed p \<le> target then None else Some target)"
proof -
  note s = reachable_sound [OF assms(1-3)]
  have "liveHeld now slot db = 0"
    unfolding liveHeld_core by (rule claimSum_zero) (use assms(6) in \<open>auto simp: liveIn_def\<close>)
  moreover obtain db1 q where "sweepExpired now slot db = Inr db1" "ivPools db1 slot = Some q" "samePool p q"
    "ipCapacity q = (case ipTarget p of None \<Rightarrow> ipCapacity p | Some t \<Rightarrow> max t (ipConfirmed p + liveHeld now slot db))"
    "ipTarget q = (case ipTarget p of None \<Rightarrow> None
       | Some t \<Rightarrow> if ipConfirmed p + liveHeld now slot db \<le> t then None else Some t)"
    by (rule sweep_result [OF s assms(4)]) blast
  ultimately show ?thesis using assms(5) by (intro exI [of _ db1] exI [of _ q]) (simp add: samePool_def)
qed

section \<open>Refunded capacity\<close>

lemma reconcile_history: "reconcileCapacity now pool db = Inr db' \<Longrightarrow> ivHistory db' = ivHistory db"
  by (auto simp: reconcileCapacity_def updatePool_def bindE_Inr_iff split: option.splits if_splits)

lemma appendHistory_row:
  assumes "appendHistory org i rel ac actor reason q qa st (Some (key, fp)) db = Inr db'"
    and "find (\<lambda>h. ihOrganizerID h = org \<and> ihKey h = Some key) (ivHistory db) = None"
  shows "\<exists>h. find (\<lambda>h. ihOrganizerID h = org \<and> ihKey h = Some key) (ivHistory db') = Some h \<and>
    ihFingerprint h = Some fp \<and> ihQuantityAfter h = qa"
  using assms by (auto simp: appendHistory_def insertHistory_def find_append split: if_splits)


lemma findClaim_change:
  assumes "\<And>c. icID (f c) = icID c" and "\<And>c. icOrganizerID (f c) = icOrganizerID c"
  shows "findClaim org i (changeClaim i f db) = map_option f (findClaim org i db)"
proof -
  have "find (\<lambda>c. icID c = i \<and> icOrganizerID c = org) (map (\<lambda>c. if icID c = i then f c else c) cs) =
      map_option f (find (\<lambda>c. icID c = i \<and> icOrganizerID c = org) cs)" for cs
    by (induction cs) (auto simp: assms)
  then show ?thesis by (simp add: findClaim_def changeClaim_def)
qed

lemma findClaim_core: "coreOf db = coreOf db' \<Longrightarrow> findClaim org i db = findClaim org i db'"
  by (simp add: findClaim_def coreOf_def)

lemma reconcile_claims: "reconcileCapacity now pool db = Inr db' \<Longrightarrow> ivClaims db' = ivClaims db"
  by (auto simp: reconcileCapacity_def updatePool_def bindE_Inr_iff split: option.splits if_splits)

text \<open>What a first return leaves: the claim is still there, and the history remembers the return.\<close>

lemma refund_returned:
  assumes "ReturnRefundedCapacity sha now org claimID refundID quantity db = (Inr x, db')" and "\<not> rcReplay x"
  shows "\<exists>c h. findClaim org claimID db' = Some c \<and>
    find (\<lambda>h. ihOrganizerID h = org \<and> ihKey h = Some (refundReturnKey refundID)) (ivHistory db') = Some h \<and>
    ihFingerprint h = Some (opFingerprint sha [''refund-return'', uuid_String org, uuid_String claimID, formatInt quantity]) \<and>
    x = \<lparr>rcClaimID = claimID, rcQuantity = quantity, rcUnreturned = ihQuantityAfter h, rcReplay = False\<rparr> \<and> 1 \<le> quantity"
proof -
  let ?key = "refundReturnKey refundID"
  let ?fp = "opFingerprint sha [''refund-return'', uuid_String org, uuid_String claimID, formatInt quantity]"
  define db1 where "db1 = (if list_ex (\<lambda>s. csClaimID s = claimID) (ivSeats db)
    then db\<lparr>ivSeats := map (\<lambda>s. if csClaimID s = claimID then s\<lparr>csReleased := True\<rparr> else s) (ivSeats db)\<rparr> else db)"
  have d: "ivHistory db1 = ivHistory db" "ivClaims db1 = ivClaims db" by (auto simp: db1_def)
  obtain c db2 db3 after where f: "findClaim org claimID db = Some c" and q: "1 \<le> quantity"
    and n: "find (\<lambda>h. ihOrganizerID h = org \<and> ihKey h = Some ?key) (ivHistory db) = None"
    and u: "updatePool (icPoolID c) (\<lambda>p. p\<lparr>ipConfirmed := ipConfirmed p - quantity\<rparr>) db1 = Inr db2"
    and r: "reconcileCapacity now (icPoolID c)
      (changeClaim claimID (\<lambda>x. x\<lparr>icReturned := icReturned x + quantity\<rparr>) db2) = Inr db3"
    and h: "appendHistory org claimID None ''refund_return'' ''commerce'' ''refund'' quantity after Confirmed (Some (?key, ?fp)) db3 = Inr db'"
    and x: "x = \<lparr>rcClaimID = claimID, rcQuantity = quantity, rcUnreturned = after, rcReplay = False\<rparr>"
    using assms unfolding ReturnRefundedCapacity_def Let_def transact_def unfolding db1_def [symmetric]
    by (auto simp: bindE_Inr_iff case_option_Inr split: if_splits option.splits sum.splits)
  have d2: "ivHistory db2 = ivHistory db" "ivClaims db2 = ivClaims db"
    using u d by (auto simp: updatePool_def split: option.splits if_splits)
  have d3: "ivHistory db3 = ivHistory db"
    "ivClaims db3 = ivClaims (changeClaim claimID (\<lambda>x. x\<lparr>icReturned := icReturned x + quantity\<rparr>) db2)"
    using reconcile_history [OF r] reconcile_claims [OF r] d2(1) by (auto simp: changeClaim_def)
  have "ivClaims db' = ivClaims db3" using appendHistory_core [OF h] by (simp add: coreOf_def)
  then have "findClaim org claimID db' = findClaim org claimID (changeClaim claimID (\<lambda>x. x\<lparr>icReturned := icReturned x + quantity\<rparr>) db2)"
    using d3(2) by (simp add: findClaim_def)
  also have "\<dots> = Some (c\<lparr>icReturned := icReturned c + quantity\<rparr>)"
    using f d2(2) by (subst findClaim_change) (auto simp: findClaim_def)
  finally show ?thesis using appendHistory_row [OF h] n d3(1) x q by auto
qed

text \<open>
  A refund gives its places back once: repeating a successful return, at any later time,
  answers the same remainder marked as a replay and changes nothing.
\<close>
theorem refund_return_is_idempotent:
  assumes "ReturnRefundedCapacity sha now org claimID refundID quantity db = (Inr x, db')"
  shows "ReturnRefundedCapacity sha now' org claimID refundID quantity db' = (Inr (x\<lparr>rcReplay := True\<rparr>), db')"
proof (cases "rcReplay x")
  case True
  then show ?thesis using assms
    by (auto simp: ReturnRefundedCapacity_def Let_def transact_def bindE_Inr_iff case_option_Inr
        split: if_splits option.splits sum.splits)
next
  case False
  obtain c h where "findClaim org claimID db' = Some c" "1 \<le> quantity"
    "find (\<lambda>h. ihOrganizerID h = org \<and> ihKey h = Some (refundReturnKey refundID)) (ivHistory db') = Some h"
    "ihFingerprint h = Some (opFingerprint sha [''refund-return'', uuid_String org, uuid_String claimID, formatInt quantity])"
    "x = \<lparr>rcClaimID = claimID, rcQuantity = quantity, rcUnreturned = ihQuantityAfter h, rcReplay = False\<rparr>"
    using refund_returned [OF assms False] by blast
  then show ?thesis by (simp add: ReturnRefundedCapacity_def Let_def transact_def)
qed

section \<open>The presale gate\<close>

lemma sweep_codes:
  assumes "sound now (coreOf db)" and "ivPools db slot = Some p" and "sweepExpired now slot db = Inr db1"
  shows "ivCodes db1 = ivCodes db" and "ivAllocations db1 = ivAllocations db"
    and "ivClaims db1 = map (sweepClaim now slot) (ivClaims db)"
  using sweep_result [OF assms(1,2)] assms(3) by (metis sum.inject(2))+

lemma redeem_ok:
  assumes "redeemPresaleCode clk org slot ch code qty db = None"
  shows "\<exists>k. findCode org ch code db = Some k \<and> codeWindowOpen clk k \<and> code \<noteq> '''' \<and>
    (\<forall>m. cdMax k = Some m \<longrightarrow> codeRedeemed org ch code db + qty \<le> m)"
  using assms by (auto simp: redeemPresaleCode_def split: if_splits option.splits)

text \<open>
  A gated channel sells only to valid codes: a hold granted on an active allocation that
  requires a code names an issued code of the organizer for that channel, inside the code's and
  the channel's windows, is asked for by the reseller the channel is reserved to, if any, and
  leaves the code's redemptions, this hold included, within its limit.
\<close>
theorem gated_hold_redeems_code:
  assumes "inOrder t es" and "lastAt eventAt t es \<le> ckNow ck" and "db = runEvents sha rfc ttl es emptyInventory"
    and "CreateHold sha ttl ck newID r db = (Inr (c, False), db')" and "hqChannel r \<noteq> ''''"
    and "find (\<lambda>a. alChannel a = hqChannel r \<and> activeAllocation (ckActive ck) a) (ivAllocations db (hqSlotID r)) = Some a"
    and "alRequiresCode a"
  shows "\<exists>k. findCode (hqOrganizerID r) (hqChannel r) (hqPresaleCode r) db = Some k \<and>
    icPresaleCode c = Some (hqPresaleCode r) \<and> codeWindowOpen (ckCode ck) k \<and> windowOpen (ckWindow ck) a \<and>
    sellerAdmits (alSoldBy a) (hqReseller r) \<and>
    (case cdMax k of None \<Rightarrow> True
     | Some m \<Rightarrow> codeRedeemed (hqOrganizerID r) (hqChannel r) (hqPresaleCode r) db' \<le> m)"
proof -
  note s = reachable_sound [OF assms(1-3)]
  obtain p db1 alloc where p: "ivPools db (hqSlotID r) = Some p"
    and w: "sweepExpired (ckNow ck) (hqSlotID r) db = Inr db1" and g: "channelGate ck r db1 = Inr alloc"
    and c: "c = (heldClaim sha ttl ck newID r alloc)\<lparr>icCurrency := Some (hqCurrency r)\<rparr>"
    and d: "ivClaims db' = ivClaims db1 @ [heldClaim sha ttl ck newID r alloc]"
    by (rule CreateHold_granted [OF assms(4)]) blast
  note f = sweep_codes [OF s p w]
  have a: "alloc = Some a" "windowOpen (ckWindow ck) a" "sellerAdmits (alSoldBy a) (hqReseller r)"
    "redeemPresaleCode (ckCode ck) (hqOrganizerID r) (hqSlotID r) (hqChannel r) (hqPresaleCode r) (hqQuantity r) db1 = None"
    using g assms(5-7) unfolding channelGate_def f(2) by (auto split: if_splits option.splits)
  obtain k where k: "findCode (hqOrganizerID r) (hqChannel r) (hqPresaleCode r) db1 = Some k"
    "codeWindowOpen (ckCode ck) k" "hqPresaleCode r \<noteq> ''''"
    "\<And>m. cdMax k = Some m \<Longrightarrow>
       codeRedeemed (hqOrganizerID r) (hqChannel r) (hqPresaleCode r) db1 + hqQuantity r \<le> m"
    using redeem_ok [OF a(4)] by blast
  have "codeRedeemed (hqOrganizerID r) (hqChannel r) (hqPresaleCode r) db' =
      codeRedeemed (hqOrganizerID r) (hqChannel r) (hqPresaleCode r) db1 + hqQuantity r"
    using a(1) assms(5,7) k(3) unfolding codeRedeemed_def tally_def d
    by (simp add: redeemedBy_def heldClaim_def presaleUsage_def consumedQuantity_def nullIf_def)
  then show ?thesis using k a(1-3) assms(5,7) f(1)
    by (auto simp: c heldClaim_def findCode_def nullIf_def split: option.splits)
qed

section \<open>Worked instances\<close>

text \<open>
  A slot of twenty places with a gated box office, an issued code, four places held for the
  crew and five reserved for a group; and the earlier run at three of its stages.
\<close>

definition gatedAllocation :: ChannelAllocation where
  "gatedAllocation = demoAllocation\<lparr>alRequiresCode := True\<rparr>"

definition demoCode :: PresaleCode where
  "demoCode = \<lparr>cdOrganizerID = 7, cdChannel = ''box'', cdCode = ''VIP'', cdMax = Some 2, cdOpensAt = Some 0,
     cdClosesAt = None\<rparr>"

definition demoGroup :: GroupRequest where
  "demoGroup = \<lparr>gqHold = demoHold 5 '''' ''g1'', gqCounterparty = ''school'', gqExpiresAt = 500,
     gqActor = ''ann'', gqReason = ''trip''\<rparr>"

definition stageEvents :: "InvEvent list" where
  "stageEvents =
     [EvProvision 1 100 1 7 20, EvReplaceAllocations 2 7 1 [gatedAllocation] None, EvIssueCode 3 demoCode,
      EvPlaceOperational (demoClock 4) 70 7 1 4 ''house'' ''crew'' ''ann'' ''setup'' ''p1'',
      EvPlaceGroup 5 (demoClock 5) 80 demoGroup]"

definition runDemo :: "InvEvent list \<Rightarrow> InventoryDB" where
  "runDemo es = runEvents (\<lambda>s. s) (\<lambda>_. '''') 900 es emptyInventory"

definition demoSale :: "uuid \<Rightarrow> int \<Rightarrow> string \<Rightarrow> SaleRequest" where
  "demoSale source q key = \<lparr>sqOrganizerID = 7, sqSourceID = source, sqTicketTypeID = 2, sqExpectedSlot = 1,
     sqQuantity = q, sqUnitAmount = 300, sqCurrency = ''EUR'', sqActor = ''ann'', sqReason = ''sale'', sqKey = key\<rparr>"

lemma stage_inOrder: "inOrder 0 stageEvents" "lastAt eventAt 0 stageEvents = 5"
  by (simp_all add: stageEvents_def demoClock_def)

lemma demo_prefix_inOrder: "inOrder 0 (take n demoEvents)"
proof -
  have "inOrder 0 (take n demoEvents @ drop n demoEvents)" using demo_inOrder by simp
  then show ?thesis unfolding ordered_append by blast
qed

lemmas run_defs = runDemo_def runEvents_def demoEvents_def stageEvents_def emptyInventory_def statusText_def
  demo_defs demoGroup_def demoCode_def gatedAllocation_def inventory_defs hold_defs transition_defs staff_defs
  PlaceOperationalHold_def operationalClaim_def PlaceGroupReservation_def reservationClaim_def admitGroup_def
  IssuePresaleCode_def validatePresaleCode_def Before_def wrap32_id

lemmas sale_defs = ConvertOperational_def DrawDownGroupReservation_def sellFrom_def saleClaim_def takeFrom_def
  leftAfter_def demoSale_def


theorem availability_decides_hold_witness:
  "fst (CreateHold (\<lambda>s. s) 900 (demoClock 6) 52 (demoHold 5 '''' ''k2'') (runDemo (take 2 demoEvents))) =
     Inr ((heldClaim (\<lambda>s. s) 900 (demoClock 6) 52 (demoHold 5 '''' ''k2'') None)\<lparr>icCurrency := Some ''EUR''\<rparr>, False)"
proof -
  have a: "Availability_read (demoClock 6) 6 7 1 '''' (runDemo (take 2 demoEvents)) =
      Inr \<lparr>avCapacity = 10, avHeld = 0, avConfirmed = 0, avAvailable = 6, avOpen = True\<rparr>"
    by (simp add: run_defs Availability_read_def effectiveCapacity_def clampAvailable_def offeringOpen_def)
  have s: "ivPools (runDemo (take 2 demoEvents)) 1 \<noteq> None" "ivClaims (runDemo (take 2 demoEvents)) = []"
    "map_option ipKind (ivPools (runDemo (take 2 demoEvents)) 1) = Some GAPool"
    by (simp_all add: run_defs)
  have t: "lastAt eventAt 0 (take 2 demoEvents) \<le> ckNow (demoClock 6)" by (simp add: demoEvents_def demoClock_def)
  have c: "claimCheck (heldClaim (\<lambda>s. s) 900 (demoClock 6) 52 (demoHold 5 '''' ''k2'') None)" by (simp add: run_defs)
  show ?thesis
    using availability_decides_hold [OF demo_prefix_inOrder t runDemo_def, of "demoHold 5 '''' ''k2''" _ 52] a s c
    by (simp add: demoHold_def demoClock_def priorClaim_def)
qed

theorem conversion_conserves_places_witness:
  "\<exists>v db'. ConvertOperational (\<lambda>s. s) 900 (demoClock 6) 71 (demoSale 70 3 ''c1'') (runDemo stageEvents) = (Inr (v, False), db') \<and>
     liveHeld 6 1 db' = liveHeld 6 1 (runDemo stageEvents) \<and> icQuantity (cvChild v) = 3"
proof -
  have "\<exists>v db'. ConvertOperational (\<lambda>s. s) 900 (demoClock 6) 71 (demoSale 70 3 ''c1'') (runDemo stageEvents) = (Inr (v, False), db')"
    by (simp add: run_defs sale_defs registryLookup_def)
  then obtain v db' where h: "ConvertOperational (\<lambda>s. s) 900 (demoClock 6) 71 (demoSale 70 3 ''c1'') (runDemo stageEvents) = (Inr (v, False), db')"
    by blast
  show ?thesis
    using h conversion_conserves_places [where slot = 1 and ch = "''box''", OF stage_inOrder(1) _ runDemo_def _ h] stage_inOrder(2)
    by (intro exI [of _ v] exI [of _ db']) (auto simp: demoClock_def demoSale_def)
qed

theorem draw_down_conserves_places_witness:
  "\<exists>v db'. DrawDownGroupReservation (\<lambda>s. s) 900 7 (demoClock 6) 81 (demoSale 80 5 ''d1'') (runDemo stageEvents) = (Inr (v, False), db') \<and>
     liveHeld 6 1 db' = liveHeld 6 1 (runDemo stageEvents)"
proof -
  have "\<exists>v db'. DrawDownGroupReservation (\<lambda>s. s) 900 7 (demoClock 6) 81 (demoSale 80 5 ''d1'') (runDemo stageEvents) = (Inr (v, False), db')"
    by (simp add: run_defs sale_defs registryLookup_def)
  then obtain v db' where h: "DrawDownGroupReservation (\<lambda>s. s) 900 7 (demoClock 6) 81 (demoSale 80 5 ''d1'') (runDemo stageEvents) = (Inr (v, False), db')"
    by blast
  show ?thesis
    using h draw_down_conserves_places [where slot = 1 and ch = "''box''", OF stage_inOrder(1) _ _ runDemo_def _ h] stage_inOrder(2)
    by (intro exI [of _ v] exI [of _ db']) (auto simp: demoClock_def)
qed

theorem capacity_change_clamps_witness:
  "\<exists>p. ivPools (snd (AdjustCapacity (\<lambda>s. s) 7 7 1 6 ''ann'' ''fire'' ''k3'' (runDemo (take 6 demoEvents)))) 1 = Some p \<and>
     capacityLimit p = 6 \<and> ipCapacity p = 8 \<and> ipTarget p = Some 6"
proof -
  let ?db = "runDemo (take 6 demoEvents)"
  have "\<exists>a db' p. AdjustCapacity (\<lambda>s. s) 7 7 1 6 ''ann'' ''fire'' ''k3'' ?db = (Inr (a, False), db') \<and>
      ivPools db' 1 = Some p \<and> ipConfirmed p + liveHeld 7 1 db' = 8"
    by (simp add: run_defs)
  then obtain a db' p where h: "AdjustCapacity (\<lambda>s. s) 7 7 1 6 ''ann'' ''fire'' ''k3'' ?db = (Inr (a, False), db')"
    "ivPools db' 1 = Some p" "ipConfirmed p + liveHeld 7 1 db' = 8" by blast
  have "lastAt eventAt 0 (take 6 demoEvents) \<le> 7" by (simp add: demoEvents_def demoClock_def)
  from capacity_change_clamps [OF demo_prefix_inOrder this runDemo_def h(1)] show ?thesis using h by simp
qed

theorem capacity_cut_lands_witness:
  "\<exists>db' q. sweepExpired 906 1 demoInventory = Inr db' \<and> ivPools db' 1 = Some q \<and> ipCapacity q = 6 \<and> ipTarget q = None"
proof -
  obtain p where p: "ivPools demoInventory 1 = Some p" "ipConfirmed p = 2" "ipTarget p = Some 6" using demo_pool by blast
  have "\<not> isLive 906 c" if "c \<in> set (ivClaims demoInventory)" for c
    using that by (auto simp: demoInventory_def run_defs)
  then have "\<exists>db' q. sweepExpired 906 1 demoInventory = Inr db' \<and> ivPools db' 1 = Some q \<and>
      ipCapacity q = max 6 (ipConfirmed p) \<and> ipConfirmed q = ipConfirmed p \<and>
      ipTarget q = (if ipConfirmed p \<le> 6 then None else Some 6)"
    by (intro capacity_cut_lands [OF demo_inOrder _ demoInventory_def p(1,3)]) (auto simp: demo_lastAt)
  then show ?thesis using p(2) by (auto simp: p(2))
qed

theorem refund_return_is_idempotent_witness:
  "\<exists>x db'. ReturnRefundedCapacity (\<lambda>s. s) 8 7 51 60 1 (runDemo (take 7 demoEvents)) = (Inr x, db') \<and>
     ReturnRefundedCapacity (\<lambda>s. s) 20 7 51 60 1 db' = (Inr (x\<lparr>rcReplay := True\<rparr>), db')"
proof -
  have "\<exists>x db'. ReturnRefundedCapacity (\<lambda>s. s) 8 7 51 60 1 (runDemo (take 7 demoEvents)) = (Inr x, db')"
    by (simp add: run_defs)
  then obtain x db' where h: "ReturnRefundedCapacity (\<lambda>s. s) 8 7 51 60 1 (runDemo (take 7 demoEvents)) = (Inr x, db')" by blast
  then show ?thesis using refund_return_is_idempotent [OF h, of 20] by blast
qed

theorem gated_hold_redeems_code_witness:
  "\<exists>c db' k. CreateHold (\<lambda>s. s) 900 (demoClock 6) 52 ((demoHold 2 ''box'' ''k9'')\<lparr>hqPresaleCode := ''VIP''\<rparr>) (runDemo stageEvents) =
       (Inr (c, False), db') \<and>
     findCode 7 ''box'' ''VIP'' (runDemo stageEvents) = Some k \<and> icPresaleCode c = Some ''VIP''"
proof -
  let ?r = "(demoHold 2 ''box'' ''k9'')\<lparr>hqPresaleCode := ''VIP''\<rparr>"
  have "\<exists>c db'. CreateHold (\<lambda>s. s) 900 (demoClock 6) 52 ?r (runDemo stageEvents) = (Inr (c, False), db')"
    by (simp add: run_defs redeemPresaleCode_def findCode_def codeWindowOpen_def codeRedeemed_def redeemedBy_def)
  then obtain c db' where h: "CreateHold (\<lambda>s. s) 900 (demoClock 6) 52 ?r (runDemo stageEvents) = (Inr (c, False), db')" by blast
  have a: "ivAllocations (runDemo stageEvents) 1 = [gatedAllocation]" by (simp add: run_defs)
  show ?thesis
    using h gated_hold_redeems_code [OF stage_inOrder(1) _ runDemo_def h, of gatedAllocation] stage_inOrder(2) a
    by (auto simp: demo_defs gatedAllocation_def activeAllocation_def)
qed

end
