(* ===== verification/Access_Lifecycle.thy ===== *)
theory Access_Lifecycle
  imports Json_Text Checked "HOL-Library.List_Lexorder"
begin

text \<open>
  The integrity scheme of the ticket trail, \<open>src/services/access/internal/lifecycle\<close>: the
  canonical bytes of an event, a head, a leaf and a checkpoint, the chained entry hash, the
  Merkle root of a checkpoint (\<open>canonical.go\<close>) and the Ed25519 keys that sign heads and
  checkpoints (\<open>keys.go\<close>). A byte string is a \<open>string\<close>. SHA-256, Ed25519 and the printing of
  an instant in RFC 3339 are the fields of \<open>LifecycleEnv\<close>.
\<close>

section \<open>Canonical bytes\<close>

record LifecycleEnv =
  leSha :: "string \<Rightarrow> string"
  leRFC :: "time \<Rightarrow> string"
  lePublic :: "string \<Rightarrow> string"
  leSign :: "string \<Rightarrow> string \<Rightarrow> string"
  leVerify :: "string \<Rightarrow> string \<Rightarrow> string \<Rightarrow> bool"

definition domainEvent :: string where "domainEvent = ''access-lifecycle/event/v1''"
definition domainHead :: string where "domainHead = ''access-lifecycle/head/v1''"
definition domainLeaf :: string where "domainLeaf = ''access-lifecycle/leaf/v1''"
definition domainNode :: string where "domainNode = ''access-lifecycle/node/v1''"
definition domainCheckpoint :: string where "domainCheckpoint = ''access-lifecycle/checkpoint/v1''"

definition CanonicalVersion :: int where "CanonicalVersion = 1"

record TrailEvent =
  teTicketID :: uuid
  teOrderID :: uuid
  teOrganizerID :: uuid
  teSlotID :: uuid
  teSequence :: int
  teEventID :: uuid
  teType :: string
  teOccurredAt :: time

definition stampText :: "LifecycleEnv \<Rightarrow> time \<Rightarrow> string" where
  "stampText env t = leRFC env (truncateMicro t)"

definition CanonicalEvent :: "LifecycleEnv \<Rightarrow> TrailEvent \<Rightarrow> string" where
  "CanonicalEvent env e =
     joinWith CHR 0x0A [domainEvent, uuid_String (teTicketID e), uuid_String (teOrderID e),
       uuid_String (teOrganizerID e), uuid_String (teSlotID e), formatInt (teSequence e), uuid_String (teEventID e),
       teType e, stampText env (teOccurredAt e)]"

definition CanonicalHead :: "uuid \<Rightarrow> int \<Rightarrow> string \<Rightarrow> string \<Rightarrow> string" where
  "CanonicalHead ticketID sequence keyID headHash =
     joinWith CHR 0x0A [domainHead, uuid_String ticketID, formatInt sequence, keyID, hexString headHash]"

definition CanonicalLeaf :: "uuid \<Rightarrow> int \<Rightarrow> string \<Rightarrow> string" where
  "CanonicalLeaf ticketID sequence headHash =
     joinWith CHR 0x0A [domainLeaf, uuid_String ticketID, formatInt sequence, hexString headHash]"

record Checkpoint =
  cpOrganizerID :: uuid
  cpSequence :: int
  cpPreviousRoot :: string
  cpRoot :: string
  cpLeafCount :: int
  cpKeyID :: string
  cpCreatedAt :: time

definition CanonicalCheckpoint :: "LifecycleEnv \<Rightarrow> Checkpoint \<Rightarrow> string" where
  "CanonicalCheckpoint env c =
     joinWith CHR 0x0A [domainCheckpoint, uuid_String (cpOrganizerID c), formatInt (cpSequence c),
       hexString (cpPreviousRoot c), hexString (cpRoot c), formatInt (cpLeafCount c), cpKeyID c,
       stampText env (cpCreatedAt c)]"

definition GenesisHash :: string where
  "GenesisHash = replicate 32 (CHR 0x00)"

definition HashEntry :: "LifecycleEnv \<Rightarrow> string \<Rightarrow> string \<Rightarrow> string" where
  "HashEntry env previous canonical = leSha env (previous @ canonical)"

definition nodeText :: "string \<Rightarrow> string \<Rightarrow> string" where
  "nodeText l r = joinWith CHR 0x0A [domainNode, hexString l, hexString r]"

definition hashNode :: "LifecycleEnv \<Rightarrow> string \<Rightarrow> string \<Rightarrow> string" where
  "hashNode env l r = HashEntry env [] (nodeText l r)"

section \<open>Merkle root\<close>

record Leaf =
  lfTicketID :: uuid
  lfSequence :: int
  lfHeadHash :: string

datatype merkle_error =
    ZeroLeaves
  | LeafHashSize uuid
  | DuplicateLeaf uuid

fun checkLeaves :: "uuid option \<Rightarrow> Leaf list \<Rightarrow> merkle_error option" where
  "checkLeaves prev [] = None"
| "checkLeaves prev (l # ls) =
     (if length (lfHeadHash l) \<noteq> 32 then Some (LeafHashSize (lfTicketID l))
      else if prev = Some (lfTicketID l) then Some (DuplicateLeaf (lfTicketID l))
      else checkLeaves (Some (lfTicketID l)) ls)"

definition leafText :: "Leaf \<Rightarrow> string" where
  "leafText l = CanonicalLeaf (lfTicketID l) (lfSequence l) (lfHeadHash l)"

definition hashLeaf :: "LifecycleEnv \<Rightarrow> Leaf \<Rightarrow> string" where
  "hashLeaf env l = HashEntry env [] (leafText l)"

text \<open>One round of the loop: neighbours are hashed together, an odd last one with itself.\<close>

fun nextLevel :: "LifecycleEnv \<Rightarrow> string list \<Rightarrow> string list" where
  "nextLevel env [] = []"
| "nextLevel env [x] = [hashNode env x x]"
| "nextLevel env (x # y # xs) = hashNode env x y # nextLevel env xs"

lemma nextLevel_length: "length (nextLevel env xs) = (length xs + 1) div 2"
  by (induction env xs rule: nextLevel.induct) auto

function foldLevels :: "LifecycleEnv \<Rightarrow> string list \<Rightarrow> string" where
  "foldLevels env level = (if length level > 1 then foldLevels env (nextLevel env level) else hd level)"
  by pat_completeness auto
termination
  by (relation "measure (\<lambda>(env, level). length level)") (auto simp: nextLevel_length)

declare foldLevels.simps [simp del]

text \<open>\<open>slices.SortFunc\<close> on the raw identifiers; two leaves of one ticket are refused in either order.\<close>

definition MerkleRoot :: "LifecycleEnv \<Rightarrow> Leaf list \<Rightarrow> merkle_error + string" where
  "MerkleRoot env leaves =
     (if leaves = [] then Inl ZeroLeaves
      else
        let sorted = sort_key lfTicketID leaves in
        (case checkLeaves None sorted of
           Some e \<Rightarrow> Inl e
         | None \<Rightarrow> Inr (foldLevels env (map (hashLeaf env) sorted))))"

section \<open>Keys\<close>

definition KeyNamespace :: string where "KeyNamespace = ''access-lifecycle/''"

record LifecycleSigner =
  siPrivate :: string
  siKID :: string

type_synonym LifecycleKeyring = "string \<Rightarrow> string option"

definition validKID :: "string \<Rightarrow> bool" where
  "validKID kid \<longleftrightarrow>
     take (length KeyNamespace) kid = KeyNamespace \<and> kid \<noteq> KeyNamespace \<and>
     list_all (\<lambda>c. c \<notin> set [CHR 0x0A, CHR 0x0D, CHR ''='', CHR '','']) kid"

definition SignHead :: "LifecycleEnv \<Rightarrow> LifecycleSigner \<Rightarrow> uuid \<Rightarrow> int \<Rightarrow> string \<Rightarrow> string" where
  "SignHead env s ticketID sequence headHash =
     leSign env (siPrivate s) (CanonicalHead ticketID sequence (siKID s) headHash)"

definition SignCheckpoint :: "LifecycleEnv \<Rightarrow> LifecycleSigner \<Rightarrow> Checkpoint \<Rightarrow> string" where
  "SignCheckpoint env s c = leSign env (siPrivate s) (CanonicalCheckpoint env (c\<lparr>cpKeyID := siKID s\<rparr>))"

datatype key_error = UnknownKey | InvalidSignature

definition verifyUnder :: "LifecycleEnv \<Rightarrow> LifecycleKeyring \<Rightarrow> string \<Rightarrow> string \<Rightarrow> string \<Rightarrow> key_error option" where
  "verifyUnder env ring kid message sig =
     (case ring kid of
        None \<Rightarrow> Some UnknownKey
      | Some key \<Rightarrow>
          if length key \<noteq> 32 then Some UnknownKey
          else if leVerify env key message sig then None else Some InvalidSignature)"

definition VerifyHead ::
  "LifecycleEnv \<Rightarrow> LifecycleKeyring \<Rightarrow> uuid \<Rightarrow> int \<Rightarrow> string \<Rightarrow> string \<Rightarrow> string \<Rightarrow> key_error option" where
  "VerifyHead env ring ticketID sequence keyID headHash sig =
     verifyUnder env ring keyID (CanonicalHead ticketID sequence keyID headHash) sig"

definition VerifyCheckpoint ::
  "LifecycleEnv \<Rightarrow> LifecycleKeyring \<Rightarrow> Checkpoint \<Rightarrow> string \<Rightarrow> key_error option" where
  "VerifyCheckpoint env ring c sig = verifyUnder env ring (cpKeyID c) (CanonicalCheckpoint env c) sig"

text \<open>What Ed25519 documents: a signature verifies under the public key of the key that made it, and the sizes.\<close>

definition ed25519 :: "LifecycleEnv \<Rightarrow> bool" where
  "ed25519 env \<longleftrightarrow>
     (\<forall>k m. leVerify env (lePublic env k) m (leSign env k m) \<and> length (lePublic env k) = 32 \<and> length (leSign env k m) = 64)"

definition holdsSigner :: "LifecycleEnv \<Rightarrow> LifecycleKeyring \<Rightarrow> LifecycleSigner \<Rightarrow> bool" where
  "holdsSigner env ring s \<longleftrightarrow> ring (siKID s) = Some (lePublic env (siPrivate s))"

lemma signed_head_verifies:
  "ed25519 env \<Longrightarrow> holdsSigner env ring s \<Longrightarrow> VerifyHead env ring t n (siKID s) h (SignHead env s t n h) = None"
  by (simp add: ed25519_def holdsSigner_def VerifyHead_def verifyUnder_def SignHead_def)

lemma signed_checkpoint_verifies:
  "ed25519 env \<Longrightarrow> holdsSigner env ring s \<Longrightarrow> VerifyCheckpoint env ring (c\<lparr>cpKeyID := siKID s\<rparr>) (SignCheckpoint env s c) = None"
  by (simp add: ed25519_def holdsSigner_def VerifyCheckpoint_def verifyUnder_def SignCheckpoint_def)

section \<open>What a root commits to\<close>

text \<open>The texts hashed on the way to a root.\<close>

fun levelTexts :: "string list \<Rightarrow> string set" where
  "levelTexts [] = {}"
| "levelTexts [x] = {nodeText x x}"
| "levelTexts (x # y # xs) = insert (nodeText x y) (levelTexts xs)"

function foldTexts :: "LifecycleEnv \<Rightarrow> string list \<Rightarrow> string set" where
  "foldTexts env level =
     (if length level > 1 then levelTexts level \<union> foldTexts env (nextLevel env level) else {})"
  by pat_completeness auto
termination
  by (relation "measure (\<lambda>(env, level). length level)") (auto simp: nextLevel_length)

declare foldTexts.simps [simp del]

definition merkleTexts :: "LifecycleEnv \<Rightarrow> Leaf list \<Rightarrow> string set" where
  "merkleTexts env leaves = leafText ` set leaves \<union> foldTexts env (map (hashLeaf env) (sort_key lfTicketID leaves))"

lemma text_lines: "CHR 0x0A \<notin> set domainNode" "CHR 0x0A \<notin> set domainLeaf" "CHR 0x0A \<notin> set domainHead"
  by (simp_all add: domainNode_def domainLeaf_def domainHead_def)

lemma nodeText_inj: "nodeText a b = nodeText c d \<Longrightarrow> a = c \<and> b = d"
  unfolding nodeText_def
  by (drule joinWith_inj) (auto simp: hexString_lines text_lines dest: hexString_inj)

lemma leafText_inj: "leafText l = leafText m \<Longrightarrow> l = m"
  unfolding leafText_def CanonicalLeaf_def
  by (drule joinWith_inj; cases l; cases m)
    (auto simp: hexString_lines text_lines uuid_lines formatInt_lines dest: hexString_inj formatInt_inj)

lemma hashNode_inj:
  "inj_on (leSha env) T \<Longrightarrow> nodeText a b \<in> T \<Longrightarrow> nodeText c d \<in> T \<Longrightarrow> hashNode env a b = hashNode env c d \<Longrightarrow>
   a = c \<and> b = d"
  using inj_onD [of "leSha env" T "nodeText a b" "nodeText c d"] nodeText_inj [of a b c d]
  by (simp add: hashNode_def HashEntry_def)

lemma node_not_leaf: "nodeText a b \<noteq> leafText l"
  by (auto simp: nodeText_def leafText_def CanonicalLeaf_def domainNode_def domainLeaf_def)

text \<open>A hash that stands \<open>n\<close> levels above the leaves.\<close>

fun atHeight :: "LifecycleEnv \<Rightarrow> string set \<Rightarrow> nat \<Rightarrow> string \<Rightarrow> bool" where
  "atHeight env T 0 h \<longleftrightarrow> (\<exists>l. leafText l \<in> T \<and> h = hashLeaf env l)"
| "atHeight env T (Suc n) h \<longleftrightarrow> (\<exists>a b. nodeText a b \<in> T \<and> h = hashNode env a b \<and> atHeight env T n a)"

lemma node_leaf_hash:
  "inj_on (leSha env) T \<Longrightarrow> nodeText a b \<in> T \<Longrightarrow> leafText l \<in> T \<Longrightarrow> hashNode env a b \<noteq> hashLeaf env l"
  using inj_onD [of "leSha env" T "nodeText a b" "leafText l"] node_not_leaf [of a b l]
  by (auto simp: hashNode_def hashLeaf_def HashEntry_def)

lemma height_unique:
  "inj_on (leSha env) T \<Longrightarrow> atHeight env T n h \<Longrightarrow> atHeight env T m h \<Longrightarrow> n = m"
proof (induction n arbitrary: m h)
  case 0
  then obtain l where l: "leafText l \<in> T" "h = hashLeaf env l" by auto
  show ?case
  proof (cases m)
    case (Suc k)
    then obtain a b where "nodeText a b \<in> T" "h = hashNode env a b" using "0.prems"(3) by auto
    then show ?thesis using node_leaf_hash [OF "0.prems"(1) _ l(1)] l(2) by metis
  qed simp
next
  case (Suc n)
  obtain a b where a: "nodeText a b \<in> T" "h = hashNode env a b" "atHeight env T n a" using Suc.prems(2) by auto
  obtain k where k: "m = Suc k" using Suc.prems(3) a node_leaf_hash [OF Suc.prems(1)] by (cases m) auto
  then obtain c d where c: "nodeText c d \<in> T" "h = hashNode env c d" "atHeight env T k c" using Suc.prems(3) by auto
  have "a = c" using hashNode_inj [OF Suc.prems(1) a(1) c(1)] a(2) c(2) by simp
  then show ?case using Suc.IH [OF Suc.prems(1) a(3)] c(3) k by simp
qed

lemma nextLevel_height:
  "levelTexts xs \<subseteq> T \<Longrightarrow> list_all (atHeight env T n) xs \<Longrightarrow> list_all (atHeight env T (Suc n)) (nextLevel env xs)"
  by (induction env xs rule: nextLevel.induct) auto

lemma nextLevel_set:
  "inj_on (leSha env) T \<Longrightarrow> levelTexts xs \<subseteq> T \<Longrightarrow> nodeText a b \<in> T \<Longrightarrow>
   hashNode env a b \<in> set (nextLevel env xs) \<Longrightarrow> a \<in> set xs"
  by (induction env xs rule: nextLevel.induct) (auto dest: hashNode_inj)

lemma nextLevel_distinct:
  "inj_on (leSha env) T \<Longrightarrow> levelTexts xs \<subseteq> T \<Longrightarrow> distinct xs \<Longrightarrow> distinct (nextLevel env xs)"
  by (induction env xs rule: nextLevel.induct) (auto dest: nextLevel_set)

lemma nextLevel_eq:
  "inj_on (leSha env) T \<Longrightarrow> levelTexts xs \<subseteq> T \<Longrightarrow> levelTexts ys \<subseteq> T \<Longrightarrow> distinct xs \<Longrightarrow> distinct ys \<Longrightarrow>
   nextLevel env xs = nextLevel env ys \<Longrightarrow> xs = ys"
proof (induction env xs arbitrary: ys rule: nextLevel.induct)
  case (1 env)
  then show ?case by (cases "(env, ys)" rule: nextLevel.cases) auto
next
  case (2 env x)
  then show ?case using hashNode_inj [OF 2(1)] by (cases "(env, ys)" rule: nextLevel.cases) auto
next
  case (3 env x y xs)
  note inj = hashNode_inj [OF "3.prems"(1)]
  show ?case
  proof (cases "(env, ys)" rule: nextLevel.cases)
    case (3 e a b ws)
    then have "x = a \<and> y = b" using inj [of x y a b] "3.prems" by simp
    moreover have "xs = ws" using "3.IH" [of ws] "3.prems" 3 by simp
    ultimately show ?thesis using 3 by simp
  next
    case (2 e a)
    then have "x = a \<and> y = a" using inj [of x y a a] "3.prems" by simp
    then show ?thesis using "3.prems"(4) by simp
  qed (use "3.prems" in simp)
qed

lemma foldLevels_height:
  "foldTexts env xs \<subseteq> T \<Longrightarrow> xs \<noteq> [] \<Longrightarrow> list_all (atHeight env T n) xs \<Longrightarrow>
   \<exists>m. atHeight env T (n + m) (foldLevels env xs) \<and> (m = 0 \<longleftrightarrow> length xs = 1)"
proof (induction env xs arbitrary: n rule: foldLevels.induct)
  case (1 env xs)
  show ?case
  proof (cases "length xs > 1")
    case True
    have t: "levelTexts xs \<subseteq> T" "foldTexts env (nextLevel env xs) \<subseteq> T"
      using "1.prems"(1) True by (simp_all add: foldTexts.simps [of env xs])
    have "nextLevel env xs \<noteq> []" using nextLevel_length [of env xs] True by auto
    from "1.IH" [OF True t(2) this nextLevel_height [OF t(1) "1.prems"(3)]]
    obtain m where "atHeight env T (Suc n + m) (foldLevels env xs)"
      using True by (auto simp: foldLevels.simps [of env xs])
    then show ?thesis using True by (intro exI [of _ "Suc m"]) auto
  next
    case False
    then obtain x where "xs = [x]" using "1.prems"(2) by (cases xs) auto
    then show ?thesis using "1.prems"(3) by (intro exI [of _ 0]) (simp add: foldLevels.simps)
  qed
qed

lemma foldLevels_inj:
  "inj_on (leSha env) T \<Longrightarrow> foldTexts env xs \<subseteq> T \<Longrightarrow> foldTexts env ys \<subseteq> T \<Longrightarrow> xs \<noteq> [] \<Longrightarrow> ys \<noteq> [] \<Longrightarrow>
   list_all (atHeight env T n) xs \<Longrightarrow> list_all (atHeight env T n) ys \<Longrightarrow> distinct xs \<Longrightarrow> distinct ys \<Longrightarrow>
   foldLevels env xs = foldLevels env ys \<Longrightarrow> xs = ys"
proof (induction env xs arbitrary: n ys rule: foldLevels.induct)
  case (1 env xs)
  obtain m k where h: "atHeight env T (n + m) (foldLevels env xs)" "m = 0 \<longleftrightarrow> length xs = 1"
    "atHeight env T (n + k) (foldLevels env ys)" "k = 0 \<longleftrightarrow> length ys = 1"
    using foldLevels_height [OF "1.prems"(2,4,6)] foldLevels_height [OF "1.prems"(3,5,7)] by blast
  have "n + m = n + k" by (rule height_unique [OF "1.prems"(1) h(1)]) (use h(3) "1.prems"(10) in simp)
  then have "m = k" by simp
  then have one: "length xs = 1 \<longleftrightarrow> length ys = 1" using h by simp
  show ?case
  proof (cases "length xs > 1")
    case True
    then have y: "length ys > 1" using one "1.prems"(5) by (cases ys; cases "tl ys") auto
    have t: "levelTexts xs \<subseteq> T" "foldTexts env (nextLevel env xs) \<subseteq> T" "levelTexts ys \<subseteq> T" "foldTexts env (nextLevel env ys) \<subseteq> T"
      using "1.prems"(2,3) True y by (simp_all add: foldTexts.simps [of env xs] foldTexts.simps [of env ys])
    have ne: "nextLevel env xs \<noteq> []" "nextLevel env ys \<noteq> []"
      using nextLevel_length [of env xs] nextLevel_length [of env ys] True y by auto
    have "nextLevel env xs = nextLevel env ys"
      using "1.prems"(10) True y
      by (intro "1.IH" [OF True "1.prems"(1) t(2,4) ne nextLevel_height [OF t(1) "1.prems"(6)]
            nextLevel_height [OF t(3) "1.prems"(7)] nextLevel_distinct [OF "1.prems"(1) t(1) "1.prems"(8)]
            nextLevel_distinct [OF "1.prems"(1) t(3) "1.prems"(9)]])
        (simp add: foldLevels.simps [of env xs] foldLevels.simps [of env ys])
    then show ?thesis using nextLevel_eq [OF "1.prems"(1) t(1,3) "1.prems"(8,9)] by simp
  next
    case False
    then have "length xs = 1" using "1.prems"(4) by (cases xs) auto
    then obtain x y where "xs = [x]" "ys = [y]" using one by (auto simp: length_Suc_conv)
    then show ?thesis using "1.prems"(10) by (simp add: foldLevels.simps)
  qed
qed

lemma checkLeaves_distinct:
  "checkLeaves prev ls = None \<Longrightarrow> sorted (map lfTicketID ls) \<Longrightarrow> (case prev of None \<Rightarrow> True | Some p \<Rightarrow> \<forall>l \<in> set ls. p \<le> lfTicketID l) \<Longrightarrow>
   distinct (map lfTicketID ls) \<and> (case prev of None \<Rightarrow> True | Some p \<Rightarrow> p \<notin> lfTicketID ` set ls)"
proof (induction ls arbitrary: prev)
  case Nil
  then show ?case by (simp split: option.splits)
next
  case (Cons l ls)
  have c: "checkLeaves (Some (lfTicketID l)) ls = None" "prev \<noteq> Some (lfTicketID l)"
    using Cons.prems(1) by (auto split: if_splits)
  have ih: "distinct (map lfTicketID ls) \<and> lfTicketID l \<notin> lfTicketID ` set ls"
    using Cons.IH [OF c(1)] Cons.prems(2) by auto
  have "p \<notin> lfTicketID ` set ls" if p: "prev = Some p" for p
  proof
    assume "p \<in> lfTicketID ` set ls"
    then obtain m where m: "m \<in> set ls" "lfTicketID m = p" by auto
    have "lfTicketID l \<le> p" "p \<le> lfTicketID l" using Cons.prems(2,3) m p by auto
    then show False using c(2) p by simp
  qed
  then show ?case using ih c(2) by (auto split: option.splits)
qed

text \<open>
  C17: A checkpoint's root commits to its leaves: two sets of ticket heads with one root are the
  same tickets at the same sequence and hash, whatever their number. The refusal of a second
  leaf of one ticket is what this rests on, next to SHA-256 having no collision among the
  texts hashed.
\<close>
theorem merkle_root_commits:
  assumes "MerkleRoot env leaves = Inr root" and "MerkleRoot env leaves' = Inr root"
    and "inj_on (leSha env) (merkleTexts env leaves \<union> merkleTexts env leaves')"
  shows "sort_key lfTicketID leaves = sort_key lfTicketID leaves'"
proof -
  let ?T = "merkleTexts env leaves \<union> merkleTexts env leaves'"
  have c: "checkLeaves None (sort_key lfTicketID l) = None" "l \<noteq> []"
    "root = foldLevels env (map (hashLeaf env) (sort_key lfTicketID l))" if "l = leaves \<or> l = leaves'" for l
    using assms(1,2) that by (auto simp: MerkleRoot_def Let_def split: if_splits option.splits)
  have leaf: "inj_on (hashLeaf env) {l. leafText l \<in> ?T}"
    using inj_onD [OF assms(3)] leafText_inj by (intro inj_onI) (auto simp: hashLeaf_def HashEntry_def)
  have texts: "leafText ` set l \<subseteq> ?T" "foldTexts env (map (hashLeaf env) (sort_key lfTicketID l)) \<subseteq> ?T"
    if "l = leaves \<or> l = leaves'" for l using that by (auto simp: merkleTexts_def)
  have props: "distinct (map (hashLeaf env) (sort_key lfTicketID l))"
    "list_all (atHeight env ?T 0) (map (hashLeaf env) (sort_key lfTicketID l))" if l: "l = leaves \<or> l = leaves'" for l
  proof -
    have "distinct (map lfTicketID (sort_key lfTicketID l))" using checkLeaves_distinct [OF c(1) [OF l]] by simp
    then have "distinct (sort_key lfTicketID l)" by (simp add: distinct_map)
    moreover have "inj_on (hashLeaf env) (set (sort_key lfTicketID l))"
      by (rule inj_on_subset [OF leaf]) (use texts(1) [OF l] in auto)
    ultimately show "distinct (map (hashLeaf env) (sort_key lfTicketID l))" by (simp add: distinct_map)
    show "list_all (atHeight env ?T 0) (map (hashLeaf env) (sort_key lfTicketID l))"
      using texts(1) [OF l] by (auto simp: list_all_iff)
  qed
  have "map (hashLeaf env) (sort_key lfTicketID leaves) = map (hashLeaf env) (sort_key lfTicketID leaves')"
  proof (rule foldLevels_inj [OF assms(3), where n = 0])
    show "map (hashLeaf env) (sort_key lfTicketID leaves) \<noteq> []" "map (hashLeaf env) (sort_key lfTicketID leaves') \<noteq> []"
      using c(2) by (metis map_is_Nil_conv set_empty set_sort)+
    show "foldLevels env (map (hashLeaf env) (sort_key lfTicketID leaves)) =
        foldLevels env (map (hashLeaf env) (sort_key lfTicketID leaves'))"
      using c(3) [of leaves] c(3) [of leaves'] by simp
  qed (use texts props in auto)
  moreover have "inj_on (hashLeaf env) (set (sort_key lfTicketID leaves) \<union> set (sort_key lfTicketID leaves'))"
    by (rule inj_on_subset [OF leaf]) (use texts(1) [of leaves] texts(1) [of leaves'] in auto)
  ultimately show ?thesis by (rule map_inj_on)
qed

text \<open>One leaf on each side, and a hash that keeps its input.\<close>

definition lifecycleSample :: LifecycleEnv where
  "lifecycleSample = \<lparr>leSha = (\<lambda>s. s), leRFC = (\<lambda>t. ''t''), lePublic = (\<lambda>k. k), leSign = (\<lambda>k m. k), leVerify = (\<lambda>p m s. p = s)\<rparr>"

definition sampleLeaf :: Leaf where
  "sampleLeaf = \<lparr>lfTicketID = 7, lfSequence = 3, lfHeadHash = GenesisHash\<rparr>"

lemma sampleRoot: "MerkleRoot lifecycleSample [sampleLeaf] = Inr (leafText sampleLeaf)"
  by (simp add: MerkleRoot_def sampleLeaf_def lifecycleSample_def GenesisHash_def foldLevels.simps hashLeaf_def HashEntry_def)

theorem merkle_root_commits_witness:
  "sort_key lfTicketID [sampleLeaf] = sort_key lfTicketID [sampleLeaf]
   \<and> MerkleRoot lifecycleSample [sampleLeaf] = Inr (leafText sampleLeaf)"
  using merkle_root_commits [OF sampleRoot sampleRoot] sampleRoot by (simp add: lifecycleSample_def)

section \<open>The rounds of the fold\<close>

lemma foldLevels_rounds:
  "length xs \<le> 2 ^ k \<Longrightarrow> 2 ^ k < 2 * length xs \<Longrightarrow> (nextLevel env ^^ k) xs = [foldLevels env xs]"
proof (induction k arbitrary: xs)
  case 0
  then obtain x where "xs = [x]" by (cases xs; cases "tl xs") auto
  then show ?case by (simp add: foldLevels.simps)
next
  case (Suc k)
  have "2 ^ k < length xs" using Suc.prems(2) by simp
  moreover have "(1::nat) \<le> 2 ^ k" by simp
  ultimately have more: "length xs > 1" by linarith
  have "length (nextLevel env xs) \<le> 2 ^ k" "2 ^ k < 2 * length (nextLevel env xs)"
    using Suc.prems by (simp_all add: nextLevel_length)
  from Suc.IH [OF this] show ?case
    using more by (simp add: foldLevels.simps [of env xs] funpow_swap1)
qed

lemma round_covers: "n \<le> m * c \<Longrightarrow> n \<le> (m + 1) div 2 * (2 * c)" for n m c :: nat
proof -
  assume "n \<le> m * c"
  also have "\<dots> \<le> ((m + 1) div 2 * 2) * c" by (rule mult_right_mono) simp_all
  finally show ?thesis by (simp add: mult.assoc)
qed

text \<open>
  C31: The loop of \<open>MerkleRoot\<close> ends: over \<open>n\<close> leaves that pass the checks it makes \<open>k\<close> rounds,
  with \<open>k\<close> the logarithm of \<open>n\<close> to base two rounded up, every earlier round leaves more than one
  hash, the last leaves one, and that hash is the root.
\<close>
theorem merkle_fold_ends:
  assumes "leaves \<noteq> []" and "checkLeaves None (sort_key lfTicketID leaves) = None"
    and "length leaves \<le> 2 ^ k" and "2 ^ k < 2 * length leaves"
  shows "\<exists>root. MerkleRoot env leaves = Inr root
      \<and> (nextLevel env ^^ k) (map (hashLeaf env) (sort_key lfTicketID leaves)) = [root]
      \<and> (\<forall>j. j < k \<longrightarrow> length ((nextLevel env ^^ j) (map (hashLeaf env) (sort_key lfTicketID leaves))) > 1)"
proof -
  let ?xs = "map (hashLeaf env) (sort_key lfTicketID leaves)"
  have low: "length leaves \<le> length ((nextLevel env ^^ j) ?xs) * 2 ^ j" for j
  proof (induction j)
    case (Suc j)
    then show ?case using round_covers [OF Suc.IH] by (simp add: nextLevel_length)
  qed simp
  have big: "length ((nextLevel env ^^ j) ?xs) > 1" if "j < k" for j
  proof -
    have "(2::nat) ^ Suc j \<le> 2 ^ k" using that by (intro power_increasing) auto
    then have "(2::nat) ^ j < length leaves" using assms(4) by simp
    then have "1 * 2 ^ j < length ((nextLevel env ^^ j) ?xs) * 2 ^ j" using low [of j] by linarith
    then show ?thesis by (simp only: mult_less_cancel2)
  qed
  show ?thesis
    using foldLevels_rounds [of ?xs k env] assms big by (auto simp: MerkleRoot_def)
qed

theorem merkle_fold_ends_witness:
  "(nextLevel lifecycleSample ^^ 0) (map (hashLeaf lifecycleSample) (sort_key lfTicketID [sampleLeaf])) = [leafText sampleLeaf]"
  using merkle_fold_ends [of "[sampleLeaf]" 0 lifecycleSample] sampleRoot
  by (simp add: sampleLeaf_def GenesisHash_def)

end
