(* ===== verification/Access_State.thy ===== *)
theory Access_State
  imports Access_Lifecycle Runs
begin

text \<open>
  The tables of \<open>src/services/access/internal/store\<close> (\<open>migrations/\<close>), the chained append and the
  verification of one ticket's chain (\<open>lifecycle.go\<close>, \<open>alarm_reason.go\<close>), and issuance and
  delivery (\<open>postgres.go\<close>). A table is the list of its rows in insertion order; a transaction is
  a function to an error, which rolls back, or to its answer and the tables it leaves. SHA-1
  identifiers, the clock and random identifiers are parameters.
\<close>

section \<open>Errors, decisions and alarms\<close>

datatype access_error =
    ErrTicketCredential
  | ErrLifecycleUnsigned
  | ErrEventIDTaken
  | ErrAccessDatabase
  | ErrOccurrenceCollision
  | ErrExitNotApplicable
  | ErrNotUUIDv4
  | ErrNoClaimedTime
  | ErrDirection
  | ErrUnknownMode
  | ErrNoOperator
  | ErrSlotPolicy
  | ErrQuantity
  | ErrTicketsNotIssued int
  | ErrRefundBatchConflict
  | ErrExchangeTicketsNotIssued int int
  | ErrSourceTicketsAlreadyVoided uuid
  | ErrSourceTicketsAlreadyAdmitted uuid
  | ErrKeyRequired
  | ErrRedeliveryKeyConflict
  | ErrRedeliveryBoundExceeded int

datatype Decision =
    DecisionAccepted
  | DecisionAlreadyRedeemed
  | DecisionAdmittedDegraded
  | DecisionIntegrityQuarantined
  | DecisionIntegrityOperatorControlled
  | DecisionEntryLimitReached
  | DecisionExitRequired
  | DecisionNotInside
  | DecisionExitNotApplicable
  | DecisionExitUnverified
  | DecisionOccurrenceRequired
  | DecisionRefunded
  | DecisionExchanged

datatype Mode = ModeNormal | ModeOperatorDeny | ModeOperatorAdmit

datatype AlarmReason =
    AlarmReasonMissingIntegrityRow
  | AlarmReasonUnsupportedCanonicalVersion
  | AlarmReasonSequenceGap
  | AlarmReasonBrokenChainLink
  | AlarmReasonEntryHashMismatch
  | AlarmReasonOrphanIntegrityRow
  | AlarmReasonMissingHead
  | AlarmReasonHeadWithoutEvents
  | AlarmReasonHeadMismatch
  | AlarmReasonMissingKeyring
  | AlarmReasonUnknownKey
  | AlarmReasonInvalidHeadSignature
  | AlarmReasonVerificationUnavailable
  | AlarmReasonVerificationUnclassified
  | AlarmReasonLegacyQuarantine

text \<open>
  A \<open>verifierError\<close> is what the chain check found; its text is the detail, its code the alarm
  reason. The two unavailable and unclassified reasons belong to database errors.
\<close>

datatype verifier_error =
    MissingIntegrityRow uuid
  | UnsupportedVersion uuid int
  | ChainGap int int
  | BrokenLink int
  | EntryMismatch int
  | OrphanRows int
  | MissingHead int
  | HeadWithoutEvents
  | UnsupportedHeadVersion int
  | ChainHeadMismatch int int
  | NoKeyring
  | HeadSignature key_error

fun alarmReasonFor :: "verifier_error \<Rightarrow> AlarmReason" where
  "alarmReasonFor (MissingIntegrityRow e) = AlarmReasonMissingIntegrityRow"
| "alarmReasonFor (UnsupportedVersion e v) = AlarmReasonUnsupportedCanonicalVersion"
| "alarmReasonFor (ChainGap f x) = AlarmReasonSequenceGap"
| "alarmReasonFor (BrokenLink s) = AlarmReasonBrokenChainLink"
| "alarmReasonFor (EntryMismatch s) = AlarmReasonEntryHashMismatch"
| "alarmReasonFor (OrphanRows n) = AlarmReasonOrphanIntegrityRow"
| "alarmReasonFor (MissingHead n) = AlarmReasonMissingHead"
| "alarmReasonFor HeadWithoutEvents = AlarmReasonHeadWithoutEvents"
| "alarmReasonFor (UnsupportedHeadVersion v) = AlarmReasonUnsupportedCanonicalVersion"
| "alarmReasonFor (ChainHeadMismatch f x) = AlarmReasonHeadMismatch"
| "alarmReasonFor NoKeyring = AlarmReasonMissingKeyring"
| "alarmReasonFor (HeadSignature k) =
     (case k of UnknownKey \<Rightarrow> AlarmReasonUnknownKey | InvalidSignature \<Rightarrow> AlarmReasonInvalidHeadSignature)"

datatype PolicyConflictRule = ConflictEntryLimitReached | ConflictExitRequired

datatype AlarmData =
    IntegrityAlarm (iaOrganizerID: uuid) (iaTicketID: uuid) (iaReason: AlarmReason) (iaDisposition: Decision) (iaMode: Mode)
  | AdmissionConflictAlarm (caOrganizerID: uuid) (caTicketID: uuid) (caOccurrenceID: uuid) (caDeviceOccurredAt: time)
      (caSkewFlagged: bool)
  | PolicyConflictAlarm (paConflictID: uuid) (paOrganizerID: uuid) (paTicketID: uuid) (paSlotID: uuid) (paRule: PolicyConflictRule)
      (paOccurrenceID: uuid) (paStatus: string) (paVersion: int)

section \<open>Tables\<close>

record TicketRow =
  tkID :: uuid
  tkOrderID :: uuid
  tkGuestOrderRef :: uuid
  tkOrganizerID :: uuid
  tkBuyerID :: uuid
  tkSlotID :: uuid
  tkTicketTypeID :: uuid
  tkSeatIdentity :: "string option"
  tkPayload :: string
  tkIssuedAt :: time

record EventRow =
  evID :: uuid
  evTicketID :: uuid
  evType :: string
  evOccurredAt :: time

record IntegrityRow =
  inEventID :: uuid
  inTicketID :: uuid
  inSequence :: int
  inVersion :: int
  inPrevious :: string
  inEntry :: string

record HeadRow =
  hdTicketID :: uuid
  hdOrganizerID :: uuid
  hdSequence :: int
  hdVersion :: int
  hdHash :: string
  hdKeyID :: string
  hdSignature :: string
  hdChangedAt :: time

record HeadChange =
  hcChangeID :: int
  hcTicketID :: uuid
  hcOrganizerID :: uuid
  hcSequence :: int
  hcHash :: string
  hcVersion :: int
  hcKeyID :: string
  hcSignature :: string
  hcCheckpointID :: "int option"
  hcCreatedAt :: time

record CheckpointRow =
  ckID :: int
  ckBody :: Checkpoint
  ckVersion :: int
  ckSignature :: string

record EpochRow =
  epTicketID :: uuid
  epKeyID :: string
  epSequence :: int
  epVersion :: int
  epHash :: string
  epSignature :: string
  epSealedAt :: time

record QuarantineRow =
  quID :: uuid
  quTicketID :: uuid
  quOrganizerID :: uuid
  quReason :: verifier_error
  quReasonCode :: "AlarmReason option"
  quAdmittedAt :: "time option"
  quOccurrenceID :: "uuid option"
  quOccurredAt :: "time option"
  quEventType :: string

record ModeRow =
  moOrganizerID :: uuid
  moMode :: Mode
  moSetAt :: time
  moSetBy :: string

record AlarmRow =
  alEventID :: uuid
  alOccurredAt :: time
  alData :: AlarmData

record PolicyRow =
  poSlotID :: uuid
  poOrganizerID :: uuid
  poMode :: string
  poMaxEntries :: "int option"
  poRequiresExit :: bool

record ConflictRow =
  cfTicketID :: uuid
  cfOrganizerID :: uuid
  cfSlotID :: uuid
  cfRule :: PolicyConflictRule
  cfOccurrenceID :: uuid
  cfStatus :: string
  cfVersion :: int

record RefusalRow =
  rfOccurrenceID :: uuid
  rfTicketID :: uuid
  rfOrganizerID :: uuid
  rfOccurredAt :: time
  rfDecision :: string

record BatchRow =
  baOrganizerID :: uuid
  baRefundID :: uuid
  baOrderID :: uuid
  baQuantity :: int

record DeliveryRow =
  deTicketID :: uuid
  deMessageID :: uuid
  deAcceptedAt :: "time option"

record RedeliveryRow =
  rqOrganizerID :: uuid
  rqKey :: string
  rqOrderID :: uuid
  rqTicketCount :: int
  rqRequestedAt :: time

record AttemptRow =
  atOrganizerID :: uuid
  atKey :: string
  atTicketID :: uuid
  atMessageID :: uuid
  atAcceptedAt :: "time option"

record AccessState =
  asTickets :: "TicketRow list"
  asEvents :: "EventRow list"
  asIntegrity :: "IntegrityRow list"
  asHeads :: "HeadRow list"
  asChanges :: "HeadChange list"
  asCheckpoints :: "CheckpointRow list"
  asEpochs :: "EpochRow list"
  asQuarantine :: "QuarantineRow list"
  asModes :: "ModeRow list"
  asAlarms :: "AlarmRow list"
  asPolicies :: "PolicyRow list"
  asConflicts :: "ConflictRow list"
  asRefusals :: "RefusalRow list"
  asBatches :: "BatchRow list"
  asDeliveries :: "DeliveryRow list"
  asRedeliveries :: "RedeliveryRow list"
  asAttempts :: "AttemptRow list"
  asConsumed :: "uuid list"

definition emptyAccess :: AccessState where
  "emptyAccess = \<lparr>asTickets = [], asEvents = [], asIntegrity = [], asHeads = [], asChanges = [], asCheckpoints = [], asEpochs = [],
     asQuarantine = [], asModes = [], asAlarms = [], asPolicies = [], asConflicts = [], asRefusals = [], asBatches = [],
     asDeliveries = [], asRedeliveries = [], asAttempts = [], asConsumed = []\<rparr>"

section \<open>Configuration\<close>

text \<open>
  \<open>aeSHA1\<close> is \<open>uuid.NewSHA1\<close> in the OID name space. A call reads the service clock (\<open>clNow\<close>, its
  \<open>i\<close>-th reading) and the database clock, which stands still during a transaction (\<open>clDB\<close>); a
  random identifier or an alarm's stamp is indexed by the rows already in the table it goes to.
\<close>

record AccessEnv =
  aeLifecycle :: LifecycleEnv
  aeSHA1 :: "string \<Rightarrow> uuid"
  aeSigner :: "LifecycleSigner option"
  aeKeyring :: "LifecycleKeyring option"
  aeThreshold :: int
  aeWindow :: int

record AccessClock =
  clNow :: "nat \<Rightarrow> time"
  clDB :: time
  clAlarm :: "nat \<Rightarrow> time"
  clFresh :: "nat \<Rightarrow> uuid"
  clQuarantine :: "nat \<Rightarrow> uuid"

definition accessNow :: "AccessClock \<Rightarrow> nat \<Rightarrow> time" where
  "accessNow c i = truncateMicro (clNow c i)"

definition accessPolicy :: "AccessEnv \<Rightarrow> int \<times> int" where
  "accessPolicy env =
     (if aeThreshold env \<le> 0 \<or> aeWindow env \<le> 0 then (3, 60 * 1000000000) else (aeThreshold env, aeWindow env))"

section \<open>The chained append\<close>

definition lifecycleTypes :: "string list" where
  "lifecycleTypes = [''issued'', ''delivered'', ''redeemed'', ''entry'', ''exit'', ''duplicate_admit'', ''refunded'',
     ''exchanged'', ''redelivered'']"

definition singletonTypes :: "string list" where
  "singletonTypes = [''issued'', ''delivered'', ''redeemed'', ''refunded'', ''exchanged'']"

definition loadHead :: "uuid \<Rightarrow> AccessState \<Rightarrow> int \<times> string" where
  "loadHead t st =
     (case find (\<lambda>h. hdTicketID h = t) (asHeads st) of
        None \<Rightarrow> (0, GenesisHash)
      | Some h \<Rightarrow> (hdSequence h, hdHash h))"

record appendInput =
  aiTicketID :: uuid
  aiOrderID :: uuid
  aiOrganizerID :: uuid
  aiSlotID :: uuid
  aiEventID :: uuid
  aiType :: string
  aiOccurredAt :: time

text \<open>The insert into \<open>lifecycle_events\<close>, with its keys, its type check and its stored stamp.\<close>

definition insertEvent :: "AccessClock \<Rightarrow> appendInput \<Rightarrow> AccessState \<Rightarrow> access_error + (time \<times> AccessState)" where
  "insertEvent c a st =
     (let at = truncateMicro (if IsZero (aiOccurredAt a) then clDB c else aiOccurredAt a) in
      if aiType a \<notin> set lifecycleTypes \<or> \<not> list_ex (\<lambda>t. tkID t = aiTicketID a) (asTickets st) then Inl ErrAccessDatabase
      else if list_ex (\<lambda>e. evID e = aiEventID a) (asEvents st) \<or>
          aiType a \<in> set singletonTypes \<and>
          list_ex (\<lambda>e. evTicketID e = aiTicketID a \<and> evType e = aiType a) (asEvents st)
      then Inl ErrEventIDTaken
      else Inr (at, st\<lparr>asEvents := asEvents st @
             [\<lparr>evID = aiEventID a, evTicketID = aiTicketID a, evType = aiType a, evOccurredAt = at\<rparr>]\<rparr>))"

definition insertIntegrity :: "IntegrityRow \<Rightarrow> AccessState \<Rightarrow> access_error + AccessState" where
  "insertIntegrity r st =
     (if inSequence r \<le> 0 \<or> inVersion r \<le> 0 \<or> length (inPrevious r) \<noteq> 32 \<or> length (inEntry r) \<noteq> 32 \<or>
         list_ex (\<lambda>i. inEventID i = inEventID r \<or> inTicketID i = inTicketID r \<and> inSequence i = inSequence r) (asIntegrity st)
      then Inl ErrAccessDatabase
      else Inr (st\<lparr>asIntegrity := asIntegrity st @ [r]\<rparr>))"

text \<open>The upsert of a head keeps the organizer of the row it finds.\<close>

definition upsertHead :: "HeadRow \<Rightarrow> AccessState \<Rightarrow> access_error + AccessState" where
  "upsertHead h st =
     (if hdSequence h \<le> 0 \<or> hdVersion h \<le> 0 \<or> length (hdHash h) \<noteq> 32 \<or> length (hdSignature h) \<noteq> 64
      then Inl ErrAccessDatabase
      else if list_ex (\<lambda>x. hdTicketID x = hdTicketID h) (asHeads st)
      then Inr (st\<lparr>asHeads := map (\<lambda>x. if hdTicketID x = hdTicketID h then h\<lparr>hdOrganizerID := hdOrganizerID x\<rparr> else x)
             (asHeads st)\<rparr>)
      else Inr (st\<lparr>asHeads := asHeads st @ [h]\<rparr>))"

definition queueChange :: "AccessClock \<Rightarrow> HeadRow \<Rightarrow> AccessState \<Rightarrow> AccessState" where
  "queueChange c h st =
     st\<lparr>asChanges := asChanges st @
       [\<lparr>hcChangeID = int (length (asChanges st)) + 1, hcTicketID = hdTicketID h, hcOrganizerID = hdOrganizerID h,
         hcSequence = hdSequence h, hcHash = hdHash h, hcVersion = hdVersion h, hcKeyID = hdKeyID h,
         hcSignature = hdSignature h, hcCheckpointID = None, hcCreatedAt = clDB c\<rparr>]\<rparr>"

definition trailEvent :: "appendInput \<Rightarrow> int \<Rightarrow> time \<Rightarrow> TrailEvent" where
  "trailEvent a n at =
     \<lparr>teTicketID = aiTicketID a, teOrderID = aiOrderID a, teOrganizerID = aiOrganizerID a, teSlotID = aiSlotID a,
      teSequence = n, teEventID = aiEventID a, teType = aiType a, teOccurredAt = at\<rparr>"

definition signedHead :: "AccessEnv \<Rightarrow> LifecycleSigner \<Rightarrow> uuid \<Rightarrow> uuid \<Rightarrow> int \<Rightarrow> string \<Rightarrow> time \<Rightarrow> HeadRow" where
  "signedHead env s t org n h at =
     \<lparr>hdTicketID = t, hdOrganizerID = org, hdSequence = n, hdVersion = CanonicalVersion, hdHash = h, hdKeyID = siKID s,
      hdSignature = SignHead (aeLifecycle env) s t n h, hdChangedAt = at\<rparr>"

definition appendLifecycle ::
  "AccessEnv \<Rightarrow> AccessClock \<Rightarrow> appendInput \<Rightarrow> AccessState \<Rightarrow> access_error + (time \<times> AccessState)" where
  "appendLifecycle env c a st =
     (case aeSigner env of
        None \<Rightarrow> Inl ErrLifecycleUnsigned
      | Some s \<Rightarrow>
          let (last_sequence, last_hash) = loadHead (aiTicketID a) st in
          bindE (insertEvent c a st) (\<lambda>(at, st1).
            let n = last_sequence + 1;
                entry = HashEntry (aeLifecycle env) last_hash (CanonicalEvent (aeLifecycle env) (trailEvent a n at));
                head = signedHead env s (aiTicketID a) (aiOrganizerID a) n entry at in
            bindE (insertIntegrity \<lparr>inEventID = aiEventID a, inTicketID = aiTicketID a, inSequence = n,
                inVersion = CanonicalVersion, inPrevious = last_hash, inEntry = entry\<rparr> st1) (\<lambda>st2.
            bindE (upsertHead head st2) (\<lambda>st3.
              Inr (at, queueChange c head st3)))))"

section \<open>Verification of one chain\<close>

text \<open>The events of a ticket with their integrity rows, in sequence order, rows without one last.\<close>

definition integrityOf :: "AccessState \<Rightarrow> EventRow \<Rightarrow> IntegrityRow option" where
  "integrityOf st e = find (\<lambda>i. inEventID i = evID e \<and> inTicketID i = evTicketID e) (asIntegrity st)"

definition chainRows :: "AccessState \<Rightarrow> uuid \<Rightarrow> (EventRow \<times> IntegrityRow option) list" where
  "chainRows st t = map (\<lambda>e. (e, integrityOf st e)) (filter (\<lambda>e. evTicketID e = t) (asEvents st))"

definition bySequence :: "(EventRow \<times> IntegrityRow option) list \<Rightarrow> (EventRow \<times> IntegrityRow option) list" where
  "bySequence rows =
     sort_key (\<lambda>r. case snd r of Some i \<Rightarrow> inSequence i | None \<Rightarrow> 0) (filter (\<lambda>r. snd r \<noteq> None) rows) @
     filter (\<lambda>r. snd r = None) rows"

record TicketIdentity =
  tiOrderID :: uuid
  tiOrganizerID :: uuid
  tiSlotID :: uuid

definition rowEvent :: "uuid \<Rightarrow> TicketIdentity \<Rightarrow> EventRow \<Rightarrow> int \<Rightarrow> TrailEvent" where
  "rowEvent t who e n =
     \<lparr>teTicketID = t, teOrderID = tiOrderID who, teOrganizerID = tiOrganizerID who, teSlotID = tiSlotID who,
      teSequence = n, teEventID = evID e, teType = evType e, teOccurredAt = truncateMicro (evOccurredAt e)\<rparr>"

definition checkRow ::
  "AccessEnv \<Rightarrow> uuid \<Rightarrow> TicketIdentity \<Rightarrow> EventRow \<times> IntegrityRow option \<Rightarrow> int \<times> string \<Rightarrow>
   verifier_error + (int \<times> string)" where
  "checkRow env t who r acc =
     (case snd r of
        None \<Rightarrow> Inl (MissingIntegrityRow (evID (fst r)))
      | Some i \<Rightarrow>
          let (n, prev) = acc; want = HashEntry (aeLifecycle env) prev
                (CanonicalEvent (aeLifecycle env) (rowEvent t who (fst r) (inSequence i))) in
          if inVersion i \<noteq> CanonicalVersion then Inl (UnsupportedVersion (evID (fst r)) (inVersion i))
          else if inSequence i \<noteq> n + 1 then Inl (ChainGap (inSequence i) (n + 1))
          else if inPrevious i \<noteq> prev then Inl (BrokenLink (inSequence i))
          else if want \<noteq> inEntry i then Inl (EntryMismatch (inSequence i))
          else Inr (n + 1, want))"

definition orphanRows :: "AccessState \<Rightarrow> uuid \<Rightarrow> IntegrityRow list" where
  "orphanRows st t =
     filter (\<lambda>i. inTicketID i = t \<and> \<not> list_ex (\<lambda>e. evID e = inEventID i \<and> evTicketID e = inTicketID i) (asEvents st))
       (asIntegrity st)"

definition checkHead ::
  "AccessEnv \<Rightarrow> AccessState \<Rightarrow> uuid \<Rightarrow> int \<Rightarrow> string \<Rightarrow> verifier_error option" where
  "checkHead env st t n h =
     (case find (\<lambda>x. hdTicketID x = t) (asHeads st) of
        None \<Rightarrow> if n = 0 then None else Some (MissingHead n)
      | Some x \<Rightarrow>
          if n = 0 then Some HeadWithoutEvents
          else if hdVersion x \<noteq> CanonicalVersion then Some (UnsupportedHeadVersion (hdVersion x))
          else if hdSequence x \<noteq> n \<or> hdHash x \<noteq> h then Some (ChainHeadMismatch (hdSequence x) n)
          else (case aeKeyring env of
                  None \<Rightarrow> Some NoKeyring
                | Some ring \<Rightarrow>
                    map_option HeadSignature
                      (VerifyHead (aeLifecycle env) ring t (hdSequence x) (hdKeyID x) (hdHash x) (hdSignature x))))"

definition verifyTicketChain :: "AccessEnv \<Rightarrow> AccessState \<Rightarrow> uuid \<Rightarrow> TicketIdentity \<Rightarrow> verifier_error option" where
  "verifyTicketChain env st t who =
     (case foldE (checkRow env t who) (bySequence (chainRows st t)) (0, GenesisHash) of
        Inl e \<Rightarrow> Some e
      | Inr (n, h) \<Rightarrow>
          if orphanRows st t \<noteq> [] then Some (OrphanRows (int (length (orphanRows st t))))
          else checkHead env st t n h)"

section \<open>Issuance and delivery\<close>

text \<open>\<open>char_length\<close> and \<open>btrim\<close> of the seat check: characters are the bytes that do not continue one.\<close>

definition charLength :: "string \<Rightarrow> nat" where
  "charLength s = length (filter (\<lambda>c. of_char c div 64 \<noteq> (2::nat)) s)"

definition seatIdentityOK :: "string option \<Rightarrow> bool" where
  "seatIdentityOK s =
     (case s of None \<Rightarrow> True | Some x \<Rightarrow> 1 \<le> charLength x \<and> charLength x \<le> 200 \<and> \<not> list_all (\<lambda>c. c = CHR '' '') x)"

definition identityOf :: "TicketRow \<Rightarrow> TicketIdentity" where
  "identityOf r = \<lparr>tiOrderID = tkOrderID r, tiOrganizerID = tkOrganizerID r, tiSlotID = tkSlotID r\<rparr>"

definition ticketRow :: "uuid \<Rightarrow> AccessState \<Rightarrow> TicketRow option" where
  "ticketRow t st = find (\<lambda>r. tkID r = t) (asTickets st)"

definition eventFor :: "uuid \<Rightarrow> TicketIdentity \<Rightarrow> uuid \<Rightarrow> string \<Rightarrow> time \<Rightarrow> appendInput" where
  "eventFor t who event_id ty at =
     \<lparr>aiTicketID = t, aiOrderID = tiOrderID who, aiOrganizerID = tiOrganizerID who, aiSlotID = tiSlotID who,
      aiEventID = event_id, aiType = ty, aiOccurredAt = at\<rparr>"

definition insertIssuedTicket ::
  "AccessEnv \<Rightarrow> AccessClock \<Rightarrow> TicketRow \<Rightarrow> AccessState \<Rightarrow> access_error + AccessState" where
  "insertIssuedTicket env c t st =
     (if list_ex (\<lambda>r. tkID r = tkID t) (asTickets st) \<or> \<not> seatIdentityOK (tkSeatIdentity t) then Inl ErrAccessDatabase
      else bindE (appendLifecycle env c
             (eventFor (tkID t) (identityOf t) (aeSHA1 env (uuid_String (tkID t) @ '':issued'')) ''issued'' (tkIssuedAt t))
             (st\<lparr>asTickets := asTickets st @ [t\<lparr>tkIssuedAt := truncateMicro (tkIssuedAt t)\<rparr>]\<rparr>))
           (\<lambda>(at, st1). Inr st1))"

definition Issue ::
  "AccessEnv \<Rightarrow> AccessClock \<Rightarrow> uuid \<Rightarrow> TicketRow list \<Rightarrow> AccessState \<Rightarrow> access_error + AccessState" where
  "Issue env c eventID tickets st =
     (if eventID \<in> set (asConsumed st) then Inr st
      else foldE (insertIssuedTicket env c) tickets (st\<lparr>asConsumed := asConsumed st @ [eventID]\<rparr>))"

definition PendingDeliveries :: "uuid \<Rightarrow> AccessState \<Rightarrow> TicketRow list" where
  "PendingDeliveries orderID st =
     sort_key tkIssuedAt
       (filter (\<lambda>t. tkOrderID t = orderID \<and>
            \<not> list_ex (\<lambda>e. evTicketID e = tkID t \<and> evType e = ''delivered'') (asEvents st)) (asTickets st))"

definition DeliveryID :: "AccessEnv \<Rightarrow> uuid \<Rightarrow> AccessState \<Rightarrow> access_error + (uuid \<times> AccessState)" where
  "DeliveryID env t st =
     (let mid = aeSHA1 env (uuid_String t @ '':delivery'') in
      if \<not> list_ex (\<lambda>r. tkID r = t) (asTickets st) then Inl ErrAccessDatabase
      else if list_ex (\<lambda>d. deTicketID d = t) (asDeliveries st) then Inr (mid, st)
      else if list_ex (\<lambda>d. deMessageID d = mid) (asDeliveries st) then Inl ErrAccessDatabase
      else Inr (mid, st\<lparr>asDeliveries := asDeliveries st @ [\<lparr>deTicketID = t, deMessageID = mid, deAcceptedAt = None\<rparr>]\<rparr>))"

definition MarkDelivered ::
  "AccessEnv \<Rightarrow> AccessClock \<Rightarrow> uuid \<Rightarrow> uuid \<Rightarrow> AccessState \<Rightarrow> access_error + AccessState" where
  "MarkDelivered env c t messageID st =
     (case ticketRow t st of
        None \<Rightarrow> Inl ErrTicketCredential
      | Some r \<Rightarrow>
          let st1 = st\<lparr>asDeliveries := map (\<lambda>d. if deTicketID d = t \<and> deMessageID d = messageID
                         then d\<lparr>deAcceptedAt := Some (clDB c)\<rparr> else d) (asDeliveries st)\<rparr> in
          if list_ex (\<lambda>e. evTicketID e = t \<and> evType e = ''delivered'') (asEvents st1) then Inr st1
          else bindE (appendLifecycle env c
                 (eventFor t (identityOf r) (aeSHA1 env (uuid_String t @ '':delivered'')) ''delivered'' 0) st1)
               (\<lambda>(at, st2). Inr st2))"

end
