(* ===== verification/Access_Policy.thy ===== *)
theory Access_Policy
  imports Access_State "HOL-Library.Product_Lexorder"
begin

text \<open>
  The re-entry policy of a slot (\<open>policy.go\<close>), the live decision and the derived conflict
  projection over a ticket's admission facts (\<open>conflicts.go\<close>), and the evaluation that stores
  the projection and owes one alarm per transition (\<open>scan.go\<close>).
\<close>

section \<open>Policies\<close>

record ReEntryPolicy =
  rpMode :: string
  rpMaxEntries :: "int option"
  rpRequiresExit :: bool

definition IsPass :: "ReEntryPolicy \<Rightarrow> bool" where
  "IsPass p \<longleftrightarrow> rpMode p = ''multi'' \<or> rpMode p = ''count_limited''"

definition singlePolicy :: ReEntryPolicy where
  "singlePolicy = \<lparr>rpMode = ''single'', rpMaxEntries = None, rpRequiresExit = False\<rparr>"

definition policyRefused :: "ReEntryPolicy \<Rightarrow> bool" where
  "policyRefused p \<longleftrightarrow>
     rpMode p \<notin> set [''single'', ''multi'', ''count_limited''] \<or>
     rpMode p = ''count_limited'' \<and> (case rpMaxEntries p of None \<Rightarrow> True | Some m \<Rightarrow> m \<le> 0) \<or>
     rpMode p \<noteq> ''count_limited'' \<and> rpMaxEntries p \<noteq> None"

definition policyRow :: "uuid \<Rightarrow> uuid \<Rightarrow> ReEntryPolicy \<Rightarrow> PolicyRow" where
  "policyRow slot org p =
     \<lparr>poSlotID = slot, poOrganizerID = org, poMode = rpMode p, poMaxEntries = rpMaxEntries p,
      poRequiresExit = rpRequiresExit p\<rparr>"

definition UpsertSlotPolicy ::
  "uuid \<Rightarrow> uuid \<Rightarrow> uuid \<Rightarrow> ReEntryPolicy \<Rightarrow> AccessState \<Rightarrow> access_error + AccessState" where
  "UpsertSlotPolicy eventID slot org p st =
     (if policyRefused p \<or> slot = uuid_Nil \<or> org = uuid_Nil \<or> eventID = uuid_Nil then Inl ErrSlotPolicy
      else if eventID \<in> set (asConsumed st) then Inr st
      else
        let st1 = st\<lparr>asConsumed := asConsumed st @ [eventID]\<rparr> in
        if list_ex (\<lambda>r. poSlotID r = slot) (asPolicies st1)
        then Inr (st1\<lparr>asPolicies := map (\<lambda>r. if poSlotID r = slot then policyRow slot org p else r) (asPolicies st1)\<rparr>)
        else Inr (st1\<lparr>asPolicies := asPolicies st1 @ [policyRow slot org p]\<rparr>))"

definition slotPolicy :: "AccessState \<Rightarrow> uuid \<Rightarrow> ReEntryPolicy" where
  "slotPolicy st slot =
     (case find (\<lambda>r. poSlotID r = slot) (asPolicies st) of
        None \<Rightarrow> singlePolicy
      | Some r \<Rightarrow> \<lparr>rpMode = poMode r, rpMaxEntries = poMaxEntries r, rpRequiresExit = poRequiresExit r\<rparr>)"

section \<open>Facts in physical order\<close>

record AdmissionFact =
  afOccurrenceID :: uuid
  afType :: string
  afOccurredAt :: time
  afSequence :: int
  afUndirected :: bool

definition factKey :: "AdmissionFact \<Rightarrow> time \<times> int \<times> string" where
  "factKey f = (afOccurredAt f, afSequence f, uuid_String (afOccurrenceID f))"

definition orderFacts :: "AdmissionFact list \<Rightarrow> AdmissionFact list" where
  "orderFacts facts = sort_key factKey facts"

section \<open>The derived conflicts and the live decision\<close>

type_synonym PolicyConflict = "PolicyConflictRule \<times> uuid"

definition overLimit :: "ReEntryPolicy \<Rightarrow> int \<Rightarrow> bool" where
  "overLimit p n \<longleftrightarrow> rpMode p = ''count_limited'' \<and> (case rpMaxEntries p of None \<Rightarrow> False | Some m \<Rightarrow> n > m)"

fun walkConflicts :: "ReEntryPolicy \<Rightarrow> int \<Rightarrow> bool \<Rightarrow> AdmissionFact list \<Rightarrow> PolicyConflict list" where
  "walkConflicts p entries inside [] = []"
| "walkConflicts p entries inside (f # fs) =
     (if afType f = ''exit'' then walkConflicts p entries False fs
      else if afUndirected f \<or> afType f = ''entry'' then
        (if overLimit p (entries + 1) then [(ConflictEntryLimitReached, afOccurrenceID f)]
         else if rpRequiresExit p \<and> inside \<and> \<not> afUndirected f then [(ConflictExitRequired, afOccurrenceID f)]
         else []) @ walkConflicts p (entries + 1) True fs
      else walkConflicts p entries inside fs)"

definition DerivePolicyConflicts :: "ReEntryPolicy \<Rightarrow> AdmissionFact list \<Rightarrow> PolicyConflict list" where
  "DerivePolicyConflicts p facts = (if \<not> IsPass p then [] else walkConflicts p 0 False (orderFacts facts))"

fun walkInside :: "int \<Rightarrow> bool \<Rightarrow> AdmissionFact list \<Rightarrow> int \<times> bool" where
  "walkInside entries inside [] = (entries, inside)"
| "walkInside entries inside (f # fs) =
     (if afType f = ''exit'' then walkInside entries False fs else walkInside (entries + 1) True fs)"

definition EvaluateLiveAdmission :: "ReEntryPolicy \<Rightarrow> AdmissionFact list \<Rightarrow> string \<Rightarrow> Decision" where
  "EvaluateLiveAdmission p facts direction =
     (let (entries, inside) = walkInside 0 False (orderFacts facts) in
      if direction = ''exit'' then (if \<not> inside then DecisionNotInside else DecisionAccepted)
      else if rpMode p = ''count_limited'' \<and> (case rpMaxEntries p of None \<Rightarrow> False | Some m \<Rightarrow> entries \<ge> m)
      then DecisionEntryLimitReached
      else if rpRequiresExit p \<and> inside then DecisionExitRequired
      else DecisionAccepted)"

section \<open>The stored projection\<close>

definition DiffPolicyConflicts ::
  "(PolicyConflict \<times> string) list \<Rightarrow> PolicyConflict list \<Rightarrow> PolicyConflict list \<times> PolicyConflict list" where
  "DiffPolicyConflicts current derived =
     (filter (\<lambda>c. map_of current c \<noteq> Some ''raised'') derived,
      map fst (filter (\<lambda>(c, status). status = ''raised'' \<and> c \<notin> set derived) current))"

definition admissionTypes :: "string list" where
  "admissionTypes = [''entry'', ''exit'', ''redeemed'', ''duplicate_admit'']"

definition factOf :: "uuid \<Rightarrow> string \<Rightarrow> time \<Rightarrow> int \<Rightarrow> bool \<Rightarrow> AdmissionFact" where
  "factOf occ ty at n undirected =
     (if ty = ''redeemed'' \<or> ty = ''duplicate_admit''
      then \<lparr>afOccurrenceID = occ, afType = ''entry'', afOccurredAt = at, afSequence = n, afUndirected = True\<rparr>
      else \<lparr>afOccurrenceID = occ, afType = ty, afOccurredAt = at, afSequence = n, afUndirected = undirected\<rparr>)"

definition trailFact :: "AccessState \<Rightarrow> EventRow \<Rightarrow> AdmissionFact" where
  "trailFact st e =
     factOf (evID e) (evType e) (evOccurredAt e) (case integrityOf st e of None \<Rightarrow> 0 | Some i \<Rightarrow> inSequence i) False"

definition quarantineFact :: "QuarantineRow \<Rightarrow> AdmissionFact" where
  "quarantineFact q =
     factOf (case quOccurrenceID q of Some u \<Rightarrow> u | None \<Rightarrow> quID q) (quEventType q)
       (case quAdmittedAt q of Some a \<Rightarrow> a | None \<Rightarrow> (case quOccurredAt q of Some u \<Rightarrow> u | None \<Rightarrow> 0)) 0
       (quAdmittedAt q \<noteq> None)"

definition admissionFacts :: "AccessState \<Rightarrow> uuid \<Rightarrow> AdmissionFact list" where
  "admissionFacts st t =
     map (trailFact st) (filter (\<lambda>e. evTicketID e = t \<and> evType e \<in> set admissionTypes) (asEvents st)) @
     map quarantineFact (filter (\<lambda>q. quTicketID q = t \<and>
         (quAdmittedAt q \<noteq> None \<or> quEventType q \<in> set [''entry'', ''exit'', ''redeemed''])) (asQuarantine st))"

definition ruleText :: "PolicyConflictRule \<Rightarrow> string" where
  "ruleText r = (case r of ConflictEntryLimitReached \<Rightarrow> ''entry_limit_reached'' | ConflictExitRequired \<Rightarrow> ''exit_required'')"

definition policyConflictID :: "AccessEnv \<Rightarrow> uuid \<Rightarrow> PolicyConflict \<Rightarrow> uuid" where
  "policyConflictID env t c =
     aeSHA1 env (''platform.access.admission-policy-conflict.alarm:'' @ uuid_String t @ '':'' @ ruleText (fst c) @ '':'' @
       uuid_String (snd c))"

text \<open>An alarm enters the outbox with the decision that caused it; its identifier is the key.\<close>

definition oweRow :: "uuid \<Rightarrow> AccessClock \<Rightarrow> AlarmData \<Rightarrow> AccessState \<Rightarrow> access_error + AccessState" where
  "oweRow alarmID c d st =
     (if list_ex (\<lambda>a. alEventID a = alarmID) (asAlarms st) then Inl ErrAccessDatabase
      else Inr (st\<lparr>asAlarms := asAlarms st @
             [\<lparr>alEventID = alarmID, alOccurredAt = truncateMicro (clAlarm c (length (asAlarms st))), alData = d\<rparr>]\<rparr>))"

definition isConflict :: "uuid \<Rightarrow> PolicyConflict \<Rightarrow> ConflictRow \<Rightarrow> bool" where
  "isConflict t c r \<longleftrightarrow> cfTicketID r = t \<and> (cfRule r, cfOccurrenceID r) = c"

definition storeConflict :: "ConflictRow \<Rightarrow> AccessState \<Rightarrow> AccessState" where
  "storeConflict r st =
     (if list_ex (isConflict (cfTicketID r) (cfRule r, cfOccurrenceID r)) (asConflicts st)
      then st\<lparr>asConflicts := map (\<lambda>x. if isConflict (cfTicketID r) (cfRule r, cfOccurrenceID r) x
             then x\<lparr>cfStatus := cfStatus r, cfVersion := cfVersion r\<rparr> else x) (asConflicts st)\<rparr>
      else st\<lparr>asConflicts := asConflicts st @ [r]\<rparr>)"

definition transitionConflict ::
  "AccessEnv \<Rightarrow> AccessClock \<Rightarrow> uuid \<Rightarrow> TicketIdentity \<Rightarrow> (PolicyConflict \<times> int) list \<Rightarrow> string \<Rightarrow> PolicyConflict \<Rightarrow>
   AccessState \<Rightarrow> access_error + AccessState" where
  "transitionConflict env c t who versions status x st =
     (let version = (case map_of versions x of None \<Rightarrow> 0 | Some v \<Rightarrow> v) + 1;
          st1 = storeConflict \<lparr>cfTicketID = t, cfOrganizerID = tiOrganizerID who, cfSlotID = tiSlotID who, cfRule = fst x,
                  cfOccurrenceID = snd x, cfStatus = status, cfVersion = version\<rparr> st in
      oweRow (aeSHA1 env (uuid_String (policyConflictID env t x) @ '':'' @ formatInt version)) c
        (PolicyConflictAlarm (policyConflictID env t x) (tiOrganizerID who) t (tiSlotID who) (fst x) (snd x) status version)
        st1)"

definition conflictRows :: "AccessState \<Rightarrow> uuid \<Rightarrow> ConflictRow list" where
  "conflictRows st t = filter (\<lambda>r. cfTicketID r = t) (asConflicts st)"

definition conflictStatus :: "AccessState \<Rightarrow> uuid \<Rightarrow> (PolicyConflict \<times> string) list" where
  "conflictStatus st t = map (\<lambda>r. ((cfRule r, cfOccurrenceID r), cfStatus r)) (conflictRows st t)"

definition conflictVersions :: "AccessState \<Rightarrow> uuid \<Rightarrow> (PolicyConflict \<times> int) list" where
  "conflictVersions st t = map (\<lambda>r. ((cfRule r, cfOccurrenceID r), cfVersion r)) (conflictRows st t)"

definition evaluatePolicyAlarms ::
  "AccessEnv \<Rightarrow> AccessClock \<Rightarrow> uuid \<Rightarrow> TicketIdentity \<Rightarrow> ReEntryPolicy \<Rightarrow> AccessState \<Rightarrow> access_error + AccessState" where
  "evaluatePolicyAlarms env c t who p st =
     (let derived = DerivePolicyConflicts p (admissionFacts st t); versions = conflictVersions st t;
          (raises, withdraws) = DiffPolicyConflicts (conflictStatus st t) derived in
      bindE (foldE (transitionConflict env c t who versions ''raised'') raises st) (\<lambda>st1.
        foldE (transitionConflict env c t who versions ''withdrawn'') withdraws st1))"

lemma evaluatePolicyAlarms_Inr_iff:
  "evaluatePolicyAlarms env c t who p st = Inr st' \<longleftrightarrow>
   (\<exists>st1. foldE (transitionConflict env c t who (conflictVersions st t) ''raised'')
        (fst (DiffPolicyConflicts (conflictStatus st t) (DerivePolicyConflicts p (admissionFacts st t)))) st = Inr st1 \<and>
      foldE (transitionConflict env c t who (conflictVersions st t) ''withdrawn'')
        (snd (DiffPolicyConflicts (conflictStatus st t) (DerivePolicyConflicts p (admissionFacts st t)))) st1 = Inr st')"
  by (cases "DiffPolicyConflicts (conflictStatus st t) (DerivePolicyConflicts p (admissionFacts st t))")
    (simp add: evaluatePolicyAlarms_def Let_def bindE_Inr_iff)

end
