(* ===== verification/Access_Gate.thy ===== *)
theory Access_Gate
  imports Access_Policy
begin

text \<open>
  The gate: a live scan (\<open>scan.go\<close>, \<open>redeemSingle\<close> of \<open>postgres.go\<close>), the degraded posture on a
  chain that does not verify (\<open>lifecycle.go\<close>), the admission union (\<open>admission.go\<close>), the
  reconciliation of offline occurrences and local refusals (\<open>reconcile.go\<close>) and the recording
  of an admission (\<open>postgres.go\<close>). The bounded acquisition of a connection before a live scan
  (\<open>scanner_availability.go\<close>) is outside the model.
\<close>

section \<open>Occurrence identifiers\<close>

definition uuidVersion :: "uuid \<Rightarrow> nat" where
  "uuidVersion u = unat u div 2 ^ 76 mod 16"

definition uuidRFC4122 :: "uuid \<Rightarrow> bool" where
  "uuidRFC4122 u \<longleftrightarrow> unat u div 2 ^ 62 mod 4 = 2"

definition isUUIDv4 :: "uuid \<Rightarrow> bool" where
  "isUUIDv4 u \<longleftrightarrow> uuidVersion u = 4 \<and> uuidRFC4122 u"

record RedeemInput =
  riTicketID :: uuid
  riOrderID :: uuid
  riOrganizerID :: uuid
  riSlotID :: uuid
  riOccurrenceID :: uuid
  riOccurredAt :: time

record RedeemResult =
  rrAccepted :: bool
  rrDecision :: Decision
  rrOccurredAt :: time
  rrReplayed :: bool

definition denied :: "Decision \<Rightarrow> time \<Rightarrow> RedeemResult" where
  "denied d at = \<lparr>rrAccepted = False, rrDecision = d, rrOccurredAt = at, rrReplayed = False\<rparr>"

definition admitted :: "Decision \<Rightarrow> time \<Rightarrow> bool \<Rightarrow> RedeemResult" where
  "admitted d at replayed = \<lparr>rrAccepted = True, rrDecision = d, rrOccurredAt = at, rrReplayed = replayed\<rparr>"

section \<open>What a ticket's record says\<close>

definition refundThatVoided :: "AccessState \<Rightarrow> uuid \<Rightarrow> uuid" where
  "refundThatVoided st t =
     (case find (\<lambda>e. evTicketID e = t \<and> evType e = ''refunded'') (asEvents st) of None \<Rightarrow> uuid_Nil | Some e \<Rightarrow> evID e)"

definition ticketRefunded :: "AccessState \<Rightarrow> uuid \<Rightarrow> bool" where
  "ticketRefunded st t \<longleftrightarrow> refundThatVoided st t \<noteq> uuid_Nil"

definition ticketExchanged :: "AccessState \<Rightarrow> uuid \<Rightarrow> bool" where
  "ticketExchanged st t \<longleftrightarrow> list_ex (\<lambda>e. evTicketID e = t \<and> evType e = ''exchanged'') (asEvents st)"

definition ticketCommerciallyVoid :: "AccessState \<Rightarrow> uuid \<Rightarrow> bool" where
  "ticketCommerciallyVoid st t \<longleftrightarrow>
     list_ex (\<lambda>e. evTicketID e = t \<and> evType e \<in> set [''refunded'', ''exchanged'']) (asEvents st)"

definition admittingEventTypes :: "string list" where
  "admittingEventTypes = [''redeemed'', ''entry'']"

definition ticketAdmittedUnion :: "AccessState \<Rightarrow> uuid \<Rightarrow> bool" where
  "ticketAdmittedUnion st t \<longleftrightarrow>
     list_ex (\<lambda>e. evTicketID e = t \<and> evType e \<in> set admittingEventTypes) (asEvents st) \<or>
     list_ex (\<lambda>q. quTicketID q = t \<and> (quAdmittedAt q \<noteq> None \<or> quEventType q \<in> set admittingEventTypes)) (asQuarantine st)"

definition degradedAdmission :: "AccessState \<Rightarrow> uuid \<Rightarrow> QuarantineRow option" where
  "degradedAdmission st t = find (\<lambda>q. quTicketID q = t \<and> quAdmittedAt q \<noteq> None) (asQuarantine st)"

definition refusedOccurrence :: "AccessState \<Rightarrow> uuid \<Rightarrow> bool" where
  "refusedOccurrence st occ \<longleftrightarrow> list_ex (\<lambda>r. rfOccurrenceID r = occ) (asRefusals st)"

text \<open>
  An occurrence against the whole record. \<open>replayByOccurrence\<close> serves the single and the
  degraded path, \<open>replayAdmissionOccurrence\<close> the pass path; they differ in whether a
  \<open>duplicate_admit\<close> replays as an entry.
\<close>

definition singleMatches :: "string \<Rightarrow> string \<Rightarrow> bool" where
  "singleMatches direction stored \<longleftrightarrow>
     (if direction = ''exit'' then stored = ''exit'' else stored = ''entry'' \<or> stored = ''redeemed'')"

definition passMatches :: "string \<Rightarrow> string \<Rightarrow> bool" where
  "passMatches direction stored \<longleftrightarrow>
     (if direction = ''exit'' then stored = ''exit''
      else stored = ''entry'' \<or> stored = ''redeemed'' \<or> stored = ''duplicate_admit'')"

definition quarantinedOccurrence :: "AccessState \<Rightarrow> uuid \<Rightarrow> QuarantineRow option" where
  "quarantinedOccurrence st occ = find (\<lambda>q. quOccurrenceID q = Some occ) (asQuarantine st)"

definition timeOf :: "time option \<Rightarrow> time" where
  "timeOf x = (case x of None \<Rightarrow> 0 | Some t \<Rightarrow> t)"

definition replayOf ::
  "(string \<Rightarrow> bool) \<Rightarrow> AccessState \<Rightarrow> uuid \<Rightarrow> uuid \<Rightarrow> access_error + RedeemResult option" where
  "replayOf matches st t occ =
     (case find (\<lambda>e. evID e = occ) (asEvents st) of
        Some e \<Rightarrow>
          if evTicketID e \<noteq> t \<or> \<not> matches (evType e) then Inl ErrOccurrenceCollision
          else Inr (Some (admitted DecisionAccepted (evOccurredAt e) True))
      | None \<Rightarrow>
          (case quarantinedOccurrence st occ of
             Some q \<Rightarrow>
               if quTicketID q \<noteq> t then Inl ErrOccurrenceCollision
               else (case quAdmittedAt q of
                   Some at \<Rightarrow> Inr (Some (admitted DecisionAdmittedDegraded at True))
                 | None \<Rightarrow>
                     if \<not> matches (quEventType q) then Inl ErrOccurrenceCollision
                     else Inr (Some (admitted DecisionAccepted (timeOf (quOccurredAt q)) True)))
           | None \<Rightarrow> if refusedOccurrence st occ then Inl ErrOccurrenceCollision else Inr None))"

definition replayByOccurrence :: "AccessState \<Rightarrow> uuid \<Rightarrow> uuid \<Rightarrow> string \<Rightarrow> access_error + RedeemResult option" where
  "replayByOccurrence st t occ direction = replayOf (singleMatches direction) st t occ"

definition replayAdmissionOccurrence ::
  "AccessState \<Rightarrow> uuid \<Rightarrow> uuid \<Rightarrow> string \<Rightarrow> access_error + RedeemResult option" where
  "replayAdmissionOccurrence st t occ direction = replayOf (passMatches direction) st t occ"

definition reconcileReplay :: "AccessState \<Rightarrow> uuid \<Rightarrow> uuid \<Rightarrow> string \<Rightarrow> access_error + time option" where
  "reconcileReplay st t occ direction =
     bindE (replayOf (passMatches direction) st t occ) (\<lambda>r. Inr (map_option rrOccurredAt r))"

section \<open>Alarms and modes\<close>

definition organizerMode :: "AccessState \<Rightarrow> uuid \<Rightarrow> Mode" where
  "organizerMode st org =
     (case find (\<lambda>m. moOrganizerID m = org) (asModes st) of None \<Rightarrow> ModeNormal | Some m \<Rightarrow> moMode m)"

definition oweAlarm ::
  "AccessClock \<Rightarrow> uuid \<Rightarrow> uuid \<Rightarrow> AlarmReason \<Rightarrow> Decision \<Rightarrow> Mode \<Rightarrow> AccessState \<Rightarrow> access_error + AccessState" where
  "oweAlarm c org t reason disposition mode st =
     oweRow (clFresh c (length (asAlarms st))) c (IntegrityAlarm org t reason disposition mode) st"

definition oweConflictAlarm ::
  "AccessClock \<Rightarrow> uuid \<Rightarrow> uuid \<Rightarrow> uuid \<Rightarrow> time \<Rightarrow> bool \<Rightarrow> AccessState \<Rightarrow> access_error + AccessState" where
  "oweConflictAlarm c org t occ at skew st =
     oweRow (clFresh c (length (asAlarms st))) c (AdmissionConflictAlarm org t occ at skew) st"

definition setModeRow :: "uuid \<Rightarrow> Mode \<Rightarrow> time \<Rightarrow> string \<Rightarrow> AccessState \<Rightarrow> AccessState" where
  "setModeRow org mode at by_whom st =
     (let r = \<lparr>moOrganizerID = org, moMode = mode, moSetAt = at, moSetBy = by_whom\<rparr> in
      if list_ex (\<lambda>m. moOrganizerID m = org) (asModes st)
      then st\<lparr>asModes := map (\<lambda>m. if moOrganizerID m = org then r else m) (asModes st)\<rparr>
      else st\<lparr>asModes := asModes st @ [r]\<rparr>)"

definition SetMode :: "AccessClock \<Rightarrow> uuid \<Rightarrow> Mode \<Rightarrow> string \<Rightarrow> AccessState \<Rightarrow> access_error + AccessState" where
  "SetMode c org mode by_whom st =
     (if by_whom = '''' then Inl ErrNoOperator else Inr (setModeRow org mode (accessNow c 0) by_whom st))"

section \<open>The degraded posture\<close>

text \<open>The insert into the quarantine table with its two unique indexes and its time check.\<close>

definition insertQuarantine :: "AccessClock \<Rightarrow> QuarantineRow \<Rightarrow> AccessState \<Rightarrow> access_error + AccessState" where
  "insertQuarantine c q st =
     (let q' = q\<lparr>quID := clQuarantine c (length (asQuarantine st))\<rparr> in
      if quAdmittedAt q = None \<and> quOccurredAt q = None \<or> quEventType q \<notin> set [''redeemed'', ''entry'', ''exit''] \<or>
         list_ex (\<lambda>r. quID r = quID q' \<or>
            quAdmittedAt q \<noteq> None \<and> quAdmittedAt r \<noteq> None \<and> quTicketID r = quTicketID q \<or>
            quOccurrenceID q \<noteq> None \<and> quOccurrenceID r = quOccurrenceID q) (asQuarantine st)
      then Inl ErrAccessDatabase
      else Inr (st\<lparr>asQuarantine := asQuarantine st @ [q']\<rparr>))"

definition recentAdmissions :: "AccessState \<Rightarrow> uuid \<Rightarrow> time \<Rightarrow> int" where
  "recentAdmissions st org since =
     int (length (filter (\<lambda>q. quOrganizerID q = org \<and> (case quAdmittedAt q of None \<Rightarrow> False | Some a \<Rightarrow> a > since))
       (asQuarantine st)))"

definition flipMode :: "uuid \<Rightarrow> time \<Rightarrow> AccessState \<Rightarrow> AccessState" where
  "flipMode org now st =
     (if organizerMode st org = ModeNormal then setModeRow org ModeOperatorDeny now ''system'' st else st)"

definition degradedRow :: "uuid \<Rightarrow> uuid \<Rightarrow> verifier_error \<Rightarrow> time \<Rightarrow> uuid \<Rightarrow> QuarantineRow" where
  "degradedRow t org cause now occ =
     \<lparr>quID = uuid_Nil, quTicketID = t, quOrganizerID = org, quReason = cause, quReasonCode = Some (alarmReasonFor cause),
      quAdmittedAt = Some now, quOccurrenceID = (if occ = uuid_Nil then None else Some occ), quOccurredAt = None,
      quEventType = ''redeemed''\<rparr>"

definition degradedScan ::
  "AccessEnv \<Rightarrow> AccessClock \<Rightarrow> uuid \<Rightarrow> TicketIdentity \<Rightarrow> uuid \<Rightarrow> string \<Rightarrow> verifier_error \<Rightarrow> AccessState \<Rightarrow>
   access_error + (RedeemResult \<times> AccessState)" where
  "degradedScan env c t who occ direction cause st =
     (let org = tiOrganizerID who; reason = alarmReasonFor cause; now = accessNow c 0 in
      bindE (if occ = uuid_Nil then Inr None else replayByOccurrence st t occ direction) (\<lambda>replayed.
        case replayed of
          Some r \<Rightarrow> Inr (r, st)
        | None \<Rightarrow>
            let mode = organizerMode st org in
            (case degradedAdmission st t of
               Some q \<Rightarrow>
                 bindE (oweAlarm c org t reason DecisionIntegrityQuarantined mode st) (\<lambda>st1.
                   Inr (denied DecisionIntegrityQuarantined (timeOf (quAdmittedAt q)), st1))
             | None \<Rightarrow>
                 if mode = ModeOperatorDeny then
                   bindE (oweAlarm c org t reason DecisionIntegrityOperatorControlled mode st) (\<lambda>st1.
                     Inr (denied DecisionIntegrityOperatorControlled now, st1))
                 else
                   bindE (insertQuarantine c (degradedRow t org cause now occ) st) (\<lambda>st1.
                     let st2 = (if recentAdmissions st1 org (now - snd (accessPolicy env)) \<ge> fst (accessPolicy env)
                                then flipMode org now st1 else st1) in
                     bindE (oweAlarm c org t reason DecisionAdmittedDegraded (organizerMode st2 org) st2) (\<lambda>st3.
                       Inr (admitted DecisionAdmittedDegraded now False, st3))))))"

section \<open>A live scan\<close>

text \<open>The lock and the credential check of every path.\<close>

definition credentialOf ::
  "AccessState \<Rightarrow> uuid \<Rightarrow> uuid \<Rightarrow> uuid \<Rightarrow> uuid \<Rightarrow> access_error + TicketIdentity" where
  "credentialOf st t order org slot =
     (case ticketRow t st of
        None \<Rightarrow> Inl ErrTicketCredential
      | Some r \<Rightarrow>
          if tkOrderID r \<noteq> order \<or> tkOrganizerID r \<noteq> org \<or> tkSlotID r \<noteq> slot then Inl ErrTicketCredential
          else Inr (identityOf r))"

definition quarantineReason :: "QuarantineRow \<Rightarrow> AlarmReason" where
  "quarantineReason q = (case quReasonCode q of None \<Rightarrow> AlarmReasonLegacyQuarantine | Some r \<Rightarrow> r)"

definition denyQuarantined ::
  "AccessClock \<Rightarrow> uuid \<Rightarrow> TicketIdentity \<Rightarrow> QuarantineRow \<Rightarrow> AccessState \<Rightarrow>
   access_error + (RedeemResult \<times> AccessState)" where
  "denyQuarantined c t who q st =
     bindE (oweAlarm c (tiOrganizerID who) t (quarantineReason q) DecisionIntegrityQuarantined
         (organizerMode st (tiOrganizerID who)) st)
       (\<lambda>st1. Inr (denied DecisionIntegrityQuarantined (timeOf (quAdmittedAt q)), st1))"

definition takenAs :: "access_error \<Rightarrow> access_error + 'a \<Rightarrow> access_error + 'a" where
  "takenAs e r = (case r of Inl ErrEventIDTaken \<Rightarrow> Inl e | other \<Rightarrow> other)"

definition redeemVerified ::
  "AccessEnv \<Rightarrow> AccessClock \<Rightarrow> RedeemInput \<Rightarrow> TicketIdentity \<Rightarrow> AccessState \<Rightarrow>
   access_error + (RedeemResult \<times> AccessState)" where
  "redeemVerified env c r who st =
     (let t = riTicketID r; occ = riOccurrenceID r in
      bindE (if occ = uuid_Nil then Inr None else replayByOccurrence st t occ ''entry'') (\<lambda>replayed.
        case replayed of
          Some answer \<Rightarrow> Inr (answer, st)
        | None \<Rightarrow>
            (case degradedAdmission st t of
               Some q \<Rightarrow> denyQuarantined c t who q st
             | None \<Rightarrow>
                 (case find (\<lambda>e. evTicketID e = t \<and> evType e = ''redeemed'') (asEvents st) of
                    Some e \<Rightarrow> Inr (denied DecisionAlreadyRedeemed (evOccurredAt e), st)
                  | None \<Rightarrow>
                      bindE (takenAs (if occ = uuid_Nil then ErrEventIDTaken else ErrOccurrenceCollision)
                          (appendLifecycle env c
                            (eventFor t who
                              (if occ = uuid_Nil then aeSHA1 env (uuid_String t @ '':redeemed'') else occ) ''redeemed''
                              (if occ = uuid_Nil then 0 else riOccurredAt r)) st))
                        (\<lambda>(at, st1). Inr (admitted DecisionAccepted at False, st1))))))"

definition redeemSingle ::
  "AccessEnv \<Rightarrow> AccessClock \<Rightarrow> RedeemInput \<Rightarrow> AccessState \<Rightarrow> access_error + (RedeemResult \<times> AccessState)" where
  "redeemSingle env c r st =
     (let t = riTicketID r in
      if riOccurrenceID r \<noteq> uuid_Nil \<and> \<not> isUUIDv4 (riOccurrenceID r) then Inl ErrNotUUIDv4
      else if riOccurrenceID r \<noteq> uuid_Nil \<and> IsZero (riOccurredAt r) then Inl ErrNoClaimedTime
      else bindE (credentialOf st t (riOrderID r) (riOrganizerID r) (riSlotID r)) (\<lambda>who.
        if ticketRefunded st t then Inr (denied DecisionRefunded (accessNow c 0), st)
        else if ticketExchanged st t then Inr (denied DecisionExchanged (accessNow c 0), st)
        else (case verifyTicketChain env st t who of
            Some cause \<Rightarrow> degradedScan env c t who (riOccurrenceID r) ''entry'' cause st
          | None \<Rightarrow> redeemVerified env c r who st)))"

definition exitUnverified ::
  "AccessClock \<Rightarrow> uuid \<Rightarrow> TicketIdentity \<Rightarrow> uuid \<Rightarrow> verifier_error \<Rightarrow> AccessState \<Rightarrow>
   access_error + (RedeemResult \<times> AccessState)" where
  "exitUnverified c t who occ cause st =
     bindE (replayAdmissionOccurrence st t occ ''exit'') (\<lambda>replayed.
       case replayed of
         Some r \<Rightarrow> Inr (r, st)
       | None \<Rightarrow>
           bindE (oweAlarm c (tiOrganizerID who) t (alarmReasonFor cause) DecisionExitUnverified
               (organizerMode st (tiOrganizerID who)) st)
             (\<lambda>st1. Inr (denied DecisionExitUnverified (accessNow c 0), st1)))"

definition admitVerified ::
  "AccessEnv \<Rightarrow> AccessClock \<Rightarrow> RedeemInput \<Rightarrow> string \<Rightarrow> ReEntryPolicy \<Rightarrow> TicketIdentity \<Rightarrow> AccessState \<Rightarrow>
   access_error + (RedeemResult \<times> AccessState)" where
  "admitVerified env c r direction p who st =
     (let t = riTicketID r; occ = riOccurrenceID r in
      bindE (replayAdmissionOccurrence st t occ direction) (\<lambda>replayed.
        case replayed of
          Some answer \<Rightarrow> Inr (answer, st)
        | None \<Rightarrow>
            (case degradedAdmission st t of
               Some q \<Rightarrow> denyQuarantined c t who q st
             | None \<Rightarrow>
                 let verdict = EvaluateLiveAdmission p (admissionFacts st t) direction in
                 if verdict \<noteq> DecisionAccepted then Inr (denied verdict (accessNow c 0), st)
                 else
                   bindE (takenAs ErrOccurrenceCollision
                       (appendLifecycle env c (eventFor t who occ direction (riOccurredAt r)) st)) (\<lambda>(at, st1).
                   bindE (evaluatePolicyAlarms env c t who p st1) (\<lambda>st2.
                     Inr (admitted DecisionAccepted at False, st2))))))"

definition admitPass ::
  "AccessEnv \<Rightarrow> AccessClock \<Rightarrow> RedeemInput \<Rightarrow> string \<Rightarrow> ReEntryPolicy \<Rightarrow> AccessState \<Rightarrow>
   access_error + (RedeemResult \<times> AccessState)" where
  "admitPass env c r direction p st =
     (let t = riTicketID r; occ = riOccurrenceID r in
      if occ = uuid_Nil then Inr (denied DecisionOccurrenceRequired (accessNow c 0), st)
      else if \<not> isUUIDv4 occ then Inl ErrNotUUIDv4
      else if IsZero (riOccurredAt r) then Inl ErrNoClaimedTime
      else bindE (credentialOf st t (riOrderID r) (riOrganizerID r) (riSlotID r)) (\<lambda>who.
        if ticketRefunded st t then Inr (denied DecisionRefunded (accessNow c 0), st)
        else if ticketExchanged st t then Inr (denied DecisionExchanged (accessNow c 0), st)
        else (case verifyTicketChain env st t who of
            Some cause \<Rightarrow>
              if direction = ''exit'' then exitUnverified c t who occ cause st
              else degradedScan env c t who occ direction cause st
          | None \<Rightarrow> admitVerified env c r direction p who st)))"

definition Scan ::
  "AccessEnv \<Rightarrow> AccessClock \<Rightarrow> RedeemInput \<Rightarrow> string \<Rightarrow> AccessState \<Rightarrow> access_error + (RedeemResult \<times> AccessState)" where
  "Scan env c r dir st =
     (let direction = (if dir = '''' then ''entry'' else dir) in
      if direction \<noteq> ''entry'' \<and> direction \<noteq> ''exit'' then Inl ErrDirection
      else
        let p = slotPolicy st (riSlotID r) in
        if \<not> IsPass p then
          if direction = ''exit'' then Inr (denied DecisionExitNotApplicable (accessNow c 0), st)
          else redeemSingle env c r st
        else admitPass env c r direction p st)"

definition Redeem ::
  "AccessEnv \<Rightarrow> AccessClock \<Rightarrow> RedeemInput \<Rightarrow> AccessState \<Rightarrow> access_error + (RedeemResult \<times> AccessState)" where
  "Redeem env c r st = Scan env c r ''entry'' st"

end
