(* ===== verification/Access_Reconcile.thy ===== *)
theory Access_Reconcile
  imports Access_Gate
begin

text \<open>
  Offline occurrences and local refusals (\<open>reconcile.go\<close>) and the recording of one admission
  (\<open>RecordAdmission\<close> of \<open>postgres.go\<close>).
\<close>

section \<open>Reconciliation\<close>

record ReconcileOccurrence =
  roTicketID :: uuid
  roOrderID :: uuid
  roOrganizerID :: uuid
  roSlotID :: uuid
  roOccurrenceID :: uuid
  roOccurredAt :: time
  roType :: string

datatype ReconcileOutcome = ReconcileRecorded | ReconcileConflict | ReconcileSynced

record ReconcileResult =
  reOccurrenceID :: uuid
  reOutcome :: ReconcileOutcome
  reOccurredAt :: time
  reSkewFlagged :: bool

definition AdmissionSkewBound :: int where
  "AdmissionSkewBound = 24 * 3600 * 1000000000"

definition skewed :: "AccessClock \<Rightarrow> time \<Rightarrow> bool" where
  "skewed c at \<longleftrightarrow> \<bar>at - accessNow c 0\<bar> > AdmissionSkewBound"

definition quarantineEventType :: "ReEntryPolicy \<Rightarrow> string \<Rightarrow> string" where
  "quarantineEventType p direction = (if IsPass p then direction else ''redeemed'')"

definition learnedRow ::
  "ReconcileOccurrence \<Rightarrow> uuid \<Rightarrow> verifier_error \<Rightarrow> string \<Rightarrow> QuarantineRow" where
  "learnedRow o' org cause ty =
     \<lparr>quID = uuid_Nil, quTicketID = roTicketID o', quOrganizerID = org, quReason = cause,
      quReasonCode = Some (alarmReasonFor cause), quAdmittedAt = None, quOccurrenceID = Some (roOccurrenceID o'),
      quOccurredAt = Some (truncateMicro (roOccurredAt o')), quEventType = ty\<rparr>"

definition reconciled :: "AccessClock \<Rightarrow> ReconcileOccurrence \<Rightarrow> ReconcileOutcome \<Rightarrow> time \<Rightarrow> ReconcileResult" where
  "reconciled c o' outcome at =
     \<lparr>reOccurrenceID = roOccurrenceID o', reOutcome = outcome, reOccurredAt = at, reSkewFlagged = skewed c (roOccurredAt o')\<rparr>"

definition recordQuarantined ::
  "AccessEnv \<Rightarrow> AccessClock \<Rightarrow> ReconcileOccurrence \<Rightarrow> string \<Rightarrow> ReEntryPolicy \<Rightarrow> TicketIdentity \<Rightarrow> verifier_error \<Rightarrow>
   AccessState \<Rightarrow> access_error + (ReconcileResult \<times> AccessState)" where
  "recordQuarantined env c o' direction p who cause st =
     bindE (insertQuarantine c (learnedRow o' (tiOrganizerID who) cause (quarantineEventType p direction)) st) (\<lambda>st1.
     bindE (if IsPass p then evaluatePolicyAlarms env c (roTicketID o') who p st1 else Inr st1) (\<lambda>st2.
       Inr (reconciled c o' ReconcileRecorded (roOccurredAt o'), st2)))"

definition recordEvent ::
  "AccessEnv \<Rightarrow> AccessClock \<Rightarrow> ReconcileOccurrence \<Rightarrow> TicketIdentity \<Rightarrow> string \<Rightarrow> AccessState \<Rightarrow>
   access_error + (time \<times> AccessState)" where
  "recordEvent env c o' who ty st =
     takenAs ErrOccurrenceCollision
       (appendLifecycle env c (eventFor (roTicketID o') who (roOccurrenceID o') ty (roOccurredAt o')) st)"

definition owedConflict ::
  "AccessClock \<Rightarrow> ReconcileOccurrence \<Rightarrow> TicketIdentity \<Rightarrow> AccessState \<Rightarrow> access_error + AccessState" where
  "owedConflict c o' who st =
     oweConflictAlarm c (tiOrganizerID who) (roTicketID o') (roOccurrenceID o') (roOccurredAt o') (skewed c (roOccurredAt o')) st"

definition recordPass ::
  "AccessEnv \<Rightarrow> AccessClock \<Rightarrow> ReconcileOccurrence \<Rightarrow> string \<Rightarrow> ReEntryPolicy \<Rightarrow> TicketIdentity \<Rightarrow> AccessState \<Rightarrow>
   access_error + (ReconcileResult \<times> AccessState)" where
  "recordPass env c o' direction p who st =
     bindE (recordEvent env c o' who direction st) (\<lambda>(at, st1).
     bindE (evaluatePolicyAlarms env c (roTicketID o') who p st1) (\<lambda>st2.
       Inr (reconciled c o' ReconcileRecorded at, st2)))"

definition recordSingle ::
  "AccessEnv \<Rightarrow> AccessClock \<Rightarrow> ReconcileOccurrence \<Rightarrow> TicketIdentity \<Rightarrow> AccessState \<Rightarrow>
   access_error + (ReconcileResult \<times> AccessState)" where
  "recordSingle env c o' who st =
     (let t = roTicketID o' in
      if \<not> ticketAdmittedUnion st t then
        bindE (recordEvent env c o' who ''redeemed'' st) (\<lambda>(at, st1).
        bindE (if ticketRefunded st1 t \<or> ticketExchanged st1 t then owedConflict c o' who st1 else Inr st1) (\<lambda>st2.
          Inr (reconciled c o' ReconcileRecorded at, st2)))
      else
        bindE (recordEvent env c o' who ''duplicate_admit'' st) (\<lambda>(at, st1).
        bindE (owedConflict c o' who st1) (\<lambda>st2.
          Inr (reconciled c o' ReconcileConflict at, st2))))"

definition ReconcileAdmission ::
  "AccessEnv \<Rightarrow> AccessClock \<Rightarrow> ReconcileOccurrence \<Rightarrow> AccessState \<Rightarrow> access_error + (ReconcileResult \<times> AccessState)" where
  "ReconcileAdmission env c o' st =
     (let t = roTicketID o'; occ = roOccurrenceID o'; direction = (if roType o' = '''' then ''entry'' else roType o') in
      if occ = uuid_Nil \<or> \<not> isUUIDv4 occ then Inl ErrNotUUIDv4
      else if IsZero (roOccurredAt o') then Inl ErrNoClaimedTime
      else if direction \<noteq> ''entry'' \<and> direction \<noteq> ''exit'' then Inl ErrDirection
      else bindE (credentialOf st t (roOrderID o') (roOrganizerID o') (roSlotID o')) (\<lambda>who.
        let p = slotPolicy st (tiSlotID who) in
        if \<not> IsPass p \<and> direction = ''exit'' then Inl ErrExitNotApplicable
        else bindE (reconcileReplay st t occ direction) (\<lambda>synced.
          case synced of
            Some at \<Rightarrow> Inr (reconciled c o' ReconcileSynced at, st)
          | None \<Rightarrow>
              (case verifyTicketChain env st t who of
                 Some cause \<Rightarrow> recordQuarantined env c o' direction p who cause st
               | None \<Rightarrow> if IsPass p then recordPass env c o' direction p who st else recordSingle env c o' who st))))"

section \<open>Local refusals\<close>

definition RecordRevocationRefusal ::
  "ReconcileOccurrence \<Rightarrow> string \<Rightarrow> AccessState \<Rightarrow> access_error + (ReconcileResult \<times> AccessState)" where
  "RecordRevocationRefusal o' decision st =
     (let t = roTicketID o'; occ = roOccurrenceID o'; at = roOccurredAt o'; org = roOrganizerID o' in
      if decision \<noteq> ''revocation_refused'' \<or> occ = uuid_Nil \<or> \<not> isUUIDv4 occ \<or> IsZero at then Inl ErrOccurrenceCollision
      else bindE (credentialOf st t (roOrderID o') org (roSlotID o')) (\<lambda>who.
        case find (\<lambda>r. rfOccurrenceID r = occ) (asRefusals st) of
          Some r \<Rightarrow>
            if rfTicketID r \<noteq> t \<or> rfOrganizerID r \<noteq> org \<or> rfOccurredAt r \<noteq> at \<or> rfDecision r \<noteq> decision
            then Inl ErrOccurrenceCollision
            else Inr (\<lparr>reOccurrenceID = occ, reOutcome = ReconcileSynced, reOccurredAt = rfOccurredAt r,
                   reSkewFlagged = False\<rparr>, st)
        | None \<Rightarrow>
            if list_ex (\<lambda>e. evID e = occ) (asEvents st) \<or> list_ex (\<lambda>q. quOccurrenceID q = Some occ) (asQuarantine st)
            then Inl ErrOccurrenceCollision
            else Inr (\<lparr>reOccurrenceID = occ, reOutcome = ReconcileRecorded, reOccurredAt = at, reSkewFlagged = False\<rparr>,
                   st\<lparr>asRefusals := asRefusals st @
                     [\<lparr>rfOccurrenceID = occ, rfTicketID = t, rfOrganizerID = org, rfOccurredAt = truncateMicro at,
                       rfDecision = decision\<rparr>]\<rparr>)))"

section \<open>Recording one admission\<close>

record LifecycleEvent =
  leID :: uuid
  leType :: string
  leSequence :: "int option"
  leOccurredAt :: time

definition lifecycleEvent :: "AccessState \<Rightarrow> EventRow \<Rightarrow> LifecycleEvent" where
  "lifecycleEvent st e =
     \<lparr>leID = evID e, leType = evType e, leSequence = map_option inSequence (integrityOf st e), leOccurredAt = evOccurredAt e\<rparr>"

definition repeatableTypes :: "string list" where
  "repeatableTypes = [''entry'', ''exit'', ''duplicate_admit'']"

definition RecordAdmission ::
  "AccessEnv \<Rightarrow> AccessClock \<Rightarrow> ReconcileOccurrence \<Rightarrow> AccessState \<Rightarrow> access_error + ((LifecycleEvent \<times> bool) \<times> AccessState)" where
  "RecordAdmission env c o' st =
     (let t = roTicketID o'; occ = roOccurrenceID o'; ty = roType o' in
      if ty \<notin> set repeatableTypes then Inl ErrDirection
      else if occ = uuid_Nil \<or> \<not> isUUIDv4 occ then Inl ErrNotUUIDv4
      else if IsZero (roOccurredAt o') then Inl ErrNoClaimedTime
      else bindE (credentialOf st t (roOrderID o') (roOrganizerID o') (roSlotID o')) (\<lambda>who.
        case find (\<lambda>e. evID e = occ) (asEvents st) of
          Some e \<Rightarrow>
            if evTicketID e \<noteq> t \<or> evType e \<noteq> ty then Inl ErrOccurrenceCollision
            else Inr ((lifecycleEvent st e, True), st)
        | None \<Rightarrow>
            if refusedOccurrence st occ then Inl ErrOccurrenceCollision
            else bindE (recordEvent env c o' who ty st) (\<lambda>(at, st1).
              (case find (\<lambda>i. inEventID i = occ) (asIntegrity st1) of
                 None \<Rightarrow> Inl ErrAccessDatabase
               | Some i \<Rightarrow> Inr ((\<lparr>leID = occ, leType = ty, leSequence = Some (inSequence i), leOccurredAt = at\<rparr>, False), st1)))))"

text \<open>\<open>History\<close>: the trail in the chain's order; rows outside the chain come last, by time and identifier.\<close>

definition History :: "AccessState \<Rightarrow> uuid \<Rightarrow> LifecycleEvent list" where
  "History st t =
     (let es = map (lifecycleEvent st) (filter (\<lambda>e. evTicketID e = t) (asEvents st)) in
      sort_key (\<lambda>e. case leSequence e of Some n \<Rightarrow> n | None \<Rightarrow> 0) (filter (\<lambda>e. leSequence e \<noteq> None) es) @
      sort_key (\<lambda>e. (leOccurredAt e, leID e)) (filter (\<lambda>e. leSequence e = None) es))"

end
