(* ===== verification/Access_Voiding.thy ===== *)
theory Access_Voiding
  imports Access_Reconcile
begin

text \<open>
  What ends a ticket's life and what reads it back: refunds (\<open>refunds.go\<close>), exchanges
  (\<open>exchanges.go\<close>), the presentation verdict (\<open>validity.go\<close>), the feed of voided tickets
  (\<open>voided_feed.go\<close>), staff redelivery (\<open>redeliveries.go\<close>) and the admission summary of an
  order (\<open>admission.go\<close>).
\<close>

section \<open>Refunds\<close>

text \<open>The tickets of an order, locked in identifier order.\<close>

definition orderTickets :: "uuid \<Rightarrow> uuid \<Rightarrow> AccessState \<Rightarrow> uuid list" where
  "orderTickets order org st =
     sort (map tkID (filter (\<lambda>t. tkOrderID t = order \<and> tkOrganizerID t = org) (asTickets st)))"

record TicketRefundBatch =
  trRefundID :: uuid
  trOrderID :: uuid
  trTicketIDs :: "uuid list"
  trReplay :: bool

definition refundEventID :: "AccessEnv \<Rightarrow> uuid \<Rightarrow> uuid \<Rightarrow> uuid" where
  "refundEventID env refundID t = aeSHA1 env (''refunded:'' @ uuid_String refundID @ '':'' @ uuid_String t)"

text \<open>The loop that voids the tickets of one order under the identity of its first.\<close>

definition voidTicket ::
  "AccessEnv \<Rightarrow> AccessClock \<Rightarrow> TicketIdentity \<Rightarrow> string \<Rightarrow> (uuid \<Rightarrow> uuid) \<Rightarrow> uuid \<Rightarrow> AccessState \<Rightarrow> access_error + AccessState" where
  "voidTicket env c who ty eid t st =
     bindE (appendLifecycle env c (eventFor t who (eid t) ty 0) st) (\<lambda>(at, st1). Inr st1)"

definition boundBatch :: "uuid \<Rightarrow> uuid \<Rightarrow> AccessState \<Rightarrow> BatchRow option" where
  "boundBatch org refundID st = find (\<lambda>b. baOrganizerID b = org \<and> baRefundID b = refundID) (asBatches st)"

definition bindingAgrees :: "uuid \<Rightarrow> int \<Rightarrow> BatchRow option \<Rightarrow> bool" where
  "bindingAgrees order quantity b =
     (case b of None \<Rightarrow> True | Some r \<Rightarrow> baOrderID r = order \<and> baQuantity r = quantity)"

definition RefundOrderTickets ::
  "AccessEnv \<Rightarrow> AccessClock \<Rightarrow> uuid \<Rightarrow> uuid \<Rightarrow> uuid \<Rightarrow> int \<Rightarrow> AccessState \<Rightarrow>
   access_error + (TicketRefundBatch \<times> AccessState)" where
  "RefundOrderTickets env c org order refundID quantity st =
     (if quantity < 1 then Inl ErrQuantity
      else
        let ids = orderTickets order org st;
            mine = filter (\<lambda>t. refundThatVoided st t \<noteq> uuid_Nil \<and> refundThatVoided st t = refundEventID env refundID t) ids;
            free = filter (\<lambda>t. refundThatVoided st t = uuid_Nil) ids;
            selected = take (nat quantity) free in
        if \<not> bindingAgrees order quantity (boundBatch org refundID st) then Inl ErrRefundBatchConflict
        else if mine \<noteq> [] then
          (if int (length mine) \<noteq> quantity then Inl ErrRefundBatchConflict
           else Inr (\<lparr>trRefundID = refundID, trOrderID = order, trTicketIDs = mine, trReplay = True\<rparr>, st))
        else if int (length free) < quantity then Inl (ErrTicketsNotIssued (int (length free)))
        else if quantity > 50 then Inl ErrAccessDatabase
        else if boundBatch org refundID st \<noteq> None then Inl ErrRefundBatchConflict
        else
          let st1 = st\<lparr>asBatches := asBatches st @
                [\<lparr>baOrganizerID = org, baRefundID = refundID, baOrderID = order, baQuantity = quantity\<rparr>]\<rparr> in
          (case ticketRow (hd selected) st1 of
             None \<Rightarrow> Inl ErrAccessDatabase
           | Some r \<Rightarrow>
               bindE (foldE (voidTicket env c (identityOf r) ''refunded'' (refundEventID env refundID)) selected st1) (\<lambda>st2.
                 Inr (\<lparr>trRefundID = refundID, trOrderID = order, trTicketIDs = selected, trReplay = False\<rparr>, st2))))"

section \<open>Exchanges\<close>

definition exchangedEventID :: "AccessEnv \<Rightarrow> uuid \<Rightarrow> uuid \<Rightarrow> uuid" where
  "exchangedEventID env exchangeID t = aeSHA1 env (''exchanged:'' @ uuid_String exchangeID @ '':'' @ uuid_String t)"

record SwitchExchangeInput =
  swEventID :: uuid
  swExchangeID :: uuid
  swSourceOrderID :: uuid
  swOrganizerID :: uuid
  swTickets :: "TicketRow list"

fun switchRefused :: "AccessState \<Rightarrow> uuid list \<Rightarrow> access_error option" where
  "switchRefused st [] = None"
| "switchRefused st (t # ts) =
     (if ticketCommerciallyVoid st t then Some (ErrSourceTicketsAlreadyVoided t)
      else if ticketAdmittedUnion st t then Some (ErrSourceTicketsAlreadyAdmitted t)
      else switchRefused st ts)"

definition SwitchExchange ::
  "AccessEnv \<Rightarrow> AccessClock \<Rightarrow> SwitchExchangeInput \<Rightarrow> AccessState \<Rightarrow> access_error + AccessState" where
  "SwitchExchange env c x st =
     (if swEventID x \<in> set (asConsumed st) then Inr st
      else
        let st1 = st\<lparr>asConsumed := asConsumed st @ [swEventID x]\<rparr>;
            source = orderTickets (swSourceOrderID x) (swOrganizerID x) st1 in
        if source = [] \<or> length source < length (swTickets x)
        then Inl (ErrExchangeTicketsNotIssued (int (length source)) (int (length (swTickets x))))
        else (case switchRefused st1 source of
            Some e \<Rightarrow> Inl e
          | None \<Rightarrow>
              (case ticketRow (hd source) st1 of
                 None \<Rightarrow> Inl ErrAccessDatabase
               | Some r \<Rightarrow>
                   bindE (foldE (voidTicket env c (identityOf r) ''exchanged'' (exchangedEventID env (swExchangeID x)))
                       source st1)
                     (foldE (insertIssuedTicket env c) (swTickets x)))))"

section \<open>The presentation verdict\<close>

datatype lifecycleEffect = keepsVerdict | voidsByRefund | voidsByExchange

definition lifecycleEffects :: "(string \<times> lifecycleEffect) list" where
  "lifecycleEffects = [(''issued'', keepsVerdict), (''delivered'', keepsVerdict), (''redelivered'', keepsVerdict),
     (''redeemed'', keepsVerdict), (''entry'', keepsVerdict), (''exit'', keepsVerdict), (''duplicate_admit'', keepsVerdict),
     (''refunded'', voidsByRefund), (''exchanged'', voidsByExchange)]"

datatype VoidReason = VoidRefunded | VoidExchanged

datatype TicketValidity = ValidityValid | ValidityVoided VoidReason

definition DeriveTicketValidity :: "LifecycleEvent list \<Rightarrow> TicketValidity" where
  "DeriveTicketValidity history =
     (let has = (\<lambda>x. list_ex (\<lambda>e. map_of lifecycleEffects (leType e) = Some x) history) in
      if has voidsByRefund then ValidityVoided VoidRefunded
      else if has voidsByExchange then ValidityVoided VoidExchanged
      else ValidityValid)"

section \<open>The voided-ticket feed\<close>

record VoidedTicket =
  vtTicketID :: uuid
  vtOccurredAt :: time
  vtEventID :: uuid

record VoidedCursor =
  vcOccurredAt :: time
  vcEventID :: uuid
  vcOrganizerID :: uuid

definition zeroCursor :: VoidedCursor where
  "zeroCursor = \<lparr>vcOccurredAt = 0, vcEventID = uuid_Nil, vcOrganizerID = uuid_Nil\<rparr>"

definition cursorIsZero :: "VoidedCursor \<Rightarrow> bool" where
  "cursorIsZero v \<longleftrightarrow> IsZero (vcOccurredAt v) \<and> vcEventID v = uuid_Nil"

definition VoidedFeedPageLimit :: int where "VoidedFeedPageLimit = 100"

text \<open>December 31, 9999, 23:59:59, and \<open>uuid.Max\<close>: above every stored event.\<close>

definition lastInstant :: time where "lastInstant = 315537897599 * 1000000000"

definition uuid_Max :: uuid where "uuid_Max = - 1"

definition voidedOf :: "EventRow \<Rightarrow> VoidedTicket" where
  "voidedOf e = \<lparr>vtTicketID = evTicketID e, vtOccurredAt = evOccurredAt e, vtEventID = evID e\<rparr>"

text \<open>The rows of the query before its cursor predicate, newest first, and the query.\<close>

definition voidedRows :: "AccessState \<Rightarrow> uuid \<Rightarrow> VoidedTicket list" where
  "voidedRows st org =
     rev (sort_key (\<lambda>v. (vtOccurredAt v, vtEventID v))
       (map voidedOf (filter (\<lambda>e. evType e \<in> set [''refunded'', ''exchanged''] \<and>
          list_ex (\<lambda>t. tkID t = evTicketID e \<and> tkOrganizerID t = org) (asTickets st)) (asEvents st))))"

definition voidedFeedQuery :: "AccessState \<Rightarrow> uuid \<Rightarrow> time \<Rightarrow> uuid \<Rightarrow> nat \<Rightarrow> VoidedTicket list" where
  "voidedFeedQuery st org at eid n = take n (filter (\<lambda>v. (vtOccurredAt v, vtEventID v) < (at, eid)) (voidedRows st org))"

datatype feed_error = FeedNeedsOrganizer | FeedForeignCursor

definition feedLimit :: "int \<Rightarrow> nat" where
  "feedLimit limit = nat (if limit \<le> 0 \<or> limit > VoidedFeedPageLimit then VoidedFeedPageLimit else limit)"

definition VoidedTickets ::
  "AccessState \<Rightarrow> uuid \<Rightarrow> VoidedCursor \<Rightarrow> int \<Rightarrow> feed_error + (VoidedTicket list \<times> VoidedCursor)" where
  "VoidedTickets st org after limit =
     (if org = uuid_Nil then Inl FeedNeedsOrganizer
      else if \<not> cursorIsZero after \<and> vcOrganizerID after \<noteq> uuid_Nil \<and> vcOrganizerID after \<noteq> org then Inl FeedForeignCursor
      else
        let n = feedLimit limit;
            from_at = (if cursorIsZero after then lastInstant else vcOccurredAt after);
            from_id = (if cursorIsZero after then uuid_Max else vcEventID after);
            rows = voidedFeedQuery st org from_at from_id (n + 1);
            page = take n rows in
        Inr (page,
             if length rows > n
             then \<lparr>vcOccurredAt = vtOccurredAt (page ! (n - 1)), vcEventID = vtEventID (page ! (n - 1)), vcOrganizerID = org\<rparr>
             else zeroCursor))"

section \<open>Staff redelivery\<close>

definition RedeliveryBound :: int where "RedeliveryBound = 5"

definition RedeliveryWindow :: int where "RedeliveryWindow = 24 * 3600 * 1000000000"

record RedeliveryTicket =
  rtTicketID :: uuid
  rtBuyerID :: uuid
  rtGuestOrderRef :: uuid
  rtMessageID :: uuid
  rtAccepted :: bool

record RedeliveryClaim =
  rcOrderID :: uuid
  rcTickets :: "RedeliveryTicket list"
  rcReplay :: bool

definition Outstanding :: "RedeliveryClaim \<Rightarrow> RedeliveryTicket list" where
  "Outstanding x = filter (\<lambda>t. \<not> rtAccepted t) (rcTickets x)"

definition redeliveryEventID :: "AccessEnv \<Rightarrow> uuid \<Rightarrow> string \<Rightarrow> uuid \<Rightarrow> uuid" where
  "redeliveryEventID env org key t =
     aeSHA1 env (''redelivered:'' @ uuid_String org @ '':'' @ key @ '':'' @ uuid_String t)"

definition redeliveryMessageID :: "AccessEnv \<Rightarrow> uuid \<Rightarrow> string \<Rightarrow> uuid \<Rightarrow> uuid" where
  "redeliveryMessageID env org key t =
     aeSHA1 env (''redelivery:'' @ uuid_String org @ '':'' @ key @ '':'' @ uuid_String t)"

definition isAttempt :: "uuid \<Rightarrow> string \<Rightarrow> uuid \<Rightarrow> AttemptRow \<Rightarrow> bool" where
  "isAttempt org key t a \<longleftrightarrow> atOrganizerID a = org \<and> atKey a = key \<and> atTicketID a = t"

definition redeliveryTicket :: "uuid \<Rightarrow> bool \<Rightarrow> TicketRow \<Rightarrow> RedeliveryTicket" where
  "redeliveryTicket mid ok r =
     \<lparr>rtTicketID = tkID r, rtBuyerID = tkBuyerID r, rtGuestOrderRef = tkGuestOrderRef r, rtMessageID = mid, rtAccepted = ok\<rparr>"

definition loadRedeliveryAttempts :: "AccessState \<Rightarrow> uuid \<Rightarrow> string \<Rightarrow> TicketRow list \<Rightarrow> RedeliveryTicket list" where
  "loadRedeliveryAttempts st org key rows =
     List.map_filter (\<lambda>r. map_option (\<lambda>a. redeliveryTicket (atMessageID a) (atAcceptedAt a \<noteq> None) r)
       (find (isAttempt org key (tkID r)) (asAttempts st))) rows"

definition addAttempt ::
  "AccessEnv \<Rightarrow> uuid \<Rightarrow> string \<Rightarrow> TicketRow \<Rightarrow> AccessState \<Rightarrow> access_error + AccessState" where
  "addAttempt env org key r st =
     (let mid = redeliveryMessageID env org key (tkID r) in
      if list_ex (\<lambda>a. isAttempt org key (tkID r) a \<or> atMessageID a = mid) (asAttempts st) then Inl ErrAccessDatabase
      else Inr (st\<lparr>asAttempts := asAttempts st @
             [\<lparr>atOrganizerID = org, atKey = key, atTicketID = tkID r, atMessageID = mid, atAcceptedAt = None\<rparr>]\<rparr>))"

definition ClaimRedelivery ::
  "AccessEnv \<Rightarrow> AccessClock \<Rightarrow> uuid \<Rightarrow> uuid \<Rightarrow> string \<Rightarrow> AccessState \<Rightarrow> access_error + (RedeliveryClaim \<times> AccessState)" where
  "ClaimRedelivery env c org order key st =
     (if key = '''' then Inl ErrKeyRequired
      else
        let rows = sort_key tkID (filter (\<lambda>t. tkOrderID t = order \<and> tkOrganizerID t = org) (asTickets st)) in
        if rows = [] then Inl (ErrTicketsNotIssued 0)
        else (case find (\<lambda>q. rqOrganizerID q = org \<and> rqKey q = key) (asRedeliveries st) of
            Some q \<Rightarrow>
              if rqOrderID q \<noteq> order then Inl ErrRedeliveryKeyConflict
              else Inr (\<lparr>rcOrderID = order, rcTickets = loadRedeliveryAttempts st org key rows, rcReplay = True\<rparr>, st)
          | None \<Rightarrow>
              let recent = int (length (filter (\<lambda>q. rqOrderID q = order \<and> rqRequestedAt q > accessNow c 0 - RedeliveryWindow)
                    (asRedeliveries st))) in
              if recent \<ge> RedeliveryBound then Inl (ErrRedeliveryBoundExceeded recent)
              else if charLength key > 200 \<or> length rows > 50 then Inl ErrAccessDatabase
              else
                bindE (foldE (addAttempt env org key) rows
                    (st\<lparr>asRedeliveries := asRedeliveries st @
                       [\<lparr>rqOrganizerID = org, rqKey = key, rqOrderID = order, rqTicketCount = int (length rows),
                         rqRequestedAt = clDB c\<rparr>]\<rparr>))
                  (\<lambda>st1. Inr (\<lparr>rcOrderID = order,
                     rcTickets = map (\<lambda>r. redeliveryTicket (redeliveryMessageID env org key (tkID r)) False r) rows,
                     rcReplay = False\<rparr>, st1))))"

definition MarkRedelivered ::
  "AccessEnv \<Rightarrow> AccessClock \<Rightarrow> uuid \<Rightarrow> string \<Rightarrow> uuid \<Rightarrow> uuid \<Rightarrow> AccessState \<Rightarrow> access_error + AccessState" where
  "MarkRedelivered env c org key t messageID st =
     (case ticketRow t st of
        None \<Rightarrow> Inl ErrTicketCredential
      | Some r \<Rightarrow>
          if tkOrganizerID r \<noteq> org then Inl ErrTicketCredential
          else
            let hit = (\<lambda>a. isAttempt org key t a \<and> atMessageID a = messageID \<and> atAcceptedAt a = None);
                st1 = st\<lparr>asAttempts := map (\<lambda>a. if hit a then a\<lparr>atAcceptedAt := Some (clDB c)\<rparr> else a) (asAttempts st)\<rparr> in
            if \<not> list_ex hit (asAttempts st) then Inr st1
            else bindE (appendLifecycle env c (eventFor t (identityOf r) (redeliveryEventID env org key t) ''redelivered'' 0) st1)
                   (\<lambda>(at, st2). Inr st2))"

section \<open>Reads\<close>

definition OrderAdmission :: "AccessState \<Rightarrow> uuid \<Rightarrow> uuid \<Rightarrow> bool \<times> int" where
  "OrderAdmission st org order =
     (let ids = orderTickets order org st in (list_ex (ticketAdmittedUnion st) ids, int (length ids)))"

definition Tickets :: "AccessState \<Rightarrow> uuid \<Rightarrow> TicketRow list" where
  "Tickets st ref = sort_key (\<lambda>t. (tkIssuedAt t, tkID t)) (filter (\<lambda>t. tkGuestOrderRef t = ref) (asTickets st))"

definition TicketForQR :: "AccessState \<Rightarrow> uuid \<Rightarrow> uuid \<Rightarrow> string option" where
  "TicketForQR st ref t =
     map_option tkPayload (find (\<lambda>r. tkID r = t \<and> tkGuestOrderRef r = ref) (asTickets st))"

end
