(* ===== verification/Access_Checkpoint.thy ===== *)
theory Access_Checkpoint
  imports Access_Voiding
begin

text \<open>
  The checkpoint worker, the backfill and the epoch seal (\<open>lifecycle_checkpoint.go\<close>) and the
  offline verifier of the whole trail (\<open>lifecycle_verify.go\<close>). The cap of a context is left out:
  a backfill runs until no ticket is left to chain.
\<close>

section \<open>Checkpoints\<close>

datatype checkpoint_error =
    CheckpointUnsigned
  | CheckpointKeyring
  | CheckpointForeignChange int
  | CheckpointUnsignedChange int key_error
  | ErrCheckpointRegression
  | CheckpointMerkle merkle_error
  | ErrCheckpointDatabase

text \<open>A position in a checkpoint chain; sequence \<open>0\<close> is "never observed".\<close>

type_synonym LastRoot = "int \<times> string"

definition PendingCheckpointOrganizers :: "AccessState \<Rightarrow> uuid list" where
  "PendingCheckpointOrganizers st =
     remdups (map hcOrganizerID (filter (\<lambda>c. hcCheckpointID c = None) (asChanges st)))"

definition OldestPendingChange :: "AccessState \<Rightarrow> time option" where
  "OldestPendingChange st =
     (case map hcCreatedAt (filter (\<lambda>c. hcCheckpointID c = None) (asChanges st)) of
        [] \<Rightarrow> None
      | t # ts \<Rightarrow> Some (fold min ts t))"

definition pendingChanges :: "uuid \<Rightarrow> AccessState \<Rightarrow> HeadChange list" where
  "pendingChanges org st =
     sort_key hcChangeID (filter (\<lambda>c. hcOrganizerID c = org \<and> hcCheckpointID c = None \<and>
       list_ex (\<lambda>t. tkID t = hcTicketID c) (asTickets st)) (asChanges st))"

definition ownerOf :: "AccessState \<Rightarrow> uuid \<Rightarrow> uuid option" where
  "ownerOf st t = map_option tkOrganizerID (ticketRow t st)"

fun checkChanges :: "AccessEnv \<Rightarrow> LifecycleKeyring \<Rightarrow> AccessState \<Rightarrow> uuid \<Rightarrow> HeadChange list \<Rightarrow> checkpoint_error option" where
  "checkChanges env ring st org [] = None"
| "checkChanges env ring st org (x # xs) =
     (if ownerOf st (hcTicketID x) \<noteq> Some org then Some (CheckpointForeignChange (hcChangeID x))
      else (case VerifyHead (aeLifecycle env) ring (hcTicketID x) (hcSequence x) (hcKeyID x) (hcHash x) (hcSignature x) of
          Some e \<Rightarrow> Some (CheckpointUnsignedChange (hcChangeID x) e)
        | None \<Rightarrow> checkChanges env ring st org xs))"

definition lastCheckpoint :: "uuid \<Rightarrow> AccessState \<Rightarrow> LastRoot" where
  "lastCheckpoint org st =
     (case rev (sort_key (\<lambda>k. cpSequence (ckBody k)) (filter (\<lambda>k. cpOrganizerID (ckBody k) = org) (asCheckpoints st))) of
        [] \<Rightarrow> (0, GenesisHash)
      | k # ks \<Rightarrow> (cpSequence (ckBody k), cpRoot (ckBody k)))"

text \<open>One leaf per ticket, the latest of its changes; the rows come in change order.\<close>

fun latestPerTicket :: "HeadChange list \<Rightarrow> HeadChange list" where
  "latestPerTicket [] = []"
| "latestPerTicket (x # xs) =
     (if hcTicketID x \<in> hcTicketID ` set xs then latestPerTicket xs else x # latestPerTicket xs)"

definition leafOf :: "HeadChange \<Rightarrow> Leaf" where
  "leafOf x = \<lparr>lfTicketID = hcTicketID x, lfSequence = hcSequence x, lfHeadHash = hcHash x\<rparr>"

definition insertCheckpoint :: "Checkpoint \<Rightarrow> string \<Rightarrow> AccessState \<Rightarrow> checkpoint_error + (int \<times> AccessState)" where
  "insertCheckpoint body sig st =
     (let k = int (length (asCheckpoints st)) + 1 in
      if cpSequence body \<le> 0 \<or> length (cpPreviousRoot body) \<noteq> 32 \<or> length (cpRoot body) \<noteq> 32 \<or> cpLeafCount body \<le> 0 \<or>
         length sig \<noteq> 64 \<or>
         list_ex (\<lambda>x. cpOrganizerID (ckBody x) = cpOrganizerID body \<and> cpSequence (ckBody x) = cpSequence body) (asCheckpoints st)
      then Inl ErrCheckpointDatabase
      else Inr (k, st\<lparr>asCheckpoints := asCheckpoints st @
             [\<lparr>ckID = k, ckBody = body, ckVersion = CanonicalVersion, ckSignature = sig\<rparr>]\<rparr>))"

definition assignChanges :: "int \<Rightarrow> int list \<Rightarrow> AccessState \<Rightarrow> AccessState" where
  "assignChanges k ids st =
     st\<lparr>asChanges := map (\<lambda>x. if hcChangeID x \<in> set ids then x\<lparr>hcCheckpointID := Some k\<rparr> else x) (asChanges st)\<rparr>"

definition CheckpointOrganizer ::
  "AccessEnv \<Rightarrow> AccessClock \<Rightarrow> uuid \<Rightarrow> LastRoot \<Rightarrow> AccessState \<Rightarrow>
   checkpoint_error + (Checkpoint option \<times> AccessState)" where
  "CheckpointOrganizer env c org observed st =
     (case aeSigner env of
        None \<Rightarrow> Inl CheckpointUnsigned
      | Some s \<Rightarrow>
          let changes = pendingChanges org st in
          if changes = [] then Inr (None, st)
          else (case aeKeyring env of
              None \<Rightarrow> Inl CheckpointKeyring
            | Some ring \<Rightarrow>
                (case checkChanges env ring st org changes of
                   Some e \<Rightarrow> Inl e
                 | None \<Rightarrow>
                     let (prev_sequence, prev_root) = lastCheckpoint org st in
                     if fst observed > 0 \<and>
                        (prev_sequence < fst observed \<or> prev_sequence = fst observed \<and> prev_root \<noteq> snd observed)
                     then Inl ErrCheckpointRegression
                     else
                       let leaves = map leafOf (latestPerTicket changes) in
                       (case MerkleRoot (aeLifecycle env) leaves of
                          Inl e \<Rightarrow> Inl (CheckpointMerkle e)
                        | Inr root \<Rightarrow>
                            let body = \<lparr>cpOrganizerID = org, cpSequence = prev_sequence + 1, cpPreviousRoot = prev_root,
                                  cpRoot = root, cpLeafCount = int (length leaves), cpKeyID = siKID s,
                                  cpCreatedAt = accessNow c 0\<rparr> in
                            bindE (insertCheckpoint body (SignCheckpoint (aeLifecycle env) s body) st) (\<lambda>(k, st1).
                              Inr (Some body, assignChanges k (map hcChangeID changes) st1))))))"

section \<open>Epoch seals and the backfill\<close>

definition sealOf :: "time \<Rightarrow> HeadRow \<Rightarrow> EpochRow" where
  "sealOf at h =
     \<lparr>epTicketID = hdTicketID h, epKeyID = hdKeyID h, epSequence = hdSequence h, epVersion = hdVersion h, epHash = hdHash h,
      epSignature = hdSignature h, epSealedAt = at\<rparr>"

definition SealEpoch :: "AccessClock \<Rightarrow> AccessState \<Rightarrow> int \<times> AccessState" where
  "SealEpoch c st =
     (let fresh = filter (\<lambda>h. \<not> list_ex (\<lambda>e. epTicketID e = hdTicketID h \<and> epKeyID e = hdKeyID h) (asEpochs st)) (asHeads st) in
      (int (length fresh), st\<lparr>asEpochs := asEpochs st @ map (sealOf (accessNow c 0)) fresh\<rparr>))"

text \<open>One event of a history adopted as it stands.\<close>

definition chainEvent ::
  "AccessEnv \<Rightarrow> uuid \<Rightarrow> TicketIdentity \<Rightarrow> EventRow \<Rightarrow> (int \<times> string) \<times> AccessState \<Rightarrow>
   access_error + ((int \<times> string) \<times> AccessState)" where
  "chainEvent env t who e acc =
     (let ((n, prev), st) = acc;
          entry = HashEntry (aeLifecycle env) prev (CanonicalEvent (aeLifecycle env) (rowEvent t who e (n + 1))) in
      bindE (insertIntegrity \<lparr>inEventID = evID e, inTicketID = t, inSequence = n + 1, inVersion = CanonicalVersion,
          inPrevious = prev, inEntry = entry\<rparr> st) (\<lambda>st1. Inr ((n + 1, entry), st1)))"

definition backfillTicket ::
  "AccessEnv \<Rightarrow> AccessClock \<Rightarrow> LifecycleSigner \<Rightarrow> uuid \<Rightarrow> AccessState \<Rightarrow> access_error + AccessState" where
  "backfillTicket env c s t st =
     (case ticketRow t st of
        None \<Rightarrow> Inl ErrTicketCredential
      | Some r \<Rightarrow>
          if list_ex (\<lambda>i. inTicketID i = t) (asIntegrity st) then Inl ErrAccessDatabase
          else
            let events = sort_key (\<lambda>e. (evOccurredAt e, evID e)) (filter (\<lambda>e. evTicketID e = t) (asEvents st)) in
            if events = [] then Inr st
            else bindE (foldE (chainEvent env t (identityOf r)) events ((0, GenesisHash), st)) (\<lambda>((n, h), st1).
              let head = signedHead env s t (tkOrganizerID r) n h (accessNow c 0) in
              if list_ex (\<lambda>x. hdTicketID x = t) (asHeads st1) then Inl ErrAccessDatabase
              else bindE (upsertHead head st1) (\<lambda>st2. Inr (queueChange c head st2))))"

definition unchained :: "AccessState \<Rightarrow> uuid list" where
  "unchained st =
     sort (map tkID (filter (\<lambda>t. list_ex (\<lambda>e. evTicketID e = tkID t) (asEvents st) \<and>
       \<not> list_ex (\<lambda>h. hdTicketID h = tkID t) (asHeads st)) (asTickets st)))"

text \<open>
  Each ticket is its own transaction, so the tickets before a failing one stay chained. The loop
  over batches: a round is one query, and \<open>fuel\<close> bounds the rounds.
\<close>

fun backfillBatch ::
  "AccessEnv \<Rightarrow> AccessClock \<Rightarrow> LifecycleSigner \<Rightarrow> uuid list \<Rightarrow> int \<Rightarrow> AccessState \<Rightarrow>
   access_error option \<times> int \<times> AccessState" where
  "backfillBatch env c s [] done st = (None, done, st)"
| "backfillBatch env c s (t # ts) done st =
     (case backfillTicket env c s t st of
        Inl e \<Rightarrow> (Some e, done, st)
      | Inr st1 \<Rightarrow> backfillBatch env c s ts (done + 1) st1)"

fun backfillLoop ::
  "nat \<Rightarrow> AccessEnv \<Rightarrow> AccessClock \<Rightarrow> LifecycleSigner \<Rightarrow> nat \<Rightarrow> int \<Rightarrow> AccessState \<Rightarrow>
   (access_error option \<times> int \<times> AccessState) option" where
  "backfillLoop 0 env c s batch done st = None"
| "backfillLoop (Suc fuel) env c s batch done st =
     (let ids = take batch (unchained st) in
      if ids = [] then Some (None, done, st)
      else (case backfillBatch env c s ids done st of
          (Some e, n, st1) \<Rightarrow> Some (Some e, n, st1)
        | (None, n, st1) \<Rightarrow> backfillLoop fuel env c s batch n st1))"

definition BackfillLifecycle ::
  "nat \<Rightarrow> AccessEnv \<Rightarrow> AccessClock \<Rightarrow> int \<Rightarrow> AccessState \<Rightarrow> (access_error option \<times> int \<times> AccessState) option" where
  "BackfillLifecycle fuel env c batch st =
     (case aeSigner env of
        None \<Rightarrow> Some (Some ErrLifecycleUnsigned, 0, st)
      | Some s \<Rightarrow> backfillLoop fuel env c s (nat (if batch \<le> 0 then 128 else batch)) 0 st)"

section \<open>The offline verifier\<close>

datatype audit_error =
    AuditNoKeyring
  | AuditChain uuid verifier_error
  | AuditOrphan uuid
  | AuditEpoch uuid key_error
  | AuditVersion int
  | AuditCheckpointGap uuid int int
  | AuditCheckpointLink uuid int
  | AuditLeaves uuid int
  | AuditRoot uuid int
  | AuditCheckpointSignature uuid int
  | AuditPendingAge int

text \<open>
  The pass over every chained event: the events of known tickets with the integrity row of their
  identifier, in ticket and sequence order (\<open>orderBy\<close> is \<open>ORDER BY\<close> two columns). The state is the
  ticket being walked, its last hash and count, and the heads reached.
\<close>

definition orderBy :: "('a \<Rightarrow> 'k :: linorder) \<Rightarrow> ('a \<Rightarrow> 'l :: linorder) \<Rightarrow> 'a list \<Rightarrow> 'a list" where
  "orderBy f g xs = concat (map (\<lambda>k. sort_key g (filter (\<lambda>x. f x = k) xs)) (sort (remdups (map f xs))))"

definition nullsLast :: "IntegrityRow option \<Rightarrow> int \<times> int" where
  "nullsLast i = (case i of Some x \<Rightarrow> (0, inSequence x) | None \<Rightarrow> (1, 0))"

definition auditJoin :: "AccessState \<Rightarrow> (EventRow \<times> TicketRow \<times> IntegrityRow option) list" where
  "auditJoin st =
     concat (map (\<lambda>e. map (\<lambda>t. (e, t, find (\<lambda>i. inEventID i = evID e) (asIntegrity st)))
       (filter (\<lambda>t. tkID t = evTicketID e) (asTickets st))) (asEvents st))"

definition auditRows :: "AccessState \<Rightarrow> (EventRow \<times> TicketRow \<times> IntegrityRow option) list" where
  "auditRows st = orderBy (\<lambda>(e, t, i). tkID t) (\<lambda>(e, t, i). nullsLast i) (auditJoin st)"

record auditWalk =
  awTicket :: uuid
  awCount :: int
  awPrevious :: string
  awHeads :: "(uuid \<times> int \<times> string) list"

definition auditRow ::
  "AccessEnv \<Rightarrow> bool \<Rightarrow> EventRow \<times> TicketRow \<times> IntegrityRow option \<Rightarrow> auditWalk \<Rightarrow> audit_error + auditWalk" where
  "auditRow env coverage r w0 =
     (case r of (e, t, i) \<Rightarrow>
        let w = (if tkID t \<noteq> awTicket w0 then w0\<lparr>awTicket := tkID t, awCount := 0, awPrevious := GenesisHash\<rparr> else w0) in
        (case i of
           None \<Rightarrow> if \<not> coverage then Inr w else Inl (AuditChain (tkID t) (MissingIntegrityRow (evID e)))
         | Some x \<Rightarrow>
             (case checkRow env (tkID t) (identityOf t) (e, Some x) (awCount w, awPrevious w) of
                Inl err \<Rightarrow> Inl (AuditChain (tkID t) err)
              | Inr (n, h) \<Rightarrow>
                  Inr (w\<lparr>awCount := n, awPrevious := h,
                    awHeads := (tkID t, n, h) # filter (\<lambda>(k, v). k \<noteq> tkID t) (awHeads w)\<rparr>))))"

definition verifyChains :: "AccessEnv \<Rightarrow> bool \<Rightarrow> AccessState \<Rightarrow> audit_error + (uuid \<times> int \<times> string) list" where
  "verifyChains env coverage st =
     bindE (foldE (auditRow env coverage) (auditRows st)
         \<lparr>awTicket = uuid_Nil, awCount = 0, awPrevious = GenesisHash, awHeads = []\<rparr>)
       (\<lambda>w. Inr (awHeads w))"

definition verifyOneHead ::
  "AccessEnv \<Rightarrow> LifecycleKeyring \<Rightarrow> (uuid \<times> int \<times> string) list \<Rightarrow> HeadRow \<Rightarrow> audit_error option" where
  "verifyOneHead env ring computed h =
     (if hdVersion h \<noteq> CanonicalVersion then Some (AuditVersion (hdVersion h))
      else (case map_of computed (hdTicketID h) of
          None \<Rightarrow> Some (AuditChain (hdTicketID h) HeadWithoutEvents)
        | Some (n, x) \<Rightarrow>
            if n \<noteq> hdSequence h \<or> x \<noteq> hdHash h then Some (AuditChain (hdTicketID h) (ChainHeadMismatch (hdSequence h) n))
            else map_option (\<lambda>e. AuditChain (hdTicketID h) (HeadSignature e))
              (VerifyHead (aeLifecycle env) ring (hdTicketID h) (hdSequence h) (hdKeyID h) (hdHash h) (hdSignature h))))"

fun firstError :: "('a \<Rightarrow> 'e option) \<Rightarrow> 'a list \<Rightarrow> 'e option" where
  "firstError f [] = None"
| "firstError f (x # xs) = (case f x of Some e \<Rightarrow> Some e | None \<Rightarrow> firstError f xs)"

definition verifyHeads ::
  "AccessEnv \<Rightarrow> LifecycleKeyring \<Rightarrow> (uuid \<times> int \<times> string) list \<Rightarrow> AccessState \<Rightarrow> audit_error option" where
  "verifyHeads env ring computed st =
     (case firstError (verifyOneHead env ring computed) (asHeads st) of
        Some e \<Rightarrow> Some e
      | None \<Rightarrow>
          firstError (\<lambda>(t, n, h). if list_ex (\<lambda>x. hdTicketID x = t) (asHeads st) then None else Some (AuditChain t (MissingHead n)))
            computed)"

definition verifyOrphanIntegrity :: "AccessState \<Rightarrow> audit_error option" where
  "verifyOrphanIntegrity st =
     map_option (\<lambda>i. AuditOrphan (inEventID i))
       (find (\<lambda>i. \<not> list_ex (\<lambda>e. evID e = inEventID i \<and> evTicketID e = inTicketID i) (asEvents st)) (asIntegrity st))"

definition verifyEpochSignatures :: "AccessEnv \<Rightarrow> LifecycleKeyring \<Rightarrow> AccessState \<Rightarrow> audit_error option" where
  "verifyEpochSignatures env ring st =
     firstError (\<lambda>e. if epVersion e \<noteq> CanonicalVersion then Some (AuditVersion (epVersion e))
       else map_option (AuditEpoch (epTicketID e))
         (VerifyHead (aeLifecycle env) ring (epTicketID e) (epSequence e) (epKeyID e) (epHash e) (epSignature e)))
       (asEpochs st)"

definition checkpointLeaves ::
  "AccessEnv \<Rightarrow> LifecycleKeyring \<Rightarrow> AccessState \<Rightarrow> int \<Rightarrow> uuid \<Rightarrow> audit_error + Leaf list" where
  "checkpointLeaves env ring st k org =
     (let rows = sort_key hcTicketID (latestPerTicket (sort_key hcChangeID
            (filter (\<lambda>x. hcCheckpointID x = Some k \<and> list_ex (\<lambda>t. tkID t = hcTicketID x) (asTickets st)) (asChanges st)))) in
      (case firstError (\<lambda>x.
            if hcVersion x \<noteq> CanonicalVersion then Some (AuditVersion (hcVersion x))
            else if ownerOf st (hcTicketID x) \<noteq> Some org then Some (AuditLeaves org k)
            else map_option (AuditEpoch (hcTicketID x))
              (VerifyHead (aeLifecycle env) ring (hcTicketID x) (hcSequence x) (hcKeyID x) (hcHash x) (hcSignature x))) rows of
         Some e \<Rightarrow> Inl e
       | None \<Rightarrow> Inr (map leafOf rows)))"

definition verifyCheckpoint ::
  "AccessEnv \<Rightarrow> LifecycleKeyring \<Rightarrow> AccessState \<Rightarrow> CheckpointRow \<Rightarrow> uuid \<times> LastRoot \<Rightarrow> audit_error + (uuid \<times> LastRoot)" where
  "verifyCheckpoint env ring st r acc =
     (let body = (ckBody r)\<lparr>cpCreatedAt := truncateMicro (cpCreatedAt (ckBody r))\<rparr>; org = cpOrganizerID body;
          prev = (if org \<noteq> fst acc then (0, GenesisHash) else snd acc) in
      if cpSequence body \<noteq> fst prev + 1 then Inl (AuditCheckpointGap org (cpSequence body) (fst prev + 1))
      else if cpPreviousRoot body \<noteq> snd prev then Inl (AuditCheckpointLink org (cpSequence body))
      else bindE (checkpointLeaves env ring st (ckID r) org) (\<lambda>leaves.
        if int (length leaves) \<noteq> cpLeafCount body then Inl (AuditLeaves org (cpSequence body))
        else (case MerkleRoot (aeLifecycle env) leaves of
            Inl e \<Rightarrow> Inl (AuditRoot org (cpSequence body))
          | Inr root \<Rightarrow>
              if root \<noteq> cpRoot body then Inl (AuditRoot org (cpSequence body))
              else if VerifyCheckpoint (aeLifecycle env) ring body (ckSignature r) \<noteq> None
              then Inl (AuditCheckpointSignature org (cpSequence body))
              else Inr (org, cpSequence body, cpRoot body))))"

definition verifyCheckpoints :: "AccessEnv \<Rightarrow> LifecycleKeyring \<Rightarrow> AccessState \<Rightarrow> audit_error option" where
  "verifyCheckpoints env ring st =
     (let rows = orderBy (\<lambda>r. cpOrganizerID (ckBody r)) (\<lambda>r. cpSequence (ckBody r)) (asCheckpoints st) in
      case firstError (\<lambda>r. if ckVersion r \<noteq> CanonicalVersion then Some (AuditVersion (ckVersion r)) else None) rows of
        Some e \<Rightarrow> Some e
      | None \<Rightarrow>
          (case foldE (verifyCheckpoint env ring st) rows (uuid_Nil, 0, GenesisHash) of
             Inl e \<Rightarrow> Some e
           | Inr w \<Rightarrow> None))"

definition verifyPendingAge :: "AccessClock \<Rightarrow> int \<Rightarrow> AccessState \<Rightarrow> audit_error option" where
  "verifyPendingAge c maxAge st =
     (if maxAge \<le> 0 then None
      else (case OldestPendingChange st of
          None \<Rightarrow> None
        | Some oldest \<Rightarrow> if accessNow c 0 - oldest > maxAge then Some (AuditPendingAge (accessNow c 0 - oldest)) else None))"

definition VerifyLifecycle ::
  "AccessEnv \<Rightarrow> AccessClock \<Rightarrow> bool \<Rightarrow> int \<Rightarrow> AccessState \<Rightarrow> audit_error option" where
  "VerifyLifecycle env c coverage maxAge st =
     (case aeKeyring env of
        None \<Rightarrow> Some AuditNoKeyring
      | Some ring \<Rightarrow>
          (case verifyChains env coverage st of
             Inl e \<Rightarrow> Some e
           | Inr heads \<Rightarrow>
               firstError (\<lambda>x. x)
                 [verifyHeads env ring heads st, verifyOrphanIntegrity st, verifyEpochSignatures env ring st,
                  verifyCheckpoints env ring st, verifyPendingAge c maxAge st]))"

end
