(* ===== verification/Access_Sound.thy ===== *)
theory Access_Sound
  imports Access_Checkpoint
begin

text \<open>
  What every operation of the access store keeps: each ticket's chain verifies up to its head,
  each head is signed, and events, integrity rows and heads belong to known tickets. \<open>slotOf\<close>
  is the slot an order was sold for: \<open>RefundOrderTickets\<close> and \<open>SwitchExchange\<close> void every ticket
  of an order under the identity of the first, so the trail is sound only when an order has one.
\<close>

section \<open>The invariant\<close>

definition signing :: "AccessEnv \<Rightarrow> LifecycleSigner \<Rightarrow> LifecycleKeyring \<Rightarrow> bool" where
  "signing env s ring \<longleftrightarrow>
     aeSigner env = Some s \<and> aeKeyring env = Some ring \<and> holdsSigner (aeLifecycle env) ring s \<and>
     ed25519 (aeLifecycle env) \<and> (\<forall>x. length (leSha (aeLifecycle env) x) = 32)"

definition headSigned :: "AccessEnv \<Rightarrow> LifecycleKeyring \<Rightarrow> HeadRow \<Rightarrow> bool" where
  "headSigned env ring h \<longleftrightarrow>
     0 < hdSequence h \<and> hdVersion h = CanonicalVersion \<and>
     VerifyHead (aeLifecycle env) ring (hdTicketID h) (hdSequence h) (hdKeyID h) (hdHash h) (hdSignature h) = None"

definition chainKept :: "AccessEnv \<Rightarrow> AccessState \<Rightarrow> TicketRow \<Rightarrow> bool" where
  "chainKept env st r \<longleftrightarrow>
     foldE (checkRow env (tkID r) (identityOf r)) (chainRows st (tkID r)) (0, GenesisHash) = Inr (loadHead (tkID r) st)"

definition knownTicket :: "AccessState \<Rightarrow> uuid \<Rightarrow> bool" where
  "knownTicket st t \<longleftrightarrow> t \<in> tkID ` set (asTickets st)"

definition trailKeys :: "AccessState \<Rightarrow> bool" where
  "trailKeys st \<longleftrightarrow>
     distinct (map tkID (asTickets st)) \<and> distinct (map evID (asEvents st)) \<and> distinct (map hdTicketID (asHeads st)) \<and>
     (\<forall>e \<in> set (asEvents st). knownTicket st (evTicketID e)) \<and> (\<forall>h \<in> set (asHeads st). knownTicket st (hdTicketID h)) \<and>
     (\<forall>i \<in> set (asIntegrity st). \<exists>e \<in> set (asEvents st). evID e = inEventID i \<and> evTicketID e = inTicketID i)"

definition soundTrail :: "AccessEnv \<Rightarrow> LifecycleKeyring \<Rightarrow> (uuid \<Rightarrow> uuid \<Rightarrow> uuid) \<Rightarrow> AccessState \<Rightarrow> bool" where
  "soundTrail env ring slotOf st \<longleftrightarrow>
     trailKeys st \<and> (\<forall>h \<in> set (asHeads st). headSigned env ring h) \<and>
     (\<forall>r \<in> set (asTickets st). chainKept env st r \<and> tkSlotID r = slotOf (tkOrderID r) (tkOrganizerID r))"

text \<open>The four tables the invariant reads.\<close>

definition trailOf :: "AccessState \<Rightarrow> TicketRow list \<times> EventRow list \<times> IntegrityRow list \<times> HeadRow list" where
  "trailOf st = (asTickets st, asEvents st, asIntegrity st, asHeads st)"

lemma trailOf_eq: "trailOf st = trailOf st' \<longleftrightarrow>
    asTickets st = asTickets st' \<and> asEvents st = asEvents st' \<and> asIntegrity st = asIntegrity st' \<and> asHeads st = asHeads st'"
  by (simp add: trailOf_def)

lemma soundTrail_cong: "trailOf st' = trailOf st \<Longrightarrow> soundTrail env ring slotOf st' = soundTrail env ring slotOf st"
  by (simp add: trailOf_eq soundTrail_def trailKeys_def chainKept_def knownTicket_def chainRows_def integrityOf_def
      loadHead_def cong: map_cong)

lemma soundTrail_empty: "soundTrail env ring slotOf emptyAccess"
  by (simp add: soundTrail_def trailKeys_def emptyAccess_def)

section \<open>A kept chain verifies\<close>

lemma checkRow_Inr_iff:
  "checkRow env t who r (n, h) = Inr z \<longleftrightarrow>
   (\<exists>i. snd r = Some i \<and> inVersion i = CanonicalVersion \<and> inSequence i = n + 1 \<and> inPrevious i = h \<and>
      inEntry i = HashEntry (aeLifecycle env) h (CanonicalEvent (aeLifecycle env) (rowEvent t who (fst r) (n + 1))) \<and>
      z = (n + 1, inEntry i))"
  by (auto simp: checkRow_def Let_def split: option.splits)

lemma foldE_checkRow_count:
  "foldE (checkRow env t who) rows (n, h) = Inr (m, k) \<Longrightarrow> m = n + int (length rows)"
proof (induction rows arbitrary: n h)
  case (Cons r rows)
  then obtain i where "foldE (checkRow env t who) rows (n + 1, i) = Inr (m, k)"
    by (auto simp: bindE_Inr_iff checkRow_Inr_iff)
  from Cons.IH [OF this] show ?case by simp
qed simp

lemma foldE_checkRow_sorted:
  "foldE (checkRow env t who) rows (n, h) = Inr z \<Longrightarrow>
   (\<forall>r \<in> set rows. snd r \<noteq> None \<and> n < inSequence (the (snd r))) \<and>
   sorted (map (\<lambda>r. case snd r of Some i \<Rightarrow> inSequence i | None \<Rightarrow> 0) rows)"
proof (induction rows arbitrary: n h)
  case (Cons r rows)
  obtain i where i: "snd r = Some i" "inSequence i = n + 1"
    and rest: "foldE (checkRow env t who) rows (n + 1, inEntry i) = Inr z"
    using Cons.prems by (auto simp: bindE_Inr_iff checkRow_Inr_iff)
  from Cons.IH [OF rest] show ?case using i by (auto split: option.splits)
qed simp

lemma bySequence_kept: "foldE (checkRow env t who) rows (n, h) = Inr z \<Longrightarrow> bySequence rows = rows"
proof -
  assume "foldE (checkRow env t who) rows (n, h) = Inr z"
  note ok = foldE_checkRow_sorted [OF this]
  have "filter (\<lambda>r. snd r \<noteq> None) rows = rows" "filter (\<lambda>r. snd r = None) rows = []"
    using ok by (auto simp: filter_id_conv filter_empty_conv)
  then show ?thesis
    using ok sort_key_id_if_sorted [of "\<lambda>r. case snd r of Some i \<Rightarrow> inSequence i | None \<Rightarrow> 0" rows]
    by (simp add: bySequence_def)
qed

lemma ticketRow_SomeD: "ticketRow t st = Some r \<Longrightarrow> r \<in> set (asTickets st) \<and> tkID r = t"
  by (simp add: ticketRow_def find_SomeD) (meson find_SomeD)

lemma ticketRow_known: "trailKeys st \<Longrightarrow> r \<in> set (asTickets st) \<Longrightarrow> ticketRow (tkID r) st = Some r"
proof -
  assume k: "trailKeys st" and r: "r \<in> set (asTickets st)"
  then obtain x where x: "ticketRow (tkID r) st = Some x"
    by (cases "ticketRow (tkID r) st") (auto simp: ticketRow_def find_None_iff)
  then have "x \<in> set (asTickets st)" "tkID x = tkID r" using ticketRow_SomeD by auto
  then have "x = r" using k r by (auto simp: trailKeys_def distinct_map inj_on_def)
  then show ?thesis using x by simp
qed

lemma find_head: "loadHead t st = (n, h) \<Longrightarrow>
    (case find (\<lambda>x. hdTicketID x = t) (asHeads st) of None \<Rightarrow> n = 0 \<and> h = GenesisHash | Some x \<Rightarrow> hdSequence x = n \<and> hdHash x = h)"
  by (auto simp: loadHead_def split: option.splits)

lemma kept_chain_verifies:
  assumes "soundTrail env ring slotOf st" and "aeKeyring env = Some ring" and "ticketRow t st = Some r"
  shows "verifyTicketChain env st t (identityOf r) = None"
proof -
  have r: "r \<in> set (asTickets st)" "tkID r = t" using ticketRow_SomeD [OF assms(3)] by auto
  obtain n h where l: "loadHead t st = (n, h)" by (cases "loadHead t st")
  have f: "foldE (checkRow env t (identityOf r)) (chainRows st t) (0, GenesisHash) = Inr (n, h)"
    using assms(1) r l by (auto simp: soundTrail_def chainKept_def)
  have "orphanRows st t = []"
    using assms(1) by (auto simp: soundTrail_def trailKeys_def orphanRows_def filter_empty_conv list_ex_iff)
  moreover have "checkHead env st t n h = None"
  proof (cases "find (\<lambda>x. hdTicketID x = t) (asHeads st)")
    case None
    then show ?thesis using find_head [OF l] by (simp add: checkHead_def)
  next
    case (Some x)
    then have "headSigned env ring x" "hdTicketID x = t"
      using assms(1) find_SomeD [OF Some] by (auto simp: soundTrail_def)
    then show ?thesis using find_head [OF l] Some assms(2) by (auto simp: checkHead_def headSigned_def)
  qed
  ultimately show ?thesis using f bySequence_kept [OF f] by (simp add: verifyTicketChain_def)
qed

section \<open>The append keeps the chains\<close>

lemma truncateMicro_idem [simp]: "truncateMicro (truncateMicro t) = truncateMicro t"
  by (simp add: truncateMicro_def minus_mod_eq_mult_div)

text \<open>What the three inserts of an append leave.\<close>

definition newEvent :: "appendInput \<Rightarrow> time \<Rightarrow> EventRow" where
  "newEvent a at = \<lparr>evID = aiEventID a, evTicketID = aiTicketID a, evType = aiType a, evOccurredAt = at\<rparr>"

definition newIntegrity :: "appendInput \<Rightarrow> int \<Rightarrow> string \<Rightarrow> string \<Rightarrow> IntegrityRow" where
  "newIntegrity a n prev entry =
     \<lparr>inEventID = aiEventID a, inTicketID = aiTicketID a, inSequence = n, inVersion = CanonicalVersion, inPrevious = prev,
      inEntry = entry\<rparr>"

definition putHead :: "HeadRow \<Rightarrow> HeadRow list \<Rightarrow> HeadRow list" where
  "putHead h hs =
     (if list_ex (\<lambda>x. hdTicketID x = hdTicketID h) hs
      then map (\<lambda>x. if hdTicketID x = hdTicketID h then h\<lparr>hdOrganizerID := hdOrganizerID x\<rparr> else x) hs
      else hs @ [h])"

definition storedAt :: "AccessClock \<Rightarrow> appendInput \<Rightarrow> time" where
  "storedAt c a = truncateMicro (if IsZero (aiOccurredAt a) then clDB c else aiOccurredAt a)"

definition entryHash :: "AccessEnv \<Rightarrow> AccessClock \<Rightarrow> appendInput \<Rightarrow> AccessState \<Rightarrow> string" where
  "entryHash env c a st =
     HashEntry (aeLifecycle env) (snd (loadHead (aiTicketID a) st))
       (CanonicalEvent (aeLifecycle env) (trailEvent a (fst (loadHead (aiTicketID a) st) + 1) (storedAt c a)))"

definition newHead :: "AccessEnv \<Rightarrow> AccessClock \<Rightarrow> LifecycleSigner \<Rightarrow> appendInput \<Rightarrow> AccessState \<Rightarrow> HeadRow" where
  "newHead env c s a st =
     signedHead env s (aiTicketID a) (aiOrganizerID a) (fst (loadHead (aiTicketID a) st) + 1) (entryHash env c a st)
       (storedAt c a)"

definition appended :: "AccessEnv \<Rightarrow> AccessClock \<Rightarrow> LifecycleSigner \<Rightarrow> appendInput \<Rightarrow> AccessState \<Rightarrow> AccessState" where
  "appended env c s a st =
     queueChange c (newHead env c s a st)
       (st\<lparr>asEvents := asEvents st @ [newEvent a (storedAt c a)],
          asIntegrity := asIntegrity st @ [newIntegrity a (fst (loadHead (aiTicketID a) st) + 1)
             (snd (loadHead (aiTicketID a) st)) (entryHash env c a st)],
          asHeads := putHead (newHead env c s a st) (asHeads st)\<rparr>)"

lemma list_ex_key: "list_ex (\<lambda>r. f r = x) rs \<longleftrightarrow> x \<in> f ` set rs"
  by (auto simp: list_ex_iff)

lemma insertEvent_Inr_iff:
  "insertEvent c a st = Inr (at, st') \<longleftrightarrow>
   aiType a \<in> set lifecycleTypes \<and> knownTicket st (aiTicketID a) \<and> aiEventID a \<notin> evID ` set (asEvents st) \<and>
   (aiType a \<in> set singletonTypes \<longrightarrow> (\<forall>e \<in> set (asEvents st). evTicketID e = aiTicketID a \<longrightarrow> evType e \<noteq> aiType a)) \<and>
   at = storedAt c a \<and> st' = st\<lparr>asEvents := asEvents st @ [newEvent a at]\<rparr>"
  unfolding insertEvent_def Let_def storedAt_def newEvent_def knownTicket_def list_ex_key list_ex_iff [of "\<lambda>e. _ e \<and> _ e"]
  by auto

lemma insertIntegrity_Inr_iff:
  "insertIntegrity r st = Inr st' \<longleftrightarrow>
   0 < inSequence r \<and> 0 < inVersion r \<and> length (inPrevious r) = 32 \<and> length (inEntry r) = 32 \<and>
   (\<forall>i \<in> set (asIntegrity st). inEventID i \<noteq> inEventID r \<and> \<not> (inTicketID i = inTicketID r \<and> inSequence i = inSequence r)) \<and>
   st' = st\<lparr>asIntegrity := asIntegrity st @ [r]\<rparr>"
  by (auto simp: insertIntegrity_def list_ex_iff)

lemma upsertHead_Inr_iff:
  "upsertHead h st = Inr st' \<longleftrightarrow>
   0 < hdSequence h \<and> 0 < hdVersion h \<and> length (hdHash h) = 32 \<and> length (hdSignature h) = 64 \<and>
   st' = st\<lparr>asHeads := putHead h (asHeads st)\<rparr>"
  by (auto simp: upsertHead_def putHead_def)

text \<open>When an append succeeds, and what it leaves.\<close>

lemma appendLifecycle_Inr_iff:
  "appendLifecycle env c a st = Inr (at, st') \<longleftrightarrow>
   (\<exists>s. aeSigner env = Some s \<and> aiType a \<in> set lifecycleTypes \<and> knownTicket st (aiTicketID a) \<and>
      aiEventID a \<notin> evID ` set (asEvents st) \<and>
      (aiType a \<in> set singletonTypes \<longrightarrow> (\<forall>e \<in> set (asEvents st). evTicketID e = aiTicketID a \<longrightarrow> evType e \<noteq> aiType a)) \<and>
      at = storedAt c a \<and> 0 < fst (loadHead (aiTicketID a) st) + 1 \<and> length (snd (loadHead (aiTicketID a) st)) = 32 \<and>
      length (entryHash env c a st) = 32 \<and> length (hdSignature (newHead env c s a st)) = 64 \<and>
      (\<forall>i \<in> set (asIntegrity st). inEventID i \<noteq> aiEventID a \<and>
         \<not> (inTicketID i = aiTicketID a \<and> inSequence i = fst (loadHead (aiTicketID a) st) + 1)) \<and>
      st' = appended env c s a st)"
proof (cases "loadHead (aiTicketID a) st")
  case (Pair n h)
  show ?thesis
    unfolding appendLifecycle_def appended_def Let_def Pair
    by (cases "aeSigner env")
      (auto simp: bindE_Inr_iff insertEvent_Inr_iff insertIntegrity_Inr_iff upsertHead_Inr_iff newIntegrity_def newHead_def
        entryHash_def signedHead_def CanonicalVersion_def Pair)
qed

lemma new_rows [simp]:
  "evID (newEvent a at) = aiEventID a" "evTicketID (newEvent a at) = aiTicketID a" "evType (newEvent a at) = aiType a"
  "inEventID (newIntegrity a n p h) = aiEventID a" "inTicketID (newIntegrity a n p h) = aiTicketID a"
  by (simp_all add: newEvent_def newIntegrity_def)

lemma option_id [simp]: "(case x of None \<Rightarrow> None | Some y \<Rightarrow> Some y) = x"
  by (cases x) simp_all

lemma find_snoc: "find P (xs @ [x]) = (case find P xs of None \<Rightarrow> if P x then Some x else None | Some y \<Rightarrow> Some y)"
  by (induction xs) auto

lemma appended_tables [simp]:
  "asTickets (appended env c s a st) = asTickets st"
  "asEvents (appended env c s a st) = asEvents st @ [newEvent a (storedAt c a)]"
  "asIntegrity (appended env c s a st) = asIntegrity st @ [newIntegrity a (fst (loadHead (aiTicketID a) st) + 1)
     (snd (loadHead (aiTicketID a) st)) (entryHash env c a st)]"
  "asHeads (appended env c s a st) = putHead (newHead env c s a st) (asHeads st)"
  "asQuarantine (appended env c s a st) = asQuarantine st"
  "asAlarms (appended env c s a st) = asAlarms st"
  by (simp_all add: appended_def queueChange_def)

lemma find_replaced:
  "find (\<lambda>x. hdTicketID x = t) (map (\<lambda>x. if hdTicketID x = hdTicketID h then h\<lparr>hdOrganizerID := hdOrganizerID x\<rparr> else x) hs) =
   (if t = hdTicketID h then map_option (\<lambda>x. h\<lparr>hdOrganizerID := hdOrganizerID x\<rparr>) (find (\<lambda>x. hdTicketID x = t) hs)
    else find (\<lambda>x. hdTicketID x = t) hs)"
  by (induction hs) auto

lemma putHead_find:
  "find (\<lambda>x. hdTicketID x = t) (putHead h hs) =
   (if t = hdTicketID h
    then Some (case find (\<lambda>x. hdTicketID x = t) hs of None \<Rightarrow> h | Some x \<Rightarrow> h\<lparr>hdOrganizerID := hdOrganizerID x\<rparr>)
    else find (\<lambda>x. hdTicketID x = t) hs)"
proof (cases "find (\<lambda>x. hdTicketID x = hdTicketID h) hs")
  case None
  then have "\<not> list_ex (\<lambda>x. hdTicketID x = hdTicketID h) hs" by (simp add: find_None_iff list_ex_iff)
  then show ?thesis using None by (auto simp: putHead_def find_snoc split: option.splits)
next
  case (Some x)
  then have "list_ex (\<lambda>x. hdTicketID x = hdTicketID h) hs" using find_SomeD [OF Some] by (auto simp: list_ex_iff)
  then show ?thesis using Some by (simp add: putHead_def find_replaced)
qed

lemma map_putHead:
  "map hdTicketID (putHead h hs) =
   (if hdTicketID h \<in> hdTicketID ` set hs then map hdTicketID hs else map hdTicketID hs @ [hdTicketID h])"
  by (simp add: putHead_def list_ex_key)

lemma putHead_ids: "hdTicketID ` set (putHead h hs) = insert (hdTicketID h) (hdTicketID ` set hs)"
  using map_putHead [of h hs] by (metis set_map list.set(1) set_append empty_set insert_absorb list.simps(15) Un_insert_right sup_bot_right)

lemma putHead_distinct: "distinct (map hdTicketID hs) \<Longrightarrow> distinct (map hdTicketID (putHead h hs))"
  by (simp add: map_putHead)

lemma putHead_set: "x \<in> set (putHead h hs) \<Longrightarrow> x \<in> set hs \<or> x = h \<or> (\<exists>y \<in> set hs. x = h\<lparr>hdOrganizerID := hdOrganizerID y\<rparr>)"
  by (auto simp: putHead_def split: if_splits)

lemma loadHead_appended:
  "loadHead t (appended env c s a st) =
   (if t = aiTicketID a then (fst (loadHead t st) + 1, entryHash env c a st) else loadHead t st)"
  by (auto simp: loadHead_def putHead_find newHead_def signedHead_def split: option.splits)

lemma chainRows_other:
  "t \<noteq> aiTicketID a \<Longrightarrow> chainRows (appended env c s a st) t = chainRows st t"
  by (auto simp: chainRows_def integrityOf_def find_snoc intro!: map_cong split: option.splits)

lemma chainRows_appended:
  assumes "\<forall>x \<in> set (chainRows st (aiTicketID a)). snd x \<noteq> None"
    and "\<forall>i \<in> set (asIntegrity st). inEventID i \<noteq> aiEventID a"
  shows "chainRows (appended env c s a st) (aiTicketID a) =
    chainRows st (aiTicketID a) @ [(newEvent a (storedAt c a), Some (newIntegrity a (fst (loadHead (aiTicketID a) st) + 1)
      (snd (loadHead (aiTicketID a) st)) (entryHash env c a st)))]"
proof -
  have old: "integrityOf (appended env c s a st) e = integrityOf st e"
    if "e \<in> set (asEvents st)" "evTicketID e = aiTicketID a" for e
    using assms(1) that by (auto simp: chainRows_def integrityOf_def find_snoc split: option.splits)
  have "find (\<lambda>i. inEventID i = aiEventID a \<and> inTicketID i = aiTicketID a) (asIntegrity st) = None"
    using assms(2) by (auto simp: find_None_iff)
  then have "integrityOf (appended env c s a st) (newEvent a (storedAt c a)) =
      Some (newIntegrity a (fst (loadHead (aiTicketID a) st) + 1) (snd (loadHead (aiTicketID a) st)) (entryHash env c a st))"
    by (simp add: integrityOf_def find_snoc)
  then show ?thesis using old by (simp add: chainRows_def)
qed

lemma headSigned_organizer: "headSigned env ring (h\<lparr>hdOrganizerID := org\<rparr>) = headSigned env ring h"
  by (simp add: headSigned_def)

lemma newHead_signed:
  "signing env s ring \<Longrightarrow> 0 < fst (loadHead (aiTicketID a) st) + 1 \<Longrightarrow> headSigned env ring (newHead env c s a st)"
  using signed_head_verifies [of "aeLifecycle env" ring s]
  by (simp add: headSigned_def newHead_def signedHead_def signing_def)

lemma append_keeps_chain:
  assumes r: "r \<in> set (asTickets st)" and kept: "chainKept env st r"
    and a: "aiTicketID a = tkID r" "aiOrderID a = tkOrderID r" "aiOrganizerID a = tkOrganizerID r" "aiSlotID a = tkSlotID r"
    and fresh: "\<forall>i \<in> set (asIntegrity st). inEventID i \<noteq> aiEventID a"
  shows "chainKept env (appended env c s a st) r"
proof -
  obtain n h where l: "loadHead (tkID r) st = (n, h)" by (cases "loadHead (tkID r) st")
  then have f: "foldE (checkRow env (tkID r) (identityOf r)) (chainRows st (tkID r)) (0, GenesisHash) = Inr (n, h)"
    using kept by (simp add: chainKept_def)
  have all: "\<forall>x \<in> set (chainRows st (aiTicketID a)). snd x \<noteq> None" using foldE_checkRow_sorted [OF f] a by simp
  have "rowEvent (tkID r) (identityOf r) (newEvent a (storedAt c a)) (n + 1) = trailEvent a (n + 1) (storedAt c a)"
    using a by (simp add: rowEvent_def trailEvent_def identityOf_def newEvent_def storedAt_def)
  then have "checkRow env (tkID r) (identityOf r)
      (newEvent a (storedAt c a), Some (newIntegrity a (n + 1) h (entryHash env c a st))) (n, h) = Inr (n + 1, entryHash env c a st)"
    using l a by (simp add: checkRow_Inr_iff newIntegrity_def entryHash_def)
  then show ?thesis
    using l f chainRows_appended [OF all fresh, of env c s] a
    by (simp add: chainKept_def loadHead_appended foldE_append)
qed

theorem append_sound:
  assumes sound: "soundTrail env ring slotOf st" and env: "signing env s ring"
    and r: "ticketRow t st = Some r" and app: "appendLifecycle env c (eventFor t (identityOf r) eid ty at0) st = Inr (at, st')"
  shows "soundTrail env ring slotOf st'"
proof -
  let ?a = "eventFor t (identityOf r) eid ty at0"
  have a: "aiTicketID ?a = tkID r" "aiOrderID ?a = tkOrderID r" "aiOrganizerID ?a = tkOrganizerID r"
    "aiSlotID ?a = tkSlotID r" "aiEventID ?a = eid" and rt: "r \<in> set (asTickets st)" "tkID r = t"
    using ticketRow_SomeD [OF r] by (auto simp: eventFor_def identityOf_def)
  have app': "st' = appended env c s ?a st" "eid \<notin> evID ` set (asEvents st)" "0 < fst (loadHead (tkID r) st) + 1"
    "\<forall>i \<in> set (asIntegrity st). inEventID i \<noteq> aiEventID ?a"
    using app env a by (auto simp: appendLifecycle_Inr_iff signing_def)
  have keys: "trailKeys st" using sound by (simp add: soundTrail_def)
  have heads: "hdTicketID ` set (asHeads st') = insert (tkID r) (hdTicketID ` set (asHeads st))"
    using putHead_ids [of "newHead env c s ?a st" "asHeads st"] app'(1) a by (simp add: newHead_def signedHead_def)
  have "distinct (map hdTicketID (asHeads st'))"
    using putHead_distinct [of "asHeads st"] keys app'(1) by (simp add: trailKeys_def)
  moreover have "\<forall>h \<in> set (asHeads st'). knownTicket st' (hdTicketID h)"
  proof
    fix h assume "h \<in> set (asHeads st')"
    then have "hdTicketID h \<in> insert (tkID r) (hdTicketID ` set (asHeads st))" unfolding heads [symmetric] by simp
    then show "knownTicket st' (hdTicketID h)" using keys rt app'(1) by (auto simp: trailKeys_def knownTicket_def)
  qed
  ultimately have "trailKeys st'"
    using keys app'(1,2) a(1,5) rt(1) by (auto simp: trailKeys_def knownTicket_def newEvent_def newIntegrity_def)
  moreover have "\<forall>h \<in> set (asHeads st'). headSigned env ring h"
    using sound newHead_signed [OF env, of ?a st c] app'(1,3) a
    by (auto simp: soundTrail_def headSigned_organizer dest!: putHead_set)
  moreover have "chainKept env st' x" if x: "x \<in> set (asTickets st)" for x
  proof (cases "tkID x = tkID r")
    case True
    then have "x = r" using keys x rt by (auto simp: trailKeys_def distinct_map inj_on_def)
    then show ?thesis
      using append_keeps_chain [OF rt(1) _ a(1-4) app'(4)] sound rt app'(1) by (auto simp: soundTrail_def)
  next
    case False
    then show ?thesis
      using sound x app'(1) a chainRows_other [of "tkID x" ?a env c s st]
      by (auto simp: soundTrail_def chainKept_def loadHead_appended)
  qed
  ultimately show ?thesis using sound app'(1) by (auto simp: soundTrail_def)
qed

end
