(* ===== verification/Access_Audit.thy ===== *)
theory Access_Audit
  imports Access_Sound
begin

text \<open>
  What the checkpoint chains keep: every head change is a signed head of its organizer's ticket,
  every checkpoint is a signed root over the changes assigned to it, linked to its predecessor,
  and every epoch seal is a signed head. The worker and the append keep this, and with a sound
  trail it makes the offline verifier pass.
\<close>

section \<open>The invariant\<close>

definition changeSigned :: "AccessEnv \<Rightarrow> LifecycleKeyring \<Rightarrow> AccessState \<Rightarrow> HeadChange \<Rightarrow> bool" where
  "changeSigned env ring st x \<longleftrightarrow>
     hcVersion x = CanonicalVersion \<and> ownerOf st (hcTicketID x) = Some (hcOrganizerID x) \<and>
     VerifyHead (aeLifecycle env) ring (hcTicketID x) (hcSequence x) (hcKeyID x) (hcHash x) (hcSignature x) = None"

definition assignedTo :: "int \<Rightarrow> HeadChange list \<Rightarrow> HeadChange list" where
  "assignedTo k xs = filter (\<lambda>x. hcCheckpointID x = Some k) xs"

definition checkpointKept :: "AccessEnv \<Rightarrow> LifecycleKeyring \<Rightarrow> HeadChange list \<Rightarrow> CheckpointRow \<Rightarrow> bool" where
  "checkpointKept env ring xs k \<longleftrightarrow>
     ckVersion k = CanonicalVersion \<and> truncateMicro (cpCreatedAt (ckBody k)) = cpCreatedAt (ckBody k) \<and>
     VerifyCheckpoint (aeLifecycle env) ring (ckBody k) (ckSignature k) = None \<and>
     (\<forall>x \<in> set (assignedTo (ckID k) xs). hcOrganizerID x = cpOrganizerID (ckBody k)) \<and>
     int (length (latestPerTicket (assignedTo (ckID k) xs))) = cpLeafCount (ckBody k) \<and>
     MerkleRoot (aeLifecycle env) (map leafOf (latestPerTicket (assignedTo (ckID k) xs))) = Inr (cpRoot (ckBody k))"

fun linkedFrom :: "LastRoot \<Rightarrow> CheckpointRow list \<Rightarrow> bool" where
  "linkedFrom p [] \<longleftrightarrow> True"
| "linkedFrom p (k # ks) \<longleftrightarrow>
     cpSequence (ckBody k) = fst p + 1 \<and> cpPreviousRoot (ckBody k) = snd p \<and>
     linkedFrom (cpSequence (ckBody k), cpRoot (ckBody k)) ks"

definition ofOrganizer :: "uuid \<Rightarrow> CheckpointRow list \<Rightarrow> CheckpointRow list" where
  "ofOrganizer org ks = filter (\<lambda>k. cpOrganizerID (ckBody k) = org) ks"

definition numbered :: "int list \<Rightarrow> bool" where
  "numbered ns \<longleftrightarrow> ns = map (\<lambda>i. int i + 1) [0..<length ns]"

definition epochSigned :: "AccessEnv \<Rightarrow> LifecycleKeyring \<Rightarrow> EpochRow \<Rightarrow> bool" where
  "epochSigned env ring e \<longleftrightarrow>
     epVersion e = CanonicalVersion \<and>
     VerifyHead (aeLifecycle env) ring (epTicketID e) (epSequence e) (epKeyID e) (epHash e) (epSignature e) = None"

definition auditKept :: "AccessEnv \<Rightarrow> LifecycleKeyring \<Rightarrow> AccessState \<Rightarrow> bool" where
  "auditKept env ring st \<longleftrightarrow>
     numbered (map hcChangeID (asChanges st)) \<and> numbered (map ckID (asCheckpoints st)) \<and>
     (\<forall>x \<in> set (asChanges st). changeSigned env ring st x \<and>
        (\<forall>k. hcCheckpointID x = Some k \<longrightarrow> k \<le> int (length (asCheckpoints st)))) \<and>
     (\<forall>k \<in> set (asCheckpoints st). checkpointKept env ring (asChanges st) k) \<and>
     (\<forall>org. linkedFrom (0, GenesisHash) (ofOrganizer org (asCheckpoints st))) \<and>
     (\<forall>e \<in> set (asEpochs st). epochSigned env ring e)"

lemma numbered_snoc: "numbered ns \<Longrightarrow> numbered (ns @ [int (length ns) + 1])"
  by (simp add: numbered_def)

lemma numbered_sorted: "numbered ns \<Longrightarrow> sorted ns"
  and numbered_distinct: "numbered ns \<Longrightarrow> distinct ns"
proof -
  assume n: "numbered ns"
  have "sorted (map (\<lambda>i. int i + 1) [0..<length ns])" "distinct (map (\<lambda>i. int i + 1) [0..<length ns])"
    by (simp_all add: sorted_iff_nth_mono distinct_map inj_on_def)
  then show "sorted ns" "distinct ns" using n unfolding numbered_def by metis+
qed

lemma auditKept_cong:
  "asTickets st' = asTickets st \<Longrightarrow> asChanges st' = asChanges st \<Longrightarrow> asCheckpoints st' = asCheckpoints st \<Longrightarrow>
   asEpochs st' = asEpochs st \<Longrightarrow> auditKept env ring st' = auditKept env ring st"
  by (simp add: auditKept_def changeSigned_def ownerOf_def ticketRow_def)

lemma auditKept_empty: "auditKept env ring emptyAccess"
  by (simp add: auditKept_def emptyAccess_def numbered_def ofOrganizer_def)

section \<open>Appends, tickets and seals keep it\<close>

lemma assignedTo_snoc: "hcCheckpointID x = None \<Longrightarrow> assignedTo k (xs @ [x]) = assignedTo k xs"
  by (simp add: assignedTo_def)

lemma checkpointKept_snoc: "hcCheckpointID x = None \<Longrightarrow> checkpointKept env ring (xs @ [x]) k = checkpointKept env ring xs k"
  by (simp add: checkpointKept_def assignedTo_snoc)

lemma appended_audit [simp]:
  "asCheckpoints (appended env c s a st) = asCheckpoints st" "asEpochs (appended env c s a st) = asEpochs st"
  by (simp_all add: appended_def queueChange_def)

lemma append_audit:
  assumes kept: "auditKept env ring st" and env: "signing env s ring" and r: "ticketRow t st = Some r"
    and app: "appendLifecycle env c (eventFor t (identityOf r) eid ty at0) st = Inr (at, st')"
  shows "auditKept env ring st'"
proof -
  let ?a = "eventFor t (identityOf r) eid ty at0"
  have st': "st' = appended env c s ?a st" "0 < fst (loadHead (aiTicketID ?a) st) + 1"
    using app env by (auto simp: appendLifecycle_Inr_iff signing_def)
  define x where "x = last (asChanges st')"
  have ch: "asChanges st' = asChanges st @ [x]" unfolding x_def st'(1) by (simp add: appended_def queueChange_def)
  have x: "hcChangeID x = int (length (asChanges st)) + 1" "hcCheckpointID x = None" "hcTicketID x = t"
    "hcOrganizerID x = tkOrganizerID r"
    unfolding x_def st'(1) by (simp_all add: appended_def queueChange_def newHead_def signedHead_def eventFor_def identityOf_def)
  have "headSigned env ring (newHead env c s ?a st)" by (rule newHead_signed [OF env st'(2)])
  then have sig: "hcVersion x = CanonicalVersion"
    "VerifyHead (aeLifecycle env) ring (hcTicketID x) (hcSequence x) (hcKeyID x) (hcHash x) (hcSignature x) = None"
    unfolding x_def st'(1) by (simp_all add: appended_def queueChange_def headSigned_def)
  have own: "ownerOf st' u = ownerOf st u" for u by (simp add: st'(1) ownerOf_def ticketRow_def)
  have "changeSigned env ring st' x" using sig x r own by (simp add: changeSigned_def ownerOf_def)
  moreover have "changeSigned env ring st' y" if "changeSigned env ring st y" for y
    using that own by (simp add: changeSigned_def)
  moreover have "numbered (map hcChangeID (asChanges st @ [x]))"
    using kept x(1) numbered_snoc [of "map hcChangeID (asChanges st)"] by (simp add: auditKept_def)
  ultimately show ?thesis
    using kept x(2) unfolding auditKept_def ch by (auto simp: checkpointKept_snoc st'(1))
qed

lemma ownerOf_added: "ownerOf st u = Some org \<Longrightarrow> ownerOf (st\<lparr>asTickets := asTickets st @ [t]\<rparr>) u = Some org"
  by (auto simp: ownerOf_def ticketRow_def find_snoc split: option.splits)

lemma ticket_added_audit: "auditKept env ring st \<Longrightarrow> auditKept env ring (st\<lparr>asTickets := asTickets st @ [t]\<rparr>)"
  using ownerOf_added [of st _ _ t] by (auto simp: auditKept_def changeSigned_def)

lemma SealEpoch_audit:
  assumes "auditKept env ring st" and "soundTrail env ring slotOf st"
  shows "auditKept env ring (snd (SealEpoch c st))"
  using assms by (auto simp: auditKept_def changeSigned_def ownerOf_def ticketRow_def SealEpoch_def Let_def epochSigned_def
      sealOf_def soundTrail_def headSigned_def)

section \<open>The worker keeps it\<close>

lemma linkedFrom_snoc:
  "linkedFrom p (ks @ [k]) \<longleftrightarrow> linkedFrom p ks \<and>
   (let q = (if ks = [] then p else (cpSequence (ckBody (last ks)), cpRoot (ckBody (last ks)))) in
    cpSequence (ckBody k) = fst q + 1 \<and> cpPreviousRoot (ckBody k) = snd q)"
  by (induction p ks rule: linkedFrom.induct) auto

lemma linkedFrom_sorted:
  "linkedFrom p ks \<Longrightarrow> sorted (map (\<lambda>k. cpSequence (ckBody k)) ks) \<and> (\<forall>k \<in> set ks. fst p < cpSequence (ckBody k))"
  by (induction p ks rule: linkedFrom.induct) force+

lemma lastCheckpoint_linked:
  assumes "linkedFrom (0, GenesisHash) (ofOrganizer org (asCheckpoints st))"
  shows "lastCheckpoint org st =
    (let ks = ofOrganizer org (asCheckpoints st) in
     if ks = [] then (0, GenesisHash) else (cpSequence (ckBody (last ks)), cpRoot (ckBody (last ks))))"
proof -
  have "sort_key (\<lambda>k. cpSequence (ckBody k)) (ofOrganizer org (asCheckpoints st)) = ofOrganizer org (asCheckpoints st)"
    using linkedFrom_sorted [OF assms] by (simp add: sort_key_id_if_sorted)
  then show ?thesis
    by (cases "ofOrganizer org (asCheckpoints st)" rule: rev_cases) (simp_all add: lastCheckpoint_def ofOrganizer_def)
qed

lemma latestPerTicket_map:
  "(\<And>x. hcTicketID (f x) = hcTicketID x) \<Longrightarrow> latestPerTicket (map f xs) = map f (latestPerTicket xs)"
  by (induction xs) (auto simp: image_iff)

lemma pendingChanges_kept:
  assumes "auditKept env ring st"
  shows "pendingChanges org st = filter (\<lambda>x. hcOrganizerID x = org \<and> hcCheckpointID x = None) (asChanges st)"
proof -
  have known: "list_ex (\<lambda>t. tkID t = hcTicketID x) (asTickets st)" if "x \<in> set (asChanges st)" for x
    using assms that by (auto simp: auditKept_def changeSigned_def ownerOf_def list_ex_iff dest!: ticketRow_SomeD)
  have s: "sorted (map hcChangeID (asChanges st))" using assms numbered_sorted by (auto simp: auditKept_def)
  have "filter (\<lambda>c. hcOrganizerID c = org \<and> hcCheckpointID c = None \<and> list_ex (\<lambda>t. tkID t = hcTicketID c) (asTickets st)) (asChanges st) =
      filter (\<lambda>x. hcOrganizerID x = org \<and> hcCheckpointID x = None) (asChanges st)"
    using known by (auto intro: filter_cong)
  then show ?thesis
    using sorted_filter [OF s] by (simp add: pendingChanges_def sort_key_id_if_sorted)
qed

text \<open>The checkpoint the worker writes: its body, and the rows it claims.\<close>

lemma CheckpointOrganizer_Inr:
  assumes "CheckpointOrganizer env c org observed st = Inr (Some body, st')" and "signing env s ring"
  obtains changes p_sequence p_root root where "changes = pendingChanges org st" and "changes \<noteq> []"
    and "checkChanges env ring st org changes = None" and "lastCheckpoint org st = (p_sequence, p_root)"
    and "MerkleRoot (aeLifecycle env) (map leafOf (latestPerTicket changes)) = Inr root"
    and "body = \<lparr>cpOrganizerID = org, cpSequence = p_sequence + 1, cpPreviousRoot = p_root, cpRoot = root,
        cpLeafCount = int (length (latestPerTicket changes)), cpKeyID = siKID s, cpCreatedAt = accessNow c 0\<rparr>"
    and "st' = assignChanges (int (length (asCheckpoints st)) + 1) (map hcChangeID changes)
        (st\<lparr>asCheckpoints := asCheckpoints st @ [\<lparr>ckID = int (length (asCheckpoints st)) + 1, ckBody = body,
           ckVersion = CanonicalVersion, ckSignature = SignCheckpoint (aeLifecycle env) s body\<rparr>]\<rparr>)"
proof -
  obtain ps pr where l: "lastCheckpoint org st = (ps, pr)" by (cases "lastCheckpoint org st")
  have env: "aeSigner env = Some s" "aeKeyring env = Some ring" using assms(2) by (auto simp: signing_def)
  obtain root where root: "MerkleRoot (aeLifecycle env) (map leafOf (latestPerTicket (pendingChanges org st))) = Inr root"
    using assms(1) env l
    by (auto simp: CheckpointOrganizer_def Let_def split: if_splits option.splits sum.splits)
  show ?thesis
    using assms(1) env l root
    by (intro that [OF refl _ _ l root])
      (auto simp: CheckpointOrganizer_def Let_def bindE_Inr_iff insertCheckpoint_def split: if_splits option.splits)
qed

lemma assignChanges_map:
  assumes "distinct (map hcChangeID xs)" and "\<And>x. x \<in> set xs \<Longrightarrow> P x \<longleftrightarrow> hcChangeID x \<in> set ids"
  shows "map (\<lambda>x. if hcChangeID x \<in> set ids then f x else x) xs = map (\<lambda>x. if P x then f x else x) xs"
  using assms(2) by (auto intro: map_cong)

theorem CheckpointOrganizer_audit:
  assumes ok: "CheckpointOrganizer env c org observed st = Inr (z, st')" and kept: "auditKept env ring st"
    and env: "signing env s ring"
  shows "auditKept env ring st'"
proof (cases z)
  case None
  then have "st' = st"
    using ok by (auto simp: CheckpointOrganizer_def Let_def bindE_Inr_iff split: if_splits option.splits sum.splits prod.splits)
  then show ?thesis using kept by simp
next
  case (Some body)
  obtain changes ps pr root where w: "changes = pendingChanges org st" "lastCheckpoint org st = (ps, pr)"
    "MerkleRoot (aeLifecycle env) (map leafOf (latestPerTicket changes)) = Inr root"
    and body: "body = \<lparr>cpOrganizerID = org, cpSequence = ps + 1, cpPreviousRoot = pr, cpRoot = root,
        cpLeafCount = int (length (latestPerTicket changes)), cpKeyID = siKID s, cpCreatedAt = accessNow c 0\<rparr>"
    and st': "st' = assignChanges (int (length (asCheckpoints st)) + 1) (map hcChangeID changes)
        (st\<lparr>asCheckpoints := asCheckpoints st @ [\<lparr>ckID = int (length (asCheckpoints st)) + 1, ckBody = body,
           ckVersion = CanonicalVersion, ckSignature = SignCheckpoint (aeLifecycle env) s body\<rparr>]\<rparr>)"
    using CheckpointOrganizer_Inr [OF ok [unfolded Some] env] by metis
  define n where "n = int (length (asCheckpoints st)) + 1"
  define P where "P x \<longleftrightarrow> hcOrganizerID x = org \<and> hcCheckpointID x = None" for x :: HeadChange
  define up where "up x = (if P x then x\<lparr>hcCheckpointID := Some n\<rparr> else x)" for x :: HeadChange
  define k where "k = \<lparr>ckID = n, ckBody = body, ckVersion = CanonicalVersion, ckSignature = SignCheckpoint (aeLifecycle env) s body\<rparr>"
  have ch: "changes = filter P (asChanges st)" unfolding w(1) pendingChanges_kept [OF kept] by (auto simp: P_def intro: filter_cong)
  have dist: "distinct (map hcChangeID (asChanges st))" using kept numbered_distinct by (auto simp: auditKept_def)
  have "x \<in> set (asChanges st) \<Longrightarrow> P x \<longleftrightarrow> hcChangeID x \<in> set (map hcChangeID changes)" for x
    using dist by (auto simp: ch distinct_map inj_on_def)
  from assignChanges_map [OF dist this]
  have changes': "asChanges st' = map up (asChanges st)" and cks: "asCheckpoints st' = asCheckpoints st @ [k]"
    and same: "asTickets st' = asTickets st" "asEpochs st' = asEpochs st"
    unfolding st' by (simp_all add: assignChanges_def up_def k_def n_def)
  have le: "j \<le> int (length (asCheckpoints st))" if "x \<in> set (asChanges st)" "hcCheckpointID x = Some j" for x j
    using kept that by (auto simp: auditKept_def)
  have old: "assignedTo j (map up (asChanges st)) = assignedTo j (asChanges st)" if "j \<le> int (length (asCheckpoints st))" for j
  proof -
    have "assignedTo j (map up xs) = assignedTo j xs" for xs
      using that by (induction xs) (auto simp: assignedTo_def up_def P_def n_def)
    then show ?thesis .
  qed
  have "hcCheckpointID x \<noteq> Some n" if "x \<in> set (asChanges st)" for x using le [OF that, of n] by (auto simp: n_def)
  moreover have "assignedTo n (map up xs) = map (hcCheckpointID_update (\<lambda>_. Some n)) (filter P xs)"
    if "\<And>x. x \<in> set xs \<Longrightarrow> hcCheckpointID x \<noteq> Some n" for xs
    using that by (induction xs) (auto simp: assignedTo_def up_def P_def)
  ultimately have new: "assignedTo n (map up (asChanges st)) = map (hcCheckpointID_update (\<lambda>_. Some n)) changes"
    unfolding ch by blast
  have latest: "latestPerTicket (map (hcCheckpointID_update (\<lambda>_. Some n)) changes) =
      map (hcCheckpointID_update (\<lambda>_. Some n)) (latestPerTicket changes)" by (rule latestPerTicket_map) simp
  have sgn: "VerifyCheckpoint (aeLifecycle env) ring body (SignCheckpoint (aeLifecycle env) s body) = None"
    using signed_checkpoint_verifies [of "aeLifecycle env" ring s body] env body by (simp add: signing_def)
  have of_org: "\<forall>x \<in> set changes. hcOrganizerID x = org" by (simp add: ch P_def)
  have leaf: "leafOf (hcCheckpointID_update f x) = leafOf x" for f x by (simp add: leafOf_def)
  have k_kept: "checkpointKept env ring (map up (asChanges st)) k"
    using w(3) sgn of_org
    by (auto simp: checkpointKept_def k_def new latest body comp_def leaf accessNow_def)
  have ids: "ckID x \<le> int (length (asCheckpoints st))" if "x \<in> set (asCheckpoints st)" for x
  proof -
    have "ckID x \<in> set (map (\<lambda>i. int i + 1) [0..<length (asCheckpoints st)])"
      using kept that unfolding auditKept_def numbered_def by (metis image_eqI length_map list.set_map)
    then show ?thesis by auto
  qed
  have "checkpointKept env ring (map up (asChanges st)) x" if "x \<in> set (asCheckpoints st)" for x
    using kept that old [OF ids [OF that]] by (simp add: auditKept_def checkpointKept_def)
  moreover have "linkedFrom (0, GenesisHash) (ofOrganizer o' (asCheckpoints st @ [k]))" for o'
  proof (cases "o' = org")
    case True
    then show ?thesis
      using kept lastCheckpoint_linked [of org st] w(2)
      by (auto simp: auditKept_def ofOrganizer_def k_def body linkedFrom_snoc Let_def split: if_splits)
  next
    case False
    then show ?thesis using kept by (simp add: auditKept_def ofOrganizer_def k_def body)
  qed
  moreover have "numbered (map ckID (asCheckpoints st @ [k]))"
    using kept numbered_snoc [of "map ckID (asCheckpoints st)"] by (simp add: auditKept_def k_def n_def)
  moreover have "numbered (map (hcChangeID \<circ> up) (asChanges st))"
  proof -
    have "map (hcChangeID \<circ> up) (asChanges st) = map hcChangeID (asChanges st)" by (simp add: up_def)
    then show ?thesis using kept unfolding auditKept_def by metis
  qed
  moreover have "changeSigned env ring st' (up x) \<and> (\<forall>j. hcCheckpointID (up x) = Some j \<longrightarrow> j \<le> int (length (asCheckpoints st')))"
    if "x \<in> set (asChanges st)" for x
    using kept that le [OF that]
    by (auto simp: auditKept_def changeSigned_def up_def ownerOf_def ticketRow_def same cks n_def)
  ultimately show ?thesis
    using kept k_kept by (auto simp: auditKept_def changes' cks same)
qed

end
