(* ===== verification/Access_Honest.thy ===== *)
theory Access_Honest
  imports Access_Audit
begin

text \<open>
  Honest states of the access store and the operations that keep them: every chain verifies,
  every head and snapshot is signed, nothing is quarantined and no integrity alarm is owed.
\<close>

section \<open>Honest states\<close>

text \<open>
  Where every chain verifies nothing is ever quarantined: a state is honest when its trail is
  sound, its changes, checkpoints and seals pass the audit, its quarantine table is empty and no
  integrity alarm is owed.
\<close>

definition integrityAlarm :: "AlarmData \<Rightarrow> bool" where
  "integrityAlarm d = (case d of IntegrityAlarm org t reason disposition mode \<Rightarrow> True | _ \<Rightarrow> False)"

definition honest :: "AccessEnv \<Rightarrow> LifecycleKeyring \<Rightarrow> (uuid \<Rightarrow> uuid \<Rightarrow> uuid) \<Rightarrow> AccessState \<Rightarrow> bool" where
  "honest env ring slotOf st \<longleftrightarrow>
     soundTrail env ring slotOf st \<and> auditKept env ring st \<and> asQuarantine st = [] \<and>
     (\<forall>a \<in> set (asAlarms st). \<not> integrityAlarm (alData a))"

lemma honest_empty: "honest env ring slotOf emptyAccess"
  using soundTrail_empty auditKept_empty by (simp add: honest_def) (simp add: emptyAccess_def)

definition auditOf where
  "auditOf st = (asChanges st, asCheckpoints st, asEpochs st)"

lemma honest_cong:
  "trailOf st' = trailOf st \<Longrightarrow> auditOf st' = auditOf st \<Longrightarrow> asQuarantine st' = asQuarantine st \<Longrightarrow>
   asAlarms st' = asAlarms st \<Longrightarrow> honest env ring slotOf st' = honest env ring slotOf st"
  using soundTrail_cong [of st' st env ring slotOf] auditKept_cong [of st' st env ring]
  by (simp add: honest_def auditOf_def trailOf_eq)

lemma foldE_invariant:
  "foldE step xs a = Inr b \<Longrightarrow> P a \<Longrightarrow> (\<And>x a b. x \<in> set xs \<Longrightarrow> P a \<Longrightarrow> step x a = Inr b \<Longrightarrow> P b) \<Longrightarrow> P b"
  by (induction xs arbitrary: a) (auto simp: bindE_Inr_iff)

lemma append_honest:
  assumes "honest env ring slotOf st" and "signing env s ring" and "ticketRow t st = Some r"
    and "appendLifecycle env c (eventFor t (identityOf r) eid ty at0) st = Inr (at, st')"
  shows "honest env ring slotOf st'"
proof -
  have "soundTrail env ring slotOf st'" using append_sound [OF _ assms(2-4)] assms(1) by (simp add: honest_def)
  moreover have "auditKept env ring st'" using append_audit [OF _ assms(2-4)] assms(1) by (simp add: honest_def)
  moreover have "asQuarantine st' = asQuarantine st \<and> asAlarms st' = asAlarms st"
    using assms(4) by (auto simp: appendLifecycle_Inr_iff)
  ultimately show ?thesis using assms(1) by (simp add: honest_def)
qed

lemma append_tickets: "appendLifecycle env c a st = Inr (at, st') \<Longrightarrow> asTickets st' = asTickets st"
  by (auto simp: appendLifecycle_Inr_iff)

lemma ticketRow_tickets: "asTickets st' = asTickets st \<Longrightarrow> ticketRow t st' = ticketRow t st"
  by (simp add: ticketRow_def)

lemma honest_verifies:
  "honest env ring slotOf st \<Longrightarrow> signing env s ring \<Longrightarrow> ticketRow t st = Some r \<Longrightarrow>
   verifyTicketChain env st t (identityOf r) = None"
  using kept_chain_verifies [of env ring slotOf st t r] by (simp add: honest_def signing_def)

lemma honest_not_degraded: "honest env ring slotOf st \<Longrightarrow> degradedAdmission st t = None"
  by (simp add: honest_def degradedAdmission_def)

lemma oweRow_honest:
  "oweRow k c d st = Inr st' \<Longrightarrow> \<not> integrityAlarm d \<Longrightarrow> honest env ring slotOf st \<Longrightarrow> honest env ring slotOf st'"
  using soundTrail_cong [of st' st env ring slotOf] auditKept_cong [of st' st env ring]
  by (auto simp: oweRow_def honest_def trailOf_eq split: if_splits)

lemma storeConflict_honest: "honest env ring slotOf (storeConflict r st) = honest env ring slotOf st"
  by (rule honest_cong) (simp_all add: storeConflict_def trailOf_eq auditOf_def)

lemma transitionConflict_honest:
  "transitionConflict env c t who versions status x st = Inr st' \<Longrightarrow> honest env ring slotOf st \<Longrightarrow> honest env ring slotOf st'"
  unfolding transitionConflict_def Let_def
  by (erule oweRow_honest) (simp_all add: storeConflict_honest integrityAlarm_def)

lemma evaluatePolicyAlarms_honest:
  assumes "evaluatePolicyAlarms env c t who p st = Inr st'" and "honest env ring slotOf st"
  shows "honest env ring slotOf st'"
proof -
  obtain st1 where
    r: "foldE (transitionConflict env c t who (conflictVersions st t) ''raised'')
        (fst (DiffPolicyConflicts (conflictStatus st t) (DerivePolicyConflicts p (admissionFacts st t)))) st = Inr st1"
    and w: "foldE (transitionConflict env c t who (conflictVersions st t) ''withdrawn'')
        (snd (DiffPolicyConflicts (conflictStatus st t) (DerivePolicyConflicts p (admissionFacts st t)))) st1 = Inr st'"
    using assms(1) by (auto simp: evaluatePolicyAlarms_Inr_iff)
  from r have "honest env ring slotOf st1"
    by (rule foldE_invariant) (use assms(2) in \<open>auto intro: transitionConflict_honest\<close>)
  with w show ?thesis by (rule foldE_invariant) (auto intro: transitionConflict_honest)
qed

section \<open>Every operation keeps a state honest\<close>

lemma takenAs_Inr [simp]: "takenAs e r = Inr v \<longleftrightarrow> r = Inr v"
  by (auto simp: takenAs_def split: sum.splits access_error.splits)

lemma credentialOf_Inr:
  "credentialOf st t order org slot = Inr who \<Longrightarrow> \<exists>r. ticketRow t st = Some r \<and> who = identityOf r"
  by (auto simp: credentialOf_def split: option.splits if_splits)

text \<open>What a verified scan does to the tables: nothing, or one append and, on a pass, its projection.\<close>

lemma redeemVerified_effect:
  assumes "redeemVerified env c i who st = Inr (z, st')" and "degradedAdmission st (riTicketID i) = None"
  shows "st' = st \<or> (\<exists>eid at0 at. appendLifecycle env c (eventFor (riTicketID i) who eid ''redeemed'' at0) st = Inr (at, st'))"
proof -
  obtain v where "(if riOccurrenceID i = uuid_Nil then Inr None
      else replayByOccurrence st (riTicketID i) (riOccurrenceID i) ''entry'') = Inr v"
    using assms(1) by (auto simp: redeemVerified_def Let_def bindE_Inr_iff)
  then show ?thesis
    using assms
    by (cases v; cases "find (\<lambda>e. evTicketID e = riTicketID i \<and> evType e = ''redeemed'') (asEvents st)")
      (auto simp: redeemVerified_def Let_def bindE_Inr_iff)
qed

lemma admitVerified_effect:
  assumes "admitVerified env c i direction p who st = Inr (z, st')" and "degradedAdmission st (riTicketID i) = None"
  shows "st' = st \<or> (\<exists>at st1. appendLifecycle env c
      (eventFor (riTicketID i) who (riOccurrenceID i) direction (riOccurredAt i)) st = Inr (at, st1) \<and>
      evaluatePolicyAlarms env c (riTicketID i) who p st1 = Inr st' \<and> rrDecision z = DecisionAccepted \<and>
      EvaluateLiveAdmission p (admissionFacts st (riTicketID i)) direction = DecisionAccepted)"
proof -
  obtain v where "replayAdmissionOccurrence st (riTicketID i) (riOccurrenceID i) direction = Inr v"
    using assms(1) by (auto simp: admitVerified_def Let_def bindE_Inr_iff)
  then show ?thesis
    using assms
    by (cases v; cases "EvaluateLiveAdmission p (admissionFacts st (riTicketID i)) direction = DecisionAccepted")
      (auto simp: admitVerified_def Let_def bindE_Inr_iff admitted_def)
qed

lemma redeemVerified_honest:
  "redeemVerified env c i (identityOf r) st = Inr (z, st') \<Longrightarrow> ticketRow (riTicketID i) st = Some r \<Longrightarrow>
   honest env ring slotOf st \<Longrightarrow> signing env s ring \<Longrightarrow> honest env ring slotOf st'"
  using redeemVerified_effect [OF _ honest_not_degraded] append_honest by metis

lemma redeemSingle_honest:
  assumes "redeemSingle env c i st = Inr (z, st')" and h: "honest env ring slotOf st" and s: "signing env s ring"
  shows "honest env ring slotOf st'"
proof -
  obtain who where who: "credentialOf st (riTicketID i) (riOrderID i) (riOrganizerID i) (riSlotID i) = Inr who"
    and rest: "(if ticketRefunded st (riTicketID i) then Inr (denied DecisionRefunded (accessNow c 0), st)
      else if ticketExchanged st (riTicketID i) then Inr (denied DecisionExchanged (accessNow c 0), st)
      else (case verifyTicketChain env st (riTicketID i) who of
          Some cause \<Rightarrow> degradedScan env c (riTicketID i) who (riOccurrenceID i) ''entry'' cause st
        | None \<Rightarrow> redeemVerified env c i who st)) = Inr (z, st')"
    using assms(1) by (auto simp: redeemSingle_def Let_def bindE_Inr_iff split: if_splits)
  obtain r where r: "ticketRow (riTicketID i) st = Some r" "who = identityOf r" using credentialOf_Inr [OF who] by auto
  show ?thesis
    using rest r h honest_verifies [OF h s r(1)] redeemVerified_honest [OF _ r(1) h s]
    by (auto split: if_splits)
qed

lemma admitVerified_honest:
  assumes "admitVerified env c i direction p (identityOf r) st = Inr (z, st')" and "ticketRow (riTicketID i) st = Some r"
    and h: "honest env ring slotOf st" and s: "signing env s ring"
  shows "honest env ring slotOf st'"
  using admitVerified_effect [OF assms(1) honest_not_degraded [OF h]] append_honest [OF h s assms(2)] h
    evaluatePolicyAlarms_honest
  by metis

lemma admitPass_honest:
  assumes "admitPass env c i direction p st = Inr (z, st')" and h: "honest env ring slotOf st" and s: "signing env s ring"
  shows "honest env ring slotOf st'"
proof (cases "riOccurrenceID i = uuid_Nil")
  case True
  then show ?thesis using assms(1) h by (simp add: admitPass_def)
next
  case False
  obtain who where who: "credentialOf st (riTicketID i) (riOrderID i) (riOrganizerID i) (riSlotID i) = Inr who"
    and rest: "(if ticketRefunded st (riTicketID i) then Inr (denied DecisionRefunded (accessNow c 0), st)
      else if ticketExchanged st (riTicketID i) then Inr (denied DecisionExchanged (accessNow c 0), st)
      else (case verifyTicketChain env st (riTicketID i) who of
          Some cause \<Rightarrow>
            if direction = ''exit'' then exitUnverified c (riTicketID i) who (riOccurrenceID i) cause st
            else degradedScan env c (riTicketID i) who (riOccurrenceID i) direction cause st
        | None \<Rightarrow> admitVerified env c i direction p who st)) = Inr (z, st')"
    using assms(1) False by (auto simp: admitPass_def Let_def bindE_Inr_iff split: if_splits)
  obtain r where r: "ticketRow (riTicketID i) st = Some r" "who = identityOf r" using credentialOf_Inr [OF who] by auto
  show ?thesis
    using rest r h honest_verifies [OF h s r(1)] admitVerified_honest [OF _ r(1) h s]
    by (auto split: if_splits)
qed

lemma Scan_honest:
  "Scan env c i dir st = Inr (z, st') \<Longrightarrow> honest env ring slotOf st \<Longrightarrow> signing env s ring \<Longrightarrow> honest env ring slotOf st'"
  by (auto simp: Scan_def Let_def split: if_splits dest: redeemSingle_honest admitPass_honest)

lemma ticket_added:
  assumes h: "honest env ring slotOf st" and fresh: "tkID t \<notin> tkID ` set (asTickets st)"
    and slot: "tkSlotID t = slotOf (tkOrderID t) (tkOrganizerID t)"
  shows "honest env ring slotOf (st\<lparr>asTickets := asTickets st @ [t]\<rparr>)" (is "honest env ring slotOf ?st")
proof -
  have k: "trailKeys st" using h by (simp add: honest_def soundTrail_def)
  have rows: "chainRows ?st u = chainRows st u" "loadHead u ?st = loadHead u st" for u
    by (simp_all add: chainRows_def integrityOf_def loadHead_def)
  have "chainRows st (tkID t) = []"
    using k fresh unfolding trailKeys_def knownTicket_def chainRows_def by (simp add: filter_empty_conv) metis
  moreover have "find (\<lambda>x. hdTicketID x = tkID t) (asHeads st) = None"
    using k fresh unfolding trailKeys_def knownTicket_def by (simp add: find_None_iff) metis
  then have "loadHead (tkID t) st = (0, GenesisHash)" by (simp add: loadHead_def)
  ultimately have "chainKept env ?st t" by (simp add: chainKept_def rows)
  moreover have "chainKept env ?st r" if "chainKept env st r" for r using that by (simp add: chainKept_def rows)
  moreover have "trailKeys ?st" using k fresh by (auto simp: trailKeys_def knownTicket_def)
  ultimately show ?thesis using h slot ticket_added_audit by (auto simp: honest_def soundTrail_def)
qed

lemma insertIssuedTicket_honest:
  assumes ok: "insertIssuedTicket env c t st = Inr st'" and h: "honest env ring slotOf st" and s: "signing env s ring"
    and slot: "tkSlotID t = slotOf (tkOrderID t) (tkOrganizerID t)"
  shows "honest env ring slotOf st'"
proof -
  let ?t = "t\<lparr>tkIssuedAt := truncateMicro (tkIssuedAt t)\<rparr>"
  let ?st = "st\<lparr>asTickets := asTickets st @ [?t]\<rparr>"
  have fresh: "tkID t \<notin> tkID ` set (asTickets st)" and app: "\<exists>at. appendLifecycle env c (eventFor (tkID t) (identityOf ?t)
      (aeSHA1 env (uuid_String (tkID t) @ '':issued'')) ''issued'' (tkIssuedAt t)) ?st = Inr (at, st')"
    using ok by (auto simp: insertIssuedTicket_def bindE_Inr_iff list_ex_key identityOf_def split: if_splits)
  have h1: "honest env ring slotOf ?st" using ticket_added [OF h, of ?t] fresh slot by simp
  have "ticketRow (tkID t) ?st = Some ?t"
    using ticketRow_known [of ?st ?t] h1 by (simp add: honest_def soundTrail_def)
  from append_honest [OF h1 s this] app show ?thesis by auto
qed

lemma issue_loop_honest:
  "foldE (insertIssuedTicket env c) ts st = Inr st' \<Longrightarrow> honest env ring slotOf st \<Longrightarrow> signing env s ring \<Longrightarrow>
   \<forall>t \<in> set ts. tkSlotID t = slotOf (tkOrderID t) (tkOrganizerID t) \<Longrightarrow> honest env ring slotOf st'"
  by (erule foldE_invariant) (auto intro: insertIssuedTicket_honest)

lemma untouched_honest:
  "honest env ring slotOf (st\<lparr>asConsumed := a\<rparr>) = honest env ring slotOf st"
  "honest env ring slotOf (st\<lparr>asDeliveries := b\<rparr>) = honest env ring slotOf st"
  "honest env ring slotOf (st\<lparr>asPolicies := p\<rparr>) = honest env ring slotOf st"
  "honest env ring slotOf (st\<lparr>asRefusals := f\<rparr>) = honest env ring slotOf st"
  "honest env ring slotOf (st\<lparr>asBatches := g\<rparr>) = honest env ring slotOf st"
  "honest env ring slotOf (st\<lparr>asRedeliveries := i\<rparr>) = honest env ring slotOf st"
  "honest env ring slotOf (st\<lparr>asAttempts := j\<rparr>) = honest env ring slotOf st"
  "honest env ring slotOf (st\<lparr>asModes := m\<rparr>) = honest env ring slotOf st"
  by (rule honest_cong; simp add: trailOf_eq auditOf_def)+

lemma Issue_honest:
  "Issue env c e ts st = Inr st' \<Longrightarrow> honest env ring slotOf st \<Longrightarrow> signing env s ring \<Longrightarrow>
   \<forall>t \<in> set ts. tkSlotID t = slotOf (tkOrderID t) (tkOrganizerID t) \<Longrightarrow> honest env ring slotOf st'"
  by (auto simp: Issue_def untouched_honest split: if_splits dest!: issue_loop_honest)

lemma MarkDelivered_honest:
  assumes ok: "MarkDelivered env c t m st = Inr st'" and h: "honest env ring slotOf st" and s: "signing env s ring"
  shows "honest env ring slotOf st'"
proof -
  obtain r where r: "ticketRow t st = Some r" using ok by (auto simp: MarkDelivered_def split: option.splits)
  define st1 where "st1 = st\<lparr>asDeliveries := map (\<lambda>d. if deTicketID d = t \<and> deMessageID d = m
      then d\<lparr>deAcceptedAt := Some (clDB c)\<rparr> else d) (asDeliveries st)\<rparr>"
  have h1: "honest env ring slotOf st1" "ticketRow t st1 = Some r"
    using h r by (simp_all add: st1_def untouched_honest ticketRow_def)
  have "st' = st1 \<or> (\<exists>at. appendLifecycle env c
      (eventFor t (identityOf r) (aeSHA1 env (uuid_String t @ '':delivered'')) ''delivered'' 0) st1 = Inr (at, st'))"
    using ok r by (auto simp: MarkDelivered_def Let_def st1_def [symmetric] bindE_Inr_iff split: if_splits)
  then show ?thesis using append_honest [OF h1(1) s h1(2)] h1(1) by blast
qed

lemma DeliveryID_honest:
  "DeliveryID env t st = Inr (z, st') \<Longrightarrow> honest env ring slotOf st \<Longrightarrow> honest env ring slotOf st'"
  by (auto simp: DeliveryID_def Let_def untouched_honest split: if_splits)

lemma recordEvent_honest:
  "recordEvent env c x (identityOf r) ty st = Inr (at, st') \<Longrightarrow> ticketRow (roTicketID x) st = Some r \<Longrightarrow>
   honest env ring slotOf st \<Longrightarrow> signing env s ring \<Longrightarrow> honest env ring slotOf st'"
  by (auto simp: recordEvent_def dest: append_honest)

lemma owedConflict_honest:
  "owedConflict c x who st = Inr st' \<Longrightarrow> honest env ring slotOf st \<Longrightarrow> honest env ring slotOf st'"
  unfolding owedConflict_def oweConflictAlarm_def by (erule oweRow_honest) (simp_all add: integrityAlarm_def)

lemma recordPass_honest:
  "recordPass env c x direction p (identityOf r) st = Inr (z, st') \<Longrightarrow> ticketRow (roTicketID x) st = Some r \<Longrightarrow>
   honest env ring slotOf st \<Longrightarrow> signing env s ring \<Longrightarrow> honest env ring slotOf st'"
  unfolding recordPass_def bindE_Inr_iff
  by (auto simp: bindE_Inr_iff intro: evaluatePolicyAlarms_honest recordEvent_honest)

lemma recordSingle_honest:
  "recordSingle env c x (identityOf r) st = Inr (z, st') \<Longrightarrow> ticketRow (roTicketID x) st = Some r \<Longrightarrow>
   honest env ring slotOf st \<Longrightarrow> signing env s ring \<Longrightarrow> honest env ring slotOf st'"
  unfolding recordSingle_def bindE_Inr_iff Let_def
  by (auto simp: bindE_Inr_iff split: if_splits intro: owedConflict_honest recordEvent_honest)

text \<open>An occurrence of a known ticket: its answer is a replay, or what the chain's state makes of it.\<close>

lemma ReconcileAdmission_Inr:
  assumes "ReconcileAdmission env c x st = Inr (z, st')"
  obtains (known) r direction v where "ticketRow (roTicketID x) st = Some r"
    and "direction = (if roType x = '''' then ''entry'' else roType x)" and "direction = ''entry'' \<or> direction = ''exit''"
    and "isUUIDv4 (roOccurrenceID x)" and "roOccurrenceID x \<noteq> uuid_Nil" and "\<not> IsZero (roOccurredAt x)"
    and "credentialOf st (roTicketID x) (roOrderID x) (roOrganizerID x) (roSlotID x) = Inr (identityOf r)"
    and "IsPass (slotPolicy st (tkSlotID r)) \<or> direction \<noteq> ''exit''"
    and "reconcileReplay st (roTicketID x) (roOccurrenceID x) direction = Inr v"
    and "(case v of
            Some at \<Rightarrow> Inr (reconciled c x ReconcileSynced at, st)
          | None \<Rightarrow>
              (case verifyTicketChain env st (roTicketID x) (identityOf r) of
                 Some cause \<Rightarrow> recordQuarantined env c x direction (slotPolicy st (tkSlotID r)) (identityOf r) cause st
               | None \<Rightarrow> if IsPass (slotPolicy st (tkSlotID r)) then recordPass env c x direction (slotPolicy st (tkSlotID r)) (identityOf r) st
                   else recordSingle env c x (identityOf r) st)) = Inr (z, st')"
proof -
  obtain who where who: "credentialOf st (roTicketID x) (roOrderID x) (roOrganizerID x) (roSlotID x) = Inr who"
    using assms by (auto simp: ReconcileAdmission_def Let_def bindE_Inr_iff split: if_splits)
  obtain r where r: "ticketRow (roTicketID x) st = Some r" "who = identityOf r" using credentialOf_Inr [OF who] by auto
  have slot: "tiSlotID (identityOf r) = tkSlotID r" by (simp add: identityOf_def)
  obtain v where v: "reconcileReplay st (roTicketID x) (roOccurrenceID x) (if roType x = '''' then ''entry'' else roType x) = Inr v"
    using assms who r by (auto simp: ReconcileAdmission_def Let_def bindE_Inr_iff split: if_splits)
  show ?thesis
    using assms who r v
    by (intro known [OF r(1) refl, of v])
      (auto simp: ReconcileAdmission_def Let_def bindE_Inr_iff slot split: if_splits cong: option.case_cong)
qed

lemma ReconcileAdmission_honest:
  assumes "ReconcileAdmission env c x st = Inr (z, st')" and h: "honest env ring slotOf st" and s: "signing env s ring"
  shows "honest env ring slotOf st'"
  using assms(1)
proof (cases rule: ReconcileAdmission_Inr)
  case (known r direction v)
  then show ?thesis
    using h honest_verifies [OF h s known(1)] recordPass_honest [OF _ known(1) h s] recordSingle_honest [OF _ known(1) h s]
    by (cases v) (auto split: if_splits)
qed

lemma RecordRevocationRefusal_honest:
  "RecordRevocationRefusal x d st = Inr (z, st') \<Longrightarrow> honest env ring slotOf st \<Longrightarrow> honest env ring slotOf st'"
  by (auto simp: RecordRevocationRefusal_def Let_def bindE_Inr_iff untouched_honest split: if_splits option.splits)

lemma RecordAdmission_honest:
  assumes ok: "RecordAdmission env c x st = Inr (z, st')" and h: "honest env ring slotOf st" and s: "signing env s ring"
  shows "honest env ring slotOf st'"
proof -
  obtain who where who: "credentialOf st (roTicketID x) (roOrderID x) (roOrganizerID x) (roSlotID x) = Inr who"
    using ok by (auto simp: RecordAdmission_def Let_def bindE_Inr_iff split: if_splits)
  obtain r where r: "ticketRow (roTicketID x) st = Some r" "who = identityOf r" using credentialOf_Inr [OF who] by auto
  have "st' = st \<or> (\<exists>at. recordEvent env c x who (roType x) st = Inr (at, st'))"
    using ok who by (auto simp: RecordAdmission_def Let_def bindE_Inr_iff split: if_splits option.splits)
  then show ?thesis using h recordEvent_honest [OF _ r(1) h s] r(2) by blast
qed

text \<open>The tickets of one order share an identity, so each can be voided under that of the first.\<close>

lemma orderTickets_row:
  assumes "honest env ring slotOf st" and "t \<in> set (orderTickets order org st)"
  obtains r where "ticketRow t st = Some r"
    and "identityOf r = \<lparr>tiOrderID = order, tiOrganizerID = org, tiSlotID = slotOf order org\<rparr>"
proof -
  obtain r where r: "r \<in> set (asTickets st)" "tkID r = t" "tkOrderID r = order" "tkOrganizerID r = org"
    using assms(2) by (auto simp: orderTickets_def)
  have "trailKeys st" "tkSlotID r = slotOf order org" using assms(1) r by (auto simp: honest_def soundTrail_def)
  then show ?thesis using that [of r] ticketRow_known [of st r] r by (simp add: identityOf_def)
qed

lemma voidTicket_honest:
  assumes "foldE (voidTicket env c (identityOf r0) ty eid) ts st = Inr st'" and h: "honest env ring slotOf st"
    and s: "signing env s ring" and r0: "ticketRow t0 st = Some r0" and t0: "t0 \<in> set (orderTickets order org st)"
    and ts: "set ts \<subseteq> set (orderTickets order org st)"
  shows "honest env ring slotOf st' \<and> asTickets st' = asTickets st"
  using assms(1)
proof (rule foldE_invariant [where P = "\<lambda>x. honest env ring slotOf x \<and> asTickets x = asTickets st"])
  fix t a b
  assume t: "t \<in> set ts" and a: "honest env ring slotOf a \<and> asTickets a = asTickets st"
    and b: "voidTicket env c (identityOf r0) ty eid t a = Inr b"
  have "identityOf r0 = \<lparr>tiOrderID = order, tiOrganizerID = org, tiSlotID = slotOf order org\<rparr>"
    using orderTickets_row [OF h t0] r0 by (metis option.inject)
  moreover obtain r where r: "ticketRow t st = Some r"
    "identityOf r = \<lparr>tiOrderID = order, tiOrganizerID = org, tiSlotID = slotOf order org\<rparr>"
    using orderTickets_row [OF h] t ts by blast
  ultimately have "\<exists>at. appendLifecycle env c (eventFor t (identityOf r) (eid t) ty 0) a = Inr (at, b)"
    using b by (auto simp: voidTicket_def bindE_Inr_iff)
  moreover have "ticketRow t a = Some r" using r(1) a by (simp add: ticketRow_def)
  ultimately show "honest env ring slotOf b \<and> asTickets b = asTickets st"
    using a append_honest [OF _ s] append_tickets by metis
qed (use h in simp)

lemma orderTickets_tickets: "asTickets st' = asTickets st \<Longrightarrow> orderTickets order org st' = orderTickets order org st"
  by (simp add: orderTickets_def)

lemma RefundOrderTickets_Inr:
  assumes "RefundOrderTickets env c org order k q st = Inr (b, st')"
  shows "st' = st \<or>
    (\<exists>ids r. ids \<noteq> [] \<and> set ids \<subseteq> set (orderTickets order org st) \<and> ticketRow (hd ids) st = Some r \<and>
       foldE (voidTicket env c (identityOf r) ''refunded'' (refundEventID env k)) ids
         (st\<lparr>asBatches := asBatches st @ [\<lparr>baOrganizerID = org, baRefundID = k, baOrderID = order, baQuantity = q\<rparr>]\<rparr>) = Inr st')"
proof -
  define free where "free = filter (\<lambda>t. refundThatVoided st t = uuid_Nil) (orderTickets order org st)"
  define st1 where "st1 = st\<lparr>asBatches := asBatches st @ [\<lparr>baOrganizerID = org, baRefundID = k, baOrderID = order, baQuantity = q\<rparr>]\<rparr>"
  have sub: "set (take (nat q) free) \<subseteq> set (orderTickets order org st)"
    using set_take_subset [of "nat q" free] by (auto simp: free_def)
  have row: "ticketRow u st1 = ticketRow u st" for u by (simp add: st1_def ticketRow_def)
  show ?thesis
  proof (cases "st' = st")
    case False
    then have q: "\<not> q < 1" "\<not> int (length free) < q" and
      "\<exists>r. ticketRow (hd (take (nat q) free)) st = Some r \<and>
         foldE (voidTicket env c (identityOf r) ''refunded'' (refundEventID env k)) (take (nat q) free) st1 = Inr st'"
      using assms unfolding RefundOrderTickets_def Let_def free_def [symmetric] st1_def [symmetric]
      by (auto simp: bindE_Inr_iff row split: if_splits option.splits)
    moreover have "take (nat q) free \<noteq> []" using q by auto
    ultimately show ?thesis using sub unfolding st1_def by blast
  qed simp
qed

lemma RefundOrderTickets_honest:
  assumes "RefundOrderTickets env c org order k q st = Inr (b, st')" and h: "honest env ring slotOf st" and s: "signing env s ring"
  shows "honest env ring slotOf st'"
  using RefundOrderTickets_Inr [OF assms(1)]
proof (elim disjE exE conjE)
  fix ids r
  let ?st = "st\<lparr>asBatches := asBatches st @ [\<lparr>baOrganizerID = org, baRefundID = k, baOrderID = order, baQuantity = q\<rparr>]\<rparr>"
  assume ids: "ids \<noteq> []" "set ids \<subseteq> set (orderTickets order org st)" and r: "ticketRow (hd ids) st = Some r"
    and loop: "foldE (voidTicket env c (identityOf r) ''refunded'' (refundEventID env k)) ids ?st = Inr st'"
  have "orderTickets order org ?st = orderTickets order org st" "ticketRow (hd ids) ?st = Some r"
    using r by (simp_all add: orderTickets_def ticketRow_def)
  moreover have "hd ids \<in> set (orderTickets order org st)" using ids hd_in_set by blast
  ultimately show ?thesis
    using voidTicket_honest [OF loop _ s, of slotOf "hd ids" order org] h ids by (simp add: untouched_honest)
qed (use h in simp)

lemma SwitchExchange_Inr:
  assumes "SwitchExchange env c x st = Inr st'" and new: "swEventID x \<notin> set (asConsumed st)"
  obtains st1 source r st2 where "st1 = st\<lparr>asConsumed := asConsumed st @ [swEventID x]\<rparr>"
    and "source = orderTickets (swSourceOrderID x) (swOrganizerID x) st1" and "source \<noteq> []"
    and "length (swTickets x) \<le> length source" and "switchRefused st1 source = None" and "ticketRow (hd source) st1 = Some r"
    and "foldE (voidTicket env c (identityOf r) ''exchanged'' (exchangedEventID env (swExchangeID x))) source st1 = Inr st2"
    and "foldE (insertIssuedTicket env c) (swTickets x) st2 = Inr st'"
proof -
  define st1 where "st1 = st\<lparr>asConsumed := asConsumed st @ [swEventID x]\<rparr>"
  define source where "source = orderTickets (swSourceOrderID x) (swOrganizerID x) st1"
  have "source \<noteq> []" "length (swTickets x) \<le> length source" "switchRefused st1 source = None"
    "\<exists>r st2. ticketRow (hd source) st1 = Some r \<and>
       foldE (voidTicket env c (identityOf r) ''exchanged'' (exchangedEventID env (swExchangeID x))) source st1 = Inr st2 \<and>
       foldE (insertIssuedTicket env c) (swTickets x) st2 = Inr st'"
    using assms unfolding SwitchExchange_def Let_def st1_def [symmetric] source_def [symmetric]
    by (auto simp: bindE_Inr_iff not_less split: if_splits option.splits)
  then show ?thesis using that [OF st1_def source_def] by blast
qed

lemma SwitchExchange_honest:
  assumes ok: "SwitchExchange env c x st = Inr st'" and h: "honest env ring slotOf st" and s: "signing env s ring"
    and slots: "\<forall>t \<in> set (swTickets x). tkSlotID t = slotOf (tkOrderID t) (tkOrganizerID t)"
  shows "honest env ring slotOf st'"
proof (cases "swEventID x \<in> set (asConsumed st)")
  case True
  then show ?thesis using ok h by (simp add: SwitchExchange_def)
next
  case False
  obtain st1 source r st2 where x: "st1 = st\<lparr>asConsumed := asConsumed st @ [swEventID x]\<rparr>"
    "source = orderTickets (swSourceOrderID x) (swOrganizerID x) st1" "source \<noteq> []" "ticketRow (hd source) st1 = Some r"
    "foldE (voidTicket env c (identityOf r) ''exchanged'' (exchangedEventID env (swExchangeID x))) source st1 = Inr st2"
    "foldE (insertIssuedTicket env c) (swTickets x) st2 = Inr st'"
    using SwitchExchange_Inr [OF ok False] by metis
  have h1: "honest env ring slotOf st1" using h x(1) by (simp add: untouched_honest)
  have "hd source \<in> set (orderTickets (swSourceOrderID x) (swOrganizerID x) st1)" using x(2,3) by simp
  from voidTicket_honest [OF x(5) h1 s x(4) this] have "honest env ring slotOf st2" using x(2) by simp
  from issue_loop_honest [OF x(6) this s slots] show ?thesis .
qed

lemma SetMode_honest: "SetMode c org m w st = Inr st' \<Longrightarrow> honest env ring slotOf st \<Longrightarrow> honest env ring slotOf st'"
  by (auto simp: SetMode_def setModeRow_def Let_def untouched_honest split: if_splits)

lemma UpsertSlotPolicy_honest:
  "UpsertSlotPolicy e slot org p st = Inr st' \<Longrightarrow> honest env ring slotOf st \<Longrightarrow> honest env ring slotOf st'"
  by (auto simp: UpsertSlotPolicy_def Let_def untouched_honest split: if_splits)

lemma addAttempt_honest: "addAttempt env org key r st = Inr st' \<Longrightarrow> honest env ring slotOf st \<Longrightarrow> honest env ring slotOf st'"
  by (auto simp: addAttempt_def Let_def untouched_honest split: if_splits)

lemma ClaimRedelivery_honest:
  assumes "ClaimRedelivery env c org order key st = Inr (z, st')" and h: "honest env ring slotOf st"
  shows "honest env ring slotOf st'"
proof -
  have "st' = st \<or> (\<exists>rows q. foldE (addAttempt env org key) rows (st\<lparr>asRedeliveries := q\<rparr>) = Inr st')"
    using assms(1) by (auto simp: ClaimRedelivery_def Let_def bindE_Inr_iff split: if_splits option.splits)
  then show ?thesis
  proof (elim disjE exE)
    fix rows q assume "foldE (addAttempt env org key) rows (st\<lparr>asRedeliveries := q\<rparr>) = Inr st'"
    then show ?thesis by (rule foldE_invariant) (use h in \<open>auto simp: untouched_honest intro: addAttempt_honest\<close>)
  qed (use h in simp)
qed

lemma MarkRedelivered_honest:
  assumes ok: "MarkRedelivered env c org key t m st = Inr st'" and h: "honest env ring slotOf st" and s: "signing env s ring"
  shows "honest env ring slotOf st'"
proof -
  obtain r where r: "ticketRow t st = Some r" using ok by (auto simp: MarkRedelivered_def split: option.splits)
  have "\<exists>a. st' = st\<lparr>asAttempts := a\<rparr> \<or> (\<exists>at. appendLifecycle env c
      (eventFor t (identityOf r) (redeliveryEventID env org key t) ''redelivered'' 0) (st\<lparr>asAttempts := a\<rparr>) = Inr (at, st'))"
    using ok r by (auto simp: MarkRedelivered_def Let_def bindE_Inr_iff split: if_splits)
  then obtain a where a: "st' = st\<lparr>asAttempts := a\<rparr> \<or> (\<exists>at. appendLifecycle env c
      (eventFor t (identityOf r) (redeliveryEventID env org key t) ''redelivered'' 0) (st\<lparr>asAttempts := a\<rparr>) = Inr (at, st'))" ..
  have "honest env ring slotOf (st\<lparr>asAttempts := a\<rparr>)" "ticketRow t (st\<lparr>asAttempts := a\<rparr>) = Some r"
    using h r by (simp_all add: untouched_honest ticketRow_def)
  then show ?thesis using a append_honest [OF _ s] by blast
qed

lemma CheckpointOrganizer_same:
  "CheckpointOrganizer env c org observed st = Inr (z, st') \<Longrightarrow>
   trailOf st' = trailOf st \<and> asQuarantine st' = asQuarantine st \<and> asAlarms st' = asAlarms st"
  unfolding CheckpointOrganizer_def Let_def
  by (auto simp: bindE_Inr_iff insertCheckpoint_def assignChanges_def Let_def trailOf_eq
      split: option.splits if_splits sum.splits prod.splits)

lemma CheckpointOrganizer_honest:
  "CheckpointOrganizer env c org observed st = Inr (z, st') \<Longrightarrow> honest env ring slotOf st \<Longrightarrow> signing env s ring \<Longrightarrow>
   honest env ring slotOf st'"
  using CheckpointOrganizer_audit [of env c org observed st z st' ring s] CheckpointOrganizer_same [of env c org observed st z st']
    soundTrail_cong [of st' st env ring slotOf] by (simp add: honest_def)

lemma SealEpoch_honest:
  assumes "honest env ring slotOf st"
  shows "honest env ring slotOf (snd (SealEpoch c st))"
proof -
  have "trailOf (snd (SealEpoch c st)) = trailOf st" by (simp add: SealEpoch_def Let_def trailOf_eq)
  then show ?thesis
    using assms SealEpoch_audit [of env ring st slotOf c] soundTrail_cong [of "snd (SealEpoch c st)" st env ring slotOf]
    by (simp add: honest_def) (simp add: SealEpoch_def Let_def)
qed

text \<open>Nothing is left to backfill once the store has chained every event it wrote.\<close>

lemma honest_unchained:
  assumes "honest env ring slotOf st"
  shows "unchained st = []"
proof -
  have "list_ex (\<lambda>h. hdTicketID h = tkID r) (asHeads st)"
    if r: "r \<in> set (asTickets st)" and e: "list_ex (\<lambda>e. evTicketID e = tkID r) (asEvents st)" for r
  proof (rule ccontr)
    assume "\<not> list_ex (\<lambda>h. hdTicketID h = tkID r) (asHeads st)"
    then have "find (\<lambda>x. hdTicketID x = tkID r) (asHeads st) = None" by (auto simp: find_None_iff list_ex_iff)
    then have f: "foldE (checkRow env (tkID r) (identityOf r)) (chainRows st (tkID r)) (0, GenesisHash) = Inr (0, GenesisHash)"
      using assms r by (auto simp: honest_def soundTrail_def chainKept_def loadHead_def)
    obtain x xs where rows: "chainRows st (tkID r) = x # xs"
      using e by (cases "chainRows st (tkID r)") (auto simp: chainRows_def filter_empty_conv list_ex_iff)
    from foldE_checkRow_count [OF f] rows show False by simp
  qed
  then show ?thesis by (auto simp: unchained_def filter_empty_conv)
qed

end
