(* ===== verification/Access_Verified.thy ===== *)
theory Access_Verified
  imports Access_Honest
begin

text \<open>
  The offline verifier over an honest store: the pass over every chained event reaches each
  ticket's head, and the pass over the checkpoints rebuilds each root. What is left for it to
  report is only how long the oldest head has waited for its checkpoint.
\<close>

section \<open>The pass over the chains\<close>

lemma filter_key_singleton:
  "distinct (map f xs) \<Longrightarrow> x \<in> set xs \<Longrightarrow> filter (\<lambda>y. f y = f x) xs = [x]"
proof (induction xs)
  case (Cons y ys)
  then show ?case by (cases "x = y") (auto simp: filter_empty_conv image_iff)
qed simp

lemma audit_integrity:
  assumes "trailKeys st" and "e \<in> set (asEvents st)"
  shows "find (\<lambda>i. inEventID i = evID e) (asIntegrity st) = integrityOf st e"
proof -
  have "inTicketID i = evTicketID e" if i: "i \<in> set (asIntegrity st)" "inEventID i = evID e" for i
  proof -
    obtain x where "x \<in> set (asEvents st)" "evID x = inEventID i" "evTicketID x = inTicketID i"
      using assms(1) i(1) by (auto simp: trailKeys_def)
    then show ?thesis using assms i(2) by (auto simp: trailKeys_def distinct_map inj_on_def)
  qed
  then show ?thesis unfolding integrityOf_def by (intro find_cong) auto
qed

lemma audit_group:
  assumes "trailKeys st" and r: "r \<in> set (asTickets st)"
  shows "filter (\<lambda>(e, t, i). tkID t = tkID r) (auditJoin st) = map (\<lambda>(e, i). (e, r, i)) (chainRows st (tkID r))"
proof -
  have one: "filter (\<lambda>t. tkID t = tkID r) (asTickets st) = [r]"
    using assms filter_key_singleton by (auto simp: trailKeys_def)
  have other: "filter (\<lambda>t. tkID t = evTicketID e \<and> tkID t = tkID r) (asTickets st) = (if evTicketID e = tkID r then [r] else [])" for e
    using one by (auto simp: filter_empty_conv)
  have "filter (\<lambda>(e, t, i). tkID t = tkID r) (concat (map (\<lambda>e. map (\<lambda>t. (e, t, find (\<lambda>i. inEventID i = evID e) (asIntegrity st)))
          (filter (\<lambda>t. tkID t = evTicketID e) (asTickets st))) es))
      = map (\<lambda>(e, i). (e, r, i)) (map (\<lambda>e. (e, integrityOf st e)) (filter (\<lambda>e. evTicketID e = tkID r) es))"
    if "set es \<subseteq> set (asEvents st)" for es
    using that by (induction es) (auto simp: filter_map comp_def other audit_integrity [OF assms(1)] conj_commute)
  then show ?thesis by (simp add: auditJoin_def chainRows_def)
qed

lemma audit_walk_rows:
  assumes "foldE (checkRow env (tkID r) (identityOf r)) rows (n, h) = Inr (m, k)" and "awTicket w = tkID r"
    and "awCount w = n" and "awPrevious w = h"
  shows "\<exists>w'. foldE (auditRow env v) (map (\<lambda>(e, i). (e, r, i)) rows) w = Inr w' \<and> awTicket w' = tkID r \<and>
    awHeads w' = (if rows = [] then awHeads w else (tkID r, m, k) # filter (\<lambda>(a, b). a \<noteq> tkID r) (awHeads w))"
  using assms
proof (induction rows arbitrary: n h w)
  case (Cons x rows)
  obtain e j where x: "x = (e, j)" by (cases x)
  obtain n1 h1 where step: "checkRow env (tkID r) (identityOf r) x (n, h) = Inr (n1, h1)"
    and rest: "foldE (checkRow env (tkID r) (identityOf r)) rows (n1, h1) = Inr (m, k)"
    using Cons.prems(1) by (auto simp: bindE_Inr_iff)
  obtain i where i: "j = Some i" using step x by (auto simp: checkRow_Inr_iff)
  define w1 where "w1 = w\<lparr>awCount := n1, awPrevious := h1,
      awHeads := (tkID r, n1, h1) # filter (\<lambda>(a, b). a \<noteq> tkID r) (awHeads w)\<rparr>"
  have one: "auditRow env v (e, r, j) w = Inr w1"
    using step Cons.prems(2-4) by (simp add: auditRow_def x i w1_def)
  have "\<exists>w'. foldE (auditRow env v) (map (\<lambda>(e, i). (e, r, i)) rows) w1 = Inr w' \<and> awTicket w' = tkID r \<and>
      awHeads w' = (if rows = [] then awHeads w1 else (tkID r, m, k) # filter (\<lambda>(a, b). a \<noteq> tkID r) (awHeads w1))"
    by (rule Cons.IH [OF rest]) (simp_all add: w1_def Cons.prems(2))
  then show ?case using rest one x by (auto simp: w1_def bindE_Inr_iff filter_filter)
qed simp

text \<open>A group read after another ticket's, or first, starts from the genesis hash.\<close>

definition freshFor :: "auditWalk \<Rightarrow> uuid \<Rightarrow> bool" where
  "freshFor w t \<longleftrightarrow> awTicket w \<noteq> t \<or> awCount w = 0 \<and> awPrevious w = GenesisHash"

lemma auditRow_fresh:
  "freshFor w (tkID r) \<Longrightarrow>
   auditRow env v (e, r, i) w = auditRow env v (e, r, i) (w\<lparr>awTicket := tkID r, awCount := 0, awPrevious := GenesisHash\<rparr>)"
  by (cases w) (auto simp: auditRow_def freshFor_def)

lemma audit_walk_group:
  assumes "chainKept env st r" and "freshFor w (tkID r)" and "chainRows st (tkID r) \<noteq> []"
  shows "\<exists>w'. foldE (auditRow env v) (map (\<lambda>(e, i). (e, r, i)) (chainRows st (tkID r))) w = Inr w' \<and> awTicket w' = tkID r \<and>
    awHeads w' = (tkID r, loadHead (tkID r) st) # filter (\<lambda>(a, b). a \<noteq> tkID r) (awHeads w)"
proof -
  let ?w = "w\<lparr>awTicket := tkID r, awCount := 0, awPrevious := GenesisHash\<rparr>"
  obtain m k where l: "loadHead (tkID r) st = (m, k)" by (cases "loadHead (tkID r) st")
  have "foldE (auditRow env v) (map (\<lambda>(e, i). (e, r, i)) (chainRows st (tkID r))) w =
      foldE (auditRow env v) (map (\<lambda>(e, i). (e, r, i)) (chainRows st (tkID r))) ?w"
    using assms(3) auditRow_fresh [OF assms(2)] by (cases "chainRows st (tkID r)") auto
  then show ?thesis
    using audit_walk_rows [of env r "chainRows st (tkID r)" 0 GenesisHash m k ?w v] assms(1,3) l by (simp add: chainKept_def)
qed

lemma audit_group_sorted:
  assumes "chainKept env st r"
  shows "sort_key (\<lambda>(e, t, i). nullsLast i) (map (\<lambda>(e, i). (e, r, i)) (chainRows st (tkID r))) =
    map (\<lambda>(e, i). (e, r, i)) (chainRows st (tkID r))"
proof -
  obtain z where "foldE (checkRow env (tkID r) (identityOf r)) (chainRows st (tkID r)) (0, GenesisHash) = Inr z"
    using assms by (auto simp: chainKept_def)
  note ok = foldE_checkRow_sorted [OF this]
  have "map (\<lambda>(e, i). nullsLast i) (chainRows st (tkID r)) =
      map (\<lambda>q. (0, q)) (map (\<lambda>r. case snd r of Some i \<Rightarrow> inSequence i | None \<Rightarrow> 0) (chainRows st (tkID r)))"
    using ok by (auto simp: nullsLast_def split: option.splits)
  moreover have "sorted (map (\<lambda>q. (0 :: int, q)) qs)" if "sorted qs" for qs :: "int list"
    using that by (induction qs) auto
  ultimately have "sorted (map (\<lambda>(e, i). nullsLast i) (chainRows st (tkID r)))" using ok by metis
  then show ?thesis by (intro sort_key_id_if_sorted) (simp add: comp_def case_prod_unfold)
qed

lemma audit_walk_all:
  assumes "soundTrail env ring slotOf st"
    and "distinct ks" and "\<And>k. k \<in> set ks \<Longrightarrow> knownTicket st k \<and> chainRows st k \<noteq> []" and "\<And>k. k \<in> set ks \<Longrightarrow> freshFor w k"
  shows "\<exists>w'. foldE (auditRow env v)
      (concat (map (\<lambda>k. sort_key (\<lambda>(e, t, i). nullsLast i) (filter (\<lambda>(e, t, i). tkID t = k) (auditJoin st))) ks)) w = Inr w' \<and>
    (\<forall>k. map_of (awHeads w') k = (if k \<in> set ks then Some (loadHead k st) else map_of (awHeads w) k)) \<and>
    fst ` set (awHeads w') \<subseteq> set ks \<union> fst ` set (awHeads w)"
  using assms(2-4)
proof (induction ks arbitrary: w)
  case (Cons k ks)
  obtain r where r: "r \<in> set (asTickets st)" "tkID r = k" using Cons.prems(2) [of k] by (auto simp: knownTicket_def)
  have keys: "trailKeys st" and kept: "chainKept env st r" using assms(1) r by (auto simp: soundTrail_def)
  obtain w1 where w1: "foldE (auditRow env v) (map (\<lambda>(e, i). (e, r, i)) (chainRows st k)) w = Inr w1" "awTicket w1 = k"
    "awHeads w1 = (k, loadHead k st) # filter (\<lambda>(a, b). a \<noteq> k) (awHeads w)"
    using audit_walk_group [OF kept, of w v] Cons.prems(2) [of k] Cons.prems(3) [of k] r(2) by auto
  have rows: "sort_key (\<lambda>(e, t, i). nullsLast i) (filter (\<lambda>(e, t, i). tkID t = k) (auditJoin st)) =
      map (\<lambda>(e, i). (e, r, i)) (chainRows st k)"
    using audit_group [OF keys r(1)] audit_group_sorted [OF kept] r(2) by simp
  have "\<And>k'. k' \<in> set ks \<Longrightarrow> freshFor w1 k'" using Cons.prems(1) w1(2) by (auto simp: freshFor_def)
  then obtain w' where w': "foldE (auditRow env v)
      (concat (map (\<lambda>k. sort_key (\<lambda>(e, t, i). nullsLast i) (filter (\<lambda>(e, t, i). tkID t = k) (auditJoin st))) ks)) w1 = Inr w'"
    "\<forall>k. map_of (awHeads w') k = (if k \<in> set ks then Some (loadHead k st) else map_of (awHeads w1) k)"
    "fst ` set (awHeads w') \<subseteq> set ks \<union> fst ` set (awHeads w1)"
    using Cons.IH [of w1] Cons.prems by auto
  have "map_of (filter (\<lambda>(a, b). a \<noteq> k) xs) j = (if j = k then None else map_of xs j)" for j and xs :: "(uuid \<times> int \<times> string) list"
    by (induction xs) auto
  then have "map_of (awHeads w') j = (if j \<in> set (k # ks) then Some (loadHead j st) else map_of (awHeads w) j)" for j
    using w'(2) w1(3) by auto
  moreover have "fst ` set (awHeads w') \<subseteq> set (k # ks) \<union> fst ` set (awHeads w)"
    using w'(3) w1(3) by auto
  ultimately show ?case using w1(1) w'(1) rows by (auto simp: foldE_append)
qed simp

lemma auditJoin_tickets:
  assumes "trailKeys st"
  shows "set (map (\<lambda>(e, t, i). tkID t) (auditJoin st)) = {k. knownTicket st k \<and> chainRows st k \<noteq> []}"
proof -
  have "k \<in> set (map (\<lambda>(e, t, i). tkID t) (auditJoin st)) \<longleftrightarrow>
      (\<exists>t \<in> set (asTickets st). tkID t = k \<and> (\<exists>e \<in> set (asEvents st). evTicketID e = k))" for k
    by (force simp: auditJoin_def)
  moreover have "(\<exists>t \<in> set (asTickets st). tkID t = k \<and> (\<exists>e \<in> set (asEvents st). evTicketID e = k)) \<longleftrightarrow>
      knownTicket st k \<and> chainRows st k \<noteq> []" for k
    by (auto simp: knownTicket_def chainRows_def filter_empty_conv)
  ultimately show ?thesis by blast
qed

text \<open>The pass succeeds and has, for each ticket with events, the head the store holds.\<close>

lemma verifyChains_sound:
  assumes "soundTrail env ring slotOf st"
  shows "\<exists>heads. verifyChains env v st = Inr heads \<and>
    (\<forall>k. map_of heads k = (if knownTicket st k \<and> chainRows st k \<noteq> [] then Some (loadHead k st) else None))"
proof -
  define ks where "ks = sort (remdups (map (\<lambda>(e, t, i). tkID t) (auditJoin st)))"
  have keys: "trailKeys st" using assms by (simp add: soundTrail_def)
  have ks: "distinct ks" "set ks = {k. knownTicket st k \<and> chainRows st k \<noteq> []}"
    using auditJoin_tickets [OF keys] by (simp_all add: ks_def)
  obtain w' where "foldE (auditRow env v)
      (concat (map (\<lambda>k. sort_key (\<lambda>(e, t, i). nullsLast i) (filter (\<lambda>(e, t, i). tkID t = k) (auditJoin st))) ks))
      \<lparr>awTicket = uuid_Nil, awCount = 0, awPrevious = GenesisHash, awHeads = []\<rparr> = Inr w'"
    "\<forall>k. map_of (awHeads w') k = (if k \<in> set ks then Some (loadHead k st) else None)"
    using audit_walk_all [OF assms ks(1), of "\<lparr>awTicket = uuid_Nil, awCount = 0, awPrevious = GenesisHash, awHeads = []\<rparr>" v] ks(2)
    by (auto simp: freshFor_def)
  moreover have "(\<lambda>x :: EventRow \<times> TicketRow \<times> IntegrityRow option. (case x of (e, t, i) \<Rightarrow> tkID t) = k) =
      (\<lambda>(e, t, i). tkID t = k)" for k by auto
  ultimately have "verifyChains env v st = Inr (awHeads w') \<and>
      (\<forall>k. map_of (awHeads w') k = (if k \<in> set ks then Some (loadHead k st) else None))"
    by (simp add: verifyChains_def auditRows_def orderBy_def ks_def)
  then show ?thesis using ks(2) by auto
qed

section \<open>Heads, orphans and seals\<close>

lemma firstError_None: "firstError f xs = None \<longleftrightarrow> (\<forall>x \<in> set xs. f x = None)"
  by (induction xs) (auto split: option.splits)

lemma head_iff_rows:
  assumes "soundTrail env ring slotOf st" and "knownTicket st t"
  shows "(\<exists>h \<in> set (asHeads st). hdTicketID h = t) \<longleftrightarrow> chainRows st t \<noteq> []"
proof -
  obtain r where r: "r \<in> set (asTickets st)" "tkID r = t" using assms(2) by (auto simp: knownTicket_def)
  obtain n h where l: "loadHead t st = (n, h)" by (cases "loadHead t st")
  have "foldE (checkRow env t (identityOf r)) (chainRows st t) (0, GenesisHash) = Inr (n, h)"
    using assms(1) r l by (auto simp: soundTrail_def chainKept_def)
  from foldE_checkRow_count [OF this] have n: "n = int (length (chainRows st t))" by simp
  show ?thesis
  proof (cases "find (\<lambda>x. hdTicketID x = t) (asHeads st)")
    case None
    then have "int (length (chainRows st t)) = 0" using find_head [OF l] n by simp
    then show ?thesis using None by (simp add: find_None_iff)
  next
    case (Some x)
    then have "x \<in> set (asHeads st)" "hdTicketID x = t" using find_SomeD [OF Some] by auto
    moreover have "0 < hdSequence x" using assms(1) calculation by (auto simp: soundTrail_def headSigned_def)
    ultimately show ?thesis using find_head [OF l] n Some by auto
  qed
qed

lemma loadHead_row:
  assumes "trailKeys st" and "h \<in> set (asHeads st)"
  shows "loadHead (hdTicketID h) st = (hdSequence h, hdHash h)"
proof -
  obtain x where x: "find (\<lambda>x. hdTicketID x = hdTicketID h) (asHeads st) = Some x"
    using assms(2) by (cases "find (\<lambda>x. hdTicketID x = hdTicketID h) (asHeads st)") (auto simp: find_None_iff)
  then have "x \<in> set (asHeads st)" "hdTicketID x = hdTicketID h" using find_SomeD [OF x] by auto
  then have "x = h" using assms by (auto simp: trailKeys_def distinct_map inj_on_def)
  then show ?thesis using x by (simp add: loadHead_def)
qed

lemma verifyHeads_sound:
  assumes s: "soundTrail env ring slotOf st"
    and heads: "\<forall>k. map_of heads k = (if knownTicket st k \<and> chainRows st k \<noteq> [] then Some (loadHead k st) else None)"
  shows "verifyHeads env ring heads st = None"
proof -
  have "verifyOneHead env ring heads h = None" if h: "h \<in> set (asHeads st)" for h
  proof -
    have keys: "trailKeys st" and sgn: "headSigned env ring h" and known: "knownTicket st (hdTicketID h)"
      using s h by (auto simp: soundTrail_def trailKeys_def)
    have "chainRows st (hdTicketID h) \<noteq> []" using head_iff_rows [OF s known] h by auto
    then show ?thesis
      using heads known sgn loadHead_row [OF keys h] by (simp add: verifyOneHead_def headSigned_def)
  qed
  moreover have "list_ex (\<lambda>x. hdTicketID x = t) (asHeads st)" if "(t, n, h) \<in> set heads" for t n h
  proof -
    have "map_of heads t \<noteq> None" using weak_map_of_SomeI [OF that] by auto
    then have "knownTicket st t" "chainRows st t \<noteq> []" using heads by (auto split: if_splits)
    then show ?thesis using head_iff_rows [OF s] by (auto simp: list_ex_iff)
  qed
  ultimately show ?thesis unfolding verifyHeads_def by (auto simp: firstError_None split: option.splits)
qed

lemma verifyOrphan_sound: "trailKeys st \<Longrightarrow> verifyOrphanIntegrity st = None"
  by (auto simp: verifyOrphanIntegrity_def trailKeys_def find_None_iff list_ex_iff)

lemma verifyEpochs_kept: "auditKept env ring st \<Longrightarrow> verifyEpochSignatures env ring st = None"
  by (auto simp: verifyEpochSignatures_def auditKept_def epochSigned_def firstError_None)

section \<open>The pass over the checkpoints\<close>

lemma insort_key_map: "insort_key f (g x) (map g xs) = map g (insort_key (\<lambda>y. f (g y)) x xs)"
  by (induction xs) auto

lemma sort_key_map: "sort_key f (map g xs) = map g (sort_key (\<lambda>x. f (g x)) xs)"
  by (induction xs) (auto simp: insort_key_map)

lemma MerkleRoot_sorted:
  "MerkleRoot env (map leafOf (sort_key hcTicketID xs)) = MerkleRoot env (map leafOf xs)"
proof -
  have "(\<lambda>x. lfTicketID (leafOf x)) = hcTicketID" by (simp add: leafOf_def fun_eq_iff)
  then have "sort_key lfTicketID (map leafOf ys) = map leafOf (sort_key hcTicketID ys)" for ys
    by (simp add: sort_key_map)
  moreover have "sort_key hcTicketID (sort_key hcTicketID xs) = sort_key hcTicketID xs"
    by (simp add: sort_key_id_if_sorted)
  moreover have "(sort_key hcTicketID xs = []) = (xs = [])" by (metis length_0_conv length_sort)
  ultimately show ?thesis by (simp add: MerkleRoot_def)
qed

lemma latestPerTicket_subset: "set (latestPerTicket xs) \<subseteq> set xs"
  by (induction xs) auto

lemma checkpointLeaves_kept:
  assumes "auditKept env ring st" and "k \<in> set (asCheckpoints st)"
  shows "checkpointLeaves env ring st (ckID k) (cpOrganizerID (ckBody k)) =
    Inr (map leafOf (sort_key hcTicketID (latestPerTicket (assignedTo (ckID k) (asChanges st)))))"
proof -
  have signed: "changeSigned env ring st x" if "x \<in> set (asChanges st)" for x using assms(1) that by (simp add: auditKept_def)
  have known: "list_ex (\<lambda>t. tkID t = hcTicketID x) (asTickets st)" if "x \<in> set (asChanges st)" for x
    using signed [OF that] by (auto simp: changeSigned_def ownerOf_def list_ex_iff dest!: ticketRow_SomeD)
  have s: "sorted (map hcChangeID (asChanges st))" using assms numbered_sorted by (auto simp: auditKept_def)
  have "filter (\<lambda>x. hcCheckpointID x = Some (ckID k) \<and> list_ex (\<lambda>t. tkID t = hcTicketID x) (asTickets st)) (asChanges st) =
      assignedTo (ckID k) (asChanges st)"
    using known by (auto simp: assignedTo_def intro: filter_cong)
  moreover have "sort_key hcChangeID (assignedTo (ckID k) (asChanges st)) = assignedTo (ckID k) (asChanges st)"
    using sorted_filter [OF s] by (simp add: assignedTo_def sort_key_id_if_sorted)
  moreover have "hcVersion x = CanonicalVersion \<and> ownerOf st (hcTicketID x) = Some (cpOrganizerID (ckBody k)) \<and>
      VerifyHead (aeLifecycle env) ring (hcTicketID x) (hcSequence x) (hcKeyID x) (hcHash x) (hcSignature x) = None"
    if x: "x \<in> set (latestPerTicket (assignedTo (ckID k) (asChanges st)))" for x
  proof -
    have a: "x \<in> set (assignedTo (ckID k) (asChanges st))" using x latestPerTicket_subset by auto
    then have "hcOrganizerID x = cpOrganizerID (ckBody k)" using assms by (auto simp: auditKept_def checkpointKept_def)
    then show ?thesis using signed [of x] a by (auto simp: assignedTo_def changeSigned_def)
  qed
  ultimately show ?thesis
    by (auto simp: checkpointLeaves_def Let_def firstError_None split: option.splits)
qed

lemma verifyCheckpoint_kept:
  assumes "auditKept env ring st" and k: "k \<in> set (asCheckpoints st)"
    and link: "(if cpOrganizerID (ckBody k) \<noteq> fst acc then (0, GenesisHash) else snd acc) = p"
    and "cpSequence (ckBody k) = fst p + 1" and "cpPreviousRoot (ckBody k) = snd p"
  shows "verifyCheckpoint env ring st k acc = Inr (cpOrganizerID (ckBody k), cpSequence (ckBody k), cpRoot (ckBody k))"
proof -
  have kept: "checkpointKept env ring (asChanges st) k" using assms(1) k by (simp add: auditKept_def)
  then have body: "(ckBody k)\<lparr>cpCreatedAt := truncateMicro (cpCreatedAt (ckBody k))\<rparr> = ckBody k"
    by (simp add: checkpointKept_def)
  show ?thesis
    using kept checkpointLeaves_kept [OF assms(1) k] assms(3-5)
    by (simp add: verifyCheckpoint_def body Let_def checkpointKept_def MerkleRoot_sorted)
qed

lemma verifyCheckpoint_group:
  assumes "auditKept env ring st"
  shows "set ks \<subseteq> set (asCheckpoints st) \<Longrightarrow> \<forall>k \<in> set ks. cpOrganizerID (ckBody k) = org \<Longrightarrow>
    linkedFrom (if org \<noteq> fst acc then (0, GenesisHash) else snd acc) ks \<Longrightarrow>
    \<exists>p. foldE (verifyCheckpoint env ring st) ks acc = Inr (if ks = [] then acc else (org, p))"
proof (induction ks arbitrary: acc)
  case (Cons k ks)
  have "verifyCheckpoint env ring st k acc = Inr (org, cpSequence (ckBody k), cpRoot (ckBody k))"
    using verifyCheckpoint_kept [OF assms, of k acc] Cons.prems by auto
  moreover have "\<exists>p. foldE (verifyCheckpoint env ring st) ks (org, cpSequence (ckBody k), cpRoot (ckBody k)) =
      Inr (if ks = [] then (org, cpSequence (ckBody k), cpRoot (ckBody k)) else (org, p))"
    by (rule Cons.IH) (use Cons.prems in auto)
  ultimately show ?case by (auto split: if_splits)
qed simp

lemma verifyCheckpoints_walk:
  assumes kept: "auditKept env ring st" and "distinct orgs" and "acc = (uuid_Nil, 0, GenesisHash) \<or> fst acc \<notin> set orgs"
  shows "\<exists>w. foldE (verifyCheckpoint env ring st)
    (concat (map (\<lambda>o'. sort_key (\<lambda>r. cpSequence (ckBody r)) (ofOrganizer o' (asCheckpoints st))) orgs)) acc = Inr w"
  using assms(2,3)
proof (induction orgs arbitrary: acc)
  case (Cons org orgs)
  define ks where "ks = ofOrganizer org (asCheckpoints st)"
  have linked: "linkedFrom (0, GenesisHash) ks" using kept by (simp add: ks_def auditKept_def)
  have s: "sort_key (\<lambda>r. cpSequence (ckBody r)) ks = ks"
    using linkedFrom_sorted [OF linked] by (simp add: sort_key_id_if_sorted)
  have start: "(if org \<noteq> fst acc then (0, GenesisHash) else snd acc) = (0, GenesisHash)" using Cons.prems(2) by auto
  have "set ks \<subseteq> set (asCheckpoints st)" "\<forall>k \<in> set ks. cpOrganizerID (ckBody k) = org"
    by (auto simp: ks_def ofOrganizer_def)
  from verifyCheckpoint_group [OF kept this, of acc] linked start obtain p
    where p: "foldE (verifyCheckpoint env ring st) ks acc = Inr (if ks = [] then acc else (org, p))" by auto
  have "\<exists>w. foldE (verifyCheckpoint env ring st)
      (concat (map (\<lambda>o'. sort_key (\<lambda>r. cpSequence (ckBody r)) (ofOrganizer o' (asCheckpoints st))) orgs))
      (if ks = [] then acc else (org, p)) = Inr w"
    by (rule Cons.IH) (use Cons.prems in auto)
  then show ?case using p s by (simp add: foldE_append ks_def [symmetric])
next
  case Nil
  show ?case by (rule exI [of _ acc]) simp
qed

lemma verifyCheckpoints_kept:
  assumes "auditKept env ring st"
  shows "verifyCheckpoints env ring st = None"
proof -
  define orgs where "orgs = sort (remdups (map (\<lambda>r. cpOrganizerID (ckBody r)) (asCheckpoints st)))"
  define rows where "rows = orderBy (\<lambda>r. cpOrganizerID (ckBody r)) (\<lambda>r. cpSequence (ckBody r)) (asCheckpoints st)"
  have rows: "rows = concat (map (\<lambda>o'. sort_key (\<lambda>r. cpSequence (ckBody r)) (ofOrganizer o' (asCheckpoints st))) orgs)"
    by (simp add: rows_def orderBy_def orgs_def ofOrganizer_def)
  obtain w where "foldE (verifyCheckpoint env ring st) rows (uuid_Nil, 0, GenesisHash) = Inr w"
    using verifyCheckpoints_walk [OF assms, of orgs "(uuid_Nil, 0, GenesisHash)"] by (auto simp: rows orgs_def)
  moreover have "set rows \<subseteq> set (asCheckpoints st)" by (auto simp: rows ofOrganizer_def)
  then have "ckVersion r = CanonicalVersion" if "r \<in> set rows" for r
    using that assms by (auto simp: auditKept_def checkpointKept_def)
  ultimately show ?thesis
    unfolding verifyCheckpoints_def rows_def [symmetric] Let_def
    by (auto simp: firstError_None split: option.splits)
qed

theorem honest_passes_audit:
  assumes h: "honest env ring slotOf st" and "signing env s ring"
  shows "VerifyLifecycle env c v maxAge st = verifyPendingAge c maxAge st"
proof -
  have t: "soundTrail env ring slotOf st" "trailKeys st" and a: "auditKept env ring st"
    using h by (auto simp: honest_def soundTrail_def)
  obtain heads where heads: "verifyChains env v st = Inr heads"
    "\<forall>k. map_of heads k = (if knownTicket st k \<and> chainRows st k \<noteq> [] then Some (loadHead k st) else None)"
    using verifyChains_sound [OF t(1)] by blast
  show ?thesis
    using assms(2) heads(1) verifyHeads_sound [OF t(1) heads(2)] verifyOrphan_sound [OF t(2)]
      verifyEpochs_kept [OF a] verifyCheckpoints_kept [OF a]
    by (simp add: VerifyLifecycle_def signing_def split: option.splits)
qed

end
