(* ===== verification/Access_Runs.thy ===== *)
theory Access_Runs
  imports Access_Verified Runs "HOL-Library.Sublist"
begin

text \<open>
  Histories of the access store: any sequence of its operations, each one transaction that
  commits or leaves the tables as they were. Every history only appends to the trail, and
  from an empty store it stays honest.
\<close>

section \<open>Nothing is taken off the record\<close>

text \<open>The tables the database grants no \<open>UPDATE\<close> or \<open>DELETE\<close> on: rows stay where they are.\<close>

definition grows :: "AccessState \<Rightarrow> AccessState \<Rightarrow> bool" where
  "grows st st' \<longleftrightarrow>
     prefix (asTickets st) (asTickets st') \<and> prefix (asEvents st) (asEvents st') \<and>
     prefix (asQuarantine st) (asQuarantine st') \<and> prefix (asRefusals st) (asRefusals st') \<and>
     prefix (asBatches st) (asBatches st')"

lemma grows_refl [simp, intro]: "grows st st"
  by (simp add: grows_def)

lemma grows_trans [trans]: "grows st st1 \<Longrightarrow> grows st1 st2 \<Longrightarrow> grows st st2"
  by (auto simp: grows_def intro: prefix_order.trans)

lemma grows_untouched [simp]:
  "grows st (st1\<lparr>asConsumed := a\<rparr>) = grows st st1" "grows st (st1\<lparr>asDeliveries := b\<rparr>) = grows st st1"
  "grows st (st1\<lparr>asPolicies := p\<rparr>) = grows st st1" "grows st (st1\<lparr>asRedeliveries := i\<rparr>) = grows st st1"
  "grows st (st1\<lparr>asAttempts := j\<rparr>) = grows st st1" "grows st (st1\<lparr>asModes := m\<rparr>) = grows st st1"
  "grows st (st1\<lparr>asAlarms := al\<rparr>) = grows st st1" "grows st (st1\<lparr>asConflicts := cf\<rparr>) = grows st st1"
  "grows st (st1\<lparr>asEpochs := e\<rparr>) = grows st st1" "grows st (st1\<lparr>asChanges := h\<rparr>) = grows st st1"
  "grows st (st1\<lparr>asCheckpoints := k\<rparr>) = grows st st1"
  by (simp_all add: grows_def)

lemma grows_untouched_left [simp]:
  "grows (st\<lparr>asConsumed := a\<rparr>) st1 = grows st st1" "grows (st\<lparr>asDeliveries := b\<rparr>) st1 = grows st st1"
  "grows (st\<lparr>asAttempts := j\<rparr>) st1 = grows st st1" "grows (st\<lparr>asRedeliveries := i\<rparr>) st1 = grows st st1"
  by (simp_all add: grows_def)

lemma grows_rows [simp]:
  "grows st (st\<lparr>asTickets := asTickets st @ ts\<rparr>)" "grows st (st\<lparr>asQuarantine := asQuarantine st @ qs\<rparr>)"
  "grows st (st\<lparr>asRefusals := asRefusals st @ fs\<rparr>)" "grows st (st\<lparr>asBatches := asBatches st @ bs\<rparr>)"
  by (simp_all add: grows_def)

lemma append_grows: "appendLifecycle env c a st = Inr (at, st') \<Longrightarrow> grows st st'"
  by (auto simp: appendLifecycle_def insertEvent_def insertIntegrity_def upsertHead_def queueChange_def bindE_Inr_iff Let_def
      grows_def split: option.splits if_splits prod.splits)

lemma foldE_grows: "foldE step xs st = Inr st' \<Longrightarrow> (\<And>x a b. step x a = Inr b \<Longrightarrow> grows a b) \<Longrightarrow> grows st st'"
  by (erule foldE_invariant [where P = "grows st"]) (auto intro: grows_trans)

lemma oweRow_grows: "oweRow k c d st = Inr st' \<Longrightarrow> grows st st'"
  by (auto simp: oweRow_def split: if_splits)

lemma storeConflict_grows: "grows st (storeConflict r st)"
  by (simp add: storeConflict_def)

lemma evaluatePolicyAlarms_grows: "evaluatePolicyAlarms env c t who p st = Inr st' \<Longrightarrow> grows st st'"
proof -
  have "transitionConflict env c t who v status x a = Inr b \<Longrightarrow> grows a b" for v status x a b
    unfolding transitionConflict_def Let_def by (rule grows_trans [OF storeConflict_grows oweRow_grows])
  then show "evaluatePolicyAlarms env c t who p st = Inr st' \<Longrightarrow> grows st st'"
    by (auto simp: evaluatePolicyAlarms_Inr_iff intro: grows_trans dest!: foldE_grows)
qed

lemma oweAlarm_grows: "oweAlarm c org t reason d m st = Inr st' \<Longrightarrow> grows st st'"
  unfolding oweAlarm_def by (rule oweRow_grows)

lemma insertQuarantine_grows: "insertQuarantine c q st = Inr st' \<Longrightarrow> grows st st'"
  by (auto simp: insertQuarantine_def Let_def split: if_splits)

lemma flipMode_grows: "grows st (flipMode org now st)"
  by (simp add: flipMode_def setModeRow_def Let_def)

lemmas step_grows = append_grows oweAlarm_grows insertQuarantine_grows evaluatePolicyAlarms_grows

lemma degradedScan_grows: "degradedScan env c t who occ dir cause st = Inr (z, st') \<Longrightarrow> grows st st'"
proof -
  assume "degradedScan env c t who occ dir cause st = Inr (z, st')"
  then have "st' = st \<or> (\<exists>m d. oweAlarm c (tiOrganizerID who) t (alarmReasonFor cause) d m st = Inr st') \<or>
      (\<exists>q st1 st2 m d. insertQuarantine c q st = Inr st1 \<and> (st2 = st1 \<or> (\<exists>now. st2 = flipMode (tiOrganizerID who) now st1)) \<and>
         oweAlarm c (tiOrganizerID who) t (alarmReasonFor cause) d m st2 = Inr st')"
    unfolding degradedScan_def Let_def
    by (auto simp: bindE_Inr_iff split: if_splits option.splits) blast+
  then consider (same) "st' = st"
    | (alarm) m d where "oweAlarm c (tiOrganizerID who) t (alarmReasonFor cause) d m st = Inr st'"
    | (admit) q st1 st2 m d where "insertQuarantine c q st = Inr st1" "st2 = st1 \<or> (\<exists>now. st2 = flipMode (tiOrganizerID who) now st1)"
        "oweAlarm c (tiOrganizerID who) t (alarmReasonFor cause) d m st2 = Inr st'"
    by blast
  then show ?thesis
  proof cases
    case admit
    have "grows st1 st2" using admit(2) flipMode_grows by auto
    then show ?thesis using grows_trans [OF insertQuarantine_grows [OF admit(1)] grows_trans [OF _ oweAlarm_grows [OF admit(3)]]] by simp
  qed (auto dest: oweAlarm_grows)
qed

lemma redeemVerified_grows: "redeemVerified env c i who st = Inr (z, st') \<Longrightarrow> grows st st'"
  unfolding redeemVerified_def Let_def denyQuarantined_def
  by (auto simp: bindE_Inr_iff split: if_splits option.splits dest: step_grows)

lemma admitVerified_grows: "admitVerified env c i dir p who st = Inr (z, st') \<Longrightarrow> grows st st'"
  unfolding admitVerified_def Let_def denyQuarantined_def
  by (auto simp: bindE_Inr_iff split: if_splits option.splits dest: step_grows intro: grows_trans)

lemma exitUnverified_grows: "exitUnverified c t who occ cause st = Inr (z, st') \<Longrightarrow> grows st st'"
  unfolding exitUnverified_def
  by (auto simp: bindE_Inr_iff split: if_splits option.splits dest: step_grows)

lemma Scan_grows: "Scan env c i dir st = Inr (z, st') \<Longrightarrow> grows st st'"
  unfolding Scan_def redeemSingle_def admitPass_def Let_def
  by (auto simp: bindE_Inr_iff split: if_splits option.splits
      dest: redeemVerified_grows admitVerified_grows exitUnverified_grows degradedScan_grows)

lemma recordEvent_grows: "recordEvent env c x who ty st = Inr (at, st') \<Longrightarrow> grows st st'"
  by (auto simp: recordEvent_def dest: append_grows)

lemma ReconcileAdmission_grows: "ReconcileAdmission env c x st = Inr (z, st') \<Longrightarrow> grows st st'"
proof -
  have "owedConflict c x who a = Inr b \<Longrightarrow> grows a b" for who a b
    unfolding owedConflict_def oweConflictAlarm_def by (rule oweRow_grows)
  then have "recordSingle env c x who st = Inr (z, st') \<Longrightarrow> grows st st'" for who
    by (auto simp: recordSingle_def Let_def bindE_Inr_iff split: if_splits dest!: recordEvent_grows intro: grows_trans)
  moreover have "recordPass env c x dir p who st = Inr (z, st') \<Longrightarrow> grows st st'" for dir p who
    by (auto simp: recordPass_def bindE_Inr_iff dest!: recordEvent_grows evaluatePolicyAlarms_grows intro: grows_trans)
  moreover have "recordQuarantined env c x dir p who cause st = Inr (z, st') \<Longrightarrow> grows st st'" for dir p who cause
    by (auto simp: recordQuarantined_def bindE_Inr_iff split: if_splits
        dest!: insertQuarantine_grows evaluatePolicyAlarms_grows intro: grows_trans)
  ultimately show "ReconcileAdmission env c x st = Inr (z, st') \<Longrightarrow> grows st st'"
    unfolding ReconcileAdmission_def Let_def
    by (auto simp: bindE_Inr_iff split: if_splits option.splits)
qed

lemma RecordRevocationRefusal_grows: "RecordRevocationRefusal x d st = Inr (z, st') \<Longrightarrow> grows st st'"
  unfolding RecordRevocationRefusal_def Let_def by (auto simp: bindE_Inr_iff split: if_splits option.splits)

lemma RecordAdmission_grows: "RecordAdmission env c x st = Inr (z, st') \<Longrightarrow> grows st st'"
  unfolding RecordAdmission_def Let_def
  by (auto simp: bindE_Inr_iff split: if_splits option.splits dest: recordEvent_grows)

lemma insertIssuedTicket_grows: "insertIssuedTicket env c t st = Inr st' \<Longrightarrow> grows st st'"
  unfolding insertIssuedTicket_def Let_def
  by (auto simp: bindE_Inr_iff split: if_splits dest!: append_grows intro: grows_trans [OF grows_rows(1)])

lemma Issue_grows: "Issue env c e ts st = Inr st' \<Longrightarrow> grows st st'"
  by (auto simp: Issue_def split: if_splits dest!: foldE_grows [OF _ insertIssuedTicket_grows])

lemma MarkDelivered_grows: "MarkDelivered env c t m st = Inr st' \<Longrightarrow> grows st st'"
  unfolding MarkDelivered_def Let_def
  by (auto simp: bindE_Inr_iff split: if_splits option.splits dest!: append_grows)

lemma DeliveryID_grows: "DeliveryID env t st = Inr (z, st') \<Longrightarrow> grows st st'"
  by (auto simp: DeliveryID_def Let_def split: if_splits)

lemma voidTicket_grows: "voidTicket env c who ty eid t st = Inr st' \<Longrightarrow> grows st st'"
  by (auto simp: voidTicket_def bindE_Inr_iff dest: append_grows)

lemma RefundOrderTickets_grows: "RefundOrderTickets env c org order k q st = Inr (b, st') \<Longrightarrow> grows st st'"
  by (drule RefundOrderTickets_Inr) (auto dest!: foldE_grows [OF _ voidTicket_grows] intro: grows_trans [OF grows_rows(4)])

lemma SwitchExchange_grows:
  assumes "SwitchExchange env c x st = Inr st'"
  shows "grows st st'"
proof (cases "swEventID x \<in> set (asConsumed st)")
  case True
  then show ?thesis using assms by (simp add: SwitchExchange_def)
next
  case False
  from assms False show ?thesis
  proof (rule SwitchExchange_Inr)
    fix st1 source r st2
    assume s: "st1 = st\<lparr>asConsumed := asConsumed st @ [swEventID x]\<rparr>"
      and v: "foldE (voidTicket env c (identityOf r) ''exchanged'' (exchangedEventID env (swExchangeID x))) source st1 = Inr st2"
      and i: "foldE (insertIssuedTicket env c) (swTickets x) st2 = Inr st'"
    have "grows st1 st2" using v by (rule foldE_grows) (rule voidTicket_grows)
    also have "grows st2 st'" using i by (rule foldE_grows) (rule insertIssuedTicket_grows)
    finally show ?thesis using s by simp
  qed
qed

lemma ClaimRedelivery_grows: "ClaimRedelivery env c org order key st = Inr (z, st') \<Longrightarrow> grows st st'"
proof -
  have "addAttempt env org key r a = Inr b \<Longrightarrow> grows a b" for r a b
    by (auto simp: addAttempt_def Let_def split: if_splits)
  note loop = foldE_grows [OF _ this]
  show "ClaimRedelivery env c org order key st = Inr (z, st') \<Longrightarrow> grows st st'"
    unfolding ClaimRedelivery_def Let_def
    by (auto simp: bindE_Inr_iff split: if_splits option.splits dest!: loop)
qed

lemma MarkRedelivered_grows: "MarkRedelivered env c org key t m st = Inr st' \<Longrightarrow> grows st st'"
  unfolding MarkRedelivered_def Let_def
  by (auto simp: bindE_Inr_iff split: if_splits option.splits dest!: append_grows)

lemma CheckpointOrganizer_grows: "CheckpointOrganizer env c org l st = Inr (z, st') \<Longrightarrow> grows st st'"
  unfolding CheckpointOrganizer_def Let_def
  by (auto simp: bindE_Inr_iff insertCheckpoint_def assignChanges_def Let_def
      split: option.splits if_splits sum.splits prod.splits)

lemma backfill_grows: "backfillTicket env c s t st = Inr st' \<Longrightarrow> grows st st'"
proof -
  have integrity [simp]: "grows x (y\<lparr>asIntegrity := i\<rparr>) = grows x y" "grows (x\<lparr>asIntegrity := i\<rparr>) y = grows x y"
    "grows x (y\<lparr>asHeads := hs\<rparr>) = grows x y" for x y i hs by (simp_all add: grows_def)
  have chain: "foldE (chainEvent env t who) es ((n, h), a) = Inr ((m, k), b) \<Longrightarrow> grows a b" for who es n h a m k b
  proof -
    assume "foldE (chainEvent env t who) es ((n, h), a) = Inr ((m, k), b)"
    then have "grows a (snd ((m, k), b))"
      by (rule foldE_invariant [where P = "\<lambda>z. grows a (snd z)"])
        (auto simp: chainEvent_def Let_def bindE_Inr_iff insertIntegrity_def split: if_splits)
    then show ?thesis by simp
  qed
  show "backfillTicket env c s t st = Inr st' \<Longrightarrow> grows st st'"
    unfolding backfillTicket_def Let_def
    by (auto simp: bindE_Inr_iff queueChange_def upsertHead_def split: option.splits if_splits dest!: chain)
qed

lemma backfillBatch_grows: "backfillBatch env c s ts n st = (e, m, st') \<Longrightarrow> grows st st'"
  by (induction ts arbitrary: n st) (auto split: sum.splits dest: backfill_grows intro: grows_trans)

lemma BackfillLifecycle_grows: "BackfillLifecycle fuel env c batch st = Some (e, n, st') \<Longrightarrow> grows st st'"
proof -
  have "backfillLoop fuel env c s b done st = Some (e, n, st') \<Longrightarrow> grows st st'" for s b "done"
    by (induction fuel arbitrary: "done" st)
      (auto simp: Let_def split: if_splits prod.splits option.splits dest!: backfillBatch_grows intro: grows_trans)
  then show "BackfillLifecycle fuel env c batch st = Some (e, n, st') \<Longrightarrow> grows st st'"
    by (auto simp: BackfillLifecycle_def split: option.splits)
qed

section \<open>Histories\<close>

text \<open>
  One call of the store, with the clock it reads. Callers run each in a transaction: an error
  leaves the tables as they were, which \<open>commits\<close> and \<open>commitsWith\<close> say. \<open>OpBackfill\<close> is the
  offline command, which keeps the tickets it chained before an error.
\<close>

datatype AccessOp =
    OpIssue AccessClock uuid "TicketRow list"
  | OpMarkDelivered AccessClock uuid uuid
  | OpDeliveryID uuid
  | OpScan AccessClock RedeemInput string
  | OpReconcile AccessClock ReconcileOccurrence
  | OpRefuse ReconcileOccurrence string
  | OpRecord AccessClock ReconcileOccurrence
  | OpRefund AccessClock uuid uuid uuid int
  | OpExchange AccessClock SwitchExchangeInput
  | OpSetMode AccessClock uuid Mode string
  | OpPolicy uuid uuid uuid ReEntryPolicy
  | OpClaimRedelivery AccessClock uuid uuid string
  | OpMarkRedelivered AccessClock uuid string uuid uuid
  | OpCheckpoint AccessClock uuid LastRoot
  | OpSeal AccessClock
  | OpBackfill nat AccessClock int

definition commits :: "'s \<Rightarrow> 'e + 's \<Rightarrow> 's" where
  "commits st r = (case r of Inl e \<Rightarrow> st | Inr st' \<Rightarrow> st')"

definition commitsWith :: "'s \<Rightarrow> 'e + ('a \<times> 's) \<Rightarrow> 's" where
  "commitsWith st r = (case r of Inl e \<Rightarrow> st | Inr (z, st') \<Rightarrow> st')"

fun accessStep :: "AccessEnv \<Rightarrow> AccessOp \<Rightarrow> AccessState \<Rightarrow> AccessState" where
  "accessStep env (OpIssue c e ts) st = commits st (Issue env c e ts st)"
| "accessStep env (OpMarkDelivered c t m) st = commits st (MarkDelivered env c t m st)"
| "accessStep env (OpDeliveryID t) st = commitsWith st (DeliveryID env t st)"
| "accessStep env (OpScan c i dir) st = commitsWith st (Scan env c i dir st)"
| "accessStep env (OpReconcile c x) st = commitsWith st (ReconcileAdmission env c x st)"
| "accessStep env (OpRefuse x d) st = commitsWith st (RecordRevocationRefusal x d st)"
| "accessStep env (OpRecord c x) st = commitsWith st (RecordAdmission env c x st)"
| "accessStep env (OpRefund c org order k q) st = commitsWith st (RefundOrderTickets env c org order k q st)"
| "accessStep env (OpExchange c x) st = commits st (SwitchExchange env c x st)"
| "accessStep env (OpSetMode c org m w) st = commits st (SetMode c org m w st)"
| "accessStep env (OpPolicy e slot org p) st = commits st (UpsertSlotPolicy e slot org p st)"
| "accessStep env (OpClaimRedelivery c org order key) st = commitsWith st (ClaimRedelivery env c org order key st)"
| "accessStep env (OpMarkRedelivered c org key t m) st = commits st (MarkRedelivered env c org key t m st)"
| "accessStep env (OpCheckpoint c org l) st = commitsWith st (CheckpointOrganizer env c org l st)"
| "accessStep env (OpSeal c) st = snd (SealEpoch c st)"
| "accessStep env (OpBackfill fuel c batch) st =
     (case BackfillLifecycle fuel env c batch st of None \<Rightarrow> st | Some (e, n, st') \<Rightarrow> st')"

text \<open>The tickets a call issues carry the slot their order was sold for.\<close>

definition slotted :: "(uuid \<Rightarrow> uuid \<Rightarrow> uuid) \<Rightarrow> TicketRow list \<Rightarrow> bool" where
  "slotted slotOf ts \<longleftrightarrow> (\<forall>t \<in> set ts. tkSlotID t = slotOf (tkOrderID t) (tkOrganizerID t))"

fun slottedOp :: "(uuid \<Rightarrow> uuid \<Rightarrow> uuid) \<Rightarrow> AccessOp \<Rightarrow> bool" where
  "slottedOp slotOf (OpIssue c e ts) = slotted slotOf ts"
| "slottedOp slotOf (OpExchange c x) = slotted slotOf (swTickets x)"
| "slottedOp slotOf op = True"

lemma commits_rule: "(\<And>st'. r = Inr st' \<Longrightarrow> Q st') \<Longrightarrow> Q st \<Longrightarrow> Q (commits st r)"
  by (cases r) (auto simp: commits_def)

lemma commitsWith_rule: "(\<And>z st'. r = Inr (z, st') \<Longrightarrow> Q st') \<Longrightarrow> Q st \<Longrightarrow> Q (commitsWith st r)"
  by (cases r) (auto simp: commitsWith_def)

lemma SetMode_grows: "SetMode c org m w st = Inr st' \<Longrightarrow> grows st st'"
  by (auto simp: SetMode_def setModeRow_def Let_def split: if_splits)

lemma UpsertSlotPolicy_grows: "UpsertSlotPolicy e slot org p st = Inr st' \<Longrightarrow> grows st st'"
  by (auto simp: UpsertSlotPolicy_def Let_def split: if_splits)

lemma SealEpoch_grows: "grows st (snd (SealEpoch c st))"
  by (simp add: SealEpoch_def Let_def)

lemmas committed_grows =
  commits_rule [where Q = "grows st" for st, OF Issue_grows grows_refl]
  commits_rule [where Q = "grows st" for st, OF MarkDelivered_grows grows_refl]
  commits_rule [where Q = "grows st" for st, OF SwitchExchange_grows grows_refl]
  commits_rule [where Q = "grows st" for st, OF SetMode_grows grows_refl]
  commits_rule [where Q = "grows st" for st, OF UpsertSlotPolicy_grows grows_refl]
  commits_rule [where Q = "grows st" for st, OF MarkRedelivered_grows grows_refl]
  commitsWith_rule [where Q = "grows st" for st, OF DeliveryID_grows grows_refl]
  commitsWith_rule [where Q = "grows st" for st, OF Scan_grows grows_refl]
  commitsWith_rule [where Q = "grows st" for st, OF ReconcileAdmission_grows grows_refl]
  commitsWith_rule [where Q = "grows st" for st, OF RecordRevocationRefusal_grows grows_refl]
  commitsWith_rule [where Q = "grows st" for st, OF RecordAdmission_grows grows_refl]
  commitsWith_rule [where Q = "grows st" for st, OF RefundOrderTickets_grows grows_refl]
  commitsWith_rule [where Q = "grows st" for st, OF ClaimRedelivery_grows grows_refl]
  commitsWith_rule [where Q = "grows st" for st, OF CheckpointOrganizer_grows grows_refl]

lemma accessStep_grows: "grows st (accessStep env op st)"
proof (cases op)
  case (OpBackfill fuel c batch)
  then show ?thesis by (auto split: option.splits dest: BackfillLifecycle_grows)
qed (simp_all add: committed_grows SealEpoch_grows)

lemma honest_backfill:
  assumes "honest env ring slotOf st" and "BackfillLifecycle fuel env c batch st = Some (e, n, st')"
  shows "st' = st"
  using assms(2) honest_unchained [OF assms(1)]
  by (cases fuel) (auto simp: BackfillLifecycle_def split: option.splits)

lemma accessStep_honest:
  assumes h: "honest env ring slotOf st" and s: "signing env s ring" and ok: "slottedOp slotOf op"
  shows "honest env ring slotOf (accessStep env op st)"
proof -
  note rule1 = commits_rule [where Q = "honest env ring slotOf"]
  note rule2 = commitsWith_rule [where Q = "honest env ring slotOf"]
  note committed =
    rule1 [OF MarkDelivered_honest [OF _ h s] h] rule1 [OF SetMode_honest [OF _ h] h] rule1 [OF UpsertSlotPolicy_honest [OF _ h] h]
    rule1 [OF MarkRedelivered_honest [OF _ h s] h] rule2 [OF DeliveryID_honest [OF _ h] h] rule2 [OF Scan_honest [OF _ h s] h]
    rule2 [OF ReconcileAdmission_honest [OF _ h s] h] rule2 [OF RecordRevocationRefusal_honest [OF _ h] h]
    rule2 [OF RecordAdmission_honest [OF _ h s] h] rule2 [OF RefundOrderTickets_honest [OF _ h s] h]
    rule2 [OF ClaimRedelivery_honest [OF _ h] h] rule2 [OF CheckpointOrganizer_honest [OF _ h s] h] SealEpoch_honest [OF h]
  show ?thesis
  proof (cases op)
    case (OpIssue c e ts)
    show ?thesis
      unfolding OpIssue accessStep.simps
      by (rule rule1 [OF Issue_honest [OF _ h s] h]) (use ok OpIssue in \<open>simp_all add: slotted_def\<close>)
  next
    case (OpExchange c x)
    show ?thesis
      unfolding OpExchange accessStep.simps
      by (rule rule1 [OF SwitchExchange_honest [OF _ h s] h]) (use ok OpExchange in \<open>simp_all add: slotted_def\<close>)
  next
    case (OpBackfill fuel c batch)
    show ?thesis unfolding OpBackfill using h honest_backfill [OF h, of fuel c batch] by (auto split: option.splits)
  qed (simp_all add: committed)
qed

interpretation gate: kept_machine "accessStep env" "slottedOp slotOf"
    "\<lambda>st. signing env s ring \<longrightarrow> honest env ring slotOf st" grows
  for env s ring slotOf
  by unfold_locales (auto intro: accessStep_honest accessStep_grows grows_trans)

end
