(* ===== verification/Access_Behaviour.thy ===== *)
theory Access_Behaviour
  imports Access_Runs
begin

text \<open>
  The properties of tickets and scanning: what every history of the access store keeps, what a
  voided ticket can still do, and what a reconciled scan, a refund, an exchange and a policy
  evaluation leave behind.
\<close>

section \<open>The trail of every history\<close>

text \<open>Keys and hashes of one byte string, enough for the laws the model takes from Go's libraries.\<close>

definition accessSample :: AccessEnv where
  "accessSample =
     \<lparr>aeLifecycle = \<lparr>leSha = (\<lambda>s. GenesisHash), leRFC = (\<lambda>t. ''t''), lePublic = (\<lambda>k. GenesisHash),
        leSign = (\<lambda>k m. GenesisHash @ GenesisHash), leVerify = (\<lambda>p m s. True)\<rparr>,
      aeSHA1 = (\<lambda>s. of_nat (length s mod 1000 + 1)), aeSigner = Some \<lparr>siPrivate = ''p'', siKID = ''k''\<rparr>,
      aeKeyring = Some [''k'' \<mapsto> GenesisHash], aeThreshold = 0, aeWindow = 0\<rparr>"

definition sampleClock :: AccessClock where
  "sampleClock = \<lparr>clNow = (\<lambda>i. 5000), clDB = 7000, clAlarm = (\<lambda>i. 6000), clFresh = (\<lambda>i. of_nat i + 900),
     clQuarantine = (\<lambda>i. of_nat i + 800)\<rparr>"

definition sampleTicket :: "nat \<Rightarrow> TicketRow" where
  "sampleTicket n = \<lparr>tkID = of_nat n + 1, tkOrderID = 50, tkGuestOrderRef = 60, tkOrganizerID = 70, tkBuyerID = 80, tkSlotID = 90,
     tkTicketTypeID = 95, tkSeatIdentity = None, tkPayload = ''qr'', tkIssuedAt = 1000\<rparr>"

text \<open>
  C3: Whatever is issued, scanned, reconciled, refunded, exchanged, redelivered, checkpointed and
  sealed, in any order and with any failures between, a store that began empty passes its own
  offline verification up to the age of the oldest pending head: every ticket's chain verifies,
  no scan was ever put in quarantine and no integrity alarm is owed. It rests on the signer
  being in the keyring, on Ed25519 verifying what it signs, and on every order being sold for
  one slot.
\<close>
theorem every_history_passes_the_audit:
  assumes "signing env s ring" and "list_all (slottedOp slotOf) ops"
  shows "let st = fold (accessStep env) ops emptyAccess in
    VerifyLifecycle env c v maxAge st = verifyPendingAge c maxAge st \<and> asQuarantine st = [] \<and>
    list_all (\<lambda>a. \<not> integrityAlarm (alData a)) (asAlarms st) \<and>
    list_all (\<lambda>r. verifyTicketChain env st (tkID r) (identityOf r) = None) (asTickets st)"
proof -
  let ?st = "fold (accessStep env) ops emptyAccess"
  have "signing env s ring \<longrightarrow> honest env ring slotOf ?st"
    by (rule gate.run_kept [OF assms(2)]) (simp add: honest_empty)
  then have h: "honest env ring slotOf ?st" using assms(1) by simp
  have "verifyTicketChain env ?st (tkID r) (identityOf r) = None" if "r \<in> set (asTickets ?st)" for r
    using honest_verifies [OF h assms(1) ticketRow_known [OF _ that]] h by (simp add: honest_def soundTrail_def)
  then show ?thesis
    using h honest_passes_audit [OF h assms(1)] by (simp add: Let_def honest_def list_all_iff)
qed

lemma sample_signing: "signing accessSample \<lparr>siPrivate = ''p'', siKID = ''k''\<rparr> [''k'' \<mapsto> GenesisHash]"
  by (simp add: signing_def accessSample_def holdsSigner_def ed25519_def GenesisHash_def)

theorem every_history_passes_the_audit_witness:
  "let st = fold (accessStep accessSample)
      [OpIssue sampleClock 40 [sampleTicket 0], OpSeal sampleClock, OpRefund sampleClock 70 50 77 1] emptyAccess in
    VerifyLifecycle accessSample sampleClock True 0 st = verifyPendingAge sampleClock 0 st \<and> asQuarantine st = [] \<and>
    list_all (\<lambda>a. \<not> integrityAlarm (alData a)) (asAlarms st) \<and>
    list_all (\<lambda>r. verifyTicketChain accessSample st (tkID r) (identityOf r) = None) (asTickets st)"
  by (rule every_history_passes_the_audit [OF sample_signing, where slotOf = "\<lambda>order org. 90"])
    (simp add: slotted_def sampleTicket_def)

section \<open>A voided ticket\<close>

lemma find_prefix: "prefix xs ys \<Longrightarrow> find P xs = Some e \<Longrightarrow> find P ys = Some e"
proof (induction xs arbitrary: ys)
  case (Cons x xs)
  then obtain zs where "ys = x # zs" "prefix xs zs" by (cases ys) auto
  then show ?case using Cons by (auto split: if_splits)
qed simp

lemma grows_refunded: "grows st st' \<Longrightarrow> ticketRefunded st t \<Longrightarrow> ticketRefunded st' t"
  using find_prefix [of "asEvents st" "asEvents st'" "\<lambda>e. evTicketID e = t \<and> evType e = ''refunded''"]
  by (auto simp: ticketRefunded_def refundThatVoided_def grows_def split: option.splits)

lemma grows_exchanged: "grows st st' \<Longrightarrow> ticketExchanged st t \<Longrightarrow> ticketExchanged st' t"
  by (auto simp: ticketExchanged_def grows_def list_ex_iff dest: set_mono_prefix)

text \<open>
  C6: Once a ticket is refunded or exchanged it is never admitted again: after any further history,
  whatever the slot's policy has become, no scan with any credential, occurrence or direction,
  not even the retry of one that was accepted before, is answered as accepted, and none of them
  writes to the store. No law of a library is assumed.
\<close>
theorem voided_never_admitted:
  assumes "ticketRefunded st t \<or> ticketExchanged st t" and "riTicketID i = t"
    and "Scan env c i dir (fold (accessStep env) ops st) = Inr (z, st')"
  shows "\<not> rrAccepted z \<and> st' = fold (accessStep env) ops st"
proof -
  let ?st = "fold (accessStep env) ops st"
  have "ticketRefunded ?st t \<or> ticketExchanged ?st t"
    using assms(1) grows_refunded [OF gate.run_grown] grows_exchanged [OF gate.run_grown] by blast
  then show ?thesis
    using assms(2,3)
    by (auto simp: Scan_def redeemSingle_def admitPass_def Let_def bindE_Inr_iff denied_def split: if_splits)
qed

definition refundedSample :: AccessState where
  "refundedSample = emptyAccess\<lparr>asTickets := [sampleTicket 0],
     asEvents := [\<lparr>evID = 5, evTicketID = 1, evType = ''refunded'', evOccurredAt = 1000\<rparr>]\<rparr>"

definition sampleScan :: RedeemInput where
  "sampleScan = \<lparr>riTicketID = 1, riOrderID = 50, riOrganizerID = 70, riSlotID = 90, riOccurrenceID = 0, riOccurredAt = 0\<rparr>"

lemma refundedSample_scan:
  "Scan accessSample sampleClock sampleScan ''entry'' (fold (accessStep accessSample) [OpSeal sampleClock] refundedSample) =
   Inr (denied DecisionRefunded 5000, fold (accessStep accessSample) [OpSeal sampleClock] refundedSample)"
  by (simp add: Scan_def slotPolicy_def singlePolicy_def IsPass_def redeemSingle_def credentialOf_def ticketRow_def refundedSample_def
      emptyAccess_def sampleTicket_def sampleScan_def SealEpoch_def ticketRefunded_def refundThatVoided_def accessNow_def
      truncateMicro_def sampleClock_def Let_def)

theorem voided_never_admitted_witness:
  "\<not> rrAccepted (denied DecisionRefunded 5000) \<and>
   Scan accessSample sampleClock sampleScan ''entry'' (fold (accessStep accessSample) [OpSeal sampleClock] refundedSample) =
   Inr (denied DecisionRefunded 5000, fold (accessStep accessSample) [OpSeal sampleClock] refundedSample)"
  using voided_never_admitted [OF _ _ refundedSample_scan, of 1] refundedSample_scan
  by (simp add: refundedSample_def ticketRefunded_def refundThatVoided_def sampleScan_def)

section \<open>An occurrence is recorded once\<close>

text \<open>What an evaluation of the policy and the alarms of a scan leave alone.\<close>

definition factTables where
  "factTables st = (asTickets st, asEvents st, asIntegrity st, asQuarantine st, asPolicies st, asRefusals st)"

lemma factTables_eq: "factTables st' = factTables st \<longleftrightarrow>
    asTickets st' = asTickets st \<and> asEvents st' = asEvents st \<and> asIntegrity st' = asIntegrity st \<and>
    asQuarantine st' = asQuarantine st \<and> asPolicies st' = asPolicies st \<and> asRefusals st' = asRefusals st"
  by (auto simp: factTables_def)

lemma oweRow_facts: "oweRow k c d st = Inr st' \<Longrightarrow> factTables st' = factTables st"
  by (auto simp: oweRow_def factTables_eq split: if_splits)

lemma transitionConflict_facts: "transitionConflict env c t who v status x st = Inr st' \<Longrightarrow> factTables st' = factTables st"
  unfolding transitionConflict_def Let_def by (drule oweRow_facts) (simp add: storeConflict_def factTables_eq)

lemma foldE_facts:
  "foldE (transitionConflict env c t who v status) xs st = Inr st' \<Longrightarrow> factTables st' = factTables st"
  by (erule foldE_invariant [where P = "\<lambda>x. factTables x = factTables st"]) (auto dest: transitionConflict_facts)

lemma evaluatePolicyAlarms_facts: "evaluatePolicyAlarms env c t who p st = Inr st' \<Longrightarrow> factTables st' = factTables st"
  by (auto simp: evaluatePolicyAlarms_Inr_iff dest!: foldE_facts)

lemma appended_policies [simp]:
  "asPolicies (appended env c s a st) = asPolicies st" "asRefusals (appended env c s a st) = asRefusals st"
  by (simp_all add: appended_def queueChange_def)

lemma recordEvent_stored:
  assumes "recordEvent env c x who ty st = Inr (at, st1)" and "\<not> IsZero (roOccurredAt x)"
  shows "asEvents st1 = asEvents st @ [\<lparr>evID = roOccurrenceID x, evTicketID = roTicketID x, evType = ty,
      evOccurredAt = truncateMicro (roOccurredAt x)\<rparr>] \<and> asTickets st1 = asTickets st \<and> asPolicies st1 = asPolicies st"
  using assms by (auto simp: recordEvent_def appendLifecycle_Inr_iff newEvent_def storedAt_def eventFor_def)

lemma replayOf_None:
  "replayOf m st t occ = Inr None \<longleftrightarrow>
   find (\<lambda>e. evID e = occ) (asEvents st) = None \<and> quarantinedOccurrence st occ = None \<and> \<not> refusedOccurrence st occ"
  by (auto simp: replayOf_def split: option.splits)

lemma reconcileReplay_None:
  "reconcileReplay st t occ dir = Inr None \<longleftrightarrow> replayOf (passMatches dir) st t occ = Inr None"
  by (auto simp: reconcileReplay_def bindE_Inr_iff)

text \<open>An occurrence the record holds, on either side of the union.\<close>

definition onRecord :: "AccessState \<Rightarrow> uuid \<Rightarrow> bool" where
  "onRecord st occ \<longleftrightarrow> find (\<lambda>e. evID e = occ) (asEvents st) \<noteq> None \<or> quarantinedOccurrence st occ \<noteq> None"

lemma onRecord_grows: "grows st st' \<Longrightarrow> onRecord st occ \<Longrightarrow> onRecord st' occ"
  unfolding onRecord_def quarantinedOccurrence_def grows_def by (auto dest: find_prefix)

lemma replayed_onRecord:
  "onRecord st occ \<Longrightarrow> reconcileReplay st t occ dir \<noteq> Inr None"
  by (auto simp: reconcileReplay_None replayOf_None onRecord_def)

lemma reconcileReplay_event:
  "find (\<lambda>e. evID e = occ) (asEvents st) = Some e \<Longrightarrow> evTicketID e = t \<Longrightarrow> passMatches dir (evType e) \<Longrightarrow>
   reconcileReplay st t occ dir = Inr (Some (evOccurredAt e))"
  by (simp add: reconcileReplay_def replayOf_def admitted_def)

lemma reconcileReplay_learned:
  "find (\<lambda>e. evID e = occ) (asEvents st) = None \<Longrightarrow> quarantinedOccurrence st occ = Some q \<Longrightarrow> quTicketID q = t \<Longrightarrow>
   quAdmittedAt q = None \<Longrightarrow> quOccurredAt q = Some at \<Longrightarrow> passMatches dir (quEventType q) \<Longrightarrow>
   reconcileReplay st t occ dir = Inr (Some at)"
  by (simp add: reconcileReplay_def replayOf_def admitted_def timeOf_def)

lemma insertQuarantine_learned:
  assumes "insertQuarantine c (learnedRow x org cause ty) st = Inr st1" and "quarantinedOccurrence st (roOccurrenceID x) = None"
  shows "asEvents st1 = asEvents st \<and> asTickets st1 = asTickets st \<and> asPolicies st1 = asPolicies st \<and>
    (\<exists>q. quarantinedOccurrence st1 (roOccurrenceID x) = Some q \<and> quTicketID q = roTicketID x \<and> quAdmittedAt q = None \<and>
       quOccurredAt q = Some (truncateMicro (roOccurredAt x)) \<and> quEventType q = ty)"
  using assms by (auto simp: insertQuarantine_def Let_def learnedRow_def quarantinedOccurrence_def find_snoc split: if_splits)

text \<open>What a reconciliation that was not a replay leaves for the next one to find.\<close>

lemma recordSingle_stored:
  assumes "recordSingle env c x who st = Inr (z, st')" and "\<not> IsZero (roOccurredAt x)"
  shows "\<exists>ty. ty \<in> {''redeemed'', ''duplicate_admit''} \<and>
    asEvents st' = asEvents st @ [\<lparr>evID = roOccurrenceID x, evTicketID = roTicketID x, evType = ty,
      evOccurredAt = truncateMicro (roOccurredAt x)\<rparr>] \<and> asTickets st' = asTickets st \<and> asPolicies st' = asPolicies st"
proof -
  obtain ty at st1 where "ty \<in> {''redeemed'', ''duplicate_admit''}" and e: "recordEvent env c x who ty st = Inr (at, st1)"
    and "st' = st1 \<or> owedConflict c x who st1 = Inr st'"
    using assms(1) by (auto simp: recordSingle_def Let_def bindE_Inr_iff split: if_splits)
  moreover have "owedConflict c x who st1 = Inr st' \<Longrightarrow> factTables st' = factTables st1"
    unfolding owedConflict_def oweConflictAlarm_def by (rule oweRow_facts)
  ultimately show ?thesis using recordEvent_stored [OF e assms(2)] by (auto simp: factTables_eq)
qed

lemma recordPass_stored:
  assumes "recordPass env c x dir p who st = Inr (z, st')" and "\<not> IsZero (roOccurredAt x)"
  shows "asEvents st' = asEvents st @ [\<lparr>evID = roOccurrenceID x, evTicketID = roTicketID x, evType = dir,
      evOccurredAt = truncateMicro (roOccurredAt x)\<rparr>] \<and> asTickets st' = asTickets st \<and> asPolicies st' = asPolicies st"
proof -
  obtain at st1 where e: "recordEvent env c x who dir st = Inr (at, st1)"
    and p: "evaluatePolicyAlarms env c (roTicketID x) who p st1 = Inr st'"
    using assms(1) by (auto simp: recordPass_def bindE_Inr_iff)
  show ?thesis using recordEvent_stored [OF e assms(2)] evaluatePolicyAlarms_facts [OF p] by (simp add: factTables_eq)
qed

lemma recordQuarantined_stored:
  assumes "recordQuarantined env c x dir p who cause st = Inr (z, st')" and "quarantinedOccurrence st (roOccurrenceID x) = None"
  shows "asEvents st' = asEvents st \<and> asTickets st' = asTickets st \<and> asPolicies st' = asPolicies st \<and>
    (\<exists>q. quarantinedOccurrence st' (roOccurrenceID x) = Some q \<and> quTicketID q = roTicketID x \<and> quAdmittedAt q = None \<and>
       quOccurredAt q = Some (truncateMicro (roOccurredAt x)) \<and> quEventType q = quarantineEventType p dir)"
proof -
  obtain st1 where i: "insertQuarantine c (learnedRow x (tiOrganizerID who) cause (quarantineEventType p dir)) st = Inr st1"
    and p: "st' = st1 \<or> evaluatePolicyAlarms env c (roTicketID x) who p st1 = Inr st'"
    using assms(1) by (auto simp: recordQuarantined_def bindE_Inr_iff split: if_splits)
  have "factTables st' = factTables st1" using p evaluatePolicyAlarms_facts by auto
  then show ?thesis using insertQuarantine_learned [OF i assms(2)] by (simp add: factTables_eq quarantinedOccurrence_def)
qed

lemma onRecord_replay: "reconcileReplay st t occ dir = Inr (Some at) \<Longrightarrow> onRecord st occ"
  by (auto simp: onRecord_def reconcileReplay_def bindE_Inr_iff replayOf_def split: option.splits if_splits)

lemma passMatches_recorded:
  "dir = ''entry'' \<or> dir = ''exit'' \<Longrightarrow> passMatches dir dir"
  "passMatches ''entry'' ''redeemed''" "passMatches ''entry'' ''duplicate_admit''"
  by (auto simp: passMatches_def)

lemma ReconcileAdmission_stored:
  assumes "ReconcileAdmission env c x st = Inr (z, st')" and dir: "dir = (if roType x = '''' then ''entry'' else roType x)"
  shows "(\<exists>at. reconcileReplay st' (roTicketID x) (roOccurrenceID x) dir = Inr (Some at) \<and>
      (reOutcome z = ReconcileSynced \<or> at = truncateMicro (roOccurredAt x))) \<and>
    asTickets st' = asTickets st \<and> asPolicies st' = asPolicies st"
  using assms(1)
proof (cases rule: ReconcileAdmission_Inr)
  case (known r direction v)
  have d: "direction = dir" using known(2) dir by simp
  note way = known(3) [unfolded d] and nz = known(6) and pass = known(8) [unfolded d] and rest = known(10) [unfolded d]
  show ?thesis
  proof (cases v)
    case (Some at)
    then show ?thesis using known(9) rest d by (auto simp: reconciled_def)
  next
    case None
    then have free: "find (\<lambda>e. evID e = roOccurrenceID x) (asEvents st) = None" "quarantinedOccurrence st (roOccurrenceID x) = None"
      using known(9) reconcileReplay_None replayOf_None by auto
    let ?e = "\<lambda>ty. \<lparr>evID = roOccurrenceID x, evTicketID = roTicketID x, evType = ty, evOccurredAt = truncateMicro (roOccurredAt x)\<rparr>"
    have event: ?thesis
      if "asEvents st' = asEvents st @ [?e ty]" "asTickets st' = asTickets st" "asPolicies st' = asPolicies st" "passMatches dir ty" for ty
      using that free reconcileReplay_event [of "roOccurrenceID x" st' "?e ty" "roTicketID x" dir] by (simp add: find_snoc)
    show ?thesis
    proof (cases "verifyTicketChain env st (roTicketID x) (identityOf r)")
      case (Some cause)
      then have q: "recordQuarantined env c x dir (slotPolicy st (tkSlotID r)) (identityOf r) cause st = Inr (z, st')"
        using rest None by simp
      have "passMatches dir (quarantineEventType (slotPolicy st (tkSlotID r)) dir)"
        using pass way by (auto simp: quarantineEventType_def passMatches_def)
      then show ?thesis
        using recordQuarantined_stored [OF q free(2)] free(1) reconcileReplay_learned [of "roOccurrenceID x" st'] by fastforce
    next
      case ok: None
      show ?thesis
      proof (cases "IsPass (slotPolicy st (tkSlotID r))")
        case True
        then have "recordPass env c x dir (slotPolicy st (tkSlotID r)) (identityOf r) st = Inr (z, st')" using rest None ok by simp
        from recordPass_stored [OF this nz] show ?thesis using event [of dir] passMatches_recorded(1) [OF way] by blast
      next
        case False
        then have "recordSingle env c x (identityOf r) st = Inr (z, st')" and e: "dir = ''entry''" using rest None ok pass way by auto
        from recordSingle_stored [OF this(1) nz] obtain ty where ty: "ty \<in> {''redeemed'', ''duplicate_admit''}"
          and stored: "asEvents st' = asEvents st @ [?e ty]" "asTickets st' = asTickets st" "asPolicies st' = asPolicies st" by blast
        have "passMatches dir ty" using ty e passMatches_recorded(2,3) by auto
        with stored show ?thesis by (rule event)
      qed
    qed
  qed
qed

text \<open>
  C7: A device may upload an admission as often as it likes: the occurrence is recorded once. Sent
  again at once it is answered as synced with the stored time (the claimed one, to the
  microsecond, unless that first upload was a replay itself) and nothing is written; sent again
  after any further history it is synced or refused, and again nothing is written. This holds
  for entries and exits, for passes and single entries, and for tickets whose chain fails.
\<close>
theorem reconciled_once:
  assumes "ReconcileAdmission env c x st = Inr (z, st')"
  shows "(\<exists>at. ReconcileAdmission env c' x st' = Inr (reconciled c' x ReconcileSynced at, st') \<and>
      (reOutcome z = ReconcileSynced \<or> at = truncateMicro (roOccurredAt x))) \<and>
    (\<forall>z' st2. ReconcileAdmission env c' x (fold (accessStep env) ops st') = Inr (z', st2) \<longrightarrow>
       reOutcome z' = ReconcileSynced \<and> st2 = fold (accessStep env) ops st')"
proof -
  define dir where "dir = (if roType x = '''' then ''entry'' else roType x)"
  obtain at where at: "reconcileReplay st' (roTicketID x) (roOccurrenceID x) dir = Inr (Some at)"
    "reOutcome z = ReconcileSynced \<or> at = truncateMicro (roOccurredAt x)"
    and same: "asTickets st' = asTickets st" "asPolicies st' = asPolicies st"
    using ReconcileAdmission_stored [OF assms dir_def] by blast
  have "ReconcileAdmission env c' x st' = Inr (reconciled c' x ReconcileSynced at, st')"
    using assms
  proof (cases rule: ReconcileAdmission_Inr)
    case (known r direction v)
    then have d: "direction = dir" by (simp add: dir_def)
    have "credentialOf st' (roTicketID x) (roOrderID x) (roOrganizerID x) (roSlotID x) = Inr (identityOf r)"
      "slotPolicy st' = slotPolicy st"
      using known(7) same by (simp_all add: credentialOf_def ticketRow_def slotPolicy_def fun_eq_iff)
    moreover have "tiSlotID (identityOf r) = tkSlotID r" by (simp add: identityOf_def)
    ultimately show ?thesis
      using known(3-6,8) at(1) unfolding d
      by (auto simp: ReconcileAdmission_def Let_def dir_def [symmetric])
  qed
  moreover have "reOutcome z' = ReconcileSynced \<and> st2 = fold (accessStep env) ops st'"
    if "ReconcileAdmission env c' x (fold (accessStep env) ops st') = Inr (z', st2)" for z' st2
    using that
  proof (cases rule: ReconcileAdmission_Inr)
    case (known r direction v)
    have "v \<noteq> None"
      using known(9) replayed_onRecord [OF onRecord_grows [OF gate.run_grown onRecord_replay [OF at(1)]]] by metis
    then show ?thesis using known(10) by (auto simp: reconciled_def)
  qed
  ultimately show ?thesis using at(2) by blast
qed

definition sampleOccurrence :: ReconcileOccurrence where
  "sampleOccurrence = \<lparr>roTicketID = 1, roOrderID = 50, roOrganizerID = 70, roSlotID = 90,
     roOccurrenceID = 302231454903657293676544 + 9223372036854775808, roOccurredAt = 123456789, roType = ''''\<rparr>"
definition issuedSample :: AccessState where
  "issuedSample = emptyAccess\<lparr>asTickets := [sampleTicket 0]\<rparr>"
lemma v4: "isUUIDv4 (302231454903657293676544 + 9223372036854775808)"
  by (simp add: isUUIDv4_def uuidVersion_def uuidRFC4122_def)
lemma sample_chain: "verifyTicketChain env issuedSample t who = None"
  by (simp add: verifyTicketChain_def issuedSample_def emptyAccess_def chainRows_def bySequence_def orphanRows_def checkHead_def)
lemma sample_recorded:
  "\<exists>st'. ReconcileAdmission accessSample sampleClock sampleOccurrence issuedSample =
     Inr (reconciled sampleClock sampleOccurrence ReconcileRecorded 123456000, st')"
proof -
  let ?who = "identityOf (sampleTicket 0)"
  let ?s = "\<lparr>siPrivate = ''p'', siKID = ''k''\<rparr>"
  let ?a = "eventFor 1 ?who (roOccurrenceID sampleOccurrence) ''redeemed'' 123456789"
  let ?st = "appended accessSample sampleClock ?s ?a issuedSample"
  have e: "recordEvent accessSample sampleClock sampleOccurrence ?who ''redeemed'' issuedSample = Inr (123456000, ?st)"
    unfolding recordEvent_def takenAs_Inr appendLifecycle_Inr_iff
    by (rule exI [of _ ?s])
      (simp add: sampleOccurrence_def eventFor_def accessSample_def issuedSample_def emptyAccess_def knownTicket_def sampleTicket_def
        lifecycleTypes_def storedAt_def truncateMicro_def loadHead_def entryHash_def HashEntry_def newHead_def IsZero_def signedHead_def
        SignHead_def GenesisHash_def)
  have "\<not> ticketRefunded ?st 1" "\<not> ticketExchanged ?st 1" "\<not> ticketAdmittedUnion issuedSample 1"
    by (simp_all add: ticketRefunded_def refundThatVoided_def ticketExchanged_def ticketAdmittedUnion_def issuedSample_def emptyAccess_def eventFor_def newEvent_def)
  then have "recordSingle accessSample sampleClock sampleOccurrence ?who issuedSample =
      Inr (reconciled sampleClock sampleOccurrence ReconcileRecorded 123456000, ?st)"
    using e by (simp add: recordSingle_def sampleOccurrence_def)
  moreover have "credentialOf issuedSample 1 50 70 90 = Inr ?who" "tiSlotID ?who = 90"
    by (simp_all add: credentialOf_def issuedSample_def emptyAccess_def ticketRow_def sampleTicket_def identityOf_def)
  moreover have "slotPolicy issuedSample 90 = singlePolicy" "\<not> IsPass singlePolicy"
    by (simp_all add: slotPolicy_def issuedSample_def emptyAccess_def IsPass_def singlePolicy_def)
  moreover have "reconcileReplay issuedSample 1 u ''entry'' = Inr None" for u
    by (simp add: reconcileReplay_def replayOf_def issuedSample_def emptyAccess_def quarantinedOccurrence_def refusedOccurrence_def)
  moreover have "\<not> IsZero 123456789" by (simp add: IsZero_def)
  ultimately show ?thesis
    using v4 by (auto simp: ReconcileAdmission_def sampleOccurrence_def Let_def sample_chain)
qed

theorem reconciled_once_witness:
  "\<exists>st'. ReconcileAdmission accessSample sampleClock sampleOccurrence issuedSample =
      Inr (reconciled sampleClock sampleOccurrence ReconcileRecorded 123456000, st') \<and>
    ReconcileAdmission accessSample sampleClock sampleOccurrence st' =
      Inr (reconciled sampleClock sampleOccurrence ReconcileSynced 123456000, st')"
proof -
  obtain st' where s: "ReconcileAdmission accessSample sampleClock sampleOccurrence issuedSample =
      Inr (reconciled sampleClock sampleOccurrence ReconcileRecorded 123456000, st')"
    using sample_recorded by blast
  show ?thesis
    using s reconciled_once [OF s, of sampleClock "[]"]
    by (auto simp: reconciled_def sampleOccurrence_def truncateMicro_def)
qed

section \<open>A refund voids its tickets\<close>

lemma void_loop:
  assumes "foldE (voidTicket env c who ty eid) ids st = Inr st'" and "ty \<in> set singletonTypes"
  shows "asEvents st' = asEvents st @ map (\<lambda>t. \<lparr>evID = eid t, evTicketID = t, evType = ty, evOccurredAt = truncateMicro (clDB c)\<rparr>) ids \<and>
    asTickets st' = asTickets st \<and> asBatches st' = asBatches st \<and>
    (\<forall>t \<in> set ids. \<forall>e \<in> set (asEvents st). evTicketID e = t \<longrightarrow> evType e \<noteq> ty)"
  using assms(1)
proof (induction ids arbitrary: st)
  case (Cons t ids)
  then obtain st1 where v: "voidTicket env c who ty eid t st = Inr st1"
    and rest: "foldE (voidTicket env c who ty eid) ids st1 = Inr st'"
    by (auto simp: bindE_Inr_iff)
  have "asEvents st1 = asEvents st @ [\<lparr>evID = eid t, evTicketID = t, evType = ty, evOccurredAt = truncateMicro (clDB c)\<rparr>]"
    "asTickets st1 = asTickets st" "asBatches st1 = asBatches st"
    "\<forall>e \<in> set (asEvents st). evTicketID e = t \<longrightarrow> evType e \<noteq> ty"
    using v assms(2)
    by (auto simp: voidTicket_def bindE_Inr_iff appendLifecycle_Inr_iff newEvent_def storedAt_def eventFor_def IsZero_def
        appended_def queueChange_def)
  then show ?case using Cons.IH [OF rest] by auto
qed simp

lemma void_loop_refunded:
  assumes "foldE (voidTicket env c who ''refunded'' eid) ids st = Inr st'"
  shows "refundThatVoided st' t = (if t \<in> set ids then eid t else refundThatVoided st t)"
proof -
  let ?ev = "\<lambda>t. \<lparr>evID = eid t, evTicketID = t, evType = ''refunded'', evOccurredAt = truncateMicro (clDB c)\<rparr>"
  note loop = void_loop [OF assms]
  have new: "find (\<lambda>e. evTicketID e = t \<and> evType e = ''refunded'') (map ?ev ids) = (if t \<in> set ids then Some (?ev t) else None)"
    by (induction ids) auto
  have app: "find P (xs @ ys) = (case find P xs of None \<Rightarrow> find P ys | Some y \<Rightarrow> Some y)" for P and xs ys :: "EventRow list"
    by (induction xs) auto
  have "t \<in> set ids \<Longrightarrow> find (\<lambda>e. evTicketID e = t \<and> evType e = ''refunded'') (asEvents st) = None"
    using loop by (auto simp: find_None_iff singletonTypes_def)
  then show ?thesis
    using loop by (auto simp: refundThatVoided_def app new singletonTypes_def split: option.splits)
qed

lemma filter_in_take:
  "distinct xs \<Longrightarrow> filter (\<lambda>t. t \<in> set (take n (filter P xs))) xs = take n (filter P xs)"
proof (induction xs arbitrary: n)
  case (Cons x xs)
  have out: "x \<notin> set (take m (filter P xs))" for m using Cons.prems by (auto dest: in_set_takeD)
  show ?case
  proof (cases "P x \<and> n \<noteq> 0")
    case True
    then obtain m where "n = Suc m" by (cases n) auto
    moreover have "filter (\<lambda>t. t = x \<or> t \<in> set (take m (filter P xs))) xs = filter (\<lambda>t. t \<in> set (take m (filter P xs))) xs"
      using Cons.prems by (intro filter_cong) auto
    ultimately show ?thesis using True Cons by simp
  next
    case False
    then show ?thesis using Cons out by (cases n) auto
  qed
qed simp

lemma RefundOrderTickets_fresh:
  assumes "RefundOrderTickets env c org order k q st = Inr (b, st')" and "\<not> trReplay b"
  obtains r where "1 \<le> q" and "q \<le> int (length (filter (\<lambda>t. refundThatVoided st t = uuid_Nil) (orderTickets order org st)))"
    and "b = \<lparr>trRefundID = k, trOrderID = order,
      trTicketIDs = take (nat q) (filter (\<lambda>t. refundThatVoided st t = uuid_Nil) (orderTickets order org st)), trReplay = False\<rparr>"
    and "filter (\<lambda>t. refundThatVoided st t \<noteq> uuid_Nil \<and> refundThatVoided st t = refundEventID env k t) (orderTickets order org st) = []"
    and "boundBatch org k st = None"
    and "foldE (voidTicket env c (identityOf r) ''refunded'' (refundEventID env k)) (trTicketIDs b)
      (st\<lparr>asBatches := asBatches st @ [\<lparr>baOrganizerID = org, baRefundID = k, baOrderID = order, baQuantity = q\<rparr>]\<rparr>) = Inr st'"
  using assms
  by (auto simp: RefundOrderTickets_def Let_def bindE_Inr_iff not_less split: if_splits option.splits)

text \<open>
  C10: A refund of \<open>q\<close> tickets of an order voids exactly \<open>q\<close> of its tickets: tickets of that order
  that no refund had voided, and no others, of this or any order. Asked again with the same
  refund, order and quantity it names the same tickets as a replay and writes nothing. It
  assumes the ticket table's key and that a name-based identifier is never the nil one.
\<close>
theorem refund_voids_its_batch:
  assumes ok: "RefundOrderTickets env c org order k q st = Inr (b, st')" and new: "\<not> trReplay b"
    and key: "distinct (map tkID (asTickets st))" and sha: "\<forall>s. aeSHA1 env s \<noteq> uuid_Nil"
  shows "int (length (trTicketIDs b)) = q \<and> distinct (trTicketIDs b) \<and>
    set (trTicketIDs b) \<subseteq> {t \<in> set (orderTickets order org st). \<not> ticketRefunded st t} \<and>
    (\<forall>t. ticketRefunded st' t \<longleftrightarrow> ticketRefunded st t \<or> t \<in> set (trTicketIDs b)) \<and>
    RefundOrderTickets env c' org order k q st' = Inr (b\<lparr>trReplay := True\<rparr>, st')"
proof -
  define free where "free = filter (\<lambda>t. refundThatVoided st t = uuid_Nil) (orderTickets order org st)"
  define ids where "ids = take (nat q) free"
  define row where "row = \<lparr>baOrganizerID = org, baRefundID = k, baOrderID = order, baQuantity = q\<rparr>"
  obtain r where q: "1 \<le> q" "q \<le> int (length free)"
    and b: "b = \<lparr>trRefundID = k, trOrderID = order, trTicketIDs = ids, trReplay = False\<rparr>"
    and none: "filter (\<lambda>t. refundThatVoided st t \<noteq> uuid_Nil \<and> refundThatVoided st t = refundEventID env k t) (orderTickets order org st) = []"
    and unbound: "boundBatch org k st = None"
    and loop: "foldE (voidTicket env c (identityOf r) ''refunded'' (refundEventID env k)) ids
      (st\<lparr>asBatches := asBatches st @ [row]\<rparr>) = Inr st'"
    using RefundOrderTickets_fresh [OF ok new] unfolding free_def [symmetric] ids_def [symmetric] row_def [symmetric] by auto
  have dist: "distinct (orderTickets order org st)"
    using key by (simp add: orderTickets_def distinct_map_filter)
  have ids: "distinct ids" "set ids \<subseteq> set free" using dist by (auto simp: ids_def free_def dest: in_set_takeD)
  have voided: "refundThatVoided st' t = (if t \<in> set ids then refundEventID env k t else refundThatVoided st t)" for t
    using void_loop_refunded [OF loop] by (simp add: refundThatVoided_def)
  have nz: "refundEventID env k t \<noteq> uuid_Nil" for t using sha by (simp add: refundEventID_def)
  have tables: "asTickets st' = asTickets st" "asBatches st' = asBatches st @ [row]"
    using void_loop [OF loop] by (auto simp: singletonTypes_def)
  have order': "orderTickets order org st' = orderTickets order org st" using tables(1) by (rule orderTickets_tickets)
  have bound: "boundBatch org k st' = Some row" using unbound tables(2) by (simp add: boundBatch_def find_snoc row_def)
  have "filter (\<lambda>t. refundThatVoided st' t \<noteq> uuid_Nil \<and> refundThatVoided st' t = refundEventID env k t) (orderTickets order org st) =
      filter (\<lambda>t. t \<in> set ids) (orderTickets order org st)"
    using none nz by (intro filter_cong) (auto simp: voided filter_empty_conv)
  also have "\<dots> = ids" unfolding ids_def free_def by (rule filter_in_take [OF dist])
  finally have mine: "filter (\<lambda>t. refundThatVoided st' t \<noteq> uuid_Nil \<and> refundThatVoided st' t = refundEventID env k t)
      (orderTickets order org st) = ids" .
  have len: "int (length ids) = q" using q by (simp add: ids_def)
  then have "ids \<noteq> []" using q by auto
  then have "RefundOrderTickets env c' org order k q st' = Inr (b\<lparr>trReplay := True\<rparr>, st')"
    unfolding RefundOrderTickets_def Let_def order' mine bound
    using q len by (simp add: b bindingAgrees_def row_def)
  moreover have "set ids \<subseteq> {t \<in> set (orderTickets order org st). \<not> ticketRefunded st t}"
    using ids(2) by (auto simp: free_def ticketRefunded_def)
  ultimately show ?thesis using len ids(1) voided nz by (simp add: b ticketRefunded_def)
qed

section \<open>An exchange replaces an order\<close>

lemma issue_loop:
  assumes "foldE (insertIssuedTicket env c) ts st = Inr st'"
  shows "(\<exists>es. asEvents st' = asEvents st @ es \<and> (\<forall>e \<in> set es. evType e = ''issued'')) \<and>
    asTickets st' = asTickets st @ map (\<lambda>t. t\<lparr>tkIssuedAt := truncateMicro (tkIssuedAt t)\<rparr>) ts \<and>
    (\<forall>t \<in> set ts. tkID t \<notin> tkID ` set (asTickets st))"
  using assms
proof (induction ts arbitrary: st)
  case (Cons t ts)
  then obtain st1 where i: "insertIssuedTicket env c t st = Inr st1"
    and rest: "foldE (insertIssuedTicket env c) ts st1 = Inr st'"
    by (auto simp: bindE_Inr_iff)
  have "\<exists>e. asEvents st1 = asEvents st @ [e] \<and> evType e = ''issued''"
    "asTickets st1 = asTickets st @ [t\<lparr>tkIssuedAt := truncateMicro (tkIssuedAt t)\<rparr>]" "tkID t \<notin> tkID ` set (asTickets st)"
    using i by (auto simp: insertIssuedTicket_def bindE_Inr_iff appendLifecycle_Inr_iff list_ex_key newEvent_def eventFor_def
        split: if_splits)
  then show ?case using Cons.IH [OF rest] by auto
qed simp

lemma switchRefused_None:
  "switchRefused st ts = None \<longleftrightarrow> (\<forall>t \<in> set ts. \<not> ticketCommerciallyVoid st t \<and> \<not> ticketAdmittedUnion st t)"
  by (induction ts) auto

text \<open>
  C11: An exchange that has not been consumed before either changes nothing or does the whole
  switch: every ticket of the source order is exchanged, none of them had been admitted (live,
  in quarantine, or learned from a device) or voided, at least as many are given up as are
  issued, and every new ticket is on record with no admission and no voiding of its own.
\<close>
theorem exchange_switches_the_order:
  assumes ok: "SwitchExchange env c x st = Inr st'" and new: "swEventID x \<notin> set (asConsumed st)"
    and known: "\<forall>e \<in> set (asEvents st). knownTicket st (evTicketID e)"
    and source: "source = orderTickets (swSourceOrderID x) (swOrganizerID x) st"
  shows "source \<noteq> [] \<and> length (swTickets x) \<le> length source \<and>
    list_all (\<lambda>t. ticketExchanged st' t \<and> \<not> ticketCommerciallyVoid st t \<and> \<not> ticketAdmittedUnion st t) source \<and>
    list_all (\<lambda>t. ticketRow (tkID t) st' \<noteq> None \<and> \<not> ticketCommerciallyVoid st' (tkID t) \<and>
      \<not> list_ex (\<lambda>e. evTicketID e = tkID t \<and> evType e \<in> set admittingEventTypes) (asEvents st')) (swTickets x)"
proof -
  from ok new show ?thesis
  proof (rule SwitchExchange_Inr)
    fix st1 ids r st2
    assume st1: "st1 = st\<lparr>asConsumed := asConsumed st @ [swEventID x]\<rparr>"
      and ids: "ids = orderTickets (swSourceOrderID x) (swOrganizerID x) st1" and some: "ids \<noteq> []"
      and le: "length (swTickets x) \<le> length ids" and free: "switchRefused st1 ids = None"
      and v: "foldE (voidTicket env c (identityOf r) ''exchanged'' (exchangedEventID env (swExchangeID x))) ids st1 = Inr st2"
      and i: "foldE (insertIssuedTicket env c) (swTickets x) st2 = Inr st'"
    have src: "ids = source" using source by (simp add: ids st1 orderTickets_def)
    have "ticketCommerciallyVoid st1 = ticketCommerciallyVoid st" "ticketAdmittedUnion st1 = ticketAdmittedUnion st"
      by (simp_all add: st1 ticketCommerciallyVoid_def ticketAdmittedUnion_def fun_eq_iff)
    then have unvoided: "\<forall>t \<in> set source. \<not> ticketCommerciallyVoid st t \<and> \<not> ticketAdmittedUnion st t"
      using free src by (simp add: switchRefused_None)
    let ?ev = "\<lambda>t. \<lparr>evID = exchangedEventID env (swExchangeID x) t, evTicketID = t, evType = ''exchanged'',
        evOccurredAt = truncateMicro (clDB c)\<rparr>"
    have void: "asEvents st2 = asEvents st @ map ?ev source" "asTickets st2 = asTickets st"
      using void_loop [OF v] src by (auto simp: st1 singletonTypes_def)
    obtain es where es: "asEvents st' = asEvents st @ map ?ev source @ es" "\<forall>e \<in> set es. evType e = ''issued''"
      and rows: "asTickets st' = asTickets st @ map (\<lambda>t. t\<lparr>tkIssuedAt := truncateMicro (tkIssuedAt t)\<rparr>) (swTickets x)"
      and fresh: "\<forall>t \<in> set (swTickets x). tkID t \<notin> tkID ` set (asTickets st)"
      using issue_loop [OF i] void by auto
    have "set source \<subseteq> tkID ` set (asTickets st)" by (auto simp: source orderTickets_def)
    then have old: "evTicketID e \<noteq> tkID t \<or> evType e = ''issued''" if "e \<in> set (asEvents st')" "t \<in> set (swTickets x)" for e t
    proof -
      have "evTicketID e \<in> tkID ` set (asTickets st) \<or> evType e = ''issued''"
        using that(1) es known \<open>set source \<subseteq> tkID ` set (asTickets st)\<close> by (auto simp: knownTicket_def)
      then show ?thesis using fresh that(2) by metis
    qed
    have "ticketExchanged st' t" if "t \<in> set source" for t using that es(1) by (auto simp: ticketExchanged_def list_ex_iff bex_Un)
    moreover have "ticketRow (tkID t) st' \<noteq> None" if "t \<in> set (swTickets x)" for t
      using that by (auto simp: ticketRow_def find_None_iff rows)
    moreover have "\<not> ticketCommerciallyVoid st' (tkID t) \<and>
        \<not> list_ex (\<lambda>e. evTicketID e = tkID t \<and> evType e \<in> set admittingEventTypes) (asEvents st')" if "t \<in> set (swTickets x)" for t
      using old [OF _ that] by (fastforce simp: ticketCommerciallyVoid_def list_ex_iff admittingEventTypes_def)
    ultimately show ?thesis using some le src unvoided by (simp add: list_all_iff)
  qed
qed

text \<open>An append over the sample keys succeeds on a ticket nothing is recorded of.\<close>

lemma sample_appends:
  assumes "aiType a \<in> set lifecycleTypes" and "knownTicket st (aiTicketID a)" and "\<forall>e \<in> set (asEvents st). evTicketID e \<noteq> aiTicketID a \<and> evID e \<noteq> aiEventID a"
    and "\<forall>i \<in> set (asIntegrity st). inTicketID i \<noteq> aiTicketID a \<and> inEventID i \<noteq> aiEventID a"
    and "\<forall>h \<in> set (asHeads st). hdTicketID h \<noteq> aiTicketID a"
  shows "appendLifecycle accessSample sampleClock a st =
    Inr (storedAt sampleClock a, appended accessSample sampleClock \<lparr>siPrivate = ''p'', siKID = ''k''\<rparr> a st)"
proof -
  have "find (\<lambda>h. hdTicketID h = aiTicketID a) (asHeads st) = None" using assms(5) by (simp add: find_None_iff)
  then have "loadHead (aiTicketID a) st = (0, GenesisHash)" by (simp add: loadHead_def)
  then show ?thesis
    unfolding appendLifecycle_Inr_iff using assms
    by (intro exI [of _ "\<lparr>siPrivate = ''p'', siKID = ''k''\<rparr>"])
      (auto simp: accessSample_def entryHash_def HashEntry_def newHead_def signedHead_def SignHead_def GenesisHash_def)
qed

definition sampleExchange :: SwitchExchangeInput where
  "sampleExchange = \<lparr>swEventID = 41, swExchangeID = 42, swSourceOrderID = 50, swOrganizerID = 70,
     swTickets = [(sampleTicket 1)\<lparr>tkOrderID := 51\<rparr>]\<rparr>"


lemma sample_refund:
  "\<exists>st'. RefundOrderTickets accessSample sampleClock 70 50 77 1 issuedSample =
    Inr (\<lparr>trRefundID = 77, trOrderID = 50, trTicketIDs = [1], trReplay = False\<rparr>, st')"
proof -
  let ?st = "issuedSample\<lparr>asBatches := [\<lparr>baOrganizerID = 70, baRefundID = 77, baOrderID = 50, baQuantity = 1\<rparr>]\<rparr>"
  have "appendLifecycle accessSample sampleClock (eventFor 1 (identityOf (sampleTicket 0)) (refundEventID accessSample 77 1) ''refunded'' 0) ?st =
     Inr (storedAt sampleClock (eventFor 1 (identityOf (sampleTicket 0)) (refundEventID accessSample 77 1) ''refunded'' 0),
       appended accessSample sampleClock \<lparr>siPrivate = ''p'', siKID = ''k''\<rparr>
        (eventFor 1 (identityOf (sampleTicket 0)) (refundEventID accessSample 77 1) ''refunded'' 0) ?st)"
    by (rule sample_appends) (simp_all add: eventFor_def lifecycleTypes_def knownTicket_def issuedSample_def emptyAccess_def sampleTicket_def)
  then show ?thesis
    by (simp add: RefundOrderTickets_def orderTickets_def issuedSample_def emptyAccess_def sampleTicket_def refundThatVoided_def
      boundBatch_def bindingAgrees_def ticketRow_def voidTicket_def Let_def)
qed

lemma sample_switch:
  "\<exists>st'. SwitchExchange accessSample sampleClock sampleExchange issuedSample = Inr st'"
proof -
  let ?st = "issuedSample\<lparr>asConsumed := [41]\<rparr>"
  let ?a = "eventFor 1 (identityOf (sampleTicket 0)) (exchangedEventID accessSample 42 1) ''exchanged'' 0"
  let ?s = "\<lparr>siPrivate = ''p'', siKID = ''k''\<rparr>"
  let ?st1 = "appended accessSample sampleClock ?s ?a ?st"
  let ?t = "(sampleTicket 1)\<lparr>tkOrderID := 51\<rparr>"
  let ?b = "eventFor 2 (identityOf ?t) (aeSHA1 accessSample (uuid_String 2 @ '':issued'')) ''issued'' 1000"
  let ?st2 = "?st1\<lparr>asTickets := asTickets ?st1 @ [?t\<lparr>tkIssuedAt := truncateMicro 1000\<rparr>]\<rparr>"
  have "appendLifecycle accessSample sampleClock ?a ?st = Inr (storedAt sampleClock ?a, ?st1)"
    by (rule sample_appends) (simp_all add: eventFor_def lifecycleTypes_def knownTicket_def issuedSample_def emptyAccess_def sampleTicket_def)
  moreover have "appendLifecycle accessSample sampleClock ?b ?st2 = Inr (storedAt sampleClock ?b, appended accessSample sampleClock ?s ?b ?st2)"
    by (rule sample_appends) (simp_all add: eventFor_def lifecycleTypes_def knownTicket_def issuedSample_def emptyAccess_def sampleTicket_def
       newEvent_def newIntegrity_def putHead_def newHead_def signedHead_def exchangedEventID_def accessSample_def)
  ultimately show ?thesis
    by (simp add: SwitchExchange_def orderTickets_def issuedSample_def emptyAccess_def sampleTicket_def sampleExchange_def
      ticketCommerciallyVoid_def ticketAdmittedUnion_def ticketRow_def voidTicket_def Let_def insertIssuedTicket_def seatIdentityOK_def)
qed

lemma sample_sha: "aeSHA1 accessSample x \<noteq> uuid_Nil"
proof -
  have "\<not> 2 ^ 128 dvd length x mod 1000 + 1" by (intro nat_dvd_not_less) (auto intro: le_less_trans [of _ 1000] simp: Suc_le_eq)
  then show ?thesis by (simp add: accessSample_def word_of_nat_eq_0_iff del: of_nat_add of_nat_Suc)
qed

theorem refund_voids_its_batch_witness:
  "\<exists>st'. RefundOrderTickets accessSample sampleClock 70 50 77 1 issuedSample =
      Inr (\<lparr>trRefundID = 77, trOrderID = 50, trTicketIDs = [1], trReplay = False\<rparr>, st') \<and> ticketRefunded st' 1 \<and>
    RefundOrderTickets accessSample sampleClock 70 50 77 1 st' =
      Inr (\<lparr>trRefundID = 77, trOrderID = 50, trTicketIDs = [1], trReplay = True\<rparr>, st')"
proof -
  obtain st' where s: "RefundOrderTickets accessSample sampleClock 70 50 77 1 issuedSample =
      Inr (\<lparr>trRefundID = 77, trOrderID = 50, trTicketIDs = [1], trReplay = False\<rparr>, st')"
    using sample_refund by blast
  have "distinct (map tkID (asTickets issuedSample))" by (simp add: issuedSample_def)
  from refund_voids_its_batch [OF s _ this, of sampleClock] show ?thesis using s sample_sha by auto
qed

theorem exchange_switches_the_order_witness:
  "\<exists>st'. SwitchExchange accessSample sampleClock sampleExchange issuedSample = Inr st' \<and>
    ticketExchanged st' 1 \<and> ticketRow 2 st' \<noteq> None \<and> \<not> ticketCommerciallyVoid st' 2"
proof -
  obtain st' where s: "SwitchExchange accessSample sampleClock sampleExchange issuedSample = Inr st'"
    using sample_switch by blast
  have "orderTickets 50 70 issuedSample = [1]" by (simp add: orderTickets_def issuedSample_def emptyAccess_def sampleTicket_def)
  then have src: "[1] = orderTickets (swSourceOrderID sampleExchange) (swOrganizerID sampleExchange) issuedSample"
    by (simp add: sampleExchange_def)
  show ?thesis
    using s exchange_switches_the_order [OF s _ _ src]
    by (auto simp: issuedSample_def emptyAccess_def sampleExchange_def sampleTicket_def)
qed

end
