(* ===== verification/Spec2Isabelle.thy ===== *)
theory Spec2Isabelle
  imports Catalog_Resolve Commerce_Settlement Payments_Service Payments_Attribution Inventory_Behaviour Access_Behaviour
begin

text \<open>
  A verification development of the ticketing platform's sale path: how a sale gets its
  price and its fees (catalog), how a reservation is quoted, claimed and persisted
  (commerce), how places are held, sold and given back (inventory), and how the captured
  money is attributed to the parties it is owed to (payments). The services are Go programs under \<open>src/services\<close>; what is modelled is
  their decision and arithmetic code, with every guard, early return and error of it.

  \<^bold>\<open>How the parts interact.\<close> Commerce's reserve handler asks catalog for a price
  resolution and a fee resolution, validates both, composes the charge, asks inventory for
  a hold, recomposes over the seats inventory granted, and persists one row whose snapshot
  explains its money. At checkout that row becomes a settlement plan which payments checks
  before it charges, allocates to payees to the cent, writes next to the capture fact, and
  reports.

  \<^bold>\<open>Theories.\<close>

  \<^item> \<open>Prelude\<close>, \<open>Text\<close>, \<open>Checked\<close>: Go's machine integers, instants, UUIDs, slices and
    sorting, decimal text, and results chained with early returns; the locale
    \<open>checked_add\<close> is the contract of an addition that refuses to leave a range.
  \<^item> \<open>Rule_Ranking\<close>: the displacement loop and the locale \<open>rule_axes\<close>, the contract that
    the three comparators of catalog satisfy.
  \<^item> \<open>Pricing\<close>, \<open>Splits\<close>, \<open>Fees\<close>: \<open>pricing.go\<close>, \<open>splits.go\<close> and \<open>fees.go\<close> of
    \<open>catalog/internal/store\<close>, each with its interpretation of \<open>rule_axes\<close>.
  \<^item> \<open>Catalog_Store\<close>, \<open>Catalog_Resolve\<close>: the tables, the writes with the CHECKs and
    triggers of the migrations, the two resolutions in one snapshot, and the operator's
    currency sweep (\<open>*_postgres.go\<close>, \<open>rules_validation.go\<close>, \<open>migrations/00*.sql\<close>).
  \<^item> \<open>Commerce_Fees\<close>, \<open>Commerce_Pricing\<close>: \<open>catalog_fees.go\<close> and \<open>catalog_pricing.go\<close> of
    \<open>commerce/internal/api\<close>.
  \<^item> \<open>Commerce_Request\<close>, \<open>Commerce_Reserve\<close>: the reservation half of \<open>server.go\<close>.
  \<^item> \<open>Commerce_Settlement\<close>: from a reservation row to the settlement plan, and the partner
    commission check of \<open>partner.go\<close>.
  \<^item> \<open>Payments_Splits\<close>, \<open>Payments_Settlement\<close>: \<open>splits.go\<close> and \<open>settlement.go\<close> of
    \<open>payments/internal\<close>, and the settlement table of migration 0004.

  \<^item> \<open>Inventory_State\<close>, \<open>Inventory_Holds\<close>, \<open>Inventory_Operations\<close>: the claims service's
    tables and its operations (\<open>inventory/internal/store\<close>: \<open>store.go\<close>, \<open>operational.go\<close>,
    \<open>reservations.go\<close>, \<open>capacity.go\<close>, \<open>channel_allocations.go\<close>, \<open>refund_returns.go\<close>,
    \<open>presale_codes.go\<close>, \<open>offering.go\<close>), each a function from the database to its answer and
    the database it commits.
  \<^item> \<open>Inventory_Machine\<close>, \<open>Inventory_Refinement\<close>: what a pool may do, as a step relation
    over pools, claims and allocations with its invariant, and the proof that every
    operation is a sequence of its moves.
  \<^item> \<open>Inventory_Runs\<close>, \<open>Inventory_Behaviour\<close>: histories of calls, with the locales
    \<open>timed_machine\<close> and \<open>timed_evolution\<close> interpreted on the service's step, what holds at the
    end of every history, and what single calls answer.

  \<^bold>\<open>Concurrency.\<close> Every inventory operation takes its pool's row lock, so operations on a
  pool are serial; a history is a list of calls in the order of their commits. Histories are
  assumed to have transaction start times in that order too: \<open>now()\<close> is fixed before the
  lock is waited for, and an operation queued behind a later one decides liveness by its
  own, earlier, instant. That situation is outside the theorems about histories.

  \<^bold>\<open>What is a parameter.\<close> The answers of other services, SHA-1 and SHA-256, the database's
  collation, generated identifiers and the clock are arguments of the definitions that use
  them; a theorem that relies on one of them names the documented law it needs.

  \<^bold>\<open>Bounds.\<close> Machine integers are mathematical integers with \<open>wrap64\<close> written where the
  code's arithmetic is unchecked; the bounds of the Go types are hypotheses (\<open>int64\<close>,
  \<open>machinePlan\<close>, \<open>machineRule\<close>). There is no fuel: every recursion is structural.

  \<^bold>\<open>Not modelled.\<close> Inventory's seated claims, listings, consumers and caches, access, the checkout and recovery half of commerce, refunds
  and exchanges, the charge operation and the hash-chained journal of payments, catalog's
  authoring and public reads; generated bindings, configuration, observability, the
  gateway and the frontends.
\<close>

end
